(* ===== verification/Prelude.thy ===== *)
theory Prelude
  imports Main "HOL-Library.Word" "HOL-Library.Sublist"
begin

text \<open>
  Shared material: the collections of rewrite rules the component theories extend, Go's
  string searches on byte strings (a Go string is a sequence of bytes, here a list of
  \<open>char\<close>), the sum type that stands for Go's \<open>(value, error)\<close> results, the loop that
  leaves at the first success or error, and facts on lists and maps.
\<close>

named_theorems go_str "Characteristic facts of Go's string searches"
named_theorems go_result "Case rules for value-or-error results"
named_theorems lifecycle "Unfolding rules of the sandbox lifecycle operations"

section \<open>Results\<close>

text \<open>
  A Go function that returns \<open>(T, error)\<close> is a function into \<open>'e + 'a\<close>: \<open>Inl e\<close> is the
  early return with a non-nil error.
\<close>

definition bind_result :: "'e + 'a \<Rightarrow> ('a \<Rightarrow> 'e + 'b) \<Rightarrow> 'e + 'b" where
  "bind_result r f = (case r of Inl e \<Rightarrow> Inl e | Inr x \<Rightarrow> f x)"

lemma bind_result_simps [simp]:
  "bind_result (Inl e) f = Inl e" "bind_result (Inr x) f = f x"
  by (simp_all add: bind_result_def)

lemma bind_result_Inr [go_result]:
  "bind_result r f = Inr y \<longleftrightarrow> (\<exists>x. r = Inr x \<and> f x = Inr y)"
  by (cases r) auto

lemma bind_result_Inl [go_result]:
  "bind_result r f = Inl e \<longleftrightarrow> r = Inl e \<or> (\<exists>x. r = Inr x \<and> f x = Inl e)"
  by (cases r) auto

text \<open>
  The loop shape \<open>for _, x := range xs { ok, err := f(x); if err != nil { return false, err };
  if ok { return true, nil } }; return false, nil\<close>.
\<close>

fun first_true :: "('a \<Rightarrow> 'e + bool) \<Rightarrow> 'a list \<Rightarrow> 'e + bool" where
  "first_true f [] = Inr False"
| "first_true f (x # xs) =
     (case f x of
        Inl e \<Rightarrow> Inl e
      | Inr ok \<Rightarrow> if ok then Inr True else first_true f xs)"

lemma first_true_cong [fundef_cong]:
  assumes "xs = ys" and "\<And>x. x \<in> set ys \<Longrightarrow> f x = g x"
  shows "first_true f xs = first_true g ys"
  using assms(2) unfolding assms(1) by (induction ys) (auto split: sum.splits)

lemma first_true_TrueD: "first_true f xs = Inr True \<Longrightarrow> \<exists>x \<in> set xs. f x = Inr True"
  by (induction xs) (auto split: sum.splits if_splits)

lemma first_true_False: "first_true f xs = Inr False \<longleftrightarrow> (\<forall>x \<in> set xs. f x = Inr False)"
  by (induction xs) (auto split: sum.splits)

lemma first_true_InlD: "first_true f xs = Inl e \<Longrightarrow> \<exists>x \<in> set xs. f x = Inl e"
  by (induction xs) (auto split: sum.splits if_splits)

lemma first_true_no_error:
  "(\<And>x. x \<in> set xs \<Longrightarrow> \<exists>b. f x = Inr b) \<Longrightarrow> \<exists>b. first_true f xs = Inr b"
  by (induction xs) (fastforce split: sum.splits)+

section \<open>Byte strings\<close>

text \<open>\<open>strings.IndexByte\<close> and \<open>strings.LastIndexByte\<close>; \<open>None\<close> is Go's \<open>-1\<close>.\<close>

fun index_byte :: "char \<Rightarrow> string \<Rightarrow> nat option" where
  "index_byte c [] = None"
| "index_byte c (x # xs) = (if x = c then Some 0 else map_option Suc (index_byte c xs))"

fun last_index_byte :: "char \<Rightarrow> string \<Rightarrow> nat option" where
  "last_index_byte c [] = None"
| "last_index_byte c (x # xs) =
     (case last_index_byte c xs of
        Some i \<Rightarrow> Some (Suc i)
      | None \<Rightarrow> if x = c then Some 0 else None)"

lemma index_byte_None [simp]: "index_byte c s = None \<longleftrightarrow> c \<notin> set s"
  by (induction s) auto

lemma index_byte_append [go_str]: "c \<notin> set p \<Longrightarrow> index_byte c (p @ c # s) = Some (length p)"
  by (induction p) auto

lemma index_byte_SomeD:
  "index_byte c s = Some i \<Longrightarrow> s = take i s @ c # drop (Suc i) s \<and> c \<notin> set (take i s) \<and> i < length s"
proof (induction s arbitrary: i)
  case Nil
  then show ?case by simp
next
  case (Cons x xs)
  show ?case
  proof (cases "x = c")
    case True
    with Cons.prems show ?thesis by simp
  next
    case False
    with Cons.prems obtain j where "index_byte c xs = Some j" "i = Suc j" by auto
    with Cons.IH [of j] False show ?thesis by auto
  qed
qed

lemma last_index_byte_None [simp]: "last_index_byte c s = None \<longleftrightarrow> c \<notin> set s"
  by (induction s) (auto split: option.splits)

lemma last_index_byte_append [go_str]:
  "c \<notin> set s \<Longrightarrow> last_index_byte c (p @ c # s) = Some (length p)"
proof (induction p)
  case Nil
  then have "last_index_byte c s = None" using last_index_byte_None by blast
  then show ?case by (simp del: last_index_byte_None)
qed simp

lemma index_byte_absent [go_str]: "c \<notin> set s \<Longrightarrow> index_byte c s = None"
  by simp

lemma last_index_byte_absent [go_str]: "c \<notin> set s \<Longrightarrow> last_index_byte c s = None"
  by simp

lemma last_index_byte_SomeD:
  "last_index_byte c s = Some i \<Longrightarrow>
     s = take i s @ c # drop (Suc i) s \<and> c \<notin> set (drop (Suc i) s) \<and> i < length s"
proof (induction s arbitrary: i)
  case Nil
  then show ?case by simp
next
  case (Cons x xs)
  show ?case
  proof (cases "last_index_byte c xs")
    case None
    with Cons.prems show ?thesis by (auto split: if_splits)
  next
    case (Some j)
    with Cons.prems have "i = Suc j" by simp
    with Cons.IH [OF Some] show ?thesis by auto
  qed
qed

text \<open>\<open>strings.HasPrefix\<close>, \<open>strings.Index\<close> and \<open>strings.Contains\<close>.\<close>

definition has_prefix :: "string \<Rightarrow> string \<Rightarrow> bool" where
  "has_prefix s p \<longleftrightarrow> take (length p) s = p"

fun index_of :: "string \<Rightarrow> string \<Rightarrow> nat option" where
  "index_of [] p = (if p = [] then Some 0 else None)"
| "index_of (x # xs) p =
     (if has_prefix (x # xs) p then Some 0 else map_option Suc (index_of xs p))"

definition go_contains :: "string \<Rightarrow> string \<Rightarrow> bool" where
  "go_contains s p \<longleftrightarrow> index_of s p \<noteq> None"

lemma has_prefix_append [simp]: "has_prefix (p @ s) p"
  by (simp add: has_prefix_def)

lemma has_prefix_iff: "has_prefix s p \<longleftrightarrow> (\<exists>t. s = p @ t)"
  unfolding has_prefix_def by (metis append_eq_conv_conj append_take_drop_id)

lemma has_prefix_Nil [simp]: "has_prefix s []"
  by (simp add: has_prefix_def)

lemma index_of_SomeD:
  "index_of s p = Some i \<Longrightarrow> i + length p \<le> length s \<and> take (length p) (drop i s) = p"
proof (induction s arbitrary: i)
  case Nil
  then show ?case by (simp split: if_splits)
next
  case (Cons x xs)
  show ?case
  proof (cases "has_prefix (x # xs) p")
    case True
    with Cons.prems have "i = 0" by simp
    moreover from True have "take (length p) (x # xs) = p" by (simp add: has_prefix_def)
    then have "length p \<le> length (x # xs)"
      by (metis linear take_all_iff)
    ultimately show ?thesis using \<open>take (length p) (x # xs) = p\<close> by simp
  next
    case False
    with Cons.prems obtain j where "index_of xs p = Some j" "i = Suc j" by auto
    with Cons.IH [of j] show ?thesis by simp
  qed
qed

lemma index_of_append_NoneD: "index_of s p \<noteq> None \<Longrightarrow> \<exists>a b. s = a @ p @ b"
proof -
  assume "index_of s p \<noteq> None"
  then obtain i where "index_of s p = Some i" by auto
  then have "take (length p) (drop i s) = p" using index_of_SomeD by blast
  then have "s = take i s @ p @ drop (length p) (drop i s)"
    by (metis append_take_drop_id)
  then show ?thesis by blast
qed

lemma index_of_infix: "index_of (a @ p @ b) p \<noteq> None"
proof (induction a)
  case Nil
  have "has_prefix (p @ b) p" by simp
  then show ?case by (cases "p @ b") auto
qed auto

lemma go_contains_iff: "go_contains s p \<longleftrightarrow> (\<exists>a b. s = a @ p @ b)"
  unfolding go_contains_def using index_of_append_NoneD index_of_infix by blast

text \<open>\<open>strings.TrimPrefix\<close>.\<close>

definition trim_prefix :: "string \<Rightarrow> string \<Rightarrow> string" where
  "trim_prefix s p = (if has_prefix s p then drop (length p) s else s)"

lemma trim_prefix_append [simp]: "trim_prefix (p @ s) p = s"
  by (simp add: trim_prefix_def)

section \<open>Maps and lists\<close>

lemma map_le_restrict: "(\<forall>k \<in> dom m. m k = n k) \<Longrightarrow> m \<subseteq>\<^sub>m n"
  by (auto simp: map_le_def)

lemma append_byte_inject:
  "c \<notin> set a \<Longrightarrow> c \<notin> set b \<Longrightarrow> a @ c # s = b @ c # t \<longleftrightarrow> a = b \<and> s = t"
proof (induction a arbitrary: b)
  case Nil
  then show ?case by (cases b) auto
next
  case (Cons x a)
  then show ?case by (cases b) auto
qed

lemma append_last_byte_inject:
  "c \<notin> set s \<Longrightarrow> c \<notin> set t \<Longrightarrow> a @ c # s = b @ c # t \<longleftrightarrow> a = b \<and> s = t"
proof -
  assume s: "c \<notin> set s" and t: "c \<notin> set t"
  have "a @ c # s = b @ c # t \<longleftrightarrow> rev s @ c # rev a = rev t @ c # rev b"
    by (metis append.assoc append_Cons append_Nil rev.simps(2) rev_append rev_rev_ident)
  with s t show ?thesis by (auto simp: append_byte_inject)
qed

end
