(* ===== verification/AuthzTuple.thy ===== *)
theory AuthzTuple
  imports Prelude
begin

text \<open>
  Relationship tuples of the authorization engine (pkg/authz/tuple.go and builders.go): objects
  \<open>type:id\<close>, subjects \<open>type:id\<close> or \<open>type:id#relation\<close>, tuples \<open>object#relation@subject\<close>, their
  printers and parsers, and the constructors callers build tuples with.
\<close>

section \<open>Data\<close>

record object =
  obj_type :: string
  obj_id :: string

record subject =
  sub_object :: object
  sub_relation :: string

record rel_tuple =
  tup_object :: object
  tup_relation :: string
  tup_subject :: subject

datatype authz_error =
    InvalidObject string
  | MissingSubject string
  | MissingRelation string
  | EmptyRelation string
  | NoRelationMapping string
  | DepthExceeded
  | NoTenant

abbreviation mk_object :: "string \<Rightarrow> string \<Rightarrow> object" where
  "mk_object t i \<equiv> \<lparr>obj_type = t, obj_id = i\<rparr>"

abbreviation mk_subject :: "object \<Rightarrow> string \<Rightarrow> subject" where
  "mk_subject obj r \<equiv> \<lparr>sub_object = obj, sub_relation = r\<rparr>"

section \<open>Printing\<close>

definition object_string :: "object \<Rightarrow> string" where
  "object_string o' = obj_type o' @ '':'' @ obj_id o'"

definition object_is_zero :: "object \<Rightarrow> bool" where
  "object_is_zero o' \<longleftrightarrow> obj_type o' = '''' \<and> obj_id o' = ''''"

definition user_type :: string where
  "user_type = ''user''"

definition user :: "string \<Rightarrow> subject" where
  "user i = mk_subject (mk_object user_type i) ''''"

definition userset_subject :: "object \<Rightarrow> string \<Rightarrow> subject" where
  "userset_subject obj r = mk_subject obj r"

definition is_user :: "subject \<Rightarrow> bool" where
  "is_user s \<longleftrightarrow> sub_relation s = '''' \<and> obj_type (sub_object s) = user_type"

definition subject_string :: "subject \<Rightarrow> string" where
  "subject_string s =
     (if sub_relation s = '''' then object_string (sub_object s)
      else object_string (sub_object s) @ ''#'' @ sub_relation s)"

definition tuple_string :: "rel_tuple \<Rightarrow> string" where
  "tuple_string t =
     object_string (tup_object t) @ ''#'' @ tup_relation t @ ''@'' @ subject_string (tup_subject t)"

definition new_tuple :: "object \<Rightarrow> string \<Rightarrow> subject \<Rightarrow> rel_tuple" where
  "new_tuple obj r s = \<lparr>tup_object = obj, tup_relation = r, tup_subject = s\<rparr>"

section \<open>Parsing\<close>

definition parse_object :: "string \<Rightarrow> authz_error + object" where
  "parse_object s =
     (case index_byte (CHR '':'') s of
        None \<Rightarrow> Inl (InvalidObject s)
      | Some i \<Rightarrow>
          if i = 0 \<or> i = length s - 1 then Inl (InvalidObject s)
          else Inr (mk_object (take i s) (drop (Suc i) s)))"

definition parse_subject :: "string \<Rightarrow> authz_error + subject" where
  "parse_subject s =
     (let (s', r) =
        (case last_index_byte (CHR ''#'') s of
           None \<Rightarrow> (s, '''')
         | Some i \<Rightarrow> (take i s, drop (Suc i) s))
      in bind_result (parse_object s') (\<lambda>obj. Inr (mk_subject obj r)))"

definition parse_tuple :: "string \<Rightarrow> authz_error + rel_tuple" where
  "parse_tuple s =
     (case last_index_byte (CHR ''@'') s of
        None \<Rightarrow> Inl (MissingSubject s)
      | Some at \<Rightarrow>
          let left = take at s; subj_str = drop (Suc at) s in
          (case last_index_byte (CHR ''#'') left of
             None \<Rightarrow> Inl (MissingRelation s)
           | Some h \<Rightarrow>
               let obj_str = take h left; r = drop (Suc h) left in
               bind_result (parse_object obj_str) (\<lambda>obj.
               bind_result (parse_subject subj_str) (\<lambda>subj.
                 if r = '''' then Inl (EmptyRelation s)
                 else Inr (new_tuple obj r subj)))))"

section \<open>Constructors\<close>

definition Org :: "string \<Rightarrow> object" where
  "Org i = mk_object ''organization'' i"

definition Workspace :: "string \<Rightarrow> object" where
  "Workspace i = mk_object ''workspace'' i"

definition Instance :: "string \<Rightarrow> object" where
  "Instance i = mk_object ''instance'' i"

definition Resource :: "string \<Rightarrow> string \<Rightarrow> object" where
  "Resource typ i = mk_object typ i"

definition org_membership :: "string \<Rightarrow> string \<Rightarrow> string \<Rightarrow> rel_tuple" where
  "org_membership org_id user_id role = new_tuple (Org org_id) role (user user_id)"

definition workspace_membership :: "string \<Rightarrow> string \<Rightarrow> string \<Rightarrow> rel_tuple" where
  "workspace_membership ws_id user_id role = new_tuple (Workspace ws_id) role (user user_id)"

definition workspace_parent :: "string \<Rightarrow> string \<Rightarrow> rel_tuple" where
  "workspace_parent ws_id org_id = new_tuple (Workspace ws_id) ''parent'' (mk_subject (Org org_id) '''')"

definition instance_parent :: "string \<Rightarrow> string \<Rightarrow> rel_tuple" where
  "instance_parent inst_id ws_id = new_tuple (Instance inst_id) ''parent'' (mk_subject (Workspace ws_id) '''')"

definition resource_parent :: "string \<Rightarrow> string \<Rightarrow> string \<Rightarrow> rel_tuple" where
  "resource_parent typ res_id inst_id =
     new_tuple (Resource typ res_id) ''parent'' (mk_subject (Instance inst_id) '''')"

definition resource_grant :: "string \<Rightarrow> string \<Rightarrow> string \<Rightarrow> string \<Rightarrow> rel_tuple" where
  "resource_grant typ res_id user_id r = new_tuple (Resource typ res_id) r (user user_id)"

lemmas builder_defs =
  Org_def Workspace_def Instance_def Resource_def org_membership_def workspace_membership_def
  workspace_parent_def instance_parent_def resource_parent_def resource_grant_def
  new_tuple_def user_def user_type_def

lemma is_user_user [simp]: "is_user (user i)"
  by (simp add: is_user_def user_def)

section \<open>Well-formed values and round trips\<close>

definition wf_object :: "object \<Rightarrow> bool" where
  "wf_object o' \<longleftrightarrow> obj_type o' \<noteq> '''' \<and> CHR '':'' \<notin> set (obj_type o') \<and> obj_id o' \<noteq> ''''"

definition wf_subject :: "subject \<Rightarrow> bool" where
  "wf_subject s \<longleftrightarrow> wf_object (sub_object s) \<and> CHR ''#'' \<notin> set (sub_relation s) \<and>
     (sub_relation s = '''' \<longrightarrow> CHR ''#'' \<notin> set (object_string (sub_object s)))"

definition wf_tuple :: "rel_tuple \<Rightarrow> bool" where
  "wf_tuple t \<longleftrightarrow> wf_object (tup_object t) \<and> wf_subject (tup_subject t) \<and>
     tup_relation t \<noteq> '''' \<and> CHR ''#'' \<notin> set (tup_relation t) \<and>
     CHR ''@'' \<notin> set (subject_string (tup_subject t))"

lemma parse_object_string: "wf_object o' \<Longrightarrow> parse_object (object_string o') = Inr o'"
  by (cases o') (auto simp: parse_object_def object_string_def wf_object_def index_byte_append)

lemma parse_object_Inr:
  "parse_object s = Inr o' \<longleftrightarrow> s = object_string o' \<and> wf_object o'"
proof
  assume "parse_object s = Inr o'"
  then obtain i where i: "index_byte (CHR '':'') s = Some i" "i \<noteq> 0" "i \<noteq> length s - 1"
    and o': "o' = mk_object (take i s) (drop (Suc i) s)"
    by (auto simp: parse_object_def split: option.splits if_splits)
  from index_byte_SomeD [OF i(1)] i(2,3) show "s = object_string o' \<and> wf_object o'"
    by (auto simp: o' object_string_def wf_object_def)
qed (auto simp: parse_object_string)

lemma object_string_inject:
  "CHR '':'' \<notin> set (obj_type a) \<Longrightarrow> CHR '':'' \<notin> set (obj_type b) \<Longrightarrow>
     object_string a = object_string b \<longleftrightarrow> a = b"
  by (cases a; cases b) (auto simp: object_string_def append_byte_inject)

lemma parse_subject_string:
  assumes "wf_subject s"
  shows "parse_subject (subject_string s) = Inr s"
proof (cases "sub_relation s = ''''")
  case True
  with assms show ?thesis
    by (cases s) (simp add: parse_subject_def subject_string_def wf_subject_def
        parse_object_string last_index_byte_absent del: last_index_byte_None)
next
  case False
  with assms show ?thesis
    by (cases s) (simp add: parse_subject_def subject_string_def wf_subject_def
        parse_object_string last_index_byte_append)
qed

text \<open>
  What the subject parser accepts: the canonical form, or the canonical form of a plain subject
  with a trailing \<open>#\<close> (an empty relation), which it drops.
\<close>

lemma parse_subject_Inr:
  assumes "parse_subject s = Inr sub"
  shows "wf_object (sub_object sub)" "CHR ''#'' \<notin> set (sub_relation sub)"
    "s = subject_string sub \<or> sub_relation sub = '''' \<and> s = subject_string sub @ ''#''"
proof -
  show "wf_object (sub_object sub)"
    using assms by (auto simp: parse_subject_def go_result parse_object_Inr split: option.splits)
  show "CHR ''#'' \<notin> set (sub_relation sub)"
    using assms by (auto simp: parse_subject_def go_result split: option.splits
        dest: last_index_byte_SomeD)
  show "s = subject_string sub \<or> sub_relation sub = '''' \<and> s = subject_string sub @ ''#''"
  proof (cases "last_index_byte (CHR ''#'') s")
    case None
    with assms show ?thesis
      by (auto simp: parse_subject_def go_result parse_object_Inr subject_string_def)
  next
    case (Some i)
    with assms have "parse_object (take i s) = Inr (sub_object sub)" "sub_relation sub = drop (Suc i) s"
      by (auto simp: parse_subject_def go_result)
    then have "take i s = object_string (sub_object sub)" "sub_relation sub = drop (Suc i) s"
      by (auto simp: parse_object_Inr)
    with last_index_byte_SomeD [OF Some] show ?thesis
      by (metis append.assoc append_Cons append_Nil append_Nil2 subject_string_def)
  qed
qed



end
