(* ===== verification/AuthzSchema.thy ===== *)
theory AuthzSchema
  imports AuthzTuple
begin

text \<open>
  The authorization schema (pkg/authz/schema.go): per type, named relations; per relation, the
  union of the branches a user can hold it by.
\<close>

record tuple_to_userset =
  ttu_tupleset :: string
  ttu_computed_userset :: string

record userset =
  us_this :: bool
  us_computed :: string
  us_ttu :: "tuple_to_userset option"

record rewrite =
  rw_union :: "userset list"

record type_def =
  td_name :: string
  td_relations :: "string \<rightharpoonup> rewrite"

record schema =
  sch_types :: "string \<rightharpoonup> type_def"

definition us_direct :: userset where
  "us_direct = \<lparr>us_this = True, us_computed = '''', us_ttu = None\<rparr>"

definition us_comp :: "string \<Rightarrow> userset" where
  "us_comp c = \<lparr>us_this = False, us_computed = c, us_ttu = None\<rparr>"

definition us_from :: "string \<Rightarrow> string \<Rightarrow> userset" where
  "us_from ts c = \<lparr>us_this = False, us_computed = '''',
     us_ttu = Some \<lparr>ttu_tupleset = ts, ttu_computed_userset = c\<rparr>\<rparr>"

definition schema_relation :: "schema \<Rightarrow> string \<Rightarrow> string \<Rightarrow> rewrite option" where
  "schema_relation s typ r =
     (case sch_types s typ of
        None \<Rightarrow> None
      | Some t \<Rightarrow>
          (case td_relations t r of
             None \<Rightarrow> None
           | Some rw \<Rightarrow> if rw_union rw = [] then Some \<lparr>rw_union = [us_direct]\<rparr> else Some rw))"

definition direct :: rewrite where
  "direct = \<lparr>rw_union = [us_direct]\<rparr>"

definition this_or :: "string list \<Rightarrow> rewrite" where
  "this_or computed = \<lparr>rw_union = us_direct # map us_comp computed\<rparr>"

definition from_parent :: "string \<Rightarrow> string \<Rightarrow> string list \<Rightarrow> rewrite" where
  "from_parent parent_rel computed_on_parent also_computed =
     \<lparr>rw_union = us_direct # us_from parent_rel computed_on_parent # map us_comp also_computed\<rparr>"

definition computed_only :: "string \<Rightarrow> rewrite" where
  "computed_only c = \<lparr>rw_union = [us_comp c]\<rparr>"

definition resource_type_def :: "string \<Rightarrow> type_def" where
  "resource_type_def n = \<lparr>td_name = n, td_relations = map_of
     [(''parent'', direct),
      (''manager'', from_parent ''parent'' ''admin'' []),
      (''editor'', from_parent ''parent'' ''member'' [''manager'']),
      (''viewer'', from_parent ''parent'' ''viewer'' [''editor'']),
      (''can_view'', computed_only ''viewer''),
      (''can_edit'', computed_only ''editor''),
      (''can_delete'', computed_only ''manager'')]\<rparr>"

definition organization_type_def :: type_def where
  "organization_type_def = \<lparr>td_name = ''organization'', td_relations = map_of
     [(''owner'', direct),
      (''admin'', this_or [''owner'']),
      (''member'', this_or [''admin'']),
      (''viewer'', this_or [''member'']),
      (''can_manage_billing'', computed_only ''owner''),
      (''can_delete'', computed_only ''owner''),
      (''can_manage_members'', computed_only ''admin''),
      (''can_manage_workspaces'', computed_only ''admin''),
      (''can_manage_storage'', computed_only ''admin''),
      (''can_view'', computed_only ''viewer''),
      (''can_edit'', computed_only ''member'')]\<rparr>"

definition workspace_type_def :: type_def where
  "workspace_type_def = \<lparr>td_name = ''workspace'', td_relations = map_of
     [(''parent'', direct),
      (''admin'', from_parent ''parent'' ''admin'' []),
      (''member'', from_parent ''parent'' ''member'' [''admin'']),
      (''viewer'', from_parent ''parent'' ''viewer'' [''member'']),
      (''can_manage_members'', computed_only ''admin''),
      (''can_manage_storage'', computed_only ''admin''),
      (''can_view'', computed_only ''viewer''),
      (''can_edit'', computed_only ''member''),
      (''can_delete'', computed_only ''admin'')]\<rparr>"

definition instance_type_def :: type_def where
  "instance_type_def = \<lparr>td_name = ''instance'', td_relations = map_of
     [(''parent'', direct),
      (''admin'', from_parent ''parent'' ''admin'' []),
      (''member'', from_parent ''parent'' ''member'' [''admin'']),
      (''viewer'', from_parent ''parent'' ''viewer'' [''member'']),
      (''can_manage_storage'', computed_only ''admin''),
      (''can_view'', computed_only ''viewer''),
      (''can_edit'', computed_only ''member'')]\<rparr>"

definition everstack_schema :: schema where
  "everstack_schema = \<lparr>sch_types = map_of
     [(user_type, \<lparr>td_name = user_type, td_relations = Map.empty\<rparr>),
      (''organization'', organization_type_def),
      (''workspace'', workspace_type_def),
      (''instance'', instance_type_def),
      (''resource'', resource_type_def ''resource'')]\<rparr>"

definition default_resource_types :: "string list" where
  "default_resource_types = [''dataset'', ''agent'', ''prompt'', ''alert'', ''trace_view'']"

fun with_resource_types :: "schema \<Rightarrow> string list \<Rightarrow> schema" where
  "with_resource_types s [] = s"
| "with_resource_types s (n # ns) =
     with_resource_types (s\<lparr>sch_types := (sch_types s)(n \<mapsto> resource_type_def n)\<rparr>) ns"

definition default_schema :: schema where
  "default_schema = with_resource_types everstack_schema default_resource_types"

lemmas type_defs =
  organization_type_def_def workspace_type_def_def instance_type_def_def resource_type_def_def

lemmas rewrite_defs =
  direct_def this_or_def from_parent_def computed_only_def us_direct_def us_comp_def us_from_def

section \<open>Facts\<close>

definition wf_schema :: "schema \<Rightarrow> bool" where
  "wf_schema s \<longleftrightarrow> (\<forall>typ r. schema_relation s typ r \<noteq> None \<longrightarrow>
     CHR '':'' \<notin> set typ \<and> CHR ''#'' \<notin> set r)"

lemma sch_types_with_resource_types:
  "sch_types (with_resource_types s ns) t =
     (if t \<in> set ns then Some (resource_type_def t) else sch_types s t)"
  by (induction ns arbitrary: s) auto

lemma schema_relation_Some:
  "schema_relation s typ r = Some rw \<longleftrightarrow>
     (\<exists>t rw'. sch_types s typ = Some t \<and> td_relations t r = Some rw' \<and>
        rw = (if rw_union rw' = [] then \<lparr>rw_union = [us_direct]\<rparr> else rw'))"
  by (auto simp: schema_relation_def split: option.splits)

text \<open>The kind of a type: which of the five shapes of the model its relations have.\<close>

definition resource_like :: "string list \<Rightarrow> string \<Rightarrow> bool" where
  "resource_like ns t \<longleftrightarrow> t \<in> set ns \<or> t = ''resource''"

definition proper_names :: "string list \<Rightarrow> bool" where
  "proper_names ns \<longleftrightarrow>
     (\<forall>n \<in> set ns. n \<notin> {''user'', ''organization'', ''workspace'', ''instance''} \<and> CHR '':'' \<notin> set n)"

lemma everstack_types:
  assumes "proper_names ns"
  shows "sch_types (with_resource_types everstack_schema ns) t =
    (if t = ''user'' then Some \<lparr>td_name = ''user'', td_relations = Map.empty\<rparr>
     else if t = ''organization'' then Some organization_type_def
     else if t = ''workspace'' then Some workspace_type_def
     else if t = ''instance'' then Some instance_type_def
     else if resource_like ns t then Some (resource_type_def t)
     else None)"
  using assms
  by (auto simp: sch_types_with_resource_types everstack_schema_def user_type_def proper_names_def
      resource_like_def)

lemma wf_everstack_schema:
  assumes "proper_names ns"
  shows "wf_schema (with_resource_types everstack_schema ns)"
  using assms
  by (auto simp: wf_schema_def schema_relation_def everstack_types type_defs proper_names_def
      resource_like_def split: option.splits if_splits)

lemma proper_default: "proper_names default_resource_types"
  by (simp add: proper_names_def default_resource_types_def)

end
