(* ===== verification/AuthzModel.thy ===== *)
theory AuthzModel
  imports Prelude
begin

text \<open>
  The coarse role and permission model (pkg/authz/model.go). Roles and permissions are Go string
  types, so any string can occur where one is expected; the constants are the known ones.
\<close>

type_synonym role = string
type_synonym permission = string

definition role_owner :: role where "role_owner = ''owner''"
definition role_admin :: role where "role_admin = ''admin''"
definition role_member :: role where "role_member = ''member''"
definition role_viewer :: role where "role_viewer = ''viewer''"

definition all_roles :: "role list" where
  "all_roles = [role_owner, role_admin, role_member, role_viewer]"

text \<open>The map \<open>rank\<close>; reading an absent key of a Go map gives the zero value.\<close>

definition rank_map :: "role \<rightharpoonup> nat" where
  "rank_map = map_of [(role_viewer, 1), (role_member, 2), (role_admin, 3), (role_owner, 4)]"

definition rank :: "role \<Rightarrow> nat" where
  "rank r = (case rank_map r of None \<Rightarrow> 0 | Some n \<Rightarrow> n)"

definition valid_role :: "role \<Rightarrow> bool" where
  "valid_role r \<longleftrightarrow> rank_map r \<noteq> None"

definition at_least :: "role \<Rightarrow> role \<Rightarrow> bool" where
  "at_least r other \<longleftrightarrow> rank other \<le> rank r"

lemmas role_defs = role_owner_def role_admin_def role_member_def role_viewer_def

definition perm_org_view :: permission where "perm_org_view = ''org:view''"
definition perm_org_manage_members :: permission where
  "perm_org_manage_members = ''org:manage_members''"
definition perm_org_manage_billing :: permission where
  "perm_org_manage_billing = ''org:manage_billing''"
definition perm_org_manage_workspaces :: permission where
  "perm_org_manage_workspaces = ''org:manage_workspaces''"
definition perm_org_delete :: permission where "perm_org_delete = ''org:delete''"
definition perm_workspace_manage :: permission where "perm_workspace_manage = ''workspace:manage''"
definition perm_resource_view :: permission where "perm_resource_view = ''resource:view''"
definition perm_resource_create :: permission where "perm_resource_create = ''resource:create''"
definition perm_resource_edit :: permission where "perm_resource_edit = ''resource:edit''"
definition perm_resource_delete :: permission where "perm_resource_delete = ''resource:delete''"
definition perm_storage_read :: permission where "perm_storage_read = ''storage:read''"
definition perm_storage_write :: permission where "perm_storage_write = ''storage:write''"
definition perm_storage_manage :: permission where "perm_storage_manage = ''storage:manage''"

lemmas perm_defs =
  perm_org_view_def perm_org_manage_members_def perm_org_manage_billing_def
  perm_org_manage_workspaces_def perm_org_delete_def perm_workspace_manage_def
  perm_resource_view_def perm_resource_create_def perm_resource_edit_def
  perm_resource_delete_def perm_storage_read_def perm_storage_write_def perm_storage_manage_def

definition all_permissions :: "permission list" where
  "all_permissions =
     [perm_org_view, perm_org_manage_members, perm_org_manage_billing, perm_org_manage_workspaces,
      perm_org_delete, perm_workspace_manage, perm_resource_view, perm_resource_create,
      perm_resource_edit, perm_resource_delete, perm_storage_read, perm_storage_write,
      perm_storage_manage]"

definition coarse_matrix :: "role \<rightharpoonup> permission list" where
  "coarse_matrix = map_of
     [(role_owner,
        [perm_org_view, perm_org_manage_members, perm_org_manage_billing,
         perm_org_manage_workspaces, perm_org_delete, perm_workspace_manage, perm_resource_view,
         perm_resource_create, perm_resource_edit, perm_resource_delete, perm_storage_read,
         perm_storage_write, perm_storage_manage]),
      (role_admin,
        [perm_org_view, perm_org_manage_members, perm_org_manage_workspaces,
         perm_workspace_manage, perm_resource_view, perm_resource_create, perm_resource_edit,
         perm_resource_delete, perm_storage_read, perm_storage_write, perm_storage_manage]),
      (role_member,
        [perm_org_view, perm_resource_view, perm_resource_create, perm_resource_edit,
         perm_storage_read, perm_storage_write]),
      (role_viewer, [perm_org_view, perm_resource_view, perm_storage_read])]"

definition can :: "role \<Rightarrow> permission \<Rightarrow> bool" where
  "can r p = (case coarse_matrix r of None \<Rightarrow> False | Some ps \<Rightarrow> p \<in> set ps)"

definition permissions_for :: "role \<Rightarrow> permission list" where
  "permissions_for r = filter (can r) all_permissions"

section \<open>Facts\<close>

lemma rank_simps [simp]:
  "rank ''owner'' = 4" "rank ''admin'' = 3" "rank ''member'' = 2" "rank ''viewer'' = 1"
  by (simp_all add: rank_def rank_map_def role_defs)

lemma valid_role_iff: "valid_role r \<longleftrightarrow> r \<in> set all_roles"
  by (auto simp: valid_role_def rank_map_def all_roles_def)

lemma valid_role_cases:
  assumes "valid_role r"
  obtains "r = ''owner''" | "r = ''admin''" | "r = ''member''" | "r = ''viewer''"
  using assms by (auto simp: valid_role_iff all_roles_def role_defs)

lemma valid_role_rank: "valid_role r \<longleftrightarrow> 0 < rank r"
  by (auto simp: valid_role_def rank_def rank_map_def role_defs split: option.splits if_splits)

lemma can_simps:
  "can ''owner'' p \<longleftrightarrow> p \<in> set all_permissions"
  "can ''admin'' p \<longleftrightarrow> p \<in> set all_permissions \<and> p \<noteq> perm_org_manage_billing \<and> p \<noteq> perm_org_delete"
  "can ''member'' p \<longleftrightarrow> p \<in> {perm_org_view, perm_resource_view, perm_resource_create,
      perm_resource_edit, perm_storage_read, perm_storage_write}"
  "can ''viewer'' p \<longleftrightarrow> p \<in> {perm_org_view, perm_resource_view, perm_storage_read}"
  by (auto simp: can_def coarse_matrix_def role_defs all_permissions_def perm_defs)

lemma can_invalid: "\<not> valid_role r \<Longrightarrow> \<not> can r p"
  by (auto simp: valid_role_iff all_roles_def can_def coarse_matrix_def split: option.splits)

lemma can_all_permissions: "can r p \<Longrightarrow> p \<in> set all_permissions"
  by (cases "valid_role r")
     (auto elim!: valid_role_cases simp: can_simps can_invalid all_permissions_def)

text \<open>
  The coarse matrix is monotone in the role order and the snapshot is exactly the matrix: a
  permission of a role is one of every role at least as privileged, and the permission list a
  role is shown holds exactly what \<open>Can\<close> grants.
\<close>

theorem coarse_matrix_monotone:
  "(\<forall>r r' p. at_least r r' \<and> can r' p \<longrightarrow> can r p) \<and>
   (\<forall>r p. can r p \<longleftrightarrow> p \<in> set (permissions_for r))"
proof (intro conjI allI impI)
  fix r r' p assume *: "at_least r r' \<and> can r' p"
  then have v': "valid_role r'" using can_invalid by blast
  with * have v: "valid_role r" by (simp add: at_least_def valid_role_rank)
  from v' v * show "can r p"
    by (elim valid_role_cases)
       (auto simp: at_least_def can_simps all_permissions_def perm_defs)
next
  fix r p show "can r p \<longleftrightarrow> p \<in> set (permissions_for r)"
    by (auto simp: permissions_for_def can_all_permissions)
qed

theorem coarse_matrix_monotone_witness:
  "at_least ''admin'' ''member'' \<and> can ''member'' ''resource:edit'' \<and> can ''admin'' ''resource:edit''"
proof -
  have "at_least ''admin'' ''member'' \<and> can ''member'' ''resource:edit''"
    by (simp add: at_least_def can_simps perm_defs)
  with coarse_matrix_monotone show ?thesis by blast
qed

end
