(* ===== verification/AuthzEngine.thy ===== *)
theory AuthzEngine
  imports AuthzSchema AuthzModel
begin

text \<open>
  The decision point (pkg/authz/engine.go): \<open>Check\<close> walks the schema's rewrites and the stored
  tuples, with the path's visited set and a depth bound of 32. The tuple store is a reader
  \<open>object \<Rightarrow> relation \<Rightarrow> error + subjects\<close>, so the order its map or query returns subjects in is
  arbitrary.
\<close>

type_synonym reader = "object \<Rightarrow> string \<Rightarrow> authz_error + subject list"

definition max_depth :: nat where
  "max_depth = 32"

definition permission_relation :: "permission \<Rightarrow> string" where
  "permission_relation p =
     (if p \<in> {perm_org_view, perm_resource_view, perm_storage_read} then ''can_view''
      else if p \<in> {perm_resource_create, perm_resource_edit, perm_storage_write} then ''can_edit''
      else if p = perm_resource_delete then ''can_delete''
      else if p = perm_org_manage_members then ''can_manage_members''
      else if p = perm_org_manage_billing then ''can_manage_billing''
      else if p = perm_org_manage_workspaces then ''can_manage_workspaces''
      else if p = perm_storage_manage then ''can_manage_storage''
      else if p = perm_workspace_manage then ''can_manage_members''
      else if p = perm_org_delete then ''can_delete''
      else '''')"

definition check_key :: "object \<Rightarrow> string \<Rightarrow> string" where
  "check_key obj r = object_string obj @ ''#'' @ r"

text \<open>
  One branch of a rewrite. \<open>chk\<close> is the recursive \<open>check\<close> one level deeper. A branch with
  neither a computed relation nor a tupleset is read as direct tuples, whatever its \<open>This\<close> field.
\<close>

definition eval_userset ::
  "reader \<Rightarrow> string \<Rightarrow> (string \<Rightarrow> object \<Rightarrow> authz_error + bool) \<Rightarrow> string \<Rightarrow> object \<Rightarrow> userset
     \<Rightarrow> authz_error + bool" where
  "eval_userset rd user_id chk r obj u =
     (if us_computed u \<noteq> '''' then chk (us_computed u) obj
      else
        (case us_ttu u of
           Some t \<Rightarrow>
             bind_result (rd obj (ttu_tupleset t))
               (first_true (\<lambda>s. if sub_relation s \<noteq> '''' then Inr False
                                else chk (ttu_computed_userset t) (sub_object s)))
         | None \<Rightarrow>
             bind_result (rd obj r)
               (first_true (\<lambda>s. if is_user s
                                then Inr (obj_id (sub_object s) = user_id \<or> obj_id (sub_object s) = ''*'')
                                else chk (sub_relation s) (sub_object s)))))"

function check ::
  "schema \<Rightarrow> reader \<Rightarrow> string \<Rightarrow> nat \<Rightarrow> string set \<Rightarrow> string \<Rightarrow> object \<Rightarrow> authz_error + bool" where
  "check sch rd user_id depth visited r obj =
     (if max_depth < depth then Inl DepthExceeded
      else if check_key obj r \<in> visited then Inr False
      else
        (case schema_relation sch (obj_type obj) r of
           None \<Rightarrow> Inr False
         | Some rw \<Rightarrow>
             first_true
               (eval_userset rd user_id
                  (\<lambda>r' obj'. check sch rd user_id (Suc depth) (insert (check_key obj r) visited) r' obj')
                  r obj)
               (rw_union rw)))"
  by pat_completeness auto
termination
  by (relation "measure (\<lambda>(sch, rd, user_id, depth, visited, r, obj). Suc max_depth - depth)") auto

declare check.simps [simp del]

definition Check :: "schema \<Rightarrow> reader \<Rightarrow> string \<Rightarrow> string \<Rightarrow> object \<Rightarrow> authz_error + bool" where
  "Check sch rd user_id r obj =
     (if user_id = '''' then Inr False
      else if obj_type obj = '''' \<or> obj_id obj = '''' then Inr False
      else check sch rd user_id 0 {} r obj)"

definition check_permission ::
  "schema \<Rightarrow> reader \<Rightarrow> string \<Rightarrow> permission \<Rightarrow> object \<Rightarrow> authz_error + bool" where
  "check_permission sch rd user_id perm obj =
     (let r = permission_relation perm
      in if r = '''' then Inl (NoRelationMapping perm) else Check sch rd user_id r obj)"

section \<open>The specification: a derivation of a relation\<close>

text \<open>
  A user has a relation on an object if some branch of its rewrite gives it: a direct or public
  user tuple, membership in a userset subject, a computed relation on the same object, or the
  computed relation on a related object. No depth, no visited set, no order.
\<close>

inductive has_relation :: "schema \<Rightarrow> reader \<Rightarrow> string \<Rightarrow> string \<Rightarrow> object \<Rightarrow> bool"
  for sch :: schema and rd :: reader and user_id :: string where
  direct_user:
    "schema_relation sch (obj_type obj) r = Some rw \<Longrightarrow> u \<in> set (rw_union rw) \<Longrightarrow>
     us_computed u = '''' \<Longrightarrow> us_ttu u = None \<Longrightarrow> rd obj r = Inr subs \<Longrightarrow> s \<in> set subs \<Longrightarrow>
     is_user s \<Longrightarrow> obj_id (sub_object s) = user_id \<or> obj_id (sub_object s) = ''*'' \<Longrightarrow>
     has_relation sch rd user_id r obj"
| direct_userset:
    "schema_relation sch (obj_type obj) r = Some rw \<Longrightarrow> u \<in> set (rw_union rw) \<Longrightarrow>
     us_computed u = '''' \<Longrightarrow> us_ttu u = None \<Longrightarrow> rd obj r = Inr subs \<Longrightarrow> s \<in> set subs \<Longrightarrow>
     \<not> is_user s \<Longrightarrow> has_relation sch rd user_id (sub_relation s) (sub_object s) \<Longrightarrow>
     has_relation sch rd user_id r obj"
| computed:
    "schema_relation sch (obj_type obj) r = Some rw \<Longrightarrow> u \<in> set (rw_union rw) \<Longrightarrow>
     us_computed u \<noteq> '''' \<Longrightarrow> has_relation sch rd user_id (us_computed u) obj \<Longrightarrow>
     has_relation sch rd user_id r obj"
| from_related:
    "schema_relation sch (obj_type obj) r = Some rw \<Longrightarrow> u \<in> set (rw_union rw) \<Longrightarrow>
     us_computed u = '''' \<Longrightarrow> us_ttu u = Some t \<Longrightarrow> rd obj (ttu_tupleset t) = Inr subs \<Longrightarrow>
     s \<in> set subs \<Longrightarrow> sub_relation s = '''' \<Longrightarrow>
     has_relation sch rd user_id (ttu_computed_userset t) (sub_object s) \<Longrightarrow>
     has_relation sch rd user_id r obj"

text \<open>
  What one branch asks of the relations one level below, and its link to the loop body
  \<open>eval_userset\<close>: a branch answered true holds, and a branch that holds is not answered false.
\<close>

definition branch_holds ::
  "reader \<Rightarrow> string \<Rightarrow> (string \<Rightarrow> object \<Rightarrow> bool) \<Rightarrow> string \<Rightarrow> object \<Rightarrow> userset \<Rightarrow> bool" where
  "branch_holds rd user_id F r obj u \<longleftrightarrow>
     (if us_computed u \<noteq> '''' then F (us_computed u) obj
      else (case us_ttu u of
          Some t \<Rightarrow> (\<exists>subs s. rd obj (ttu_tupleset t) = Inr subs \<and> s \<in> set subs \<and>
            sub_relation s = '''' \<and> F (ttu_computed_userset t) (sub_object s))
        | None \<Rightarrow> (\<exists>subs s. rd obj r = Inr subs \<and> s \<in> set subs \<and>
            (if is_user s
             then obj_id (sub_object s) = user_id \<or> obj_id (sub_object s) = ''*''
             else F (sub_relation s) (sub_object s)))))"

lemma branch_holds_mono:
  "branch_holds rd user_id F r obj u \<Longrightarrow> (\<And>r' obj'. F r' obj' \<Longrightarrow> G r' obj') \<Longrightarrow>
     branch_holds rd user_id G r obj u"
  unfolding branch_holds_def by (fastforce split: if_splits option.splits)

lemma branch_holds_has_relation:
  assumes "branch_holds rd user_id (has_relation sch rd user_id) r obj u"
    "schema_relation sch (obj_type obj) r = Some rw" "u \<in> set (rw_union rw)"
  shows "has_relation sch rd user_id r obj"
  using assms unfolding branch_holds_def
  by (auto split: if_splits option.splits intro: has_relation.intros)

lemma eval_userset_TrueD:
  assumes "eval_userset rd user_id chk r obj u = Inr True"
    and chk: "\<And>r' obj'. chk r' obj' = Inr True \<Longrightarrow> F r' obj'"
  shows "branch_holds rd user_id F r obj u"
  using assms(1) chk unfolding eval_userset_def branch_holds_def
  by (fastforce simp: go_result dest!: first_true_TrueD split: if_splits option.splits)

lemma eval_userset_not_False:
  assumes "branch_holds rd user_id F r obj u"
    and chk: "\<And>r' obj'. F r' obj' \<Longrightarrow> chk r' obj' \<noteq> Inr False"
  shows "eval_userset rd user_id chk r obj u \<noteq> Inr False"
  using assms unfolding eval_userset_def branch_holds_def
  by (fastforce simp: first_true_False split: if_splits option.splits)

section \<open>Soundness\<close>

lemma check_sound:
  "check sch rd user_id depth visited r obj = Inr True \<Longrightarrow> has_relation sch rd user_id r obj"
proof (induction sch rd user_id depth visited r obj rule: check.induct)
  case (1 sch rd user_id depth visited r obj)
  from "1.prems" obtain rw u where
    d: "\<not> max_depth < depth" "check_key obj r \<notin> visited"
    and rw: "schema_relation sch (obj_type obj) r = Some rw" "u \<in> set (rw_union rw)"
    and ev: "eval_userset rd user_id
      (\<lambda>r' obj'. check sch rd user_id (Suc depth) (insert (check_key obj r) visited) r' obj') r obj u
      = Inr True"
    by (subst (asm) check.simps) (auto split: if_splits option.splits dest!: first_true_TrueD)
  have "branch_holds rd user_id (has_relation sch rd user_id) r obj u"
    by (rule eval_userset_TrueD [OF ev]) (rule "1.IH" [OF d rw])
  then show ?case using rw by (rule branch_holds_has_relation)
qed

section \<open>Completeness\<close>

text \<open>
  Derivations of bounded height. A derivation of least height repeats no object and relation on
  any of its paths, so the visited set never prunes it.
\<close>

fun has_relation_n :: "schema \<Rightarrow> reader \<Rightarrow> string \<Rightarrow> nat \<Rightarrow> string \<Rightarrow> object \<Rightarrow> bool" where
  "has_relation_n sch rd user_id 0 = (\<lambda>r obj. False)"
| "has_relation_n sch rd user_id (Suc n) = (\<lambda>r obj.
     \<exists>rw u. schema_relation sch (obj_type obj) r = Some rw \<and> u \<in> set (rw_union rw) \<and>
       branch_holds rd user_id (has_relation_n sch rd user_id n) r obj u)"

lemma has_relation_n_Suc:
  "has_relation_n sch rd user_id n r obj \<Longrightarrow> has_relation_n sch rd user_id (Suc n) r obj"
proof (induction n arbitrary: r obj)
  case (Suc n)
  from Suc.prems obtain rw u where "schema_relation sch (obj_type obj) r = Some rw"
    "u \<in> set (rw_union rw)" "branch_holds rd user_id (has_relation_n sch rd user_id n) r obj u"
    by auto
  moreover have "branch_holds rd user_id (has_relation_n sch rd user_id (Suc n)) r obj u"
    by (rule branch_holds_mono [OF calculation(3)]) (rule Suc.IH)
  ultimately show ?case by (subst has_relation_n.simps) blast
qed simp

lemma has_relation_n_mono:
  "m \<le> n \<Longrightarrow> has_relation_n sch rd user_id m r obj \<Longrightarrow> has_relation_n sch rd user_id n r obj"
  by (induction n rule: dec_induct) (auto intro: has_relation_n_Suc simp del: has_relation_n.simps)

lemma has_relation_n_intro:
  "schema_relation sch (obj_type obj) r = Some rw \<Longrightarrow> u \<in> set (rw_union rw) \<Longrightarrow>
     branch_holds rd user_id (has_relation_n sch rd user_id n) r obj u \<Longrightarrow>
     \<exists>n. has_relation_n sch rd user_id n r obj"
  by (rule exI [of _ "Suc n"]) auto

lemma has_relation_imp_n:
  "has_relation sch rd user_id r obj \<Longrightarrow> \<exists>n. has_relation_n sch rd user_id n r obj"
proof (induction rule: has_relation.induct)
  case (direct_user obj r rw u subs s)
  then have "branch_holds rd user_id (has_relation_n sch rd user_id 0) r obj u"
    unfolding branch_holds_def by auto
  with direct_user(1,2) show ?case by (rule has_relation_n_intro)
next
  case (direct_userset obj r rw u subs s)
  then obtain n where "has_relation_n sch rd user_id n (sub_relation s) (sub_object s)" by blast
  with direct_userset have "branch_holds rd user_id (has_relation_n sch rd user_id n) r obj u"
    unfolding branch_holds_def by fastforce
  with direct_userset(1,2) show ?case by (rule has_relation_n_intro)
next
  case (computed obj r rw u)
  then obtain n where "has_relation_n sch rd user_id n (us_computed u) obj" by blast
  with computed have "branch_holds rd user_id (has_relation_n sch rd user_id n) r obj u"
    unfolding branch_holds_def by fastforce
  with computed(1,2) show ?case by (rule has_relation_n_intro)
next
  case (from_related obj r rw u t subs s)
  then obtain n where "has_relation_n sch rd user_id n (ttu_computed_userset t) (sub_object s)" by blast
  with from_related have "branch_holds rd user_id (has_relation_n sch rd user_id n) r obj u"
    unfolding branch_holds_def by fastforce
  with from_related(1,2) show ?case by (rule has_relation_n_intro)
qed

lemma has_relation_n_known:
  "has_relation_n sch rd user_id n r obj \<Longrightarrow> schema_relation sch (obj_type obj) r \<noteq> None"
  by (cases n) auto

lemma check_key_inject:
  assumes "wf_schema sch" "schema_relation sch (obj_type a) r \<noteq> None"
    "schema_relation sch (obj_type b) r' \<noteq> None" "check_key a r = check_key b r'"
  shows "a = b \<and> r = r'"
proof -
  from assms(1-3) have "CHR ''#'' \<notin> set r" "CHR ''#'' \<notin> set r'"
    "CHR '':'' \<notin> set (obj_type a)" "CHR '':'' \<notin> set (obj_type b)"
    by (auto simp: wf_schema_def)
  with assms(4) show ?thesis
    by (simp add: check_key_def append_last_byte_inject object_string_inject)
qed

lemma check_not_False:
  assumes wf: "wf_schema sch"
  shows "has_relation_n sch rd user_id n r obj \<Longrightarrow>
    (\<And>r' obj'. check_key obj' r' \<in> visited \<Longrightarrow> \<not> has_relation_n sch rd user_id n r' obj') \<Longrightarrow>
    check sch rd user_id depth visited r obj \<noteq> Inr False"
proof (induction n arbitrary: r obj visited depth rule: less_induct)
  case (less n)
  define m where "m = (LEAST k. has_relation_n sch rd user_id k r obj)"
  have m: "has_relation_n sch rd user_id m r obj" "m \<le> n"
    unfolding m_def using less.prems(1) by (auto intro: LeastI Least_le)
  have least: "\<not> has_relation_n sch rd user_id k r obj" if "k < m" for k
    using that unfolding m_def by (rule not_less_Least)
  from m(1) obtain k where k: "m = Suc k" by (cases m) auto
  have nv: "check_key obj r \<notin> visited" using less.prems by blast
  have deeper: "check sch rd user_id d (insert (check_key obj r) visited) r' obj' \<noteq> Inr False"
    if "has_relation_n sch rd user_id k r' obj'" for r' obj' d
  proof (rule less.IH [of k])
    show "k < n" using k m(2) by simp
    show "has_relation_n sch rd user_id k r' obj'" by (rule that)
    fix r'' obj'' assume "check_key obj'' r'' \<in> insert (check_key obj r) visited"
    then show "\<not> has_relation_n sch rd user_id k r'' obj''"
    proof
      assume eq: "check_key obj'' r'' = check_key obj r"
      show ?thesis
      proof
        assume h: "has_relation_n sch rd user_id k r'' obj''"
        with check_key_inject [OF wf _ _ eq] m(1) have "obj'' = obj \<and> r'' = r"
          by (blast dest: has_relation_n_known)
        with h least [of k] k show False by simp
      qed
    next
      assume "check_key obj'' r'' \<in> visited"
      with less.prems(2) \<open>k < n\<close> show ?thesis
        by (meson has_relation_n_mono less_imp_le)
    qed
  qed
  from m(1) obtain rw u where
    rw: "schema_relation sch (obj_type obj) r = Some rw" "u \<in> set (rw_union rw)"
    and br: "branch_holds rd user_id (has_relation_n sch rd user_id k) r obj u"
    by (auto simp: k)
  from eval_userset_not_False [OF br, of "\<lambda>r' obj'. check sch rd user_id (Suc depth)
      (insert (check_key obj r) visited) r' obj'"] deeper
  have "eval_userset rd user_id
      (\<lambda>r' obj'. check sch rd user_id (Suc depth) (insert (check_key obj r) visited) r' obj') r obj u
      \<noteq> Inr False" by blast
  with nv rw show ?case
    by (subst check.simps) (auto simp: first_true_False)
qed

lemma check_complete:
  "wf_schema sch \<Longrightarrow> has_relation sch rd user_id r obj \<Longrightarrow>
     check sch rd user_id depth {} r obj \<noteq> Inr False"
  using has_relation_imp_n check_not_False [where visited = "{}"] by blast

lemma check_correct:
  "wf_schema sch \<Longrightarrow> check sch rd user_id depth {} r obj = Inr b \<Longrightarrow>
     b \<longleftrightarrow> has_relation sch rd user_id r obj"
  by (cases b) (auto dest: check_sound check_complete)

end
