(* ===== verification/AuthzDecision.thy ===== *)
theory AuthzDecision
  imports AuthzEngine
begin

text \<open>
  What \<open>Check\<close> decides: its answer, whenever it gives one, is the derivation of the specification,
  whatever order the store lists subjects in; and on a container hierarchy (organization,
  workspace, instance, resource) it always gives an answer, well within the depth bound.
\<close>

section \<open>The answer\<close>

lemma Check_Inr:
  assumes "wf_schema sch" "Check sch rd user_id r obj = Inr b"
  shows "b \<longleftrightarrow> user_id \<noteq> '''' \<and> obj_type obj \<noteq> '''' \<and> obj_id obj \<noteq> '''' \<and>
    has_relation sch rd user_id r obj"
  using assms by (auto simp: Check_def check_correct split: if_splits)

lemma Check_inr_wf:
  assumes "proper_names ns" "Check (with_resource_types everstack_schema ns) rd user_id r obj = Inr b"
  shows "b \<longleftrightarrow> user_id \<noteq> '''' \<and> obj_type obj \<noteq> '''' \<and> obj_id obj \<noteq> '''' \<and>
    has_relation (with_resource_types everstack_schema ns) rd user_id r obj"
  using Check_Inr [OF wf_everstack_schema [OF assms(1)] assms(2)] .

text \<open>
  C2: the decision point is sound and complete. Under a schema whose type names have no colon and
  whose relation names have no \<open>#\<close>, an answer of \<open>Check\<close> is the truth of the derivation: the
  visited set never hides access that exists, and access is never granted without a derivation.
\<close>

theorem check_decides:
  assumes "wf_schema sch" "Check sch rd user_id r obj = Inr b"
  shows "b \<longleftrightarrow> user_id \<noteq> '''' \<and> obj_type obj \<noteq> '''' \<and> obj_id obj \<noteq> '''' \<and>
    has_relation sch rd user_id r obj"
  using assms by (rule Check_Inr)

text \<open>Readers that list the same subjects, in any order and with any repetition.\<close>

definition same_subjects :: "reader \<Rightarrow> reader \<Rightarrow> bool" where
  "same_subjects rd rd' \<longleftrightarrow>
     (\<forall>obj r. case rd obj r of
        Inl e \<Rightarrow> rd' obj r = Inl e
      | Inr xs \<Rightarrow> \<exists>ys. rd' obj r = Inr ys \<and> set ys = set xs)"

lemma same_subjects_Inr:
  "same_subjects rd rd' \<Longrightarrow> rd obj r = Inr xs \<Longrightarrow> \<exists>ys. rd' obj r = Inr ys \<and> set ys = set xs"
  unfolding same_subjects_def by (drule spec [of _ obj], drule spec [of _ r]) simp

lemma same_subjects_sym:
  assumes "same_subjects rd rd'"
  shows "same_subjects rd' rd"
  unfolding same_subjects_def
proof (intro allI)
  fix obj r
  from assms have "case rd obj r of Inl e \<Rightarrow> rd' obj r = Inl e
      | Inr xs \<Rightarrow> \<exists>ys. rd' obj r = Inr ys \<and> set ys = set xs"
    by (simp add: same_subjects_def)
  then show "case rd' obj r of Inl e \<Rightarrow> rd obj r = Inl e
      | Inr xs \<Rightarrow> \<exists>ys. rd obj r = Inr ys \<and> set ys = set xs"
    by (cases "rd obj r") auto
qed

lemma branch_holds_same:
  "branch_holds rd user_id F r obj u \<Longrightarrow> same_subjects rd rd' \<Longrightarrow> branch_holds rd' user_id F r obj u"
  unfolding branch_holds_def
  by (fastforce dest: same_subjects_Inr split: if_splits option.splits)

lemma has_relation_same:
  assumes "has_relation sch rd user_id r obj" "same_subjects rd rd'"
  shows "has_relation sch rd' user_id r obj"
  using assms(1)
proof (induction rule: has_relation.induct)
  case (direct_user obj r rw u subs s)
  then have "branch_holds rd user_id (has_relation sch rd' user_id) r obj u"
    unfolding branch_holds_def by auto
  then show ?case
    using branch_holds_same [OF _ assms(2)] branch_holds_has_relation direct_user(1,2) by blast
next
  case (direct_userset obj r rw u subs s)
  then have "branch_holds rd user_id (has_relation sch rd' user_id) r obj u"
    unfolding branch_holds_def by fastforce
  then show ?case
    using branch_holds_same [OF _ assms(2)] branch_holds_has_relation direct_userset(1,2) by blast
next
  case (computed obj r rw u)
  then show ?case by (blast intro: has_relation.computed)
next
  case (from_related obj r rw u t subs s)
  then have "branch_holds rd user_id (has_relation sch rd' user_id) r obj u"
    unfolding branch_holds_def by fastforce
  then show ?case
    using branch_holds_same [OF _ assms(2)] branch_holds_has_relation from_related(1,2) by blast
qed

text \<open>
  The order in which the store returns subjects (a Go map iterates in random order, a query
  without ORDER BY in any order) never changes a decision.
\<close>

theorem check_order_independent:
  assumes "wf_schema sch" "same_subjects rd rd'"
    "Check sch rd user_id r obj = Inr b" "Check sch rd' user_id r obj = Inr b'"
  shows "b = b'"
  using Check_Inr [OF assms(1,3)] Check_Inr [OF assms(1,4)]
    has_relation_same [OF _ assms(2)] has_relation_same [OF _ same_subjects_sym [OF assms(2)]]
  by blast

section \<open>A container hierarchy is always answered\<close>

definition type_level :: "string list \<Rightarrow> string \<Rightarrow> nat" where
  "type_level ns t =
     (if t = ''workspace'' then 1 else if t = ''instance'' then 2
      else if resource_like ns t then 3 else 0)"

definition relation_level :: "string \<Rightarrow> nat" where
  "relation_level r =
     (if r = ''owner'' \<or> r = ''parent'' then 0
      else if r = ''admin'' \<or> r = ''manager'' then 1
      else if r = ''member'' \<or> r = ''editor'' then 2
      else if r = ''viewer'' then 3
      else 4)"

definition check_level :: "string list \<Rightarrow> string \<Rightarrow> string \<Rightarrow> nat" where
  "check_level ns t r = 5 * type_level ns t + relation_level r"

text \<open>
  A reader of a hierarchy answers every read, and a stored subject that is not a user belongs to
  a type above its object's, as the constructors of builders.go build them.
\<close>

definition hierarchical :: "string list \<Rightarrow> reader \<Rightarrow> bool" where
  "hierarchical ns rd \<longleftrightarrow>
     (\<forall>obj r. \<exists>subs. rd obj r = Inr subs \<and>
        (\<forall>s \<in> set subs. is_user s \<or> type_level ns (obj_type (sub_object s)) < type_level ns (obj_type obj)))"

lemma relation_level_le: "relation_level r \<le> 4"
  by (simp add: relation_level_def)

lemma check_level_below:
  "type_level ns t < type_level ns t' \<Longrightarrow> check_level ns t r < check_level ns t' r'"
  using relation_level_le [of r] by (simp add: check_level_def)

lemma check_level_le: "check_level ns t r \<le> 19"
  using relation_level_le [of r] by (simp add: check_level_def type_level_def)

lemma relation_level_at:
  "relation_level ''owner'' = 0" "relation_level ''parent'' = 0" "relation_level ''admin'' = 1"
  "relation_level ''manager'' = 1" "relation_level ''member'' = 2" "relation_level ''editor'' = 2"
  "relation_level ''viewer'' = 3" "relation_level ''can_view'' = 4" "relation_level ''can_edit'' = 4"
  "relation_level ''can_delete'' = 4" "relation_level ''can_manage_billing'' = 4"
  "relation_level ''can_manage_members'' = 4" "relation_level ''can_manage_workspaces'' = 4"
  "relation_level ''can_manage_storage'' = 4"
  by (simp_all add: relation_level_def)

lemma computed_level:
  assumes "proper_names ns"
    "schema_relation (with_resource_types everstack_schema ns) t r = Some rw"
    "u \<in> set (rw_union rw)" "us_computed u \<noteq> ''''"
  shows "relation_level (us_computed u) < relation_level r"
  using assms(2-4)
  unfolding schema_relation_Some everstack_types [OF assms(1)]
  by (auto simp: type_defs rewrite_defs relation_level_at split: if_split_asm)

lemma tupleset_level:
  assumes "proper_names ns"
    "schema_relation (with_resource_types everstack_schema ns) t r = Some rw"
    "u \<in> set (rw_union rw)" "us_ttu u = Some tt"
  shows "0 < relation_level r"
  using assms(2-4)
  unfolding schema_relation_Some everstack_types [OF assms(1)]
  by (auto simp: type_defs rewrite_defs relation_level_at split: if_split_asm)

lemma check_answers:
  assumes ns: "proper_names ns" and rd: "hierarchical ns rd"
  shows "depth + check_level ns (obj_type obj) r \<le> max_depth \<Longrightarrow>
    \<exists>b. check (with_resource_types everstack_schema ns) rd user_id depth visited r obj = Inr b"
proof (induction "check_level ns (obj_type obj) r" arbitrary: depth visited r obj rule: less_induct)
  case less
  let ?sch = "with_resource_types everstack_schema ns"
  let ?chk = "\<lambda>r' obj'. check ?sch rd user_id (Suc depth) (insert (check_key obj r) visited) r' obj'"
  have deeper: "\<exists>b. ?chk r' obj' = Inr b"
    if "check_level ns (obj_type obj') r' < check_level ns (obj_type obj) r" for r' obj'
    using less.hyps [OF that] that less.prems by simp
  have above: "\<exists>b. ?chk r' (sub_object s) = Inr b"
    if "rd obj r'' = Inr subs" "s \<in> set subs" "\<not> is_user s" for r' r'' subs s
  proof -
    from rd obtain subs' where "rd obj r'' = Inr subs'" "\<forall>s \<in> set subs'. is_user s \<or>
        type_level ns (obj_type (sub_object s)) < type_level ns (obj_type obj)"
      unfolding hierarchical_def by blast
    with that have "type_level ns (obj_type (sub_object s)) < type_level ns (obj_type obj)" by auto
    then show ?thesis by (intro deeper check_level_below)
  qed
  have branch: "\<exists>b. eval_userset rd user_id ?chk r obj u = Inr b"
    if rw: "schema_relation ?sch (obj_type obj) r = Some rw" "u \<in> set (rw_union rw)" for rw u
  proof (cases "us_computed u = ''''")
    case False
    then have "check_level ns (obj_type obj) (us_computed u) < check_level ns (obj_type obj) r"
      using computed_level [OF ns rw] by (simp add: check_level_def)
    with False show ?thesis using deeper by (simp add: eval_userset_def)
  next
    case True
    show ?thesis
    proof (cases "us_ttu u")
      case None
      from rd obtain subs where subs: "rd obj r = Inr subs" unfolding hierarchical_def by blast
      show ?thesis
        using first_true_no_error above [OF subs] subs True None
        by (auto simp: eval_userset_def intro!: first_true_no_error)
    next
      case (Some t)
      from rd obtain subs where subs: "rd obj (ttu_tupleset t) = Inr subs"
        unfolding hierarchical_def by blast
      have user: "\<exists>b. ?chk r' (sub_object s) = Inr b" if "is_user s" for r' s
      proof -
        have "0 < relation_level r" using tupleset_level [OF ns rw Some] .
        with less.prems have "\<not> max_depth < Suc depth" by (simp add: check_level_def)
        with that ns show ?thesis
          by (subst check.simps) (auto simp: is_user_def user_type_def schema_relation_def everstack_types)
      qed
      have any: "\<exists>b. ?chk r' (sub_object s) = Inr b" if "s \<in> set subs" for r' s
        using above [OF subs that] user by blast
      have "\<exists>b. first_true (\<lambda>s. if sub_relation s \<noteq> '''' then Inr False
          else ?chk (ttu_computed_userset t) (sub_object s)) subs = Inr b"
        by (intro first_true_no_error) (use any in \<open>auto\<close>)
      with subs True Some show ?thesis by (simp add: eval_userset_def)
    qed
  qed
  from less.prems have "\<not> max_depth < depth" by simp
  then show ?case
    by (subst check.simps) (auto split: option.split intro!: first_true_no_error branch)
qed

lemma Check_answers:
  assumes "proper_names ns" "hierarchical ns rd"
  shows "\<exists>b. Check (with_resource_types everstack_schema ns) rd user_id r obj = Inr b"
proof -
  have "0 + check_level ns (obj_type obj) r \<le> max_depth"
    using check_level_le [of ns "obj_type obj" r] by (simp add: max_depth_def)
  from check_answers [OF assms this, of user_id "{}"] show ?thesis
    unfolding Check_def by (metis (full_types))
qed


section \<open>A concrete hierarchy\<close>

text \<open>An organization with an owner and a viewer, a workspace and an instance below it.\<close>

definition demo_reader :: reader where
  "demo_reader obj r = Inr
     (if obj = Org ''acme'' \<and> r = ''owner'' then [user ''ann'']
      else if obj = Org ''acme'' \<and> r = ''viewer'' then [user ''vic'']
      else if obj = Workspace ''w'' \<and> r = ''parent'' then [mk_subject (Org ''acme'') '''']
      else if obj = Instance ''i'' \<and> r = ''parent'' then [mk_subject (Workspace ''w'') '''']
      else [])"

lemma hierarchical_demo:
  assumes "proper_names ns"
  shows "hierarchical ns demo_reader"
proof -
  have "is_user s \<or> type_level ns (obj_type (sub_object s)) < type_level ns (obj_type obj)"
    if "s \<in> set (projr (demo_reader obj r))" for obj r s
    using that assms by (auto simp: demo_reader_def type_level_def Workspace_def Org_def
        Instance_def resource_like_def proper_names_def split: if_splits)
  then show ?thesis unfolding hierarchical_def by (metis demo_reader_def sum.sel(2))
qed

text \<open>The viewer of the organization reaches the instance through both parent links.\<close>

lemma rewrite_of:
  "schema_relation default_schema ''instance'' ''can_view'' = Some (computed_only ''viewer'')"
  "schema_relation default_schema ''instance'' ''viewer'' = Some (from_parent ''parent'' ''viewer'' [''member''])"
  "schema_relation default_schema ''workspace'' ''viewer'' = Some (from_parent ''parent'' ''viewer'' [''member''])"
  "schema_relation default_schema ''organization'' ''viewer'' = Some (this_or [''member''])"
  using everstack_types [OF proper_default]
  by (simp_all add: default_schema_def schema_relation_def type_defs rewrite_defs)

lemma demo_reads:
  "demo_reader (Org ''acme'') ''viewer'' = Inr [user ''vic'']"
  "demo_reader (Workspace ''w'') ''parent'' = Inr [mk_subject (Org ''acme'') '''']"
  "demo_reader (Instance ''i'') ''parent'' = Inr [mk_subject (Workspace ''w'') '''']"
  by (simp_all add: demo_reader_def Org_def Workspace_def Instance_def)

lemma via_parent:
  assumes "schema_relation sch (obj_type obj) r = Some (from_parent ''parent'' c also)"
    "rd obj ''parent'' = Inr subs" "mk_subject parent '''' \<in> set subs" "has_relation sch rd u c parent"
  shows "has_relation sch rd u r obj"
  by (rule has_relation.from_related [where s = "mk_subject parent ''''" and u = "us_from ''parent'' c"
        and t = "\<lparr>ttu_tupleset = ''parent'', ttu_computed_userset = c\<rparr>"
        and subs = subs and rw = "from_parent ''parent'' c also"])
     (use assms in \<open>simp_all add: us_from_def from_parent_def\<close>)

lemma via_this_or:
  assumes "schema_relation sch (obj_type obj) r = Some (this_or cs)" "c \<in> set cs" "c \<noteq> ''''"
    "has_relation sch rd u c obj"
  shows "has_relation sch rd u r obj"
  by (rule has_relation.computed [OF assms(1), of "us_comp c"])
     (use assms in \<open>simp_all add: this_or_def us_comp_def\<close>)

lemma via_computed:
  assumes "schema_relation sch (obj_type obj) r = Some (computed_only c)" "c \<noteq> ''''"
    "has_relation sch rd u c obj"
  shows "has_relation sch rd u r obj"
  by (rule has_relation.computed [OF assms(1), of "us_comp c"])
     (use assms in \<open>simp_all add: computed_only_def us_comp_def\<close>)

lemma via_direct:
  assumes "schema_relation sch (obj_type obj) r = Some rw" "us_direct \<in> set (rw_union rw)"
    "rd obj r = Inr subs" "user u \<in> set subs"
  shows "has_relation sch rd u r obj"
  by (rule has_relation.direct_user [where s = "user u" and u = us_direct and subs = subs and rw = rw])
     (use assms in \<open>simp_all add: us_direct_def user_def is_user_def\<close>)

lemma demo_viewer: "has_relation default_schema demo_reader ''vic'' ''can_view'' (Instance ''i'')"
proof -
  have "has_relation default_schema demo_reader ''vic'' ''viewer'' (Org ''acme'')"
    by (rule via_direct [where subs = "[user ''vic'']" and rw = "this_or [''member'']"])
       (simp_all add: demo_reads, simp_all add: Org_def rewrite_of this_or_def)
  then have "has_relation default_schema demo_reader ''vic'' ''viewer'' (Workspace ''w'')"
    by (rule via_parent [where parent = "Org ''acme''", rotated 3])
       (simp add: Workspace_def rewrite_of, rule demo_reads, simp)
  then have "has_relation default_schema demo_reader ''vic'' ''viewer'' (Instance ''i'')"
    by (rule via_parent [where parent = "Workspace ''w''", rotated 3])
       (simp add: Instance_def rewrite_of, rule demo_reads, simp)
  then show ?thesis
    by (rule via_computed [rotated 2]) (simp_all add: Instance_def rewrite_of)
qed

lemma demo_check: "Check default_schema demo_reader ''vic'' ''can_view'' (Instance ''i'') = Inr True"
proof -
  from Check_answers [OF proper_default hierarchical_demo [OF proper_default]] obtain b
    where b: "Check default_schema demo_reader ''vic'' ''can_view'' (Instance ''i'') = Inr b"
    unfolding default_schema_def by blast
  with Check_inr_wf [OF proper_default b [unfolded default_schema_def]] demo_viewer show ?thesis
    by (simp add: default_schema_def Instance_def)
qed

theorem check_decides_witness:
  "Check default_schema demo_reader ''vic'' ''can_view'' (Instance ''i'') = Inr True \<and>
   has_relation default_schema demo_reader ''vic'' ''can_view'' (Instance ''i'')"
  using check_decides [OF wf_everstack_schema [OF proper_default] demo_check [unfolded default_schema_def]]
    demo_check by (simp add: default_schema_def)


text \<open>The same tuples, listed twice over and backwards.\<close>

definition demo_reader_shuffled :: reader where
  "demo_reader_shuffled obj r =
     (case demo_reader obj r of Inl e \<Rightarrow> Inl e | Inr xs \<Rightarrow> Inr (rev (xs @ xs)))"

lemma demo_shuffled: "same_subjects demo_reader demo_reader_shuffled"
  by (simp add: same_subjects_def demo_reader_shuffled_def split: sum.split)

lemma demo_check_shuffled:
  "Check default_schema demo_reader_shuffled ''vic'' ''can_view'' (Instance ''i'') = Inr True"
proof -
  have h: "hierarchical default_resource_types demo_reader_shuffled"
    unfolding hierarchical_def
  proof (intro allI)
    fix obj r
    from hierarchical_demo [OF proper_default] obtain subs where "demo_reader obj r = Inr subs"
      "\<forall>s \<in> set subs. is_user s \<or> type_level default_resource_types (obj_type (sub_object s))
         < type_level default_resource_types (obj_type obj)"
      unfolding hierarchical_def by blast
    then show "\<exists>subs. demo_reader_shuffled obj r = Inr subs \<and> (\<forall>s \<in> set subs. is_user s \<or>
        type_level default_resource_types (obj_type (sub_object s))
          < type_level default_resource_types (obj_type obj))"
      by (simp add: demo_reader_shuffled_def)
  qed
  from Check_answers [OF proper_default h] obtain b where
    b: "Check default_schema demo_reader_shuffled ''vic'' ''can_view'' (Instance ''i'') = Inr b"
    unfolding default_schema_def by blast
  with Check_inr_wf [OF proper_default b [unfolded default_schema_def]]
    has_relation_same [OF demo_viewer demo_shuffled] show ?thesis
    by (simp add: default_schema_def Instance_def)
qed

theorem check_order_independent_witness:
  "same_subjects demo_reader demo_reader_shuffled \<and>
   Check default_schema demo_reader ''vic'' ''can_view'' (Instance ''i'') =
   Check default_schema demo_reader_shuffled ''vic'' ''can_view'' (Instance ''i'')"
  using check_order_independent [OF wf_everstack_schema [OF proper_default] demo_shuffled
      demo_check [unfolded default_schema_def] demo_check_shuffled [unfolded default_schema_def]]
    demo_check demo_check_shuffled demo_shuffled by simp

end
