(* ===== verification/AuthzStore.thy ===== *)
theory AuthzStore
  imports AuthzTuple AuthzModel "HOL-Library.AList"
begin

text \<open>
  Tuple stores (pkg/authz/store.go, store_postgres.go, tenant.go, bridge.go): the interface
  \<open>TupleStore\<close> as a locale, the in-memory store and the Postgres store as its two providers, and
  the bridge that injects the caller's session role on reads. The request context is the record of
  what the package puts into it.
\<close>

section \<open>Request context\<close>

record session_membership =
  sm_user_id :: string
  sm_tenant :: string
  sm_role :: role

record req_context =
  ctx_tenant :: "string option"
  ctx_membership :: "session_membership option"

definition context_with_tenant :: "req_context \<Rightarrow> string \<Rightarrow> req_context" where
  "context_with_tenant ctx tenant = ctx\<lparr>ctx_tenant := Some tenant\<rparr>"

definition tenant_from_context :: "req_context \<Rightarrow> string" where
  "tenant_from_context ctx = (case ctx_tenant ctx of Some t \<Rightarrow> t | None \<Rightarrow> '''')"

definition context_with_session_membership :: "req_context \<Rightarrow> session_membership \<Rightarrow> req_context" where
  "context_with_session_membership ctx m = ctx\<lparr>ctx_membership := Some m\<rparr>"

definition background :: req_context where
  "background = \<lparr>ctx_tenant = None, ctx_membership = None\<rparr>"

lemma tenant_from_context_with [simp]:
  "tenant_from_context (context_with_tenant ctx t) = t"
  "tenant_from_context (context_with_session_membership ctx m) = tenant_from_context ctx"
  "ctx_membership (context_with_tenant ctx t) = ctx_membership ctx"
  "ctx_membership (context_with_session_membership ctx m) = Some m"
  by (simp_all add: tenant_from_context_def context_with_tenant_def context_with_session_membership_def)

section \<open>The in-memory store\<close>

text \<open>
  A Go map of Go maps. The inner map is an association list, so a read lists its subjects in some
  order; nothing proved depends on which.
\<close>

type_synonym mem_store = "string \<Rightarrow> (string \<times> subject) list option"

definition new_mem_store :: mem_store where
  "new_mem_store = (\<lambda>_. None)"

definition mem_prefix :: "string \<Rightarrow> object \<Rightarrow> string" where
  "mem_prefix tenant obj = tenant @ CHR 0x00 # object_string obj @ ''#''"

definition mem_key :: "string \<Rightarrow> object \<Rightarrow> string \<Rightarrow> string" where
  "mem_key tenant obj r = tenant @ CHR 0x00 # object_string obj @ ''#'' @ r"

definition mem_write_one :: "string \<Rightarrow> rel_tuple \<Rightarrow> mem_store \<Rightarrow> mem_store" where
  "mem_write_one tenant t m =
     (let k = mem_key tenant (tup_object t) (tup_relation t);
          old = (case m k of None \<Rightarrow> [] | Some xs \<Rightarrow> xs)
      in m(k \<mapsto> AList.update (subject_string (tup_subject t)) (tup_subject t) old))"

fun mem_write_all :: "string \<Rightarrow> rel_tuple list \<Rightarrow> mem_store \<Rightarrow> mem_store" where
  "mem_write_all tenant [] m = m"
| "mem_write_all tenant (t # ts) m = mem_write_all tenant ts (mem_write_one tenant t m)"

definition mem_write :: "mem_store \<Rightarrow> req_context \<Rightarrow> rel_tuple list \<Rightarrow> authz_error + mem_store" where
  "mem_write m ctx ts = Inr (mem_write_all (tenant_from_context ctx) ts m)"

definition mem_delete_one :: "string \<Rightarrow> rel_tuple \<Rightarrow> mem_store \<Rightarrow> mem_store" where
  "mem_delete_one tenant t m =
     (let k = mem_key tenant (tup_object t) (tup_relation t)
      in case m k of
           None \<Rightarrow> m
         | Some xs \<Rightarrow>
             let xs' = AList.delete (subject_string (tup_subject t)) xs
             in if xs' = [] then m(k := None) else m(k \<mapsto> xs'))"

fun mem_delete_all :: "string \<Rightarrow> rel_tuple list \<Rightarrow> mem_store \<Rightarrow> mem_store" where
  "mem_delete_all tenant [] m = m"
| "mem_delete_all tenant (t # ts) m = mem_delete_all tenant ts (mem_delete_one tenant t m)"

definition mem_delete :: "mem_store \<Rightarrow> req_context \<Rightarrow> rel_tuple list \<Rightarrow> authz_error + mem_store" where
  "mem_delete m ctx ts = Inr (mem_delete_all (tenant_from_context ctx) ts m)"

definition mem_delete_object :: "mem_store \<Rightarrow> req_context \<Rightarrow> object \<Rightarrow> authz_error + mem_store" where
  "mem_delete_object m ctx obj =
     (let prefix = mem_prefix (tenant_from_context ctx) obj
      in Inr (\<lambda>k. if has_prefix k prefix then None else m k))"

definition mem_list_subjects ::
  "mem_store \<Rightarrow> req_context \<Rightarrow> object \<Rightarrow> string \<Rightarrow> authz_error + subject list" where
  "mem_list_subjects m ctx obj r =
     Inr (case m (mem_key (tenant_from_context ctx) obj r) of None \<Rightarrow> [] | Some xs \<Rightarrow> map snd xs)"

section \<open>The Postgres store\<close>

text \<open>
  The table \<open>relation_tuples\<close>, as the list of its rows (the primary key is the whole row, so
  ON CONFLICT DO NOTHING skips a row that is present). Every operation runs in one transaction,
  and fails closed without a tenant. The database itself does not fail here.
\<close>

record pg_row =
  pg_tenant_id :: string
  pg_tuple :: rel_tuple

type_synonym pg_store = "pg_row list"

definition with_tenant_tx :: "string \<Rightarrow> (unit \<Rightarrow> authz_error + 'a) \<Rightarrow> authz_error + 'a" where
  "with_tenant_tx tenant fn = (if tenant = '''' then Inl NoTenant else fn ())"

fun pg_insert_all :: "string \<Rightarrow> rel_tuple list \<Rightarrow> pg_store \<Rightarrow> pg_store" where
  "pg_insert_all tenant [] db = db"
| "pg_insert_all tenant (t # ts) db =
     (let row = \<lparr>pg_tenant_id = tenant, pg_tuple = t\<rparr>
      in pg_insert_all tenant ts (if row \<in> set db then db else db @ [row]))"

definition pg_write :: "pg_store \<Rightarrow> req_context \<Rightarrow> rel_tuple list \<Rightarrow> authz_error + pg_store" where
  "pg_write db ctx ts =
     (if ts = [] then Inr db
      else let tenant = tenant_from_context ctx
        in if tenant = '''' then Inl NoTenant
           else with_tenant_tx tenant (\<lambda>_. Inr (pg_insert_all tenant ts db)))"

fun pg_delete_all :: "string \<Rightarrow> rel_tuple list \<Rightarrow> pg_store \<Rightarrow> pg_store" where
  "pg_delete_all tenant [] db = db"
| "pg_delete_all tenant (t # ts) db =
     pg_delete_all tenant ts (filter (\<lambda>row. \<not> (pg_tenant_id row = tenant \<and> pg_tuple row = t)) db)"

definition pg_delete :: "pg_store \<Rightarrow> req_context \<Rightarrow> rel_tuple list \<Rightarrow> authz_error + pg_store" where
  "pg_delete db ctx ts =
     (if ts = [] then Inr db
      else let tenant = tenant_from_context ctx
        in if tenant = '''' then Inl NoTenant
           else with_tenant_tx tenant (\<lambda>_. Inr (pg_delete_all tenant ts db)))"

definition pg_delete_object :: "pg_store \<Rightarrow> req_context \<Rightarrow> object \<Rightarrow> authz_error + pg_store" where
  "pg_delete_object db ctx obj =
     (let tenant = tenant_from_context ctx
      in if tenant = '''' then Inl NoTenant
         else with_tenant_tx tenant (\<lambda>_. Inr
           (filter (\<lambda>row. \<not> (pg_tenant_id row = tenant \<and> tup_object (pg_tuple row) = obj)) db)))"

definition pg_list_subjects ::
  "pg_store \<Rightarrow> req_context \<Rightarrow> object \<Rightarrow> string \<Rightarrow> authz_error + subject list" where
  "pg_list_subjects db ctx obj r =
     (let tenant = tenant_from_context ctx
      in if tenant = '''' then Inl NoTenant
         else with_tenant_tx tenant (\<lambda>_. Inr
           (map (\<lambda>row. tup_subject (pg_tuple row))
             (filter (\<lambda>row. pg_tenant_id row = tenant \<and> tup_object (pg_tuple row) = obj \<and>
                tup_relation (pg_tuple row) = r) db))))"

section \<open>The bridge\<close>

definition instance_relation_for_role :: "role \<Rightarrow> string" where
  "instance_relation_for_role r =
     (if r = role_owner \<or> r = role_admin then ''admin''
      else if r = role_member then ''member''
      else if r = role_viewer then ''viewer''
      else '''')"

definition bridge_list_subjects ::
  "(req_context \<Rightarrow> object \<Rightarrow> string \<Rightarrow> authz_error + subject list) \<Rightarrow>
     req_context \<Rightarrow> object \<Rightarrow> string \<Rightarrow> authz_error + subject list" where
  "bridge_list_subjects inner ctx obj r =
     bind_result (inner ctx obj r) (\<lambda>out.
       case ctx_membership ctx of
         Some m \<Rightarrow>
           if sm_user_id m \<noteq> '''' \<and> obj_type obj = ''instance'' \<and> obj_id obj = sm_tenant m \<and>
              r = instance_relation_for_role (sm_role m)
           then Inr (out @ [user (sm_user_id m)])
           else Inr out
       | None \<Rightarrow> Inr out)"

section \<open>The interface\<close>

text \<open>
  What the engine and the writers of tuples rely on. \<open>lookup\<close> is what the store holds: per tenant,
  object and relation, a set of subjects. \<open>clean\<close> is the provider's condition on the objects and
  subjects used with it, \<open>good\<close> its condition on tenants.
\<close>

locale tuple_store =
  fixes put :: "'st \<Rightarrow> req_context \<Rightarrow> rel_tuple list \<Rightarrow> authz_error + 'st"
    and del :: "'st \<Rightarrow> req_context \<Rightarrow> rel_tuple list \<Rightarrow> authz_error + 'st"
    and del_object :: "'st \<Rightarrow> req_context \<Rightarrow> object \<Rightarrow> authz_error + 'st"
    and subjects :: "'st \<Rightarrow> req_context \<Rightarrow> object \<Rightarrow> string \<Rightarrow> authz_error + subject list"
    and lookup :: "'st \<Rightarrow> string \<Rightarrow> object \<Rightarrow> string \<Rightarrow> subject set"
    and inv :: "'st \<Rightarrow> bool"
    and clean :: "object \<Rightarrow> bool"
    and good :: "string \<Rightarrow> bool"
  assumes list_subjects_set:
      "subjects st ctx obj r = Inr xs \<Longrightarrow> set xs = lookup st (tenant_from_context ctx) obj r"
    and list_subjects_returns:
      "good (tenant_from_context ctx) \<Longrightarrow> \<exists>xs. subjects st ctx obj r = Inr xs"
    and write_inv:
      "inv st \<Longrightarrow> \<forall>t \<in> set ts. clean (sub_object (tup_subject t)) \<Longrightarrow> put st ctx ts = Inr st' \<Longrightarrow> inv st'"
    and write_lookup:
      "inv st \<Longrightarrow> good (tenant_from_context ctx) \<Longrightarrow> good tenant \<Longrightarrow>
       \<forall>t \<in> set ts. clean (tup_object t) \<and> clean (sub_object (tup_subject t)) \<Longrightarrow> clean obj \<Longrightarrow>
       put st ctx ts = Inr st' \<Longrightarrow>
       lookup st' tenant obj r = lookup st tenant obj r \<union>
         {s. tenant = tenant_from_context ctx \<and> new_tuple obj r s \<in> set ts}"
    and delete_inv: "inv st \<Longrightarrow> del st ctx ts = Inr st' \<Longrightarrow> inv st'"
    and delete_lookup:
      "inv st \<Longrightarrow> good (tenant_from_context ctx) \<Longrightarrow> good tenant \<Longrightarrow>
       \<forall>t \<in> set ts. clean (tup_object t) \<and> clean (sub_object (tup_subject t)) \<Longrightarrow> clean obj \<Longrightarrow>
       del st ctx ts = Inr st' \<Longrightarrow>
       lookup st' tenant obj r = lookup st tenant obj r -
         {s. tenant = tenant_from_context ctx \<and> new_tuple obj r s \<in> set ts}"
    and delete_object_inv: "inv st \<Longrightarrow> del_object st ctx obj = Inr st' \<Longrightarrow> inv st'"
    and delete_object_lookup:
      "inv st \<Longrightarrow> good (tenant_from_context ctx) \<Longrightarrow> good tenant \<Longrightarrow> clean obj \<Longrightarrow> clean obj' \<Longrightarrow>
       del_object st ctx obj = Inr st' \<Longrightarrow>
       lookup st' tenant obj' r =
         (if tenant = tenant_from_context ctx \<and> obj' = obj then {} else lookup st tenant obj' r)"
begin

lemma other_tenant_unchanged:
  assumes "inv st" "good (tenant_from_context ctx)" "good tenant" "tenant \<noteq> tenant_from_context ctx"
    "clean obj" "\<forall>t \<in> set ts. clean (tup_object t) \<and> clean (sub_object (tup_subject t))"
  shows "put st ctx ts = Inr st' \<Longrightarrow> lookup st' tenant obj r = lookup st tenant obj r"
    and "del st ctx ts = Inr st' \<Longrightarrow> lookup st' tenant obj r = lookup st tenant obj r"
    and "clean obj' \<Longrightarrow> del_object st ctx obj' = Inr st' \<Longrightarrow>
      lookup st' tenant obj r = lookup st tenant obj r"
  using write_lookup [OF assms(1-3,6,5)] delete_lookup [OF assms(1-3,6,5)]
    delete_object_lookup [OF assms(1-3) _ assms(5)] assms(4)
  by auto

lemma write_twice:
  assumes "inv st" "good (tenant_from_context ctx)" "clean obj"
    "\<forall>t \<in> set ts. clean (tup_object t) \<and> clean (sub_object (tup_subject t))"
    "put st ctx ts = Inr st'" "put st' ctx ts = Inr st''" "good tenant"
  shows "lookup st'' tenant obj r = lookup st' tenant obj r"
proof -
  have "inv st'" using write_inv [OF assms(1) _ assms(5)] assms(4) by blast
  from write_lookup [OF assms(1,2,7,4,3,5)] write_lookup [OF this assms(2,7,4,3,6)]
  show ?thesis by auto
qed

lemma deleted_object_empty:
  assumes "inv st" "good (tenant_from_context ctx)" "clean obj" "del_object st ctx obj = Inr st'"
  shows "subjects st' ctx obj r = Inr xs \<Longrightarrow> xs = []"
  using delete_object_lookup [OF assms(1,2,2,3,3,4)] list_subjects_set [of st' ctx obj r xs] by auto

end

section \<open>The two providers\<close>

text \<open>
  The in-memory store joins tenant, object and relation into one key, so it keeps the laws for
  tenants without a NUL and objects whose type has no \<open>:\<close> and whose text has no \<open>#\<close>.
\<close>

definition mem_lookup :: "mem_store \<Rightarrow> string \<Rightarrow> object \<Rightarrow> string \<Rightarrow> subject set" where
  "mem_lookup m tenant obj r =
     (case m (mem_key tenant obj r) of None \<Rightarrow> {} | Some xs \<Rightarrow> set (map snd xs))"

definition mem_good :: "string \<Rightarrow> bool" where
  "mem_good tenant \<longleftrightarrow> CHR 0x00 \<notin> set tenant"

definition mem_clean :: "object \<Rightarrow> bool" where
  "mem_clean obj \<longleftrightarrow> CHR '':'' \<notin> set (obj_type obj) \<and> CHR ''#'' \<notin> set (object_string obj)"

definition mem_inv :: "mem_store \<Rightarrow> bool" where
  "mem_inv m \<longleftrightarrow> (\<forall>k xs. m k = Some xs \<longrightarrow> distinct (map fst xs) \<and>
     (\<forall>(key, s) \<in> set xs. key = subject_string s \<and> mem_clean (sub_object s)))"

lemma mem_key_inject:
  assumes "mem_good t" "mem_good t'" "mem_clean obj" "mem_clean obj'"
  shows "mem_key t obj r = mem_key t' obj' r' \<longleftrightarrow> t = t' \<and> obj = obj' \<and> r = r'"
  using assms
  by (auto simp: mem_key_def mem_good_def mem_clean_def append_byte_inject object_string_inject)

lemma mem_prefix_key:
  assumes "mem_good t" "mem_good t'" "mem_clean obj" "mem_clean obj'"
  shows "has_prefix (mem_key t obj r) (mem_prefix t' obj') \<longleftrightarrow> t = t' \<and> obj = obj'"
  using assms
  by (auto simp: has_prefix_iff mem_prefix_def mem_key_def mem_good_def mem_clean_def
      append_byte_inject object_string_inject)

lemma subject_string_inject:
  assumes "mem_clean (sub_object s)" "mem_clean (sub_object s')"
  shows "subject_string s = subject_string s' \<longleftrightarrow> s = s'"
proof
  assume eq: "subject_string s = subject_string s'"
  have *: "y @ CHR ''#'' # z = x \<Longrightarrow> CHR ''#'' \<in> set x" for x y z :: string by auto
  from assms eq show "s = s'"
    by (cases s; cases s')
       (auto simp: subject_string_def mem_clean_def append_byte_inject object_string_inject
         dest: * * [OF sym] split: if_splits)
qed simp

lemma mem_inv_bucket:
  "mem_inv m \<Longrightarrow> m k = Some xs \<Longrightarrow> distinct (map fst xs) \<and>
     (\<forall>(key, s) \<in> set xs. key = subject_string s \<and> mem_clean (sub_object s))"
  unfolding mem_inv_def by blast

lemma mem_inv_old:
  assumes "mem_inv m"
  shows "distinct (map fst (case m k of None \<Rightarrow> [] | Some xs \<Rightarrow> xs)) \<and>
     (\<forall>(key, s) \<in> set (case m k of None \<Rightarrow> [] | Some xs \<Rightarrow> xs).
        key = subject_string s \<and> mem_clean (sub_object s))"
proof (cases "m k")
  case (Some xs)
  with mem_inv_bucket [OF assms Some] show ?thesis by simp
qed simp

lemma bucket_update:
  assumes "\<forall>(key, s) \<in> set xs. key = subject_string s \<and> mem_clean (sub_object s)"
    and "mem_clean (sub_object s)"
  shows "\<forall>(key, s) \<in> set (AList.update (subject_string s) s xs).
            key = subject_string s \<and> mem_clean (sub_object s)"
    and "set (map snd (AList.update (subject_string s) s xs)) = insert s (set (map snd xs))"
  using assms by (induction xs) (auto simp: subject_string_inject)

lemma bucket_delete:
  assumes "\<forall>(key, s) \<in> set xs. key = subject_string s \<and> mem_clean (sub_object s)"
    and "mem_clean (sub_object s)"
  shows "set (map snd (AList.delete (subject_string s) xs)) = set (map snd xs) - {s}"
  using assms by (force simp: AList.delete_eq subject_string_inject)

abbreviation clean_tuple :: "rel_tuple \<Rightarrow> bool" where
  "clean_tuple t \<equiv> mem_clean (tup_object t) \<and> mem_clean (sub_object (tup_subject t))"

lemma rel_tuple_eq: "new_tuple obj r s = t \<longleftrightarrow> tup_object t = obj \<and> tup_relation t = r \<and> tup_subject t = s"
  by (cases t) (auto simp: new_tuple_def)

lemma mem_inv_upd:
  assumes "mem_inv m" "distinct (map fst xs)"
    "\<forall>(key, s) \<in> set xs. key = subject_string s \<and> mem_clean (sub_object s)"
  shows "mem_inv (m(k \<mapsto> xs))"
  using assms by (simp add: mem_inv_def)

lemma mem_write_one_inv:
  assumes "mem_inv m" "mem_clean (sub_object (tup_subject t))"
  shows "mem_inv (mem_write_one tenant t m)"
  unfolding mem_write_one_def Let_def
proof (rule mem_inv_upd [OF assms(1)])
  note old = mem_inv_old [OF assms(1), of "mem_key tenant (tup_object t) (tup_relation t)"]
  show "distinct (map fst (AList.update (subject_string (tup_subject t)) (tup_subject t)
      (case m (mem_key tenant (tup_object t) (tup_relation t)) of None \<Rightarrow> [] | Some xs \<Rightarrow> xs)))"
    using old by (blast intro: distinct_update)
  show "\<forall>(key, s) \<in> set (AList.update (subject_string (tup_subject t)) (tup_subject t)
      (case m (mem_key tenant (tup_object t) (tup_relation t)) of None \<Rightarrow> [] | Some xs \<Rightarrow> xs)).
        key = subject_string s \<and> mem_clean (sub_object s)"
    using old by (intro bucket_update(1) assms(2)) blast
qed

lemma mem_write_one_lookup:
  assumes "mem_good tenant" "mem_good tenant'" "mem_clean obj" "mem_inv m" "clean_tuple t"
  shows "mem_lookup (mem_write_one tenant t m) tenant' obj r =
    mem_lookup m tenant' obj r \<union> {s. tenant' = tenant \<and> new_tuple obj r s = t}"
proof -
  let ?k = "mem_key tenant (tup_object t) (tup_relation t)"
  have "mem_key tenant' obj r = ?k \<longleftrightarrow> tenant' = tenant \<and> obj = tup_object t \<and> r = tup_relation t"
    using assms by (intro mem_key_inject) auto
  moreover have "\<forall>(key, s) \<in> set (case m ?k of None \<Rightarrow> [] | Some xs \<Rightarrow> xs).
      key = subject_string s \<and> mem_clean (sub_object s)"
    using mem_inv_old [OF assms(4)] by blast
  ultimately show ?thesis
    using bucket_update(2) [of _ "tup_subject t"] assms(5)
    by (auto simp: mem_lookup_def mem_write_one_def Let_def rel_tuple_eq split: option.splits)
qed

lemma mem_delete_one_inv:
  assumes "mem_inv m"
  shows "mem_inv (mem_delete_one tenant t m)"
proof (cases "m (mem_key tenant (tup_object t) (tup_relation t))")
  case None
  with assms show ?thesis by (simp add: mem_delete_one_def)
next
  case (Some xs)
  with mem_inv_bucket [OF assms Some] assms show ?thesis
    by (auto simp: mem_delete_one_def mem_inv_def AList.delete_eq Let_def distinct_map_filter)
qed

lemma mem_delete_one_lookup:
  assumes "mem_good tenant" "mem_good tenant'" "mem_clean obj" "mem_inv m" "clean_tuple t"
  shows "mem_lookup (mem_delete_one tenant t m) tenant' obj r =
    mem_lookup m tenant' obj r - {s. tenant' = tenant \<and> new_tuple obj r s = t}"
proof -
  let ?k = "mem_key tenant (tup_object t) (tup_relation t)"
  have key: "mem_key tenant' obj r = ?k \<longleftrightarrow> tenant' = tenant \<and> obj = tup_object t \<and> r = tup_relation t"
    using assms by (intro mem_key_inject) auto
  show ?thesis
  proof (cases "m ?k")
    case None
    with key show ?thesis by (auto simp: mem_lookup_def mem_delete_one_def rel_tuple_eq)
  next
    case (Some xs)
    have "set (map snd (AList.delete (subject_string (tup_subject t)) xs)) =
        set (map snd xs) - {tup_subject t}"
      using mem_inv_bucket [OF assms(4) Some] assms(5) by (intro bucket_delete) auto
    with key Some show ?thesis
      by (auto simp: mem_lookup_def mem_delete_one_def rel_tuple_eq Let_def
          split: option.splits if_splits)
  qed
qed

lemma mem_write_all_inv:
  "mem_inv m \<Longrightarrow> \<forall>t \<in> set ts. mem_clean (sub_object (tup_subject t)) \<Longrightarrow> mem_inv (mem_write_all tenant ts m)"
  by (induction ts arbitrary: m) (auto simp: mem_write_one_inv)

lemma mem_write_all_lookup:
  assumes "mem_good tenant" "mem_good tenant'" "mem_clean obj"
  shows "mem_inv m \<Longrightarrow> \<forall>t \<in> set ts. clean_tuple t \<Longrightarrow>
    mem_lookup (mem_write_all tenant ts m) tenant' obj r =
      mem_lookup m tenant' obj r \<union> {s. tenant' = tenant \<and> new_tuple obj r s \<in> set ts}"
  by (induction ts arbitrary: m) (auto simp: mem_write_one_inv mem_write_one_lookup [OF assms])

lemma mem_delete_all_inv: "mem_inv m \<Longrightarrow> mem_inv (mem_delete_all tenant ts m)"
  by (induction ts arbitrary: m) (auto simp: mem_delete_one_inv)

lemma mem_delete_all_lookup:
  assumes "mem_good tenant" "mem_good tenant'" "mem_clean obj"
  shows "mem_inv m \<Longrightarrow> \<forall>t \<in> set ts. clean_tuple t \<Longrightarrow>
    mem_lookup (mem_delete_all tenant ts m) tenant' obj r =
      mem_lookup m tenant' obj r - {s. tenant' = tenant \<and> new_tuple obj r s \<in> set ts}"
  by (induction ts arbitrary: m) (auto simp: mem_delete_one_inv mem_delete_one_lookup [OF assms])

interpretation mem: tuple_store mem_write mem_delete mem_delete_object mem_list_subjects
  mem_lookup mem_inv mem_clean mem_good
proof unfold_locales
  fix st ctx obj r xs assume "mem_list_subjects st ctx obj r = Inr xs"
  then show "set xs = mem_lookup st (tenant_from_context ctx) obj r"
    by (force simp: mem_list_subjects_def mem_lookup_def split: option.splits)
next
  fix st ctx obj st' assume "mem_inv st" "mem_delete_object st ctx obj = Inr st'"
  then show "mem_inv st'"
    by (fastforce simp: mem_delete_object_def mem_inv_def Let_def split: if_splits)
next
  fix st :: mem_store and ctx tenant obj obj' st' r
  assume "mem_inv st" "mem_good (tenant_from_context ctx)" "mem_good tenant" "mem_clean obj"
    "mem_clean obj'" "mem_delete_object st ctx obj = Inr st'"
  then show "mem_lookup st' tenant obj' r =
      (if tenant = tenant_from_context ctx \<and> obj' = obj then {} else mem_lookup st tenant obj' r)"
    by (auto simp: mem_delete_object_def mem_lookup_def Let_def mem_prefix_key)
qed (auto simp: mem_list_subjects_def mem_write_def mem_delete_def mem_write_all_inv
    mem_write_all_lookup mem_delete_all_inv mem_delete_all_lookup)

text \<open>The Postgres store compares the columns, and keeps the laws for every object.\<close>

definition pg_lookup :: "pg_store \<Rightarrow> string \<Rightarrow> object \<Rightarrow> string \<Rightarrow> subject set" where
  "pg_lookup db tenant obj r =
     {s. \<lparr>pg_tenant_id = tenant, pg_tuple = new_tuple obj r s\<rparr> \<in> set db}"

lemma pg_insert_all_set:
  "set (pg_insert_all tenant ts db) = set db \<union> {\<lparr>pg_tenant_id = tenant, pg_tuple = t\<rparr> | t. t \<in> set ts}"
  by (induction ts arbitrary: db) (auto simp: Let_def)

lemma pg_delete_all_set:
  "set (pg_delete_all tenant ts db) = {row \<in> set db. \<not> (pg_tenant_id row = tenant \<and> pg_tuple row \<in> set ts)}"
  by (induction ts arbitrary: db) auto

lemma pg_row_eq: "\<lparr>pg_tenant_id = tn, pg_tuple = t\<rparr> = row \<longleftrightarrow> pg_tenant_id row = tn \<and> pg_tuple row = t"
  by (cases row) auto

lemma pg_lookup_rows:
  "pg_lookup db tenant obj r = (\<lambda>row. tup_subject (pg_tuple row)) `
     {row \<in> set db. pg_tenant_id row = tenant \<and> tup_object (pg_tuple row) = obj \<and>
        tup_relation (pg_tuple row) = r}"
proof -
  have "s \<in> pg_lookup db tenant obj r \<longleftrightarrow> (\<exists>row \<in> set db. pg_tenant_id row = tenant \<and>
      tup_object (pg_tuple row) = obj \<and> tup_relation (pg_tuple row) = r \<and>
      tup_subject (pg_tuple row) = s)" for s
  proof -
    have "\<lparr>pg_tenant_id = tenant, pg_tuple = new_tuple obj r s\<rparr> \<in> set db \<longleftrightarrow>
        (\<exists>row \<in> set db. \<lparr>pg_tenant_id = tenant, pg_tuple = new_tuple obj r s\<rparr> = row)" by blast
    then show ?thesis by (auto simp: pg_lookup_def pg_row_eq rel_tuple_eq [symmetric])
  qed
  then show ?thesis by auto
qed

interpretation pg: tuple_store pg_write pg_delete pg_delete_object pg_list_subjects
  pg_lookup "\<lambda>_. True" "\<lambda>_. True" "\<lambda>tenant. tenant \<noteq> ''''"
proof unfold_locales
  fix st ctx obj r xs assume "pg_list_subjects st ctx obj r = Inr xs"
  then show "set xs = pg_lookup st (tenant_from_context ctx) obj r"
    by (auto simp: pg_list_subjects_def with_tenant_tx_def Let_def pg_lookup_rows split: if_splits)
qed (auto simp: pg_list_subjects_def pg_write_def pg_delete_def pg_delete_object_def
    with_tenant_tx_def Let_def pg_lookup_def pg_insert_all_set pg_delete_all_set new_tuple_def
    split: if_splits)

end
