(* ===== verification/AuthzEnforce.thy ===== *)
theory AuthzEnforce
  imports AuthzDecision AuthzStore
begin

text \<open>
  Where decisions are asked for and enforced: the policy enforcement point
  (pkg/authz/authzconnect/interceptor.go), the batch endpoint the UI asks
  (pkg/authz/authzhttp/batchcheck.go) and the seeding of the tuple store from the membership
  tables (pkg/authz/backfill.go). The engine reads through a store under the request's context.
\<close>

type_synonym context_reader = "req_context \<Rightarrow> reader"

section \<open>The scope of a check\<close>

text \<open>
  Both enforcement points scope the context the same way. The extractors are the functions the
  server configures (nil is \<open>None\<close>).
\<close>

type_synonym extractor = "(req_context \<Rightarrow> string) option"

definition scope_check ::
  "extractor \<Rightarrow> extractor \<Rightarrow> req_context \<Rightarrow> string \<Rightarrow> req_context" where
  "scope_check tenant_of session_role ctx user_id =
     (let (tenant, ctx1) =
            (case tenant_of of
               None \<Rightarrow> ('''', ctx)
             | Some f \<Rightarrow> (f ctx, context_with_tenant ctx (f ctx)))
      in case session_role of
           None \<Rightarrow> ctx1
         | Some f \<Rightarrow>
             if user_id \<noteq> '''' \<and> tenant \<noteq> '''' \<and> valid_role (f ctx1)
             then context_with_session_membership ctx1
                    \<lparr>sm_user_id = user_id, sm_tenant = tenant, sm_role = f ctx1\<rparr>
             else ctx1)"

section \<open>The interceptor\<close>

record 'msg rule =
  rule_permission :: permission
  rule_object :: "('msg \<Rightarrow> object \<times> bool) option"

datatype mode = ModeEnforce | ModeShadow

record 'msg interceptor =
  ic_schema :: schema
  ic_rules :: "string \<Rightarrow> 'msg rule option"
  ic_user_id :: extractor
  ic_tenant :: extractor
  ic_session_role :: extractor
  ic_mode :: mode
  ic_require_rule :: bool

datatype connect_code = CodePermissionDenied | CodeUnauthenticated | CodeInternal | CodeHandler string

datatype warning =
    WouldDenyNoUser string
  | WouldDenyStream string
  | WouldDeny string string permission object

text \<open>
  A unary call: the store's reader, the handler behind the interceptor, the context, the procedure
  and the message. The result is the warnings logged and the response or error.
\<close>

definition caller :: "extractor \<Rightarrow> req_context \<Rightarrow> string" where
  "caller f ctx = (case f of None \<Rightarrow> '''' | Some g \<Rightarrow> g ctx)"

definition wrap_unary ::
  "'msg interceptor \<Rightarrow> context_reader \<Rightarrow> (req_context \<Rightarrow> 'msg \<Rightarrow> connect_code + 'resp)
     \<Rightarrow> req_context \<Rightarrow> string \<Rightarrow> 'msg \<Rightarrow> warning list \<times> (connect_code + 'resp)" where
  "wrap_unary i store handler ctx proc msg =
     (case ic_rules i proc of
        None \<Rightarrow>
          if ic_require_rule i then ([], Inl CodePermissionDenied) else ([], handler ctx msg)
      | Some rule \<Rightarrow>
          let user_id = caller (ic_user_id i) ctx in
          if user_id = '''' then
            (if ic_mode i = ModeShadow then ([WouldDenyNoUser proc], handler ctx msg)
             else ([], Inl CodeUnauthenticated))
          else
            let (obj, scoped) =
              (case rule_object rule of None \<Rightarrow> (mk_object '''' '''', False) | Some f \<Rightarrow> f msg) in
            if \<not> scoped then ([], handler ctx msg)
            else
              let check_ctx = scope_check (ic_tenant i) (ic_session_role i) ctx user_id in
              (case check_permission (ic_schema i) (store check_ctx) user_id (rule_permission rule) obj of
                 Inl _ \<Rightarrow> ([], Inl CodeInternal)
               | Inr allowed \<Rightarrow>
                   if \<not> allowed then
                     (if ic_mode i = ModeShadow
                      then ([WouldDeny proc user_id (rule_permission rule) obj], handler ctx msg)
                      else ([], Inl CodePermissionDenied))
                   else ([], handler ctx msg)))"

definition wrap_streaming_handler ::
  "'msg interceptor \<Rightarrow> (req_context \<Rightarrow> connect_code + unit) \<Rightarrow> req_context \<Rightarrow> string
     \<Rightarrow> warning list \<times> (connect_code + unit)" where
  "wrap_streaming_handler i handler ctx proc =
     (case ic_rules i proc of
        None \<Rightarrow> ([], handler ctx)
      | Some _ \<Rightarrow>
          let user_id = caller (ic_user_id i) ctx in
          if user_id = '''' then
            (if ic_mode i = ModeShadow then ([WouldDenyStream proc], handler ctx)
             else ([], Inl CodeUnauthenticated))
          else ([], handler ctx))"

section \<open>The batch endpoint\<close>

record check_item =
  ci_permission :: string
  ci_object :: string

record batch_handler =
  bh_schema :: schema
  bh_user_id :: extractor
  bh_tenant :: extractor
  bh_session_role :: extractor

datatype http_reply = HttpError nat string | Granted "string list"

definition batch_grants ::
  "schema \<Rightarrow> reader \<Rightarrow> string \<Rightarrow> check_item \<Rightarrow> bool" where
  "batch_grants sch rd user_id c \<longleftrightarrow>
     (if ci_object c = '''' then False
      else (case parse_object (ci_object c) of
          Inl _ \<Rightarrow> False
        | Inr obj \<Rightarrow> (case check_permission sch rd user_id (ci_permission c) obj of
              Inl _ \<Rightarrow> False
            | Inr ok \<Rightarrow> ok)))"

text \<open>\<open>body\<close> is the decoded request, \<open>None\<close> when the JSON decoder rejects it.\<close>

definition batch_check ::
  "batch_handler \<Rightarrow> context_reader \<Rightarrow> req_context \<Rightarrow> string \<Rightarrow> check_item list option \<Rightarrow> http_reply" where
  "batch_check h store ctx http_method body =
     (if http_method \<noteq> ''POST'' then HttpError 405 ''POST required''
      else
        let user_id = caller (bh_user_id h) ctx in
        if user_id = '''' then HttpError 401 ''unauthenticated''
        else
          (case body of
             None \<Rightarrow> HttpError 400 ''invalid body''
           | Some checks \<Rightarrow>
               let ctx' = scope_check (bh_tenant h) (bh_session_role h) ctx user_id in
               Granted (map (\<lambda>c. ci_permission c @ ''@'' @ ci_object c)
                 (filter (batch_grants (bh_schema h) (store ctx') user_id) checks))))"

section \<open>Seeding\<close>

record member_row =
  mr_container :: string
  mr_user_id :: string
  mr_role :: role
  mr_org :: string

record link_row =
  lr_id :: string
  lr_parent :: string
  lr_org :: string

record backfill_stats =
  st_org_memberships :: nat
  st_workspace_parents :: nat
  st_workspace_memberships :: nat
  st_instance_parents :: nat

definition backfill_role :: "role \<Rightarrow> role" where
  "backfill_role r = (if valid_role r then r else role_member)"

text \<open>
  The tuples the four queries give, with the tenant each is filed under. A member row of an
  organization has the organization as container and as tenant.
\<close>

definition backfill_tuples ::
  "member_row list \<Rightarrow> link_row list \<Rightarrow> member_row list \<Rightarrow> link_row list \<Rightarrow> (string \<times> rel_tuple) list" where
  "backfill_tuples orgs wss wms insts =
     map (\<lambda>m. (mr_container m, org_membership (mr_container m) (mr_user_id m) (backfill_role (mr_role m)))) orgs @
     map (\<lambda>l. (lr_org l, workspace_parent (lr_id l) (lr_org l))) wss @
     map (\<lambda>m. (mr_org m, workspace_membership (mr_container m) (mr_user_id m) (backfill_role (mr_role m)))) wms @
     map (\<lambda>l. (lr_org l, instance_parent (lr_id l) (lr_parent l))) insts"

definition by_tenant :: "(string \<times> rel_tuple) list \<Rightarrow> string \<Rightarrow> rel_tuple list" where
  "by_tenant tts tenant = map snd (filter (\<lambda>p. fst p = tenant) tts)"

text \<open>The last loop ranges over a map: \<open>tenants\<close> is the order of its keys.\<close>

fun write_tenants ::
  "(string \<Rightarrow> rel_tuple list) \<Rightarrow> req_context \<Rightarrow> string list \<Rightarrow> pg_store \<Rightarrow> (authz_error \<times> pg_store) + pg_store" where
  "write_tenants bt ctx [] db = Inr db"
| "write_tenants bt ctx (tenant # tenants) db =
     (case pg_write db (context_with_tenant ctx tenant) (bt tenant) of
        Inl e \<Rightarrow> Inl (e, db)
      | Inr db' \<Rightarrow> write_tenants bt ctx tenants db')"

definition backfill_from_cloud_schema ::
  "req_context \<Rightarrow> member_row list \<Rightarrow> link_row list \<Rightarrow> member_row list \<Rightarrow> link_row list \<Rightarrow>
     string list \<Rightarrow> pg_store \<Rightarrow> backfill_stats \<times> ((authz_error \<times> pg_store) + pg_store)" where
  "backfill_from_cloud_schema ctx orgs wss wms insts tenants db =
     (\<lparr>st_org_memberships = length orgs, st_workspace_parents = length wss,
       st_workspace_memberships = length wms, st_instance_parents = length insts\<rparr>,
      write_tenants (by_tenant (backfill_tuples orgs wss wms insts)) ctx tenants db)"

end
