(* ===== verification/AuthzMatrix.thy ===== *)
theory AuthzMatrix
  imports AuthzGuarantees
begin

text \<open>
  The fine-grained schema against the coarse role matrix, and what a backfilled store grants: the
  relations of the containers unfolded one level at a time.
\<close>

section \<open>Unfolding a relation\<close>

inductive_cases has_relationE: "has_relation sch rd u r obj"

lemma has_relation_iff:
  "has_relation sch rd u r obj \<longleftrightarrow>
     (\<exists>rw b. schema_relation sch (obj_type obj) r = Some rw \<and> b \<in> set (rw_union rw) \<and>
        branch_holds rd u (has_relation sch rd u) r obj b)"
proof
  assume "has_relation sch rd u r obj"
  then show "\<exists>rw b. schema_relation sch (obj_type obj) r = Some rw \<and> b \<in> set (rw_union rw) \<and>
      branch_holds rd u (has_relation sch rd u) r obj b"
    by (rule has_relationE) (fastforce simp: branch_holds_def)+
qed (blast intro: branch_holds_has_relation)

lemma branch_direct:
  "rd obj r = Inr subs \<Longrightarrow> \<forall>s \<in> set subs. is_user s \<Longrightarrow>
     branch_holds rd u F r obj us_direct \<longleftrightarrow>
       (\<exists>s \<in> set subs. obj_id (sub_object s) = u \<or> obj_id (sub_object s) = ''*'')"
  by (auto simp: branch_holds_def us_direct_def)

lemma branch_comp: "c \<noteq> '''' \<Longrightarrow> branch_holds rd u F r obj (us_comp c) \<longleftrightarrow> F c obj"
  by (simp add: branch_holds_def us_comp_def)

lemma branch_from:
  "rd obj ts = Inr subs \<Longrightarrow>
     branch_holds rd u F r obj (us_from ts c) \<longleftrightarrow>
       (\<exists>s \<in> set subs. sub_relation s = '''' \<and> F c (sub_object s))"
  by (auto simp: branch_holds_def us_from_def)

lemma has_computed_only:
  assumes "schema_relation sch (obj_type obj) r = Some (computed_only c)" "c \<noteq> ''''"
  shows "has_relation sch rd u r obj \<longleftrightarrow> has_relation sch rd u c obj"
  by (subst has_relation_iff) (use assms in \<open>simp add: computed_only_def branch_comp\<close>)

lemma has_this_or:
  assumes "schema_relation sch (obj_type obj) r = Some (this_or cs)" "'''' \<notin> set cs"
    "rd obj r = Inr subs" "\<forall>s \<in> set subs. is_user s"
  shows "has_relation sch rd u r obj \<longleftrightarrow>
    (\<exists>s \<in> set subs. obj_id (sub_object s) = u \<or> obj_id (sub_object s) = ''*'') \<or>
    (\<exists>c \<in> set cs. has_relation sch rd u c obj)"
proof -
  have "has_relation sch rd u r obj \<longleftrightarrow> branch_holds rd u (has_relation sch rd u) r obj us_direct \<or>
      (\<exists>c \<in> set cs. branch_holds rd u (has_relation sch rd u) r obj (us_comp c))"
    by (subst has_relation_iff) (use assms(1) in \<open>auto simp: this_or_def\<close>)
  also have "(\<exists>c \<in> set cs. branch_holds rd u (has_relation sch rd u) r obj (us_comp c)) \<longleftrightarrow>
      (\<exists>c \<in> set cs. has_relation sch rd u c obj)"
    using assms(2) branch_comp by (intro bex_cong refl) metis
  finally show ?thesis using branch_direct [where rd = rd, OF assms(3,4)] by simp
qed

lemma has_direct:
  assumes "schema_relation sch (obj_type obj) r = Some direct"
    "rd obj r = Inr subs" "\<forall>s \<in> set subs. is_user s"
  shows "has_relation sch rd u r obj \<longleftrightarrow>
    (\<exists>s \<in> set subs. obj_id (sub_object s) = u \<or> obj_id (sub_object s) = ''*'')"
  by (subst has_relation_iff) (use assms in \<open>auto simp: direct_def branch_direct\<close>)

lemma has_from_parent:
  assumes "schema_relation sch (obj_type obj) r = Some (from_parent ''parent'' c cs)" "'''' \<notin> set cs"
    "rd obj r = Inr subs" "\<forall>s \<in> set subs. is_user s" "rd obj ''parent'' = Inr ps"
  shows "has_relation sch rd u r obj \<longleftrightarrow>
    (\<exists>s \<in> set subs. obj_id (sub_object s) = u \<or> obj_id (sub_object s) = ''*'') \<or>
    (\<exists>s \<in> set ps. sub_relation s = '''' \<and> has_relation sch rd u c (sub_object s)) \<or>
    (\<exists>c \<in> set cs. has_relation sch rd u c obj)"
proof -
  have "has_relation sch rd u r obj \<longleftrightarrow> branch_holds rd u (has_relation sch rd u) r obj us_direct \<or>
      branch_holds rd u (has_relation sch rd u) r obj (us_from ''parent'' c) \<or>
      (\<exists>c \<in> set cs. branch_holds rd u (has_relation sch rd u) r obj (us_comp c))"
    by (subst has_relation_iff) (use assms(1) in \<open>auto simp: from_parent_def\<close>)
  also have "(\<exists>c \<in> set cs. branch_holds rd u (has_relation sch rd u) r obj (us_comp c)) \<longleftrightarrow>
      (\<exists>c \<in> set cs. has_relation sch rd u c obj)"
    using assms(2) branch_comp by (intro bex_cong refl) metis
  finally show ?thesis using branch_direct [where rd = rd, OF assms(3,4)] branch_from [where rd = rd, OF assms(5)] by simp
qed

text \<open>The relations of the containers under the default schema.\<close>

lemma schema_relation_default:
  "schema_relation default_schema t r =
     (case (if t = ''user'' then Some Map.empty
            else if t = ''organization'' then Some (td_relations organization_type_def)
            else if t = ''workspace'' then Some (td_relations workspace_type_def)
            else if t = ''instance'' then Some (td_relations instance_type_def)
            else if resource_like default_resource_types t then Some (td_relations (resource_type_def t))
            else None) of
        None \<Rightarrow> None
      | Some rels \<Rightarrow> (case rels r of
            None \<Rightarrow> None
          | Some rw \<Rightarrow> if rw_union rw = [] then Some \<lparr>rw_union = [us_direct]\<rparr> else Some rw))"
  unfolding default_schema_def schema_relation_def everstack_types [OF proper_default] by auto

lemma union_nonempty [simp]:
  "rw_union direct \<noteq> []" "rw_union (computed_only c) \<noteq> []" "rw_union (this_or cs) \<noteq> []"
  "rw_union (from_parent p c cs) \<noteq> []"
  by (simp_all add: rewrite_defs)

lemma resource_like_types:
  assumes "resource_like default_resource_types t"
  shows "t \<noteq> ''user''" "t \<noteq> ''organization''" "t \<noteq> ''workspace''" "t \<noteq> ''instance''"
  using assms by (auto simp: resource_like_def default_resource_types_def)

lemma organization_relations:
  "schema_relation default_schema ''organization'' ''owner'' = Some direct"
  "schema_relation default_schema ''organization'' ''admin'' = Some (this_or [''owner''])"
  "schema_relation default_schema ''organization'' ''member'' = Some (this_or [''admin''])"
  "schema_relation default_schema ''organization'' ''viewer'' = Some (this_or [''member''])"
  "schema_relation default_schema ''organization'' ''can_manage_billing'' = Some (computed_only ''owner'')"
  "schema_relation default_schema ''organization'' ''can_delete'' = Some (computed_only ''owner'')"
  "schema_relation default_schema ''organization'' ''can_manage_members'' = Some (computed_only ''admin'')"
  "schema_relation default_schema ''organization'' ''can_manage_workspaces'' = Some (computed_only ''admin'')"
  "schema_relation default_schema ''organization'' ''can_manage_storage'' = Some (computed_only ''admin'')"
  "schema_relation default_schema ''organization'' ''can_view'' = Some (computed_only ''viewer'')"
  "schema_relation default_schema ''organization'' ''can_edit'' = Some (computed_only ''member'')"
  by (simp_all add: schema_relation_default organization_type_def_def)

lemma instance_relations:
  "schema_relation default_schema ''instance'' ''admin'' = Some (from_parent ''parent'' ''admin'' [])"
  "schema_relation default_schema ''instance'' ''member'' = Some (from_parent ''parent'' ''member'' [''admin''])"
  "schema_relation default_schema ''instance'' ''viewer'' = Some (from_parent ''parent'' ''viewer'' [''member''])"
  "schema_relation default_schema ''instance'' ''can_manage_storage'' = Some (computed_only ''admin'')"
  "schema_relation default_schema ''instance'' ''can_view'' = Some (computed_only ''viewer'')"
  "schema_relation default_schema ''instance'' ''can_edit'' = Some (computed_only ''member'')"
  by (simp_all add: schema_relation_default instance_type_def_def)

lemma resource_relations:
  assumes "resource_like default_resource_types t"
  shows
    "schema_relation default_schema t ''manager'' = Some (from_parent ''parent'' ''admin'' [])"
    "schema_relation default_schema t ''editor'' = Some (from_parent ''parent'' ''member'' [''manager''])"
    "schema_relation default_schema t ''viewer'' = Some (from_parent ''parent'' ''viewer'' [''editor''])"
    "schema_relation default_schema t ''can_view'' = Some (computed_only ''viewer'')"
    "schema_relation default_schema t ''can_edit'' = Some (computed_only ''editor'')"
    "schema_relation default_schema t ''can_delete'' = Some (computed_only ''manager'')"
  using assms resource_like_types [OF assms]
  by (simp_all add: schema_relation_default resource_type_def_def)

section \<open>Agreement with the coarse matrix\<close>

text \<open>An organization in which the user holds exactly one role.\<close>

definition org_reader :: "string \<Rightarrow> string \<Rightarrow> role \<Rightarrow> reader" where
  "org_reader org u role obj r = Inr (if obj = Org org \<and> r = role then [user u] else [])"

text \<open>A resource of the instance, and nothing else stored; the session role comes from the bridge.\<close>

definition resource_reader :: "string \<Rightarrow> string \<Rightarrow> string \<Rightarrow> reader" where
  "resource_reader typ res inst obj r =
     Inr (if obj = Resource typ res \<and> r = ''parent'' then [mk_subject (Instance inst) ''''] else [])"

definition session_context :: "string \<Rightarrow> string \<Rightarrow> role \<Rightarrow> req_context" where
  "session_context u tenant role = scope_check (Some (\<lambda>_. tenant)) (Some (\<lambda>_. role)) background u"

definition bridged :: "string \<Rightarrow> string \<Rightarrow> string \<Rightarrow> string \<Rightarrow> role \<Rightarrow> reader" where
  "bridged typ res u tenant role =
     bridge_list_subjects (\<lambda>_. resource_reader typ res tenant) (session_context u tenant role)"

lemma user_simps [simp]:
  "sub_relation (user u) = ''''" "obj_id (sub_object (user u)) = u" "obj_type (sub_object (user u)) = ''user''"
  by (simp_all add: user_def user_type_def)

lemma rank_levels:
  assumes "valid_role role"
  shows "rank ''admin'' \<le> rank role \<longleftrightarrow> role = ''admin'' \<or> role = ''owner''"
    "rank ''member'' \<le> rank role \<longleftrightarrow> role = ''member'' \<or> role = ''admin'' \<or> role = ''owner''"
    "rank ''viewer'' \<le> rank role \<longleftrightarrow>
       role = ''viewer'' \<or> role = ''member'' \<or> role = ''admin'' \<or> role = ''owner''"
  by (rule valid_role_cases [OF assms]; simp)+

lemma bridge_levels:
  assumes "valid_role role"
  shows "instance_relation_for_role role = ''admin'' \<longleftrightarrow> role = ''admin'' \<or> role = ''owner''"
    "instance_relation_for_role role = ''member'' \<longleftrightarrow> role = ''member''"
    "instance_relation_for_role role = ''viewer'' \<longleftrightarrow> role = ''viewer''"
  by (rule valid_role_cases [OF assms]; simp add: instance_relation_for_role_def role_defs)+

lemma org_levels:
  assumes "valid_role role"
  shows "has_relation default_schema (org_reader org u role) u ''owner'' (Org org) \<longleftrightarrow> role = ''owner''"
    "has_relation default_schema (org_reader org u role) u ''admin'' (Org org) \<longleftrightarrow> rank ''admin'' \<le> rank role"
    "has_relation default_schema (org_reader org u role) u ''member'' (Org org) \<longleftrightarrow> rank ''member'' \<le> rank role"
    "has_relation default_schema (org_reader org u role) u ''viewer'' (Org org) \<longleftrightarrow> rank ''viewer'' \<le> rank role"
proof -
  let ?rd = "org_reader org u role"
  let ?h = "has_relation default_schema ?rd u"
  have rd: "org_reader org u role (Org org) r = Inr (if r = role then [user u] else [])" for r
    by (simp add: org_reader_def)
  have users: "\<forall>s \<in> set (if r = role then [user u] else []). is_user s" for r by simp
  have ty: "obj_type (Org org) = ''organization''" by (simp add: Org_def)
  note rel = organization_relations [folded ty]
  have own: "?h ''owner'' (Org org) \<longleftrightarrow> role = ''owner''"
    using has_direct [where rd = ?rd, OF rel(1) rd users] by auto
  have adm: "?h ''admin'' (Org org) \<longleftrightarrow> role = ''admin'' \<or> ?h ''owner'' (Org org)"
    using has_this_or [where rd = ?rd, OF rel(2) _ rd users] by auto
  have mem: "?h ''member'' (Org org) \<longleftrightarrow> role = ''member'' \<or> ?h ''admin'' (Org org)"
    using has_this_or [where rd = ?rd, OF rel(3) _ rd users] by auto
  have view: "?h ''viewer'' (Org org) \<longleftrightarrow> role = ''viewer'' \<or> ?h ''member'' (Org org)"
    using has_this_or [where rd = ?rd, OF rel(4) _ rd users] by auto
  show "?h ''owner'' (Org org) \<longleftrightarrow> role = ''owner''" by (rule own)
  show "?h ''admin'' (Org org) \<longleftrightarrow> rank ''admin'' \<le> rank role"
    "?h ''member'' (Org org) \<longleftrightarrow> rank ''member'' \<le> rank role"
    "?h ''viewer'' (Org org) \<longleftrightarrow> rank ''viewer'' \<le> rank role"
    unfolding view mem adm own rank_levels [OF assms] by blast+
qed

lemma bridged_reads:
  assumes "u \<noteq> ''''" "tenant \<noteq> ''''" "valid_role role" "resource_like default_resource_types typ"
  shows "bridged typ res u tenant role (Instance tenant) r =
      Inr (if r = instance_relation_for_role role then [user u] else [])"
    "bridged typ res u tenant role (Resource typ res) r =
      Inr (if r = ''parent'' then [mk_subject (Instance tenant) ''''] else [])"
proof -
  have ctx: "ctx_membership (session_context u tenant role) =
      Some \<lparr>sm_user_id = u, sm_tenant = tenant, sm_role = role\<rparr>"
    using assms by (simp add: session_context_def scope_check_def)
  show "bridged typ res u tenant role (Instance tenant) r =
      Inr (if r = instance_relation_for_role role then [user u] else [])"
    using assms(1) resource_like_types(4) [OF assms(4)]
    by (simp add: bridged_def bridge_list_subjects_def ctx resource_reader_def Instance_def Resource_def)
  show "bridged typ res u tenant role (Resource typ res) r =
      Inr (if r = ''parent'' then [mk_subject (Instance tenant) ''''] else [])"
    using resource_like_types(4) [OF assms(4)]
    by (simp add: bridged_def bridge_list_subjects_def ctx resource_reader_def Resource_def)
qed

lemma instance_levels:
  assumes "u \<noteq> ''''" "tenant \<noteq> ''''" "valid_role role" "resource_like default_resource_types typ"
  shows "has_relation default_schema (bridged typ res u tenant role) u ''admin'' (Instance tenant)
      \<longleftrightarrow> rank ''admin'' \<le> rank role"
    "has_relation default_schema (bridged typ res u tenant role) u ''member'' (Instance tenant)
      \<longleftrightarrow> rank ''member'' \<le> rank role"
    "has_relation default_schema (bridged typ res u tenant role) u ''viewer'' (Instance tenant)
      \<longleftrightarrow> rank ''viewer'' \<le> rank role"
proof -
  let ?rd = "bridged typ res u tenant role"
  let ?h = "has_relation default_schema ?rd u"
  let ?subs = "\<lambda>r. if r = instance_relation_for_role role then [user u] else []"
  note rd = bridged_reads(1) [OF assms, of res]
  have users: "\<forall>s \<in> set (?subs r). is_user s" for r by simp
  have parent: "bridged typ res u tenant role (Instance tenant) ''parent'' = Inr []"
    using rd [of "''parent''"] by (simp add: instance_relation_for_role_def)
  have ty: "obj_type (Instance tenant) = ''instance''" by (simp add: Instance_def)
  note rel = instance_relations [folded ty]
  have direct: "(\<exists>s \<in> set (?subs r). obj_id (sub_object s) = u \<or> obj_id (sub_object s) = ''*'')
      \<longleftrightarrow> instance_relation_for_role role = r" for r by auto
  have adm: "?h ''admin'' (Instance tenant) \<longleftrightarrow> instance_relation_for_role role = ''admin''"
    using has_from_parent [where rd = ?rd and u = u, OF rel(1) _ rd users parent] unfolding direct by simp
  have mem: "?h ''member'' (Instance tenant) \<longleftrightarrow>
      instance_relation_for_role role = ''member'' \<or> ?h ''admin'' (Instance tenant)"
    using has_from_parent [where rd = ?rd and u = u, OF rel(2) _ rd users parent] unfolding direct by simp
  have view: "?h ''viewer'' (Instance tenant) \<longleftrightarrow>
      instance_relation_for_role role = ''viewer'' \<or> ?h ''member'' (Instance tenant)"
    using has_from_parent [where rd = ?rd and u = u, OF rel(3) _ rd users parent] unfolding direct by simp
  show "?h ''admin'' (Instance tenant) \<longleftrightarrow> rank ''admin'' \<le> rank role"
    "?h ''member'' (Instance tenant) \<longleftrightarrow> rank ''member'' \<le> rank role"
    "?h ''viewer'' (Instance tenant) \<longleftrightarrow> rank ''viewer'' \<le> rank role"
    unfolding view mem adm rank_levels [OF assms(3)] bridge_levels [OF assms(3)] by blast+
qed

lemma resource_levels:
  assumes "u \<noteq> ''''" "tenant \<noteq> ''''" "valid_role role" "resource_like default_resource_types typ"
  shows "has_relation default_schema (bridged typ res u tenant role) u ''manager'' (Resource typ res)
      \<longleftrightarrow> rank ''admin'' \<le> rank role"
    "has_relation default_schema (bridged typ res u tenant role) u ''editor'' (Resource typ res)
      \<longleftrightarrow> rank ''member'' \<le> rank role"
    "has_relation default_schema (bridged typ res u tenant role) u ''viewer'' (Resource typ res)
      \<longleftrightarrow> rank ''viewer'' \<le> rank role"
proof -
  let ?rd = "bridged typ res u tenant role"
  let ?h = "has_relation default_schema ?rd u"
  let ?o = "Resource typ res"
  note rd = bridged_reads(2) [OF assms, of res]
  note lev = instance_levels [OF assms, of res]
  have parent: "bridged typ res u tenant role ?o ''parent'' = Inr [mk_subject (Instance tenant) '''']"
    using rd [of "''parent''"] by simp
  have none: "bridged typ res u tenant role ?o r = Inr []" if "r \<noteq> ''parent''" for r
    using rd [of r] that by simp
  have users: "\<forall>s \<in> set []. is_user s" by simp
  have ty: "schema_relation default_schema (obj_type ?o) r = schema_relation default_schema typ r" for r
    by (simp add: Resource_def)
  note rel = resource_relations [OF assms(4), THEN trans [OF ty]]
  have man: "?h ''manager'' ?o \<longleftrightarrow> ?h ''admin'' (Instance tenant)"
    using has_from_parent [where rd = ?rd, OF rel(1) _ none users parent] by auto
  have ed: "?h ''editor'' ?o \<longleftrightarrow> ?h ''member'' (Instance tenant) \<or> ?h ''manager'' ?o"
    using has_from_parent [where rd = ?rd, OF rel(2) _ none users parent] by auto
  have view: "?h ''viewer'' ?o \<longleftrightarrow> ?h ''viewer'' (Instance tenant) \<or> ?h ''editor'' ?o"
    using has_from_parent [where rd = ?rd, OF rel(3) _ none users parent] by auto
  show "?h ''manager'' ?o \<longleftrightarrow> rank ''admin'' \<le> rank role"
    "?h ''editor'' ?o \<longleftrightarrow> rank ''member'' \<le> rank role"
    "?h ''viewer'' ?o \<longleftrightarrow> rank ''viewer'' \<le> rank role"
    using lev by (auto simp: man ed view)
qed

text \<open>The least rank that holds a permission.\<close>

definition required_rank :: "permission \<Rightarrow> nat" where
  "required_rank p =
     (if p \<in> {perm_org_manage_billing, perm_org_delete} then 4
      else if p \<in> {perm_org_view, perm_resource_view, perm_storage_read} then 1
      else if p \<in> {perm_resource_create, perm_resource_edit, perm_storage_write} then 2
      else 3)"

lemma can_rank:
  assumes "valid_role role" "p \<in> set all_permissions"
  shows "can role p \<longleftrightarrow> required_rank p \<le> rank role"
  using assms(2)
  by (rule_tac valid_role_cases [OF assms(1)]; simp add: can_simps all_permissions_def perm_defs required_rank_def)

lemma permission_relation_at:
  "permission_relation perm_org_view = ''can_view''"
  "permission_relation perm_org_manage_members = ''can_manage_members''"
  "permission_relation perm_org_manage_billing = ''can_manage_billing''"
  "permission_relation perm_org_manage_workspaces = ''can_manage_workspaces''"
  "permission_relation perm_org_delete = ''can_delete''"
  "permission_relation perm_workspace_manage = ''can_manage_members''"
  "permission_relation perm_resource_view = ''can_view''"
  "permission_relation perm_resource_create = ''can_edit''"
  "permission_relation perm_resource_edit = ''can_edit''"
  "permission_relation perm_resource_delete = ''can_delete''"
  "permission_relation perm_storage_read = ''can_view''"
  "permission_relation perm_storage_write = ''can_edit''"
  "permission_relation perm_storage_manage = ''can_manage_storage''"
  by (simp_all add: permission_relation_def perm_defs)

lemma required_rank_at:
  "required_rank perm_org_view = 1"
  "required_rank perm_org_manage_members = 3"
  "required_rank perm_org_manage_billing = 4"
  "required_rank perm_org_manage_workspaces = 3"
  "required_rank perm_org_delete = 4"
  "required_rank perm_workspace_manage = 3"
  "required_rank perm_resource_view = 1"
  "required_rank perm_resource_create = 2"
  "required_rank perm_resource_edit = 2"
  "required_rank perm_resource_delete = 3"
  "required_rank perm_storage_read = 1"
  "required_rank perm_storage_write = 2"
  "required_rank perm_storage_manage = 3"
  by (simp_all add: required_rank_def perm_defs)

lemma permission_member:
  "perm_org_view \<in> set all_permissions"
  "perm_org_manage_members \<in> set all_permissions"
  "perm_org_manage_billing \<in> set all_permissions"
  "perm_org_manage_workspaces \<in> set all_permissions"
  "perm_org_delete \<in> set all_permissions"
  "perm_workspace_manage \<in> set all_permissions"
  "perm_resource_view \<in> set all_permissions"
  "perm_resource_create \<in> set all_permissions"
  "perm_resource_edit \<in> set all_permissions"
  "perm_resource_delete \<in> set all_permissions"
  "perm_storage_read \<in> set all_permissions"
  "perm_storage_write \<in> set all_permissions"
  "perm_storage_manage \<in> set all_permissions"
  by (simp_all add: all_permissions_def)

lemma owner_rank: "valid_role role \<Longrightarrow> role = ''owner'' \<longleftrightarrow> 4 \<le> rank role"
  by (erule valid_role_cases) simp_all

lemma check_permission_hierarchy:
  assumes "hierarchical default_resource_types rd" "u \<noteq> ''''" "obj_type obj \<noteq> ''''" "obj_id obj \<noteq> ''''"
    "permission_relation p \<noteq> ''''"
  shows "check_permission default_schema rd u p obj =
    Inr (has_relation default_schema rd u (permission_relation p) obj)"
proof -
  from Check_answers [OF proper_default assms(1), of u "permission_relation p" obj] obtain b
    where "Check (with_resource_types everstack_schema default_resource_types) rd u
      (permission_relation p) obj = Inr b" by blast
  with Check_inr_wf [OF proper_default this] assms(2-5) show ?thesis
    by (simp add: check_permission_def default_schema_def)
qed

lemma hierarchical_org: "hierarchical ns (org_reader org u role)"
  by (simp add: hierarchical_def org_reader_def)

lemma hierarchical_bridged:
  assumes "resource_like default_resource_types typ"
  shows "hierarchical default_resource_types (bridged typ res u tenant role)"
  unfolding hierarchical_def
proof (intro allI)
  fix obj r
  show "\<exists>subs. bridged typ res u tenant role obj r = Inr subs \<and> (\<forall>s \<in> set subs. is_user s \<or>
      type_level default_resource_types (obj_type (sub_object s)) < type_level default_resource_types (obj_type obj))"
    using assms resource_like_types [OF assms]
    by (simp add: bridged_def bridge_list_subjects_def resource_reader_def type_level_def
        Resource_def Instance_def split: option.split)
qed



section \<open>A backfilled store\<close>

lemma write_tenants_rows:
  "'''' \<notin> set tenants \<Longrightarrow> \<exists>db'. write_tenants bt ctx tenants db = Inr db' \<and>
     set db' = set db \<union> {\<lparr>pg_tenant_id = tn, pg_tuple = t\<rparr> | tn t. tn \<in> set tenants \<and> t \<in> set (bt tn)}"
proof (induction tenants arbitrary: db)
  case (Cons tn tns)
  let ?db = "pg_insert_all tn (bt tn) db"
  have "pg_write db (context_with_tenant ctx tn) (bt tn) = Inr ?db"
    using Cons.prems by (auto simp: pg_write_def with_tenant_tx_def)
  moreover from Cons.prems have "'''' \<notin> set tns" by simp
  from Cons.IH [OF this, of ?db] obtain db' where "write_tenants bt ctx tns ?db = Inr db'"
    "set db' = set ?db \<union> {\<lparr>pg_tenant_id = t', pg_tuple = t\<rparr> | t' t. t' \<in> set tns \<and> t \<in> set (bt t')}"
    by blast
  ultimately show ?case by (auto simp: pg_insert_all_set)
qed simp

lemma pg_row_listed:
  assumes "\<lparr>pg_tenant_id = tenant_from_context ctx, pg_tuple = new_tuple obj r s\<rparr> \<in> set db"
    "tenant_from_context ctx \<noteq> ''''"
  shows "\<exists>subs. pg_list_subjects db ctx obj r = Inr subs \<and> s \<in> set subs"
proof -
  obtain subs where subs: "pg_list_subjects db ctx obj r = Inr subs"
    using pg.list_subjects_returns [OF assms(2)] by blast
  with assms(1) pg.list_subjects_set [OF subs] show ?thesis by (auto simp: pg_lookup_def)
qed

lemma org_role_views:
  assumes "valid_role r" "rd (Org org) r = Inr subs" "user u \<in> set subs"
  shows "has_relation default_schema rd u ''viewer'' (Org org)"
proof -
  have ty: "obj_type (Org org) = ''organization''" by (simp add: Org_def)
  note rel = organization_relations(1-4) [folded ty]
  let ?h = "\<lambda>r. has_relation default_schema rd u r (Org org)"
  have up: "?h ''owner'' \<Longrightarrow> ?h ''admin''" "?h ''admin'' \<Longrightarrow> ?h ''member''" "?h ''member'' \<Longrightarrow> ?h ''viewer''"
    by (rule via_this_or [OF rel(2)] via_this_or [OF rel(3)] via_this_or [OF rel(4)]; simp)+
  have "us_direct \<in> set (rw_union direct)" "us_direct \<in> set (rw_union (this_or cs))" for cs
    by (simp_all add: direct_def this_or_def)
  with rel have "\<exists>rw. schema_relation default_schema (obj_type (Org org)) r = Some rw \<and> us_direct \<in> set (rw_union rw)"
    by (rule_tac valid_role_cases [OF assms(1)]) simp_all
  then have "?h r" using via_direct assms(2,3) by blast
  with up show ?thesis using assms(1) by (elim valid_role_cases) blast+
qed

text \<open>
  the backfill succeeds, and afterwards every member of an organization, whatever the stored
  role and however blank, can view every instance of every workspace of it, under the tenant of
  the organization. The keys of the map are visited in any order and any multiplicity.
\<close>

theorem backfill_reaches_instances:
  assumes "set tenants = fst ` set (backfill_tuples orgs wss wms insts)" "'''' \<notin> set tenants"
    "m \<in> set orgs" "w \<in> set wss" "lr_org w = mr_container m"
    "i \<in> set insts" "lr_parent i = lr_id w" "lr_org i = mr_container m"
  shows "\<exists>db'. snd (backfill_from_cloud_schema ctx orgs wss wms insts tenants db) = Inr db' \<and>
    has_relation default_schema (pg_list_subjects db' (context_with_tenant ctx (mr_container m)))
      (mr_user_id m) ''can_view'' (Instance (lr_id i))"
proof -
  let ?o = "mr_container m" and ?tts = "backfill_tuples orgs wss wms insts"
  let ?ctx = "context_with_tenant ctx ?o"
  let ?role = "backfill_role (mr_role m)"
  from write_tenants_rows [OF assms(2)] obtain db'
    where db': "write_tenants (by_tenant ?tts) ctx tenants db = Inr db'"
      and rows: "set db' = set db \<union> {\<lparr>pg_tenant_id = tn, pg_tuple = t\<rparr> | tn t.
        tn \<in> set tenants \<and> t \<in> set (by_tenant ?tts tn)}" by blast
  let ?rd = "pg_list_subjects db' ?ctx"
  have filed: "\<lparr>pg_tenant_id = ?o, pg_tuple = t\<rparr> \<in> set db'" if "(?o, t) \<in> set ?tts" for t
  proof -
    from that have "t \<in> set (by_tenant ?tts ?o)" "?o \<in> fst ` set ?tts" by (force simp: by_tenant_def)+
    with assms(1) rows show ?thesis by blast
  qed
  have mem: "(?o, org_membership ?o (mr_user_id m) ?role) \<in> set ?tts"
    and ws: "(?o, workspace_parent (lr_id w) ?o) \<in> set ?tts"
    and inst: "(?o, instance_parent (lr_id i) (lr_id w)) \<in> set ?tts"
    unfolding backfill_tuples_def set_append set_map
    using imageI [OF assms(3), of "\<lambda>m. (mr_container m,
        org_membership (mr_container m) (mr_user_id m) (backfill_role (mr_role m)))"] imageI [OF assms(4), of "\<lambda>l. (lr_org l, workspace_parent (lr_id l) (lr_org l))"]
      imageI [OF assms(6), of "\<lambda>l. (lr_org l, instance_parent (lr_id l) (lr_parent l))"] assms(5,7,8)
    by (simp_all only: Un_iff simp_thms)
  have tn: "tenant_from_context ?ctx \<noteq> ''''" using mem assms(1,2) by force
  note listed = pg_row_listed [where ctx = ?ctx and db = db', OF _ tn, unfolded tenant_from_context_with]
  obtain subs where "?rd (Org ?o) ?role = Inr subs" "user (mr_user_id m) \<in> set subs"
    using listed filed [OF mem] unfolding org_membership_def by blast
  then have org: "has_relation default_schema ?rd (mr_user_id m) ''viewer'' (Org ?o)"
    by (rule org_role_views [rotated]) (simp add: backfill_role_def valid_role_iff all_roles_def role_defs)
  obtain ps where ps: "?rd (Workspace (lr_id w)) ''parent'' = Inr ps" "mk_subject (Org ?o) '''' \<in> set ps"
    using listed filed [OF ws] unfolding workspace_parent_def by blast
  have "obj_type (Workspace (lr_id w)) = ''workspace''" "obj_type (Instance (lr_id i)) = ''instance''"
    by (simp_all add: Workspace_def Instance_def)
  note ty = this
  have "has_relation default_schema ?rd (mr_user_id m) ''viewer'' (Workspace (lr_id w))"
    by (rule via_parent [where rd = ?rd, OF rewrite_of(3) [folded ty(1)] ps org])
  moreover obtain qs where qs: "?rd (Instance (lr_id i)) ''parent'' = Inr qs"
    "mk_subject (Workspace (lr_id w)) '''' \<in> set qs"
    using listed filed [OF inst] unfolding instance_parent_def by blast
  ultimately have "has_relation default_schema ?rd (mr_user_id m) ''viewer'' (Instance (lr_id i))"
    by (intro via_parent [where rd = ?rd, OF rewrite_of(2) [folded ty(2)] qs])
  then have "has_relation default_schema ?rd (mr_user_id m) ''can_view'' (Instance (lr_id i))"
    by (intro via_computed [OF rewrite_of(1) [folded ty(2)]]) simp_all
  with db' show ?thesis by (simp add: backfill_from_cloud_schema_def)
qed

theorem backfill_reaches_instances_witness:
  "\<exists>db'. snd (backfill_from_cloud_schema background
      [\<lparr>mr_container = ''acme'', mr_user_id = ''ann'', mr_role = '''', mr_org = ''acme''\<rparr>]
      [\<lparr>lr_id = ''w'', lr_parent = '''', lr_org = ''acme''\<rparr>] []
      [\<lparr>lr_id = ''i'', lr_parent = ''w'', lr_org = ''acme''\<rparr>] [''acme''] []) = Inr db' \<and>
    has_relation default_schema (pg_list_subjects db' (context_with_tenant background ''acme''))
      ''ann'' ''can_view'' (Instance ''i'')"
  using backfill_reaches_instances [of "[''acme'']"
      "[\<lparr>mr_container = ''acme'', mr_user_id = ''ann'', mr_role = '''', mr_org = ''acme''\<rparr>]"
      "[\<lparr>lr_id = ''w'', lr_parent = '''', lr_org = ''acme''\<rparr>]" "[]"
      "[\<lparr>lr_id = ''i'', lr_parent = ''w'', lr_org = ''acme''\<rparr>]"
      "\<lparr>mr_container = ''acme'', mr_user_id = ''ann'', mr_role = '''', mr_org = ''acme''\<rparr>"
      "\<lparr>lr_id = ''w'', lr_parent = '''', lr_org = ''acme''\<rparr>"
      "\<lparr>lr_id = ''i'', lr_parent = ''w'', lr_org = ''acme''\<rparr>" background "[]"]
  by (simp add: backfill_tuples_def)

end
