(* ===== verification/AuthzStoreAgreement.thy ===== *)
theory AuthzStoreAgreement
  imports AuthzGuarantees
begin

text \<open>
  The two tuple stores against each other: run over the same operations they hold the same tuples,
  as long as no tenant is empty or has a NUL and no object's text has a \<open>#\<close>. With a \<open>#\<close> in an object id
  the in-memory store deletes the tuples of another object.
\<close>

fun mem_run :: "store_op list \<Rightarrow> mem_store \<Rightarrow> mem_store" where
  "mem_run [] m = m"
| "mem_run (OpWrite ctx ts # ops) m =
     mem_run ops (case mem_write m ctx ts of Inl _ \<Rightarrow> m | Inr m' \<Rightarrow> m')"
| "mem_run (OpDelete ctx ts # ops) m =
     mem_run ops (case mem_delete m ctx ts of Inl _ \<Rightarrow> m | Inr m' \<Rightarrow> m')"
| "mem_run (OpDeleteObject ctx obj # ops) m =
     mem_run ops (case mem_delete_object m ctx obj of Inl _ \<Rightarrow> m | Inr m' \<Rightarrow> m')"

definition both_good :: "string \<Rightarrow> bool" where
  "both_good tenant \<longleftrightarrow> tenant \<noteq> '''' \<and> mem_good tenant"

fun clean_op :: "store_op \<Rightarrow> bool" where
  "clean_op (OpWrite ctx ts) \<longleftrightarrow> both_good (tenant_from_context ctx) \<and> (\<forall>t \<in> set ts. clean_tuple t)"
| "clean_op (OpDelete ctx ts) \<longleftrightarrow> both_good (tenant_from_context ctx) \<and> (\<forall>t \<in> set ts. clean_tuple t)"
| "clean_op (OpDeleteObject ctx obj) \<longleftrightarrow> both_good (tenant_from_context ctx) \<and> mem_clean obj"

definition stores_agree :: "mem_store \<Rightarrow> pg_store \<Rightarrow> bool" where
  "stores_agree m db \<longleftrightarrow> (\<forall>tenant obj r. both_good tenant \<longrightarrow> mem_clean obj \<longrightarrow>
     mem_lookup m tenant obj r = pg_lookup db tenant obj r)"

lemma mem_never_fails:
  "\<exists>m'. mem_write m ctx ts = Inr m'" "\<exists>m'. mem_delete m ctx ts = Inr m'"
  "\<exists>m'. mem_delete_object m ctx obj = Inr m'"
  by (simp_all add: mem_write_def mem_delete_def mem_delete_object_def Let_def)

lemma pg_never_fails:
  assumes "tenant_from_context ctx \<noteq> ''''"
  shows "\<exists>db'. pg_write db ctx ts = Inr db'" "\<exists>db'. pg_delete db ctx ts = Inr db'"
    "\<exists>db'. pg_delete_object db ctx obj = Inr db'"
  using assms by (simp_all add: pg_write_def pg_delete_def pg_delete_object_def with_tenant_tx_def Let_def)

lemma agree_write:
  assumes "stores_agree m db" "mem_inv m" "clean_op (OpWrite ctx ts)"
    "mem_write m ctx ts = Inr m'" "pg_write db ctx ts = Inr db'"
  shows "stores_agree m' db' \<and> mem_inv m'"
proof -
  have g: "mem_good (tenant_from_context ctx)" "tenant_from_context ctx \<noteq> ''''"
    and ts: "\<forall>t \<in> set ts. clean_tuple t" using assms(3) by (auto simp: both_good_def)
  have "mem_lookup m' tenant obj r = pg_lookup db' tenant obj r"
    if t: "both_good tenant" "mem_clean obj" for tenant obj r
  proof -
    have "mem_lookup m' tenant obj r = mem_lookup m tenant obj r \<union>
        {s. tenant = tenant_from_context ctx \<and> new_tuple obj r s \<in> set ts}"
      using t by (intro mem.write_lookup [OF assms(2) g(1) _ ts _ assms(4)]) (auto simp: both_good_def)
    moreover have "pg_lookup db' tenant obj r = pg_lookup db tenant obj r \<union>
        {s. tenant = tenant_from_context ctx \<and> new_tuple obj r s \<in> set ts}"
      using t by (intro pg.write_lookup [OF TrueI g(2) _ _ TrueI assms(5)]) (auto simp: both_good_def)
    ultimately show ?thesis using assms(1) t by (simp add: stores_agree_def)
  qed
  moreover have "mem_inv m'" using mem.write_inv [OF assms(2) _ assms(4)] ts by blast
  ultimately show ?thesis by (simp add: stores_agree_def)
qed

lemma agree_delete:
  assumes "stores_agree m db" "mem_inv m" "clean_op (OpDelete ctx ts)"
    "mem_delete m ctx ts = Inr m'" "pg_delete db ctx ts = Inr db'"
  shows "stores_agree m' db' \<and> mem_inv m'"
proof -
  have g: "mem_good (tenant_from_context ctx)" "tenant_from_context ctx \<noteq> ''''"
    and ts: "\<forall>t \<in> set ts. clean_tuple t" using assms(3) by (auto simp: both_good_def)
  have "mem_lookup m' tenant obj r = pg_lookup db' tenant obj r"
    if t: "both_good tenant" "mem_clean obj" for tenant obj r
  proof -
    have "mem_lookup m' tenant obj r = mem_lookup m tenant obj r -
        {s. tenant = tenant_from_context ctx \<and> new_tuple obj r s \<in> set ts}"
      using t by (intro mem.delete_lookup [OF assms(2) g(1) _ ts _ assms(4)]) (auto simp: both_good_def)
    moreover have "pg_lookup db' tenant obj r = pg_lookup db tenant obj r -
        {s. tenant = tenant_from_context ctx \<and> new_tuple obj r s \<in> set ts}"
      using t by (intro pg.delete_lookup [OF TrueI g(2) _ _ TrueI assms(5)]) (auto simp: both_good_def)
    ultimately show ?thesis using assms(1) t by (simp add: stores_agree_def)
  qed
  moreover have "mem_inv m'" using mem.delete_inv [OF assms(2,4)] .
  ultimately show ?thesis by (simp add: stores_agree_def)
qed

lemma agree_delete_object:
  assumes "stores_agree m db" "mem_inv m" "clean_op (OpDeleteObject ctx obj)"
    "mem_delete_object m ctx obj = Inr m'" "pg_delete_object db ctx obj = Inr db'"
  shows "stores_agree m' db' \<and> mem_inv m'"
proof -
  have g: "mem_good (tenant_from_context ctx)" "tenant_from_context ctx \<noteq> ''''" "mem_clean obj"
    using assms(3) by (auto simp: both_good_def)
  have "mem_lookup m' tenant obj' r = pg_lookup db' tenant obj' r"
    if t: "both_good tenant" "mem_clean obj'" for tenant obj' r
  proof -
    have "mem_lookup m' tenant obj' r =
        (if tenant = tenant_from_context ctx \<and> obj' = obj then {} else mem_lookup m tenant obj' r)"
      using t by (intro mem.delete_object_lookup [OF assms(2) g(1) _ g(3) _ assms(4)]) (auto simp: both_good_def)
    moreover have "pg_lookup db' tenant obj' r =
        (if tenant = tenant_from_context ctx \<and> obj' = obj then {} else pg_lookup db tenant obj' r)"
      using t by (intro pg.delete_object_lookup [OF TrueI g(2) _ TrueI TrueI assms(5)]) (auto simp: both_good_def)
    ultimately show ?thesis using assms(1) t by (simp add: stores_agree_def)
  qed
  moreover have "mem_inv m'" using mem.delete_object_inv [OF assms(2,4)] .
  ultimately show ?thesis by (simp add: stores_agree_def)
qed

lemma stores_agree_run:
  "stores_agree m db \<Longrightarrow> mem_inv m \<Longrightarrow> \<forall>q \<in> set ops. clean_op q \<Longrightarrow>
     stores_agree (mem_run ops m) (pg_run ops db)"
proof (induction ops arbitrary: m db)
  case (Cons q ops)
  have cq: "clean_op q" and rest: "\<forall>q \<in> set ops. clean_op q" using Cons.prems(3) by auto
  show ?case
  proof (cases q)
    case (OpWrite ctx ts)
    with cq have "tenant_from_context ctx \<noteq> ''''" by (simp add: both_good_def)
    then obtain m' db' where r: "mem_write m ctx ts = Inr m'" "pg_write db ctx ts = Inr db'"
      using mem_never_fails(1) pg_never_fails(1) by blast
    from agree_write [OF Cons.prems(1,2) _ r] cq OpWrite have "stores_agree m' db'" "mem_inv m'" by auto
    from Cons.IH [OF this rest] r OpWrite show ?thesis by simp
  next
    case (OpDelete ctx ts)
    with cq have "tenant_from_context ctx \<noteq> ''''" by (simp add: both_good_def)
    then obtain m' db' where r: "mem_delete m ctx ts = Inr m'" "pg_delete db ctx ts = Inr db'"
      using mem_never_fails(2) pg_never_fails(2) by blast
    from agree_delete [OF Cons.prems(1,2) _ r] cq OpDelete have "stores_agree m' db'" "mem_inv m'" by auto
    from Cons.IH [OF this rest] r OpDelete show ?thesis by simp
  next
    case (OpDeleteObject ctx obj)
    with cq have "tenant_from_context ctx \<noteq> ''''" by (simp add: both_good_def)
    then obtain m' db' where r: "mem_delete_object m ctx obj = Inr m'" "pg_delete_object db ctx obj = Inr db'"
      using mem_never_fails(3) pg_never_fails(3) by blast
    from agree_delete_object [OF Cons.prems(1,2) _ r] cq OpDeleteObject
    have "stores_agree m' db'" "mem_inv m'" by auto
    from Cons.IH [OF this rest] r OpDeleteObject show ?thesis by simp
  qed
qed simp

lemma empty_stores: "stores_agree new_mem_store []" "mem_inv new_mem_store"
  by (simp_all add: stores_agree_def new_mem_store_def mem_lookup_def pg_lookup_def mem_inv_def)

text \<open>
  C8: the in-memory store and the Postgres store are interchangeable. From empty stores, any
  sequence of writes, deletes and object removals under non-empty tenants and over clean objects
  leaves both listing the same subjects for every tenant, object and relation.
\<close>

theorem stores_interchangeable:
  assumes "\<forall>q \<in> set ops. clean_op q" "both_good (tenant_from_context ctx)" "mem_clean obj"
  shows "\<exists>xs ys. mem_list_subjects (mem_run ops new_mem_store) ctx obj r = Inr xs \<and>
    pg_list_subjects (pg_run ops []) ctx obj r = Inr ys \<and> set xs = set ys"
proof -
  have "mem_good (tenant_from_context ctx)" "tenant_from_context ctx \<noteq> ''''"
    using assms(2) by (auto simp: both_good_def)
  then obtain xs ys where *: "mem_list_subjects (mem_run ops new_mem_store) ctx obj r = Inr xs"
    "pg_list_subjects (pg_run ops []) ctx obj r = Inr ys"
    using mem.list_subjects_returns pg.list_subjects_returns by blast
  moreover have "set xs = set ys"
    using mem.list_subjects_set [OF *(1)] pg.list_subjects_set [OF *(2)]
      stores_agree_run [OF empty_stores assms(1)] assms(2,3) by (simp add: stores_agree_def)
  ultimately show ?thesis by blast
qed

definition acme_ctx :: req_context where
  "acme_ctx = context_with_tenant background ''acme''"

theorem stores_interchangeable_witness:
  "\<exists>xs ys. mem_list_subjects (mem_run [OpWrite acme_ctx [resource_grant ''dataset'' ''d1'' ''ann'' ''viewer'']]
      new_mem_store) acme_ctx (Resource ''dataset'' ''d1'') ''viewer'' = Inr xs \<and>
    pg_list_subjects (pg_run [OpWrite acme_ctx [resource_grant ''dataset'' ''d1'' ''ann'' ''viewer'']] [])
      acme_ctx (Resource ''dataset'' ''d1'') ''viewer'' = Inr ys \<and> set xs = set ys"
proof -
  have "both_good (tenant_from_context acme_ctx)" "mem_clean (Resource ''dataset'' ''d1'')"
    "clean_tuple (resource_grant ''dataset'' ''d1'' ''ann'' ''viewer'')"
    by (simp_all add: both_good_def acme_ctx_def mem_good_def mem_clean_def object_string_def builder_defs)
  then show ?thesis by (intro stores_interchangeable) simp_all
qed

text \<open>
  With a \<open>#\<close> in an id: removing \<open>doc:a\<close> from the in-memory store also removes the tuples of the
  object \<open>doc:a#b\<close>; the Postgres store keeps them.
\<close>

definition hash_ops :: "store_op list" where
  "hash_ops = [OpWrite acme_ctx [resource_grant ''doc'' ''a#b'' ''ann'' ''viewer''],
               OpDeleteObject acme_ctx (Resource ''doc'' ''a'')]"

lemma mem_deletes_other_object:
  "mem_list_subjects (mem_run hash_ops new_mem_store) acme_ctx (Resource ''doc'' ''a#b'') ''viewer'' = Inr []"
  "pg_list_subjects (pg_run hash_ops []) acme_ctx (Resource ''doc'' ''a#b'') ''viewer'' = Inr [user ''ann'']"
  by (simp_all add: hash_ops_def acme_ctx_def mem_list_subjects_def mem_write_def mem_write_one_def
      mem_delete_object_def mem_key_def mem_prefix_def has_prefix_def object_string_def new_mem_store_def
      pg_list_subjects_def pg_write_def pg_delete_object_def with_tenant_tx_def builder_defs Let_def)

end
