(* ===== verification/LifecycleRow.thy ===== *)
theory LifecycleRow
  imports Prelude
begin

text \<open>
  The data of the sandbox lifecycle (internal/orchestrator/sandbox: step.go, repository.go): states,
  desired states, rows and the pure maps on states. A lifecycle state is a string in the code;
  here the known values are constructors and every other string is \<open>OtherState\<close>. Times are
  seconds. SQL's NULL is \<open>None\<close>.
\<close>

section \<open>States\<close>

datatype lstate =
    Pending | Creating | Running | Stopping | Sleeping | Reviving | Archiving | Archived
  | Terminating | Terminated | Failed | ErrorState
  | Provisioning | Stopped | OtherState string

datatype desire = DesireRunning | DesireSleeping | DesireArchived | DesireTerminated | OtherDesire string

datatype agent_state =
    AgentCreated | AgentProvisioning | AgentRunning | AgentIdle | AgentSleeping | AgentWaking
  | AgentFailed | AgentTerminated

definition claimable_states :: "lstate list" where
  "claimable_states = [Pending, Creating, Stopping, Reviving, Archiving, Terminating]"

definition is_convergence_state :: "lstate \<Rightarrow> bool" where
  "is_convergence_state s \<longleftrightarrow> s \<in> {Creating, Stopping, Reviving, Archiving, Terminating}"

definition is_terminal :: "lstate \<Rightarrow> bool" where
  "is_terminal s \<longleftrightarrow> s = Failed \<or> s = Terminated \<or> s = ErrorState"

text \<open>\<open>None\<close> is the empty string: leave the agent row alone.\<close>

fun agent_lifecycle_for :: "lstate \<Rightarrow> agent_state option" where
  "agent_lifecycle_for Pending = Some AgentProvisioning"
| "agent_lifecycle_for Creating = Some AgentProvisioning"
| "agent_lifecycle_for Running = Some AgentIdle"
| "agent_lifecycle_for Stopping = Some AgentSleeping"
| "agent_lifecycle_for Sleeping = Some AgentSleeping"
| "agent_lifecycle_for Archiving = Some AgentSleeping"
| "agent_lifecycle_for Archived = Some AgentSleeping"
| "agent_lifecycle_for Reviving = Some AgentWaking"
| "agent_lifecycle_for Terminating = Some AgentTerminated"
| "agent_lifecycle_for Terminated = Some AgentTerminated"
| "agent_lifecycle_for Failed = Some AgentFailed"
| "agent_lifecycle_for ErrorState = Some AgentFailed"
| "agent_lifecycle_for _ = None"

fun state_name :: "lstate \<Rightarrow> string" where
  "state_name Pending = ''pending''"
| "state_name Creating = ''creating''"
| "state_name Running = ''running''"
| "state_name Stopping = ''stopping''"
| "state_name Sleeping = ''sleeping''"
| "state_name Reviving = ''reviving''"
| "state_name Archiving = ''archiving''"
| "state_name Archived = ''archived''"
| "state_name Terminating = ''terminating''"
| "state_name Terminated = ''terminated''"
| "state_name Failed = ''failed''"
| "state_name ErrorState = ''error''"
| "state_name Provisioning = ''provisioning''"
| "state_name Stopped = ''stopped''"
| "state_name (OtherState s) = s"

fun public_state :: "lstate \<Rightarrow> string" where
  "public_state Pending = ''creating''"
| "public_state Creating = ''creating''"
| "public_state Provisioning = ''creating''"
| "public_state Running = ''started''"
| "public_state Stopping = ''stopping''"
| "public_state Sleeping = ''stopped''"
| "public_state Stopped = ''stopped''"
| "public_state Reviving = ''starting''"
| "public_state Archiving = ''archiving''"
| "public_state Archived = ''archived''"
| "public_state Terminating = ''destroying''"
| "public_state Terminated = ''destroyed''"
| "public_state ErrorState = ''error''"
| "public_state Failed = ''error''"
| "public_state (OtherState s) = s"

section \<open>Rows\<close>

type_synonym time = int

text \<open>The reconciler's row, and the columns of the table no row read projects.\<close>

record row =
  row_id :: string
  tenant_id :: string
  session_id :: string
  status :: lstate
  lifecycle_state :: lstate
  desired_state :: desire
  reconcile_after :: time
  reconcile_attempts :: nat
  locked_by :: "string option"
  locked_at :: "time option"
  agent_target :: "string option"
  container_id :: "string option"
  row_error :: "string option"
  backend :: string
  row_name :: string
  image :: string
  agent_id :: "string option"
  persistent :: bool
  config :: string
  labels :: string
  auto_archive_after_days :: int
  auto_delete_after_days :: int
  archived_at :: "time option"
  created_at :: time
  billing_started_at :: "time option"
  billing_ended_at :: "time option"
  updated_at :: time
  short_code :: "string option"
  workspace_snapshot_ref :: "string option"
  workspace_archive_ref :: "string option"
  error_reason :: "string option"
  error_at :: "time option"
  recovery_attempts :: nat
  auto_stop_minutes :: "int option"
  auto_archive_minutes :: "int option"
  auto_delete_minutes :: "int option"

record db_row = row +
  stopped_at :: "time option"
  last_used_at :: "time option"
  keep_warm :: bool
  revivable_until :: "time option"

text \<open>A table keeps its rows under their primary key; a query without ORDER BY lists them in some order.\<close>

type_synonym table = "db_row list"

section \<open>The backend's vocabulary\<close>

record instance_info =
  inst_container_id :: string
  inst_billing_started_at :: "time option"
  inst_agent_target :: string

record inst_config =
  cfg_tenant_id :: string
  cfg_session_id :: string
  cfg_rest :: string

text \<open>
  The interface \<open>Executor\<close>: the side effects of a step, each succeeding or failing with an error
  text. A nil instance is \<open>None\<close>.
\<close>

record executor =
  execute_create :: "string \<Rightarrow> inst_config \<Rightarrow> string + instance_info option"
  execute_stop :: "string \<Rightarrow> string + string"
  execute_revive :: "string \<Rightarrow> string \<Rightarrow> string \<Rightarrow> string + instance_info option"
  execute_archive :: "string \<Rightarrow> string \<Rightarrow> string + string"
  execute_terminate :: "string \<Rightarrow> string option"
  backend_status :: "string \<Rightarrow> string option"

definition nullable :: "string \<Rightarrow> string option" where
  "nullable s = (if s = '''' then None else Some s)"

text \<open>\<open>sql.NullString.String\<close> is the empty string when NULL.\<close>

definition null_string :: "string option \<Rightarrow> string" where
  "null_string v = (case v of None \<Rightarrow> '''' | Some s \<Rightarrow> s)"

definition contains_any :: "string \<Rightarrow> string list \<Rightarrow> bool" where
  "contains_any s needles \<longleftrightarrow> (\<exists>n \<in> set needles. go_contains s n)"

definition is_not_found_err :: "string \<Rightarrow> bool" where
  "is_not_found_err msg \<longleftrightarrow> contains_any msg [''not found'', ''NotFound'', ''code = NotFound'']"

lemma null_string_nullable [simp]: "null_string (nullable s) = s"
  by (simp add: null_string_def nullable_def)

lemma null_string_simps [simp]: "null_string None = ''''" "null_string (Some s) = s"
  by (simp_all add: null_string_def)

lemma convergence_claimable:
  "is_convergence_state s \<Longrightarrow> s \<in> set claimable_states"
  "s \<in> set claimable_states \<Longrightarrow> \<not> is_terminal s"
  by (auto simp: is_convergence_state_def claimable_states_def is_terminal_def)

end
