(* ===== verification/LifecycleStep.thy ===== *)
theory LifecycleStep
  imports LifecycleRow
begin

text \<open>
  The lifecycle state machine (internal/orchestrator/sandbox/step.go): one definition per state of
  \<open>Step\<close>, dispatched by the row's lifecycle state. A step gives the next row and maybe an error;
  \<open>now\<close> is the clock of the call, \<open>parse\<close> the JSON decoder of the saved configuration.
\<close>

type_synonym step_result = "row \<times> string option"

abbreviation minutes :: "int \<Rightarrow> time" where "minutes n \<equiv> 60 * n"
abbreviation days :: "int \<Rightarrow> time" where "days n \<equiv> 86400 * n"

definition park_until :: "time \<Rightarrow> time \<Rightarrow> time" where
  "park_until now d = now + d"

definition park_row :: "time \<Rightarrow> row \<Rightarrow> time \<Rightarrow> row" where
  "park_row now rw d = rw\<lparr>reconcile_after := park_until now d\<rparr>"

definition unmarshal_config :: "(string \<Rightarrow> string + inst_config) \<Rightarrow> string \<Rightarrow> string + inst_config" where
  "unmarshal_config parse raw =
     (if raw = '''' then Inr \<lparr>cfg_tenant_id = '''', cfg_session_id = '''', cfg_rest = ''''\<rparr> else parse raw)"

definition move :: "time \<Rightarrow> row \<Rightarrow> lstate \<Rightarrow> row" where
  "move now rw s = rw\<lparr>lifecycle_state := s, status := s, reconcile_after := now\<rparr>"

text \<open>The fields a created or revived instance fills in.\<close>

definition with_instance :: "row \<Rightarrow> instance_info option \<Rightarrow> row" where
  "with_instance rw inst =
     (case inst of
        None \<Rightarrow> rw
      | Some i \<Rightarrow>
          let rw1 = rw\<lparr>container_id := nullable (inst_container_id i)\<rparr>;
              rw2 = (case inst_billing_started_at i of
                       None \<Rightarrow> rw1
                     | Some t \<Rightarrow> rw1\<lparr>billing_started_at := Some t\<rparr>)
          in if inst_agent_target i \<noteq> '''' then rw2\<lparr>agent_target := nullable (inst_agent_target i)\<rparr> else rw2)"

definition step_pending :: "time \<Rightarrow> row \<Rightarrow> step_result" where
  "step_pending now rw = (move now rw Creating, None)"

definition step_creating ::
  "executor \<Rightarrow> (string \<Rightarrow> string + inst_config) \<Rightarrow> time \<Rightarrow> row \<Rightarrow> step_result" where
  "step_creating ex parse now rw =
     (case unmarshal_config parse (config rw) of
        Inl e \<Rightarrow> (rw, Some (''creating: parse config: '' @ e))
      | Inr cfg0 \<Rightarrow>
          let cfg1 = (if cfg_tenant_id cfg0 = '''' then cfg0\<lparr>cfg_tenant_id := tenant_id rw\<rparr> else cfg0);
              cfg = (if cfg_session_id cfg1 = '''' then cfg1\<lparr>cfg_session_id := session_id rw\<rparr> else cfg1)
          in (case execute_create ex (row_id rw) cfg of
                Inl e \<Rightarrow> (rw, Some (''creating: ExecuteCreate: '' @ e))
              | Inr inst \<Rightarrow>
                  ((with_instance (rw\<lparr>lifecycle_state := Running, status := Running\<rparr>) inst)
                     \<lparr>reconcile_after := park_until now (days 1)\<rparr>, None)))"

definition step_running :: "time \<Rightarrow> row \<Rightarrow> step_result" where
  "step_running now rw =
     (case desired_state rw of
        DesireSleeping \<Rightarrow> (move now rw Stopping, None)
      | DesireTerminated \<Rightarrow> (move now rw Terminating, None)
      | _ \<Rightarrow> (park_row now rw (days 1), None))"

definition step_stopping :: "executor \<Rightarrow> time \<Rightarrow> row \<Rightarrow> step_result" where
  "step_stopping ex now rw =
     (case execute_stop ex (row_id rw) of
        Inl e \<Rightarrow> (rw, Some (''stopping: ExecuteStop: '' @ e))
      | Inr snapshot_ref \<Rightarrow>
          (rw\<lparr>lifecycle_state := Sleeping, status := Stopped, container_id := None,
              workspace_snapshot_ref := nullable snapshot_ref,
              reconcile_after := park_until now (days 1)\<rparr>, None))"

definition step_sleeping :: "time \<Rightarrow> row \<Rightarrow> step_result" where
  "step_sleeping now rw =
     (case desired_state rw of
        DesireRunning \<Rightarrow> (move now rw Reviving, None)
      | DesireArchived \<Rightarrow> (move now rw Archiving, None)
      | DesireTerminated \<Rightarrow> (move now rw Terminating, None)
      | _ \<Rightarrow> (park_row now rw (days 1), None))"

definition step_archiving :: "executor \<Rightarrow> time \<Rightarrow> row \<Rightarrow> step_result" where
  "step_archiving ex now rw =
     (case execute_archive ex (row_id rw) (null_string (workspace_snapshot_ref rw)) of
        Inl e \<Rightarrow> (rw, Some (''archiving: ExecuteArchive: '' @ e))
      | Inr archive_ref \<Rightarrow>
          let next = rw\<lparr>lifecycle_state := Archived, status := Archived\<rparr>;
              next' = (if archive_ref \<noteq> ''''
                       then next\<lparr>workspace_archive_ref := nullable archive_ref, workspace_snapshot_ref := None\<rparr>
                       else next)
          in (next'\<lparr>reconcile_after := park_until now (days 30)\<rparr>, None))"

definition step_archived :: "time \<Rightarrow> row \<Rightarrow> step_result" where
  "step_archived now rw =
     (case desired_state rw of
        DesireRunning \<Rightarrow> (move now rw Reviving, None)
      | DesireTerminated \<Rightarrow> (move now rw Terminating, None)
      | _ \<Rightarrow> (park_row now rw (days 30), None))"

definition step_reviving :: "executor \<Rightarrow> time \<Rightarrow> row \<Rightarrow> step_result" where
  "step_reviving ex now rw =
     (case execute_revive ex (row_id rw) (null_string (workspace_snapshot_ref rw))
             (null_string (workspace_archive_ref rw)) of
        Inl e \<Rightarrow> (rw, Some (''reviving: ExecuteRevive: '' @ e))
      | Inr inst \<Rightarrow>
          ((with_instance (rw\<lparr>lifecycle_state := Running, status := Running\<rparr>) inst)
             \<lparr>workspace_snapshot_ref := None, workspace_archive_ref := None,
              reconcile_after := park_until now (days 1)\<rparr>, None))"

definition step_terminating :: "executor \<Rightarrow> time \<Rightarrow> row \<Rightarrow> step_result" where
  "step_terminating ex now rw =
     (let done = (rw\<lparr>lifecycle_state := Terminated, status := Terminated, container_id := None,
                     reconcile_after := park_until now (days 365)\<rparr>, None)
      in case execute_terminate ex (row_id rw) of
           Some e \<Rightarrow>
             if \<not> is_not_found_err e then (rw, Some (''terminating: ExecuteTerminate: '' @ e)) else done
         | None \<Rightarrow> done)"

definition Step ::
  "executor \<Rightarrow> (string \<Rightarrow> string + inst_config) \<Rightarrow> time \<Rightarrow> row \<Rightarrow> step_result" where
  "Step ex parse now rw =
     (case lifecycle_state rw of
        Pending \<Rightarrow> step_pending now rw
      | Creating \<Rightarrow> step_creating ex parse now rw
      | Running \<Rightarrow> step_running now rw
      | Stopping \<Rightarrow> step_stopping ex now rw
      | Sleeping \<Rightarrow> step_sleeping now rw
      | Archiving \<Rightarrow> step_archiving ex now rw
      | Archived \<Rightarrow> step_archived now rw
      | Reviving \<Rightarrow> step_reviving ex now rw
      | Terminating \<Rightarrow> step_terminating ex now rw
      | ErrorState \<Rightarrow> (park_row now rw (days 365), None)
      | Failed \<Rightarrow> (park_row now rw (days 365), None)
      | Terminated \<Rightarrow> (park_row now rw (days 365), None)
      | s \<Rightarrow> (rw, Some (''step: unknown lifecycle state '' @ state_name s)))"

lemmas step_defs =
  step_pending_def step_creating_def step_running_def step_stopping_def step_sleeping_def
  step_archiving_def step_archived_def step_reviving_def step_terminating_def

section \<open>Facts\<close>

lemma with_instance_simps [simp]:
  "row_id (with_instance rw i) = row_id rw" "tenant_id (with_instance rw i) = tenant_id rw"
  "lifecycle_state (with_instance rw i) = lifecycle_state rw" "status (with_instance rw i) = status rw"
  "desired_state (with_instance rw i) = desired_state rw"
  "reconcile_after (with_instance rw i) = reconcile_after rw"
  "workspace_snapshot_ref (with_instance rw i) = workspace_snapshot_ref rw"
  "workspace_archive_ref (with_instance rw i) = workspace_archive_ref rw"
  "reconcile_attempts (with_instance rw i) = reconcile_attempts rw"
  "agent_id (with_instance rw i) = agent_id rw"
  by (simp_all add: with_instance_def Let_def split: option.splits)

text \<open>The edges of the state machine: what one step without an error can do to the state.\<close>

inductive step_edge :: "desire \<Rightarrow> lstate \<Rightarrow> lstate \<Rightarrow> bool" where
  "step_edge d Pending Creating"
| "step_edge d Creating Running"
| "step_edge DesireSleeping Running Stopping"
| "step_edge DesireTerminated Running Terminating"
| "step_edge d Stopping Sleeping"
| "step_edge DesireRunning Sleeping Reviving"
| "step_edge DesireArchived Sleeping Archiving"
| "step_edge DesireTerminated Sleeping Terminating"
| "step_edge d Archiving Archived"
| "step_edge DesireRunning Archived Reviving"
| "step_edge DesireTerminated Archived Terminating"
| "step_edge d Reviving Running"
| "step_edge d Terminating Terminated"
| "s \<in> {Running, Sleeping, Archived, ErrorState, Failed, Terminated} \<Longrightarrow> step_edge d s s"

lemma Step_edge:
  assumes "Step ex parse now rw = (next, None)"
  shows "step_edge (desired_state rw) (lifecycle_state rw) (lifecycle_state next)"
  using assms
  by (cases "lifecycle_state rw"; cases "desired_state rw")
     (auto simp: Step_def step_defs move_def park_row_def Let_def intro: step_edge.intros
       split: sum.splits option.splits if_splits)

lemma Step_error:
  assumes "Step ex parse now rw = (next, Some e)"
  shows "next = rw"
  using assms
  by (cases "lifecycle_state rw")
     (auto simp: Step_def step_defs Let_def split: sum.splits option.splits if_splits desire.splits)

text \<open>
  C9: a step that fails returns its input row unchanged, and only the convergence states (and
  values that are no state of the machine) can fail; a step that succeeds keeps the identity,
  tenant and desired state of the row and moves it along an edge of the machine.
\<close>

theorem step_contract:
  "case Step ex parse now rw of (next, err) \<Rightarrow>
     (case err of
        Some e \<Rightarrow> next = rw \<and> (is_convergence_state (lifecycle_state rw) \<or>
          lifecycle_state rw \<in> {Provisioning, Stopped} \<union> range OtherState)
      | None \<Rightarrow> row_id next = row_id rw \<and> tenant_id next = tenant_id rw \<and>
          desired_state next = desired_state rw \<and>
          step_edge (desired_state rw) (lifecycle_state rw) (lifecycle_state next))"
proof (cases "Step ex parse now rw")
  case (Pair nx err)
  show ?thesis
  proof (cases err)
    case None
    have "row_id nx = row_id rw \<and> tenant_id nx = tenant_id rw \<and> desired_state nx = desired_state rw"
      using Pair None
      by (cases "lifecycle_state rw"; cases "desired_state rw")
         (auto simp: Step_def step_defs move_def park_row_def Let_def
           split: sum.splits option.splits if_splits)
    with Pair None Step_edge show ?thesis by simp
  next
    case (Some e)
    have "is_convergence_state (lifecycle_state rw) \<or>
        lifecycle_state rw \<in> {Provisioning, Stopped} \<union> range OtherState"
      using Pair Some
      by (cases "lifecycle_state rw"; cases "desired_state rw")
         (auto simp: Step_def step_defs is_convergence_state_def)
    with Pair Some Step_error show ?thesis by simp
  qed
qed

end
