(* ===== verification/LifecycleRepo.thy ===== *)
theory LifecycleRepo
  imports LifecycleStep
begin

text \<open>
  The only file that touches SQL (internal/orchestrator/sandbox/repository.go), as functions on the
  table: one per statement or transaction, \<open>now\<close> being the database's NOW(). A statement that
  changes no row is told from one that does by its count. The database does not fail here, and a
  transaction is atomic.
\<close>

datatype repo_error =
    ErrNotFound | ErrTerminalRow row | ErrNotLeader | ErrLeaseLost
  | ErrConcurrentLimit nat int | ErrNoSlots | ErrShortCodeTaken | ErrNoUniqueShortCode

section \<open>Tables\<close>

definition row_of :: "db_row \<Rightarrow> row" where
  "row_of r = row.truncate r"

text \<open>\<open>UPDATE ... SET f WHERE p\<close>, with the number of rows affected.\<close>

definition update_where :: "(db_row \<Rightarrow> bool) \<Rightarrow> (db_row \<Rightarrow> db_row) \<Rightarrow> table \<Rightarrow> table \<times> nat" where
  "update_where p f tbl = (map (\<lambda>r. if p r then f r else r) tbl, length (filter p tbl))"

text \<open>Update, or the error when no row is affected.\<close>

definition update_or ::
  "repo_error \<Rightarrow> (db_row \<Rightarrow> bool) \<Rightarrow> (db_row \<Rightarrow> db_row) \<Rightarrow> table \<Rightarrow> repo_error + table" where
  "update_or e p f tbl =
     (let (tbl', n) = update_where p f tbl in if n = 0 then Inl e else Inr tbl')"

definition find_row :: "string \<Rightarrow> table \<Rightarrow> db_row option" where
  "find_row i tbl = List.find (\<lambda>r. row_id r = i) tbl"

definition get_by_id :: "string \<Rightarrow> table \<Rightarrow> repo_error + row" where
  "get_by_id i tbl = (case find_row i tbl of None \<Rightarrow> Inl ErrNotFound | Some r \<Rightarrow> Inr (row_of r))"

definition get_by_short_code :: "string \<Rightarrow> table \<Rightarrow> repo_error + row" where
  "get_by_short_code code tbl =
     (if code = '''' then Inl ErrNotFound
      else (case List.find (\<lambda>r. short_code r = Some code) tbl of
              None \<Rightarrow> Inl ErrNotFound
            | Some r \<Rightarrow> Inr (row_of r)))"

section \<open>Short codes\<close>

definition short_code_alphabet :: string where
  "short_code_alphabet = ''abcdefghijkmnopqrstuvwxyzABCDEFGHJKLMNPQRSTUVWXYZ23456789''"

definition short_code_length :: nat where
  "short_code_length = 8"

definition generate_short_code :: "8 word list \<Rightarrow> string" where
  "generate_short_code buf =
     map (\<lambda>b. short_code_alphabet ! (unat b mod length short_code_alphabet)) buf"

section \<open>Inserting\<close>

definition pending_db_row :: "time \<Rightarrow> row \<Rightarrow> db_row" where
  "pending_db_row now rw =
     \<lparr>row_id = row_id rw, tenant_id = tenant_id rw, session_id = session_id rw, status = status rw,
      lifecycle_state = lifecycle_state rw, desired_state = desired_state rw, reconcile_after = now,
      reconcile_attempts = 0, locked_by = None, locked_at = None, agent_target = None,
      container_id = None, row_error = None, backend = backend rw, row_name = row_name rw,
      image = image rw, agent_id = None, persistent = persistent rw, config = config rw,
      labels = labels rw, auto_archive_after_days = auto_archive_after_days rw,
      auto_delete_after_days = auto_delete_after_days rw, archived_at = None, created_at = now,
      billing_started_at = None, billing_ended_at = None, updated_at = now,
      short_code = short_code rw, workspace_snapshot_ref = None, workspace_archive_ref = None,
      error_reason = None, error_at = None, recovery_attempts = 0,
      auto_stop_minutes = auto_stop_minutes rw, auto_archive_minutes = auto_archive_minutes rw,
      auto_delete_minutes = auto_delete_minutes rw,
      stopped_at = None, last_used_at = None, keep_warm = False, revivable_until = None\<rparr>"

text \<open>
  \<open>insertPendingQuery\<close>: a row with the id makes it return no row; a taken short code violates the
  unique index.
\<close>

datatype insert_outcome = Inserted table | NoRows | ShortCodeCollision

definition insert_pending_query :: "time \<Rightarrow> row \<Rightarrow> table \<Rightarrow> insert_outcome" where
  "insert_pending_query now rw tbl =
     (if find_row (row_id rw) tbl \<noteq> None then NoRows
      else if short_code rw \<noteq> None \<and> (\<exists>r \<in> set tbl. short_code r = short_code rw) then ShortCodeCollision
      else Inserted (tbl @ [pending_db_row now rw]))"

text \<open>\<open>gen k\<close> is the k-th short code the generator gives in this call.\<close>

definition with_defaults :: "(nat \<Rightarrow> string) \<Rightarrow> row \<Rightarrow> row" where
  "with_defaults gen rw =
     (let rw1 = (if short_code rw = None \<or> short_code rw = Some '''' then rw\<lparr>short_code := Some (gen 0)\<rparr> else rw)
      in if labels rw1 = '''' then rw1\<lparr>labels := ''{}''\<rparr> else rw1)"

fun insert_attempts :: "nat \<Rightarrow> (nat \<Rightarrow> string) \<Rightarrow> nat \<Rightarrow> time \<Rightarrow> row \<Rightarrow> table \<Rightarrow> insert_outcome" where
  "insert_attempts 0 gen k now rw tbl = ShortCodeCollision"
| "insert_attempts (Suc n) gen k now rw tbl =
     (case insert_pending_query now rw tbl of
        ShortCodeCollision \<Rightarrow> insert_attempts n gen (Suc k) now (rw\<lparr>short_code := Some (gen k)\<rparr>) tbl
      | out \<Rightarrow> out)"

definition insert_pending :: "(nat \<Rightarrow> string) \<Rightarrow> time \<Rightarrow> row \<Rightarrow> table \<Rightarrow> repo_error + row \<times> table" where
  "insert_pending gen now rw0 tbl =
     (let rw = with_defaults gen rw0
      in case insert_attempts 5 gen 1 now rw tbl of
           ShortCodeCollision \<Rightarrow> Inl ErrShortCodeTaken
         | Inserted tbl' \<Rightarrow> bind_result (get_by_id (row_id rw) tbl') (\<lambda>existing. Inr (existing, tbl'))
         | NoRows \<Rightarrow>
             bind_result (get_by_id (row_id rw) tbl) (\<lambda>existing.
               if is_terminal (lifecycle_state existing) then Inl (ErrTerminalRow existing)
               else Inr (existing, tbl)))"

definition holds_slot :: "db_row \<Rightarrow> bool" where
  "holds_slot r \<longleftrightarrow>
     lifecycle_state r \<in> {Pending, Creating, Provisioning, Running, Stopping, Reviving, Terminating} \<or>
     (billing_started_at r \<noteq> None \<and> billing_ended_at r = None)"

definition used_slots :: "string \<Rightarrow> table \<Rightarrow> nat" where
  "used_slots tenant tbl = length (filter (\<lambda>r. tenant_id r = tenant \<and> holds_slot r) tbl)"

definition unlimited_sandbox_limit :: int where
  "unlimited_sandbox_limit = -1"

text \<open>
  One round of the loop is one transaction under the tenant's advisory lock: read the id, count,
  insert. A collision starts the next round with a new code.
\<close>

fun insert_with_limit_attempts ::
  "nat \<Rightarrow> (nat \<Rightarrow> string) \<Rightarrow> nat \<Rightarrow> time \<Rightarrow> row \<Rightarrow> int \<Rightarrow> table \<Rightarrow> repo_error + row \<times> table" where
  "insert_with_limit_attempts 0 gen k now rw limit tbl = Inl ErrNoUniqueShortCode"
| "insert_with_limit_attempts (Suc n) gen k now rw limit tbl =
     (case find_row (row_id rw) tbl of
        Some existing \<Rightarrow>
          if is_terminal (lifecycle_state existing) then Inl (ErrTerminalRow (row_of existing))
          else Inr (row_of existing, tbl)
      | None \<Rightarrow>
          let used = used_slots (tenant_id rw) tbl in
          if limit \<le> int used then Inl (ErrConcurrentLimit used limit)
          else
            (case insert_pending_query now rw tbl of
               ShortCodeCollision \<Rightarrow>
                 insert_with_limit_attempts n gen (Suc k) now (rw\<lparr>short_code := Some (gen k)\<rparr>) limit tbl
             | Inserted tbl' \<Rightarrow> bind_result (get_by_id (row_id rw) tbl') (\<lambda>r. Inr (r, tbl'))
             | NoRows \<Rightarrow> Inl ErrNotFound))"

definition insert_pending_with_limit ::
  "(nat \<Rightarrow> string) \<Rightarrow> time \<Rightarrow> row \<Rightarrow> int \<Rightarrow> table \<Rightarrow> repo_error + row \<times> table" where
  "insert_pending_with_limit gen now rw limit tbl =
     (if limit = unlimited_sandbox_limit then insert_pending gen now rw tbl
      else if limit \<le> 0 then Inl ErrNoSlots
      else insert_with_limit_attempts 5 gen 1 now (with_defaults gen rw) limit tbl)"

text \<open>Filling in missing codes: at most five tries per row, oldest rows first, 5000 at most.\<close>

fun backfill_one :: "nat \<Rightarrow> (nat \<Rightarrow> string) \<Rightarrow> nat \<Rightarrow> string \<Rightarrow> table \<Rightarrow> bool \<times> nat \<times> table" where
  "backfill_one 0 gen k i tbl = (False, k, tbl)"
| "backfill_one (Suc n) gen k i tbl =
     (if (\<exists>r \<in> set tbl. row_id r = i \<and> short_code r = None) \<and> (\<exists>r \<in> set tbl. short_code r = Some (gen k))
      then backfill_one n gen (Suc k) i tbl
      else (True, Suc k,
        fst (update_where (\<lambda>r. row_id r = i \<and> short_code r = None) (\<lambda>r. r\<lparr>short_code := Some (gen k)\<rparr>) tbl)))"

fun backfill_codes :: "(nat \<Rightarrow> string) \<Rightarrow> nat \<Rightarrow> string list \<Rightarrow> table \<Rightarrow> nat \<times> table" where
  "backfill_codes gen k [] tbl = (0, tbl)"
| "backfill_codes gen k (i # ids) tbl =
     (let (filled, k', tbl') = backfill_one 5 gen k i tbl;
          (n, tbl'') = backfill_codes gen k' ids tbl'
      in (if filled then Suc n else n, tbl''))"

definition backfill_short_codes :: "(nat \<Rightarrow> string) \<Rightarrow> table \<Rightarrow> nat \<times> table" where
  "backfill_short_codes gen tbl =
     backfill_codes gen 0
       (map row_id (take 5000 (sort_key created_at (filter (\<lambda>r. short_code r = None) tbl)))) tbl"

section \<open>Leases\<close>

definition due :: "time \<Rightarrow> time \<Rightarrow> db_row \<Rightarrow> bool" where
  "due now lease_timeout r \<longleftrightarrow>
     reconcile_after r \<le> now \<and> lifecycle_state r \<in> set claimable_states \<and>
     (case locked_at r of None \<Rightarrow> True | Some t \<Rightarrow> t < now - lease_timeout)"

text \<open>\<open>locked\<close> is whether the claim's advisory lock was free. The rows returned are as selected, before the stamp.\<close>

definition claim_due ::
  "bool \<Rightarrow> time \<Rightarrow> string \<Rightarrow> nat \<Rightarrow> time \<Rightarrow> table \<Rightarrow> repo_error + row list \<times> table" where
  "claim_due locked now leader limit lease_timeout tbl =
     (if \<not> locked then Inl ErrNotLeader
      else
        let rows = take limit (sort_key reconcile_after (filter (due now lease_timeout) tbl))
        in if rows = [] then Inr ([], tbl)
           else Inr (map row_of rows,
             fst (update_where (\<lambda>r. row_id r \<in> set (map row_id rows))
                    (\<lambda>r. r\<lparr>locked_by := Some leader, locked_at := Some now\<rparr>) tbl)))"

definition release_lease :: "string \<Rightarrow> string \<Rightarrow> table \<Rightarrow> table" where
  "release_lease i leader tbl =
     fst (update_where (\<lambda>r. row_id r = i \<and> locked_by r = Some leader)
            (\<lambda>r. r\<lparr>locked_by := None, locked_at := None\<rparr>) tbl)"

definition lease_guard :: "string \<Rightarrow> string \<Rightarrow> db_row \<Rightarrow> bool" where
  "lease_guard leader i r \<longleftrightarrow> row_id r = i \<and> (leader = '''' \<or> locked_by r = Some leader)"

text \<open>The SET clause of \<open>ApplyTransition\<close>; the CASE expressions read the old row \<open>r\<close>.\<close>

definition transition_row :: "time \<Rightarrow> row \<Rightarrow> db_row \<Rightarrow> db_row" where
  "transition_row now nxt r =
     r\<lparr>lifecycle_state := lifecycle_state nxt,
       status := status nxt,
       desired_state := desired_state nxt,
       container_id := container_id nxt,
       agent_target := agent_target nxt,
       row_error := row_error nxt,
       reconcile_after := reconcile_after nxt,
       workspace_snapshot_ref := workspace_snapshot_ref nxt,
       workspace_archive_ref := workspace_archive_ref nxt,
       reconcile_attempts := 0,
       recovery_attempts := 0,
       locked_by := None,
       locked_at := None,
       error_reason := None,
       error_at := None,
       stopped_at :=
         (if lifecycle_state nxt = Sleeping then Some now
          else if lifecycle_state nxt = Running then None else stopped_at r),
       archived_at :=
         (if lifecycle_state nxt = Archived then Some now
          else if lifecycle_state nxt = Running then None else archived_at r),
       billing_started_at :=
         (if lifecycle_state nxt = Running \<and> lifecycle_state r \<noteq> Running
          then (case billing_started_at nxt of Some t \<Rightarrow> Some t | None \<Rightarrow> Some now)
          else if lifecycle_state nxt \<in> {Sleeping, Archived, Terminated} then None
          else billing_started_at r),
       billing_ended_at :=
         (if lifecycle_state nxt = Running \<and> lifecycle_state r \<noteq> Running then None
          else if lifecycle_state nxt \<in> {Sleeping, Archived, Terminated} then None
          else billing_ended_at r),
       last_used_at := (if lifecycle_state nxt = Running then Some now else last_used_at r),
       updated_at := now\<rparr>"

type_synonym agents = "string \<Rightarrow> agent_state option"

definition apply_agent_lifecycle :: "agents \<Rightarrow> string \<Rightarrow> lstate \<Rightarrow> agents" where
  "apply_agent_lifecycle ag i s =
     (case agent_lifecycle_for s of
        None \<Rightarrow> ag
      | Some d \<Rightarrow>
          (case ag i of
             None \<Rightarrow> ag
           | Some cur \<Rightarrow>
               if cur \<noteq> d \<and> \<not> (cur = AgentRunning \<and> d = AgentIdle) then ag(i \<mapsto> d) else ag))"

definition apply_transition ::
  "time \<Rightarrow> string \<Rightarrow> row \<Rightarrow> table \<times> agents \<Rightarrow> repo_error + table \<times> agents" where
  "apply_transition now leader nxt st =
     (case update_or ErrLeaseLost (lease_guard leader (row_id nxt)) (transition_row now nxt) (fst st) of
        Inl e \<Rightarrow> Inl e
      | Inr tbl' \<Rightarrow>
          Inr (tbl',
            (case agent_id nxt of
               None \<Rightarrow> snd st
             | Some a \<Rightarrow> if a = '''' then snd st else apply_agent_lifecycle (snd st) a (lifecycle_state nxt))))"

section \<open>Failures and recovery\<close>

text \<open>The loop of \<open>nextBackoffAt\<close>: \<open>i\<close> counts from 1 to below \<open>attempts\<close>.\<close>

function backoff_loop :: "nat \<Rightarrow> nat \<Rightarrow> int \<Rightarrow> int" where
  "backoff_loop i attempts secs =
     (if i < attempts
      then (if 15 \<le> secs * 2 then 15 else backoff_loop (Suc i) attempts (secs * 2))
      else secs)"
  by pat_completeness auto
termination
  by (relation "measure (\<lambda>(i, attempts, secs). attempts - i)") auto

declare backoff_loop.simps [simp del]

definition next_backoff_at :: "time \<Rightarrow> nat \<Rightarrow> time" where
  "next_backoff_at now attempts = now + backoff_loop 1 attempts 1"

definition failure_row :: "time \<Rightarrow> row \<Rightarrow> string \<Rightarrow> nat \<Rightarrow> db_row \<Rightarrow> db_row" where
  "failure_row now rw cause max_attempts r =
     (let attempt = reconcile_attempts rw + 1;
          terminal = (max_attempts \<le> attempt)
      in r\<lparr>reconcile_attempts := attempt,
           reconcile_after := next_backoff_at now attempt,
           lifecycle_state := (if terminal then ErrorState else lifecycle_state rw),
           status := (if terminal then ErrorState else status rw),
           row_error := Some cause,
           error_reason := (if terminal then Some cause else error_reason r),
           error_at := (if terminal then Some now else error_at r),
           locked_by := None,
           locked_at := None,
           updated_at := now\<rparr>)"

definition record_failure ::
  "time \<Rightarrow> string \<Rightarrow> row \<Rightarrow> string \<Rightarrow> nat \<Rightarrow> table \<Rightarrow> repo_error + table" where
  "record_failure now leader rw cause max_attempts tbl =
     update_or ErrLeaseLost (lease_guard leader (row_id rw)) (failure_row now rw cause max_attempts) tbl"

definition recover_state :: "desire \<Rightarrow> lstate" where
  "recover_state d =
     (case d of DesireRunning \<Rightarrow> Reviving | DesireSleeping \<Rightarrow> Stopping | DesireArchived \<Rightarrow> Archiving
      | _ \<Rightarrow> Terminating)"

definition recover_row :: "time \<Rightarrow> db_row \<Rightarrow> db_row" where
  "recover_row now r =
     r\<lparr>lifecycle_state := recover_state (desired_state r),
       status := recover_state (desired_state r),
       reconcile_attempts := 0, reconcile_after := now, locked_by := None, locked_at := None,
       row_error := None, error_reason := None, error_at := None, updated_at := now\<rparr>"

definition recover :: "time \<Rightarrow> string \<Rightarrow> table \<Rightarrow> repo_error + table" where
  "recover now i tbl =
     update_or ErrNotFound (\<lambda>r. row_id r = i \<and> lifecycle_state r \<in> {ErrorState, Failed}) (recover_row now) tbl"

definition auto_recover_row :: "time \<Rightarrow> db_row \<Rightarrow> db_row" where
  "auto_recover_row now r =
     r\<lparr>lifecycle_state := recover_state (desired_state r),
       status := recover_state (desired_state r),
       recovery_attempts := recovery_attempts r + 1,
       reconcile_attempts := 0, reconcile_after := now, locked_by := None, locked_at := None,
       row_error := None, error_reason := None, error_at := None, updated_at := now\<rparr>"

definition auto_recover :: "time \<Rightarrow> string \<Rightarrow> table \<Rightarrow> repo_error + table" where
  "auto_recover now i tbl =
     update_or ErrNotFound (\<lambda>r. row_id r = i \<and> lifecycle_state r \<in> {ErrorState, Failed})
       (auto_recover_row now) tbl"

definition coalesce :: "'a option \<Rightarrow> 'a option \<Rightarrow> 'a option" where
  "coalesce a b = (case a of None \<Rightarrow> b | Some _ \<Rightarrow> a)"

definition update_auto_intervals ::
  "time \<Rightarrow> string \<Rightarrow> int option \<Rightarrow> int option \<Rightarrow> int option \<Rightarrow> table \<Rightarrow> repo_error + table" where
  "update_auto_intervals now i stop archive del tbl =
     update_or ErrNotFound (\<lambda>r. row_id r = i)
       (\<lambda>r. r\<lparr>auto_stop_minutes := coalesce stop (auto_stop_minutes r),
              auto_archive_minutes := coalesce archive (auto_archive_minutes r),
              auto_delete_minutes := coalesce del (auto_delete_minutes r), updated_at := now\<rparr>) tbl"

definition mark_error :: "time \<Rightarrow> string \<Rightarrow> string \<Rightarrow> table \<Rightarrow> repo_error + table" where
  "mark_error now i reason tbl =
     update_or ErrNotFound (\<lambda>r. row_id r = i \<and> lifecycle_state r = Running)
       (\<lambda>r. r\<lparr>lifecycle_state := ErrorState, status := ErrorState, row_error := Some reason,
              error_reason := Some reason, error_at := Some now, locked_by := None, locked_at := None,
              updated_at := now\<rparr>) tbl"

section \<open>Desired states\<close>

text \<open>The CASE of \<open>setDesiredStateQuery\<close>, for both columns it computes.\<close>

definition desired_case :: "desire \<Rightarrow> lstate \<Rightarrow> lstate \<Rightarrow> lstate" where
  "desired_case d cur otherwise =
     (if d = DesireSleeping \<and> cur = Running then Stopping
      else if d = DesireArchived \<and> cur \<in> {Sleeping, Stopped} then Archiving
      else if d = DesireRunning \<and> cur \<in> {Sleeping, Stopped, Archived} then Reviving
      else if d = DesireTerminated \<and> cur \<in> {Running, Sleeping, Stopped, Archived, ErrorState, Failed}
           then Terminating
      else otherwise)"

definition desired_row :: "time \<Rightarrow> desire \<Rightarrow> db_row \<Rightarrow> db_row" where
  "desired_row now d r =
     r\<lparr>desired_state := d,
       lifecycle_state := desired_case d (lifecycle_state r) (lifecycle_state r),
       status := desired_case d (lifecycle_state r) (status r),
       reconcile_after := now, updated_at := now\<rparr>"

definition set_desired_state :: "time \<Rightarrow> string \<Rightarrow> desire \<Rightarrow> table \<Rightarrow> repo_error + table" where
  "set_desired_state now i d tbl = update_or ErrNotFound (\<lambda>r. row_id r = i) (desired_row now d) tbl"

definition set_desired_state_with_limit ::
  "time \<Rightarrow> string \<Rightarrow> desire \<Rightarrow> int \<Rightarrow> table \<Rightarrow> repo_error + table" where
  "set_desired_state_with_limit now i d limit tbl =
     (if d \<noteq> DesireRunning \<or> limit = unlimited_sandbox_limit then set_desired_state now i d tbl
      else if limit \<le> 0 then Inl ErrNoSlots
      else
        (case find_row i tbl of
           None \<Rightarrow> Inl ErrNotFound
         | Some r \<Rightarrow>
             let needs_new_slot = (lifecycle_state r \<in> {Sleeping, Stopped, Archived});
                 used = length (filter (\<lambda>q. tenant_id q = tenant_id r \<and> row_id q \<noteq> i \<and> holds_slot q) tbl)
             in if needs_new_slot \<and> limit \<le> int used then Inl (ErrConcurrentLimit used limit)
                else set_desired_state now i d tbl))"

section \<open>Reading\<close>

text \<open>\<open>contains\<close> is jsonb containment, the filter already encoded.\<close>

definition list_by_tenant_filtered ::
  "(string \<Rightarrow> string \<Rightarrow> bool) \<Rightarrow> string \<Rightarrow> int \<Rightarrow> nat \<Rightarrow> string option \<Rightarrow> table \<Rightarrow> row list \<times> nat" where
  "list_by_tenant_filtered contains tenant limit offset label_filter tbl =
     (let limit1 = (if limit \<le> 0 then 100 else limit);
          limit2 = (if 500 < limit1 then 500 else limit1);
          matching = filter (\<lambda>r. tenant_id r = tenant \<and>
            (case label_filter of None \<Rightarrow> True | Some f \<Rightarrow> contains (labels r) f)) tbl
      in (map row_of (take (nat limit2) (drop offset (sort_key (\<lambda>r. - created_at r) matching))), length matching))"

definition list_by_tenant :: "string \<Rightarrow> int \<Rightarrow> nat \<Rightarrow> table \<Rightarrow> row list \<times> nat" where
  "list_by_tenant tenant limit offset tbl =
     list_by_tenant_filtered (\<lambda>_ _. True) tenant limit offset None tbl"

end
