(* ===== verification/LifecycleLoops.thy ===== *)
theory LifecycleLoops
  imports LifecycleRepo
begin

text \<open>
  The loops over the table, one definition per tick: the reconciler (reconciler.go), the idle,
  recovery and archive checkers (idle.go, recovery.go, archive.go) and the health sweeper
  (health_sweeper.go). \<open>locked\<close> is whether the tick's advisory lock was free. Claimed rows are
  processed by concurrent workers: a tick only claims, and each row is a later call of
  \<open>process_row\<close>, in any order. Logging and the metrics hook are left out.
\<close>

section \<open>The reconciler\<close>

record reconciler =
  rc_batch_size :: int
  rc_workers :: int
  rc_lease_timeout :: time
  rc_max_attempts :: nat
  rc_leader_id :: string

definition new_reconciler :: "string \<Rightarrow> reconciler" where
  "new_reconciler leader =
     \<lparr>rc_batch_size = 20, rc_workers = 4, rc_lease_timeout = minutes 2, rc_max_attempts = 6,
      rc_leader_id = leader\<rparr>"

definition reconciler_tick ::
  "reconciler \<Rightarrow> bool \<Rightarrow> time \<Rightarrow> int \<Rightarrow> table \<Rightarrow> row list \<times> table" where
  "reconciler_tick rc locked now inflight tbl =
     (let workers = (if rc_workers rc \<le> 0 then 1 else rc_workers rc);
          free = workers - inflight
      in if free \<le> 0 then ([], tbl)
         else
           let limit = (if free < rc_batch_size rc then free else rc_batch_size rc)
           in case claim_due locked now (rc_leader_id rc) (nat limit) (rc_lease_timeout rc) tbl of
                Inl _ \<Rightarrow> ([], tbl)
              | Inr claimed \<Rightarrow> claimed)"

definition process_row ::
  "reconciler \<Rightarrow> executor \<Rightarrow> (string \<Rightarrow> string + inst_config) \<Rightarrow> time \<Rightarrow> row
     \<Rightarrow> table \<times> agents \<Rightarrow> table \<times> agents" where
  "process_row rc ex parse now rw st =
     (case Step ex parse now rw of
        (_, Some err) \<Rightarrow>
          if is_convergence_state (lifecycle_state rw)
          then (case record_failure now (rc_leader_id rc) rw err (rc_max_attempts rc) (fst st) of
                  Inl _ \<Rightarrow> st
                | Inr tbl' \<Rightarrow> (tbl', snd st))
          else (case apply_transition now (rc_leader_id rc) (park_row now rw 30) st of
                  Inl _ \<Rightarrow> st
                | Inr st' \<Rightarrow> st')
      | (nxt, None) \<Rightarrow>
          (case apply_transition now (rc_leader_id rc) nxt st of
             Inl _ \<Rightarrow> st
           | Inr st' \<Rightarrow> st'))"

section \<open>The checkers\<close>

text \<open>Each writes a desired state on the rows its query finds; a write that fails is logged and skipped.\<close>

definition set_all :: "time \<Rightarrow> desire \<Rightarrow> string list \<Rightarrow> table \<Rightarrow> table" where
  "set_all now d ids tbl =
     fold (\<lambda>i t. case set_desired_state now i d t of Inl _ \<Rightarrow> t | Inr t' \<Rightarrow> t') ids tbl"

definition idle_candidate :: "time \<Rightarrow> int \<Rightarrow> db_row \<Rightarrow> bool" where
  "idle_candidate now default_minutes r \<longleftrightarrow>
     lifecycle_state r = Running \<and> desired_state r = DesireRunning \<and>
     \<not> persistent r \<and> \<not> keep_warm r \<and>
     (case last_used_at r of
        None \<Rightarrow> False
      | Some used \<Rightarrow>
          let mins = (case auto_stop_minutes r of None \<Rightarrow> default_minutes | Some m \<Rightarrow> m)
          in 0 < mins \<and> used < now - minutes mins)"

definition idle_tick :: "bool \<Rightarrow> time \<Rightarrow> int \<Rightarrow> string list \<Rightarrow> table \<Rightarrow> table" where
  "idle_tick locked now default_minutes special tbl =
     (if \<not> locked then tbl
      else set_all now DesireSleeping special
        (set_all now DesireSleeping
           (map row_id (take 100 (filter (idle_candidate now default_minutes) tbl))) tbl))"

definition set_idle_window :: "time \<Rightarrow> int" where
  "set_idle_window d = (let mins = d div 60 in if mins < 1 then 1 else mins)"

record recovery_checker =
  rv_max_attempts :: nat
  rv_base_backoff :: time
  rv_max_backoff :: time
  rv_batch_limit :: nat

definition new_recovery_checker :: recovery_checker where
  "new_recovery_checker =
     \<lparr>rv_max_attempts = 5, rv_base_backoff = 15, rv_max_backoff = minutes 5, rv_batch_limit = 50\<rparr>"

definition recovery_backoff :: "recovery_checker \<Rightarrow> nat \<Rightarrow> time" where
  "recovery_backoff rv attempts = min (rv_max_backoff rv) (rv_base_backoff rv * 2 ^ attempts)"

definition recovery_eligible :: "recovery_checker \<Rightarrow> time \<Rightarrow> db_row \<Rightarrow> bool" where
  "recovery_eligible rv now r \<longleftrightarrow>
     lifecycle_state r = ErrorState \<and> recovery_attempts r < rv_max_attempts rv \<and>
     (case error_at r of
        None \<Rightarrow> True
      | Some t \<Rightarrow> t < now - recovery_backoff rv (recovery_attempts r))"

text \<open>Rows without an error time first, then by error time.\<close>

definition recovery_batch :: "recovery_checker \<Rightarrow> time \<Rightarrow> table \<Rightarrow> db_row list" where
  "recovery_batch rv now tbl =
     (let elig = filter (recovery_eligible rv now) tbl
      in take (rv_batch_limit rv)
           (filter (\<lambda>r. error_at r = None) elig @
            sort_key (\<lambda>r. case error_at r of None \<Rightarrow> 0 | Some t \<Rightarrow> t) (filter (\<lambda>r. error_at r \<noteq> None) elig)))"

definition recovery_tick :: "recovery_checker \<Rightarrow> bool \<Rightarrow> time \<Rightarrow> table \<Rightarrow> table" where
  "recovery_tick rv locked now tbl =
     (if \<not> locked then tbl
      else fold (\<lambda>i t. case auto_recover now i t of Inl _ \<Rightarrow> t | Inr t' \<Rightarrow> t')
             (map row_id (recovery_batch rv now tbl)) tbl)"

definition archive_minutes :: "db_row \<Rightarrow> int" where
  "archive_minutes r =
     (case auto_archive_minutes r of Some m \<Rightarrow> m | None \<Rightarrow> auto_archive_after_days r * 1440)"

definition archive_candidate :: "time \<Rightarrow> db_row \<Rightarrow> bool" where
  "archive_candidate now r \<longleftrightarrow>
     lifecycle_state r = Sleeping \<and> desired_state r = DesireSleeping \<and> \<not> persistent r \<and>
     0 < archive_minutes r \<and>
     (case stopped_at r of None \<Rightarrow> False | Some t \<Rightarrow> t < now - minutes (archive_minutes r))"

definition tick_archive :: "time \<Rightarrow> table \<Rightarrow> table" where
  "tick_archive now tbl =
     set_all now DesireArchived (map row_id (take 100 (filter (archive_candidate now) tbl))) tbl"

definition delete_minutes :: "db_row \<Rightarrow> int" where
  "delete_minutes r =
     (case auto_delete_minutes r of Some m \<Rightarrow> m | None \<Rightarrow> auto_delete_after_days r * 1440)"

definition older_than :: "time option \<Rightarrow> time \<Rightarrow> bool" where
  "older_than t limit = (case t of None \<Rightarrow> False | Some x \<Rightarrow> x < limit)"

definition delete_candidate :: "time \<Rightarrow> db_row \<Rightarrow> bool" where
  "delete_candidate now r \<longleftrightarrow>
     lifecycle_state r \<in> {Sleeping, Archived, ErrorState} \<and>
     desired_state r \<in> {DesireSleeping, DesireArchived, DesireRunning} \<and> \<not> persistent r \<and>
     ((0 \<le> delete_minutes r \<and>
        ((lifecycle_state r = Sleeping \<and> older_than (stopped_at r) (now - minutes (delete_minutes r))) \<or>
         (lifecycle_state r = Archived \<and> older_than (archived_at r) (now - minutes (delete_minutes r))) \<or>
         (lifecycle_state r = ErrorState \<and>
            older_than (error_at r) (now - minutes (max (delete_minutes r) 1440))))) \<or>
      (lifecycle_state r = Sleeping \<and> older_than (revivable_until r) now))"

definition tick_delete :: "time \<Rightarrow> table \<Rightarrow> table" where
  "tick_delete now tbl =
     set_all now DesireTerminated (map row_id (take 100 (filter (delete_candidate now) tbl))) tbl"

section \<open>The health sweeper\<close>

record sweeper =
  sw_confirm_after :: time
  sw_batch_limit :: nat
  sw_suspects :: "string \<Rightarrow> time option"

definition new_health_sweeper :: sweeper where
  "new_health_sweeper = \<lparr>sw_confirm_after = 20, sw_batch_limit = 200, sw_suspects = Map.empty\<rparr>"

text \<open>One probed row; \<open>closer\<close> is the optional hook that closes the billing window.\<close>

definition sweep_row ::
  "executor \<Rightarrow> (string \<Rightarrow> string option) option \<Rightarrow> time \<Rightarrow> string \<Rightarrow> sweeper \<times> table \<Rightarrow> sweeper \<times> table" where
  "sweep_row ex closer now i = (\<lambda>(sw, tbl).
     let missing = (case backend_status ex i of None \<Rightarrow> False | Some e \<Rightarrow> is_not_found_err e)
     in if \<not> missing then (sw\<lparr>sw_suspects := (sw_suspects sw)(i := None)\<rparr>, tbl)
        else
          (case sw_suspects sw i of
             None \<Rightarrow> (sw\<lparr>sw_suspects := (sw_suspects sw)(i \<mapsto> now)\<rparr>, tbl)
           | Some first_seen \<Rightarrow>
               if now - first_seen < sw_confirm_after sw then (sw, tbl)
               else
                 let sw' = sw\<lparr>sw_suspects := (sw_suspects sw)(i := None)\<rparr>
                 in case (case closer of None \<Rightarrow> None | Some f \<Rightarrow> f i) of
                      Some _ \<Rightarrow> (sw', tbl)
                    | None \<Rightarrow>
                        (case mark_error now i ''vm_not_found'' tbl of
                           Inl _ \<Rightarrow> (sw', tbl)
                         | Inr tbl' \<Rightarrow> (sw', tbl'))))"

definition sweep_ids :: "nat \<Rightarrow> table \<Rightarrow> string list" where
  "sweep_ids limit tbl =
     map row_id (take limit (sort_key updated_at
       (filter (\<lambda>r. lifecycle_state r = Running \<and> desired_state r = DesireRunning) tbl)))"

definition sweeper_tick ::
  "executor \<Rightarrow> (string \<Rightarrow> string option) option \<Rightarrow> bool \<Rightarrow> time \<Rightarrow> sweeper \<times> table \<Rightarrow> sweeper \<times> table" where
  "sweeper_tick ex closer locked now st =
     (if \<not> locked then st
      else
        let ids = sweep_ids (sw_batch_limit (fst st)) (snd st);
            (sw, tbl) = fold (sweep_row ex closer now) ids st
        in (sw\<lparr>sw_suspects := (\<lambda>i. if i \<in> set ids then sw_suspects sw i else None)\<rparr>, tbl))"

end
