(* ===== verification/LifecycleProcess.thy ===== *)
theory LifecycleProcess
  imports LifecycleLoops
begin

text \<open>
  One row at a time: what processing a claimed row can do to the table, who may hold a row, and the
  retry schedule.
\<close>

section \<open>Updates\<close>

lemma update_or_Inl: "update_or e p f tbl = Inl e' \<longleftrightarrow> e' = e \<and> (\<forall>r \<in> set tbl. \<not> p r)"
  by (auto simp: update_or_def update_where_def filter_empty_conv)

lemma update_or_Inr: "update_or e p f tbl = Inr tbl' \<longleftrightarrow>
    (\<exists>r \<in> set tbl. p r) \<and> tbl' = map (\<lambda>r. if p r then f r else r) tbl"
  by (auto simp: update_or_def update_where_def filter_empty_conv)

lemmas update_rules = update_or_Inl update_or_Inr

lemma row_of_simps [simp]:
  "row_id (row_of r) = row_id r" "lifecycle_state (row_of r) = lifecycle_state r"
  "tenant_id (row_of r) = tenant_id r" "desired_state (row_of r) = desired_state r"
  "status (row_of r) = status r" "reconcile_attempts (row_of r) = reconcile_attempts r"
  "agent_id (row_of r) = agent_id r" "config (row_of r) = config r"
  "workspace_snapshot_ref (row_of r) = workspace_snapshot_ref r"
  "workspace_archive_ref (row_of r) = workspace_archive_ref r"
  "billing_started_at (row_of r) = billing_started_at r"
  by (simp_all add: row_of_def row.truncate_def)

lemma transition_row_simps [simp]:
  "row_id (transition_row now nxt r) = row_id r" "tenant_id (transition_row now nxt r) = tenant_id r"
  "lifecycle_state (transition_row now nxt r) = lifecycle_state nxt"
  "desired_state (transition_row now nxt r) = desired_state nxt"
  "locked_by (transition_row now nxt r) = None" "locked_at (transition_row now nxt r) = None"
  "reconcile_after (transition_row now nxt r) = reconcile_after nxt"
  by (simp_all add: transition_row_def)

lemma failure_row_simps [simp]:
  "row_id (failure_row now rw c m r) = row_id r" "tenant_id (failure_row now rw c m r) = tenant_id r"
  "desired_state (failure_row now rw c m r) = desired_state r"
  "locked_by (failure_row now rw c m r) = None"  "locked_at (failure_row now rw c m r) = None"
  "lifecycle_state (failure_row now rw c m r) =
     (if m \<le> reconcile_attempts rw + 1 then ErrorState else lifecycle_state rw)"
  "reconcile_attempts (failure_row now rw c m r) = reconcile_attempts rw + 1"
  "reconcile_after (failure_row now rw c m r) = next_backoff_at now (reconcile_attempts rw + 1)"
  by (simp_all add: failure_row_def Let_def)

lemma park_row_simps [simp]:
  "row_id (park_row now rw d) = row_id rw" "lifecycle_state (park_row now rw d) = lifecycle_state rw"
  "desired_state (park_row now rw d) = desired_state rw" "tenant_id (park_row now rw d) = tenant_id rw"
  by (simp_all add: park_row_def)

section \<open>What processing a row does\<close>

text \<open>The three outcomes on the table: the lease is gone, a transition or parking, or a recorded failure.\<close>

lemma process_row_table:
  "fst (process_row rc ex parse now rw st) =
     (case Step ex parse now rw of
        (nxt, None) \<Rightarrow> map (\<lambda>r. if lease_guard (rc_leader_id rc) (row_id rw) r
                            then transition_row now nxt r else r) (fst st)
      | (_, Some err) \<Rightarrow>
          if is_convergence_state (lifecycle_state rw)
          then map (\<lambda>r. if lease_guard (rc_leader_id rc) (row_id rw) r
                        then failure_row now rw err (rc_max_attempts rc) r else r) (fst st)
          else map (\<lambda>r. if lease_guard (rc_leader_id rc) (row_id rw) r
                        then transition_row now (park_row now rw 30) r else r) (fst st))"
proof -
  let ?g = "lease_guard (rc_leader_id rc)"
  have none: "map (\<lambda>r. if ?g i r then f r else r) tbl = tbl" if "\<forall>r \<in> set tbl. \<not> ?g i r" for i f tbl
    using that by (intro map_idI) auto
  obtain nxt err where st: "Step ex parse now rw = (nxt, err)" by force
  have id: "row_id nxt = row_id rw" if "err = None"
    using step_contract [of rw ex parse now] st that by simp
  show ?thesis
    using id
    by (cases err)
       (auto simp: process_row_def st apply_transition_def record_failure_def none update_rules
         split: sum.splits)
qed

text \<open>
  Running, sleeping and archived rows never enter the failure path. Processing a claimed row
  whose state is no convergence state moves no row of the table into the error state, whatever
  the backend answers.
\<close>

theorem quiescent_rows_never_fail:
  assumes "\<not> is_convergence_state (lifecycle_state rw)" "lifecycle_state rw \<noteq> ErrorState"
    "r' \<in> set (fst (process_row rc ex parse now rw st))" "lifecycle_state r' = ErrorState"
  shows "r' \<in> set (fst st)"
proof -
  obtain nxt err where s: "Step ex parse now rw = (nxt, err)" by force
  have "lifecycle_state nxt \<noteq> ErrorState" if "err = None"
    using step_contract [of rw ex parse now] s that assms(1,2)
    by (auto elim: step_edge.cases simp: is_convergence_state_def)
  with assms s show ?thesis
    by (cases err) (auto simp: process_row_table split: if_splits)
qed

text \<open>
  C10: write-backs are guarded by the lease. A worker leaves alone every row but the one it
  claimed, and that one too once the lease is held by someone else or by no one.
\<close>

theorem lease_protects_rows:
  assumes "rc_leader_id rc \<noteq> ''''" "r \<in> set (fst st)"
    "row_id r \<noteq> row_id rw \<or> locked_by r \<noteq> Some (rc_leader_id rc)"
  shows "r \<in> set (fst (process_row rc ex parse now rw st))"
proof -
  have "\<not> lease_guard (rc_leader_id rc) (row_id rw) r" using assms by (auto simp: lease_guard_def)
  then have *: "r \<in> set (map (\<lambda>r. if lease_guard (rc_leader_id rc) (row_id rw) r then f r else r) (fst st))" for f
    using assms(2) by (force simp: image_iff)
  obtain nxt err where "Step ex parse now rw = (nxt, err)" by force
  then show ?thesis
    unfolding process_row_table using * by (cases err) (simp_all del: set_map)
qed

section \<open>Claims\<close>

lemma claim_due_rows:
  assumes "claim_due locked now leader limit lease tbl = Inr (rows, tbl')"
  shows "\<forall>rw \<in> set rows. \<exists>r \<in> set tbl. rw = row_of r \<and> due now lease r" "length rows \<le> limit"
    "tbl' = map (\<lambda>r. if row_id r \<in> row_id ` set rows
        then r\<lparr>locked_by := Some leader, locked_at := Some now\<rparr> else r) tbl"
proof -
  let ?sel = "take limit (sort_key reconcile_after (filter (due now lease) tbl))"
  have sel: "set ?sel \<subseteq> {r \<in> set tbl. due now lease r}"
    by (metis set_take_subset set_sort set_filter)
  have rows: "rows = map row_of ?sel"
    using assms by (auto simp: claim_due_def Let_def split: if_splits)
  with sel show "\<forall>rw \<in> set rows. \<exists>r \<in> set tbl. rw = row_of r \<and> due now lease r" by auto
  show "length rows \<le> limit" by (simp add: rows)
  have "row_id ` set rows = set (map row_id ?sel)" by (simp add: rows image_image)
  with assms show "tbl' = map (\<lambda>r. if row_id r \<in> row_id ` set rows
      then r\<lparr>locked_by := Some leader, locked_at := Some now\<rparr> else r) tbl"
    by (auto simp: claim_due_def Let_def update_where_def split: if_splits intro!: map_idI [symmetric])
qed

text \<open>
  a lease is exclusive. Rows claimed at some time are not claimed again, by anyone, before the
  lease runs out, if nothing but other claims happens in between; and a claim never returns more
  rows than asked for, nor one that is terminal.
\<close>

theorem claims_exclusive:
  assumes "claim_due locked t leader limit lease tbl = Inr (rows, tbl')"
    "claim_due locked' t' leader' limit' lease tbl' = Inr (rows', tbl'')"
    "t' \<le> t + lease"
  shows "row_id ` set rows \<inter> row_id ` set rows' = {} \<and> length rows \<le> limit \<and>
    (\<forall>rw \<in> set rows. lifecycle_state rw \<in> set claimable_states \<and> \<not> is_terminal (lifecycle_state rw))"
proof (intro conjI)
  show "row_id ` set rows \<inter> row_id ` set rows' = {}"
  proof (rule ccontr)
    assume "row_id ` set rows \<inter> row_id ` set rows' \<noteq> {}"
    then obtain i where "i \<in> row_id ` set rows" "i \<in> row_id ` set rows'" by blast
    then obtain rw where rw: "rw \<in> set rows'" "row_id rw \<in> row_id ` set rows" by (elim imageE) simp
    from claim_due_rows(1) [OF assms(2)] rw(1) obtain r
      where r: "r \<in> set tbl'" "rw = row_of r" "due t' lease r" by blast
    from r(1,2) rw(2) claim_due_rows(3) [OF assms(1)] have "locked_at r = Some t" by auto
    with r(3) assms(3) show False by (simp add: due_def)
  qed
  show "length rows \<le> limit" by (rule claim_due_rows(2) [OF assms(1)])
  show "\<forall>rw \<in> set rows. lifecycle_state rw \<in> set claimable_states \<and> \<not> is_terminal (lifecycle_state rw)"
    using claim_due_rows(1) [OF assms(1)] convergence_claimable(2) by (fastforce simp: due_def)
qed

section \<open>The retry schedule\<close>

lemma backoff_loop_closed:
  "1 \<le> i \<Longrightarrow> secs = 2 ^ (i - 1) \<Longrightarrow> secs < 15 \<Longrightarrow> i \<le> attempts \<Longrightarrow>
     backoff_loop i attempts secs = min 15 (2 ^ (attempts - 1))"
proof (induction i attempts secs rule: backoff_loop.induct)
  case (1 i attempts secs)
  show ?case
  proof (cases "i < attempts")
    case False
    with "1.prems" have "i = attempts" by simp
    with "1.prems" show ?thesis by (subst backoff_loop.simps) simp
  next
    case True
    have twice: "secs * 2 = 2 ^ (Suc i - 1)"
      using "1.prems"(1,2) by (cases i) simp_all
    show ?thesis
    proof (cases "15 \<le> secs * 2")
      case stop: True
      have "(2::int) ^ (Suc i - 1) \<le> 2 ^ (attempts - 1)"
        using True by (intro power_increasing) auto
      with stop twice have "15 \<le> (2::int) ^ (attempts - 1)" by linarith
      with True stop show ?thesis by (subst backoff_loop.simps) simp
    next
      case False
      with "1.IH" [OF True False] twice True show ?thesis by (subst backoff_loop.simps) simp
    qed
  qed
qed

text \<open>
  The retry delay after the n-th failure is exactly min(15 s, 2^(n-1) s): it doubles from one
  second, is capped at 15 seconds and never shrinks.
\<close>

theorem backoff_exact:
  "next_backoff_at now (Suc n) = now + min 15 (2 ^ n) \<and>
   next_backoff_at now (Suc n) \<le> next_backoff_at now (Suc (Suc n)) \<and>
   now + 1 \<le> next_backoff_at now (Suc n) \<and> next_backoff_at now (Suc n) \<le> now + 15"
proof -
  have closed: "next_backoff_at now (Suc k) = now + min 15 (2 ^ k)" for k
    using backoff_loop_closed [of 1 1 "Suc k"] by (simp add: next_backoff_at_def)
  have "(1::int) \<le> 2 ^ n" by simp
  moreover have "min 15 (2 ^ n) \<le> (min 15 (2 ^ Suc n) :: int)" by (simp add: min_le_iff_disj)
  ultimately show ?thesis by (simp only: closed) linarith
qed

section \<open>Instances\<close>

definition demo_row :: "lstate \<Rightarrow> desire \<Rightarrow> db_row" where
  "demo_row s d =
     \<lparr>row_id = ''sb'', tenant_id = ''t'', session_id = ''s'', status = s, lifecycle_state = s,
      desired_state = d, reconcile_after = 0, reconcile_attempts = 0, locked_by = None,
      locked_at = None, agent_target = None, container_id = None, row_error = None, backend = '''',
      row_name = '''', image = '''', agent_id = None, persistent = False, config = '''', labels = ''{}'',
      auto_archive_after_days = 7, auto_delete_after_days = -1, archived_at = None, created_at = 0,
      billing_started_at = None, billing_ended_at = None, updated_at = 0, short_code = None,
      workspace_snapshot_ref = None, workspace_archive_ref = None, error_reason = None,
      error_at = None, recovery_attempts = 0, auto_stop_minutes = None, auto_archive_minutes = None,
      auto_delete_minutes = None, stopped_at = None, last_used_at = None, keep_warm = False,
      revivable_until = None\<rparr>"

lemma demo_row_simps [simp]:
  "row_id (demo_row s d) = ''sb''" "tenant_id (demo_row s d) = ''t''" "lifecycle_state (demo_row s d) = s"
  "desired_state (demo_row s d) = d" "reconcile_after (demo_row s d) = 0"
  "reconcile_attempts (demo_row s d) = 0" "locked_by (demo_row s d) = None" "locked_at (demo_row s d) = None"
  "agent_id (demo_row s d) = None" "config (demo_row s d) = ''''"
  "billing_started_at (demo_row s d) = None" "billing_ended_at (demo_row s d) = None"
  "recovery_attempts (demo_row s d) = 0" "error_at (demo_row s d) = None"
  "workspace_snapshot_ref (demo_row s d) = None" "workspace_archive_ref (demo_row s d) = None"
  "short_code (demo_row s d) = None"
  by (simp_all add: demo_row_def)

text \<open>A backend on which everything succeeds, and one on which everything fails.\<close>

definition healthy_backend :: executor where
  "healthy_backend =
     \<lparr>execute_create = (\<lambda>_ _. Inr None), execute_stop = (\<lambda>_. Inr ''snap''),
      execute_revive = (\<lambda>_ _ _. Inr None), execute_archive = (\<lambda>_ _. Inr ''arch''),
      execute_terminate = (\<lambda>_. None), backend_status = (\<lambda>_. None)\<rparr>"

definition broken_backend :: executor where
  "broken_backend =
     \<lparr>execute_create = (\<lambda>_ _. Inl ''boom''), execute_stop = (\<lambda>_. Inl ''boom''),
      execute_revive = (\<lambda>_ _ _. Inl ''boom''), execute_archive = (\<lambda>_ _. Inl ''boom''),
      execute_terminate = (\<lambda>_. Some ''boom''), backend_status = (\<lambda>_. Some ''VM not found'')\<rparr>"

definition no_config :: "string \<Rightarrow> string + inst_config" where
  "no_config _ = Inl ''invalid character''"

theorem quiescent_rows_never_fail_witness:
  "\<exists>r'. fst (process_row (new_reconciler ''A'') broken_backend no_config 0
      (row_of (demo_row Running DesireSleeping)) ([demo_row ErrorState DesireRunning], Map.empty)) = [r'] \<and>
    lifecycle_state r' = ErrorState \<and> r' = demo_row ErrorState DesireRunning"
proof -
  obtain r' where r': "fst (process_row (new_reconciler ''A'') broken_backend no_config 0
      (row_of (demo_row Running DesireSleeping)) ([demo_row ErrorState DesireRunning], Map.empty)) = [r']"
    and e: "lifecycle_state r' = ErrorState"
    by (simp add: process_row_table Step_def step_running_def lease_guard_def new_reconciler_def)
  have "\<not> is_convergence_state (lifecycle_state (row_of (demo_row Running DesireSleeping)))"
    "lifecycle_state (row_of (demo_row Running DesireSleeping)) \<noteq> ErrorState"
    by (simp_all add: is_convergence_state_def)
  from quiescent_rows_never_fail [OF this, of r' "new_reconciler ''A''" broken_backend no_config 0
      "([demo_row ErrorState DesireRunning], Map.empty)"] r' e
  have "r' = demo_row ErrorState DesireRunning" by simp
  with r' e show ?thesis by blast
qed

theorem lease_protects_rows_witness:
  "demo_row Running DesireRunning \<in> set (fst (process_row (new_reconciler ''A'') broken_backend no_config 0
     (row_of (demo_row Creating DesireRunning)) ([demo_row Running DesireRunning], Map.empty)))"
  by (rule lease_protects_rows) (simp_all add: new_reconciler_def)

theorem claims_exclusive_witness:
  "\<exists>rows tbl' rows' tbl''.
     claim_due True 5 ''A'' 4 120 [demo_row Creating DesireRunning] = Inr (rows, tbl') \<and> length rows = 1 \<and>
     claim_due True 60 ''B'' 4 120 tbl' = Inr (rows', tbl'') \<and> row_id ` set rows \<inter> row_id ` set rows' = {}"
proof -
  have d: "due 5 120 (demo_row Creating DesireRunning)" by (simp add: due_def claimable_states_def)
  then obtain rows tbl' where a: "claim_due True 5 ''A'' 4 120 [demo_row Creating DesireRunning] = Inr (rows, tbl')"
    "length rows = 1" by (simp add: claim_due_def)
  obtain rows' tbl'' where b: "claim_due True 60 ''B'' 4 120 tbl' = Inr (rows', tbl'')"
    by (cases "claim_due True 60 ''B'' 4 120 tbl'") (auto simp: claim_due_def Let_def split: if_splits)
  from claims_exclusive [OF a(1) b] a b show ?thesis by auto
qed

end
