(* ===== verification/LifecycleConvergence.thy ===== *)
theory LifecycleConvergence
  imports LifecycleProcess
begin

text \<open>
  Liveness of the lifecycle: where a sandbox ends up after its desired state is written, with a
  backend on which every operation succeeds, and after how many failures it is given up with one
  on which none does. A round is one reconciler tick whose claimed rows are all processed.
\<close>

definition reconcile_round ::
  "reconciler \<Rightarrow> executor \<Rightarrow> (string \<Rightarrow> string + inst_config) \<Rightarrow> time \<Rightarrow> table \<times> agents \<Rightarrow> table \<times> agents" where
  "reconcile_round rc ex parse now st =
     (let (rows, tbl) = reconciler_tick rc True now 0 (fst st)
      in fold (process_row rc ex parse now) rows (tbl, snd st))"

definition rounds ::
  "reconciler \<Rightarrow> executor \<Rightarrow> (string \<Rightarrow> string + inst_config) \<Rightarrow> time list \<Rightarrow> table \<times> agents \<Rightarrow> table \<times> agents" where
  "rounds rc ex parse ts st = fold (reconcile_round rc ex parse) ts st"

section \<open>One round on one row\<close>

definition leased :: "string \<Rightarrow> time \<Rightarrow> db_row \<Rightarrow> db_row" where
  "leased leader now r = r\<lparr>locked_by := Some leader, locked_at := Some now\<rparr>"

lemma leased_simps [simp]:
  "row_id (leased l t r) = row_id r" "locked_by (leased l t r) = Some l"
  "lifecycle_state (leased l t r) = lifecycle_state r" "desired_state (leased l t r) = desired_state r"
  by (simp_all add: leased_def)

lemma round_due:
  assumes "due now (minutes 2) r"
  shows "reconcile_round (new_reconciler L) ex parse now ([r], ag) =
    process_row (new_reconciler L) ex parse now (row_of r) ([leased L now r], ag)"
  using assms
  by (simp add: reconcile_round_def reconciler_tick_def new_reconciler_def claim_due_def
      update_where_def leased_def)

lemma round_not_due:
  assumes "\<not> due now (minutes 2) r"
  shows "reconcile_round (new_reconciler L) ex parse now ([r], ag) = ([r], ag)"
  using assms by (simp add: reconcile_round_def reconciler_tick_def new_reconciler_def claim_due_def)

section \<open>A healthy backend\<close>

definition healthy :: "executor \<Rightarrow> bool" where
  "healthy ex \<longleftrightarrow>
     (\<forall>i c. \<exists>x. execute_create ex i c = Inr x) \<and> (\<forall>i. \<exists>x. execute_stop ex i = Inr x) \<and>
     (\<forall>i s a. \<exists>x. execute_revive ex i s a = Inr x) \<and> (\<forall>i s. \<exists>x. execute_archive ex i s = Inr x) \<and>
     (\<forall>i e. execute_terminate ex i = Some e \<longrightarrow> is_not_found_err e)"

fun successor :: "lstate \<Rightarrow> lstate" where
  "successor Pending = Creating"
| "successor Creating = Running"
| "successor Stopping = Sleeping"
| "successor Reviving = Running"
| "successor Archiving = Archived"
| "successor Terminating = Terminated"
| "successor s = s"

definition destination :: "lstate \<Rightarrow> lstate" where
  "destination s = (if s = Pending then Running else successor s)"

lemma step_creating_parsed:
  assumes "unmarshal_config parse (config rw) = Inr c"
  shows "\<exists>cfg. step_creating ex parse now rw =
    (case execute_create ex (row_id rw) cfg of
       Inl e \<Rightarrow> (rw, Some (''creating: ExecuteCreate: '' @ e))
     | Inr inst \<Rightarrow>
         ((with_instance (rw\<lparr>lifecycle_state := Running, status := Running\<rparr>) inst)
            \<lparr>reconcile_after := park_until now (days 1)\<rparr>, None))"
  unfolding step_creating_def Let_def assms sum.case by (rule exI, rule refl)

lemma healthy_step:
  assumes "healthy ex" "lifecycle_state rw \<in> set claimable_states"
    "\<exists>c. unmarshal_config parse (config rw) = Inr c"
  shows "\<exists>nxt. Step ex parse now rw = (nxt, None) \<and> lifecycle_state nxt = successor (lifecycle_state rw) \<and>
    desired_state nxt = desired_state rw \<and> row_id nxt = row_id rw \<and>
    (lifecycle_state rw = Pending \<longrightarrow> reconcile_after nxt = now)"
proof -
  from assms(3) obtain c where c: "unmarshal_config parse (config rw) = Inr c" by blast
  from assms(1) have h: "\<exists>x. execute_create ex i c' = Inr x" "\<exists>x. execute_stop ex i = Inr x"
    "\<exists>x. execute_revive ex i s a = Inr x" "\<exists>x. execute_archive ex i s = Inr x"
    "execute_terminate ex i = Some e \<Longrightarrow> is_not_found_err e" for i c' s a e
    unfolding healthy_def by blast+
  show ?thesis
  proof (cases "lifecycle_state rw")
    case Creating
    from step_creating_parsed [OF c, of ex now] obtain cfg where
      "step_creating ex parse now rw = (case execute_create ex (row_id rw) cfg of
         Inl e \<Rightarrow> (rw, Some (''creating: ExecuteCreate: '' @ e))
       | Inr inst \<Rightarrow> ((with_instance (rw\<lparr>lifecycle_state := Running, status := Running\<rparr>) inst)
            \<lparr>reconcile_after := park_until now (days 1)\<rparr>, None))" by blast
    with h(1) [of "row_id rw" cfg] Creating show ?thesis by (auto simp: Step_def)
  next
    case Stopping
    with h(2) [of "row_id rw"] show ?thesis by (auto simp: Step_def step_stopping_def)
  next
    case Reviving
    with h(3) [of "row_id rw" "null_string (workspace_snapshot_ref rw)" "null_string (workspace_archive_ref rw)"]
    show ?thesis by (auto simp: Step_def step_reviving_def)
  next
    case Archiving
    with h(4) [of "row_id rw" "null_string (workspace_snapshot_ref rw)"] show ?thesis
      by (auto simp: Step_def step_archiving_def Let_def)
  next
    case Terminating
    with h(5) [of "row_id rw"] show ?thesis
      by (cases "execute_terminate ex (row_id rw)") (auto simp: Step_def step_terminating_def Let_def)
  qed (use assms(2) in \<open>simp_all add: Step_def step_pending_def move_def claimable_states_def\<close>)
qed

text \<open>A row of the table that a round may claim right away.\<close>

definition ready :: "(string \<Rightarrow> string + inst_config) \<Rightarrow> db_row \<Rightarrow> time \<Rightarrow> bool" where
  "ready parse r now \<longleftrightarrow> locked_at r = None \<and> reconcile_after r \<le> now \<and>
     (\<exists>c. unmarshal_config parse (config r) = Inr c)"

lemma transition_config [simp]: "config (transition_row now nxt r) = config r"
  by (simp add: transition_row_def)

lemma leased_config [simp]: "config (leased l t r) = config r"
  by (simp add: leased_def)

lemma round_healthy:
  assumes "healthy ex" "ready parse r now"
  shows "\<exists>r' ag'. reconcile_round (new_reconciler L) ex parse now ([r], ag) = ([r'], ag') \<and>
    lifecycle_state r' = successor (lifecycle_state r) \<and> desired_state r' = desired_state r \<and>
    (lifecycle_state r = Pending \<longrightarrow> ready parse r' now)"
proof (cases "lifecycle_state r \<in> set claimable_states")
  case False
  then have "\<not> due now (minutes 2) r" "successor (lifecycle_state r) = lifecycle_state r"
    "lifecycle_state r \<noteq> Pending"
    by (cases "lifecycle_state r"; simp add: due_def claimable_states_def)+
  then show ?thesis by (simp add: round_not_due)
next
  case True
  with assms(2) have due: "due now (minutes 2) r" by (simp add: due_def ready_def)
  from True assms have "\<exists>c. unmarshal_config parse (config (row_of r)) = Inr c" by (simp add: ready_def)
  from healthy_step [OF assms(1) _ this, of now] True obtain nxt where
    nxt: "Step ex parse now (row_of r) = (nxt, None)" "lifecycle_state nxt = successor (lifecycle_state r)"
      "desired_state nxt = desired_state r" "row_id nxt = row_id r"
      "lifecycle_state r = Pending \<longrightarrow> reconcile_after nxt = now"
    by auto
  obtain tbl ag' where st: "process_row (new_reconciler L) ex parse now (row_of r) ([leased L now r], ag) = (tbl, ag')"
    by force
  have "tbl = [transition_row now nxt (leased L now r)]"
    using process_row_table [of "new_reconciler L" ex parse now "row_of r" "([leased L now r], ag)"] st nxt(1)
    by (simp add: lease_guard_def new_reconciler_def)
  with st nxt(2,3,5) assms(2) round_due [OF due] show ?thesis
    by (auto simp: ready_def)
qed

lemma round_stable:
  assumes "lifecycle_state r \<notin> set claimable_states"
  shows "rounds (new_reconciler L) ex parse ts ([r], ag) = ([r], ag)"
proof (induction ts)
  case (Cons t ts)
  from assms have "\<not> due t (minutes 2) r" by (simp add: due_def)
  with Cons show ?case by (simp add: rounds_def round_not_due)
qed (simp add: rounds_def)

section \<open>Where a desired state leads\<close>

fun target :: "desire \<Rightarrow> lstate" where
  "target DesireRunning = Running"
| "target DesireSleeping = Sleeping"
| "target DesireArchived = Archived"
| "target DesireTerminated = Terminated"
| "target (OtherDesire s) = OtherState s"

text \<open>The desired states that are reached from a state.\<close>

fun honoured :: "lstate \<Rightarrow> desire \<Rightarrow> bool" where
  "honoured Pending d \<longleftrightarrow> d = DesireRunning"
| "honoured Creating d \<longleftrightarrow> d = DesireRunning"
| "honoured Reviving d \<longleftrightarrow> d = DesireRunning"
| "honoured Running d \<longleftrightarrow> d \<in> {DesireRunning, DesireSleeping, DesireTerminated}"
| "honoured Stopping d \<longleftrightarrow> d = DesireSleeping"
| "honoured Sleeping d \<longleftrightarrow> d \<in> {DesireRunning, DesireSleeping, DesireArchived, DesireTerminated}"
| "honoured Stopped d \<longleftrightarrow> d \<in> {DesireRunning, DesireArchived, DesireTerminated}"
| "honoured Archiving d \<longleftrightarrow> d = DesireArchived"
| "honoured Archived d \<longleftrightarrow> d \<in> {DesireRunning, DesireArchived, DesireTerminated}"
| "honoured Terminating d \<longleftrightarrow> d = DesireTerminated"
| "honoured Terminated d \<longleftrightarrow> d = DesireTerminated"
| "honoured ErrorState d \<longleftrightarrow> d = DesireTerminated"
| "honoured Failed d \<longleftrightarrow> d = DesireTerminated"
| "honoured Provisioning d \<longleftrightarrow> False"
| "honoured (OtherState s) d \<longleftrightarrow> d = OtherDesire s"

lemma destination_honoured: "destination (desired_case d s s) = target d \<longleftrightarrow> honoured s d"
  by (cases s; cases d) (auto simp: destination_def desired_case_def)

lemma destination_stable: "destination s \<notin> set claimable_states"
  by (cases s) (simp_all add: destination_def claimable_states_def)


lemma healthy_healthy_backend: "healthy healthy_backend"
  by (simp add: healthy_def healthy_backend_def)


text \<open>
  A desired state written while a worker holds the row is not even kept: the write-back restores
  the one it was claimed with.
\<close>

lemma terminate_lost_in_flight:
  defines "r \<equiv> demo_row Creating DesireRunning"
  shows "\<exists>r'. fst (process_row (new_reconciler ''A'') healthy_backend no_config 7 (row_of r)
       ([desired_row 6 DesireTerminated (leased ''A'' 5 r)], Map.empty)) = [r'] \<and>
     lifecycle_state r' = Running \<and> desired_state r' = DesireRunning"
proof -
  have "Step healthy_backend no_config 7 (row_of r) =
      ((row_of r)\<lparr>lifecycle_state := Running, status := Running, reconcile_after := park_until 7 (days 1)\<rparr>, None)"
    by (simp add: Step_def step_creating_def r_def healthy_backend_def unmarshal_config_def with_instance_def)
  then show ?thesis
    by (simp add: process_row_table lease_guard_def new_reconciler_def desired_row_def leased_def r_def)
qed

section \<open>A broken backend\<close>

text \<open>A backend on which every operation fails, with an error that is not a missing sandbox.\<close>

definition failing :: "executor \<Rightarrow> bool" where
  "failing ex \<longleftrightarrow>
     (\<forall>i c. \<exists>e. execute_create ex i c = Inl e) \<and> (\<forall>i. \<exists>e. execute_stop ex i = Inl e) \<and>
     (\<forall>i s a. \<exists>e. execute_revive ex i s a = Inl e) \<and> (\<forall>i s. \<exists>e. execute_archive ex i s = Inl e) \<and>
     (\<forall>i. \<exists>e. execute_terminate ex i = Some e \<and> \<not> is_not_found_err e)"

lemma failing_step:
  assumes "failing ex" "is_convergence_state (lifecycle_state rw)"
  shows "\<exists>e. Step ex parse now rw = (rw, Some e)"
proof -
  from assms(1) have f: "\<exists>e. execute_create ex i c' = Inl e" "\<exists>e. execute_stop ex i = Inl e"
    "\<exists>e. execute_revive ex i s a = Inl e" "\<exists>e. execute_archive ex i s = Inl e"
    "\<exists>e. execute_terminate ex i = Some e \<and> \<not> is_not_found_err e" for i c' s a
    unfolding failing_def by blast+
  show ?thesis
  proof (cases "lifecycle_state rw")
    case Creating
    show ?thesis
    proof (cases "unmarshal_config parse (config rw)")
      case (Inl e)
      with Creating show ?thesis by (simp add: Step_def step_creating_def)
    next
      case (Inr c)
      from step_creating_parsed [OF Inr, of ex now] obtain cfg where
        "step_creating ex parse now rw = (case execute_create ex (row_id rw) cfg of
           Inl e \<Rightarrow> (rw, Some (''creating: ExecuteCreate: '' @ e))
         | Inr inst \<Rightarrow> ((with_instance (rw\<lparr>lifecycle_state := Running, status := Running\<rparr>) inst)
              \<lparr>reconcile_after := park_until now (days 1)\<rparr>, None))" by blast
      with f(1) [of "row_id rw" cfg] Creating show ?thesis by (auto simp: Step_def)
    qed
  next
    case Stopping
    then show ?thesis using f(2) [of "row_id rw"] by (auto simp: Step_def step_defs)
  next
    case Reviving
    then show ?thesis
      using f(3) [of "row_id rw" "null_string (workspace_snapshot_ref rw)" "null_string (workspace_archive_ref rw)"]
      by (auto simp: Step_def step_defs)
  next
    case Archiving
    then show ?thesis
      using f(4) [of "row_id rw" "null_string (workspace_snapshot_ref rw)"] by (auto simp: Step_def step_defs)
  next
    case Terminating
    then show ?thesis using f(5) [of "row_id rw"] by (auto simp: Step_def step_defs)
  qed (use assms(2) in \<open>simp_all add: is_convergence_state_def\<close>)
qed

lemma round_failing:
  assumes "failing ex" "is_convergence_state (lifecycle_state r)" "locked_at r = None" "reconcile_after r \<le> now"
  shows "\<exists>r' ag'. reconcile_round (new_reconciler L) ex parse now ([r], ag) = ([r'], ag') \<and>
    lifecycle_state r' = (if 6 \<le> reconcile_attempts r + 1 then ErrorState else lifecycle_state r) \<and>
    reconcile_attempts r' = reconcile_attempts r + 1 \<and> locked_at r' = None \<and>
    desired_state r' = desired_state r \<and> reconcile_after r' \<le> now + 15"
proof -
  have due: "due now (minutes 2) r"
    using assms(3,4) convergence_claimable(1) [OF assms(2)] by (simp add: due_def)
  from failing_step [OF assms(1), of "row_of r" parse now] assms(2) obtain e
    where e: "Step ex parse now (row_of r) = (row_of r, Some e)" by auto
  obtain tbl ag' where st: "process_row (new_reconciler L) ex parse now (row_of r) ([leased L now r], ag) = (tbl, ag')"
    by force
  have "tbl = [failure_row now (row_of r) e 6 (leased L now r)]"
    using process_row_table [of "new_reconciler L" ex parse now "row_of r" "([leased L now r], ag)"] st e assms(2)
    by (simp add: lease_guard_def new_reconciler_def)
  moreover have "next_backoff_at now (Suc (reconcile_attempts r)) \<le> now + 15"
    using backoff_loop_closed [of 1 1 "Suc (reconcile_attempts r)"] by (simp add: next_backoff_at_def)
  ultimately show ?thesis using st round_due [OF due] by simp
qed

text \<open>Rounds 15 seconds apart, each after the last retry is due.\<close>

fun spaced :: "time \<Rightarrow> nat \<Rightarrow> time list" where
  "spaced t 0 = []"
| "spaced t (Suc n) = t # spaced (t + 15) n"

lemma rounds_failing:
  assumes "failing ex" "is_convergence_state (lifecycle_state r)"
  shows "reconcile_attempts r + n = 6 \<Longrightarrow> 0 < n \<Longrightarrow> locked_at r = None \<Longrightarrow> reconcile_after r \<le> t \<Longrightarrow>
    \<exists>r'. fst (rounds (new_reconciler L) ex parse (spaced t n) ([r], ag)) = [r'] \<and>
      lifecycle_state r' = ErrorState \<and> desired_state r' = desired_state r"
  using assms(2)
proof (induction n arbitrary: r t ag)
  case (Suc n)
  from round_failing [OF assms(1) Suc.prems(5,3,4), of L parse ag] obtain r' ag' where
    r': "reconcile_round (new_reconciler L) ex parse t ([r], ag) = ([r'], ag')"
      "lifecycle_state r' = (if 6 \<le> reconcile_attempts r + 1 then ErrorState else lifecycle_state r)"
      "reconcile_attempts r' = reconcile_attempts r + 1" "locked_at r' = None"
      "desired_state r' = desired_state r" "reconcile_after r' \<le> t + 15" by blast
  show ?case
  proof (cases "n = 0")
    case True
    with Suc.prems(1) r' show ?thesis by (simp add: rounds_def)
  next
    case False
    with Suc.prems(1) r'(2) have "lifecycle_state r' = lifecycle_state r" by simp
    with Suc.IH [of r' "t + 15" ag'] r' Suc.prems(1,5) False show ?thesis by (simp add: rounds_def)
  qed
qed simp


lemma failing_broken_backend: "failing broken_backend"
  by (simp add: failing_def broken_backend_def is_not_found_err_def contains_any_def go_contains_def
      has_prefix_def)


end
