(* ===== verification/LifecycleSystem.thy ===== *)
theory LifecycleSystem
  imports LifecycleConvergence
begin

text \<open>
  The whole lifecycle as a transition system: API calls, checkers, claims by any number of
  gateway pods, workers finishing in any order or crashing, and the health sweeper, interleaved
  over one table. Its invariant gives the plan limit and the protection of running sandboxes.
\<close>

section \<open>The system\<close>

record world =
  w_table :: table
  w_flight :: "(string \<times> row) list"

definition leader_reconciler :: "string \<Rightarrow> nat \<Rightarrow> reconciler" where
  "leader_reconciler L m = (new_reconciler L)\<lparr>rc_max_attempts := m\<rparr>"

text \<open>
  \<open>w_flight\<close> holds the claimed rows being processed, with the pod that claimed them. A pod does not
  claim a row again while one of its own workers is still on it: the row budget of 90 s ends a
  worker before the lease of 2 min does. \<open>limit\<close> is each tenant's plan limit. Manual and automatic
  recovery is left out here; what it does to the limit is stated below.
\<close>

inductive lifecycle_step :: "(string \<Rightarrow> int) \<Rightarrow> world \<Rightarrow> world \<Rightarrow> bool" for limit :: "string \<Rightarrow> int" where
  create:
    "insert_pending_with_limit gen now rw (limit (tenant_id rw)) (w_table w) = Inr (out, tbl') \<Longrightarrow>
     lifecycle_step limit w (w\<lparr>w_table := tbl'\<rparr>)"
| desire:
    "find_row i (w_table w) = Some r \<Longrightarrow>
     set_desired_state_with_limit now i d (limit (tenant_id r)) (w_table w) = Inr tbl' \<Longrightarrow>
     lifecycle_step limit w (w\<lparr>w_table := tbl'\<rparr>)"
| claim:
    "L \<noteq> '''' \<Longrightarrow> claim_due True now L n lease (w_table w) = Inr (rows, tbl') \<Longrightarrow>
     \<forall>rw \<in> set rows. \<forall>(L', rw') \<in> set (w_flight w). L' = L \<longrightarrow> row_id rw' \<noteq> row_id rw \<Longrightarrow>
     lifecycle_step limit w \<lparr>w_table = tbl', w_flight = w_flight w @ map (Pair L) rows\<rparr>"
| finish:
    "(L, rw) \<in> set (w_flight w) \<Longrightarrow>
     lifecycle_step limit w
       \<lparr>w_table = fst (process_row (leader_reconciler L m) ex parse now rw (w_table w, ag)),
        w_flight = remove1 (L, rw) (w_flight w)\<rparr>"
| crash: "lifecycle_step limit w (w\<lparr>w_flight := remove1 (L, rw) (w_flight w)\<rparr>)"
| release: "lifecycle_step limit w (w\<lparr>w_table := release_lease i L (w_table w)\<rparr>)"
| sick:
    "mark_error now i reason (w_table w) = Inr tbl' \<Longrightarrow> lifecycle_step limit w (w\<lparr>w_table := tbl'\<rparr>)"

inductive reachable :: "(string \<Rightarrow> int) \<Rightarrow> world \<Rightarrow> bool" for limit :: "string \<Rightarrow> int" where
  start: "reachable limit \<lparr>w_table = [], w_flight = []\<rparr>"
| step: "reachable limit w \<Longrightarrow> lifecycle_step limit w w' \<Longrightarrow> reachable limit w'"

section \<open>Slots\<close>

text \<open>A sandbox that has or is getting a VM, or whose compute is still being billed.\<close>

definition uses_compute :: "db_row \<Rightarrow> bool" where
  "uses_compute r \<longleftrightarrow>
     lifecycle_state r \<in> {Pending, Creating, Provisioning, Running, Stopping, Reviving} \<or>
     (billing_started_at r \<noteq> None \<and> billing_ended_at r = None)"

definition compute_slots :: "string \<Rightarrow> table \<Rightarrow> nat" where
  "compute_slots tenant tbl = length (filter (\<lambda>r. tenant_id r = tenant \<and> uses_compute r) tbl)"

lemma uses_compute_holds: "uses_compute r \<Longrightarrow> holds_slot r"
  by (auto simp: uses_compute_def holds_slot_def)

lemma filter_map_le:
  "(\<And>r. r \<in> set tbl \<Longrightarrow> P (f r) \<Longrightarrow> P r) \<Longrightarrow> length (filter P (map f tbl)) \<le> length (filter P tbl)"
  by (induction tbl) (auto simp: le_Suc_eq)

lemma filter_imp_le:
  "(\<And>r. r \<in> set tbl \<Longrightarrow> P r \<Longrightarrow> Q r) \<Longrightarrow> length (filter P tbl) \<le> length (filter Q tbl)"
  by (induction tbl) auto

lemma filter_map_one:
  assumes "distinct (map row_id tbl)" "\<And>r. row_id r \<noteq> i \<Longrightarrow> f r = r"
  shows "length (filter P (map f tbl)) \<le> Suc (length (filter (\<lambda>r. P r \<and> row_id r \<noteq> i) tbl))"
  using assms(1)
proof (induction tbl)
  case (Cons r tbl)
  show ?case
  proof (cases "row_id r = i")
    case False
    with Cons assms(2) show ?thesis by simp
  next
    case True
    then have ne: "row_id q \<noteq> i" if "q \<in> set tbl" for q using that Cons.prems by (auto simp: image_iff)
    then have "map f tbl = tbl" using assms(2) by (intro map_idI) blast
    moreover have "filter (\<lambda>r. P r \<and> row_id r \<noteq> i) tbl = filter P tbl"
      by (rule filter_cong) (use ne in auto)
    ultimately show ?thesis using True by simp
  qed
qed simp

lemma compute_slots_map:
  assumes "\<And>r. r \<in> set tbl \<Longrightarrow> tenant_id (f r) = tenant_id r \<and> (uses_compute (f r) \<longrightarrow> uses_compute r)"
  shows "compute_slots tenant (map f tbl) \<le> compute_slots tenant tbl"
  unfolding compute_slots_def by (rule filter_map_le) (use assms in auto)

section \<open>The invariant\<close>

definition well_leased :: "world \<Rightarrow> bool" where
  "well_leased w \<longleftrightarrow>
     distinct (map row_id (w_table w)) \<and>
     (\<forall>r \<in> set (w_table w). locked_by r \<noteq> None \<longrightarrow> lifecycle_state r \<in> set claimable_states) \<and>
     (\<forall>(L, rw) \<in> set (w_flight w). L \<noteq> '''' \<and> lifecycle_state rw \<in> set claimable_states \<and>
        (\<forall>r \<in> set (w_table w). row_id r = row_id rw \<and> locked_by r = Some L \<longrightarrow>
           lifecycle_state r = lifecycle_state rw))"

definition within_plan :: "(string \<Rightarrow> int) \<Rightarrow> table \<Rightarrow> bool" where
  "within_plan limit tbl \<longleftrightarrow> (\<forall>tenant. int (compute_slots tenant tbl) \<le> limit tenant)"

lemma within_plan_le:
  assumes "\<And>t. compute_slots t tbl' \<le> compute_slots t tbl" "within_plan limit tbl"
  shows "within_plan limit tbl'"
  unfolding within_plan_def
proof
  fix t
  from assms(1) [of t] have "int (compute_slots t tbl') \<le> int (compute_slots t tbl)" by simp
  also have "\<dots> \<le> limit t" using assms(2) by (simp add: within_plan_def)
  finally show "int (compute_slots t tbl') \<le> limit t" .
qed

lemma well_leasedD:
  assumes "well_leased w"
  shows "distinct (map row_id (w_table w))"
    "r \<in> set (w_table w) \<Longrightarrow> locked_by r \<noteq> None \<Longrightarrow> lifecycle_state r \<in> set claimable_states"
    "(L, rw) \<in> set (w_flight w) \<Longrightarrow> L \<noteq> '''' \<and> lifecycle_state rw \<in> set claimable_states"
    "(L, rw) \<in> set (w_flight w) \<Longrightarrow> r \<in> set (w_table w) \<Longrightarrow> row_id r = row_id rw \<Longrightarrow>
       locked_by r = Some L \<Longrightarrow> lifecycle_state r = lifecycle_state rw"
  using assms unfolding well_leased_def by fast+

text \<open>
  A rewriting of the table that keeps identities, and on each row either keeps its lease and state
  or drops the lease, keeps the invariant.
\<close>

lemma well_leased_map:
  assumes "well_leased w" "set fl \<subseteq> set (w_flight w)"
    "\<And>r. r \<in> set (w_table w) \<Longrightarrow> row_id (f r) = row_id r \<and>
       (locked_by (f r) = None \<or>
        locked_by (f r) = locked_by r \<and> lifecycle_state (f r) = lifecycle_state r)"
  shows "well_leased \<lparr>w_table = map f (w_table w), w_flight = fl\<rparr>"
  unfolding well_leased_def
proof (intro conjI ballI)
  have "map row_id (map f (w_table w)) = map row_id (w_table w)"
    unfolding map_map by (rule map_cong) (use assms(3) in auto)
  then show "distinct (map row_id (w_table \<lparr>w_table = map f (w_table w), w_flight = fl\<rparr>))"
    by (simp only: world.select_convs well_leasedD(1) [OF assms(1)])
next
  fix q assume "q \<in> set (w_table \<lparr>w_table = map f (w_table w), w_flight = fl\<rparr>)"
  then obtain r where r: "r \<in> set (w_table w)" "q = f r" by auto
  show "locked_by q \<noteq> None \<longrightarrow> lifecycle_state q \<in> set claimable_states"
    using assms(3) [OF r(1)] well_leasedD(2) [OF assms(1) r(1)] r(2) by auto
next
  fix x assume "x \<in> set (w_flight \<lparr>w_table = map f (w_table w), w_flight = fl\<rparr>)"
  then have "x \<in> set (w_flight w)" using assms(2) by auto
  moreover obtain L rw where "x = (L, rw)" by (cases x)
  ultimately have x: "x = (L, rw)" "(L, rw) \<in> set (w_flight w)" by auto
  have "lifecycle_state (f r) = lifecycle_state rw"
    if "r \<in> set (w_table w)" "row_id (f r) = row_id rw" "locked_by (f r) = Some L" for r
    using assms(3) [OF that(1)] that well_leasedD(4) [OF assms(1) x(2) that(1)] by auto
  with x well_leasedD(3) [OF assms(1) x(2)]
  show "case x of (L, rw) \<Rightarrow> L \<noteq> '''' \<and> lifecycle_state rw \<in> set claimable_states \<and>
      (\<forall>r \<in> set (w_table \<lparr>w_table = map f (w_table w), w_flight = fl\<rparr>).
         row_id r = row_id rw \<and> locked_by r = Some L \<longrightarrow> lifecycle_state r = lifecycle_state rw)"
    by auto
qed

lemma find_row_None: "find_row i tbl = None \<longleftrightarrow> (\<forall>r \<in> set tbl. row_id r \<noteq> i)"
  by (auto simp: find_row_def find_None_iff)

lemma find_row_SomeD: "find_row i tbl = Some r \<Longrightarrow> r \<in> set tbl \<and> row_id r = i"
  by (auto simp: find_row_def find_Some_iff)

section \<open>Creating\<close>

lemma with_defaults_simps [simp]:
  "row_id (with_defaults gen rw) = row_id rw" "tenant_id (with_defaults gen rw) = tenant_id rw"
  by (simp_all add: with_defaults_def Let_def)

lemma pending_db_row_simps [simp]:
  "row_id (pending_db_row now rw) = row_id rw" "tenant_id (pending_db_row now rw) = tenant_id rw"
  "locked_by (pending_db_row now rw) = None"
  by (simp_all add: pending_db_row_def)

lemma insert_with_limit_cases:
  assumes "insert_with_limit_attempts n gen k now rw limit tbl = Inr (out, tbl')"
  shows "tbl' = tbl \<or> (find_row (row_id rw) tbl = None \<and> int (used_slots (tenant_id rw) tbl) < limit \<and>
    (\<exists>rw'. tbl' = tbl @ [pending_db_row now rw'] \<and> row_id rw' = row_id rw \<and> tenant_id rw' = tenant_id rw))"
  using assms
proof (induction n arbitrary: k rw)
  case (Suc n)
  show ?case
  proof (cases "find_row (row_id rw) tbl")
    case (Some r)
    with Suc.prems show ?thesis by (auto split: if_splits)
  next
    case None
    with Suc.prems have lt: "int (used_slots (tenant_id rw) tbl) < limit" by (auto simp: Let_def split: if_splits)
    show ?thesis
    proof (cases "insert_pending_query now rw tbl")
      case ShortCodeCollision
      with Suc.prems None lt Suc.IH [of "Suc k" "rw\<lparr>short_code := Some (gen k)\<rparr>"] show ?thesis by (simp add: Let_def)
    next
      case (Inserted t)
      then have "t = tbl @ [pending_db_row now rw]"
        by (simp add: insert_pending_query_def split: if_splits)
      with Inserted Suc.prems None lt show ?thesis by (auto simp: Let_def go_result)
    next
      case NoRows
      with None show ?thesis by (simp add: insert_pending_query_def split: if_splits)
    qed
  qed
qed simp

lemma create_preserves:
  assumes "well_leased w" "within_plan limit (w_table w)" "\<forall>t. 0 < limit t"
    "insert_pending_with_limit gen now rw (limit (tenant_id rw)) (w_table w) = Inr (out, tbl')"
  shows "well_leased (w\<lparr>w_table := tbl'\<rparr>) \<and> within_plan limit tbl'"
proof -
  have "limit (tenant_id rw) \<noteq> unlimited_sandbox_limit" "\<not> limit (tenant_id rw) \<le> 0"
    using assms(3) by (auto simp: unlimited_sandbox_limit_def dest: spec [of _ "tenant_id rw"])
  with assms(4) have "insert_with_limit_attempts 5 gen 1 now (with_defaults gen rw) (limit (tenant_id rw)) (w_table w)
      = Inr (out, tbl')" by (simp add: insert_pending_with_limit_def)
  from insert_with_limit_cases [OF this] consider "tbl' = w_table w"
    | rw' where "\<forall>r \<in> set (w_table w). row_id r \<noteq> row_id rw"
      "int (used_slots (tenant_id rw) (w_table w)) < limit (tenant_id rw)"
      "tbl' = w_table w @ [pending_db_row now rw']" "row_id rw' = row_id rw" "tenant_id rw' = tenant_id rw"
    by (auto simp: find_row_None)
  then show ?thesis
  proof cases
    case 1
    with assms(1,2) show ?thesis by simp
  next
    case 2
    have "compute_slots (tenant_id rw) (w_table w) \<le> used_slots (tenant_id rw) (w_table w)"
      unfolding compute_slots_def used_slots_def by (rule filter_imp_le) (auto simp: uses_compute_holds)
    with 2 assms(2) have "within_plan limit tbl'"
      by (auto simp: within_plan_def compute_slots_def)
    moreover have "well_leased (w\<lparr>w_table := tbl'\<rparr>)"
      using assms(1) 2(1,3,4) unfolding well_leased_def by auto
    ultimately show ?thesis by simp
  qed
qed

section \<open>Desired states\<close>

lemma desired_row_simps [simp]:
  "row_id (desired_row now d r) = row_id r" "tenant_id (desired_row now d r) = tenant_id r"
  "locked_by (desired_row now d r) = locked_by r"
  "lifecycle_state (desired_row now d r) = desired_case d (lifecycle_state r) (lifecycle_state r)"
  "billing_started_at (desired_row now d r) = billing_started_at r"
  "billing_ended_at (desired_row now d r) = billing_ended_at r"
  by (simp_all add: desired_row_def)

lemma desired_case_claimable: "s \<in> set claimable_states \<Longrightarrow> desired_case d s s = s"
  by (auto simp: claimable_states_def desired_case_def)

lemma desired_row_compute:
  "d \<noteq> DesireRunning \<or> lifecycle_state r \<notin> {Sleeping, Stopped, Archived} \<Longrightarrow>
     uses_compute (desired_row now d r) \<Longrightarrow> uses_compute r"
  by (auto simp: uses_compute_def desired_case_def split: if_splits)

lemma desire_preserves:
  assumes "well_leased w" "within_plan limit (w_table w)" "\<forall>t. 0 < limit t"
    "find_row i (w_table w) = Some r"
    "set_desired_state_with_limit now i d (limit (tenant_id r)) (w_table w) = Inr tbl'"
  shows "well_leased (w\<lparr>w_table := tbl'\<rparr>) \<and> within_plan limit tbl'"
proof -
  let ?f = "\<lambda>q. if row_id q = i then desired_row now d q else q"
  have lim: "limit (tenant_id r) \<noteq> unlimited_sandbox_limit" "\<not> limit (tenant_id r) \<le> 0"
    using assms(3) by (auto simp: unlimited_sandbox_limit_def dest: spec [of _ "tenant_id r"])
  have tbl': "tbl' = map ?f (w_table w)"
    using assms(4,5) lim
    by (auto simp: set_desired_state_with_limit_def set_desired_state_def update_rules Let_def split: if_splits)
  have "well_leased \<lparr>w_table = map ?f (w_table w), w_flight = w_flight w\<rparr>"
  proof (rule well_leased_map [OF assms(1) subset_refl])
    fix q assume "q \<in> set (w_table w)"
    then have "locked_by q = None \<or> desired_case d (lifecycle_state q) (lifecycle_state q) = lifecycle_state q"
      using well_leasedD(2) [OF assms(1)] desired_case_claimable by blast
    then show "row_id (?f q) = row_id q \<and> (locked_by (?f q) = None \<or>
        locked_by (?f q) = locked_by q \<and> lifecycle_state (?f q) = lifecycle_state q)" by auto
  qed
  then have wl: "well_leased (w\<lparr>w_table := tbl'\<rparr>)" by (cases w) (simp add: tbl')
  from find_row_SomeD [OF assms(4)] have r: "r \<in> set (w_table w)" "row_id r = i" by auto
  have unique: "q = r" if "q \<in> set (w_table w)" "row_id q = i" for q
    using that r well_leasedD(1) [OF assms(1)] by (metis distinct_map inj_onD)
  show ?thesis
  proof (cases "d = DesireRunning \<and> lifecycle_state r \<in> {Sleeping, Stopped, Archived}")
    case False
    have "compute_slots t tbl' \<le> compute_slots t (w_table w)" for t
      unfolding tbl'
      by (rule compute_slots_map) (use False unique desired_row_compute in auto)
    then have "within_plan limit tbl'" using assms(2) by (rule within_plan_le)
    with wl show ?thesis by simp
  next
    case True
    let ?others = "filter (\<lambda>q. (tenant_id q = tenant_id r \<and> uses_compute q) \<and> row_id q \<noteq> i) (w_table w)"
    have "compute_slots (tenant_id r) tbl' \<le> Suc (length ?others)"
      unfolding tbl' compute_slots_def
      by (rule filter_map_one [OF well_leasedD(1) [OF assms(1)]]) simp
    moreover have "length ?others \<le>
        length (filter (\<lambda>q. tenant_id q = tenant_id r \<and> row_id q \<noteq> i \<and> holds_slot q) (w_table w))"
      by (rule filter_imp_le) (auto simp: uses_compute_holds)
    moreover have "int (length (filter (\<lambda>q. tenant_id q = tenant_id r \<and> row_id q \<noteq> i \<and> holds_slot q) (w_table w)))
        < limit (tenant_id r)"
      using assms(4,5) True lim
      by (auto simp: set_desired_state_with_limit_def Let_def split: if_splits)
    ultimately have mine: "int (compute_slots (tenant_id r) tbl') \<le> limit (tenant_id r)" by linarith
    have "int (compute_slots t tbl') \<le> limit t" for t
    proof (cases "t = tenant_id r")
      case False
      have "filter (\<lambda>q. tenant_id q = t \<and> uses_compute q) (map ?f (w_table w)) =
          map ?f (filter (\<lambda>q. tenant_id (?f q) = t \<and> uses_compute (?f q)) (w_table w))"
        by (simp add: filter_map o_def)
      moreover have "filter (\<lambda>q. tenant_id (?f q) = t \<and> uses_compute (?f q)) (w_table w) =
          filter (\<lambda>q. tenant_id q = t \<and> uses_compute q) (w_table w)"
        by (rule filter_cong) (use False unique in auto)
      ultimately have "compute_slots t tbl' = compute_slots t (w_table w)"
        unfolding tbl' compute_slots_def by simp
      with assms(2) show ?thesis by (simp add: within_plan_def)
    qed (simp add: mine)
    with wl show ?thesis by (simp add: within_plan_def)
  qed
qed

section \<open>Workers\<close>

text \<open>
  What a worker's write-back does to the row it may touch, when its lease still holds: its state
  is the claimed one, so it moves along an edge of the machine, or stays, or fails.
\<close>

lemma process_row_map:
  "\<exists>f. fst (process_row rc ex parse now rw (tbl, ag)) =
       map (\<lambda>r. if lease_guard (rc_leader_id rc) (row_id rw) r then f r else r) tbl \<and>
     ((\<exists>nxt. f = transition_row now nxt \<and>
         (step_edge (desired_state rw) (lifecycle_state rw) (lifecycle_state nxt) \<or>
          lifecycle_state nxt = lifecycle_state rw)) \<or>
      (\<exists>e. f = failure_row now rw e (rc_max_attempts rc)))"
proof -
  obtain nxt err where st: "Step ex parse now rw = (nxt, err)" by force
  show ?thesis
  proof (cases err)
    case None
    with st have "step_edge (desired_state rw) (lifecycle_state rw) (lifecycle_state nxt)"
      using Step_edge by blast
    with st None show ?thesis by (auto simp: process_row_table)
  next
    case (Some e)
    show ?thesis
    proof (cases "is_convergence_state (lifecycle_state rw)")
      case True
      with st Some show ?thesis
        by (intro exI [of _ "failure_row now rw e (rc_max_attempts rc)"]) (auto simp: process_row_table)
    next
      case False
      with st Some show ?thesis
        by (intro exI [of _ "transition_row now (park_row now rw 30)"]) (auto simp: process_row_table)
    qed
  qed
qed

lemma transition_row_billing:
  "billing_started_at (transition_row now nxt r) =
     (if lifecycle_state nxt = Running \<and> lifecycle_state r \<noteq> Running
      then (case billing_started_at nxt of Some t \<Rightarrow> Some t | None \<Rightarrow> Some now)
      else if lifecycle_state nxt \<in> {Sleeping, Archived, Terminated} then None
      else billing_started_at r)"
  "billing_ended_at (transition_row now nxt r) =
     (if lifecycle_state nxt = Running \<and> lifecycle_state r \<noteq> Running then None
      else if lifecycle_state nxt \<in> {Sleeping, Archived, Terminated} then None
      else billing_ended_at r)"
  by (simp_all add: transition_row_def)

lemma failure_row_billing [simp]:
  "billing_started_at (failure_row now rw e m r) = billing_started_at r"
  "billing_ended_at (failure_row now rw e m r) = billing_ended_at r"
  by (simp_all add: failure_row_def Let_def)

inductive_cases step_edgeE: "step_edge d s s'"

lemma transition_compute:
  assumes "step_edge d s (lifecycle_state nxt) \<or> lifecycle_state nxt = s" "s \<in> set claimable_states"
    "lifecycle_state r = s" "uses_compute (transition_row now nxt r)"
  shows "uses_compute r"
proof -
  from assms(1,2) have "(s, lifecycle_state nxt) \<in> {(Pending, Creating), (Creating, Running),
      (Stopping, Sleeping), (Reviving, Running), (Archiving, Archived), (Terminating, Terminated)} \<or>
      lifecycle_state nxt = s"
    by (auto elim: step_edgeE simp: claimable_states_def)
  with assms(2-4) show ?thesis
    by (auto simp: uses_compute_def transition_row_billing claimable_states_def)
qed

lemma failure_compute:
  "lifecycle_state r = lifecycle_state rw \<Longrightarrow> uses_compute (failure_row now rw e m r) \<Longrightarrow> uses_compute r"
  by (auto simp: uses_compute_def split: if_splits)

lemma finish_preserves:
  assumes "well_leased w" "within_plan limit (w_table w)" "(L, rw) \<in> set (w_flight w)"
    "tbl' = fst (process_row (leader_reconciler L m) ex parse now rw (w_table w, ag))"
  shows "well_leased \<lparr>w_table = tbl', w_flight = remove1 (L, rw) (w_flight w)\<rparr> \<and> within_plan limit tbl'"
proof -
  have id: "rc_leader_id (leader_reconciler L m) = L" by (simp add: leader_reconciler_def new_reconciler_def)
  from well_leasedD(3) [OF assms(1,3)] have L: "L \<noteq> ''''" "lifecycle_state rw \<in> set claimable_states" by auto
  obtain f where f: "tbl' = map (\<lambda>r. if lease_guard L (row_id rw) r then f r else r) (w_table w)"
    "(\<exists>nxt. f = transition_row now nxt \<and>
         (step_edge (desired_state rw) (lifecycle_state rw) (lifecycle_state nxt) \<or>
          lifecycle_state nxt = lifecycle_state rw)) \<or>
      (\<exists>e. f = failure_row now rw e (rc_max_attempts (leader_reconciler L m)))"
    using process_row_map [of "leader_reconciler L m" ex parse now rw "w_table w" ag] id assms(4) by auto
  let ?f = "\<lambda>r. if lease_guard L (row_id rw) r then f r else r"
  have keeps: "row_id (f r) = row_id r" "tenant_id (f r) = tenant_id r" "locked_by (f r) = None" for r
    using f(2) by auto
  have "well_leased \<lparr>w_table = map ?f (w_table w), w_flight = remove1 (L, rw) (w_flight w)\<rparr>"
    by (rule well_leased_map [OF assms(1) set_remove1_subset]) (auto simp: keeps)
  moreover have "uses_compute r" if r: "r \<in> set (w_table w)" "lease_guard L (row_id rw) r" "uses_compute (f r)" for r
  proof -
    from r(2) L(1) have "row_id r = row_id rw" "locked_by r = Some L" by (auto simp: lease_guard_def)
    from well_leasedD(4) [OF assms(1,3) r(1) this] have "lifecycle_state r = lifecycle_state rw" .
    with f(2) r(3) L(2) show ?thesis using transition_compute failure_compute by blast
  qed
  then have "compute_slots t (map ?f (w_table w)) \<le> compute_slots t (w_table w)" for t
    by (intro compute_slots_map) (auto simp: keeps)
  then have "within_plan limit tbl'" unfolding f(1) using assms(2) by (rule within_plan_le)
  ultimately show ?thesis using f(1) by simp
qed

section \<open>The other steps\<close>

lemma claim_preserves:
  assumes "well_leased w" "within_plan limit (w_table w)" "L \<noteq> ''''"
    "claim_due True now L n lease (w_table w) = Inr (rows, tbl')"
    "\<forall>rw \<in> set rows. \<forall>(L', rw') \<in> set (w_flight w). L' = L \<longrightarrow> row_id rw' \<noteq> row_id rw"
  shows "well_leased \<lparr>w_table = tbl', w_flight = w_flight w @ map (Pair L) rows\<rparr> \<and> within_plan limit tbl'"
proof -
  let ?f = "\<lambda>r. if row_id r \<in> row_id ` set rows then r\<lparr>locked_by := Some L, locked_at := Some now\<rparr> else r"
  note rows = claim_due_rows(1) [OF assms(4)]
  have tbl': "tbl' = map ?f (w_table w)" by (rule claim_due_rows(3) [OF assms(4)])
  have state: "lifecycle_state r = lifecycle_state rw \<and> lifecycle_state rw \<in> set claimable_states"
    if "rw \<in> set rows" "r \<in> set (w_table w)" "row_id r = row_id rw" for r rw
  proof -
    from rows that(1) obtain q where q: "q \<in> set (w_table w)" "rw = row_of q" "due now lease q" by blast
    with that(2,3) well_leasedD(1) [OF assms(1)] have "q = r" by (auto simp: distinct_map dest: inj_onD)
    with q show ?thesis by (simp add: due_def)
  qed
  have "well_leased \<lparr>w_table = map ?f (w_table w), w_flight = w_flight w @ map (Pair L) rows\<rparr>"
    unfolding well_leased_def
  proof (intro conjI ballI)
    have "map row_id (map ?f (w_table w)) = map row_id (w_table w)"
      unfolding map_map by (rule map_cong) auto
    then show "distinct (map row_id (w_table \<lparr>w_table = map ?f (w_table w), w_flight = w_flight w @ map (Pair L) rows\<rparr>))"
      by (simp only: world.select_convs well_leasedD(1) [OF assms(1)])
  next
    fix q assume "q \<in> set (w_table \<lparr>w_table = map ?f (w_table w), w_flight = w_flight w @ map (Pair L) rows\<rparr>)"
    then show "locked_by q \<noteq> None \<longrightarrow> lifecycle_state q \<in> set claimable_states"
      using well_leasedD(2) [OF assms(1)] state by fastforce
  next
    fix x assume "x \<in> set (w_flight \<lparr>w_table = map ?f (w_table w), w_flight = w_flight w @ map (Pair L) rows\<rparr>)"
    then have "x \<in> set (w_flight w) \<or> x \<in> Pair L ` set rows" by simp
    then consider L' rw where "x = (L', rw)" "(L', rw) \<in> set (w_flight w)" | rw where "x = (L, rw)" "rw \<in> set rows"
      by (metis imageE surj_pair)
    then show "case x of (M, rw) \<Rightarrow> M \<noteq> '''' \<and> lifecycle_state rw \<in> set claimable_states \<and>
        (\<forall>r \<in> set (w_table \<lparr>w_table = map ?f (w_table w), w_flight = w_flight w @ map (Pair L) rows\<rparr>).
           row_id r = row_id rw \<and> locked_by r = Some M \<longrightarrow> lifecycle_state r = lifecycle_state rw)"
    proof cases
      case (1 L' rw)
      have "lifecycle_state (?f r) = lifecycle_state rw"
        if r: "r \<in> set (w_table w)" "row_id (?f r) = row_id rw" "locked_by (?f r) = Some L'" for r
      proof (cases "row_id r \<in> row_id ` set rows")
        case True
        with r have "L' = L" "row_id rw \<in> row_id ` set rows" by auto
        with assms(5) 1(2) show ?thesis by fastforce
      next
        case False
        with r show ?thesis using well_leasedD(4) [OF assms(1) 1(2) r(1)] by simp
      qed
      then have "\<forall>q \<in> set (map ?f (w_table w)). row_id q = row_id rw \<and> locked_by q = Some L' \<longrightarrow>
          lifecycle_state q = lifecycle_state rw"
        unfolding set_map by blast
      with 1 well_leasedD(3) [OF assms(1) 1(2)] show ?thesis by (simp only: world.select_convs prod.case simp_thms)
    next
      case (2 rw)
      from rows 2(2) obtain q where q: "q \<in> set (w_table w)" "rw = row_of q" by blast
      have "row_id q = row_id rw" using q(2) by simp
      with state [OF 2(2) q(1)] have "lifecycle_state rw \<in> set claimable_states" by blast
      moreover have "\<forall>q \<in> set (map ?f (w_table w)). row_id q = row_id rw \<and> locked_by q = Some L \<longrightarrow>
          lifecycle_state q = lifecycle_state rw"
      proof (intro ballI impI)
        fix q assume "q \<in> set (map ?f (w_table w))" "row_id q = row_id rw \<and> locked_by q = Some L"
        moreover from this(1) obtain r where "r \<in> set (w_table w)" "q = ?f r" unfolding set_map by blast
        ultimately show "lifecycle_state q = lifecycle_state rw"
          using state [OF 2(2), of r] by (simp split: if_splits)
      qed
      ultimately show ?thesis using 2(1) assms(3) by (simp only: world.select_convs prod.case simp_thms)
    qed
  qed
  moreover have "compute_slots t tbl' \<le> compute_slots t (w_table w)" for t
    unfolding tbl' by (rule compute_slots_map) (auto simp: uses_compute_def)
  then have "within_plan limit tbl'" using assms(2) by (rule within_plan_le)
  ultimately show ?thesis by (simp add: tbl')
qed

lemma step_preserves:
  assumes "lifecycle_step limit w w'" "well_leased w" "within_plan limit (w_table w)" "\<forall>t. 0 < limit t"
  shows "well_leased w' \<and> within_plan limit (w_table w')"
  using assms(1)
proof cases
  case (create gen now rw out tbl')
  with create_preserves [OF assms(2-4) create(2)] show ?thesis by simp
next
  case (desire i r now d tbl')
  with desire_preserves [OF assms(2-4) desire(2,3)] show ?thesis by simp
next
  case (claim L now n lease rows tbl')
  with claim_preserves [OF assms(2,3) claim(2-4)] show ?thesis by simp
next
  case (finish L rw m ex parse now ag)
  with finish_preserves [OF assms(2,3) finish(2) refl] show ?thesis by simp
next
  case (crash L rw)
  have "well_leased \<lparr>w_table = map id (w_table w), w_flight = remove1 (L, rw) (w_flight w)\<rparr>"
    by (rule well_leased_map [OF assms(2) set_remove1_subset]) simp
  with crash assms(3) show ?thesis by (cases w) simp
next
  case (release i L)
  let ?f = "\<lambda>r. if row_id r = i \<and> locked_by r = Some L then r\<lparr>locked_by := None, locked_at := None\<rparr> else r"
  have t: "release_lease i L (w_table w) = map ?f (w_table w)" by (simp add: release_lease_def update_where_def)
  have "well_leased \<lparr>w_table = map ?f (w_table w), w_flight = w_flight w\<rparr>"
    by (rule well_leased_map [OF assms(2) subset_refl]) auto
  moreover have "compute_slots u (map ?f (w_table w)) \<le> compute_slots u (w_table w)" for u
    by (rule compute_slots_map) (auto simp: uses_compute_def)
  then have "within_plan limit (map ?f (w_table w))"
    using assms(3) by (rule within_plan_le)
  ultimately show ?thesis using release t by (cases w) simp
next
  case (sick now i reason tbl')
  let ?g = "\<lambda>r. r\<lparr>lifecycle_state := ErrorState, status := ErrorState, row_error := Some reason,
      error_reason := Some reason, error_at := Some now, locked_by := None, locked_at := None, updated_at := now\<rparr>"
  let ?f = "\<lambda>r. if row_id r = i \<and> lifecycle_state r = Running then ?g r else r"
  have t: "tbl' = map ?f (w_table w)" using sick(2) by (auto simp: mark_error_def update_rules)
  have "well_leased \<lparr>w_table = map ?f (w_table w), w_flight = w_flight w\<rparr>"
    by (rule well_leased_map [OF assms(2) subset_refl]) auto
  moreover have "compute_slots u (map ?f (w_table w)) \<le> compute_slots u (w_table w)" for u
    by (rule compute_slots_map) (auto simp: uses_compute_def)
  then have "within_plan limit (map ?f (w_table w))"
    using assms(3) by (rule within_plan_le)
  ultimately show ?thesis using sick t by (cases w) simp
qed

lemma reachable_invariant:
  assumes "reachable limit w" "\<forall>t. 0 < limit t"
  shows "well_leased w \<and> within_plan limit (w_table w)"
  using assms(1)
proof (induction rule: reachable.induct)
  case start
  show ?case using assms(2) by (auto simp: well_leased_def within_plan_def compute_slots_def intro: less_imp_le)
next
  case (step w w')
  then show ?case using step_preserves assms(2) by blast
qed


text \<open>
  uptime. In every reachable world, no worker of the reconciler, stale or not, touches a row
  that is running, sleeping or otherwise at rest, whatever its backend answers.
\<close>

theorem workers_leave_rest_alone:
  assumes "reachable limit w" "\<forall>t. 0 < limit t" "(L, rw) \<in> set (w_flight w)"
    "r \<in> set (w_table w)" "lifecycle_state r \<notin> set claimable_states"
  shows "r \<in> set (fst (process_row (leader_reconciler L m) ex parse now rw (w_table w, ag)))"
proof (rule lease_protects_rows)
  from reachable_invariant [OF assms(1,2)] have wl: "well_leased w" by blast
  from well_leasedD(3) [OF wl assms(3)]
  show "rc_leader_id (leader_reconciler L m) \<noteq> ''''" by (simp add: leader_reconciler_def new_reconciler_def)
  show "r \<in> set (fst (w_table w, ag))" using assms(4) by simp
  show "row_id r \<noteq> row_id rw \<or> locked_by r \<noteq> Some (rc_leader_id (leader_reconciler L m))"
    using well_leasedD(2) [OF wl assms(4)] assms(5) by auto
qed

section \<open>Instances\<close>

text \<open>A tenant with room for five: one sandbox is brought up by hand, another is claimed.\<close>

definition new_row :: "string \<Rightarrow> lstate \<Rightarrow> row" where
  "new_row i s = (row_of (demo_row s DesireRunning))\<lparr>row_id := i, short_code := Some i\<rparr>"

definition demo_world :: world where
  "demo_world =
     \<lparr>w_table = [pending_db_row 0 (new_row ''up'' Running), leased ''A'' 0 (pending_db_row 0 (new_row ''next'' Pending))],
      w_flight = [(''A'', row_of (pending_db_row 0 (new_row ''next'' Pending)))]\<rparr>"

lemma new_row_simps [simp]:
  "row_id (new_row i s) = i" "tenant_id (new_row i s) = ''t''" "short_code (new_row i s) = Some i"
  "lifecycle_state (new_row i s) = s" "labels (new_row i s) = ''{}''"
  by (simp_all add: new_row_def row_of_def row.truncate_def demo_row_def)

lemma pending_new_row [simp]:
  "lifecycle_state (pending_db_row now (new_row i s)) = s" "short_code (pending_db_row now (new_row i s)) = Some i"
  "locked_at (pending_db_row now (new_row i s)) = None" "reconcile_after (pending_db_row now (new_row i s)) = now"
  "billing_started_at (pending_db_row now (new_row i s)) = None"
  by (simp_all add: pending_db_row_def)

lemma demo_reachable: "reachable (\<lambda>_. 5) demo_world"
proof -
  let ?up = "pending_db_row 0 (new_row ''up'' Running)" and ?next = "pending_db_row 0 (new_row ''next'' Pending)"
  have d: "with_defaults g (new_row i s) = new_row i s" if "i \<noteq> ''''" for g i s
    using that by (simp add: with_defaults_def)
  have "insert_pending_with_limit (\<lambda>_. '''') 0 (new_row ''up'' Running) 5 [] = Inr (row_of ?up, [?up])"
    by (simp add: insert_pending_with_limit_def unlimited_sandbox_limit_def d eval_nat_numeral find_row_def
        used_slots_def insert_pending_query_def get_by_id_def)
  then have "lifecycle_step (\<lambda>_. 5) \<lparr>w_table = [], w_flight = []\<rparr> \<lparr>w_table = [?up], w_flight = []\<rparr>"
    using lifecycle_step.create [of "\<lambda>_. ''''" 0 "new_row ''up'' Running" "\<lambda>_. 5" "\<lparr>w_table = [], w_flight = []\<rparr>"]
    by simp
  then have one: "reachable (\<lambda>_. 5) \<lparr>w_table = [?up], w_flight = []\<rparr>"
    by (rule reachable.step [OF reachable.start])
  have "used_slots ''t'' [?up] = 1" by (simp add: used_slots_def holds_slot_def)
  then have "insert_pending_with_limit (\<lambda>_. '''') 0 (new_row ''next'' Pending) 5 [?up] = Inr (row_of ?next, [?up, ?next])"
    by (simp add: insert_pending_with_limit_def unlimited_sandbox_limit_def d eval_nat_numeral find_row_def
        insert_pending_query_def get_by_id_def)
  then have "lifecycle_step (\<lambda>_. 5) \<lparr>w_table = [?up], w_flight = []\<rparr> \<lparr>w_table = [?up, ?next], w_flight = []\<rparr>"
    using lifecycle_step.create [of "\<lambda>_. ''''" 0 "new_row ''next'' Pending" "\<lambda>_. 5" "\<lparr>w_table = [?up], w_flight = []\<rparr>"]
    by simp
  then have two: "reachable (\<lambda>_. 5) \<lparr>w_table = [?up, ?next], w_flight = []\<rparr>"
    by (rule reachable.step [OF one])
  have "claim_due True 0 ''A'' 4 120 [?up, ?next] = Inr ([row_of ?next], [?up, leased ''A'' 0 ?next])"
    by (simp add: claim_due_def due_def claimable_states_def update_where_def leased_def)
  then have "lifecycle_step (\<lambda>_. 5) \<lparr>w_table = [?up, ?next], w_flight = []\<rparr> demo_world"
    using lifecycle_step.claim [of "''A''" 0 4 120 "\<lparr>w_table = [?up, ?next], w_flight = []\<rparr>" "[row_of ?next]"
      "[?up, leased ''A'' 0 ?next]" "\<lambda>_. 5"]
    by (simp add: demo_world_def)
  then show ?thesis by (rule reachable.step [OF two])
qed


theorem workers_leave_rest_alone_witness:
  "pending_db_row 0 (new_row ''up'' Running) \<in> set (fst (process_row (leader_reconciler ''A'' 6) broken_backend
     no_config 3 (row_of (pending_db_row 0 (new_row ''next'' Pending))) (w_table demo_world, Map.empty)))"
  by (rule workers_leave_rest_alone [OF demo_reachable])
     (simp_all add: demo_world_def claimable_states_def)

text \<open>Recovering a sandbox counts no slot: a tenant at its limit gets one more.\<close>

lemma recover_exceeds_limit:
  defines "tbl \<equiv> [demo_row Running DesireRunning, (demo_row ErrorState DesireRunning)\<lparr>row_id := ''sb2''\<rparr>]"
  shows "compute_slots ''t'' tbl = 1 \<and>
    (\<exists>tbl'. recover 9 ''sb2'' tbl = Inr tbl' \<and> compute_slots ''t'' tbl' = 2)"
  by (simp add: tbl_def compute_slots_def uses_compute_def recover_def update_rules recover_row_def
      recover_state_def)

end
