(* ===== verification/LifecycleRecovery.thy ===== *)
theory LifecycleRecovery
  imports LifecycleConvergence
begin

text \<open>
  Recovery and data: automatic recovery is bounded, a stopped or archived workspace reaches the
  revive that restores it, the idle checker only puts idle running sandboxes to sleep, and the health
  sweeper needs two misses to declare a sandbox dead.
\<close>

section \<open>Automatic recovery is bounded\<close>

text \<open>One recovery tick and then six rounds of the reconciler on a backend that keeps failing.\<close>

definition recovery_cycle ::
  "executor \<Rightarrow> (string \<Rightarrow> string + inst_config) \<Rightarrow> string \<Rightarrow> time \<Rightarrow> table \<times> agents \<Rightarrow> table \<times> agents" where
  "recovery_cycle ex parse L t st =
     rounds (new_reconciler L) ex parse (spaced t 6) (recovery_tick new_recovery_checker True t (fst st), snd st)"

lemma recover_state_converges: "is_convergence_state (recover_state d)"
  by (cases d) (simp_all add: recover_state_def is_convergence_state_def)

lemma recovery_tick_single:
  "recovery_tick rv True t [r] =
     [if recovery_eligible rv t r \<and> 0 < rv_batch_limit rv then auto_recover_row t r else r]"
proof -
  have "recovery_batch rv t [r] = (if recovery_eligible rv t r \<and> 0 < rv_batch_limit rv then [r] else [])"
    by (cases "rv_batch_limit rv"; cases "error_at r") (auto simp: recovery_batch_def Let_def)
  then show ?thesis
    by (auto simp: recovery_tick_def auto_recover_def update_rules recovery_eligible_def split: sum.split)
qed

lemma failure_row_recovery [simp]:
  "recovery_attempts (failure_row now rw e m r) = recovery_attempts r"
  by (simp add: failure_row_def Let_def)

lemma leased_recovery [simp]: "recovery_attempts (leased L t r) = recovery_attempts r"
  by (simp add: leased_def)

lemma round_failing_recovery:
  assumes "failing ex" "is_convergence_state (lifecycle_state r)" "locked_at r = None" "reconcile_after r \<le> now"
  shows "\<exists>e. fst (reconcile_round (new_reconciler L) ex parse now ([r], ag)) =
    [failure_row now (row_of r) e 6 (leased L now r)]"
proof -
  have due: "due now (minutes 2) r"
    using assms(3,4) convergence_claimable(1) [OF assms(2)] by (simp add: due_def)
  from failing_step [OF assms(1), of "row_of r" parse now] assms(2) obtain e
    where e: "Step ex parse now (row_of r) = (row_of r, Some e)" by auto
  have "fst (process_row (new_reconciler L) ex parse now (row_of r) ([leased L now r], ag)) =
      [failure_row now (row_of r) e 6 (leased L now r)]"
    using process_row_table [of "new_reconciler L" ex parse now "row_of r" "([leased L now r], ag)"] e assms(2)
    by (simp add: lease_guard_def new_reconciler_def)
  then show ?thesis unfolding round_due [OF due] by blast
qed

lemma rounds_failing_recovery:
  assumes "failing ex"
  shows "is_convergence_state (lifecycle_state r) \<Longrightarrow> reconcile_attempts r + n = 6 \<Longrightarrow> 0 < n \<Longrightarrow>
    locked_at r = None \<Longrightarrow> reconcile_after r \<le> t \<Longrightarrow>
    \<exists>r'. fst (rounds (new_reconciler L) ex parse (spaced t n) ([r], ag)) = [r'] \<and>
      lifecycle_state r' = ErrorState \<and> desired_state r' = desired_state r \<and>
      recovery_attempts r' = recovery_attempts r"
proof (induction n arbitrary: r t ag)
  case (Suc n)
  from round_failing_recovery [OF assms Suc.prems(1,4,5), of L parse ag] obtain e where
    e: "fst (reconcile_round (new_reconciler L) ex parse t ([r], ag)) = [failure_row t (row_of r) e 6 (leased L t r)]"
    by blast
  then obtain ag' where
    st: "reconcile_round (new_reconciler L) ex parse t ([r], ag) = ([failure_row t (row_of r) e 6 (leased L t r)], ag')"
    by (cases "reconcile_round (new_reconciler L) ex parse t ([r], ag)") auto
  let ?r = "failure_row t (row_of r) e 6 (leased L t r)"
  show ?case
  proof (cases "n = 0")
    case True
    with Suc.prems(2) st show ?thesis by (simp add: rounds_def)
  next
    case False
    with Suc.prems(2) have state: "lifecycle_state ?r = lifecycle_state r" by simp
    have "reconcile_after ?r \<le> t + 15"
      using backoff_loop_closed [of 1 1 "Suc (reconcile_attempts r)"] by (simp add: next_backoff_at_def)
    with Suc.IH [of ?r "t + 15" ag'] Suc.prems(1,2) state False st show ?thesis by (simp add: rounds_def)
  qed
qed simp

lemma recovery_cycle_step:
  assumes "failing ex" "lifecycle_state r = ErrorState"
  shows "\<exists>r'. fst (recovery_cycle ex parse L t ([r], ag)) = [r'] \<and> lifecycle_state r' = ErrorState \<and>
    desired_state r' = desired_state r \<and>
    (if recovery_eligible new_recovery_checker t r
     then recovery_attempts r' = recovery_attempts r + 1 else r' = r)"
proof (cases "recovery_eligible new_recovery_checker t r")
  case True
  let ?r = "auto_recover_row t r"
  have tick: "recovery_tick new_recovery_checker True t [r] = [?r]"
    using True by (simp add: recovery_tick_single new_recovery_checker_def)
  have "is_convergence_state (lifecycle_state ?r)" "reconcile_attempts ?r + 6 = 6" "locked_at ?r = None"
    "reconcile_after ?r \<le> t" "desired_state ?r = desired_state r" "recovery_attempts ?r = recovery_attempts r + 1"
    by (simp_all add: auto_recover_row_def recover_state_converges)
  with rounds_failing_recovery [OF assms(1), of ?r 6 t L parse ag] tick True show ?thesis
    by (auto simp: recovery_cycle_def)
next
  case False
  then have tick: "recovery_tick new_recovery_checker True t [r] = [r]" by (simp add: recovery_tick_single)
  have "lifecycle_state r \<notin> set claimable_states" using assms(2) by (simp add: claimable_states_def)
  then have "rounds (new_reconciler L) ex parse (spaced t 6) ([r], ag) = ([r], ag)" by (rule round_stable)
  with tick False assms(2) show ?thesis by (simp add: recovery_cycle_def)
qed

text \<open>
  automatic recovery gives up. A sandbox in the error state whose backend keeps failing is
  recovered at most five times, whenever the checker looks; it ends in the error state with its
  desired state kept, and once the budget is used up the checker leaves the row as it is.
\<close>

theorem recovery_gives_up:
  assumes "failing ex" "lifecycle_state r = ErrorState" "recovery_attempts r \<le> 5"
  shows "\<exists>r'. fst (fold (recovery_cycle ex parse L) ts ([r], ag)) = [r'] \<and>
    lifecycle_state r' = ErrorState \<and> desired_state r' = desired_state r \<and>
    recovery_attempts r' \<le> 5 \<and> (recovery_attempts r = 5 \<longrightarrow> r' = r)"
  using assms(2,3)
proof (induction ts arbitrary: r ag)
  case (Cons t ts)
  from recovery_cycle_step [OF assms(1) Cons.prems(1), of parse L t ag] obtain r1 where
    r1: "fst (recovery_cycle ex parse L t ([r], ag)) = [r1]" "lifecycle_state r1 = ErrorState"
      "desired_state r1 = desired_state r"
      "if recovery_eligible new_recovery_checker t r then recovery_attempts r1 = recovery_attempts r + 1
       else r1 = r" by blast
  then obtain ag1 where st: "recovery_cycle ex parse L t ([r], ag) = ([r1], ag1)"
    by (cases "recovery_cycle ex parse L t ([r], ag)") auto
  have elig: "recovery_eligible new_recovery_checker t r \<Longrightarrow> recovery_attempts r < 5"
    by (simp add: recovery_eligible_def new_recovery_checker_def)
  with r1(4) Cons.prems(2) have "recovery_attempts r1 \<le> 5" by (auto split: if_splits)
  from Cons.IH [OF r1(2) this, of ag1] obtain r' where
    r': "fst (fold (recovery_cycle ex parse L) ts ([r1], ag1)) = [r']" "lifecycle_state r' = ErrorState"
      "desired_state r' = desired_state r1" "recovery_attempts r' \<le> 5" "recovery_attempts r1 = 5 \<longrightarrow> r' = r1"
    by blast
  have "recovery_attempts r = 5 \<longrightarrow> r' = r"
  proof
    assume five: "recovery_attempts r = 5"
    then have "\<not> recovery_eligible new_recovery_checker t r" using elig by auto
    with r1(4) have "r1 = r" by simp
    with r'(5) five show "r' = r" by simp
  qed
  with r' r1(3) st show ?case by simp
qed simp

theorem recovery_gives_up_witness:
  "\<exists>r'. fst (fold (recovery_cycle broken_backend no_config ''A'') [100, 1000, 100000]
       ([demo_row ErrorState DesireRunning], Map.empty)) = [r'] \<and>
     lifecycle_state r' = ErrorState \<and> recovery_attempts r' \<le> 5"
  using recovery_gives_up [OF failing_broken_backend, of "demo_row ErrorState DesireRunning"] by fastforce

section \<open>Workspaces\<close>

text \<open>One claimable row through one successful round.\<close>

lemma round_to:
  assumes "due now (minutes 2) r" "Step ex parse now (row_of r) = (nxt, None)" "row_id nxt = row_id r"
  shows "\<exists>ag'. reconcile_round (new_reconciler L) ex parse now ([r], ag) =
    ([transition_row now nxt (leased L now r)], ag')"
proof -
  have "fst (process_row (new_reconciler L) ex parse now (row_of r) ([leased L now r], ag)) =
      [transition_row now nxt (leased L now r)]"
    using process_row_table [of "new_reconciler L" ex parse now "row_of r" "([leased L now r], ag)"] assms(2,3)
    by (simp add: lease_guard_def new_reconciler_def)
  with round_due [OF assms(1)] show ?thesis by (metis prod.collapse)
qed

lemma transition_row_refs [simp]:
  "workspace_snapshot_ref (transition_row now nxt r) = workspace_snapshot_ref nxt"
  "workspace_archive_ref (transition_row now nxt r) = workspace_archive_ref nxt"
  by (simp_all add: transition_row_def)

lemma desired_row_refs [simp]:
  "workspace_snapshot_ref (desired_row now d r) = workspace_snapshot_ref r"
  "workspace_archive_ref (desired_row now d r) = workspace_archive_ref r"
  "locked_at (desired_row now d r) = locked_at r" "reconcile_after (desired_row now d r) = now"
  "config (desired_row now d r) = config r" "desired_state (desired_row now d r) = d"
  by (simp_all add: desired_row_def)

lemma due_transitional:
  "lifecycle_state r \<in> set claimable_states \<Longrightarrow> locked_at r = None \<Longrightarrow> reconcile_after r \<le> now \<Longrightarrow>
     due now (minutes 2) r"
  by (simp add: due_def)

lemma stop_round:
  assumes "lifecycle_state r = Stopping" "locked_at r = None" "reconcile_after r \<le> now"
    "execute_stop ex (row_id r) = Inr snap"
  shows "\<exists>r' ag'. reconcile_round (new_reconciler L) ex parse now ([r], ag) = ([r'], ag') \<and> row_id r' = row_id r \<and>
    lifecycle_state r' = Sleeping \<and> locked_at r' = None \<and> null_string (workspace_snapshot_ref r') = snap \<and>
    workspace_archive_ref r' = workspace_archive_ref r"
proof -
  let ?n = "(row_of r)\<lparr>lifecycle_state := Sleeping, status := Stopped, container_id := None,
      workspace_snapshot_ref := nullable snap, reconcile_after := park_until now (days 1)\<rparr>"
  have "Step ex parse now (row_of r) = (?n, None)" using assms(1,4) by (simp add: Step_def step_stopping_def)
  from round_to [OF due_transitional [OF _ assms(2,3)] this, of L ag] assms(1)
  show ?thesis by (auto simp: claimable_states_def)
qed

lemma archive_round:
  assumes "lifecycle_state r = Archiving" "locked_at r = None" "reconcile_after r \<le> now"
    "execute_archive ex (row_id r) (null_string (workspace_snapshot_ref r)) = Inr arch" "arch \<noteq> ''''"
  shows "\<exists>r' ag'. reconcile_round (new_reconciler L) ex parse now ([r], ag) = ([r'], ag') \<and> row_id r' = row_id r \<and>
    lifecycle_state r' = Archived \<and> locked_at r' = None \<and> null_string (workspace_snapshot_ref r') = '''' \<and>
    null_string (workspace_archive_ref r') = arch"
proof -
  let ?n = "(row_of r)\<lparr>lifecycle_state := Archived, status := Archived,
      workspace_archive_ref := nullable arch, workspace_snapshot_ref := None,
      reconcile_after := park_until now (days 30)\<rparr>"
  have "Step ex parse now (row_of r) = (?n, None)"
    using assms(1,4,5) by (simp add: Step_def step_archiving_def Let_def)
  from round_to [OF due_transitional [OF _ assms(2,3)] this, of L ag] assms(1)
  show ?thesis by (auto simp: claimable_states_def)
qed

lemma revive_round:
  assumes "lifecycle_state r = Reviving" "locked_at r = None" "reconcile_after r \<le> now"
    "execute_revive ex (row_id r) (null_string (workspace_snapshot_ref r)) (null_string (workspace_archive_ref r)) = Inr inst"
  shows "\<exists>r' ag'. reconcile_round (new_reconciler L) ex parse now ([r], ag) = ([r'], ag') \<and>
    lifecycle_state r' = Running \<and> workspace_snapshot_ref r' = None \<and> workspace_archive_ref r' = None"
proof -
  let ?n = "(with_instance ((row_of r)\<lparr>lifecycle_state := Running, status := Running\<rparr>) inst)
      \<lparr>workspace_snapshot_ref := None, workspace_archive_ref := None, reconcile_after := park_until now (days 1)\<rparr>"
  have "Step ex parse now (row_of r) = (?n, None)" using assms(1,4) by (simp add: Step_def step_reviving_def)
  from round_to [OF due_transitional [OF _ assms(2,3)] this, of L ag] assms(1)
  show ?thesis by (auto simp: claimable_states_def)
qed

text \<open>The user's verb on the only row.\<close>

definition verb :: "time \<Rightarrow> desire \<Rightarrow> table \<times> agents \<Rightarrow> table \<times> agents" where
  "verb t d st = (map (desired_row t d) (fst st), snd st)"

text \<open>
  stopping preserves the workspace. A running sandbox that is stopped and then revived hands
  the revive exactly the snapshot the stop took; archived in between, it hands over the archive made
  of that snapshot. The backend need not accept any other reference.
\<close>

theorem workspace_survives:
  assumes "lifecycle_state r = Running" "locked_at r = None"
    "workspace_snapshot_ref r = None" "workspace_archive_ref r = None"
    "execute_stop ex (row_id r) = Inr snap" "execute_archive ex (row_id r) snap = Inr arch" "arch \<noteq> ''''"
    "execute_revive ex (row_id r) snap '''' = Inr inst" "execute_revive ex (row_id r) '''' arch = Inr inst'"
  shows "(\<exists>r'. fst (reconcile_round (new_reconciler L) ex parse t2 (verb t2 DesireRunning
        (reconcile_round (new_reconciler L) ex parse t1 (verb t1 DesireSleeping ([r], ag))))) = [r'] \<and>
      lifecycle_state r' = Running) \<and>
    (\<exists>r'. fst (reconcile_round (new_reconciler L) ex parse t3 (verb t3 DesireRunning
        (reconcile_round (new_reconciler L) ex parse t2 (verb t2 DesireArchived
          (reconcile_round (new_reconciler L) ex parse t1 (verb t1 DesireSleeping ([r], ag))))))) = [r'] \<and>
      lifecycle_state r' = Running)"
proof -
  let ?r0 = "desired_row t1 DesireSleeping r"
  have r0: "lifecycle_state ?r0 = Stopping" "locked_at ?r0 = None" "reconcile_after ?r0 \<le> t1" "row_id ?r0 = row_id r"
    "workspace_archive_ref ?r0 = None"
    using assms(1,2,4) by (simp_all add: desired_row_def desired_case_def)
  from stop_round [OF r0(1-3), of ex snap L parse ag] assms(5) r0(4,5) obtain r1 ag1 where
    r1: "reconcile_round (new_reconciler L) ex parse t1 ([?r0], ag) = ([r1], ag1)" "row_id r1 = row_id r"
      "lifecycle_state r1 = Sleeping" "locked_at r1 = None" "null_string (workspace_snapshot_ref r1) = snap"
      "workspace_archive_ref r1 = None" by auto
  let ?v = "desired_row t2 DesireRunning r1"
  have v: "lifecycle_state ?v = Reviving" "locked_at ?v = None" "row_id ?v = row_id r"
    using r1(2-4) by (simp_all add: desired_row_def desired_case_def)
  have "execute_revive ex (row_id ?v) (null_string (workspace_snapshot_ref ?v)) (null_string (workspace_archive_ref ?v)) = Inr inst"
    using r1(2,5,6) v(3) assms(8) by simp
  from revive_round [OF v(1,2) _ this, of t2 L parse ag1] obtain r2 ag2 where
    "reconcile_round (new_reconciler L) ex parse t2 ([?v], ag1) = ([r2], ag2)" "lifecycle_state r2 = Running" by auto
  with r1(1) have first: "\<exists>r'. fst (reconcile_round (new_reconciler L) ex parse t2 (verb t2 DesireRunning
        (reconcile_round (new_reconciler L) ex parse t1 (verb t1 DesireSleeping ([r], ag))))) = [r'] \<and>
      lifecycle_state r' = Running"
    by (simp add: verb_def)
  let ?a = "desired_row t2 DesireArchived r1"
  have a: "lifecycle_state ?a = Archiving" "locked_at ?a = None" "reconcile_after ?a \<le> t2" "row_id ?a = row_id r"
    using r1(2-4) by (simp_all add: desired_row_def desired_case_def)
  from archive_round [OF a(1-3) _ assms(7), of ex L parse ag1] a(4) assms(6) r1(5) obtain r3 ag3 where
    r3: "reconcile_round (new_reconciler L) ex parse t2 ([?a], ag1) = ([r3], ag3)" "row_id r3 = row_id r"
      "lifecycle_state r3 = Archived" "locked_at r3 = None" "null_string (workspace_snapshot_ref r3) = ''''"
      "null_string (workspace_archive_ref r3) = arch" by auto
  let ?w = "desired_row t3 DesireRunning r3"
  have w: "lifecycle_state ?w = Reviving" "locked_at ?w = None" "row_id ?w = row_id r"
    using r3(2-4) by (simp_all add: desired_row_def desired_case_def)
  have "execute_revive ex (row_id ?w) (null_string (workspace_snapshot_ref ?w)) (null_string (workspace_archive_ref ?w)) = Inr inst'"
    using r3(2,5,6) w(3) assms(9) by simp
  from revive_round [OF w(1,2) _ this, of t3 L parse ag3] obtain r4 ag4 where
    "reconcile_round (new_reconciler L) ex parse t3 ([?w], ag3) = ([r4], ag4)" "lifecycle_state r4 = Running" by auto
  with r1(1) r3(1) have "\<exists>r'. fst (reconcile_round (new_reconciler L) ex parse t3 (verb t3 DesireRunning
        (reconcile_round (new_reconciler L) ex parse t2 (verb t2 DesireArchived
          (reconcile_round (new_reconciler L) ex parse t1 (verb t1 DesireSleeping ([r], ag))))))) = [r'] \<and>
      lifecycle_state r' = Running"
    by (simp add: verb_def)
  with first show ?thesis by blast
qed

text \<open>A backend that restores only what it saved.\<close>

definition strict_backend :: executor where
  "strict_backend = healthy_backend\<lparr>execute_revive := (\<lambda>_ s a.
     if (s = ''snap'' \<and> a = '''') \<or> (s = '''' \<and> a = ''arch'') then Inr None else Inl ''no such workspace'')\<rparr>"

theorem workspace_survives_witness:
  "\<exists>r'. fst (reconcile_round (new_reconciler ''A'') strict_backend no_config 30 (verb 30 DesireRunning
        (reconcile_round (new_reconciler ''A'') strict_backend no_config 20 (verb 20 DesireArchived
          (reconcile_round (new_reconciler ''A'') strict_backend no_config 10 (verb 10 DesireSleeping
            ([demo_row Running DesireRunning], Map.empty))))))) = [r'] \<and> lifecycle_state r' = Running"
proof -
  have "execute_stop strict_backend ''sb'' = Inr ''snap''" "execute_archive strict_backend ''sb'' ''snap'' = Inr ''arch''"
    "execute_revive strict_backend ''sb'' ''snap'' '''' = Inr None"
    "execute_revive strict_backend ''sb'' '''' ''arch'' = Inr None"
    by (simp_all add: strict_backend_def healthy_backend_def)
  then show ?thesis
    using workspace_survives [of "demo_row Running DesireRunning" strict_backend "''snap''" "''arch''" None None] by simp
qed

section \<open>The health sweeper\<close>

lemma sweep_row_keeps:
  assumes "r \<in> set (snd (sweep_row ex closer now i (sw, tbl)))"
  shows "r \<in> set tbl \<or> (\<exists>r0 \<in> set tbl. row_id r0 = i \<and> row_id r = i \<and> lifecycle_state r0 = Running \<and>
    lifecycle_state r = ErrorState \<and> (\<exists>e. backend_status ex i = Some e \<and> is_not_found_err e) \<and>
    (\<exists>t. sw_suspects sw i = Some t \<and> sw_confirm_after sw \<le> now - t))"
  using assms
  by (auto simp: sweep_row_def mark_error_def update_rules Let_def split: option.splits if_splits sum.splits)

lemma sweep_row_suspects:
  "i' \<noteq> i \<Longrightarrow> sw_suspects (fst (sweep_row ex closer now i (sw, tbl))) i' = sw_suspects sw i'"
  "sw_confirm_after (fst (sweep_row ex closer now i (sw, tbl))) = sw_confirm_after sw"
  by (auto simp: sweep_row_def Let_def split: option.splits sum.splits)

lemma sweep_keeps:
  assumes "distinct ids" "r \<in> set (snd (fold (sweep_row ex closer now) ids (sw, tbl)))"
  shows "r \<in> set tbl \<or> (\<exists>r0 \<in> set tbl. row_id r = row_id r0 \<and> row_id r0 \<in> set ids \<and>
    lifecycle_state r0 = Running \<and> lifecycle_state r = ErrorState \<and>
    (\<exists>e. backend_status ex (row_id r0) = Some e \<and> is_not_found_err e) \<and>
    (\<exists>t. sw_suspects sw (row_id r0) = Some t \<and> sw_confirm_after sw \<le> now - t))"
  using assms
proof (induction ids arbitrary: sw tbl)
  case (Cons i ids)
  obtain sw1 tbl1 where st: "sweep_row ex closer now i (sw, tbl) = (sw1, tbl1)" by force
  with Cons.prems(2) have "r \<in> set (snd (fold (sweep_row ex closer now) ids (sw1, tbl1)))" by simp
  moreover have "distinct ids" using Cons.prems(1) by simp
  ultimately consider "r \<in> set tbl1"
    | r0 where "r0 \<in> set tbl1" "row_id r = row_id r0" "row_id r0 \<in> set ids" "lifecycle_state r0 = Running"
      "lifecycle_state r = ErrorState" "\<exists>e. backend_status ex (row_id r0) = Some e \<and> is_not_found_err e"
      "\<exists>t. sw_suspects sw1 (row_id r0) = Some t \<and> sw_confirm_after sw1 \<le> now - t"
    using Cons.IH [of sw1 tbl1] by blast
  then show ?case
  proof cases
    case 1
    with sweep_row_keeps [of r ex closer now i sw tbl] st show ?thesis by auto
  next
    case 2
    have "r0 \<in> set tbl"
      using sweep_row_keeps [of r0 ex closer now i sw tbl] st 2(1,4) by auto
    moreover have "row_id r0 \<noteq> i" using 2(3) Cons.prems(1) by auto
    ultimately show ?thesis
      using 2 sweep_row_suspects(1) [of "row_id r0" i ex closer now sw tbl]
        sweep_row_suspects(2) [of ex closer now i sw tbl] st by auto
  qed
qed simp

lemma sweep_ids_running:
  "i \<in> set (sweep_ids n tbl) \<Longrightarrow> \<exists>r \<in> set tbl. row_id r = i \<and> lifecycle_state r = Running \<and> desired_state r = DesireRunning"
  by (auto simp: sweep_ids_def dest!: in_set_takeD)

lemma sweep_ids_distinct: "distinct (map row_id tbl) \<Longrightarrow> distinct (sweep_ids n tbl)"
  by (simp add: sweep_ids_def take_map [symmetric] distinct_map inj_on_def)

text \<open>
  two strikes. A sweep declares dead only sandboxes that were already suspects when it began,
  first missed at least the confirmation delay before, whose backend again denies having them, and
  that were running and wanted running; every other row it leaves alone.
\<close>

theorem two_strikes:
  assumes "distinct (map row_id tbl)" "r \<in> set (snd (sweeper_tick ex closer True now (sw, tbl)))" "r \<notin> set tbl"
  shows "\<exists>r0 \<in> set tbl. row_id r = row_id r0 \<and> lifecycle_state r0 = Running \<and> desired_state r0 = DesireRunning \<and>
    lifecycle_state r = ErrorState \<and> (\<exists>e. backend_status ex (row_id r0) = Some e \<and> is_not_found_err e) \<and>
    (\<exists>t. sw_suspects sw (row_id r0) = Some t \<and> sw_confirm_after sw \<le> now - t)"
proof -
  let ?ids = "sweep_ids (sw_batch_limit sw) tbl"
  have "r \<in> set (snd (fold (sweep_row ex closer now) ?ids (sw, tbl)))"
    using assms(2) by (simp add: sweeper_tick_def Let_def split: prod.splits)
  from sweep_keeps [OF sweep_ids_distinct [OF assms(1)] this] assms(3) obtain r0 where
    r0: "r0 \<in> set tbl" "row_id r = row_id r0" "row_id r0 \<in> set ?ids" "lifecycle_state r0 = Running"
      "lifecycle_state r = ErrorState" "\<exists>e. backend_status ex (row_id r0) = Some e \<and> is_not_found_err e"
      "\<exists>t. sw_suspects sw (row_id r0) = Some t \<and> sw_confirm_after sw \<le> now - t" by blast
  from sweep_ids_running [OF r0(3)] obtain q where "q \<in> set tbl" "row_id q = row_id r0" "desired_state q = DesireRunning"
    by blast
  with r0(1) assms(1) have "desired_state r0 = DesireRunning"
    by (metis distinct_map inj_onD)
  with r0 show ?thesis by blast
qed

definition suspecting :: sweeper where
  "suspecting = new_health_sweeper\<lparr>sw_suspects := [''sb'' \<mapsto> 0]\<rparr>"

lemma broken_is_missing: "is_not_found_err ''VM not found''"
  by (simp add: is_not_found_err_def contains_any_def go_contains_def has_prefix_def)

theorem two_strikes_witness:
  "\<exists>r \<in> set (snd (sweeper_tick broken_backend None True 30 (suspecting, [demo_row Running DesireRunning]))).
     lifecycle_state r = ErrorState \<and>
     (\<exists>t. sw_suspects suspecting ''sb'' = Some t \<and> sw_confirm_after suspecting \<le> 30 - t)"
proof -
  let ?tbl = "[demo_row Running DesireRunning]"
  obtain r where r: "snd (sweeper_tick broken_backend None True 30 (suspecting, ?tbl)) = [r]"
    "lifecycle_state r = ErrorState"
    by (simp add: sweeper_tick_def sweep_ids_def suspecting_def new_health_sweeper_def sweep_row_def
        broken_backend_def broken_is_missing mark_error_def update_or_def update_where_def Let_def)
  have "r \<notin> set ?tbl" using r(2) by auto
  from two_strikes [of ?tbl r broken_backend None 30 suspecting, OF _ _ this] r show ?thesis by auto
qed

text \<open>
  The sweep orders running rows by their last update and takes the first 200; probing a healthy
  sandbox updates nothing, so with more than that the same 200 are probed for ever.
\<close>

lemma sweep_healthy_same:
  assumes "\<forall>i. backend_status ex i = None"
  shows "snd (sweeper_tick ex closer True now (sw, tbl)) = tbl"
proof -
  have "snd (fold (sweep_row ex closer now) ids (sw, tbl)) = tbl" for ids
    by (induction ids arbitrary: sw) (simp_all add: sweep_row_def assms)
  then show ?thesis by (simp add: sweeper_tick_def Let_def split: prod.split) (metis snd_conv)
qed

end
