(* ===== verification/GoValue.thy ===== *)
theory GoValue
  imports Prelude Complex_Main
begin

text \<open>
  Go's dynamic values (\<open>interface{}\<close>, \<open>map[string]interface{}\<close>) as the workflow engine and
  the agent policies read them, with the type assertions \<open>v.(T)\<close> as options, and the
  decimal rendering of integers that \<open>%d\<close> gives.
\<close>

section \<open>Values\<close>

text \<open>
  \<open>GoOther\<close> stands for a value of any other Go type, told apart by a number. A finite
  \<open>float64\<close> is the rational it denotes. A map is an association list, its first entry for
  a key the one that counts.
\<close>

datatype goval =
    GoNil
  | GoBool bool
  | GoInt int
  | GoFloat rat
  | GoStr string
  | GoBytes string
  | GoList "goval list"
  | GoMap "(string \<times> goval) list"
  | GoOther nat

type_synonym gomap = "string \<rightharpoonup> goval"

fun as_string :: "goval \<Rightarrow> string option" where
  "as_string (GoStr s) = Some s"
| "as_string _ = None"

fun as_bool :: "goval \<Rightarrow> bool option" where
  "as_bool (GoBool b) = Some b"
| "as_bool _ = None"

fun as_float :: "goval \<Rightarrow> rat option" where
  "as_float (GoFloat f) = Some f"
| "as_float _ = None"

fun as_list :: "goval \<Rightarrow> goval list option" where
  "as_list (GoList vs) = Some vs"
| "as_list _ = None"

fun as_map :: "goval \<Rightarrow> (string \<times> goval) list option" where
  "as_map (GoMap m) = Some m"
| "as_map _ = None"

text \<open>The strings among the items of a slice, the loop both packages write out.\<close>

definition strings_of :: "goval list \<Rightarrow> string list" where
  "strings_of vs = List.map_filter as_string vs"

lemma strings_of_simps [simp]:
  "strings_of [] = []"
  "strings_of (v # vs) = (case as_string v of Some s \<Rightarrow> s # strings_of vs | None \<Rightarrow> strings_of vs)"
  by (simp_all add: strings_of_def map_filter_simps split: option.splits)

lemma set_strings_of: "set (strings_of vs) = {s. GoStr s \<in> set vs}"
proof (induction vs)
  case (Cons v vs)
  then show ?case by (cases v) auto
qed simp

text \<open>
  \<open>int(f)\<close>, \<open>int32(f)\<close>, \<open>int64(f)\<close> drop the fraction; outside the range of the type the
  result is the implementation's choice, the argument \<open>ovf\<close>.
\<close>

definition truncate_float :: "rat \<Rightarrow> int" where
  "truncate_float f = (if f < 0 then \<lceil>f\<rceil> else \<lfloor>f\<rfloor>)"

definition float_to_int :: "nat \<Rightarrow> (rat \<Rightarrow> int) \<Rightarrow> rat \<Rightarrow> int" where
  "float_to_int w ovf f =
     (let i = truncate_float f
      in if - (2 ^ (w - 1)) \<le> i \<and> i < 2 ^ (w - 1) then i else ovf f)"

section \<open>Decimal rendering\<close>

fun decimal_nat :: "nat \<Rightarrow> string" where
  "decimal_nat n =
     (if n < 10 then [char_of (48 + n)]
      else decimal_nat (n div 10) @ [char_of (48 + n mod 10)])"

declare decimal_nat.simps [simp del]

definition decimal :: "int \<Rightarrow> string" where
  "decimal i = (if i < 0 then CHR ''-'' # decimal_nat (nat (- i)) else decimal_nat (nat i))"

text \<open>Its inverse, to show that distinct numbers are printed differently.\<close>

definition digits_value :: "string \<Rightarrow> nat" where
  "digits_value s = foldl (\<lambda>a c. 10 * a + (of_char c - 48)) 0 s"

lemma digits_value_snoc: "digits_value (s @ [c]) = 10 * digits_value s + (of_char c - 48)"
  by (simp add: digits_value_def)

lemma digits_value_decimal: "digits_value (decimal_nat n) = n"
proof (induction n rule: decimal_nat.induct)
  case (1 n)
  have digit: "of_char (char_of (48 + k) :: char) - 48 = k" if "k < 10" for k :: nat
    using that by simp
  show ?case
  proof (cases "n < 10")
    case True
    have "decimal_nat n = [] @ [char_of (48 + n)]" using True by (simp add: decimal_nat.simps)
    then show ?thesis using digit [OF True] digits_value_snoc [of "[]"]
      by (simp add: digits_value_def)
  next
    case False
    then have "decimal_nat n = decimal_nat (n div 10) @ [char_of (48 + n mod 10)]"
      by (subst decimal_nat.simps) simp
    with 1 [OF False] digit [of "n mod 10"] show ?thesis
      by (simp add: digits_value_snoc)
  qed
qed

lemma decimal_nat_inject: "decimal_nat m = decimal_nat n \<longleftrightarrow> m = n"
  by (metis digits_value_decimal)

lemma decimal_nat_digits: "c \<in> set (decimal_nat n) \<Longrightarrow> \<exists>k < 10. c = char_of (48 + k :: nat)"
proof (induction n rule: decimal_nat.induct)
  case (1 n)
  show ?case
  proof (cases "n < 10")
    case True
    with "1.prems" show ?thesis by (subst (asm) decimal_nat.simps) auto
  next
    case False
    with "1.prems" have "c \<in> set (decimal_nat (n div 10)) \<or> c = char_of (48 + n mod 10)"
      by (subst (asm) decimal_nat.simps) auto
    with 1 False show ?thesis by (metis mod_less_divisor zero_less_numeral)
  qed
qed

section \<open>Splitting\<close>

text \<open>\<open>strings.Split\<close> at one byte.\<close>

fun split_byte :: "char \<Rightarrow> string \<Rightarrow> string list" where
  "split_byte c [] = [[]]"
| "split_byte c (x # xs) =
     (if x = c then [] # split_byte c xs
      else case split_byte c xs of [] \<Rightarrow> [[x]] | w # ws \<Rightarrow> (x # w) # ws)"

lemma split_byte_nonempty [simp]: "split_byte c s \<noteq> []"
  by (induction s) (auto split: list.splits)

lemma split_byte_append:
  "split_byte c (s @ t) =
     butlast (split_byte c s) @ (last (split_byte c s) @ hd (split_byte c t)) # tl (split_byte c t)"
proof (induction s)
  case Nil
  then show ?case by (cases "split_byte c t") auto
next
  case (Cons x s)
  show ?case
  proof (cases "split_byte c s")
    case Nil
    then show ?thesis by simp
  next
    case (Cons w ws)
    with Cons.IH show ?thesis by (cases ws) auto
  qed
qed

lemma split_byte_absent: "c \<notin> set s \<Longrightarrow> split_byte c s = [s]"
  by (induction s) auto

lemma split_byte_parts: "w \<in> set (split_byte c s) \<Longrightarrow> c \<notin> set w"
proof (induction s arbitrary: w)
  case (Cons x s)
  then show ?case by (cases "split_byte c s") (auto split: if_splits)
qed simp

section \<open>\<open>strings.TrimSpace\<close>\<close>

text \<open>The UTF-8 encodings of the characters Unicode counts as white space.\<close>

definition white_space :: "string list" where
  "white_space =
     [[CHR 0x09], [CHR 0x0A], [CHR 0x0B], [CHR 0x0C], [CHR 0x0D], [CHR 0x20],
      [CHR 0xC2, CHR 0x85], [CHR 0xC2, CHR 0xA0], [CHR 0xE1, CHR 0x9A, CHR 0x80],
      [CHR 0xE2, CHR 0x80, CHR 0x80], [CHR 0xE2, CHR 0x80, CHR 0x81], [CHR 0xE2, CHR 0x80, CHR 0x82],
      [CHR 0xE2, CHR 0x80, CHR 0x83], [CHR 0xE2, CHR 0x80, CHR 0x84], [CHR 0xE2, CHR 0x80, CHR 0x85],
      [CHR 0xE2, CHR 0x80, CHR 0x86], [CHR 0xE2, CHR 0x80, CHR 0x87], [CHR 0xE2, CHR 0x80, CHR 0x88],
      [CHR 0xE2, CHR 0x80, CHR 0x89], [CHR 0xE2, CHR 0x80, CHR 0x8A], [CHR 0xE2, CHR 0x80, CHR 0xA8],
      [CHR 0xE2, CHR 0x80, CHR 0xA9], [CHR 0xE2, CHR 0x80, CHR 0xAF], [CHR 0xE2, CHR 0x81, CHR 0x9F],
      [CHR 0xE3, CHR 0x80, CHR 0x80]]"

lemma white_space_nonempty: "find P white_space = Some w \<Longrightarrow> w \<noteq> []"
proof -
  have "\<forall>w \<in> set white_space. w \<noteq> []" by (simp add: white_space_def)
  moreover assume "find P white_space = Some w"
  ultimately show ?thesis by (auto simp: find_Some_iff)
qed

function trim_left :: "string \<Rightarrow> string" where
  "trim_left s =
     (case find (\<lambda>w. has_prefix s w) white_space of
        None \<Rightarrow> s
      | Some w \<Rightarrow> trim_left (drop (length w) s))"
  by pat_completeness auto

termination
proof (relation "measure length", goal_cases)
  case (2 s w)
  from white_space_nonempty [OF 2] have "w \<noteq> []" .
  moreover from 2 have "has_prefix s w" by (auto simp: find_Some_iff)
  ultimately show ?case by (auto simp: has_prefix_iff)
qed simp

declare trim_left.simps [simp del]

function trim_right :: "string \<Rightarrow> string" where
  "trim_right s =
     (case find (\<lambda>w. suffix w s) white_space of
        None \<Rightarrow> s
      | Some w \<Rightarrow> trim_right (take (length s - length w) s))"
  by pat_completeness auto

termination
proof (relation "measure length", goal_cases)
  case (2 s w)
  from white_space_nonempty [OF 2] have "w \<noteq> []" .
  moreover from 2 have "suffix w s" by (auto simp: find_Some_iff)
  ultimately show ?case by (auto simp: suffix_def)
qed simp

declare trim_right.simps [simp del]

definition TrimSpace :: "string \<Rightarrow> string" where
  "TrimSpace s = trim_right (trim_left s)"

end
