(* ===== verification/WorkflowGraph.thy ===== *)
theory WorkflowGraph
  imports GoValue "HOL-Library.AList"
begin

text \<open>
  The workflow graph: \<open>src/internal/workflows/engine/graph.go\<close>. The map \<open>Graph.Nodes\<close> is an
  association list keyed by node id; a node holds its own edge lists, as the code's
  \<open>GraphNode\<close> does. \<open>BuildGraph\<close> takes the decoder of each JSON array as an argument
  (\<open>json.Unmarshal\<close> into \<open>[]rawNode\<close> and \<open>[]rawEdge\<close>), \<open>None\<close> being its error.
\<close>

section \<open>Data\<close>

record graph_edge =
  edge_id :: string
  edge_source :: string
  edge_target :: string
  source_handle :: string
  target_handle :: string

record graph_node =
  node_id :: string
  node_type :: string
  node_label :: string
  node_config :: "gomap option"
  out_edges :: "graph_edge list"
  in_edges :: "graph_edge list"

record graph =
  graph_nodes :: "(string \<times> graph_node) list"
  graph_edges :: "graph_edge list"
  start_id :: string

record raw_node =
  rn_id :: string
  rn_type :: string
  rn_label :: string
  rn_config :: "gomap option"

record raw_edge =
  re_id :: string
  re_source :: string
  re_target :: string
  re_source_handle :: string
  re_target_handle :: string

section \<open>Configuration\<close>

definition config_value :: "graph_node \<Rightarrow> string \<Rightarrow> goval option" where
  "config_value n key = (case node_config n of None \<Rightarrow> None | Some c \<Rightarrow> c key)"

definition GetConfigString :: "graph_node \<Rightarrow> string \<Rightarrow> string" where
  "GetConfigString n key =
     (case config_value n key of
        None \<Rightarrow> ''''
      | Some v \<Rightarrow> (case as_string v of None \<Rightarrow> '''' | Some s \<Rightarrow> s))"

definition GetConfigBool :: "graph_node \<Rightarrow> string \<Rightarrow> bool" where
  "GetConfigBool n key =
     (case config_value n key of
        None \<Rightarrow> False
      | Some v \<Rightarrow> (case as_bool v of None \<Rightarrow> False | Some b \<Rightarrow> b))"

definition GetConfigStringSlice :: "graph_node \<Rightarrow> string \<Rightarrow> string list" where
  "GetConfigStringSlice n key =
     (case config_value n key of
        None \<Rightarrow> []
      | Some v \<Rightarrow> (case as_list v of None \<Rightarrow> [] | Some vs \<Rightarrow> strings_of vs))"

section \<open>Building the graph\<close>

datatype build_error =
    NodesUnreadable
  | EdgesUnreadable
  | MultipleStarts string string
  | NoStartNode
  | NoResponseNode

definition node_of :: "raw_node \<Rightarrow> graph_node" where
  "node_of rn = \<lparr>node_id = rn_id rn, node_type = rn_type rn, node_label = rn_label rn,
     node_config = rn_config rn, out_edges = [], in_edges = []\<rparr>"

definition edge_of :: "raw_edge \<Rightarrow> graph_edge" where
  "edge_of re = \<lparr>edge_id = re_id re, edge_source = re_source re, edge_target = re_target re,
     source_handle = re_source_handle re, target_handle = re_target_handle re\<rparr>"

fun build_nodes :: "raw_node list \<Rightarrow> graph \<Rightarrow> build_error + graph" where
  "build_nodes [] g = Inr g"
| "build_nodes (rn # rns) g =
     (let g1 = g\<lparr>graph_nodes := AList.update (rn_id rn) (node_of rn) (graph_nodes g)\<rparr>
      in if rn_type rn = ''start''
         then if start_id g1 \<noteq> '''' then Inl (MultipleStarts (start_id g1) (rn_id rn))
              else build_nodes rns (g1\<lparr>start_id := rn_id rn\<rparr>)
         else build_nodes rns g1)"

definition update_node :: "string \<Rightarrow> (graph_node \<Rightarrow> graph_node) \<Rightarrow> graph \<Rightarrow> graph" where
  "update_node k f g =
     (case map_of (graph_nodes g) k of
        None \<Rightarrow> g
      | Some n \<Rightarrow> g\<lparr>graph_nodes := AList.update k (f n) (graph_nodes g)\<rparr>)"

definition add_edge :: "raw_edge \<Rightarrow> graph \<Rightarrow> graph" where
  "add_edge re g =
     (let e = edge_of re;
          g1 = g\<lparr>graph_edges := graph_edges g @ [e]\<rparr>;
          g2 = update_node (re_source re) (\<lambda>n. n\<lparr>out_edges := out_edges n @ [e]\<rparr>) g1
      in update_node (re_target re) (\<lambda>n. n\<lparr>in_edges := in_edges n @ [e]\<rparr>) g2)"

definition has_response :: "graph \<Rightarrow> bool" where
  "has_response g \<longleftrightarrow> (\<exists>(k, n) \<in> set (graph_nodes g). node_type n = ''response'')"

definition empty_graph :: graph where
  "empty_graph = \<lparr>graph_nodes = [], graph_edges = [], start_id = ''''\<rparr>"

definition BuildGraph ::
  "('b \<Rightarrow> raw_node list option) \<Rightarrow> ('b \<Rightarrow> raw_edge list option) \<Rightarrow> 'b \<Rightarrow> 'b \<Rightarrow> build_error + graph"
where
  "BuildGraph unmarshal_nodes unmarshal_edges nodesJSON edgesJSON =
     (case unmarshal_nodes nodesJSON of
        None \<Rightarrow> Inl NodesUnreadable
      | Some rawNodes \<Rightarrow>
     (case unmarshal_edges edgesJSON of
        None \<Rightarrow> Inl EdgesUnreadable
      | Some rawEdges \<Rightarrow>
     (case build_nodes rawNodes empty_graph of
        Inl err \<Rightarrow> Inl err
      | Inr g \<Rightarrow>
          if start_id g = '''' then Inl NoStartNode
          else let g' = fold add_edge rawEdges g
               in if has_response g' then Inr g' else Inl NoResponseNode)))"

section \<open>Following an edge\<close>

definition handle_matches :: "graph_edge \<Rightarrow> string \<Rightarrow> bool" where
  "handle_matches e handle \<longleftrightarrow>
     source_handle e = handle \<or> (source_handle e = '''' \<and> handle = ''out'')"

fun first_target :: "(string \<times> graph_node) list \<Rightarrow> string \<Rightarrow> graph_edge list \<Rightarrow> graph_node option" where
  "first_target ns handle [] = None"
| "first_target ns handle (e # es) =
     (if handle_matches e handle
      then case map_of ns (edge_target e) of
             Some n \<Rightarrow> Some n
           | None \<Rightarrow> first_target ns handle es
      else first_target ns handle es)"

definition ResolveNextNode :: "graph \<Rightarrow> string \<Rightarrow> string \<Rightarrow> graph_node option" where
  "ResolveNextNode g current handle =
     (case map_of (graph_nodes g) current of
        None \<Rightarrow> None
      | Some n \<Rightarrow> first_target (graph_nodes g) handle (out_edges n))"

lemma first_target_SomeD:
  "first_target ns handle es = Some n \<Longrightarrow>
     \<exists>e \<in> set es. handle_matches e handle \<and> map_of ns (edge_target e) = Some n"
  by (induction es) (auto split: if_splits option.splits)

lemma first_target_None:
  "first_target ns handle es = None \<longleftrightarrow>
     (\<forall>e \<in> set es. handle_matches e handle \<longrightarrow> map_of ns (edge_target e) = None)"
  by (induction es) (auto split: option.splits)

lemma ResolveNextNode_SomeD:
  assumes "ResolveNextNode g current handle = Some n"
  obtains m e where "map_of (graph_nodes g) current = Some m" "e \<in> set (out_edges m)"
    "handle_matches e handle" "map_of (graph_nodes g) (edge_target e) = Some n"
proof -
  from assms obtain m where m: "map_of (graph_nodes g) current = Some m"
    and "first_target (graph_nodes g) handle (out_edges m) = Some n"
    unfolding ResolveNextNode_def by (auto split: option.splits)
  from first_target_SomeD [OF this(2)] m that show thesis by blast
qed

section \<open>What the builder guarantees\<close>

text \<open>Every node is stored under its own id.\<close>

definition keyed :: "graph \<Rightarrow> bool" where
  "keyed g \<longleftrightarrow> (\<forall>k n. map_of (graph_nodes g) k = Some n \<longrightarrow> node_id n = k)"

text \<open>The last declaration of an id is the one that counts.\<close>

definition declared :: "raw_node list \<Rightarrow> string \<Rightarrow> raw_node option" where
  "declared rns k = map_of (map (\<lambda>rn. (rn_id rn, rn)) (rev rns)) k"

lemma declared_snoc: "declared (rns @ [rn]) k = (if rn_id rn = k then Some rn else declared rns k)"
  by (simp add: declared_def)

lemma declared_Cons:
  "declared (rn # rns) k =
     (case declared rns k of Some r \<Rightarrow> Some r | None \<Rightarrow> if rn_id rn = k then Some rn else None)"
  by (auto simp: declared_def map_add_def split: option.splits)

lemma declared_in: "declared rns k = Some rn \<Longrightarrow> rn \<in> set rns \<and> rn_id rn = k"
  by (auto simp: declared_def dest!: map_of_SomeD)

definition starts :: "raw_node list \<Rightarrow> string list" where
  "starts rns = map rn_id (filter (\<lambda>rn. rn_type rn = ''start'') rns)"

lemma build_nodes_InrD:
  "build_nodes rns g = Inr g' \<Longrightarrow>
     graph_edges g' = graph_edges g \<and>
     (\<forall>k. map_of (graph_nodes g') k =
        (case declared rns k of Some rn \<Rightarrow> Some (node_of rn) | None \<Rightarrow> map_of (graph_nodes g) k))"
proof (induction rns arbitrary: g)
  case Nil
  then show ?case by (simp add: declared_def)
next
  case (Cons rn rns)
  let ?g1 = "g\<lparr>graph_nodes := AList.update (rn_id rn) (node_of rn) (graph_nodes g)\<rparr>"
  from Cons.prems have "build_nodes rns ?g1 = Inr g' \<or>
      build_nodes rns (?g1\<lparr>start_id := rn_id rn\<rparr>) = Inr g'"
    by (simp add: Let_def split: if_splits)
  then show ?case
  proof
    assume "build_nodes rns ?g1 = Inr g'"
    from Cons.IH [OF this] show ?thesis
      by (auto simp: declared_Cons update_conv' split: option.splits)
  next
    assume "build_nodes rns (?g1\<lparr>start_id := rn_id rn\<rparr>) = Inr g'"
    from Cons.IH [OF this] show ?thesis
      by (auto simp: declared_Cons update_conv' split: option.splits)
  qed
qed

lemma build_nodes_start:
  "build_nodes rns g = Inr g' \<Longrightarrow>
     start_id g' = (if starts rns = [] then start_id g else last (starts rns)) \<and>
     (\<forall>s \<in> set (butlast (starts rns)). s = '''') \<and> (starts rns \<noteq> [] \<longrightarrow> start_id g = '''')"
proof (induction rns arbitrary: g)
  case Nil
  then show ?case by (simp add: starts_def)
next
  case (Cons rn rns)
  let ?g1 = "g\<lparr>graph_nodes := AList.update (rn_id rn) (node_of rn) (graph_nodes g)\<rparr>"
  show ?case
  proof (cases "rn_type rn = ''start''")
    case True
    with Cons.prems have s: "start_id g = ''''"
      and b: "build_nodes rns (?g1\<lparr>start_id := rn_id rn\<rparr>) = Inr g'"
      by (simp_all add: Let_def split: if_splits)
    from Cons.IH [OF b] s True show ?thesis by (auto simp: starts_def)
  next
    case False
    with Cons.prems have "build_nodes rns ?g1 = Inr g'" by (simp add: Let_def)
    from Cons.IH [OF this] False show ?thesis by (auto simp: starts_def)
  qed
qed

lemma start_id_update_node [simp]: "start_id (update_node k f g) = start_id g"
  by (simp add: update_node_def split: option.splits)

lemma graph_edges_update_node [simp]: "graph_edges (update_node k f g) = graph_edges g"
  by (simp add: update_node_def split: option.splits)

lemma nodes_update_node:
  "map_of (graph_nodes (update_node k f g)) j =
     (if j = k then map_option f (map_of (graph_nodes g) k) else map_of (graph_nodes g) j)"
  by (auto simp: update_node_def update_conv' split: option.splits)

text \<open>One node after the edges are wired: its lists are the edges out of it and into it.\<close>

definition wired :: "raw_edge list \<Rightarrow> string \<Rightarrow> graph_node \<Rightarrow> graph_node" where
  "wired res k n = n\<lparr>
     out_edges := out_edges n @ map edge_of (filter (\<lambda>re. re_source re = k) res),
     in_edges := in_edges n @ map edge_of (filter (\<lambda>re. re_target re = k) res)\<rparr>"

lemma nodes_add_edge:
  "map_of (graph_nodes (add_edge re g)) k = map_option (wired [re] k) (map_of (graph_nodes g) k)"
  by (cases "map_of (graph_nodes g) k")
     (auto simp: add_edge_def Let_def nodes_update_node wired_def)

lemma wired_append: "wired (a @ b) k n = wired b k (wired a k n)"
  by (simp add: wired_def)

lemma wired_Nil [simp]: "wired [] k n = n"
  by (simp add: wired_def)

lemma start_id_add_edge [simp]: "start_id (add_edge re g) = start_id g"
  by (simp add: add_edge_def Let_def)

lemma fold_add_edge:
  "start_id (fold add_edge res g) = start_id g \<and>
   graph_edges (fold add_edge res g) = graph_edges g @ map edge_of res \<and>
   (\<forall>k. map_of (graph_nodes (fold add_edge res g)) k =
        map_option (wired res k) (map_of (graph_nodes g) k))"
proof (induction res arbitrary: g)
  case Nil
  show ?case by (simp add: option.map_ident)
next
  case (Cons re res)
  have e: "graph_edges (add_edge re g) = graph_edges g @ [edge_of re]"
    by (simp add: add_edge_def Let_def)
  have "map_option (wired res k) (map_option (wired [re] k) m) = map_option (wired (re # res) k) m"
    for k m using wired_append [of "[re]" res k] by (cases m) simp_all
  with Cons.IH [of "add_edge re g"] show ?case by (simp add: e nodes_add_edge)
qed

text \<open>The two conditions under which a decoded definition is accepted.\<close>

definition one_start :: "raw_node list \<Rightarrow> bool" where
  "one_start rns \<longleftrightarrow>
     starts rns \<noteq> [] \<and> last (starts rns) \<noteq> '''' \<and> set (butlast (starts rns)) \<subseteq> {''''}"

definition declares_response :: "raw_node list \<Rightarrow> bool" where
  "declares_response rns \<longleftrightarrow>
     (\<exists>rn \<in> set rns. declared rns (rn_id rn) = Some rn \<and> rn_type rn = ''response'')"

lemma starts_Cons:
  "starts (rn # rns) = (if rn_type rn = ''start'' then rn_id rn # starts rns else starts rns)"
  by (simp add: starts_def)

lemma build_nodes_blocked:
  "start_id g \<noteq> '''' \<Longrightarrow> (\<exists>g'. build_nodes rns g = Inr g') \<longleftrightarrow> starts rns = []"
proof (induction rns arbitrary: g)
  case Nil
  show ?case by (simp add: starts_def)
next
  case (Cons rn rns)
  let ?g1 = "g\<lparr>graph_nodes := AList.update (rn_id rn) (node_of rn) (graph_nodes g)\<rparr>"
  from Cons.prems Cons.IH [of ?g1] show ?case by (simp add: Let_def starts_Cons)
qed

lemma build_nodes_ok:
  "start_id g = '''' \<Longrightarrow>
     (\<exists>g'. build_nodes rns g = Inr g') \<longleftrightarrow> set (butlast (starts rns)) \<subseteq> {''''}"
proof (induction rns arbitrary: g)
  case Nil
  show ?case by (simp add: starts_def)
next
  case (Cons rn rns)
  let ?g1 = "g\<lparr>graph_nodes := AList.update (rn_id rn) (node_of rn) (graph_nodes g)\<rparr>"
  let ?g2 = "?g1\<lparr>start_id := rn_id rn\<rparr>"
  show ?case
  proof (cases "rn_type rn = ''start''")
    case False
    with Cons.prems Cons.IH [of ?g1] show ?thesis by (simp add: Let_def starts_Cons)
  next
    case start: True
    with Cons.prems have eq: "build_nodes (rn # rns) g = build_nodes rns ?g2" by (simp add: Let_def)
    show ?thesis
    proof (cases "rn_id rn = ''''")
      case True
      with Cons.IH [of ?g2] show ?thesis unfolding eq using start by (simp add: starts_Cons)
    next
      case False
      with build_nodes_blocked [of ?g2 rns] show ?thesis
        unfolding eq using start by (simp add: starts_Cons)
    qed
  qed
qed

lemma starts_member: "s \<in> set (starts rns) \<Longrightarrow> declared rns s \<noteq> None"
  by (induction rns) (auto simp: starts_def declared_Cons split: if_splits option.splits)

definition unique_keys :: "graph \<Rightarrow> bool" where
  "unique_keys g \<longleftrightarrow> distinct (map fst (graph_nodes g))"

lemma unique_build_nodes: "unique_keys g \<Longrightarrow> build_nodes rns g = Inr g' \<Longrightarrow> unique_keys g'"
proof (induction rns arbitrary: g)
  case (Cons rn rns)
  let ?g1 = "g\<lparr>graph_nodes := AList.update (rn_id rn) (node_of rn) (graph_nodes g)\<rparr>"
  have "unique_keys ?g1" "unique_keys (?g1\<lparr>start_id := rn_id rn\<rparr>)"
    using Cons.prems(1) by (simp_all add: unique_keys_def distinct_update)
  with Cons.prems(2) Cons.IH [of ?g1] Cons.IH [of "?g1\<lparr>start_id := rn_id rn\<rparr>"]
  show ?case by (simp add: Let_def split: if_splits)
qed simp

lemma unique_update_node: "unique_keys g \<Longrightarrow> unique_keys (update_node k f g)"
  by (auto simp: unique_keys_def update_node_def distinct_update split: option.splits)

lemma unique_add_edge: "unique_keys g \<Longrightarrow> unique_keys (add_edge re g)"
  by (auto simp: add_edge_def Let_def intro!: unique_update_node) (simp add: unique_keys_def)

lemma unique_fold_add_edge: "unique_keys g \<Longrightarrow> unique_keys (fold add_edge res g)"
  by (induction res arbitrary: g) (auto simp: unique_add_edge)

lemma has_response_iff:
  "unique_keys g \<Longrightarrow>
     has_response g \<longleftrightarrow> (\<exists>k n. map_of (graph_nodes g) k = Some n \<and> node_type n = ''response'')"
  unfolding has_response_def unique_keys_def by (fastforce simp: map_of_eq_Some_iff)

lemma node_wired [simp]:
  "node_id (wired res k n) = node_id n" "node_type (wired res k n) = node_type n"
  by (simp_all add: wired_def)

lemma node_node_of [simp]: "node_id (node_of rn) = rn_id rn" "node_type (node_of rn) = rn_type rn"
  by (simp_all add: node_of_def)

lemma build_nodes_nodes:
  assumes "build_nodes rns empty_graph = Inr g"
  shows "map_of (graph_nodes (fold add_edge res g)) k =
    map_option (\<lambda>rn. wired res k (node_of rn)) (declared rns k)"
  using build_nodes_InrD [OF assms] fold_add_edge [of res g]
  by (cases "declared rns k") (auto simp: empty_graph_def)

lemma has_response_built:
  assumes b: "build_nodes rns empty_graph = Inr g"
  shows "has_response (fold add_edge res g) \<longleftrightarrow> declares_response rns"
proof -
  have "unique_keys g"
    by (rule unique_build_nodes [OF _ b]) (simp add: unique_keys_def empty_graph_def)
  then have "has_response (fold add_edge res g) \<longleftrightarrow>
      (\<exists>k n. map_of (graph_nodes (fold add_edge res g)) k = Some n \<and> node_type n = ''response'')"
    by (simp add: has_response_iff unique_fold_add_edge)
  also have "\<dots> \<longleftrightarrow> (\<exists>k rn. declared rns k = Some rn \<and> rn_type rn = ''response'')"
  proof -
    have "(\<exists>n. map_of (graph_nodes (fold add_edge res g)) k = Some n \<and> node_type n = ''response'')
        \<longleftrightarrow> (\<exists>rn. declared rns k = Some rn \<and> rn_type rn = ''response'')" for k
      unfolding build_nodes_nodes [OF b] by (cases "declared rns k") simp_all
    then show ?thesis by simp
  qed
  also have "\<dots> \<longleftrightarrow> declares_response rns"
  proof
    assume "\<exists>k rn. declared rns k = Some rn \<and> rn_type rn = ''response''"
    then obtain k rn where d: "declared rns k = Some rn" and t: "rn_type rn = ''response''" by blast
    from declared_in [OF d] d have "rn \<in> set rns" "declared rns (rn_id rn) = Some rn" by auto
    with t show "declares_response rns" unfolding declares_response_def by blast
  qed (unfold declares_response_def, blast)
  finally show ?thesis .
qed

lemma one_start_iff:
  assumes b: "build_nodes rns empty_graph = Inr g"
  shows "start_id g \<noteq> '''' \<longleftrightarrow> one_start rns"
proof -
  have "start_id g = (if starts rns = [] then '''' else last (starts rns))"
    and "\<forall>s \<in> set (butlast (starts rns)). s = ''''"
    using build_nodes_start [OF b] by (simp_all add: empty_graph_def)
  then show ?thesis unfolding one_start_def by (cases "starts rns = []") (simp_all add: subset_eq)
qed

lemma build_graph_spec:
  assumes "unmarshal_nodes nj = Some rns" and "unmarshal_edges ej = Some res"
  shows "(\<exists>g. BuildGraph unmarshal_nodes unmarshal_edges nj ej = Inr g) \<longleftrightarrow>
           one_start rns \<and> declares_response rns"
    and "\<And>g. BuildGraph unmarshal_nodes unmarshal_edges nj ej = Inr g \<Longrightarrow>
           (\<forall>k. map_of (graph_nodes g) k =
              map_option (\<lambda>rn. wired res k (node_of rn)) (declared rns k)) \<and>
           map_of (graph_nodes g) (start_id g) \<noteq> None \<and>
           start_id g = last (starts rns) \<and> graph_edges g = map edge_of res \<and> keyed g"
proof -
  note B = BuildGraph_def assms
  show "(\<exists>g. BuildGraph unmarshal_nodes unmarshal_edges nj ej = Inr g) \<longleftrightarrow>
      one_start rns \<and> declares_response rns"
  proof (cases "build_nodes rns empty_graph")
    case (Inl err)
    then have "\<not> set (butlast (starts rns)) \<subseteq> {''''}"
      using build_nodes_ok [of empty_graph rns] by (simp add: empty_graph_def)
    with Inl show ?thesis by (simp add: B one_start_def)
  next
    case (Inr g)
    then show ?thesis
      using one_start_iff [OF Inr] has_response_built [OF Inr, of res] by (auto simp: B Let_def)
  qed
  fix g assume "BuildGraph unmarshal_nodes unmarshal_edges nj ej = Inr g"
  then obtain g0 where b: "build_nodes rns empty_graph = Inr g0" and s: "start_id g0 \<noteq> ''''"
    and g: "g = fold add_edge res g0"
    by (auto simp: B Let_def split: sum.splits if_splits)
  have nodes: "\<forall>k. map_of (graph_nodes g) k =
      map_option (\<lambda>rn. wired res k (node_of rn)) (declared rns k)"
    using build_nodes_nodes [OF b] g by simp
  have "starts rns \<noteq> []" "start_id g = last (starts rns)"
    using one_start_iff [OF b] s build_nodes_start [OF b] fold_add_edge [of res g0] g
    by (auto simp: one_start_def)
  moreover from this starts_member have "declared rns (start_id g) \<noteq> None" by auto
  moreover have "graph_edges g = map edge_of res"
    using fold_add_edge [of res g0] g build_nodes_InrD [OF b] by (simp add: empty_graph_def)
  moreover have "keyed g"
    using nodes declared_in unfolding keyed_def by fastforce
  ultimately show "(\<forall>k. map_of (graph_nodes g) k =
         map_option (\<lambda>rn. wired res k (node_of rn)) (declared rns k)) \<and>
      map_of (graph_nodes g) (start_id g) \<noteq> None \<and>
      start_id g = last (starts rns) \<and> graph_edges g = map edge_of res \<and> keyed g"
    using nodes by auto
qed

text \<open>
  C14: \<open>BuildGraph\<close> accepts a decoded definition exactly when the start nodes it declares
  are one with a non-empty id, preceded by none but start nodes whose id is empty, and the
  last declaration of some id is a response node; every other definition is an error. An
  accepted graph has one node for each declared id, the last declaration's, whose outgoing
  and incoming edges are, in order, the declared edges from it and to it, and its start id
  is a node of the graph. Edges with an end that is not declared are kept in \<open>Edges\<close> only.
\<close>

theorem build_graph_exact:
  assumes "unmarshal_nodes nj = Some rns" and "unmarshal_edges ej = Some res"
  shows "((\<exists>g. BuildGraph unmarshal_nodes unmarshal_edges nj ej = Inr g) \<longleftrightarrow>
            one_start rns \<and> declares_response rns) \<and>
         (\<forall>g. BuildGraph unmarshal_nodes unmarshal_edges nj ej = Inr g \<longrightarrow>
            (\<forall>k. map_of (graph_nodes g) k =
               map_option (\<lambda>rn. wired res k (node_of rn)) (declared rns k)) \<and>
            map_of (graph_nodes g) (start_id g) \<noteq> None \<and>
            start_id g = last (starts rns) \<and> graph_edges g = map edge_of res \<and> keyed g)"
  using build_graph_spec [where unmarshal_nodes = unmarshal_nodes and unmarshal_edges = unmarshal_edges,
      OF assms] by blast

definition demo_nodes :: "raw_node list" where
  "demo_nodes =
     [\<lparr>rn_id = ''s'', rn_type = ''start'', rn_label = ''Start'', rn_config = None\<rparr>,
      \<lparr>rn_id = ''p'', rn_type = ''provider'', rn_label = ''Model'', rn_config = None\<rparr>,
      \<lparr>rn_id = ''r'', rn_type = ''response'', rn_label = ''Reply'', rn_config = None\<rparr>]"

definition demo_edges :: "raw_edge list" where
  "demo_edges =
     [\<lparr>re_id = ''e1'', re_source = ''s'', re_target = ''p'', re_source_handle = '''',
       re_target_handle = ''in''\<rparr>,
      \<lparr>re_id = ''e2'', re_source = ''p'', re_target = ''r'', re_source_handle = ''out'',
       re_target_handle = ''in''\<rparr>]"

theorem build_graph_exact_witness:
  "\<exists>g. BuildGraph (\<lambda>_. Some demo_nodes) (\<lambda>_. Some demo_edges) () () = Inr g \<and>
     start_id g = ''s'' \<and> map_of (graph_nodes g) ''x'' = None"
proof -
  have ok: "one_start demo_nodes \<and> declares_response demo_nodes"
    by (simp add: one_start_def declares_response_def demo_nodes_def starts_def declared_def)
  note spec = build_graph_exact [of "\<lambda>_. Some demo_nodes" "()" demo_nodes
      "\<lambda>_. Some demo_edges" "()" demo_edges, OF refl refl]
  from spec ok obtain g where
    g: "BuildGraph (\<lambda>_. Some demo_nodes) (\<lambda>_. Some demo_edges) () () = Inr g" by blast
  from spec g have "start_id g = last (starts demo_nodes)"
    and "map_of (graph_nodes g) ''x'' =
      map_option (\<lambda>rn. wired demo_edges ''x'' (node_of rn)) (declared demo_nodes ''x'')" by auto
  with g show ?thesis by (simp add: demo_nodes_def starts_def declared_def)
qed

end
