(* ===== verification/WorkflowLedger.thy ===== *)
theory WorkflowLedger
  imports GoValue
begin

text \<open>
  The execution ledger: \<open>src/internal/workflows/engine/ledger.go\<close>. The record \<open>ledger\<close> is
  \<open>ExecutionLedger\<close> without its mutex; entries are never mutated after \<open>Record\<close>, so the
  pointers shared by the list and the two maps are values here. What \<open>fmt\<close> and
  \<open>encoding/json\<close> print for a value that is not a string is the argument \<open>go_fmt\<close>.
\<close>

section \<open>Data\<close>

record node_output =
  out_node_id :: string
  out_node_type :: string
  out_node_label :: string
  out_status :: string
  out_handle :: string
  out_data :: gomap
  out_duration_ms :: int

record ledger =
  entries :: "node_output list"
  by_id :: "string \<rightharpoonup> node_output"
  by_label :: "string \<rightharpoonup> node_output"

record go_fmt =
  json_marshal :: "goval \<Rightarrow> string option"
  sprint_v :: "goval \<Rightarrow> string"

definition show_value :: "go_fmt \<Rightarrow> goval \<Rightarrow> string" where
  "show_value f v = (case v of GoStr s \<Rightarrow> s | _ \<Rightarrow> sprint_v f v)"

section \<open>Operations\<close>

definition GetString :: "go_fmt \<Rightarrow> node_output option \<Rightarrow> string \<Rightarrow> string" where
  "GetString f out key =
     (case out of
        None \<Rightarrow> ''''
      | Some o1 \<Rightarrow>
     (case out_data o1 key of
        None \<Rightarrow> ''''
      | Some v \<Rightarrow>
     (case v of
        GoStr s \<Rightarrow> s
      | GoBytes b \<Rightarrow> b
      | GoMap m \<Rightarrow> (case json_marshal f v of Some b \<Rightarrow> b | None \<Rightarrow> sprint_v f v)
      | GoList vs \<Rightarrow> (case json_marshal f v of Some b \<Rightarrow> b | None \<Rightarrow> sprint_v f v)
      | _ \<Rightarrow> sprint_v f v)))"

definition NewExecutionLedger :: ledger where
  "NewExecutionLedger = \<lparr>entries = [], by_id = Map.empty, by_label = Map.empty\<rparr>"

definition Record :: "node_output option \<Rightarrow> ledger \<Rightarrow> ledger" where
  "Record out l =
     (case out of
        None \<Rightarrow> l
      | Some o1 \<Rightarrow>
          let l1 = l\<lparr>entries := entries l @ [o1]\<rparr>;
              l2 = (if out_node_id o1 \<noteq> '''' then l1\<lparr>by_id := (by_id l1)(out_node_id o1 \<mapsto> o1)\<rparr> else l1)
          in if out_node_label o1 \<noteq> '''' then l2\<lparr>by_label := (by_label l2)(out_node_label o1 \<mapsto> o1)\<rparr>
             else l2)"

definition Get :: "ledger \<Rightarrow> string \<Rightarrow> node_output option" where
  "Get l nodeID = by_id l nodeID"

definition GetByLabel :: "ledger \<Rightarrow> string \<Rightarrow> node_output option" where
  "GetByLabel l label = by_label l label"

definition Previous :: "ledger \<Rightarrow> node_output option" where
  "Previous l = (if length (entries l) = 0 then None else Some (entries l ! (length (entries l) - 1)))"

fun scan_back :: "(node_output \<Rightarrow> bool) \<Rightarrow> node_output list \<Rightarrow> nat \<Rightarrow> nat option" where
  "scan_back p es 0 = None"
| "scan_back p es (Suc i) = (if p (es ! i) then Some i else scan_back p es i)"

definition PreviousOfType :: "ledger \<Rightarrow> string \<Rightarrow> node_output option" where
  "PreviousOfType l nodeType =
     (case scan_back (\<lambda>e. out_node_type e = nodeType) (entries l) (length (entries l)) of
        Some i \<Rightarrow> Some (entries l ! i)
      | None \<Rightarrow> None)"

definition All :: "ledger \<Rightarrow> node_output list" where
  "All l = entries l"

definition Len :: "ledger \<Rightarrow> nat" where
  "Len l = length (entries l)"

definition data_type :: "string \<Rightarrow> bool" where
  "data_type t \<longleftrightarrow> t \<in> {''httpRequest'', ''function'', ''webhook'', ''memory''}"

definition model_entry :: "node_output \<Rightarrow> bool" where
  "model_entry e \<longleftrightarrow> out_node_type e = ''provider'' \<or> out_node_type e = ''agent''"

definition DataOutputsSinceLastProvider :: "ledger \<Rightarrow> node_output list" where
  "DataOutputsSinceLastProvider l =
     (let startIdx = (case scan_back model_entry (entries l) (length (entries l)) of
                        Some i \<Rightarrow> i + 1
                      | None \<Rightarrow> 0)
      in filter (\<lambda>e. data_type (out_node_type e) \<and> out_status e = ''success'')
           (drop startIdx (entries l)))"

definition truncateString :: "string \<Rightarrow> nat \<Rightarrow> string" where
  "truncateString s maxLen =
     (if length s \<le> maxLen then s
      else take maxLen s @ ''... [truncated, '' @ decimal (int (length s)) @ '' total characters]'')"

definition newline :: string where
  "newline = [char_of (10 :: nat)]"

definition section_line :: "go_fmt \<Rightarrow> node_output \<Rightarrow> string \<Rightarrow> string \<Rightarrow> string" where
  "section_line f o1 key title =
     (let v = GetString f (Some o1) key
      in if v \<noteq> '''' then title @ '' '' @ v @ newline else '''')"

definition section_text :: "go_fmt \<Rightarrow> node_output \<Rightarrow> string \<Rightarrow> string \<Rightarrow> string" where
  "section_text f o1 key title =
     (let v = GetString f (Some o1) key
      in if v \<noteq> '''' then title @ newline @ truncateString v 4000 @ newline else '''')"

definition format_output :: "go_fmt \<Rightarrow> node_output \<Rightarrow> string" where
  "format_output f o1 =
     newline @ ''--- '' @ out_node_type o1
     @ (if out_node_label o1 \<noteq> '''' then '' ('' @ out_node_label o1 @ '')'' else '''')
     @ '' ---'' @ newline
     @ (if out_node_type o1 = ''httpRequest'' \<or> out_node_type o1 = ''webhook'' then
          section_line f o1 ''url'' ''URL:'' @ section_line f o1 ''method'' ''Method:''
          @ section_line f o1 ''status_code'' ''Status:'' @ section_text f o1 ''body'' ''Response Body:''
        else if out_node_type o1 = ''function'' then
          section_line f o1 ''function_name'' ''Function:'' @ section_text f o1 ''result'' ''Result:''
          @ (if out_duration_ms o1 > 0
             then ''Duration: '' @ decimal (out_duration_ms o1) @ ''ms'' @ newline else '''')
        else if out_node_type o1 = ''memory'' then
          section_line f o1 ''operation'' ''Operation:'' @ section_line f o1 ''collection'' ''Collection:''
          @ section_text f o1 ''results_text'' ''Results:''
        else '''')"

definition FormatNodeOutputsAsContext :: "go_fmt \<Rightarrow> node_output list \<Rightarrow> string" where
  "FormatNodeOutputsAsContext f outputs =
     (if length outputs = 0 then ''''
      else ''The following data was collected by prior workflow steps and is available for you to use in your response:''
        @ newline @ concat (map (format_output f) outputs))"

section \<open>The interface of an output log\<close>

text \<open>
  What the template resolver and the engine rely on: lookups see the latest output recorded
  under a name, other names are left alone, the empty name is never bound.
\<close>

locale output_log =
  fixes new :: 'l
    and put :: "node_output \<Rightarrow> 'l \<Rightarrow> 'l"
    and look :: "'l \<Rightarrow> string \<Rightarrow> node_output option"
    and key :: "node_output \<Rightarrow> string"
    and outs :: "'l \<Rightarrow> node_output list"
  assumes look_new: "look new k = None"
    and look_put: "k \<noteq> '''' \<Longrightarrow> look (put x l) k = (if key x = k then Some x else look l k)"
    and look_empty: "look l '''' = None \<Longrightarrow> look (put x l) '''' = None"
    and outs_new: "outs new = []"
    and outs_put: "outs (put x l) = outs l @ [x]"
begin

lemma outs_fold: "outs (fold put xs l) = outs l @ xs"
  by (induction xs arbitrary: l) (simp_all add: outs_put)

lemma look_empty_fold: "look l '''' = None \<Longrightarrow> look (fold put xs l) '''' = None"
  by (induction xs arbitrary: l) (auto simp: look_empty)

lemma look_fold:
  "k \<noteq> '''' \<Longrightarrow> look (fold put xs l) k =
     (case find (\<lambda>x. key x = k) (rev xs) of Some x \<Rightarrow> Some x | None \<Rightarrow> look l k)"
proof (induction xs rule: rev_induct)
  case (snoc x xs)
  then show ?case by (simp add: look_put)
qed simp

lemma look_recorded:
  "look (fold put xs new) k = (if k = '''' then None else find (\<lambda>x. key x = k) (rev xs))"
  using look_empty_fold [OF look_new] look_fold [of k xs new]
  by (auto simp: look_new split: option.splits)

end

lemma Record_Some:
  "entries (Record (Some x) l) = entries l @ [x]"
  "Get (Record (Some x) l) k =
     (if out_node_id x \<noteq> '''' \<and> out_node_id x = k then Some x else Get l k)"
  "GetByLabel (Record (Some x) l) k =
     (if out_node_label x \<noteq> '''' \<and> out_node_label x = k then Some x else GetByLabel l k)"
  by (auto simp: Record_def Let_def Get_def GetByLabel_def)

interpretation ids: output_log NewExecutionLedger "\<lambda>x. Record (Some x)" Get out_node_id entries
  by unfold_locales (auto simp: Record_Some NewExecutionLedger_def Get_def Record_def Let_def)

interpretation labels: output_log NewExecutionLedger "\<lambda>x. Record (Some x)" GetByLabel out_node_label entries
  by unfold_locales (auto simp: Record_Some NewExecutionLedger_def GetByLabel_def Record_def Let_def)

section \<open>Lookups\<close>

lemma scan_back_spec:
  "n \<le> length es \<Longrightarrow>
     (case scan_back p es n of
        Some i \<Rightarrow> i < n \<and> p (es ! i) \<and> (\<forall>j. i < j \<and> j < n \<longrightarrow> \<not> p (es ! j))
      | None \<Rightarrow> \<forall>j < n. \<not> p (es ! j))"
  by (induction n) (auto simp: less_Suc_eq split: option.splits)

lemma scan_back_append:
  "n \<le> length es \<Longrightarrow> scan_back p (es @ fs) n = scan_back p es n"
  by (induction n) (auto simp: nth_append)

lemma scan_back_snoc:
  "scan_back p (es @ [e]) (length (es @ [e])) =
     (if p e then Some (length es) else scan_back p es (length es))"
  by (simp add: scan_back_append)

lemma previous_of_type_find:
  "PreviousOfType l t = find (\<lambda>e. out_node_type e = t) (rev (entries l))"
proof -
  have "(case scan_back p es (length es) of Some i \<Rightarrow> Some (es ! i) | None \<Rightarrow> None) = find p (rev es)"
    for p and es :: "node_output list"
  proof (induction es rule: rev_induct)
    case (snoc e es)
    have "scan_back p es (length es) = Some i \<Longrightarrow> i < length es" for i
      using scan_back_spec [of "length es" es p] by simp
    with snoc show ?case by (auto simp: scan_back_append nth_append split: option.splits)
  qed simp
  then show ?thesis by (simp add: PreviousOfType_def)
qed

lemma data_outputs_suffix:
  "DataOutputsSinceLastProvider l =
     filter (\<lambda>e. data_type (out_node_type e) \<and> out_status e = ''success'')
       (rev (takeWhile (\<lambda>e. \<not> model_entry e) (rev (entries l))))"
proof -
  have "drop (case scan_back p es (length es) of Some i \<Rightarrow> i + 1 | None \<Rightarrow> 0) es =
      rev (takeWhile (\<lambda>e. \<not> p e) (rev es))" for p and es :: "node_output list"
  proof (induction es rule: rev_induct)
    case (snoc e es)
    have "scan_back p es (length es) = Some i \<Longrightarrow> i < length es" for i
      using scan_back_spec [of "length es" es p] by simp
    with snoc show ?case by (auto simp: scan_back_append split: option.splits)
  qed simp
  then show ?thesis by (simp add: DataOutputsSinceLastProvider_def Let_def)
qed

text \<open>
  The ledger answers as the sequence of outputs recorded in it does. From an empty
  ledger, a lookup by id or by label gives the latest output recorded under that name and
  nothing for the empty name; the previous output is the last one, the previous output of a
  type is the latest of that type, and the data outputs handed to a model are the successful
  outputs of data-producing nodes after the latest provider or agent.
\<close>

theorem ledger_lookups:
  "let l = fold (\<lambda>x. Record (Some x)) xs NewExecutionLedger in
     All l = xs \<and> Len l = length xs \<and>
     Get l k = (if k = '''' then None else find (\<lambda>x. out_node_id x = k) (rev xs)) \<and>
     GetByLabel l k = (if k = '''' then None else find (\<lambda>x. out_node_label x = k) (rev xs)) \<and>
     Previous l = (if xs = [] then None else Some (last xs)) \<and>
     PreviousOfType l t = find (\<lambda>x. out_node_type x = t) (rev xs) \<and>
     DataOutputsSinceLastProvider l =
       filter (\<lambda>e. data_type (out_node_type e) \<and> out_status e = ''success'')
         (rev (takeWhile (\<lambda>e. \<not> model_entry e) (rev xs)))"
proof -
  let ?l = "fold (\<lambda>x. Record (Some x)) xs NewExecutionLedger"
  have e: "entries ?l = xs" by (simp add: ids.outs_fold ids.outs_new)
  show ?thesis
    by (simp add: Let_def e All_def Len_def Previous_def ids.look_recorded labels.look_recorded
        previous_of_type_find data_outputs_suffix last_conv_nth)
qed

text \<open>A truncated text is at most the limit plus the marker.\<close>

lemma truncate_prefix: "take maxLen (truncateString s maxLen) = take maxLen s"
  by (simp add: truncateString_def)

lemma truncate_short: "length s \<le> maxLen \<Longrightarrow> truncateString s maxLen = s"
  by (simp add: truncateString_def)

end
