(* ===== verification/WorkflowResolver.thy ===== *)
theory WorkflowResolver
  imports WorkflowLedger
begin

text \<open>
  The data bus of an execution and the resolution of template expressions against it:
  \<open>src/internal/workflows/engine/context.go\<close> and \<open>resolver.go\<close>. The record \<open>exec_context\<close>
  has the fields of \<open>ExecutionContext\<close> that the engine and the resolver read or write; a
  message is its role and, per content part, the optional text.
\<close>

section \<open>The execution context\<close>

record message =
  msg_role :: string
  msg_content :: "string option list"

record chat_response =
  choices :: "message list"
  total_tokens :: int
  prompt_tokens :: int
  completion_tokens :: int

record exec_context =
  workflow_id :: string
  messages :: "message list"
  metadata :: "string \<rightharpoonup> string"
  variables :: gomap
  resolved_model :: string
  resolved_provider :: string
  response :: "chat_response option"
  cache_miss :: bool
  cache_type :: string
  cache_query :: string
  streaming_enabled :: bool
  has_on_event :: bool
  node_timings :: "string \<rightharpoonup> int"
  node_data :: "string \<rightharpoonup> string"
  exec_ledger :: ledger
  original_messages :: "message list option"

definition NewExecutionContext :: exec_context where
  "NewExecutionContext = \<lparr>workflow_id = '''', messages = [], metadata = Map.empty,
     variables = Map.empty, resolved_model = [], resolved_provider = [], response = None, cache_miss = False, cache_type = '''',
     cache_query = '''', streaming_enabled = False, has_on_event = False,
     node_timings = Map.empty, node_data = Map.empty, exec_ledger = NewExecutionLedger,
     original_messages = None\<rparr>"

definition SetNodeData :: "string \<Rightarrow> string \<Rightarrow> exec_context \<Rightarrow> exec_context" where
  "SetNodeData key val ec = ec\<lparr>node_data := (node_data ec)(key \<mapsto> val)\<rparr>"

definition ClearNodeData :: "exec_context \<Rightarrow> exec_context" where
  "ClearNodeData ec = ec\<lparr>node_data := Map.empty\<rparr>"

definition SetVariable :: "string \<Rightarrow> goval \<Rightarrow> exec_context \<Rightarrow> exec_context" where
  "SetVariable name val ec = ec\<lparr>variables := (variables ec)(name \<mapsto> val)\<rparr>"

definition GetVariable :: "exec_context \<Rightarrow> string \<Rightarrow> goval option" where
  "GetVariable ec name = variables ec name"

definition GetStringVariable :: "exec_context \<Rightarrow> string \<Rightarrow> string" where
  "GetStringVariable ec name =
     (case variables ec name of
        None \<Rightarrow> ''''
      | Some v \<Rightarrow> (case as_string v of None \<Rightarrow> '''' | Some s \<Rightarrow> s))"

definition SnapshotOriginalMessages :: "exec_context \<Rightarrow> exec_context" where
  "SnapshotOriginalMessages ec =
     (case original_messages ec of
        Some ms \<Rightarrow> ec
      | None \<Rightarrow> ec\<lparr>original_messages := Some (messages ec)\<rparr>)"

definition first_text :: "message \<Rightarrow> string option" where
  "first_text m = (case msg_content m of [] \<Rightarrow> None | c # cs \<Rightarrow> c)"

fun last_text_of :: "string \<Rightarrow> message list \<Rightarrow> nat \<Rightarrow> string" where
  "last_text_of role msgs 0 = ''''"
| "last_text_of role msgs (Suc i) =
     (if msg_role (msgs ! i) = role
      then case first_text (msgs ! i) of Some t \<Rightarrow> t | None \<Rightarrow> last_text_of role msgs i
      else last_text_of role msgs i)"

definition OriginalUserInput :: "exec_context \<Rightarrow> string" where
  "OriginalUserInput ec =
     (let orig = (case original_messages ec of Some ms \<Rightarrow> ms | None \<Rightarrow> []);
          msgs = (if orig = [] then messages ec else orig)
      in last_text_of ''user'' msgs (length msgs))"

definition response_text :: "chat_response option \<Rightarrow> string option" where
  "response_text r =
     (case r of
        None \<Rightarrow> None
      | Some c \<Rightarrow> (case choices c of [] \<Rightarrow> None | m # ms \<Rightarrow> first_text m))"

definition LastAssistantContent :: "exec_context \<Rightarrow> string" where
  "LastAssistantContent ec =
     (case response_text (response ec) of
        Some t \<Rightarrow> t
      | None \<Rightarrow> last_text_of ''assistant'' (messages ec) (length (messages ec)))"

section \<open>Expressions\<close>

definition after :: "string \<Rightarrow> string \<Rightarrow> string" where
  "after p s = drop (length p) s"

definition dotted :: "string \<Rightarrow> (string \<times> string) option" where
  "dotted rest =
     (case index_byte (CHR ''.'') rest of
        None \<Rightarrow> None
      | Some i \<Rightarrow> Some (take i rest, drop (i + 1) rest))"

definition Resolve :: "go_fmt \<Rightarrow> ledger option \<Rightarrow> string \<Rightarrow> exec_context \<Rightarrow> string" where
  "Resolve f lo expr0 ec =
     (case lo of
        None \<Rightarrow> expr0
      | Some l \<Rightarrow>
          if expr0 = '''' then expr0
          else
            let expr = TrimSpace expr0 in
            if expr = ''$input'' then OriginalUserInput ec
            else if has_prefix expr ''$prev.data.'' then
              GetString f (Previous l) (after ''$prev.data.'' expr)
            else if has_prefix expr ''$prev.'' then
              GetString f (Previous l) (after ''$prev.'' expr)
            else if has_prefix expr ''$node.'' then
              (case dotted (after ''$node.'' expr) of
                 None \<Rightarrow> ''''
               | Some (nodeID, field) \<Rightarrow> GetString f (Get l nodeID) field)
            else if has_prefix expr ''$label.'' then
              (case dotted (after ''$label.'' expr) of
                 None \<Rightarrow> ''''
               | Some (label, field) \<Rightarrow> GetString f (GetByLabel l label) field)
            else if has_prefix expr ''$var.'' then
              (case GetVariable ec (after ''$var.'' expr) of
                 Some v \<Rightarrow> show_value f v
               | None \<Rightarrow> '''')
            else if has_prefix expr ''$meta.'' then
              (case metadata ec (after ''$meta.'' expr) of Some v \<Rightarrow> v | None \<Rightarrow> '''')
            else expr)"

section \<open>Templates\<close>

text \<open>
  The value of the expression between the braces, \<open>None\<close> when the code keeps the original
  text of the hole.
\<close>

definition hole_value :: "go_fmt \<Rightarrow> ledger \<Rightarrow> exec_context \<Rightarrow> string \<Rightarrow> string option" where
  "hole_value f l ec expr =
     (if has_prefix expr ''$'' then Some (Resolve f (Some l) expr ec)
      else case GetVariable ec expr of
             Some v \<Rightarrow> Some (show_value f v)
           | None \<Rightarrow>
               if has_prefix expr ''meta.''
               then Some (case metadata ec (after ''meta.'' expr) of Some v \<Rightarrow> v | None \<Rightarrow> '''')
               else None)"

text \<open>The first hole: the text before it, its text with the braces, and the rest.\<close>

definition first_hole :: "string \<Rightarrow> (string \<times> string \<times> string) option" where
  "first_hole result =
     (case index_of result ''{{'' of
        None \<Rightarrow> None
      | Some start \<Rightarrow>
     (case index_of (drop start result) ''}}'' of
        None \<Rightarrow> None
      | Some e \<Rightarrow>
          Some (take start result, take (e + 2) (drop start result), drop (start + e + 2) result)))"

definition hole_expr :: "string \<Rightarrow> string" where
  "hole_expr h = TrimSpace (take (length h - 4) (drop 2 h))"

partial_function (option) interpolate_loop ::
  "go_fmt \<Rightarrow> ledger \<Rightarrow> exec_context \<Rightarrow> string \<Rightarrow> string option"
where
  "interpolate_loop f l ec result =
     (case first_hole result of
        None \<Rightarrow> Some result
      | Some (before, h, rest) \<Rightarrow>
          interpolate_loop f l ec
            (before @ (case hole_value f l ec (hole_expr h) of Some v \<Rightarrow> v | None \<Rightarrow> h) @ rest))"

declare interpolate_loop.simps [code]

definition InterpolateTemplate ::
  "go_fmt \<Rightarrow> ledger option \<Rightarrow> string \<Rightarrow> exec_context \<Rightarrow> string option"
where
  "InterpolateTemplate f lo template ec =
     (case lo of
        None \<Rightarrow> Some template
      | Some l \<Rightarrow>
          if \<not> go_contains template ''{{'' then Some template
          else interpolate_loop f l ec template)"

end
