(* ===== verification/WorkflowEngine.thy ===== *)
theory WorkflowEngine
  imports WorkflowGraph WorkflowResolver
begin

text \<open>
  The execution loop: \<open>src/internal/workflows/engine/engine.go\<close>, \<open>executor.go\<close> and
  \<open>events.go\<close>. A node executor is code of another package, an argument: it returns the
  node's result, the context it leaves and the events it passed to \<open>ec.OnEvent\<close>. The
  request context and the clock are the argument \<open>env\<close>: whether \<open>ctx.Done()\<close> is ready at
  the n-th turn of the loop, and the milliseconds measured for the n-th node and in all.
  Spans and log lines are left out.
\<close>

section \<open>Data\<close>

record node_result =
  next_handle :: string
  result_error :: "string option"
  result_output :: "gomap option"

record event =
  ev_type :: string
  ev_node_id :: string
  ev_node_type :: string
  ev_node_label :: string
  ev_data :: "string \<rightharpoonup> string"
  ev_chunk :: string
  ev_error :: string
  ev_duration_ms :: int

datatype run_error =
    NoStart
  | Cancelled
  | CycleDetected string
  | NoExecutor string
  | NodeFailed string string string

datatype cache_op = ExactWrite | SemanticWrite string

type_synonym node_executor = "graph_node \<Rightarrow> exec_context \<Rightarrow> node_result \<times> exec_context \<times> event list"

record engine =
  executors :: "string \<rightharpoonup> node_executor"
  cache_enabled :: bool

record env =
  ctx_done :: "nat \<Rightarrow> bool"
  node_ms :: "nat \<Rightarrow> int"
  total_ms :: int

definition no_event :: event where
  "no_event = \<lparr>ev_type = '''', ev_node_id = '''', ev_node_type = '''', ev_node_label = '''',
     ev_data = Map.empty, ev_chunk = '''', ev_error = '''', ev_duration_ms = 0\<rparr>"

definition node_event :: "string \<Rightarrow> graph_node \<Rightarrow> event" where
  "node_event t n = no_event\<lparr>ev_type := t, ev_node_id := node_id n, ev_node_type := node_type n,
     ev_node_label := node_label n\<rparr>"

definition NewEngine :: "bool \<Rightarrow> engine" where
  "NewEngine enabled = \<lparr>executors = Map.empty, cache_enabled = enabled\<rparr>"

definition RegisterExecutor :: "string \<Rightarrow> node_executor \<Rightarrow> engine \<Rightarrow> engine" where
  "RegisterExecutor nodeType ex e = e\<lparr>executors := (executors e)(nodeType \<mapsto> ex)\<rparr>"

definition copyMap :: "(string \<rightharpoonup> string) \<Rightarrow> (string \<rightharpoonup> string)" where
  "copyMap m = m"

definition emit :: "exec_context \<Rightarrow> event list \<Rightarrow> event list" where
  "emit ec evs = (if has_on_event ec then evs else [])"

section \<open>One node\<close>

text \<open>The write that \<open>asyncCacheWrite\<close> starts; the response is marshalled without error.\<close>

definition asyncCacheWrite :: "engine \<Rightarrow> exec_context \<Rightarrow> cache_op list" where
  "asyncCacheWrite e ec =
     (if \<not> cache_enabled e then []
      else if cache_type ec = ''exact'' then [ExactWrite]
      else if cache_type ec = ''semantic'' then
        (if cache_query ec \<noteq> '''' then [SemanticWrite (cache_query ec)] else [])
      else [])"

definition cache_after :: "engine \<Rightarrow> graph_node \<Rightarrow> exec_context \<Rightarrow> exec_context \<times> cache_op list" where
  "cache_after e n ec =
     (if (node_type n = ''provider'' \<or> node_type n = ''agent'') \<and> cache_miss ec
         \<and> response ec \<noteq> None
      then (ec\<lparr>cache_miss := False\<rparr>, asyncCacheWrite e ec)
      else (ec, []))"

text \<open>The ledger entry and the timing recorded after the executor returned.\<close>

definition record_result :: "graph_node \<Rightarrow> node_result \<Rightarrow> int \<Rightarrow> exec_context \<Rightarrow> exec_context" where
  "record_result n res durationMs ec =
     (let ec1 = ec\<lparr>node_timings := (node_timings ec)(node_id n \<mapsto> durationMs)\<rparr>;
          outputData = (case result_output res of None \<Rightarrow> Map.empty | Some d \<Rightarrow> d);
          outputStatus = (if result_error res \<noteq> None then ''error'' else ''success'')
      in ec1\<lparr>exec_ledger := Record (Some \<lparr>out_node_id = node_id n, out_node_type = node_type n,
           out_node_label = node_label n, out_status = outputStatus, out_handle = next_handle res,
           out_data = outputData, out_duration_ms = durationMs\<rparr>) (exec_ledger ec1)\<rparr>)"

datatype visit = Stop "run_error option" | Follow graph_node

record run =
  run_ctx :: exec_context
  run_events :: "event list"
  run_writes :: "cache_op list"

definition visit_node :: "env \<Rightarrow> engine \<Rightarrow> graph \<Rightarrow> nat \<Rightarrow> graph_node \<Rightarrow> exec_context \<Rightarrow> visit \<times> run" where
  "visit_node env e g i n ec =
     (case executors e (node_type n) of
        None \<Rightarrow>
          (Stop (Some (NoExecutor (node_type n))),
           \<lparr>run_ctx = ec, run_events = emit ec [(node_event ''node.error'' n)
              \<lparr>ev_error := ''no executor for node type: '' @ node_type n\<rparr>], run_writes = []\<rparr>)
      | Some ex \<Rightarrow>
          let started = emit ec [node_event ''node.started'' n];
              (res, ec1, evs) = ex n (ClearNodeData ec);
              durationMs = node_ms env i;
              ec2 = record_result n res durationMs ec1
          in case result_error res of
               Some err \<Rightarrow>
                 (Stop (Some (NodeFailed (node_id n) (node_type n) err)),
                  \<lparr>run_ctx = ec2,
                   run_events = started @ emit ec2 evs @ emit ec2 [(node_event ''node.error'' n)
                     \<lparr>ev_error := err, ev_duration_ms := durationMs, ev_data := copyMap (node_data ec2)\<rparr>],
                   run_writes = []\<rparr>)
             | None \<Rightarrow>
                 let completed = emit ec2 [(node_event ''node.completed'' n)
                       \<lparr>ev_duration_ms := durationMs, ev_data := copyMap (node_data ec2)\<rparr>];
                     (ec3, writes) = cache_after e n ec2;
                     next_node = (if node_type n = ''response'' then None
                                  else ResolveNextNode g (node_id n) (next_handle res))
                 in (case next_node of None \<Rightarrow> Stop None | Some m \<Rightarrow> Follow m,
                     \<lparr>run_ctx = ec3, run_events = started @ emit ec2 evs @ completed,
                      run_writes = writes\<rparr>))"

section \<open>The traversal\<close>

definition node_ids :: "graph \<Rightarrow> string set" where
  "node_ids g = node_id ` ran (map_of (graph_nodes g))"

lemma finite_node_ids [simp]: "finite (node_ids g)"
  by (simp add: node_ids_def finite_ran finite_dom_map_of)

lemma follow_in_graph:
  "fst (visit_node env e g i n ec) = Follow m \<Longrightarrow>
     \<exists>h. ResolveNextNode g (node_id n) h = Some m \<and> node_type n \<noteq> ''response''"
  unfolding visit_node_def by (auto simp: Let_def split: option.splits prod.splits if_splits)

lemma resolved_in_graph: "ResolveNextNode g c h = Some m \<Longrightarrow> node_id m \<in> node_ids g"
  by (auto elim!: ResolveNextNode_SomeD simp: node_ids_def ran_def)

function traverse ::
  "env \<Rightarrow> engine \<Rightarrow> graph \<Rightarrow> nat \<Rightarrow> string list \<Rightarrow> graph_node \<Rightarrow> run \<Rightarrow> run_error option \<times> run"
where
  "traverse env e g i visited n r =
     (let ec = run_ctx r in
      if ctx_done env i then
        (Some Cancelled, r\<lparr>run_events := run_events r @ emit ec
           [no_event\<lparr>ev_type := ''error'', ev_error := ''execution cancelled''\<rparr>]\<rparr>)
      else if node_id n \<in> set visited then
        (Some (CycleDetected (node_id n)), r\<lparr>run_events := run_events r @ emit ec
           [no_event\<lparr>ev_type := ''error'', ev_node_id := node_id n,
              ev_error := ''cycle detected at node '' @ node_id n\<rparr>]\<rparr>)
      else
        (case visit_node env e g i n ec of
           (v, r1) \<Rightarrow>
             let r2 = \<lparr>run_ctx = run_ctx r1, run_events = run_events r @ run_events r1,
                       run_writes = run_writes r @ run_writes r1\<rparr>
             in (case v of
                   Stop err \<Rightarrow> (err, r2)
                 | Follow m \<Rightarrow> traverse env e g (i + 1) (node_id n # visited) m r2)))"
  by pat_completeness auto

termination
proof (relation "measure (\<lambda>(env, e, g, i, visited, n, r). card (insert (node_id n) (node_ids g) - set visited))",
    goal_cases)
  case 1
  show ?case by simp
next
  case (2 env e g i visited n r ec v r1 r2 m)
  then have "fst (visit_node env e g i n (run_ctx r)) = Follow m" by (metis fst_conv)
  then have m: "node_id m \<in> node_ids g" using follow_in_graph resolved_in_graph by blast
  from 2 have n: "node_id n \<notin> set visited" by simp
  have "insert (node_id m) (node_ids g) - set (node_id n # visited)
      \<subset> insert (node_id n) (node_ids g) - set visited"
    using m n by auto
  then show ?case by (simp add: psubset_card_mono)
qed

declare traverse.simps [simp del]

section \<open>A whole execution\<close>

definition response_content :: "exec_context \<Rightarrow> string" where
  "response_content ec = (case response_text (response ec) of None \<Rightarrow> '''' | Some t \<Rightarrow> t)"

definition done_data :: "env \<Rightarrow> exec_context \<Rightarrow> string \<rightharpoonup> string" where
  "done_data env ec =
     (let d0 = [''total_duration_ms'' \<mapsto> decimal (total_ms env)];
          d1 = (case response ec of
                  None \<Rightarrow> d0
                | Some resp \<Rightarrow> d0(''total_tokens'' \<mapsto> decimal (total_tokens resp),
                    ''prompt_tokens'' \<mapsto> decimal (prompt_tokens resp),
                    ''completion_tokens'' \<mapsto> decimal (completion_tokens resp)))
      in if response_content ec \<noteq> '''' then d1(''response_content'' \<mapsto> response_content ec) else d1)"

definition finish_events :: "env \<Rightarrow> exec_context \<Rightarrow> event list" where
  "finish_events env ec =
     (if \<not> streaming_enabled ec \<and> response_content ec \<noteq> ''''
      then emit ec [no_event\<lparr>ev_type := ''chunk'', ev_chunk := response_content ec\<rparr>] else [])
     @ emit ec [no_event\<lparr>ev_type := ''done'', ev_data := done_data env ec,
                  ev_duration_ms := total_ms env\<rparr>]"

definition Execute :: "env \<Rightarrow> engine \<Rightarrow> graph \<Rightarrow> exec_context \<Rightarrow> run_error option \<times> run" where
  "Execute env e g ec =
     (let r0 = \<lparr>run_ctx = ec, run_events = [], run_writes = []\<rparr> in
      if start_id g = '''' then (Some NoStart, r0)
      else
        case (case map_of (graph_nodes g) (start_id g) of
                None \<Rightarrow> (None, r0)
              | Some n \<Rightarrow> traverse env e g 0 [] n r0) of
          (Some err, r) \<Rightarrow> (Some err, r)
        | (None, r) \<Rightarrow> (None, r\<lparr>run_events := run_events r @ finish_events env (run_ctx r)\<rparr>))"

end
