(* ===== verification/WorkflowRun.thy ===== *)
theory WorkflowRun
  imports WorkflowEngine
begin

text \<open>
  What an execution does, read off the events it emits: each node runs at most once, the
  nodes run form a path of the graph from its start, the ledger lists them in order, and on
  an acyclic graph whose executors succeed the execution reaches its done event.
\<close>

section \<open>Reading a trace\<close>

definition ids_of :: "string \<Rightarrow> event list \<Rightarrow> string list" where
  "ids_of t evs = map ev_node_id (filter (\<lambda>ev. ev_type ev = t) evs)"

abbreviation started :: "event list \<Rightarrow> string list" where
  "started \<equiv> ids_of ''node.started''"

abbreviation completed :: "event list \<Rightarrow> string list" where
  "completed \<equiv> ids_of ''node.completed''"

lemma ids_of_simps [simp]:
  "ids_of t [] = []"
  "ids_of t (ev # evs) = (if ev_type ev = t then ev_node_id ev # ids_of t evs else ids_of t evs)"
  "ids_of t (a @ b) = ids_of t a @ ids_of t b"
  by (simp_all add: ids_of_def)

definition engine_types :: "string set" where
  "engine_types = {''node.started'', ''node.completed'', ''node.error'', ''error'', ''done''}"

text \<open>
  What the engine expects of its executors: they emit none of the engine's own events, and
  they leave the event callback and the ledger as they found them.
\<close>

definition well_behaved :: "engine \<Rightarrow> bool" where
  "well_behaved e \<longleftrightarrow>
     (\<forall>ty ex n ec. executors e ty = Some ex \<longrightarrow>
        (\<forall>ev \<in> set (snd (snd (ex n ec))). ev_type ev \<notin> engine_types) \<and>
        has_on_event (fst (snd (ex n ec))) = has_on_event ec \<and>
        exec_ledger (fst (snd (ex n ec))) = exec_ledger ec)"

definition quiet :: "event list \<Rightarrow> bool" where
  "quiet evs \<longleftrightarrow> (\<forall>ev \<in> set evs. ev_type ev \<notin> engine_types)"

lemma ids_of_quiet: "quiet evs \<Longrightarrow> t \<in> engine_types \<Longrightarrow> ids_of t evs = []"
  by (auto simp: quiet_def ids_of_def filter_empty_conv)

definition failed :: "run_error option \<Rightarrow> bool" where
  "failed err \<longleftrightarrow> (\<exists>a b c. err = Some (NodeFailed a b c))"

definition edge_step :: "graph \<Rightarrow> string \<Rightarrow> string \<Rightarrow> bool" where
  "edge_step g a b \<longleftrightarrow> (\<exists>h m. ResolveNextNode g a h = Some m \<and> node_id m = b)"

section \<open>One node\<close>

lemma event_types [simp]:
  "ev_type (node_event t n) = t" "ev_node_id (node_event t n) = node_id n"
  "ev_type no_event = ''''"
  by (simp_all add: node_event_def no_event_def)

lemma ctx_record_result [simp]:
  "has_on_event (record_result n res ms ec) = has_on_event ec"
  "\<exists>out. exec_ledger (record_result n res ms ec) = Record (Some out) (exec_ledger ec) \<and>
     out_node_id out = node_id n \<and>
     out_status out = (if result_error res = None then ''success'' else ''error'')"
  by (auto simp: record_result_def Let_def)

lemma ctx_cache_after [simp]:
  "has_on_event (fst (cache_after e n ec)) = has_on_event ec"
  "exec_ledger (fst (cache_after e n ec)) = exec_ledger ec"
  by (auto simp: cache_after_def)

lemma ctx_ClearNodeData [simp]:
  "has_on_event (ClearNodeData ec) = has_on_event ec"
  "exec_ledger (ClearNodeData ec) = exec_ledger ec"
  by (simp_all add: ClearNodeData_def)

lemma visit_cases:
  assumes wb: "well_behaved e" and on: "has_on_event ec"
    and v: "visit_node env e g i n ec = (v, r1)"
  obtains (missing) "v = Stop (Some (NoExecutor (node_type n)))" "run_ctx r1 = ec"
      "started (run_events r1) = []" "completed (run_events r1) = []" "ids_of ''done'' (run_events r1) = []"
    | (error) out err where "v = Stop (Some (NodeFailed (node_id n) (node_type n) err))"
      "has_on_event (run_ctx r1)" "exec_ledger (run_ctx r1) = Record (Some out) (exec_ledger ec)"
      "out_node_id out = node_id n" "out_status out = ''error''"
      "started (run_events r1) = [node_id n]" "completed (run_events r1) = []"
      "ids_of ''done'' (run_events r1) = []"
    | (success) out where "v = Stop None \<or> (\<exists>m. v = Follow m)"
      "has_on_event (run_ctx r1)" "exec_ledger (run_ctx r1) = Record (Some out) (exec_ledger ec)"
      "out_node_id out = node_id n" "out_status out = ''success''"
      "started (run_events r1) = [node_id n]" "completed (run_events r1) = [node_id n]"
      "ids_of ''done'' (run_events r1) = []"
proof (cases "executors e (node_type n)")
  case None
  with v on show thesis by (intro missing) (auto simp: visit_node_def emit_def)
next
  case (Some ex)
  obtain res ec1 evs where ex: "ex n (ClearNodeData ec) = (res, ec1, evs)"
    by (cases "ex n (ClearNodeData ec)") auto
  from wb Some ex have q: "quiet evs" and on1: "has_on_event ec1" and l1: "exec_ledger ec1 = exec_ledger ec"
    unfolding well_behaved_def quiet_def using on by (metis ctx_ClearNodeData fst_conv snd_conv)+
  have none: "started evs = []" "completed evs = []" "ids_of ''done'' evs = []"
    using q by (simp_all add: ids_of_quiet engine_types_def)
  let ?ec2 = "record_result n res (node_ms env i) ec1"
  obtain out where out: "exec_ledger ?ec2 = Record (Some out) (exec_ledger ec)"
    "out_node_id out = node_id n"
    "out_status out = (if result_error res = None then ''success'' else ''error'')"
    using ctx_record_result(2) [of n res "node_ms env i" ec1] l1 by auto
  show thesis
  proof (cases "result_error res")
    case None
    obtain ec3 writes where c: "cache_after e n ?ec2 = (ec3, writes)" by fastforce
    with ctx_cache_after [of e n ?ec2] have k: "has_on_event ec3 = has_on_event ?ec2"
      "exec_ledger ec3 = exec_ledger ?ec2" by simp_all
    have "v = Stop None \<or> (\<exists>m. v = Follow m)"
      using v Some ex None c by (auto simp: visit_node_def Let_def split: option.splits)
    moreover have "run_ctx r1 = ec3"
      using v Some ex None c by (auto simp: visit_node_def Let_def)
    moreover have "run_events r1 = node_event ''node.started'' n # evs @ [(node_event ''node.completed'' n)
        \<lparr>ev_duration_ms := node_ms env i, ev_data := copyMap (node_data ?ec2)\<rparr>]"
      using v Some ex None c on on1 by (auto simp: visit_node_def Let_def emit_def)
    ultimately show thesis using k out none on1 None by (intro success [of out]) simp_all
  next
    case (Some err)
    with v \<open>executors e (node_type n) = Some ex\<close> ex on on1 none out show thesis
      by (intro error) (auto simp: visit_node_def emit_def Let_def)
  qed
qed

section \<open>The traversal\<close>

definition ran_nodes :: "graph \<Rightarrow> string \<Rightarrow> run_error option \<Rightarrow> event list \<Rightarrow> bool" where
  "ran_nodes g start err evs \<longleftrightarrow>
     distinct (started evs) \<and> set (started evs) \<subseteq> node_ids g \<and>
     (started evs \<noteq> [] \<longrightarrow> hd (started evs) = start) \<and>
     successively (edge_step g) (started evs) \<and>
     completed evs = (if failed err then butlast (started evs) else started evs) \<and>
     (failed err \<longrightarrow> started evs \<noteq> [])"

definition logged :: "run_error option \<Rightarrow> string list \<Rightarrow> node_output list \<Rightarrow> bool" where
  "logged err ids outs \<longleftrightarrow>
     map out_node_id outs = ids \<and>
     (\<forall>out \<in> set (if failed err then butlast outs else outs). out_status out = ''success'') \<and>
     (failed err \<longrightarrow> outs \<noteq> [] \<and> out_status (last outs) = ''error'')"

lemma traverse_trace:
  assumes "well_behaved e" and "keyed g"
    and "has_on_event (run_ctx r)" and "map_of (graph_nodes g) (node_id n) = Some n"
    and "traverse env e g i visited n r = (err, r')"
  shows "\<exists>evs outs. run_events r' = run_events r @ evs \<and> ran_nodes g (node_id n) err evs \<and>
    set (started evs) \<inter> set visited = {} \<and> ids_of ''done'' evs = [] \<and>
    has_on_event (run_ctx r') \<and>
    exec_ledger (run_ctx r') = fold (\<lambda>x. Record (Some x)) outs (exec_ledger (run_ctx r)) \<and>
    logged err (started evs) outs"
  using assms
proof (induction env e g i visited n r arbitrary: err r' rule: traverse.induct)
  case (1 env e g i visited n r)
  note T = 1(6) [unfolded traverse.simps [of env e g i visited n r] Let_def]
  let ?stop = "\<lambda>evs. run_events r' = run_events r @ evs \<and> run_ctx r' = run_ctx r \<and>
    started evs = [] \<and> completed evs = [] \<and> ids_of ''done'' evs = [] \<and> \<not> failed err"
  have here: "node_id n \<in> node_ids g" using 1(5) by (auto simp: node_ids_def ran_def)
  show ?case
  proof (cases "ctx_done env i \<or> node_id n \<in> set visited")
    case True
    then have "\<exists>evs. ?stop evs" using T by (auto simp: emit_def failed_def split: if_splits)
    then obtain evs where "?stop evs" by blast
    then show ?thesis
      using 1(4) by (intro exI [of _ evs] exI [of _ "[]"]) (simp add: ran_nodes_def logged_def)
  next
    case False
    then have nv: "node_id n \<notin> set visited" by simp
    obtain v r1 where v: "visit_node env e g i n (run_ctx r) = (v, r1)" by fastforce
    let ?r2 = "\<lparr>run_ctx = run_ctx r1, run_events = run_events r @ run_events r1,
      run_writes = run_writes r @ run_writes r1\<rparr>"
    have T': "(case v of Stop err \<Rightarrow> (err, ?r2)
        | Follow m \<Rightarrow> traverse env e g (i + 1) (node_id n # visited) m ?r2) = (err, r')"
      using T False v by simp
    from 1(2) 1(4) v show ?thesis
    proof (cases rule: visit_cases)
      case missing
      with T' have "?stop (run_events r1)" by (auto simp: failed_def)
      then show ?thesis
        using 1(4) by (intro exI [of _ "run_events r1"] exI [of _ "[]"])
          (simp add: ran_nodes_def logged_def)
    next
      case (error out er)
      with T' here nv show ?thesis
        by (intro exI [of _ "run_events r1"] exI [of _ "[out]"])
           (auto simp: ran_nodes_def logged_def failed_def)
    next
      case (success out)
      from success(1) show ?thesis
      proof
        assume "v = Stop None"
        with T' success here nv show ?thesis
          by (intro exI [of _ "run_events r1"] exI [of _ "[out]"])
             (auto simp: ran_nodes_def logged_def failed_def)
      next
        assume "\<exists>m. v = Follow m"
        then obtain m where m: "v = Follow m" by blast
        with v follow_in_graph [of env e g i n "run_ctx r" m] obtain h
          where h: "ResolveNextNode g (node_id n) h = Some m" by auto
        then have edge: "edge_step g (node_id n) (node_id m)" by (auto simp: edge_step_def)
        from h 1(3) have mm: "map_of (graph_nodes g) (node_id m) = Some m"
          by (auto simp: keyed_def elim!: ResolveNextNode_SomeD)
        from T' m have tr: "traverse env e g (i + 1) (node_id n # visited) m ?r2 = (err, r')" by simp
        from 1(1) [OF refl _ _ v [symmetric] refl m 1(2,3) _ mm tr] False success(2)
        obtain evs outs where IH: "run_events r' = run_events ?r2 @ evs"
          "ran_nodes g (node_id m) err evs" "set (started evs) \<inter> set (node_id n # visited) = {}"
          "ids_of ''done'' evs = []" "has_on_event (run_ctx r')"
          "exec_ledger (run_ctx r') = fold (\<lambda>x. Record (Some x)) outs (exec_ledger (run_ctx ?r2))"
          "logged err (started evs) outs" by auto
        have "ran_nodes g (node_id n) err (run_events r1 @ evs)"
          using IH(2,3) success(6,7) here edge
          by (auto simp: ran_nodes_def successively_Cons)
        moreover have "logged err (started (run_events r1 @ evs)) (out # outs)"
          using IH(7) success(4,5,6) by (auto simp: logged_def)
        ultimately show ?thesis
          using IH success(3,6,8) nv
          by (intro exI [of _ "run_events r1 @ evs"] exI [of _ "out # outs"]) auto
      qed
    qed
  qed
qed

section \<open>Whole executions\<close>

lemma finish_events_ids [simp]:
  "started (finish_events env ec) = []" "completed (finish_events env ec) = []"
  "has_on_event ec \<Longrightarrow> ids_of ''done'' (finish_events env ec) = ['''']"
  by (simp_all add: finish_events_def emit_def no_event_def)

lemma execute_trace:
  assumes wb: "well_behaved e" and k: "keyed g" and on: "has_on_event ec"
    and run: "Execute env e g ec = (err, r)"
  shows "\<exists>evs outs. run_events r = evs @ (if err = None then finish_events env (run_ctx r) else []) \<and>
    ran_nodes g (start_id g) err evs \<and> ids_of ''done'' evs = [] \<and> has_on_event (run_ctx r) \<and>
    exec_ledger (run_ctx r) = fold (\<lambda>x. Record (Some x)) outs (exec_ledger ec) \<and>
    logged err (started evs) outs"
proof -
  let ?r0 = "\<lparr>run_ctx = ec, run_events = [], run_writes = []\<rparr>"
  have idle: "ran_nodes g (start_id g) (Some NoStart) [] \<and> ran_nodes g (start_id g) None []"
    "logged (Some NoStart) [] [] \<and> logged None [] []"
    by (simp_all add: ran_nodes_def logged_def failed_def)
  show ?thesis
  proof (cases "start_id g = '''' \<or> map_of (graph_nodes g) (start_id g) = None")
    case True
    with run on idle show ?thesis
      by (intro exI [of _ "[]"]) (auto simp: Execute_def Let_def split: if_splits)
  next
    case False
    then obtain n where n: "map_of (graph_nodes g) (start_id g) = Some n" by blast
    with k have id: "node_id n = start_id g" by (auto simp: keyed_def)
    obtain err1 r1 where t: "traverse env e g 0 [] n ?r0 = (err1, r1)" by fastforce
    with run False n have eq: "err = err1"
      "r = (if err1 = None then r1\<lparr>run_events := run_events r1 @ finish_events env (run_ctx r1)\<rparr> else r1)"
      by (auto simp: Execute_def Let_def split: option.splits)
    from traverse_trace [OF wb k _ _ t] n id on obtain evs outs where
      "run_events r1 = evs" "ran_nodes g (start_id g) err1 evs" "ids_of ''done'' evs = []"
      "has_on_event (run_ctx r1)"
      "exec_ledger (run_ctx r1) = fold (\<lambda>x. Record (Some x)) outs (exec_ledger ec)"
      "logged err1 (started evs) outs" by auto
    with eq show ?thesis by (intro exI [of _ evs] exI [of _ outs]) simp
  qed
qed

text \<open>
  C16: an execution visits each node at most once, so it always ends. The nodes started are
  nodes of the graph, the first is the start node, each next one is the target
  \<open>ResolveNextNode\<close> gives for some handle of the one before; every started node is completed,
  except the last when a node failed; and exactly one done event is emitted when the
  execution succeeds, none when it returns an error.
\<close>

theorem execution_is_path:
  assumes "well_behaved e" and "keyed g" and "has_on_event ec"
    and "Execute env e g ec = (err, r)"
  shows "let ids = started (run_events r) in
    distinct ids \<and> set ids \<subseteq> node_ids g \<and> length ids \<le> card (node_ids g) \<and>
    (ids \<noteq> [] \<longrightarrow> hd ids = start_id g) \<and> successively (edge_step g) ids \<and>
    completed (run_events r) = (if failed err then butlast ids else ids) \<and>
    length (ids_of ''done'' (run_events r)) = (if err = None then 1 else 0)"
proof -
  obtain evs where e: "run_events r = evs @ (if err = None then finish_events env (run_ctx r) else [])"
    "ran_nodes g (start_id g) err evs" "ids_of ''done'' evs = []" "has_on_event (run_ctx r)"
    using execute_trace [OF assms] by blast
  then have "card (set (started evs)) \<le> card (node_ids g)" "distinct (started evs)"
    by (auto simp: ran_nodes_def intro: card_mono)
  then have "length (started evs) \<le> card (node_ids g)" by (simp add: distinct_card)
  with e show ?thesis by (simp add: Let_def ran_nodes_def)
qed

text \<open>
  C17: the ledger an execution leaves is the one it began with, extended by one output for
  each node started, in the order they started, all of them successful but the last when a
  node failed, and a lookup of a node that ran gives its output.
\<close>

theorem ledger_is_trace:
  assumes "well_behaved e" and "keyed g" and "has_on_event ec"
    and "Execute env e g ec = (err, r)"
  shows "\<exists>outs. entries (exec_ledger (run_ctx r)) = entries (exec_ledger ec) @ outs \<and>
    logged err (started (run_events r)) outs \<and>
    (\<forall>out \<in> set outs. out_node_id out \<noteq> '''' \<longrightarrow>
       Get (exec_ledger (run_ctx r)) (out_node_id out) = Some out)"
proof -
  obtain evs outs where e: "run_events r = evs @ (if err = None then finish_events env (run_ctx r) else [])"
    "ran_nodes g (start_id g) err evs"
    "exec_ledger (run_ctx r) = fold (\<lambda>x. Record (Some x)) outs (exec_ledger ec)"
    "logged err (started evs) outs"
    using execute_trace [OF assms] by blast
  then have d: "distinct (map out_node_id outs)" by (simp add: ran_nodes_def logged_def)
  have "find (\<lambda>x. out_node_id x = out_node_id out) (rev outs) = Some out" if "out \<in> set outs" for out
  proof -
    from that have "find (\<lambda>x. out_node_id x = out_node_id out) (rev outs) \<noteq> None"
      by (auto simp: find_None_iff)
    then obtain x where x: "find (\<lambda>x. out_node_id x = out_node_id out) (rev outs) = Some x" by blast
    then have "x \<in> set outs" "out_node_id x = out_node_id out"
      by (auto simp: find_Some_iff) (metis length_rev nth_mem set_rev)
    with d that have "x = out" by (metis distinct_map inj_onD)
    with x show ?thesis by simp
  qed
  with e show ?thesis
    by (intro exI [of _ outs]) (cases err; simp add: ids.outs_fold ids.look_fold)
qed

section \<open>Completion\<close>

definition acyclic_by :: "(string \<Rightarrow> nat) \<Rightarrow> graph \<Rightarrow> bool" where
  "acyclic_by rank g \<longleftrightarrow>
     (\<forall>k m x. map_of (graph_nodes g) k = Some m \<and> x \<in> set (out_edges m) \<and>
        map_of (graph_nodes g) (edge_target x) \<noteq> None \<longrightarrow> rank (edge_target x) < rank k)"

definition never_fails :: "engine \<Rightarrow> graph \<Rightarrow> bool" where
  "never_fails e g \<longleftrightarrow>
     (\<forall>k m. map_of (graph_nodes g) k = Some m \<longrightarrow>
        (\<exists>ex. executors e (node_type m) = Some ex \<and> (\<forall>ec. result_error (fst (ex m ec)) = None)))"

lemma visit_never_fails:
  assumes "never_fails e g" and "map_of (graph_nodes g) k = Some n"
    and "visit_node env e g i n ec = (v, r1)"
  shows "v = Stop None \<or> (\<exists>m. v = Follow m)"
proof -
  from assms(1,2) obtain ex where ex: "executors e (node_type n) = Some ex"
    "\<And>ec. result_error (fst (ex n ec)) = None" unfolding never_fails_def by blast
  obtain res ec1 evs where c: "ex n (ClearNodeData ec) = (res, ec1, evs)" by (metis prod_cases3)
  with ex(2) [of "ClearNodeData ec"] have "result_error res = None" by simp
  with assms(3) ex(1) c show ?thesis
    by (auto simp: visit_node_def Let_def split: option.splits prod.splits)
qed

lemma traverse_completes:
  assumes "keyed g" and "acyclic_by rank g" and "never_fails e g" and "\<forall>i. \<not> ctx_done env i"
    and "map_of (graph_nodes g) (node_id n) = Some n"
    and "\<forall>v \<in> set visited. rank (node_id n) < rank v"
  shows "fst (traverse env e g i visited n r) = None"
  using assms
proof (induction env e g i visited n r rule: traverse.induct)
  case (1 env e g i visited n r)
  then have fresh: "node_id n \<notin> set visited" by auto
  obtain v r1 where v: "visit_node env e g i n (run_ctx r) = (v, r1)" by fastforce
  from visit_never_fails [OF 1(4,6) v] show ?case
  proof
    assume "v = Stop None"
    with v 1(5) fresh show ?thesis by (simp add: traverse.simps [of env e g i visited n r] Let_def)
  next
    assume "\<exists>m. v = Follow m"
    then obtain m where m: "v = Follow m" by blast
    with v follow_in_graph [of env e g i n "run_ctx r" m] obtain h
      where "ResolveNextNode g (node_id n) h = Some m" by auto
    then obtain x where x: "x \<in> set (out_edges n)" "map_of (graph_nodes g) (edge_target x) = Some m"
      using 1(6) by (auto elim!: ResolveNextNode_SomeD)
    with 1(2) have mm: "node_id m = edge_target x" by (auto simp: keyed_def)
    with x 1(3,6) have "rank (node_id m) < rank (node_id n)" unfolding acyclic_by_def by auto
    then have "\<forall>w \<in> set (node_id n # visited). rank (node_id m) < rank w" using 1(7) by auto
    with 1(1) [OF refl _ fresh v [symmetric] refl m 1(2-5)] x mm 1(5) v m fresh show ?thesis
      by (simp add: traverse.simps [of env e g i visited n r] Let_def)
  qed
qed

text \<open>
  on a graph without cycles, when the request is not cancelled and every node has an
  executor that succeeds, the execution returns without an error, whatever handles the
  executors choose; so a cycle error is only ever reported for a graph that has a cycle.
\<close>

theorem execution_completes:
  assumes "keyed g" and "acyclic_by rank g" and "never_fails e g" and "\<forall>i. \<not> ctx_done env i"
    and "start_id g \<noteq> ''''"
  shows "fst (Execute env e g ec) = None"
proof (cases "map_of (graph_nodes g) (start_id g)")
  case None
  with assms show ?thesis by (simp add: Execute_def Let_def)
next
  case (Some n)
  with assms(1) have "map_of (graph_nodes g) (node_id n) = Some n" by (auto simp: keyed_def)
  from traverse_completes [OF assms(1-4) this, of "[]"] Some assms(5) show ?thesis
    by (auto simp: Execute_def Let_def split: option.splits prod.splits) (metis fst_conv option.distinct(1))
qed

section \<open>An example\<close>

definition demo_graph :: graph where
  "demo_graph = fold add_edge demo_edges
     \<lparr>graph_nodes = map (\<lambda>rn. (rn_id rn, node_of rn)) demo_nodes, graph_edges = [], start_id = ''s''\<rparr>"

definition demo_executor :: node_executor where
  "demo_executor n ec =
     (\<lparr>next_handle = ''out'', result_error = None, result_output = Some [''content'' \<mapsto> GoStr ''hi'']\<rparr>,
      ec, [])"

definition demo_engine :: engine where
  "demo_engine = RegisterExecutor ''start'' demo_executor (RegisterExecutor ''provider'' demo_executor
     (RegisterExecutor ''response'' demo_executor (NewEngine False)))"

definition demo_env :: env where
  "demo_env = \<lparr>ctx_done = (\<lambda>_. False), node_ms = (\<lambda>_. 5), total_ms = 17\<rparr>"

definition listening :: exec_context where
  "listening = NewExecutionContext\<lparr>has_on_event := True\<rparr>"

lemma demo_nodes_of:
  "map_of (graph_nodes demo_graph) k =
     (if k \<in> {''s'', ''p'', ''r''}
      then map_option (\<lambda>rn. wired demo_edges k (node_of rn)) (declared demo_nodes k) else None)"
  using fold_add_edge [of demo_edges "\<lparr>graph_nodes = map (\<lambda>rn. (rn_id rn, node_of rn)) demo_nodes,
      graph_edges = [], start_id = ''s''\<rparr>"]
  by (auto simp: demo_graph_def declared_def demo_nodes_def)

lemma demo_graph_ok: "keyed demo_graph" "start_id demo_graph = ''s''"
proof -
  show "keyed demo_graph"
    unfolding keyed_def demo_nodes_of using declared_in by (fastforce split: if_splits)
  show "start_id demo_graph = ''s''" by (simp add: demo_graph_def fold_add_edge)
qed

lemma demo_engine_ok: "well_behaved demo_engine" "never_fails demo_engine demo_graph"
  by (auto simp: well_behaved_def never_fails_def demo_engine_def RegisterExecutor_def NewEngine_def
      demo_executor_def demo_nodes_of declared_def demo_nodes_def split: if_splits)

lemma demo_run:
  "fst (Execute demo_env demo_engine demo_graph listening) = None"
  "started (run_events (snd (Execute demo_env demo_engine demo_graph listening))) = [''s'', ''p'', ''r'']"
  by code_simp+

theorem execution_is_path_witness:
  "\<exists>r. Execute demo_env demo_engine demo_graph listening = (None, r) \<and>
     started (run_events r) = [''s'', ''p'', ''r''] \<and> completed (run_events r) = started (run_events r) \<and>
     length (ids_of ''done'' (run_events r)) = 1"
proof -
  obtain r where r: "Execute demo_env demo_engine demo_graph listening = (None, r)"
    using demo_run(1) by (metis prod.collapse)
  from execution_is_path [OF demo_engine_ok(1) demo_graph_ok(1) _ r] r demo_run(2) show ?thesis
    by (simp add: Let_def failed_def listening_def)
qed

theorem ledger_is_trace_witness:
  "\<exists>r outs. Execute demo_env demo_engine demo_graph listening = (None, r) \<and>
     entries (exec_ledger (run_ctx r)) = outs \<and> map out_node_id outs = [''s'', ''p'', ''r'']"
proof -
  obtain r where r: "Execute demo_env demo_engine demo_graph listening = (None, r)"
    using demo_run(1) by (metis prod.collapse)
  from ledger_is_trace [OF demo_engine_ok(1) demo_graph_ok(1) _ r] r demo_run(2) show ?thesis
    by (auto simp: logged_def listening_def NewExecutionContext_def NewExecutionLedger_def)
qed

theorem execution_completes_witness:
  "fst (Execute demo_env demo_engine demo_graph NewExecutionContext) = None"
proof (rule execution_completes)
  show "acyclic_by (\<lambda>k. if k = ''s'' then 2 else if k = ''p'' then 1 else 0) demo_graph"
    by (auto simp: acyclic_by_def demo_nodes_of declared_def demo_nodes_def wired_def node_of_def
        demo_edges_def edge_of_def split: if_splits)
qed (simp_all add: demo_graph_ok demo_engine_ok demo_env_def)

end
