(* ===== verification/WorkflowTemplate.thy ===== *)
theory WorkflowTemplate
  imports WorkflowResolver
begin

text \<open>
  What template interpolation computes: a single-pass reference \<open>expand\<close> and the theorem
  that relates the loop of \<open>InterpolateTemplate\<close> to it. The loop returns exactly when every
  hole of the template resolves, as long as no substituted value holds a brace; two lemmas
  at the end show what happens when one does.
\<close>

section \<open>Finding the first hole\<close>

fun clean :: "string \<Rightarrow> bool" where
  "clean [] \<longleftrightarrow> True"
| "clean [c] \<longleftrightarrow> c \<noteq> CHR ''{''"
| "clean (c # d # s) \<longleftrightarrow> \<not> (c = CHR ''{'' \<and> d = CHR ''{'') \<and> clean (d # s)"

lemma has_prefix_Cons [simp]:
  "has_prefix (x # xs) (c # p) \<longleftrightarrow> x = c \<and> has_prefix xs p"
  "\<not> has_prefix [] (c # p)"
  by (auto simp: has_prefix_def)

lemma clean_append: "clean p \<Longrightarrow> clean q \<Longrightarrow> clean (p @ q)"
proof (induction p rule: clean.induct)
  case (2 c)
  then show ?case by (cases q) auto
qed auto

lemma clean_no_brace: "CHR ''{'' \<notin> set v \<Longrightarrow> clean v"
  by (induction v rule: clean.induct) auto

lemma index_of_clean:
  "clean p \<Longrightarrow> index_of (p @ s) ''{{'' = map_option (\<lambda>i. length p + i) (index_of s ''{{'')"
proof (induction p rule: clean.induct)
  case 1
  then show ?case by (simp add: option.map_ident)
next
  case (2 c)
  then show ?case by (cases s) auto
next
  case (3 c d s')
  then show ?case by (auto simp: option.map_comp o_def)
qed

lemma clean_before: "index_of s ''{{'' = Some i \<Longrightarrow> clean (take i s)"
proof (induction s arbitrary: i)
  case (Cons x xs)
  show ?case
  proof (cases "has_prefix (x # xs) ''{{''")
    case True
    with Cons.prems show ?thesis by simp
  next
    case False
    with Cons.prems obtain j where j: "index_of xs ''{{'' = Some j" "i = Suc j" by auto
    from Cons.IH [OF j(1)] have "clean (take j xs)" .
    moreover from index_of_SomeD [OF j(1)] have "xs \<noteq> []" by auto
    then obtain d ys where xs: "xs = d # ys" by (cases xs) auto
    moreover have "j = 0 \<Longrightarrow> d = CHR ''{''"
      using j(1) xs by (auto split: if_splits)
    moreover from False xs have "\<not> (x = CHR ''{'' \<and> d = CHR ''{'')" if "j \<noteq> 0 \<or> has_prefix ys ''''"
      using that by auto
    ultimately show ?thesis using j(2) False by (cases j) auto
  qed
qed simp

lemma first_hole_SomeD:
  assumes "first_hole s = Some (b, h, r)"
  shows "s = b @ h @ r" "clean b" "h \<noteq> []" "length r < length s" "take 2 h = ''{{''"
proof -
  from assms obtain i e where i: "index_of s ''{{'' = Some i"
    and e: "index_of (drop i s) ''}}'' = Some e"
    and bhr: "b = take i s" "h = take (e + 2) (drop i s)" "r = drop (i + e + 2) s"
    by (auto simp: first_hole_def split: option.splits)
  have r: "r = drop (e + 2) (drop i s)" unfolding bhr drop_drop by (simp add: ac_simps)
  show s: "s = b @ h @ r" unfolding r unfolding bhr(1,2) append_take_drop_id ..
  show "clean b" unfolding bhr by (rule clean_before [OF i])
  from index_of_SomeD [OF i] have p: "take 2 (drop i s) = ''{{''"
    by (simp add: numeral_2_eq_2)
  show "take 2 h = ''{{''" unfolding bhr using p by (simp add: take_take min_def)
  then show ne: "h \<noteq> []" by auto
  from s ne show "length r < length s" by auto
qed

lemma first_hole_clean:
  assumes "clean p"
  shows "first_hole (p @ s) = map_option (\<lambda>(b, h, r). (p @ b, h, r)) (first_hole s)"
  using index_of_clean [OF assms, of s]
  by (auto simp: first_hole_def add.assoc split: option.splits)

section \<open>A single pass\<close>

function expand :: "(string \<Rightarrow> string option) \<Rightarrow> string \<Rightarrow> string" where
  "expand value s =
     (case first_hole s of
        None \<Rightarrow> s
      | Some (b, h, r) \<Rightarrow>
          b @ (case value (hole_expr h) of Some v \<Rightarrow> v | None \<Rightarrow> h) @ expand value r)"
  by pat_completeness auto

termination
  by (relation "measure (\<lambda>(value, s). length s)") (auto dest: first_hole_SomeD(4))

declare expand.simps [simp del]

function holes :: "string \<Rightarrow> string list" where
  "holes s =
     (case first_hole s of None \<Rightarrow> [] | Some (b, h, r) \<Rightarrow> hole_expr h # holes r)"
  by pat_completeness auto

termination
  by (relation "measure length") (auto dest: first_hole_SomeD(4))

declare holes.simps [simp del]

section \<open>The loop against the single pass\<close>

lemma interpolate_stuck:
  assumes "first_hole s = Some (b, h, r)" and "hole_value f l ec (hole_expr h) = None"
  shows "interpolate_loop f l ec s = None"
proof -
  have "interpolate_loop f l ec s' = Some y \<Longrightarrow>
      \<not> (\<exists>b h r. first_hole s' = Some (b, h, r) \<and> hole_value f l ec (hole_expr h) = None)" for s' y
  proof (induct rule: interpolate_loop.raw_induct [rotated, consumes 1])
    case (1 g f1 l1 ec1 s1 y1)
    show ?case
    proof (intro notI, elim exE conjE)
      fix b h r assume h: "first_hole s1 = Some (b, h, r)" "hole_value f1 l1 ec1 (hole_expr h) = None"
      with 1(2) have "g f1 l1 ec1 (b @ h @ r) = Some y1" by simp
      then have "g f1 l1 ec1 s1 = Some y1" using first_hole_SomeD(1) [OF h(1)] by simp
      from 1(1) [OF this] h show False by blast
    qed
  qed
  with assms show ?thesis by (cases "interpolate_loop f l ec s") blast+
qed

lemma interpolate_expand:
  assumes "\<forall>e \<in> set (holes s). \<forall>v. hole_value f l ec e = Some v \<longrightarrow> CHR ''{'' \<notin> set v"
    and "clean p"
  shows "interpolate_loop f l ec (p @ s) =
    (if \<forall>e \<in> set (holes s). hole_value f l ec e \<noteq> None
     then Some (p @ expand (hole_value f l ec) s) else None)"
  using assms
proof (induction s arbitrary: p rule: holes.induct)
  case (1 s)
  show ?case
  proof (cases "first_hole s")
    case None
    with first_hole_clean [OF 1(3), of s] show ?thesis
      by (simp add: interpolate_loop.simps [of f l ec "p @ s"] holes.simps [of s]
          expand.simps [of _ s])
  next
    case (Some bhr)
    obtain b h r where bhr: "bhr = (b, h, r)" by (cases bhr)
    with Some have fh: "first_hole s = Some (b, h, r)" by simp
    with first_hole_clean [OF 1(3), of s] have fp: "first_hole (p @ s) = Some (p @ b, h, r)" by simp
    have hs: "holes s = hole_expr h # holes r" using fh by (simp add: holes.simps [of s])
    show ?thesis
    proof (cases "hole_value f l ec (hole_expr h)")
      case None
      with interpolate_stuck [OF fp None] hs show ?thesis by simp
    next
      case (Some v)
      have "CHR ''{'' \<notin> set v" using 1(2) hs Some by simp
      then have "clean (p @ b @ v)"
        using 1(3) first_hole_SomeD(2) [OF fh] by (simp add: clean_append clean_no_brace)
      moreover have "\<forall>e \<in> set (holes r). \<forall>v. hole_value f l ec e = Some v \<longrightarrow> CHR ''{'' \<notin> set v"
        using 1(2) hs by simp
      ultimately have "interpolate_loop f l ec ((p @ b @ v) @ r) =
          (if \<forall>e \<in> set (holes r). hole_value f l ec e \<noteq> None
           then Some ((p @ b @ v) @ expand (hole_value f l ec) r) else None)"
        using 1(1) [OF fh refl refl] by blast
      moreover have "interpolate_loop f l ec (p @ s) = interpolate_loop f l ec ((p @ b @ v) @ r)"
        using fp Some by (simp add: interpolate_loop.simps [of f l ec "p @ s"])
      moreover have "expand (hole_value f l ec) s = b @ v @ expand (hole_value f l ec) r"
        using fh Some by (simp add: expand.simps [of _ s])
      ultimately show ?thesis using hs Some by simp
    qed
  qed
qed

text \<open>
  C15: when no substituted value contains an opening brace, interpolation returns exactly if
  every hole of the template resolves (a ledger expression, a known variable or a \<open>meta.\<close>
  key), and then the result is the template with each hole replaced once, left to right;
  one hole that names an unknown variable makes the loop run forever.
\<close>

theorem interpolation_exact:
  assumes "\<forall>e \<in> set (holes template). \<forall>v. hole_value f l ec e = Some v \<longrightarrow> CHR ''{'' \<notin> set v"
  shows "InterpolateTemplate f (Some l) template ec =
    (if \<forall>e \<in> set (holes template). hole_value f l ec e \<noteq> None
     then Some (expand (hole_value f l ec) template) else None)"
proof (cases "go_contains template ''{{''")
  case True
  with interpolate_expand [OF assms, of "[]"] show ?thesis
    by (simp add: InterpolateTemplate_def)
next
  case False
  then have "first_hole template = None"
    by (simp add: first_hole_def go_contains_def)
  with False show ?thesis
    by (simp add: InterpolateTemplate_def holes.simps [of template] expand.simps [of _ template])
qed

section \<open>Values that hold braces\<close>

definition demo_fmt :: go_fmt where
  "demo_fmt = \<lparr>json_marshal = (\<lambda>_. None), sprint_v = (\<lambda>_. ''?'')\<rparr>"

definition demo_context :: "string \<Rightarrow> exec_context" where
  "demo_context input = NewExecutionContext\<lparr>
     messages := [\<lparr>msg_role = ''user'', msg_content = [Some input]\<rparr>],
     metadata := [''token'' \<mapsto> ''s3cret''], variables := [''name'' \<mapsto> GoStr ''Ada'']\<rparr>"

definition demo_template :: string where
  "demo_template = ''Hi {{name}}: {{ $input }}''"

lemma demo_holes: "holes demo_template = [''name'', ''$input'']"
  by code_simp

theorem interpolation_exact_witness:
  "InterpolateTemplate demo_fmt (Some NewExecutionLedger) demo_template (demo_context ''yes'') =
     Some ''Hi Ada: yes''"
proof -
  let ?v = "hole_value demo_fmt NewExecutionLedger (demo_context ''yes'')"
  have v: "?v ''name'' = Some ''Ada''" "?v ''$input'' = Some ''yes''" by code_simp+
  have "expand ?v demo_template = ''Hi Ada: yes''" by code_simp
  moreover have "\<forall>e \<in> set (holes demo_template). \<forall>v. ?v e = Some v \<longrightarrow> CHR ''{'' \<notin> set v"
    using v by (simp add: demo_holes)
  ultimately show ?thesis
    using interpolation_exact [of demo_template demo_fmt NewExecutionLedger "demo_context ''yes''"] v
    by (simp add: demo_holes)
qed

text \<open>
  A value is interpolated again, so text a user types is read as template source: it can
  pull request metadata into the prompt, and an unknown name in it makes the call hang.
\<close>

lemma user_text_is_expanded:
  "InterpolateTemplate demo_fmt (Some NewExecutionLedger) ''Q: {{$input}}''
     (demo_context ''{{$meta.token}}'') = Some ''Q: s3cret''"
  by code_simp

lemma user_text_hangs:
  "InterpolateTemplate demo_fmt (Some NewExecutionLedger) ''Q: {{$input}}''
     (demo_context ''{{x}}'') = None"
proof -
  have "first_hole ''Q: {{$input}}'' = Some (''Q: '', ''{{$input}}'', '''')" by code_simp
  moreover have "hole_value demo_fmt NewExecutionLedger (demo_context ''{{x}}'')
      (hole_expr ''{{$input}}'') = Some ''{{x}}''" by code_simp
  moreover have "interpolate_loop demo_fmt NewExecutionLedger (demo_context ''{{x}}'') ''Q: {{x}}'' = None"
  proof (rule interpolate_stuck)
    show "first_hole ''Q: {{x}}'' = Some (''Q: '', ''{{x}}'', '''')" by code_simp
    show "hole_value demo_fmt NewExecutionLedger (demo_context ''{{x}}'') (hole_expr ''{{x}}'') = None"
      by code_simp
  qed
  ultimately have "interpolate_loop demo_fmt NewExecutionLedger (demo_context ''{{x}}'')
      ''Q: {{$input}}'' = None" by (subst interpolate_loop.simps) simp
  moreover have "go_contains ''Q: {{$input}}'' ''{{''" by code_simp
  ultimately show ?thesis by (simp add: InterpolateTemplate_def)
qed

end
