(* ===== verification/ShellFrame.thy ===== *)
theory ShellFrame
  imports Prelude
begin

text \<open>
  The frame protocol between host and guest shells:
  \<open>src/internal/sandbox/firecracker/shellframe/frame.go\<close>. Bytes are \<open>8 word\<close>, lengths and
  codes words of the width the code uses. A reader is the bytes still to come before the
  connection closes, read through \<open>io.ReadFull\<close>; a writer is a state with a write function
  that may fail.
\<close>

unbundle bit_operations_syntax

section \<open>Big-endian integers\<close>

type_synonym byte = "8 word"

definition put_uint16 :: "16 word \<Rightarrow> byte list" where
  "put_uint16 v = [ucast (drop_bit 8 v), ucast v]"

definition get_uint16 :: "byte list \<Rightarrow> 16 word" where
  "get_uint16 b = ucast (b ! 1) OR push_bit 8 (ucast (b ! 0))"

definition put_uint32 :: "32 word \<Rightarrow> byte list" where
  "put_uint32 v = [ucast (drop_bit 24 v), ucast (drop_bit 16 v), ucast (drop_bit 8 v), ucast v]"

definition get_uint32 :: "byte list \<Rightarrow> 32 word" where
  "get_uint32 b = ucast (b ! 3) OR push_bit 8 (ucast (b ! 2)) OR push_bit 16 (ucast (b ! 1))
     OR push_bit 24 (ucast (b ! 0))"

lemma length_put [simp]: "length (put_uint16 v) = 2" "length (put_uint32 w) = 4"
  by (simp_all add: put_uint16_def put_uint32_def)

lemma get_put_uint16 [simp]: "get_uint16 (put_uint16 v) = v"
  by (rule bit_word_eqI) (auto simp: get_uint16_def put_uint16_def bit_simps)

lemma get_put_uint32 [simp]: "get_uint32 (put_uint32 v) = v"
proof (rule bit_word_eqI)
  fix n :: nat assume n: "n < LENGTH(32)"
  have parts: "n < 16 \<or> 16 + (n - 16) = n" "n < 24 \<or> 24 + (n - 24) = n" by arith+
  show "bit (get_uint32 (put_uint32 v)) n \<longleftrightarrow> bit v n"
    by (use parts n in \<open>cases "n < 16"; cases "n < 24"\<close>)
       (auto simp: get_uint32_def put_uint32_def bit_simps)
qed

lemma bit_byte [simp]:
  "\<not> bit (x :: byte) (8 + n)" "\<not> bit (x :: byte) (16 + n)" "\<not> bit (x :: byte) (24 + n)"
  using bit_imp_le_length [of x] by fastforce+

lemma put_get_uint16: "length b = 2 \<Longrightarrow> put_uint16 (get_uint16 b) = b"
proof -
  have "put_uint16 (get_uint16 [x, y]) = [x, y]" for x y
    by (auto simp: get_uint16_def put_uint16_def bit_simps intro!: bit_word_eqI)
  then show "length b = 2 \<Longrightarrow> put_uint16 (get_uint16 b) = b"
    by (auto simp: length_Suc_conv numeral_2_eq_2)
qed

lemma put_get_uint32: "length b = 4 \<Longrightarrow> put_uint32 (get_uint32 b) = b"
proof -
  have "put_uint32 (get_uint32 [x, y, z, w]) = [x, y, z, w]" for x y z w
    by (auto simp: get_uint32_def put_uint32_def bit_simps intro!: bit_word_eqI)
  then show "length b = 4 \<Longrightarrow> put_uint32 (get_uint32 b) = b"
    by (auto simp: length_Suc_conv eval_nat_numeral)
qed

section \<open>Frames\<close>

definition TypeStdin :: byte where "TypeStdin = 1"
definition TypeStdout :: byte where "TypeStdout = 2"
definition TypeResize :: byte where "TypeResize = 3"
definition TypeExit :: byte where "TypeExit = 4"
definition TypeScrollback :: byte where "TypeScrollback = 5"

definition MaxPayload :: nat where
  "MaxPayload = 1048576"

record frame =
  frame_type :: byte
  frame_payload :: "byte list"

datatype 'e write_error = PayloadTooLarge nat | WriteFailed 'e

definition WriteFrame ::
  "(byte list \<Rightarrow> 'w \<Rightarrow> 'e option \<times> 'w) \<Rightarrow> byte \<Rightarrow> byte list \<Rightarrow> 'w \<Rightarrow> 'e write_error option \<times> 'w"
where
  "WriteFrame put t payload w =
     (if length payload > MaxPayload then (Some (PayloadTooLarge (length payload)), w)
      else
        let hdr = t # put_uint32 (of_nat (length payload)) in
        case put hdr w of
          (Some e, w1) \<Rightarrow> (Some (WriteFailed e), w1)
        | (None, w1) \<Rightarrow>
            if length payload > 0
            then case put payload w1 of
                   (Some e, w2) \<Rightarrow> (Some (WriteFailed e), w2)
                 | (None, w2) \<Rightarrow> (None, w2)
            else (None, w1))"

datatype read_error = EOF | UnexpectedEOF | ErrShortPayload

text \<open>\<open>io.ReadFull\<close>: \<open>EOF\<close> only when not a single byte could be read.\<close>

definition read_full :: "nat \<Rightarrow> byte list \<Rightarrow> (read_error + byte list) \<times> byte list" where
  "read_full k s =
     (if k \<le> length s then (Inr (take k s), drop k s)
      else (Inl (if s = [] then EOF else UnexpectedEOF), []))"

definition ReadFrame :: "byte list \<Rightarrow> (read_error + frame) \<times> byte list" where
  "ReadFrame s =
     (case read_full 5 s of
        (Inl e, s1) \<Rightarrow> (Inl e, s1)
      | (Inr hdr, s1) \<Rightarrow>
          let t = hdr ! 0;
              n = get_uint32 (take 4 (drop 1 hdr))
          in if n > of_nat MaxPayload then (Inl ErrShortPayload, s1)
             else if n > 0 then
               (case read_full (unat n) s1 of
                  (Inl e, s2) \<Rightarrow> (Inl e, s2)
                | (Inr payload, s2) \<Rightarrow> (Inr \<lparr>frame_type = t, frame_payload = payload\<rparr>, s2))
             else (Inr \<lparr>frame_type = t, frame_payload = []\<rparr>, s1))"

section \<open>Control payloads\<close>

datatype payload_error = BadLength nat

definition EncodeResize :: "16 word \<Rightarrow> 16 word \<Rightarrow> byte list" where
  "EncodeResize rows cols = put_uint16 rows @ put_uint16 cols"

definition DecodeResize :: "byte list \<Rightarrow> payload_error + 16 word \<times> 16 word" where
  "DecodeResize payload =
     (if length payload \<noteq> 4 then Inl (BadLength (length payload))
      else Inr (get_uint16 (take 2 payload), get_uint16 (take 2 (drop 2 payload))))"

definition ExitFlagSessionTerminated :: byte where
  "ExitFlagSessionTerminated = 1"

text \<open>An exit code is an \<open>int32\<close>: the signed reading of the 32 bits.\<close>

definition EncodeExit :: "32 word \<Rightarrow> byte list" where
  "EncodeExit code = put_uint32 code"

definition EncodeExitWithFlags :: "32 word \<Rightarrow> bool \<Rightarrow> byte list" where
  "EncodeExitWithFlags code sessionTerminated =
     (let flags = (if sessionTerminated then 0 OR ExitFlagSessionTerminated else 0)
      in put_uint32 code @ [flags])"

definition DecodeExit :: "byte list \<Rightarrow> payload_error + int" where
  "DecodeExit payload =
     (if length payload \<noteq> 4 \<and> length payload \<noteq> 5 then Inl (BadLength (length payload))
      else Inr (sint (get_uint32 (take 4 payload))))"

definition DecodeExitWithFlags :: "byte list \<Rightarrow> payload_error + int \<times> byte" where
  "DecodeExitWithFlags payload =
     (if length payload \<noteq> 4 \<and> length payload \<noteq> 5 then Inl (BadLength (length payload))
      else
        let code = sint (get_uint32 (take 4 payload));
            flags = (if length payload = 5 then payload ! 4 else 0)
        in Inr (code, flags))"

section \<open>A connection\<close>

text \<open>A connection that accepts every write, and the frames read from it until an error.\<close>

definition append_bytes :: "byte list \<Rightarrow> byte list \<Rightarrow> unit option \<times> byte list" where
  "append_bytes bs w = (None, w @ bs)"

definition send :: "frame list \<Rightarrow> byte list \<Rightarrow> byte list" where
  "send fs w = fold (\<lambda>f w. snd (WriteFrame append_bytes (frame_type f) (frame_payload f) w)) fs w"

lemma read_shorter: "ReadFrame s = (Inr f, s') \<Longrightarrow> length s' < length s"
  unfolding ReadFrame_def
  by (auto simp: read_full_def Let_def split: if_splits)

function receive :: "byte list \<Rightarrow> frame list \<times> read_error" where
  "receive s =
     (case ReadFrame s of
        (Inl e, _) \<Rightarrow> ([], e)
      | (Inr f, s') \<Rightarrow> (let (fs, e) = receive s' in (f # fs, e)))"
  by pat_completeness auto

termination
  by (relation "measure length") (auto dest: read_shorter [OF sym])

declare receive.simps [simp del]

text \<open>The bytes of one frame.\<close>

definition frame_bytes :: "frame \<Rightarrow> byte list" where
  "frame_bytes f = frame_type f # put_uint32 (of_nat (length (frame_payload f))) @ frame_payload f"

definition sendable :: "frame \<Rightarrow> bool" where
  "sendable f \<longleftrightarrow> length (frame_payload f) \<le> MaxPayload"

lemma write_frame_bytes:
  "WriteFrame append_bytes (frame_type f) (frame_payload f) w =
     (if sendable f then (None, w @ frame_bytes f)
      else (Some (PayloadTooLarge (length (frame_payload f))), w))"
  by (auto simp: WriteFrame_def append_bytes_def frame_bytes_def sendable_def Let_def)

lemma send_bytes: "\<forall>f \<in> set fs. sendable f \<Longrightarrow> send fs w = w @ concat (map frame_bytes fs)"
  by (induction fs arbitrary: w) (simp_all add: send_def write_frame_bytes)

lemma unat_length:
  "k \<le> MaxPayload \<Longrightarrow> unat (of_nat k :: 32 word) = k"
  by (simp add: unat_of_nat MaxPayload_def)

lemma length_le_max:
  "k \<le> MaxPayload \<Longrightarrow> \<not> (of_nat MaxPayload :: 32 word) < of_nat k"
  by (simp add: word_less_nat_alt unat_length)

lemma length_frame_bytes [simp]: "length (frame_bytes f) = 5 + length (frame_payload f)"
  by (simp add: frame_bytes_def)

text \<open>
  What \<open>ReadFrame\<close> does on the first bytes of a frame: the whole frame when they are all
  there, else an end-of-file error.
\<close>

lemma read_frame_bytes:
  assumes "sendable f"
  shows "ReadFrame (frame_bytes f @ s) = (Inr f, s)"
proof -
  let ?n = "of_nat (length (frame_payload f)) :: 32 word"
  have hdr: "take 5 (frame_bytes f @ s) = frame_type f # put_uint32 ?n"
    "drop 5 (frame_bytes f @ s) = frame_payload f @ s"
    by (simp_all add: frame_bytes_def put_uint32_def)
  have max: "\<not> of_nat MaxPayload < ?n" "unat ?n = length (frame_payload f)"
    using assms length_le_max unat_length by (auto simp: sendable_def)
  then have "0 < ?n \<longleftrightarrow> frame_payload f \<noteq> []" by (metis length_0_conv unat_gt_0 word_neq_0_conv neq0_conv)
  with hdr max show ?thesis by (auto simp: ReadFrame_def read_full_def Let_def)
qed

lemma read_frame_cut:
  assumes "sendable f" and "k < length (frame_bytes f)"
  shows "\<exists>s. ReadFrame (take k (frame_bytes f)) =
    (Inl (if k = 0 \<or> k = 5 then EOF else UnexpectedEOF), s)"
proof (cases "k < 5")
  case True
  then show ?thesis using assms(2) by (auto simp: ReadFrame_def read_full_def frame_bytes_def)
next
  case False
  let ?n = "of_nat (length (frame_payload f)) :: 32 word"
  have "take 5 (frame_bytes f) = frame_type f # put_uint32 ?n"
    "drop 5 (frame_bytes f) = frame_payload f"
    by (simp_all add: frame_bytes_def put_uint32_def)
  then have hdr: "take 5 (take k (frame_bytes f)) = frame_type f # put_uint32 ?n"
    "drop 5 (take k (frame_bytes f)) = take (k - 5) (frame_payload f)"
    using False by (simp_all add: min_def drop_take)
  have max: "\<not> of_nat MaxPayload < ?n" "unat ?n = length (frame_payload f)"
    using assms(1) length_le_max unat_length by (auto simp: sendable_def)
  from assms(2) False have short: "k - 5 < length (frame_payload f)" by simp
  with max have "0 < ?n" by (metis gr_zeroI not_less_zero unat_0 word_gt_0)
  with hdr max short False assms(2) show ?thesis
    by (auto simp: ReadFrame_def read_full_def Let_def)
qed

section \<open>The channel\<close>

lemma send_Cons: "\<forall>f \<in> set (f1 # fs). sendable f \<Longrightarrow> send (f1 # fs) [] = frame_bytes f1 @ send fs []"
  using send_bytes [of "f1 # fs" "[]"] send_bytes [of fs "[]"] by simp

lemma send_Nil [simp]: "send [] w = w"
  by (simp add: send_def)

lemma receive_Nil: "receive [] = ([], EOF)"
  by (simp add: receive.simps [of "[]"] ReadFrame_def read_full_def)

lemma receive_frame: "sendable f \<Longrightarrow> receive (frame_bytes f @ s) = (f # fst (receive s), snd (receive s))"
  by (simp add: receive.simps [of "frame_bytes f @ s"] read_frame_bytes case_prod_beta Let_def)

text \<open>
  C18: the receiver reads back what was sent, and nothing else. If every payload is within
  the limit, the frames read from the bytes written are the frames sent, in order, and then
  a clean end of file. If the connection breaks after any number of bytes, the frames read
  are a prefix of those sent, and the error is one of the two end-of-file errors.
\<close>

theorem frames_round_trip:
  assumes "\<forall>f \<in> set fs. sendable f"
  shows "receive (send fs []) = (fs, EOF) \<and>
    prefix (fst (receive (take k (send fs [])))) fs \<and>
    snd (receive (take k (send fs []))) \<in> {EOF, UnexpectedEOF}"
  using assms
proof (induction fs arbitrary: k)
  case Nil
  show ?case by (simp add: receive_Nil)
next
  case (Cons f fs)
  let ?s = "send fs []"
  have f: "sendable f" and fs: "\<forall>f \<in> set fs. sendable f" using Cons.prems by simp_all
  have s: "send (f # fs) [] = frame_bytes f @ ?s" by (rule send_Cons [OF Cons.prems])
  note IH = Cons.IH [OF fs]
  show ?case
  proof (cases "k < length (frame_bytes f)")
    case True
    obtain r where "ReadFrame (take k (frame_bytes f)) =
        (Inl (if k = 0 \<or> k = 5 then EOF else UnexpectedEOF), r)"
      using read_frame_cut [OF f True] by blast
    then have "receive (take k (send (f # fs) [])) = ([], if k = 0 \<or> k = 5 then EOF else UnexpectedEOF)"
      using True by (simp add: s receive.simps [of "take k (frame_bytes f)"])
    then show ?thesis using IH receive_frame [OF f, of ?s] by (simp add: s)
  next
    case False
    then have "take k (send (f # fs) []) = frame_bytes f @ take (k - length (frame_bytes f)) ?s"
      by (simp add: s)
    then show ?thesis
      using IH [of "k - length (frame_bytes f)"] receive_frame [OF f] by (simp add: s)
  qed
qed

definition demo_frames :: "frame list" where
  "demo_frames =
     [\<lparr>frame_type = TypeStdin, frame_payload = [108, 115, 10]\<rparr>,
      \<lparr>frame_type = TypeResize, frame_payload = EncodeResize 24 80\<rparr>,
      \<lparr>frame_type = TypeStdout, frame_payload = []\<rparr>]"

theorem frames_round_trip_witness:
  "receive (send demo_frames []) = (demo_frames, EOF) \<and>
   prefix (fst (receive (take 11 (send demo_frames [])))) demo_frames"
  using frames_round_trip [of demo_frames 11]
  by (simp add: demo_frames_def sendable_def MaxPayload_def EncodeResize_def put_uint16_def)

text \<open>
  The control payloads lose nothing. A window size and an exit code are decoded as they
  were encoded, with or without the flags byte; decoding accepts exactly the documented
  lengths, and every accepted resize payload is the encoding of what it decodes to.
\<close>

theorem control_payloads:
  "DecodeResize (EncodeResize rows cols) = Inr (rows, cols) \<and>
   DecodeExit (EncodeExit code) = Inr (sint code) \<and>
   DecodeExit (EncodeExitWithFlags code ended) = Inr (sint code) \<and>
   DecodeExitWithFlags (EncodeExit code) = Inr (sint code, 0) \<and>
   DecodeExitWithFlags (EncodeExitWithFlags code ended) =
     Inr (sint code, if ended then ExitFlagSessionTerminated else 0) \<and>
   ((\<exists>e. DecodeResize b = Inl e) \<longleftrightarrow> length b \<noteq> 4) \<and>
   ((\<exists>e. DecodeExit b = Inl e) \<longleftrightarrow> length b \<notin> {4, 5}) \<and>
   ((\<exists>e. DecodeExitWithFlags b = Inl e) \<longleftrightarrow> length b \<notin> {4, 5}) \<and>
   (case DecodeResize b of Inr (r, c) \<Rightarrow> EncodeResize r c = b | Inl e \<Rightarrow> e = BadLength (length b))"
proof -
  have "EncodeResize (get_uint16 (take 2 b)) (get_uint16 (take 2 (drop 2 b))) = b" if "length b = 4"
  proof -
    have "put_uint16 (get_uint16 (take 2 b)) = take 2 b"
      "put_uint16 (get_uint16 (take 2 (drop 2 b))) = take 2 (drop 2 b)"
      using that by (simp_all add: put_get_uint16)
    then show ?thesis
      using that append_take_drop_id [of 2 b] by (simp add: EncodeResize_def)
  qed
  then show ?thesis
    by (auto simp: DecodeResize_def EncodeResize_def DecodeExit_def EncodeExit_def
        EncodeExitWithFlags_def DecodeExitWithFlags_def ExitFlagSessionTerminated_def Let_def
        nth_append)
qed

text \<open>
  A connection cut between the header of a frame and its payload reads as a clean end of
  file, because \<open>io.ReadFull\<close> answers \<open>io.EOF\<close> when it reads nothing.
\<close>

lemma cut_after_header_is_eof:
  "receive (take 5 (send [\<lparr>frame_type = TypeExit, frame_payload = EncodeExit 1\<rparr>] [])) = ([], EOF)"
proof -
  let ?f = "\<lparr>frame_type = TypeExit, frame_payload = EncodeExit 1\<rparr>"
  have s: "sendable ?f" by (simp add: sendable_def EncodeExit_def MaxPayload_def)
  then have "\<exists>r. ReadFrame (take 5 (frame_bytes ?f)) = (Inl EOF, r)"
    using read_frame_cut [of ?f 5] by (simp add: EncodeExit_def)
  then obtain r where r: "ReadFrame (take 5 (frame_bytes ?f)) = (Inl EOF, r)" by blast
  have "send [?f] [] = frame_bytes ?f" using send_Cons [of ?f "[]"] s by simp
  with r show ?thesis by (simp add: receive.simps [of "take 5 (frame_bytes ?f)"])
qed

end
