(* ===== verification/GoInt.thy ===== *)
theory GoInt
  imports GoValue
begin

text \<open>
  Go's 64-bit integers where their width matters: the range, the wrap-around of arithmetic, the
  saturating difference of two instants, and the decimal parser \<open>strconv.Atoi\<close>.
\<close>

section \<open>\<open>int64\<close>\<close>

definition in_int64 :: "int \<Rightarrow> bool" where
  "in_int64 i \<longleftrightarrow> - (2 ^ 63) \<le> i \<and> i < 2 ^ 63"

definition wrap64 :: "int \<Rightarrow> int" where
  "wrap64 i = (i + 2 ^ 63) mod 2 ^ 64 - 2 ^ 63"

lemma wrap64_id [simp]: "in_int64 i \<Longrightarrow> wrap64 i = i"
  by (simp add: in_int64_def wrap64_def)

lemma in_int64_wrap64: "in_int64 (wrap64 i)"
proof -
  have "0 \<le> (i + 2 ^ 63) mod 2 ^ 64" "(i + 2 ^ 63) mod 2 ^ 64 < (2 ^ 64 :: int)"
    by (simp_all only: pos_mod_sign pos_mod_bound zero_less_power zero_less_numeral)
  then show ?thesis by (simp add: in_int64_def wrap64_def)
qed

lemma in_int64_diff: "in_int64 a \<Longrightarrow> in_int64 b \<Longrightarrow> 0 \<le> a \<Longrightarrow> 0 \<le> b \<Longrightarrow> in_int64 (a - b)"
  by (simp add: in_int64_def)

definition digit_char :: "char \<Rightarrow> bool" where
  "digit_char c \<longleftrightarrow> 48 \<le> (of_char c :: nat) \<and> (of_char c :: nat) \<le> 57"

text \<open>\<open>strconv.Atoi\<close> with the range of a 64-bit \<open>int\<close>.\<close>

definition atoi :: "string \<Rightarrow> int option" where
  "atoi s =
     (let (negative, ds) = (case s of
              [] \<Rightarrow> (False, [])
            | c # cs \<Rightarrow> if c = CHR ''-'' then (True, cs) else if c = CHR ''+'' then (False, cs)
                        else (False, s));
          n = (if negative then - int (digits_value ds) else int (digits_value ds))
      in if ds \<noteq> [] \<and> list_all digit_char ds \<and> - (2 ^ 63) \<le> n \<and> n < 2 ^ 63 then Some n else None)"

section \<open>Durations\<close>

text \<open>Nanoseconds. \<open>Time.Sub\<close> saturates; the product \<open>time.Duration(n) * time.Second\<close> wraps.\<close>

definition time_sub :: "int \<Rightarrow> int \<Rightarrow> int" where
  "time_sub t u = max (- (2 ^ 63)) (min (2 ^ 63 - 1) (t - u))"

definition in_seconds :: "int \<Rightarrow> int" where
  "in_seconds n = wrap64 (n * 1000000000)"

lemma in_seconds_id: "0 \<le> n \<Longrightarrow> n \<le> 9223372036 \<Longrightarrow> in_seconds n = n * 1000000000"
  by (simp add: in_seconds_def in_int64_def)

lemma time_sub_id: "in_int64 (t - u) \<Longrightarrow> time_sub t u = t - u"
  by (simp add: time_sub_def in_int64_def)

end
