(* ===== verification/SubnetAlloc.thy ===== *)
theory SubnetAlloc
  imports GoInt
begin

text \<open>
  The allocator of per-VM subnets: \<open>src/internal/sandbox/firecracker/subnet_alloc.go\<close>. The
  package variables \<open>subnetInUse\<close> and \<open>subnetCursor\<close> are a record, passed through each
  operation; the mutex makes each of them one step. The output of \<open>ip addr\<close> is an argument.
\<close>

section \<open>State and operations\<close>

record subnets =
  subnet_in_use :: "int set"
  subnet_cursor :: int

definition initial_subnets :: subnets where
  "initial_subnets = \<lparr>subnet_in_use = {}, subnet_cursor = 0\<rparr>"

datatype subnet_error = ErrSubnetsExhausted | OutOfRange int | InUse int | BadHostIP string

definition candidate :: "int \<Rightarrow> nat \<Rightarrow> int" where
  "candidate cursor attempt = (cursor + int attempt) mod 254 + 1"

definition allocateLocked :: "int set \<Rightarrow> subnets \<Rightarrow> (subnet_error + int) \<times> subnets" where
  "allocateLocked hostTaken s =
     (case find (\<lambda>c. c \<notin> subnet_in_use s \<and> c \<notin> hostTaken)
             (map (candidate (subnet_cursor s)) [0..<254]) of
        Some c \<Rightarrow> (Inr c, s\<lparr>subnet_in_use := insert c (subnet_in_use s), subnet_cursor := c\<rparr>)
      | None \<Rightarrow> (Inl ErrSubnetsExhausted, s))"

text \<open>
  The matches of \<open>inet 10\.0\.(\d{1,3})\.1/30\<close>: leftmost first, the digits greedily, the
  search going on after the match.
\<close>

definition tap_match :: "string \<Rightarrow> (string \<times> string) option" where
  "tap_match s =
     (if has_prefix s ''inet 10.0.'' then
        let rest = drop (length ''inet 10.0.'') s in
        (case find (\<lambda>k. k \<le> length rest \<and> list_all digit_char (take k rest)
                     \<and> has_prefix (drop k rest) ''.1/30'') [3, 2, 1] of
           Some k \<Rightarrow> Some (take k rest, drop (k + length ''.1/30'') rest)
         | None \<Rightarrow> None)
      else None)"

lemma tap_match_shorter: "tap_match s = Some (ds, rest) \<Longrightarrow> length rest < length s"
  by (auto simp: tap_match_def Let_def has_prefix_iff split: if_splits option.splits)

function tap_octets :: "string \<Rightarrow> string list" where
  "tap_octets s =
     (case s of
        [] \<Rightarrow> []
      | c # cs \<Rightarrow>
          (case tap_match s of
             Some (ds, rest) \<Rightarrow> ds # tap_octets rest
           | None \<Rightarrow> tap_octets cs))"
  by pat_completeness auto

termination
  by (relation "measure length") (auto dest: tap_match_shorter)

declare tap_octets.simps [simp del]

definition parseAssignedSubnets :: "string \<Rightarrow> int set" where
  "parseAssignedSubnets ipOutput =
     set (filter (\<lambda>n. 1 \<le> n \<and> n \<le> 254) (map (\<lambda>ds. int (digits_value ds)) (tap_octets ipOutput)))"

definition hostAssignedSubnets :: "string option \<Rightarrow> int set" where
  "hostAssignedSubnets out = (case out of None \<Rightarrow> {} | Some o1 \<Rightarrow> parseAssignedSubnets o1)"

definition AllocateSubnet :: "string option \<Rightarrow> subnets \<Rightarrow> (subnet_error + int) \<times> subnets" where
  "AllocateSubnet ip_out s = allocateLocked (hostAssignedSubnets ip_out) s"

definition ReleaseSubnet :: "int \<Rightarrow> subnets \<Rightarrow> subnets" where
  "ReleaseSubnet n s =
     (if n \<le> 0 \<or> n > 254 then s
      else s\<lparr>subnet_in_use := subnet_in_use s - {n}\<rparr>)"

definition ReserveSubnet :: "int \<Rightarrow> subnets \<Rightarrow> subnet_error option \<times> subnets" where
  "ReserveSubnet n s =
     (if n \<le> 0 \<or> n > 254 then (Some (OutOfRange n), s)
      else if n \<in> subnet_in_use s then (Some (InUse n), s)
      else (None, s\<lparr>subnet_in_use := insert n (subnet_in_use s)\<rparr>))"

definition subnetFromHostIP :: "string \<Rightarrow> subnet_error + int" where
  "subnetFromHostIP hostIP =
     (case split_byte (CHR ''.'') hostIP of
        [a, b, c, d] \<Rightarrow>
          if a \<noteq> ''10'' \<or> b \<noteq> ''0'' then Inl (BadHostIP hostIP)
          else (case atoi c of None \<Rightarrow> Inl (BadHostIP hostIP) | Some n \<Rightarrow> Inr n)
      | _ \<Rightarrow> Inl (BadHostIP hostIP))"

section \<open>The interface of a slot pool\<close>

text \<open>
  A run of requests against a pool; the second component collects the slots the requests
  hold, newest first. A slot is given back only by a request that holds it.
\<close>

fun holding ::
  "('h \<Rightarrow> 's \<Rightarrow> int option \<times> 's) \<Rightarrow> (int \<Rightarrow> 's \<Rightarrow> bool \<times> 's) \<Rightarrow> (int \<Rightarrow> 's \<Rightarrow> 's)
   \<Rightarrow> ('h + int + int) list \<Rightarrow> 's \<times> int list \<Rightarrow> 's \<times> int list"
where
  "holding grab claim give [] w = w"
| "holding grab claim give (req # reqs) (s, held) =
     holding grab claim give reqs
       (case req of
          Inl h \<Rightarrow> (case grab h s of (Some n, s') \<Rightarrow> (s', n # held) | (None, s') \<Rightarrow> (s', held))
        | Inr (Inl n) \<Rightarrow> (case claim n s of (True, s') \<Rightarrow> (s', n # held) | (False, s') \<Rightarrow> (s', held))
        | Inr (Inr n) \<Rightarrow> if n \<in> set held then (give n s, removeAll n held) else (s, held))"

text \<open>
  What the VM lifecycle relies on: a granted slot was free, a failed grant means there was
  none, and giving back frees just that slot.
\<close>

locale slot_pool =
  fixes grab :: "int set \<Rightarrow> 's \<Rightarrow> int option \<times> 's"
    and claim :: "int \<Rightarrow> 's \<Rightarrow> bool \<times> 's"
    and give :: "int \<Rightarrow> 's \<Rightarrow> 's"
    and used :: "'s \<Rightarrow> int set"
    and slots :: "int set"
    and ok :: "'s \<Rightarrow> bool"
  assumes grab_free: "ok s \<Longrightarrow> grab h s = (Some n, s') \<Longrightarrow>
      ok s' \<and> n \<in> slots - used s - h \<and> used s' = insert n (used s)"
    and grab_full: "ok s \<Longrightarrow> grab h s = (None, s') \<Longrightarrow>
      ok s' \<and> slots \<subseteq> used s \<union> h \<and> used s' = used s"
    and claim_iff: "ok s \<Longrightarrow> fst (claim n s) \<longleftrightarrow> n \<in> slots - used s"
    and claim_used: "ok s \<Longrightarrow> ok (snd (claim n s)) \<and>
      used (snd (claim n s)) = (if n \<in> slots then insert n (used s) else used s)"
    and give_used: "ok s \<Longrightarrow> n \<in> slots \<Longrightarrow> ok (give n s) \<and> used (give n s) = used s - {n}"
begin

lemma holding_exclusive:
  assumes "ok s" and "used s = set held" and "distinct held" and "set held \<subseteq> slots"
    and "holding grab claim give reqs (s, held) = (s', held')"
  shows "ok s' \<and> used s' = set held' \<and> distinct held' \<and> set held' \<subseteq> slots"
  using assms
proof (induction reqs arbitrary: s held)
  case Nil
  then show ?case by simp
next
  case (Cons req reqs)
  consider (grab) h where "req = Inl h" | (claim) n where "req = Inr (Inl n)"
    | (give) n where "req = Inr (Inr n)"
    by (metis sum.exhaust)
  then show ?case
  proof cases
    case (grab h)
    obtain g s1 where g: "grab h s = (g, s1)" by fastforce
    show ?thesis
    proof (cases g)
      case None
      with Cons.prems grab g grab_full [of s h s1] Cons.IH [of s1 held] show ?thesis by simp
    next
      case (Some n)
      with Cons.prems grab g grab_free [of s h n s1] Cons.IH [of s1 "n # held"] show ?thesis by simp
    qed
  next
    case (claim n)
    obtain b s1 where c: "claim n s = (b, s1)" by fastforce
    from claim_iff [OF Cons.prems(1), of n] claim_used [OF Cons.prems(1), of n] c
    have "ok s1" "b \<longleftrightarrow> n \<in> slots - used s"
      "used s1 = (if n \<in> slots then insert n (used s) else used s)"
      by simp_all
    with Cons.prems claim c Cons.IH [of s1 "n # held"] Cons.IH [of s1 held] show ?thesis
      by (cases b) (auto split: if_splits simp: insert_absorb)
  next
    case (give n)
    show ?thesis
    proof (cases "n \<in> set held")
      case True
      with Cons.prems give_used [of s n]
      have "ok (give n s)" "used (give n s) = set (removeAll n held)" by auto
      with Cons.IH [of "give n s" "removeAll n held"] Cons.prems give True show ?thesis
        by (auto simp: distinct_removeAll)
    next
      case False
      with Cons.IH [of s held] Cons.prems give show ?thesis by simp
    qed
  qed
qed

end

lemma candidates: "0 \<le> cursor \<Longrightarrow> set (map (candidate cursor) [0..<254]) = {1..254}"
proof
  assume c: "0 \<le> cursor"
  show "set (map (candidate cursor) [0..<254]) \<subseteq> {1..254}"
    by (auto simp: candidate_def)
  show "{1..254} \<subseteq> set (map (candidate cursor) [0..<254])"
  proof
    fix x :: int assume x: "x \<in> {1..254}"
    let ?a = "nat ((x - 1 - cursor) mod 254)"
    have "int ?a = (x - 1 - cursor) mod 254" by simp
    then have "candidate cursor ?a = (cursor + (x - 1 - cursor)) mod 254 + 1"
      by (simp only: candidate_def mod_add_right_eq)
    also have "\<dots> = x" using x by simp
    finally have "candidate cursor ?a = x" .
    moreover have "?a < 254" by (simp add: nat_less_iff)
    ultimately show "x \<in> set (map (candidate cursor) [0..<254])"
      by (metis atLeast0LessThan image_eqI lessThan_iff set_map set_upt)
  qed
qed

section \<open>The allocator is such a pool\<close>

definition subnets_ok :: "subnets \<Rightarrow> bool" where
  "subnets_ok s \<longleftrightarrow> 0 \<le> subnet_cursor s \<and> subnet_in_use s \<subseteq> {1..254}"

definition granted :: "('e + int) \<times> subnets \<Rightarrow> int option \<times> subnets" where
  "granted r = (case r of (Inr n, s) \<Rightarrow> (Some n, s) | (Inl e, s) \<Rightarrow> (None, s))"

definition reserved :: "subnet_error option \<times> subnets \<Rightarrow> bool \<times> subnets" where
  "reserved r = (fst r = None, snd r)"

lemma allocate_cases:
  assumes "subnets_ok s"
  obtains (full) "allocateLocked h s = (Inl ErrSubnetsExhausted, s)" "{1..254} \<subseteq> subnet_in_use s \<union> h"
    | (free) a n where "allocateLocked h s =
        (Inr n, s\<lparr>subnet_in_use := insert n (subnet_in_use s), subnet_cursor := n\<rparr>)"
      "a < 254" "n = candidate (subnet_cursor s) a" "n \<in> {1..254} - subnet_in_use s - h"
      "\<forall>b < a. candidate (subnet_cursor s) b \<in> subnet_in_use s \<union> h"
proof (cases "find (\<lambda>c. c \<notin> subnet_in_use s \<and> c \<notin> h) (map (candidate (subnet_cursor s)) [0..<254])")
  case None
  then have "\<forall>x \<in> set (map (candidate (subnet_cursor s)) [0..<254]). x \<in> subnet_in_use s \<union> h"
    by (auto simp: find_None_iff)
  moreover have "{1..254} = set (map (candidate (subnet_cursor s)) [0..<254])"
    using candidates assms by (simp only: subnets_ok_def)
  ultimately have "{1..254} \<subseteq> subnet_in_use s \<union> h" by blast
  with None show thesis by (intro full) (simp_all add: allocateLocked_def)
next
  case (Some n)
  then obtain a where a: "a < 254" "n = candidate (subnet_cursor s) a"
    "n \<notin> subnet_in_use s" "n \<notin> h" "\<forall>b < a. candidate (subnet_cursor s) b \<in> subnet_in_use s \<union> h"
    by (auto simp: find_Some_iff)
  have "n \<in> {1..254}" using candidates [of "subnet_cursor s"] assms a(1,2) by (auto simp: candidate_def)
  with Some a show thesis by (intro free [of n a]) (simp_all add: allocateLocked_def)
qed

interpretation pool: slot_pool "\<lambda>h s. granted (allocateLocked h s)"
  "\<lambda>n s. reserved (ReserveSubnet n s)" ReleaseSubnet subnet_in_use "{1..254}" subnets_ok
proof
  fix s h n s' assume ok: "subnets_ok s"
  show "granted (allocateLocked h s) = (Some n, s') \<Longrightarrow>
      subnets_ok s' \<and> n \<in> {1..254} - subnet_in_use s - h \<and> subnet_in_use s' = insert n (subnet_in_use s)"
    by (rule allocate_cases [OF ok, of h]) (use ok in \<open>auto simp: granted_def subnets_ok_def\<close>)
  show "granted (allocateLocked h s) = (None, s') \<Longrightarrow>
      subnets_ok s' \<and> {1..254} \<subseteq> subnet_in_use s \<union> h \<and> subnet_in_use s' = subnet_in_use s"
    by (rule allocate_cases [OF ok, of h]) (use ok in \<open>auto simp: granted_def\<close>)
  show "fst (reserved (ReserveSubnet n s)) \<longleftrightarrow> n \<in> {1..254} - subnet_in_use s"
    by (auto simp: reserved_def ReserveSubnet_def)
  show "subnets_ok (snd (reserved (ReserveSubnet n s))) \<and> subnet_in_use (snd (reserved (ReserveSubnet n s))) =
      (if n \<in> {1..254} then insert n (subnet_in_use s) else subnet_in_use s)"
    using ok by (auto simp: reserved_def ReserveSubnet_def subnets_ok_def)
  show "n \<in> {1..254} \<Longrightarrow>
      subnets_ok (ReleaseSubnet n s) \<and> subnet_in_use (ReleaseSubnet n s) = subnet_in_use s - {n}"
    using ok by (auto simp: ReleaseSubnet_def subnets_ok_def)
qed

text \<open>The allocator's own requests: allocate beside a host set, reserve, release.\<close>

definition subnet_run :: "(int set + int + int) list \<Rightarrow> subnets \<times> int list \<Rightarrow> subnets \<times> int list" where
  "subnet_run = holding (\<lambda>h s. granted (allocateLocked h s)) (\<lambda>n s. reserved (ReserveSubnet n s)) ReleaseSubnet"

text \<open>
  C19: over any sequence of allocations, recovery reservations and releases by holders, from
  the empty allocator, no two holders have the same subnet, all of them lie in 1 to 254, and
  the allocator's set is exactly theirs. In the state reached, an allocation takes the first
  subnet after the cursor that neither a holder nor the host has, and fails only when
  holders and host together have all 254.
\<close>

theorem subnets_exclusive:
  assumes "subnet_run reqs (initial_subnets, []) = (s, held)"
  shows "distinct held \<and> set held \<subseteq> {1..254} \<and> subnet_in_use s = set held \<and>
    (case allocateLocked h s of
       (Inl err, s') \<Rightarrow> {1..254} \<subseteq> set held \<union> h \<and> s' = s
     | (Inr n, s') \<Rightarrow>
         n \<in> {1..254} - set held - h \<and> subnet_in_use s' = insert n (set held) \<and>
         (\<exists>a < 254. n = candidate (subnet_cursor s) a \<and>
            {x. \<exists>b < a. x = candidate (subnet_cursor s) b} \<subseteq> set held \<union> h))"
proof -
  have inv: "subnets_ok s \<and> subnet_in_use s = set held \<and> distinct held \<and> set held \<subseteq> {1..254}"
    by (rule pool.holding_exclusive [OF _ _ _ _ assms [unfolded subnet_run_def]])
       (simp_all add: initial_subnets_def subnets_ok_def)
  then have ok: "subnets_ok s" by simp
  show ?thesis
    by (rule allocate_cases [OF ok, of h]) (use inv in auto)
qed

theorem subnets_exclusive_witness:
  "\<exists>s held. subnet_run [Inl {}, Inl {2}, Inr (Inl 9), Inr (Inr 1)] (initial_subnets, []) = (s, held) \<and>
     distinct held \<and> subnet_in_use s = set held"
proof -
  obtain s held where r:
    "subnet_run [Inl {}, Inl {2}, Inr (Inl 9), Inr (Inr 1)] (initial_subnets, []) = (s, held)"
    by fastforce
  from subnets_exclusive [OF r, of "{}"] r show ?thesis by blast
qed

text \<open>
  The comment on \<open>AllocateSubnet\<close> promises the lowest free octet; the probe starts after the
  last one handed out, so a released lower octet is passed over.
\<close>

lemma not_the_lowest:
  "fst (allocateLocked {} (ReleaseSubnet 1 (snd (allocateLocked {} initial_subnets)))) = Inr 2"
  by code_simp

end
