(* ===== verification/LogBuffer.thy ===== *)
theory LogBuffer
  imports GoValue
begin

text \<open>
  The per-sandbox log buffer and the writer that feeds it:
  \<open>src/internal/sandbox/logbuffer/buffer.go\<close> and \<open>tee.go\<close>. Subscriber channels live in a
  store indexed by number, since the buffer and the follower share them; the mutex makes
  each operation one step.
\<close>

section \<open>The buffer\<close>

record entry =
  timestamp :: nat
  stream_name :: string
  line :: string

record channel =
  queue :: "entry list"
  chan_closed :: bool

record buffer =
  log_entries :: "entry list"
  log_size :: int
  subs :: "nat list"
  log_closed :: bool
  channels :: "channel list"

definition MaxBufferBytes :: int where
  "MaxBufferBytes = 1048576"

definition NewBuffer :: buffer where
  "NewBuffer = \<lparr>log_entries = [], log_size = 0, subs = [], log_closed = False, channels = []\<rparr>"

definition entry_size :: "entry \<Rightarrow> int" where
  "entry_size e = int (length (line e)) + int (length (stream_name e)) + 40"

fun evict :: "entry list \<Rightarrow> int \<Rightarrow> entry list \<times> int" where
  "evict [] bytes = ([], bytes)"
| "evict (old # es) bytes =
     (if bytes > MaxBufferBytes then evict es (bytes - entry_size old) else (old # es, bytes))"

text \<open>A send with a default case: the entry is dropped when the 64 places are taken.\<close>

definition offer :: "entry \<Rightarrow> channel \<Rightarrow> channel" where
  "offer e ch = (if length (queue ch) < 64 then ch\<lparr>queue := queue ch @ [e]\<rparr> else ch)"

definition Append :: "entry \<Rightarrow> buffer \<Rightarrow> buffer" where
  "Append e b =
     (if log_closed b then b
      else
        let entrySize = int (length (line e)) + int (length (stream_name e)) + 40;
            (kept, bytes) = evict (log_entries b @ [e]) (log_size b + entrySize)
        in b\<lparr>log_entries := kept, log_size := bytes,
             channels := fold (\<lambda>i chs. chs[i := offer e (chs ! i)]) (subs b) (channels b)\<rparr>)"

definition Snapshot :: "int \<Rightarrow> buffer \<Rightarrow> entry list" where
  "Snapshot tail b =
     (if tail > 0 \<and> tail < int (length (log_entries b))
      then drop (length (log_entries b) - nat tail) (log_entries b)
      else log_entries b)"

definition Subscribe :: "buffer \<Rightarrow> nat \<times> buffer" where
  "Subscribe b =
     (let ch = length (channels b) in
      if log_closed b
      then (ch, b\<lparr>channels := channels b @ [\<lparr>queue = [], chan_closed = True\<rparr>]\<rparr>)
      else (ch, b\<lparr>channels := channels b @ [\<lparr>queue = [], chan_closed = False\<rparr>], subs := subs b @ [ch]\<rparr>))"

definition Unsubscribe :: "nat \<Rightarrow> buffer \<Rightarrow> buffer" where
  "Unsubscribe ch b = b\<lparr>subs := remove1 ch (subs b)\<rparr>"

definition Close :: "buffer \<Rightarrow> buffer" where
  "Close b = b\<lparr>log_closed := True,
     channels := fold (\<lambda>i chs. chs[i := (chs ! i)\<lparr>chan_closed := True\<rparr>]) (subs b) (channels b),
     subs := []\<rparr>"

text \<open>A follower takes the oldest queued entry.\<close>

definition receive_one :: "nat \<Rightarrow> buffer \<Rightarrow> entry option \<times> buffer" where
  "receive_one ch b =
     (if ch < length (channels b) then
        case queue (channels b ! ch) of
          [] \<Rightarrow> (None, b)
        | e # es \<Rightarrow> (Some e, b\<lparr>channels := (channels b)[ch := (channels b ! ch)\<lparr>queue := es\<rparr>]\<rparr>)
      else (None, b))"

definition FormatEntry :: "(nat \<Rightarrow> string) \<Rightarrow> entry \<Rightarrow> bool \<Rightarrow> string" where
  "FormatEntry rfc3339 e timestamps =
     (if timestamps then rfc3339 (timestamp e) @ '' ['' @ stream_name e @ ''] '' @ line e
      else ''['' @ stream_name e @ ''] '' @ line e)"

section \<open>The tee writer\<close>

record tee =
  tee_buf :: buffer
  partial_line :: string

definition newline_byte :: char where
  "newline_byte = char_of (10 :: nat)"

definition stdout_entry :: "nat \<Rightarrow> string \<Rightarrow> entry" where
  "stdout_entry now s = \<lparr>timestamp = now, stream_name = ''stdout'', line = s\<rparr>"

text \<open>The loop of \<open>Write\<close>; the clock is read once for each line.\<close>

function drain :: "nat \<Rightarrow> tee \<Rightarrow> tee" where
  "drain now w =
     (case index_byte newline_byte (partial_line w) of
        None \<Rightarrow>
          if length (partial_line w) > 4096
          then w\<lparr>tee_buf := Append (stdout_entry now (partial_line w)) (tee_buf w), partial_line := ''''\<rparr>
          else w
      | Some idx \<Rightarrow>
          drain now (w\<lparr>partial_line := drop (idx + 1) (partial_line w),
            tee_buf := Append (stdout_entry now (take idx (partial_line w))) (tee_buf w)\<rparr>))"
  by pat_completeness auto

termination
  by (relation "measure (\<lambda>(now, w). length (partial_line w))") (auto dest: index_byte_SomeD)

declare drain.simps [simp del]

definition tee_write :: "nat \<Rightarrow> string \<Rightarrow> tee \<Rightarrow> nat \<times> tee" where
  "tee_write now p w = (length p, drain now (w\<lparr>partial_line := partial_line w @ p\<rparr>))"

definition NewTeeWriter :: "buffer \<Rightarrow> tee" where
  "NewTeeWriter buf = \<lparr>tee_buf = buf, partial_line = ''''\<rparr>"

section \<open>The window\<close>

definition total_size :: "entry list \<Rightarrow> int" where
  "total_size es = sum_list (map entry_size es)"

text \<open>The longest recent part of a log that fits.\<close>

fun window :: "entry list \<Rightarrow> entry list" where
  "window [] = []"
| "window (e # es) = (if total_size (e # es) \<le> MaxBufferBytes then e # es else window es)"

lemma entry_size_pos: "0 < entry_size e"
  by (simp add: entry_size_def)

lemma total_size_simps [simp]:
  "total_size [] = 0" "total_size (e # es) = entry_size e + total_size es"
  "total_size (a @ b) = total_size a + total_size b"
  by (simp_all add: total_size_def)

lemma total_size_nonneg [simp]: "0 \<le> total_size es"
  by (induction es) (simp_all add: entry_size_def)

lemma window_fits: "total_size (window es) \<le> MaxBufferBytes"
  by (induction es) (auto simp: MaxBufferBytes_def)

lemma window_suffix: "suffix (window es) es"
  by (induction es) (auto simp: suffix_Cons)

lemma window_longest: "suffix s es \<Longrightarrow> total_size s \<le> MaxBufferBytes \<Longrightarrow> suffix s (window es)"
  by (induction es) (auto simp: suffix_Cons)

lemma evict_window: "bytes = total_size es \<Longrightarrow> evict es bytes = (window es, total_size (window es))"
  by (induction es arbitrary: bytes) auto

lemma window_snoc: "window (window es @ [e]) = window (es @ [e])"
proof (induction es)
  case (Cons x es)
  show ?case
  proof (cases "total_size (x # es) \<le> MaxBufferBytes")
    case False
    then have "\<not> total_size (x # es @ [e]) \<le> MaxBufferBytes"
      using entry_size_pos [of e] by simp
    with False Cons show ?thesis by simp
  qed simp
qed simp

lemma Append_open:
  "\<not> log_closed b \<Longrightarrow> log_size b = total_size (log_entries b) \<Longrightarrow>
     log_entries (Append e b) = window (log_entries b @ [e]) \<and>
     log_size (Append e b) = total_size (window (log_entries b @ [e])) \<and>
     log_closed (Append e b) = log_closed b"
  by (simp add: Append_def Let_def entry_size_def [symmetric] evict_window)

section \<open>Runs\<close>

datatype log_op = DoAppend entry | DoSubscribe | DoUnsubscribe nat | DoReceive nat | DoClose

fun log_run :: "log_op list \<Rightarrow> buffer \<Rightarrow> buffer" where
  "log_run [] b = b"
| "log_run (op # ops) b =
     log_run ops
       (case op of
          DoAppend e \<Rightarrow> Append e b
        | DoSubscribe \<Rightarrow> snd (Subscribe b)
        | DoUnsubscribe ch \<Rightarrow> Unsubscribe ch b
        | DoReceive ch \<Rightarrow> snd (receive_one ch b)
        | DoClose \<Rightarrow> Close b)"

text \<open>The entries appended before the first close.\<close>

fun accepted :: "log_op list \<Rightarrow> entry list" where
  "accepted [] = []"
| "accepted (DoAppend e # ops) = e # accepted ops"
| "accepted (DoClose # ops) = []"
| "accepted (_ # ops) = accepted ops"

lemma other_ops [simp]:
  "log_entries (snd (Subscribe b)) = log_entries b" "log_size (snd (Subscribe b)) = log_size b"
  "log_closed (snd (Subscribe b)) = log_closed b"
  "log_entries (Unsubscribe ch b) = log_entries b" "log_size (Unsubscribe ch b) = log_size b"
  "log_closed (Unsubscribe ch b) = log_closed b"
  "log_entries (snd (receive_one ch b)) = log_entries b" "log_size (snd (receive_one ch b)) = log_size b"
  "log_closed (snd (receive_one ch b)) = log_closed b"
  "log_entries (Close b) = log_entries b" "log_size (Close b) = log_size b" "log_closed (Close b)"
  by (auto simp: Subscribe_def Unsubscribe_def receive_one_def Close_def Let_def split: list.splits)

lemma closed_run: "log_closed b \<Longrightarrow> log_entries (log_run ops b) = log_entries b"
proof (induction ops arbitrary: b)
  case (Cons op ops)
  then show ?case by (cases op) (simp_all add: Append_def)
qed simp

lemma open_run:
  "\<not> log_closed b \<Longrightarrow> log_entries b = window es \<Longrightarrow> log_size b = total_size (window es) \<Longrightarrow>
     log_entries (log_run ops b) = window (es @ accepted ops)"
proof (induction ops arbitrary: b es)
  case (Cons op ops)
  show ?case
  proof (cases op)
    case (DoAppend e)
    with Cons.prems Append_open [of b e] have "\<not> log_closed (Append e b)"
      "log_entries (Append e b) = window (es @ [e])"
      "log_size (Append e b) = total_size (window (es @ [e]))"
      by (simp_all add: window_snoc)
    from Cons.IH [OF this] DoAppend show ?thesis by simp
  next
    case DoClose
    then show ?thesis using Cons.prems by (simp add: closed_run)
  qed (use Cons in simp_all)
qed simp

text \<open>
  whatever is appended, followed, unfollowed, read and closed, and in whatever order,
  the buffer holds the longest suffix of the entries appended before the first close whose
  size is at most 1 MiB (each entry counting its bytes plus 40); a snapshot with a positive
  tail is the last entries of it, and one without is all of it.
\<close>

theorem log_window:
  "let b = log_run ops NewBuffer; es = accepted ops in
     log_entries b = window es \<and> suffix (window es) es \<and> total_size (window es) \<le> 1048576 \<and>
     {s. suffix s es \<and> total_size s \<le> 1048576} = {s. suffix s (window es)} \<and>
     Snapshot tail b = (if 0 < tail then drop (length (window es) - nat tail) (window es) else window es)"
proof -
  have w: "log_entries (log_run ops NewBuffer) = window (accepted ops)"
    using open_run [of NewBuffer "[]" ops] by (simp add: NewBuffer_def)
  have "suffix s es \<and> total_size s \<le> 1048576 \<longleftrightarrow> suffix s (window es)" for s es
  proof
    assume "suffix s (window es)"
    then obtain p where "window es = p @ s" by (auto simp: suffix_def)
    with window_fits [of es] have "total_size s \<le> MaxBufferBytes"
      using total_size_nonneg [of p] by (simp del: total_size_nonneg)
    with \<open>suffix s (window es)\<close> window_suffix [of es] show "suffix s es \<and> total_size s \<le> 1048576"
      by (auto simp: MaxBufferBytes_def intro: suffix_order.order_trans)
  qed (use window_longest [of s es] in \<open>auto simp: MaxBufferBytes_def\<close>)
  with w window_suffix [of "accepted ops"] window_fits [of "accepted ops"] show ?thesis
    by (auto simp: Let_def Snapshot_def MaxBufferBytes_def)
qed

section \<open>Lines\<close>

lemma split_byte_first:
  "c \<notin> set a \<Longrightarrow> split_byte c (a @ c # s) = a # split_byte c s"
  by (simp add: split_byte_append split_byte_absent)

lemma split_byte_resume:
  "c \<notin> set a \<Longrightarrow> split_byte c (a @ t) = (a @ hd (split_byte c t)) # tl (split_byte c t)"
  by (simp add: split_byte_append split_byte_absent)

lemma drain_lines:
  assumes "length (last (split_byte newline_byte (partial_line w))) \<le> 4096"
  shows "drain now w =
    w\<lparr>tee_buf := fold Append (map (stdout_entry now) (butlast (split_byte newline_byte (partial_line w))))
        (tee_buf w),
      partial_line := last (split_byte newline_byte (partial_line w))\<rparr>"
  using assms
proof (induction now w rule: drain.induct)
  case (1 now w)
  show ?case
  proof (cases "index_byte newline_byte (partial_line w)")
    case None
    then have "split_byte newline_byte (partial_line w) = [partial_line w]"
      by (simp add: split_byte_absent)
    with None "1.prems" show ?thesis by (simp add: drain.simps [of now w] index_byte_absent)
  next
    case (Some idx)
    let ?p = "partial_line w"
    from index_byte_SomeD [OF Some]
    have p: "?p = take idx ?p @ newline_byte # drop (idx + 1) ?p" "newline_byte \<notin> set (take idx ?p)"
      by simp_all
    then have s: "split_byte newline_byte ?p =
        take idx ?p # split_byte newline_byte (drop (idx + 1) ?p)"
      using split_byte_first [of newline_byte "take idx ?p" "drop (idx + 1) ?p"] by metis
    have d: "drain now w = drain now (w\<lparr>partial_line := drop (idx + 1) ?p,
        tee_buf := Append (stdout_entry now (take idx ?p)) (tee_buf w)\<rparr>)"
      using Some by (simp add: drain.simps [of now w])
    from "1.prems" s have "length (last (split_byte newline_byte (drop (idx + 1) ?p))) \<le> 4096" by simp
    with "1.IH" [OF Some] show ?thesis unfolding d using s by simp
  qed
qed

definition write_chunks :: "(nat \<times> string) list \<Rightarrow> tee \<Rightarrow> tee" where
  "write_chunks chunks w = fold (\<lambda>(now, p) w. snd (tee_write now p w)) chunks w"

definition timed_lines :: "nat list \<Rightarrow> string list \<Rightarrow> entry list" where
  "timed_lines ts ls = map (\<lambda>(now, l). stdout_entry now l) (zip ts ls)"

lemma write_chunks_lines:
  assumes "newline_byte \<notin> set (partial_line w)"
    and "\<forall>l \<in> set (split_byte newline_byte (partial_line w @ concat (map snd chunks))). length l \<le> 4096"
  shows "\<exists>ts. length ts = length (butlast (split_byte newline_byte (partial_line w @ concat (map snd chunks)))) \<and>
    write_chunks chunks w =
      w\<lparr>tee_buf := fold Append
            (timed_lines ts (butlast (split_byte newline_byte (partial_line w @ concat (map snd chunks)))))
            (tee_buf w),
        partial_line := last (split_byte newline_byte (partial_line w @ concat (map snd chunks)))\<rparr>"
  using assms
proof (induction chunks arbitrary: w)
  case Nil
  then show ?case by (simp add: write_chunks_def split_byte_absent timed_lines_def)
next
  case (Cons np chunks)
  obtain now p where np: "np = (now, p)" by fastforce
  let ?split = "split_byte newline_byte"
  let ?ws = "?split (partial_line w @ p)"
  let ?rest = "concat (map snd chunks)"
  have q: "newline_byte \<notin> set (last ?ws)"
    using split_byte_parts [of "last ?ws" newline_byte "partial_line w @ p"] by simp
  have all: "?split (partial_line w @ concat (map snd (np # chunks))) = butlast ?ws @ ?split (last ?ws @ ?rest)"
    using split_byte_append [of newline_byte "partial_line w @ p" ?rest] split_byte_resume [OF q, of ?rest]
    by (simp add: np)
  have "length (last ?ws) \<le> length (hd (?split (last ?ws @ ?rest)))"
    using split_byte_resume [OF q, of ?rest] by simp
  moreover have "length (hd (?split (last ?ws @ ?rest))) \<le> 4096"
    using Cons.prems(2) all by (metis Un_iff list.set_sel(1) set_append split_byte_nonempty)
  ultimately have short: "length (last ?ws) \<le> 4096" by simp
  let ?w1 = "snd (tee_write now p w)"
  have w1: "?w1 = w\<lparr>tee_buf := fold Append (map (stdout_entry now) (butlast ?ws)) (tee_buf w),
      partial_line := last ?ws\<rparr>"
    using drain_lines [of "w\<lparr>partial_line := partial_line w @ p\<rparr>" now] short by (simp add: tee_write_def)
  have "\<forall>l \<in> set (?split (last ?ws @ ?rest)). length l \<le> 4096" using Cons.prems(2) all by simp
  with Cons.IH [of ?w1] q obtain ts where ts: "length ts = length (butlast (?split (last ?ws @ ?rest)))"
    "write_chunks chunks ?w1 = ?w1\<lparr>tee_buf := fold Append
       (timed_lines ts (butlast (?split (last ?ws @ ?rest)))) (tee_buf ?w1),
       partial_line := last (?split (last ?ws @ ?rest))\<rparr>"
    unfolding w1 by auto
  let ?ts = "replicate (length (butlast ?ws)) now @ ts"
  have "timed_lines ?ts (butlast (butlast ?ws @ ?split (last ?ws @ ?rest))) =
      map (stdout_entry now) (butlast ?ws) @ timed_lines ts (butlast (?split (last ?ws @ ?rest)))"
    using ts(1) by (simp add: timed_lines_def butlast_append zip_replicate1 zip_append1 del: zip_append)
  moreover have "write_chunks (np # chunks) w = write_chunks chunks ?w1"
    by (simp add: write_chunks_def np)
  ultimately show ?case unfolding all
    using ts w1 by (intro exI [of _ ?ts]) (simp add: butlast_append)
qed

text \<open>
  however a shell's output is cut into writes, the log gets its lines. When no line of
  the output is longer than 4096 bytes, the entries appended are the complete lines, in
  order, each without its newline, and the rest waits as the partial line.
\<close>

theorem tee_reassembles:
  assumes "\<forall>l \<in> set (split_byte newline_byte (concat (map snd chunks))). length l \<le> 4096"
  shows "\<exists>ts. length ts = length (butlast (split_byte newline_byte (concat (map snd chunks)))) \<and>
    write_chunks chunks (NewTeeWriter b) =
      \<lparr>tee_buf = fold Append
         (timed_lines ts (butlast (split_byte newline_byte (concat (map snd chunks))))) b,
       partial_line = last (split_byte newline_byte (concat (map snd chunks)))\<rparr>"
  using write_chunks_lines [of "NewTeeWriter b" chunks] assms by (simp add: NewTeeWriter_def)

theorem tee_reassembles_witness:
  "\<exists>ts. length ts = 2 \<and>
     write_chunks [(1, ''ab''), (2, ''c'' @ [newline_byte] @ ''d''), (3, [newline_byte])] (NewTeeWriter NewBuffer) =
       \<lparr>tee_buf = fold Append (timed_lines ts [''abc'', ''d'']) NewBuffer, partial_line = ''''\<rparr>"
proof -
  let ?chunks = "[(1, ''ab''), (2, ''c'' @ [newline_byte] @ ''d''), (3, [newline_byte])] :: (nat \<times> string) list"
  have split: "split_byte newline_byte (concat (map snd ?chunks)) = [''abc'', ''d'', '''']" by code_simp
  from tee_reassembles [of ?chunks NewBuffer, unfolded split] show ?thesis
    by (simp add: numeral_2_eq_2)
qed

end
