(* ===== verification/Policy.thy ===== *)
theory Policy
  imports GoValue
begin

text \<open>
  Agent policies: \<open>src/internal/agents/policy/types.go\<close>, \<open>evaluator.go\<close> and \<open>defaults.go\<close>.
  A phase and an action are strings, as in the code, which accepts any until \<open>Validate\<close>.
  Regular expressions and Unicode case mapping are the argument \<open>text_ops\<close>: \<open>re_compile\<close> is
  \<open>None\<close> for a pattern \<open>regexp.Compile\<close> refuses.
\<close>

section \<open>Data\<close>

abbreviation PhasePRETURN :: string where "PhasePRETURN \<equiv> ''pre_turn''"
abbreviation PhasePOSTTURN :: string where "PhasePOSTTURN \<equiv> ''post_turn''"
abbreviation PhasePOSTTOOL :: string where "PhasePOSTTOOL \<equiv> ''post_tool''"
abbreviation ActionBLOCK :: string where "ActionBLOCK \<equiv> ''block''"
abbreviation ActionWARN :: string where "ActionWARN \<equiv> ''warn''"
abbreviation ActionRETRY :: string where "ActionRETRY \<equiv> ''retry''"
abbreviation ActionLOG :: string where "ActionLOG \<equiv> ''log''"

record condition =
  max_session_tokens :: int
  max_turns_per_session :: int
  output_match_patterns :: "string list"
  output_contains_keywords :: "string list"
  tool_failure_threshold :: int
  max_sandbox_calls_per_turn :: int
  max_iterations_per_turn :: int
  finish_reasons :: "string list"
  max_output_length :: int

record policy =
  policy_name :: string
  policy_phase :: string
  policy_condition :: condition
  policy_action :: string
  policy_guidance :: string
  policy_severity :: string
  policy_enabled :: bool

record decision =
  dec_policy_name :: string
  dec_matched :: bool
  dec_action :: string
  dec_guidance :: string
  dec_severity :: string
  dec_details :: "(string \<times> goval) list"

record eval_context =
  turn_number :: int
  iteration_count :: int
  assistant_text :: string
  finish_reason :: string
  session_total_tokens :: int
  sandbox_tool_calls :: int
  tool_errors :: int

record policy_set =
  set_policies :: "policy list"
  disable_builtins :: "string list"

record text_ops =
  to_lower :: "string \<Rightarrow> string"
  equal_fold :: "string \<Rightarrow> string \<Rightarrow> bool"
  re_compile :: "string \<Rightarrow> (string \<Rightarrow> bool) option"

definition no_condition :: condition where
  "no_condition = \<lparr>max_session_tokens = 0, max_turns_per_session = 0, output_match_patterns = [],
     output_contains_keywords = [], tool_failure_threshold = 0, max_sandbox_calls_per_turn = 0,
     max_iterations_per_turn = 0, finish_reasons = [], max_output_length = 0\<rparr>"

section \<open>Validation\<close>

datatype policy_error =
    NameRequired
  | InvalidPhase string
  | InvalidAction string
  | RetryInPreTurn
  | RetryWithoutGuidance
  | NoConditionField

definition condition_validate :: "condition \<Rightarrow> policy_error option" where
  "condition_validate c =
     (if max_session_tokens c = 0 \<and> max_turns_per_session c = 0
         \<and> length (output_match_patterns c) = 0 \<and> length (output_contains_keywords c) = 0
         \<and> tool_failure_threshold c = 0 \<and> max_sandbox_calls_per_turn c = 0
         \<and> max_iterations_per_turn c = 0 \<and> length (finish_reasons c) = 0
         \<and> max_output_length c = 0
      then Some NoConditionField else None)"

definition policy_validate :: "policy \<Rightarrow> policy_error option" where
  "policy_validate p =
     (if policy_name p = '''' then Some NameRequired
      else if policy_phase p \<notin> {PhasePRETURN, PhasePOSTTURN, PhasePOSTTOOL}
        then Some (InvalidPhase (policy_phase p))
      else if policy_action p \<notin> {ActionBLOCK, ActionWARN, ActionRETRY, ActionLOG}
        then Some (InvalidAction (policy_action p))
      else if policy_action p = ActionRETRY \<and> policy_phase p = PhasePRETURN then Some RetryInPreTurn
      else if policy_action p = ActionRETRY \<and> policy_guidance p = '''' then Some RetryWithoutGuidance
      else condition_validate (policy_condition p))"

definition ForPhase :: "policy_set \<Rightarrow> string \<Rightarrow> policy list" where
  "ForPhase ps phase = filter (\<lambda>p. policy_enabled p \<and> policy_phase p = phase) (set_policies ps)"

section \<open>Reading the configuration\<close>

type_synonym gofields = "(string \<times> goval) list"

definition getString :: "gofields \<Rightarrow> string \<Rightarrow> string" where
  "getString m key =
     (case map_of m key of
        None \<Rightarrow> ''''
      | Some v \<Rightarrow> (case as_string v of Some s \<Rightarrow> s | None \<Rightarrow> ''''))"

definition getBool :: "text_ops \<Rightarrow> gofields \<Rightarrow> string \<Rightarrow> bool \<Rightarrow> bool" where
  "getBool ops m key defaultVal =
     (case map_of m key of
        None \<Rightarrow> defaultVal
      | Some v \<Rightarrow>
          (case v of
             GoBool b \<Rightarrow> b
           | GoFloat f \<Rightarrow> f \<noteq> 0
           | GoStr s \<Rightarrow> equal_fold ops s ''true''
           | _ \<Rightarrow> defaultVal))"

definition number_field :: "nat \<Rightarrow> (rat \<Rightarrow> int) \<Rightarrow> gofields \<Rightarrow> string \<Rightarrow> int" where
  "number_field w ovf m key =
     (case map_of m key of
        None \<Rightarrow> 0
      | Some v \<Rightarrow> (case as_float v of None \<Rightarrow> 0 | Some f \<Rightarrow> float_to_int w ovf f))"

definition strings_field :: "gofields \<Rightarrow> string \<Rightarrow> string list" where
  "strings_field m key =
     (case map_of m key of
        None \<Rightarrow> []
      | Some v \<Rightarrow> (case as_list v of None \<Rightarrow> [] | Some vs \<Rightarrow> strings_of vs))"

definition parseCondition :: "(rat \<Rightarrow> int) \<Rightarrow> gofields \<Rightarrow> condition" where
  "parseCondition ovf m = \<lparr>
     max_session_tokens = number_field 64 ovf m ''max_session_tokens'',
     max_turns_per_session = number_field 32 ovf m ''max_turns_per_session'',
     output_match_patterns = strings_field m ''output_match_patterns'',
     output_contains_keywords = strings_field m ''output_contains_keywords'',
     tool_failure_threshold = number_field 64 ovf m ''tool_failure_threshold'',
     max_sandbox_calls_per_turn = number_field 64 ovf m ''max_sandbox_calls_per_turn'',
     max_iterations_per_turn = number_field 32 ovf m ''max_iterations_per_turn'',
     finish_reasons = strings_field m ''finish_reasons'',
     max_output_length = number_field 64 ovf m ''max_output_length''\<rparr>"

definition parse_policy :: "text_ops \<Rightarrow> (rat \<Rightarrow> int) \<Rightarrow> gofields \<Rightarrow> policy" where
  "parse_policy ops ovf m = \<lparr>
     policy_name = getString m ''name'',
     policy_phase = getString m ''phase'',
     policy_condition =
       (case map_of m ''condition'' of
          None \<Rightarrow> no_condition
        | Some v \<Rightarrow> (case as_map v of None \<Rightarrow> no_condition | Some cm \<Rightarrow> parseCondition ovf cm)),
     policy_action = getString m ''action'',
     policy_guidance = getString m ''guidance'',
     policy_severity = getString m ''severity'',
     policy_enabled = getBool ops m ''enabled'' True\<rparr>"

fun parse_policies :: "text_ops \<Rightarrow> (rat \<Rightarrow> int) \<Rightarrow> goval list \<Rightarrow> policy list" where
  "parse_policies ops ovf [] = []"
| "parse_policies ops ovf (item # items) =
     (case as_map item of
        None \<Rightarrow> parse_policies ops ovf items
      | Some m \<Rightarrow>
          let p = parse_policy ops ovf m in
          if policy_validate p = None then p # parse_policies ops ovf items
          else parse_policies ops ovf items)"

definition ParsePolicyConfig :: "text_ops \<Rightarrow> (rat \<Rightarrow> int) \<Rightarrow> gofields \<Rightarrow> policy_set option" where
  "ParsePolicyConfig ops ovf agentConfig =
     (let disabled = strings_field agentConfig ''disable_builtins'';
          policies = (case map_of agentConfig ''policies'' of
                        None \<Rightarrow> []
                      | Some v \<Rightarrow> (case as_list v of None \<Rightarrow> [] | Some items \<Rightarrow> parse_policies ops ovf items))
      in if length policies = 0 \<and> length disabled = 0 then None
         else Some \<lparr>set_policies = policies, disable_builtins = disabled\<rparr>)"

section \<open>Built-in policies\<close>

definition backslash :: string where
  "backslash = [CHR 0x5C]"

definition pii_patterns :: "string list" where
  "pii_patterns =
     [backslash @ ''b'' @ backslash @ ''d{3}-'' @ backslash @ ''d{2}-'' @ backslash @ ''d{4}'' @ backslash @ ''b'',
      backslash @ ''bAKIA[0-9A-Z]{16}'' @ backslash @ ''b'',
      ''(?i)(?:api[_-]?key|secret|token)'' @ backslash @ ''s*[:=]'' @ backslash @ ''s*['' @ [CHR 0x22, CHR 0x27]
        @ '']?[A-Za-z0-9+/=_-]{32,}'']"

definition builtin :: "string \<Rightarrow> string \<Rightarrow> string \<Rightarrow> condition \<Rightarrow> policy" where
  "builtin name phase severity c = \<lparr>policy_name = name, policy_phase = phase, policy_condition = c,
     policy_action = ActionWARN, policy_guidance = '''', policy_severity = severity, policy_enabled = True\<rparr>"

definition DefaultPolicies :: "policy list" where
  "DefaultPolicies =
     [builtin ''builtin.pii_leak'' PhasePOSTTURN ''critical''
        (no_condition\<lparr>output_match_patterns := pii_patterns\<rparr>),
      builtin ''builtin.runaway_sandbox'' PhasePOSTTOOL ''warning''
        (no_condition\<lparr>max_sandbox_calls_per_turn := 50\<rparr>),
      builtin ''builtin.tool_failure_cascade'' PhasePOSTTOOL ''warning''
        (no_condition\<lparr>tool_failure_threshold := 5\<rparr>),
      builtin ''builtin.stall_detection'' PhasePOSTTURN ''warning''
        (no_condition\<lparr>finish_reasons := [''tool_loop_stalled'', ''tool_loop_no_results'', ''max_iterations'']\<rparr>)]"

definition BuiltinPolicyNames :: "string list" where
  "BuiltinPolicyNames = map policy_name DefaultPolicies"

definition MergeWithDefaults :: "policy_set option \<Rightarrow> policy_set" where
  "MergeWithDefaults userPolicies =
     (case userPolicies of
        None \<Rightarrow> \<lparr>set_policies = DefaultPolicies, disable_builtins = []\<rparr>
      | Some u \<Rightarrow>
          let disabled = set (disable_builtins u);
              userNames = policy_name ` set (set_policies u);
              kept = filter (\<lambda>d. \<not> (policy_name d \<in> disabled \<or> policy_name d \<in> userNames)) DefaultPolicies
          in \<lparr>set_policies = kept @ set_policies u, disable_builtins = []\<rparr>)"

end
