(* ===== verification/PolicyEvaluator.thy ===== *)
theory PolicyEvaluator
  imports Policy
begin

text \<open>
  Evaluating policies: \<open>src/internal/agents/policy/evaluator.go\<close>, and the three places of the
  turn loop, \<open>src/internal/agents/runtime/loop.go\<close>, that evaluate a phase and act on a
  blocking decision. Of the loop's state the record \<open>turn_state\<close> keeps what these places
  read or write.
\<close>

section \<open>The evaluator\<close>

record evaluator =
  ev_policies :: "policy list"
  regex_cache :: "string \<rightharpoonup> (string \<Rightarrow> bool)"

fun compile_patterns ::
  "text_ops \<Rightarrow> string list \<Rightarrow> (string \<rightharpoonup> (string \<Rightarrow> bool)) \<Rightarrow> (string \<rightharpoonup> (string \<Rightarrow> bool))"
where
  "compile_patterns ops [] cache = cache"
| "compile_patterns ops (pattern # ps) cache =
     compile_patterns ops ps
       (if cache pattern = None
        then (case re_compile ops pattern of
                Some re \<Rightarrow> cache(pattern \<mapsto> re)
              | None \<Rightarrow> cache)
        else cache)"

definition NewEvaluator :: "text_ops \<Rightarrow> policy_set option \<Rightarrow> evaluator option" where
  "NewEvaluator ops ps =
     (case ps of
        None \<Rightarrow> None
      | Some s \<Rightarrow> Some \<lparr>ev_policies = set_policies s,
          regex_cache = fold (\<lambda>p cache. compile_patterns ops (output_match_patterns (policy_condition p)) cache)
            (set_policies s) Map.empty\<rparr>)"

definition pattern_matches :: "evaluator \<Rightarrow> string \<Rightarrow> string \<Rightarrow> bool" where
  "pattern_matches e txt pattern = (case regex_cache e pattern of Some re \<Rightarrow> re txt | None \<Rightarrow> False)"

definition new_decision :: "policy \<Rightarrow> decision" where
  "new_decision p = \<lparr>dec_policy_name = policy_name p, dec_matched = False, dec_action = policy_action p,
     dec_guidance = policy_guidance p, dec_severity = policy_severity p, dec_details = []\<rparr>"

definition matched_with :: "policy \<Rightarrow> (string \<times> goval) list \<Rightarrow> decision \<times> bool" where
  "matched_with p details = ((new_decision p)\<lparr>dec_matched := True, dec_details := details\<rparr>, True)"

text \<open>The checks on the output text, in order: patterns, then keywords.\<close>

definition text_match :: "text_ops \<Rightarrow> evaluator \<Rightarrow> condition \<Rightarrow> string \<Rightarrow> (string \<times> goval) list option" where
  "text_match ops e c txt =
     (if txt = '''' then None
      else case find (pattern_matches e txt) (output_match_patterns c) of
             Some pattern \<Rightarrow> Some [(''matched_pattern'', GoStr pattern)]
           | None \<Rightarrow>
               (case find (\<lambda>kw. go_contains (to_lower ops txt) (to_lower ops kw)) (output_contains_keywords c) of
                  Some kw \<Rightarrow> Some [(''matched_keyword'', GoStr kw)]
                | None \<Rightarrow> None))"

definition evaluate :: "text_ops \<Rightarrow> evaluator \<Rightarrow> policy \<Rightarrow> eval_context \<Rightarrow> decision \<times> bool" where
  "evaluate ops e p ec =
     (let c = policy_condition p in
      if max_session_tokens c > 0 \<and> session_total_tokens ec > max_session_tokens c
      then matched_with p [(''session_tokens'', GoInt (session_total_tokens ec)),
                           (''max_session_tokens'', GoInt (max_session_tokens c))]
      else if max_turns_per_session c > 0 \<and> turn_number ec > max_turns_per_session c
      then matched_with p [(''turn_number'', GoInt (turn_number ec)),
                           (''max_turns'', GoInt (max_turns_per_session c))]
      else case text_match ops e c (assistant_text ec) of
        Some details \<Rightarrow> matched_with p details
      | None \<Rightarrow>
          if tool_failure_threshold c > 0 \<and> tool_errors ec \<ge> tool_failure_threshold c
          then matched_with p [(''tool_errors'', GoInt (tool_errors ec)),
                               (''threshold'', GoInt (tool_failure_threshold c))]
          else if max_sandbox_calls_per_turn c > 0 \<and> sandbox_tool_calls ec > max_sandbox_calls_per_turn c
          then matched_with p [(''sandbox_calls'', GoInt (sandbox_tool_calls ec)),
                               (''max_sandbox_calls'', GoInt (max_sandbox_calls_per_turn c))]
          else if max_iterations_per_turn c > 0 \<and> iteration_count ec > max_iterations_per_turn c
          then matched_with p [(''iteration_count'', GoInt (iteration_count ec)),
                               (''max_iterations'', GoInt (max_iterations_per_turn c))]
          else if finish_reason ec \<noteq> '''' \<and> find (equal_fold ops (finish_reason ec)) (finish_reasons c) \<noteq> None
          then matched_with p [(''finish_reason'', GoStr (finish_reason ec))]
          else if max_output_length c > 0 \<and> int (length (assistant_text ec)) > max_output_length c
          then matched_with p [(''output_length'', GoInt (int (length (assistant_text ec)))),
                               (''max_output_length'', GoInt (max_output_length c))]
          else (new_decision p, False))"

fun evaluate_all :: "text_ops \<Rightarrow> evaluator \<Rightarrow> string \<Rightarrow> eval_context \<Rightarrow> policy list \<Rightarrow> decision list" where
  "evaluate_all ops e phase ec [] = []"
| "evaluate_all ops e phase ec (p # ps) =
     (if \<not> policy_enabled p \<or> policy_phase p \<noteq> phase then evaluate_all ops e phase ec ps
      else case evaluate ops e p ec of
             (d, True) \<Rightarrow> d # evaluate_all ops e phase ec ps
           | (d, False) \<Rightarrow> evaluate_all ops e phase ec ps)"

definition EvaluatePhase :: "text_ops \<Rightarrow> evaluator option \<Rightarrow> string \<Rightarrow> eval_context \<Rightarrow> decision list" where
  "EvaluatePhase ops eo phase ec =
     (case eo of None \<Rightarrow> [] | Some e \<Rightarrow> evaluate_all ops e phase ec (ev_policies e))"

definition HasBlockingDecision :: "decision list \<Rightarrow> bool" where
  "HasBlockingDecision decisions \<longleftrightarrow> (\<exists>d \<in> set decisions. dec_matched d \<and> dec_action d = ActionBLOCK)"

definition FirstRetryDecision :: "decision list \<Rightarrow> decision option" where
  "FirstRetryDecision decisions = find (\<lambda>d. dec_matched d \<and> dec_action d = ActionRETRY) decisions"

section \<open>The checks of a turn\<close>

record turn_state =
  ts_turn_number :: int
  ts_iteration_count :: int
  ts_prior_tokens :: int
  ts_cumulative_tokens :: int
  ts_finish_reason :: string
  ts_done :: bool
  ts_assistant_text :: string
  ts_messages :: "(string \<times> string) list"
  ts_emitted :: "(string \<times> decision) list"

definition blocked_by :: "decision list \<Rightarrow> string" where
  "blocked_by decisions =
     (case find (\<lambda>d. dec_action d = ActionBLOCK) decisions of Some d \<Rightarrow> dec_policy_name d | None \<Rightarrow> '''')"

definition emit_decisions :: "string \<Rightarrow> decision list \<Rightarrow> turn_state \<Rightarrow> turn_state" where
  "emit_decisions phase ds st = st\<lparr>ts_emitted := ts_emitted st @ map (\<lambda>d. (phase, d)) ds\<rparr>"

text \<open>Each check returns the state and whether the loop leaves at this point.\<close>

definition pre_turn_check :: "text_ops \<Rightarrow> evaluator option \<Rightarrow> turn_state \<Rightarrow> turn_state \<times> bool" where
  "pre_turn_check ops eo st =
     (if eo = None then (st, False)
      else
        let ds = EvaluatePhase ops eo PhasePRETURN
              \<lparr>turn_number = ts_turn_number st, iteration_count = 0, assistant_text = '''',
               finish_reason = '''', session_total_tokens = ts_prior_tokens st + ts_cumulative_tokens st,
               sandbox_tool_calls = 0, tool_errors = 0\<rparr>;
            st1 = emit_decisions PhasePRETURN ds st
        in if HasBlockingDecision ds
           then (st1\<lparr>ts_finish_reason := ''policy_blocked'', ts_done := True,
                     ts_assistant_text := ''Turn blocked by policy: '' @ blocked_by ds\<rparr>, True)
           else (st1, False))"

definition post_tool_check ::
  "text_ops \<Rightarrow> evaluator option \<Rightarrow> int \<Rightarrow> int \<Rightarrow> turn_state \<Rightarrow> turn_state \<times> bool"
where
  "post_tool_check ops eo turnSandboxToolCalls turnToolErrors st =
     (if eo = None then (st, False)
      else
        let ds = EvaluatePhase ops eo PhasePOSTTOOL
              \<lparr>turn_number = ts_turn_number st, iteration_count = ts_iteration_count st, assistant_text = '''',
               finish_reason = '''', session_total_tokens = ts_prior_tokens st + ts_cumulative_tokens st,
               sandbox_tool_calls = turnSandboxToolCalls, tool_errors = turnToolErrors\<rparr>;
            st1 = emit_decisions PhasePOSTTOOL ds st
        in if HasBlockingDecision ds
           then let msg = ''Turn stopped by policy: '' @ blocked_by ds
                in (st1\<lparr>ts_finish_reason := ''policy_blocked'', ts_assistant_text := msg,
                        ts_messages := ts_messages st1 @ [(''assistant'', msg)], ts_done := True\<rparr>, True)
           else (st1, False))"

definition post_turn_check :: "text_ops \<Rightarrow> evaluator option \<Rightarrow> int \<Rightarrow> int \<Rightarrow> turn_state \<Rightarrow> turn_state" where
  "post_turn_check ops eo turnSandboxToolCalls turnToolErrors st =
     (if eo = None \<or> ts_finish_reason st = ''policy_blocked'' then st
      else
        let ds = EvaluatePhase ops eo PhasePOSTTURN
              \<lparr>turn_number = ts_turn_number st, iteration_count = ts_iteration_count st,
               assistant_text = ts_assistant_text st, finish_reason = ts_finish_reason st,
               session_total_tokens = ts_prior_tokens st + ts_cumulative_tokens st,
               sandbox_tool_calls = turnSandboxToolCalls, tool_errors = turnToolErrors\<rparr>;
            st1 = emit_decisions PhasePOSTTURN ds st
        in if HasBlockingDecision ds then st1\<lparr>ts_finish_reason := ''policy_blocked''\<rparr> else st1)"

end
