(* ===== verification/PolicyGuarantees.thy ===== *)
theory PolicyGuarantees
  imports PolicyEvaluator
begin

text \<open>
  What the policies of an agent do: the evaluator against a declarative reading of a
  condition, the set in force after the built-in policies are merged in, and when a
  blocking policy stops a turn.
\<close>

section \<open>When a condition holds\<close>

definition triggers :: "text_ops \<Rightarrow> condition \<Rightarrow> eval_context \<Rightarrow> bool" where
  "triggers ops c ec \<longleftrightarrow>
     (0 < max_session_tokens c \<and> max_session_tokens c < session_total_tokens ec) \<or>
     (0 < max_turns_per_session c \<and> max_turns_per_session c < turn_number ec) \<or>
     (assistant_text ec \<noteq> '''' \<and>
        (\<exists>pattern \<in> set (output_match_patterns c).
           case re_compile ops pattern of Some re \<Rightarrow> re (assistant_text ec) | None \<Rightarrow> False)) \<or>
     (assistant_text ec \<noteq> '''' \<and>
        (\<exists>kw \<in> set (output_contains_keywords c).
           go_contains (to_lower ops (assistant_text ec)) (to_lower ops kw))) \<or>
     (0 < tool_failure_threshold c \<and> tool_failure_threshold c \<le> tool_errors ec) \<or>
     (0 < max_sandbox_calls_per_turn c \<and> max_sandbox_calls_per_turn c < sandbox_tool_calls ec) \<or>
     (0 < max_iterations_per_turn c \<and> max_iterations_per_turn c < iteration_count ec) \<or>
     (finish_reason ec \<noteq> '''' \<and>
        (\<exists>fr \<in> set (finish_reasons c). equal_fold ops (finish_reason ec) fr)) \<or>
     (0 < max_output_length c \<and> max_output_length c < int (length (assistant_text ec)))"

lemma compile_patterns_keep:
  "cache k = Some re \<Longrightarrow> compile_patterns ops ps cache k = Some re"
proof (induction ps arbitrary: cache)
  case (Cons p ps)
  let ?c = "if cache p = None then case re_compile ops p of Some re \<Rightarrow> cache(p \<mapsto> re) | None \<Rightarrow> cache else cache"
  have "?c k = Some re" using Cons.prems by (auto split: option.splits)
  from Cons.IH [where cache = ?c, OF this] show ?case by simp
qed simp

lemma compile_patterns_sound:
  "(\<And>k re. cache k = Some re \<Longrightarrow> re_compile ops k = Some re) \<Longrightarrow>
     compile_patterns ops ps cache k = Some re \<Longrightarrow> re_compile ops k = Some re"
proof (induction ps arbitrary: cache)
  case (Cons p ps)
  show ?case
    by (rule Cons.IH [OF _ Cons.prems(2) [unfolded compile_patterns.simps]])
       (auto split: if_splits option.splits dest: Cons.prems(1))
qed simp

lemma compile_patterns_complete:
  "k \<in> set ps \<Longrightarrow> re_compile ops k = Some re \<Longrightarrow>
     (\<And>k re. cache k = Some re \<Longrightarrow> re_compile ops k = Some re) \<Longrightarrow>
     compile_patterns ops ps cache k = Some re"
proof (induction ps arbitrary: cache)
  case (Cons p ps)
  let ?c = "if cache p = None then case re_compile ops p of Some re \<Rightarrow> cache(p \<mapsto> re) | None \<Rightarrow> cache else cache"
  have sound: "\<And>k re. ?c k = Some re \<Longrightarrow> re_compile ops k = Some re"
    using Cons.prems(3) by (auto split: if_splits option.splits)
  show ?case
  proof (cases "k = p")
    case True
    with Cons.prems(2,3) have "?c k = Some re" by (cases "cache p") auto
    from compile_patterns_keep [where cache = ?c, OF this] show ?thesis by simp
  next
    case False
    with Cons.prems(1) have "k \<in> set ps" by simp
    from Cons.IH [where cache = ?c, OF this Cons.prems(2) sound] show ?thesis by simp
  qed
qed simp

lemma regex_cache_compiles:
  assumes "p \<in> set (set_policies ps)" and "k \<in> set (output_match_patterns (policy_condition p))"
    and "NewEvaluator ops (Some ps) = Some e"
  shows "regex_cache e k = re_compile ops k"
proof -
  let ?step = "\<lambda>p cache. compile_patterns ops (output_match_patterns (policy_condition p)) cache"
  have sound: "(\<And>k re. cache k = Some re \<Longrightarrow> re_compile ops k = Some re) \<Longrightarrow>
      fold ?step qs cache k = Some re \<Longrightarrow> re_compile ops k = Some re" for qs cache k re
  proof (induction qs arbitrary: cache)
    case (Cons q qs)
    from Cons.IH [of "?step q cache"] Cons.prems compile_patterns_sound [of cache ops] show ?case
      by (metis fold_simps(2))
  qed simp
  have keep: "cache k = Some re \<Longrightarrow> fold ?step qs cache k = Some re" for qs cache re
    by (induction qs arbitrary: cache) (simp_all add: compile_patterns_keep)
  have complete: "p \<in> set qs \<Longrightarrow> re_compile ops k = Some re \<Longrightarrow>
      (\<And>k re. cache k = Some re \<Longrightarrow> re_compile ops k = Some re) \<Longrightarrow>
      fold ?step qs cache k = Some re" for qs cache re
  proof (induction qs arbitrary: cache)
    case (Cons q qs)
    show ?case
    proof (cases "p = q")
      case True
      have "?step q cache k = Some re"
        using compile_patterns_complete [where cache = cache, OF assms(2) Cons.prems(2,3)] True by simp
      from keep [of "?step q cache" re qs, OF this] show ?thesis by simp
    next
      case False
      have "\<And>k re. ?step q cache k = Some re \<Longrightarrow> re_compile ops k = Some re"
        using compile_patterns_sound [of cache ops] Cons.prems(3) by metis
      with Cons.IH [of "?step q cache"] Cons.prems False show ?thesis by simp
    qed
  qed simp
  from assms(3) have e: "regex_cache e = fold ?step (set_policies ps) Map.empty"
    by (auto simp: NewEvaluator_def)
  show ?thesis
  proof (cases "re_compile ops k")
    case None
    with sound [of Map.empty "set_policies ps" k] show ?thesis
      unfolding e by (metis not_None_eq option.distinct(1))
  next
    case (Some re)
    with complete [OF assms(1) Some, of Map.empty] show ?thesis unfolding e by simp
  qed
qed

lemma find_None_ex: "(find P xs \<noteq> None) \<longleftrightarrow> (\<exists>x \<in> set xs. P x)"
  by (auto simp: find_None_iff)

text \<open>Every branch of the evaluation gives a matched decision or none.\<close>

definition outcome :: "policy \<Rightarrow> decision \<times> bool \<Rightarrow> bool" where
  "outcome p r \<longleftrightarrow> (\<exists>d. r = matched_with p d) \<or> r = (new_decision p, False)"

lemma outcome_rules:
  "outcome p (matched_with p d)" "outcome p (new_decision p, False)"
  "outcome p a \<Longrightarrow> outcome p b \<Longrightarrow> outcome p (if c then a else b)"
  "(\<And>d. outcome p (f d)) \<Longrightarrow> outcome p b \<Longrightarrow> outcome p (case x of Some d \<Rightarrow> f d | None \<Rightarrow> b)"
  by (auto simp: outcome_def split: option.splits)

lemma evaluate_outcome: "outcome p (evaluate ops e p ec)"
  unfolding evaluate_def Let_def by (intro outcome_rules)

lemma evaluate_cases:
  assumes p: "p \<in> set (set_policies ps)" and e: "NewEvaluator ops (Some ps) = Some e"
  shows "snd (evaluate ops e p ec) \<longleftrightarrow> triggers ops (policy_condition p) ec"
    and "snd (evaluate ops e p ec) \<Longrightarrow>
      \<exists>details. fst (evaluate ops e p ec) = (new_decision p)\<lparr>dec_matched := True, dec_details := details\<rparr>"
proof -
  let ?c = "policy_condition p"
  have m1: "text_match ops e ?c said \<noteq> None \<longleftrightarrow> said \<noteq> '''' \<and>
      ((\<exists>pattern \<in> set (output_match_patterns ?c). pattern_matches e said pattern) \<or>
       (\<exists>kw \<in> set (output_contains_keywords ?c). go_contains (to_lower ops said) (to_lower ops kw)))" for said
    unfolding text_match_def find_None_ex [symmetric] by (auto split: option.splits)
  have m2: "pattern_matches e said pattern \<longleftrightarrow>
      (case re_compile ops pattern of Some re \<Rightarrow> re said | None \<Rightarrow> False)"
    if "pattern \<in> set (output_match_patterns ?c)" for said pattern
    using regex_cache_compiles [OF p that e] by (simp add: pattern_matches_def)
  have tm: "text_match ops e ?c said \<noteq> None \<longleftrightarrow> said \<noteq> '''' \<and>
      ((\<exists>pattern \<in> set (output_match_patterns ?c).
          case re_compile ops pattern of Some re \<Rightarrow> re said | None \<Rightarrow> False) \<or>
       (\<exists>kw \<in> set (output_contains_keywords ?c). go_contains (to_lower ops said) (to_lower ops kw)))" for said
    by (subst m1) (simp add: m2 cong: bex_cong)
  have snd_matched: "snd (matched_with p d)" for d by (simp add: matched_with_def)
  show "snd (evaluate ops e p ec) \<longleftrightarrow> triggers ops ?c ec"
  proof (cases "text_match ops e ?c (assistant_text ec)")
    case None
    with tm [of "assistant_text ec"] show ?thesis
      unfolding evaluate_def triggers_def Let_def find_None_ex by (auto simp: snd_matched)
  next
    case (Some d)
    with tm [of "assistant_text ec"] show ?thesis
      unfolding evaluate_def triggers_def Let_def by (auto simp: snd_matched)
  qed
  show "snd (evaluate ops e p ec) \<Longrightarrow>
      \<exists>details. fst (evaluate ops e p ec) = (new_decision p)\<lparr>dec_matched := True, dec_details := details\<rparr>"
    using evaluate_outcome [of p ops e ec] by (auto simp: outcome_def matched_with_def)
qed

text \<open>The policies that answer in a phase.\<close>

definition firing :: "text_ops \<Rightarrow> policy_set \<Rightarrow> string \<Rightarrow> eval_context \<Rightarrow> policy list" where
  "firing ops ps phase ec = filter (\<lambda>p. triggers ops (policy_condition p) ec) (ForPhase ps phase)"

definition answer :: "decision \<Rightarrow> string \<times> bool \<times> string \<times> string \<times> string" where
  "answer d = (dec_policy_name d, dec_matched d, dec_action d, dec_guidance d, dec_severity d)"

definition answer_of :: "policy \<Rightarrow> string \<times> bool \<times> string \<times> string \<times> string" where
  "answer_of p = (policy_name p, True, policy_action p, policy_guidance p, policy_severity p)"

lemma evaluate_phase_answers:
  "map answer (EvaluatePhase ops (NewEvaluator ops (Some ps)) phase ec) = map answer_of (firing ops ps phase ec)"
proof -
  obtain e where e: "NewEvaluator ops (Some ps) = Some e" by (simp add: NewEvaluator_def)
  then have "ev_policies e = set_policies ps" by (auto simp: NewEvaluator_def)
  moreover have "set qs \<subseteq> set (set_policies ps) \<Longrightarrow>
      map answer (evaluate_all ops e phase ec qs) = map answer_of (filter
        (\<lambda>p. triggers ops (policy_condition p) ec) (filter (\<lambda>p. policy_enabled p \<and> policy_phase p = phase) qs))" for qs
  proof (induction qs)
    case (Cons q qs)
    then have q: "q \<in> set (set_policies ps)" by simp
    obtain d b where db: "evaluate ops e q ec = (d, b)" by fastforce
    from evaluate_cases(2) [OF q e, of ec] db have "b \<Longrightarrow> answer d = answer_of q"
      by (auto simp: answer_def answer_of_def new_decision_def)
    with evaluate_cases(1) [OF q e, of ec] db Cons show ?case by (cases b) auto
  qed simp
  ultimately show ?thesis by (simp add: EvaluatePhase_def e firing_def ForPhase_def)
qed

lemma has_blocking_answer:
  "HasBlockingDecision ds \<longleftrightarrow> (\<exists>a \<in> set (map answer ds). fst (snd a) \<and> fst (snd (snd a)) = ActionBLOCK)"
  by (auto simp: HasBlockingDecision_def answer_def)

lemma first_retry_answer:
  "map_option answer (FirstRetryDecision ds) =
     find (\<lambda>a. fst (snd a) \<and> fst (snd (snd a)) = ActionRETRY) (map answer ds)"
  by (induction ds) (auto simp: FirstRetryDecision_def answer_def)

lemma find_map: "find P (map f xs) = map_option f (find (\<lambda>x. P (f x)) xs)"
  by (induction xs) auto

text \<open>
  C20: evaluating a phase answers for exactly the enabled policies of that phase whose
  condition holds, in their order, each with its action, guidance and severity. It blocks
  exactly when one of them has the action block, and the retry decision is that of the first
  with the action retry. A pattern that does not compile never matches.
\<close>

theorem policy_evaluation_exact:
  "let ds = EvaluatePhase ops (NewEvaluator ops (Some ps)) phase ec in
     map answer ds = map answer_of (firing ops ps phase ec) \<and>
     (HasBlockingDecision ds \<longleftrightarrow> (\<exists>p \<in> set (firing ops ps phase ec). policy_action p = ActionBLOCK)) \<and>
     map_option answer (FirstRetryDecision ds) =
       map_option answer_of (find (\<lambda>p. policy_action p = ActionRETRY) (firing ops ps phase ec))"
proof -
  let ?ds = "EvaluatePhase ops (NewEvaluator ops (Some ps)) phase ec"
  have "HasBlockingDecision ?ds \<longleftrightarrow> (\<exists>p \<in> set (firing ops ps phase ec). policy_action p = ActionBLOCK)"
    unfolding has_blocking_answer evaluate_phase_answers by (simp add: answer_of_def)
  moreover have "map_option answer (FirstRetryDecision ?ds) =
      map_option answer_of (find (\<lambda>p. policy_action p = ActionRETRY) (firing ops ps phase ec))"
    unfolding first_retry_answer evaluate_phase_answers find_map by (simp add: answer_of_def)
  ultimately show ?thesis by (simp add: Let_def evaluate_phase_answers)
qed

section \<open>The policies in force\<close>

lemma parse_policies_valid: "p \<in> set (parse_policies ops ovf items) \<Longrightarrow> policy_validate p = None"
  by (induction items) (auto simp: Let_def split: option.splits if_splits)

lemma parse_config_valid:
  "ParsePolicyConfig ops ovf cfg = Some ps \<Longrightarrow> p \<in> set (set_policies ps) \<Longrightarrow> policy_validate p = None"
  by (auto simp: ParsePolicyConfig_def Let_def split: if_splits option.splits dest: parse_policies_valid)

lemma defaults_valid: "\<forall>d \<in> set DefaultPolicies. policy_validate d = None \<and> policy_action d = ActionWARN"
  by (simp add: DefaultPolicies_def builtin_def policy_validate_def condition_validate_def
      no_condition_def pii_patterns_def)

text \<open>
  whatever the configuration of an agent holds, every policy in force is well-formed;
  a built-in policy is in force unless the configuration lists its name as disabled or
  declares a policy of that name, and all the well-formed policies the configuration
  declares are in force, after the built-in ones.
\<close>

theorem policies_in_force:
  assumes "ParsePolicyConfig ops ovf cfg = user" and "MergeWithDefaults user = ps"
  shows "(\<forall>p \<in> set (set_policies ps). policy_validate p = None) \<and>
    (case user of
       None \<Rightarrow> set_policies ps = DefaultPolicies
     | Some u \<Rightarrow> \<exists>kept. set_policies ps = kept @ set_policies u \<and>
         set kept = {d \<in> set DefaultPolicies. policy_name d \<notin> set (disable_builtins u) \<and>
           policy_name d \<notin> policy_name ` set (set_policies u)})"
proof -
  have kept: "\<exists>kept. set_policies ps = kept @ set_policies u \<and>
      set kept = {d \<in> set DefaultPolicies. policy_name d \<notin> set (disable_builtins u) \<and>
        policy_name d \<notin> policy_name ` set (set_policies u)}" if "user = Some u" for u
    using assms(2) that by (auto simp: MergeWithDefaults_def Let_def)
  moreover have "policy_validate p = None" if p: "p \<in> set (set_policies ps)" for p
  proof (cases user)
    case None
    with assms(2) p defaults_valid show ?thesis by (auto simp: MergeWithDefaults_def)
  next
    case (Some u)
    from kept [OF this] p have "p \<in> set DefaultPolicies \<or> p \<in> set (set_policies u)" by auto
    with defaults_valid parse_config_valid [of ops ovf cfg u p] assms(1) Some show ?thesis by blast
  qed
  ultimately show ?thesis using assms(2)
    by (cases user) (auto simp: MergeWithDefaults_def)
qed

section \<open>Stopping a turn\<close>

definition pre_turn_context :: "turn_state \<Rightarrow> eval_context" where
  "pre_turn_context st = \<lparr>turn_number = ts_turn_number st, iteration_count = 0, assistant_text = '''',
     finish_reason = '''', session_total_tokens = ts_prior_tokens st + ts_cumulative_tokens st,
     sandbox_tool_calls = 0, tool_errors = 0\<rparr>"

text \<open>
  a turn is refused before any model call exactly when an enabled blocking policy of
  the pre-turn phase has its condition met; it is then done, with the finish reason
  \<open>policy_blocked\<close>. Before the model has said anything only the token and turn limits can
  be met: a pre-turn policy on output, tools, iterations or finish reasons never fires.
\<close>

theorem pre_turn_block_exact:
  "case pre_turn_check ops (NewEvaluator ops (Some ps)) st of (st', stop) \<Rightarrow>
     (stop \<longleftrightarrow> (\<exists>p \<in> set (set_policies ps). policy_enabled p \<and> policy_phase p = PhasePRETURN \<and>
        policy_action p = ActionBLOCK \<and>
        (0 < max_session_tokens (policy_condition p) \<and>
           max_session_tokens (policy_condition p) < ts_prior_tokens st + ts_cumulative_tokens st \<or>
         0 < max_turns_per_session (policy_condition p) \<and>
           max_turns_per_session (policy_condition p) < ts_turn_number st))) \<and>
     ts_finish_reason st' = (if stop then ''policy_blocked'' else ts_finish_reason st) \<and>
     ts_done st' = (stop \<or> ts_done st)"
proof -
  let ?ds = "EvaluatePhase ops (NewEvaluator ops (Some ps)) PhasePRETURN (pre_turn_context st)"
  have trig: "triggers ops c (pre_turn_context st) \<longleftrightarrow>
      0 < max_session_tokens c \<and> max_session_tokens c < ts_prior_tokens st + ts_cumulative_tokens st \<or>
      0 < max_turns_per_session c \<and> max_turns_per_session c < ts_turn_number st" for c
    by (auto simp: triggers_def pre_turn_context_def)
  have "HasBlockingDecision ?ds \<longleftrightarrow>
      (\<exists>p \<in> set (firing ops ps PhasePRETURN (pre_turn_context st)). policy_action p = ActionBLOCK)"
    unfolding has_blocking_answer evaluate_phase_answers by (simp add: answer_of_def)
  then have b: "HasBlockingDecision ?ds \<longleftrightarrow> (\<exists>p \<in> set (set_policies ps). policy_enabled p \<and>
      policy_phase p = PhasePRETURN \<and> policy_action p = ActionBLOCK \<and>
      triggers ops (policy_condition p) (pre_turn_context st))"
    by (auto simp: firing_def ForPhase_def)
  have "pre_turn_check ops (NewEvaluator ops (Some ps)) st =
      (let st1 = emit_decisions PhasePRETURN ?ds st
       in if HasBlockingDecision ?ds
          then (st1\<lparr>ts_finish_reason := ''policy_blocked'', ts_done := True,
                    ts_assistant_text := ''Turn blocked by policy: '' @ blocked_by ?ds\<rparr>, True)
          else (st1, False))"
    by (simp add: pre_turn_check_def pre_turn_context_def NewEvaluator_def Let_def)
  then show ?thesis using b unfolding trig by (simp add: Let_def emit_decisions_def)
qed

section \<open>Examples\<close>

definition demo_ops :: text_ops where
  "demo_ops = \<lparr>to_lower = (\<lambda>s. s), equal_fold = (=), re_compile = (\<lambda>pattern. Some (\<lambda>s. go_contains s pattern))\<rparr>"

definition demo_config :: "(string \<times> goval) list" where
  "demo_config =
     [(''disable_builtins'', GoList [GoStr ''builtin.pii_leak'']),
      (''policies'', GoList
         [GoMap [(''name'', GoStr ''budget''), (''phase'', GoStr ''pre_turn''), (''action'', GoStr ''block''),
                 (''condition'', GoMap [(''max_session_tokens'', GoFloat 1000)])],
          GoMap [(''name'', GoStr ''broken''), (''phase'', GoStr ''pre_turn''), (''action'', GoStr ''retry''),
                 (''condition'', GoMap [(''max_session_tokens'', GoFloat 1000)])]])]"

theorem policies_in_force_witness:
  "\<exists>ps kept. MergeWithDefaults (ParsePolicyConfig demo_ops (\<lambda>_. 0) demo_config) = ps \<and>
     map policy_name (set_policies ps) =
       [''builtin.runaway_sandbox'', ''builtin.tool_failure_cascade'', ''builtin.stall_detection'', ''budget''] \<and>
     set_policies ps = kept @ [hd (rev (set_policies ps))]"
proof -
  let ?user = "ParsePolicyConfig demo_ops (\<lambda>_. 0) demo_config"
  have names: "map policy_name (set_policies (MergeWithDefaults ?user)) =
      [''builtin.runaway_sandbox'', ''builtin.tool_failure_cascade'', ''builtin.stall_detection'', ''budget'']"
    by code_simp
  obtain u where u: "?user = Some u" by (simp add: ParsePolicyConfig_def demo_config_def strings_field_def)
  have "map policy_name (set_policies (the ?user)) = [''budget'']" by code_simp
  with u have one: "map policy_name (set_policies u) = [''budget'']" by simp
  from policies_in_force [OF refl refl, of demo_ops "\<lambda>_. 0" demo_config] u obtain kept where
    "set_policies (MergeWithDefaults ?user) = kept @ set_policies u" by auto
  with one have "set_policies (MergeWithDefaults ?user) = kept @ [hd (rev (set_policies (MergeWithDefaults ?user)))]"
    by (auto simp: map_eq_Cons_conv)
  with names show ?thesis by (intro exI conjI) (rule refl, assumption+)
qed

text \<open>
  A blocking post-turn policy only rewrites the finish reason: the text it blocked stays the
  turn's answer.
\<close>

lemma post_turn_block_keeps_text:
  "ts_assistant_text (post_turn_check ops eo sandbox_calls errors st) = ts_assistant_text st"
  by (auto simp: post_turn_check_def Let_def emit_decisions_def)

text \<open>
  A negative limit passes validation, which only asks for a field other than zero, and then
  never fires.
\<close>

lemma negative_limit_inert:
  "condition_validate (no_condition\<lparr>max_session_tokens := -1\<rparr>) = None \<and>
   \<not> triggers ops (no_condition\<lparr>max_session_tokens := -1\<rparr>) ec"
  by (simp add: condition_validate_def triggers_def no_condition_def)

end
