(* ===== verification/TriggerStore.thy ===== *)
theory TriggerStore
  imports Prelude
begin

text \<open>
  Agent triggers and their table (\<open>internal/agents/trigger/types.go\<close>, \<open>store.go\<close>,
  \<open>postgres_store.go\<close>): the record the runtime sees, the nullable row it is read from, and each
  statement of the store as its effect on the two tables. \<open>NOW()\<close> is an argument, an instant in
  nanoseconds; an execution's UUID is the number the next row gets. The tables are those of the
  migration \<open>agent_triggers_20260220021013\<close>: an execution refers to its trigger and goes with it.
\<close>

type_synonym instant = int

section \<open>Types\<close>

datatype trigger_type = TriggerCron | TriggerWebhook | TriggerEvent | OtherTrigger string

datatype circuit_state = CircuitClosed | CircuitOpen | CircuitHalfOpen | OtherCircuit string

datatype execution_status =
  StatusPending | StatusRunning | StatusCompleted | StatusFailed | StatusTimeout | StatusSkipped

record trigger =
  tr_id :: string
  tr_tenant_id :: string
  tr_agent_id :: string
  tr_name :: string
  tr_type :: trigger_type
  tr_enabled :: bool
  tr_cron_expression :: string
  tr_cron_timezone :: string
  tr_webhook_secret_hash :: string
  tr_webhook_path :: string
  tr_event_source_agent_id :: string
  tr_event_type :: string
  tr_event_filter :: string
  tr_workflow_id :: string
  tr_input_template :: string
  tr_max_retries :: int
  tr_retry_delay_seconds :: int
  tr_timeout_seconds :: int
  tr_max_concurrent :: int
  tr_consecutive_failures :: int
  tr_circuit_state :: circuit_state
  tr_circuit_opened_at :: "instant option"
  tr_created_at :: instant
  tr_updated_at :: instant

record trigger_row =
  tw_id :: string
  tw_tenant_id :: string
  tw_agent_id :: string
  tw_name :: string
  tw_type :: trigger_type
  tw_enabled :: bool
  tw_cron_expression :: "string option"
  tw_cron_timezone :: "string option"
  tw_webhook_secret_hash :: "string option"
  tw_webhook_path :: "string option"
  tw_event_source_agent_id :: "string option"
  tw_event_type :: "string option"
  tw_event_filter :: "string option"
  tw_workflow_id :: "string option"
  tw_input_template :: "string option"
  tw_max_retries :: "int option"
  tw_retry_delay_seconds :: "int option"
  tw_timeout_seconds :: "int option"
  tw_max_concurrent :: "int option"
  tw_consecutive_failures :: "int option"
  tw_circuit_state :: "circuit_state option"
  tw_circuit_opened_at :: "instant option"
  tw_created_at :: instant
  tw_updated_at :: instant

text \<open>An execution as its row; a NULL column is \<open>None\<close>.\<close>

record execution =
  ex_id :: nat
  ex_tenant_id :: string
  ex_trigger_id :: string
  ex_session_id :: "string option"
  ex_status :: execution_status
  ex_trigger_payload :: "string option"
  ex_input_rendered :: string
  ex_output_preview :: "string option"
  ex_error_message :: "string option"
  ex_attempt :: int
  ex_duration_ms :: "int option"
  ex_started_at :: instant
  ex_completed_at :: "instant option"

record trigger_db =
  db_triggers :: "trigger_row list"
  db_executions :: "execution list"
  db_next_execution :: nat

datatype store_error =
    ErrNoRows
  | ErrForeignKey
  | ErrInvalidJson
  | ErrBadOffset
  | ErrScanNull

section \<open>Reading a row\<close>

definition nullStringValue :: "string option \<Rightarrow> string \<Rightarrow> string" where
  "nullStringValue v fallback = (case v of Some s \<Rightarrow> s | None \<Rightarrow> fallback)"

definition nullIntValue :: "int option \<Rightarrow> int \<Rightarrow> int" where
  "nullIntValue v fallback = (case v of Some i \<Rightarrow> i | None \<Rightarrow> fallback)"

definition toTrigger :: "trigger_row \<Rightarrow> trigger" where
  "toTrigger r =
     \<lparr>tr_id = tw_id r, tr_tenant_id = tw_tenant_id r, tr_agent_id = tw_agent_id r, tr_name = tw_name r,
      tr_type = tw_type r, tr_enabled = tw_enabled r,
      tr_cron_expression = nullStringValue (tw_cron_expression r) '''',
      tr_cron_timezone = nullStringValue (tw_cron_timezone r) ''UTC'',
      tr_webhook_secret_hash = nullStringValue (tw_webhook_secret_hash r) '''',
      tr_webhook_path = nullStringValue (tw_webhook_path r) '''',
      tr_event_source_agent_id = nullStringValue (tw_event_source_agent_id r) '''',
      tr_event_type = nullStringValue (tw_event_type r) '''',
      tr_event_filter = nullStringValue (tw_event_filter r) '''',
      tr_workflow_id = nullStringValue (tw_workflow_id r) '''',
      tr_input_template = nullStringValue (tw_input_template r) '''',
      tr_max_retries = nullIntValue (tw_max_retries r) 0,
      tr_retry_delay_seconds = nullIntValue (tw_retry_delay_seconds r) 60,
      tr_timeout_seconds = nullIntValue (tw_timeout_seconds r) 300,
      tr_max_concurrent = nullIntValue (tw_max_concurrent r) 1,
      tr_consecutive_failures = nullIntValue (tw_consecutive_failures r) 0,
      tr_circuit_state = (case tw_circuit_state r of Some c \<Rightarrow> c | None \<Rightarrow> CircuitClosed),
      tr_circuit_opened_at = tw_circuit_opened_at r,
      tr_created_at = tw_created_at r, tr_updated_at = tw_updated_at r\<rparr>"

definition materializeTriggers :: "trigger_row list \<Rightarrow> trigger list" where
  "materializeTriggers rows = map toTrigger rows"

section \<open>Rows by id\<close>

definition find_trigger :: "string \<Rightarrow> trigger_db \<Rightarrow> trigger_row option" where
  "find_trigger i db = find (\<lambda>r. tw_id r = i) (db_triggers db)"

definition update_triggers :: "(trigger_row \<Rightarrow> bool) \<Rightarrow> (trigger_row \<Rightarrow> trigger_row) \<Rightarrow> trigger_db \<Rightarrow> trigger_db" where
  "update_triggers p f db = db\<lparr>db_triggers := map (\<lambda>r. if p r then f r else r) (db_triggers db)\<rparr>"

text \<open>\<open>NULLIF(x, '')\<close>\<close>

definition null_if_empty :: "string \<Rightarrow> string option" where
  "null_if_empty s = (if s = '''' then None else Some s)"

section \<open>Triggers\<close>

definition CreateTrigger :: "instant \<Rightarrow> string \<Rightarrow> trigger \<Rightarrow> trigger_db \<Rightarrow> trigger \<times> trigger_db" where
  "CreateTrigger now i t db =
     (t\<lparr>tr_id := i, tr_created_at := now, tr_updated_at := now\<rparr>,
      db\<lparr>db_triggers := db_triggers db @
        [\<lparr>tw_id = i, tw_tenant_id = tr_tenant_id t, tw_agent_id = tr_agent_id t, tw_name = tr_name t,
          tw_type = tr_type t, tw_enabled = tr_enabled t,
          tw_cron_expression = null_if_empty (tr_cron_expression t),
          tw_cron_timezone = null_if_empty (tr_cron_timezone t),
          tw_webhook_secret_hash = null_if_empty (tr_webhook_secret_hash t),
          tw_webhook_path = null_if_empty (tr_webhook_path t),
          tw_event_source_agent_id = null_if_empty (tr_event_source_agent_id t),
          tw_event_type = null_if_empty (tr_event_type t),
          tw_event_filter = null_if_empty (tr_event_filter t),
          tw_workflow_id = null_if_empty (tr_workflow_id t),
          tw_input_template = Some (tr_input_template t), tw_max_retries = Some (tr_max_retries t),
          tw_retry_delay_seconds = Some (tr_retry_delay_seconds t),
          tw_timeout_seconds = Some (tr_timeout_seconds t), tw_max_concurrent = Some (tr_max_concurrent t),
          tw_consecutive_failures = Some 0, tw_circuit_state = Some CircuitClosed,
          tw_circuit_opened_at = None, tw_created_at = now, tw_updated_at = now\<rparr>]\<rparr>)"

definition GetTrigger :: "string \<Rightarrow> string \<Rightarrow> trigger_db \<Rightarrow> store_error + trigger" where
  "GetTrigger i tenant db =
     (case find (\<lambda>r. tw_id r = i \<and> tw_tenant_id r = tenant) (db_triggers db) of
        None \<Rightarrow> Inl ErrNoRows
      | Some r \<Rightarrow> Inr (toTrigger r))"

definition ListTriggers :: "string \<Rightarrow> string \<Rightarrow> trigger_db \<Rightarrow> trigger list" where
  "ListTriggers agent tenant db =
     materializeTriggers (sort_key (\<lambda>r. - tw_created_at r)
       (filter (\<lambda>r. tw_agent_id r = agent \<and> tw_tenant_id r = tenant) (db_triggers db)))"

definition updated_row :: "instant \<Rightarrow> trigger \<Rightarrow> trigger_row \<Rightarrow> trigger_row" where
  "updated_row now t r = r\<lparr>tw_name := tr_name t, tw_enabled := tr_enabled t,
     tw_cron_expression := null_if_empty (tr_cron_expression t),
     tw_cron_timezone := null_if_empty (tr_cron_timezone t),
     tw_webhook_path := null_if_empty (tr_webhook_path t),
     tw_event_source_agent_id := null_if_empty (tr_event_source_agent_id t),
     tw_event_type := null_if_empty (tr_event_type t),
     tw_event_filter := null_if_empty (tr_event_filter t),
     tw_input_template := Some (tr_input_template t), tw_max_retries := Some (tr_max_retries t),
     tw_retry_delay_seconds := Some (tr_retry_delay_seconds t),
     tw_timeout_seconds := Some (tr_timeout_seconds t), tw_max_concurrent := Some (tr_max_concurrent t),
     tw_updated_at := now\<rparr>"

definition UpdateTrigger :: "instant \<Rightarrow> trigger \<Rightarrow> trigger_db \<Rightarrow> store_error + trigger \<times> trigger_db" where
  "UpdateTrigger now t db =
     (let p = (\<lambda>r. tw_id r = tr_id t \<and> tw_tenant_id r = tr_tenant_id t)
      in if find p (db_triggers db) = None then Inl ErrNoRows
         else Inr (t\<lparr>tr_updated_at := now\<rparr>, update_triggers p (updated_row now t) db))"

definition DeleteTrigger :: "string \<Rightarrow> string \<Rightarrow> trigger_db \<Rightarrow> trigger_db" where
  "DeleteTrigger i tenant db =
     (let p = (\<lambda>r. tw_id r = i \<and> tw_tenant_id r = tenant)
      in db\<lparr>db_triggers := filter (\<lambda>r. \<not> p r) (db_triggers db),
            db_executions := (if find p (db_triggers db) = None then db_executions db
                              else filter (\<lambda>e. ex_trigger_id e \<noteq> i) (db_executions db))\<rparr>)"

section \<open>The queries that fire triggers\<close>

text \<open>\<open>circuit_state != 'open'\<close> is not true of a NULL.\<close>

definition circuit_not_open :: "trigger_row \<Rightarrow> bool" where
  "circuit_not_open r \<longleftrightarrow> tw_circuit_state r \<noteq> None \<and> tw_circuit_state r \<noteq> Some CircuitOpen"

definition ListEnabledCronTriggers :: "trigger_db \<Rightarrow> trigger list" where
  "ListEnabledCronTriggers db =
     materializeTriggers (filter (\<lambda>r. tw_type r = TriggerCron \<and> tw_enabled r \<and> circuit_not_open r) (db_triggers db))"

definition GetTriggerByWebhookPath :: "string \<Rightarrow> trigger_db \<Rightarrow> store_error + trigger" where
  "GetTriggerByWebhookPath path db =
     (case find (\<lambda>r. tw_webhook_path r = Some path \<and> tw_type r = TriggerWebhook \<and> tw_enabled r) (db_triggers db) of
        None \<Rightarrow> Inl ErrNoRows
      | Some r \<Rightarrow> Inr (toTrigger r))"

definition ListEventTriggers :: "string \<Rightarrow> string \<Rightarrow> trigger_db \<Rightarrow> trigger list" where
  "ListEventTriggers source event db =
     materializeTriggers (filter (\<lambda>r. tw_type r = TriggerEvent \<and> tw_enabled r \<and> circuit_not_open r \<and>
       tw_event_source_agent_id r = Some source \<and> tw_event_type r = Some event) (db_triggers db))"

section \<open>Circuit columns\<close>

text \<open>\<open>NULL + 1\<close> is NULL, which does not scan into an \<open>int\<close>.\<close>

definition IncrementFailures :: "instant \<Rightarrow> string \<Rightarrow> trigger_db \<Rightarrow> (store_error + int) \<times> trigger_db" where
  "IncrementFailures now i db =
     (case find_trigger i db of
        None \<Rightarrow> (Inl ErrNoRows, db)
      | Some r \<Rightarrow>
          ((case tw_consecutive_failures r of None \<Rightarrow> Inl ErrScanNull | Some n \<Rightarrow> Inr (n + 1)),
           update_triggers (\<lambda>r. tw_id r = i)
             (\<lambda>r. r\<lparr>tw_consecutive_failures := map_option (\<lambda>n. n + 1) (tw_consecutive_failures r),
                    tw_updated_at := now\<rparr>) db))"

definition ResetFailures :: "instant \<Rightarrow> string \<Rightarrow> trigger_db \<Rightarrow> trigger_db" where
  "ResetFailures now i = update_triggers (\<lambda>r. tw_id r = i)
     (\<lambda>r. r\<lparr>tw_consecutive_failures := Some 0, tw_updated_at := now\<rparr>)"

definition OpenCircuit :: "instant \<Rightarrow> string \<Rightarrow> trigger_db \<Rightarrow> trigger_db" where
  "OpenCircuit now i = update_triggers (\<lambda>r. tw_id r = i)
     (\<lambda>r. r\<lparr>tw_circuit_state := Some CircuitOpen, tw_circuit_opened_at := Some now, tw_updated_at := now\<rparr>)"

definition HalfOpenCircuit :: "instant \<Rightarrow> string \<Rightarrow> trigger_db \<Rightarrow> trigger_db" where
  "HalfOpenCircuit now i = update_triggers (\<lambda>r. tw_id r = i)
     (\<lambda>r. r\<lparr>tw_circuit_state := Some CircuitHalfOpen, tw_updated_at := now\<rparr>)"

definition CloseCircuit :: "instant \<Rightarrow> string \<Rightarrow> trigger_db \<Rightarrow> trigger_db" where
  "CloseCircuit now i = update_triggers (\<lambda>r. tw_id r = i)
     (\<lambda>r. r\<lparr>tw_circuit_state := Some CircuitClosed, tw_consecutive_failures := Some 0,
            tw_circuit_opened_at := None, tw_updated_at := now\<rparr>)"

section \<open>Executions\<close>

text \<open>\<open>json\<close> tells the texts the column \<open>trigger_payload JSONB\<close> accepts.\<close>

definition RecordExecution ::
  "(string \<Rightarrow> bool) \<Rightarrow> instant \<Rightarrow> execution \<Rightarrow> trigger_db \<Rightarrow> (store_error + nat) \<times> trigger_db" where
  "RecordExecution json now e db =
     (if \<not> (case ex_trigger_payload e of None \<Rightarrow> True | Some p \<Rightarrow> json p) then (Inl ErrInvalidJson, db)
      else if find_trigger (ex_trigger_id e) db = None then (Inl ErrForeignKey, db)
      else
        let i = db_next_execution db
        in (Inr i, db\<lparr>db_executions := db_executions db @
              [e\<lparr>ex_id := i, ex_output_preview := None, ex_error_message := None, ex_duration_ms := None,
                 ex_started_at := now, ex_completed_at := None\<rparr>],
              db_next_execution := Suc i\<rparr>))"

definition CompleteExecution ::
  "instant \<Rightarrow> nat \<Rightarrow> execution_status \<Rightarrow> string \<Rightarrow> string \<Rightarrow> int \<Rightarrow> trigger_db \<Rightarrow> trigger_db" where
  "CompleteExecution now i status out err durationMs db =
     db\<lparr>db_executions := map (\<lambda>e. if ex_id e = i
        then e\<lparr>ex_status := status, ex_output_preview := Some out, ex_error_message := null_if_empty err,
               ex_duration_ms := Some durationMs, ex_completed_at := Some now\<rparr>
        else e) (db_executions db)\<rparr>"

text \<open>
  The structure the page is scanned into has plain strings for the preview and the error and a plain
  integer for the duration: a NULL in one of them is an error of the whole call.
\<close>

definition scannable :: "execution \<Rightarrow> bool" where
  "scannable e \<longleftrightarrow> ex_output_preview e \<noteq> None \<and> ex_error_message e \<noteq> None \<and> ex_duration_ms e \<noteq> None"

definition ListExecutions :: "string \<Rightarrow> int \<Rightarrow> int \<Rightarrow> trigger_db \<Rightarrow> store_error + execution list \<times> nat" where
  "ListExecutions i limit offset db =
     (let limit1 = (if limit \<le> 0 then 50 else limit);
          rows = filter (\<lambda>e. ex_trigger_id e = i) (db_executions db);
          page = take (nat limit1) (drop (nat offset) (sort_key (\<lambda>e. - ex_started_at e) rows))
      in if offset < 0 then Inl ErrBadOffset
         else if \<exists>e \<in> set page. \<not> scannable e then Inl ErrScanNull
         else Inr (page, length rows))"

definition CountRunningExecutions :: "string \<Rightarrow> trigger_db \<Rightarrow> nat" where
  "CountRunningExecutions i db =
     length (filter (\<lambda>e. ex_trigger_id e = i \<and> ex_status e \<in> {StatusPending, StatusRunning}) (db_executions db))"

end
