(* ===== verification/TriggerBreaker.thy ===== *)
theory TriggerBreaker
  imports TriggerStore
begin

text \<open>
  The circuit breaker of a trigger (\<open>internal/agents/trigger/circuit_breaker.go\<close>), which keeps its
  state in three columns of the trigger's row. The interface it needs of the store is the locale
  \<open>circuit_columns\<close>; the Postgres statements provide it. The abstract breaker at the end is what the
  operations are meant to implement.
\<close>

section \<open>Operations\<close>

definition circuitResetPeriod :: instant where
  "circuitResetPeriod = 5 * 60 * 1000000000"

definition reset_elapsed :: "instant \<Rightarrow> trigger \<Rightarrow> bool" where
  "reset_elapsed now t =
     (case tr_circuit_opened_at t of None \<Rightarrow> False | Some at \<Rightarrow> now - at \<ge> circuitResetPeriod)"

definition ShouldExecute :: "instant \<Rightarrow> trigger \<Rightarrow> bool" where
  "ShouldExecute now t =
     (case tr_circuit_state t of
        CircuitClosed \<Rightarrow> True
      | CircuitHalfOpen \<Rightarrow> True
      | CircuitOpen \<Rightarrow> reset_elapsed now t
      | OtherCircuit _ \<Rightarrow> True)"

text \<open>The trigger is the caller's copy, which the transition updates.\<close>

definition TransitionToHalfOpen :: "instant \<Rightarrow> trigger \<Rightarrow> trigger_db \<Rightarrow> trigger \<times> trigger_db" where
  "TransitionToHalfOpen now t db =
     (if tr_circuit_state t = CircuitOpen \<and> reset_elapsed now t
      then (t\<lparr>tr_circuit_state := CircuitHalfOpen\<rparr>, HalfOpenCircuit now (tr_id t) db)
      else (t, db))"

definition RecordSuccess :: "instant \<Rightarrow> trigger \<Rightarrow> trigger_db \<Rightarrow> trigger_db" where
  "RecordSuccess now t db =
     (if tr_circuit_state t = CircuitHalfOpen then CloseCircuit now (tr_id t) db
      else if tr_consecutive_failures t > 0 then ResetFailures now (tr_id t) db
      else db)"

definition failure_threshold :: "trigger \<Rightarrow> int" where
  "failure_threshold t = (let threshold = tr_max_retries t + 1 in if threshold \<le> 0 then 1 else threshold)"

definition RecordFailure :: "instant \<Rightarrow> trigger \<Rightarrow> trigger_db \<Rightarrow> trigger_db" where
  "RecordFailure now t db =
     (case IncrementFailures now (tr_id t) db of
        (Inl err, db1) \<Rightarrow> db1
      | (Inr count, db1) \<Rightarrow>
          if tr_circuit_state t = CircuitHalfOpen then OpenCircuit now (tr_id t) db1
          else if count \<ge> failure_threshold t then OpenCircuit now (tr_id t) db1
          else db1)"

section \<open>The columns as an interface\<close>

text \<open>What the breaker reads of a row: the state, the failures in a row, when it was opened.\<close>

type_synonym columns = "circuit_state option \<times> int option \<times> instant option"

locale circuit_columns =
  fixes columns :: "'k \<Rightarrow> 'db \<Rightarrow> columns option"
    and increment :: "instant \<Rightarrow> 'k \<Rightarrow> 'db \<Rightarrow> 'db"
    and reset :: "instant \<Rightarrow> 'k \<Rightarrow> 'db \<Rightarrow> 'db"
    and opened :: "instant \<Rightarrow> 'k \<Rightarrow> 'db \<Rightarrow> 'db"
    and half_open :: "instant \<Rightarrow> 'k \<Rightarrow> 'db \<Rightarrow> 'db"
    and closed :: "instant \<Rightarrow> 'k \<Rightarrow> 'db \<Rightarrow> 'db"
  assumes columns_increment: "columns i (increment now k db) =
      (if i = k then map_option (\<lambda>(c, n, at). (c, map_option (\<lambda>n. n + 1) n, at)) (columns i db) else columns i db)"
    and columns_reset: "columns i (reset now k db) =
      (if i = k then map_option (\<lambda>(c, n, at). (c, Some 0, at)) (columns i db) else columns i db)"
    and columns_opened: "columns i (opened now k db) =
      (if i = k then map_option (\<lambda>(c, n, at). (Some CircuitOpen, n, Some now)) (columns i db) else columns i db)"
    and columns_half_open: "columns i (half_open now k db) =
      (if i = k then map_option (\<lambda>(c, n, at). (Some CircuitHalfOpen, n, at)) (columns i db) else columns i db)"
    and columns_closed: "columns i (closed now k db) =
      (if i = k then map_option (\<lambda>(c, n, at). (Some CircuitClosed, Some 0, None)) (columns i db) else columns i db)"
begin

lemmas columns_rules = columns_increment columns_reset columns_opened columns_half_open columns_closed

lemma columns_other:
  assumes "i \<noteq> k"
  shows "columns i (increment now k db) = columns i db" "columns i (reset now k db) = columns i db"
    "columns i (opened now k db) = columns i db" "columns i (half_open now k db) = columns i db"
    "columns i (closed now k db) = columns i db"
  using assms by (simp_all add: columns_rules)

lemma columns_none:
  assumes "columns i db = None"
  shows "columns i (increment now k db) = None" "columns i (reset now k db) = None"
    "columns i (opened now k db) = None" "columns i (half_open now k db) = None"
    "columns i (closed now k db) = None"
  using assms by (auto simp: columns_rules)

text \<open>A failure that opens the circuit, in one step.\<close>

lemma columns_failure_opens:
  "columns k db = Some (c, Some n, at) \<Longrightarrow>
     columns k (opened now k (increment now k db)) = Some (Some CircuitOpen, Some (n + 1), Some now)"
  by (simp add: columns_rules)

end

definition circuit_of :: "trigger_row \<Rightarrow> columns" where
  "circuit_of r = (tw_circuit_state r, tw_consecutive_failures r, tw_circuit_opened_at r)"

definition circuit_columns_of :: "string \<Rightarrow> trigger_db \<Rightarrow> columns option" where
  "circuit_columns_of i db = map_option circuit_of (find_trigger i db)"

lemma find_map_if:
  assumes "\<And>r. tw_id (f r) = tw_id r"
  shows "find (\<lambda>r. tw_id r = i) (map (\<lambda>r. if tw_id r = k then f r else r) rs) =
    map_option (\<lambda>r. if i = k then f r else r) (find (\<lambda>r. tw_id r = i) rs)"
  using assms by (induction rs) auto

lemma find_update_triggers:
  assumes "\<And>r. tw_id (f r) = tw_id r"
  shows "find_trigger i (update_triggers (\<lambda>r. tw_id r = k) f db) =
    map_option (\<lambda>r. if i = k then f r else r) (find_trigger i db)"
  using find_map_if [of f i k "db_triggers db", OF assms] by (simp add: find_trigger_def update_triggers_def)

lemma increment_snd:
  "snd (IncrementFailures now i db) = update_triggers (\<lambda>r. tw_id r = i)
     (\<lambda>r. r\<lparr>tw_consecutive_failures := map_option (\<lambda>n. n + 1) (tw_consecutive_failures r), tw_updated_at := now\<rparr>) db"
proof (cases "find_trigger i db")
  case None
  then have "\<forall>r \<in> set (db_triggers db). tw_id r \<noteq> i" by (auto simp: find_trigger_def find_None_iff)
  then have "map (\<lambda>r. if tw_id r = i then f r else r) (db_triggers db) = db_triggers db" for f
    by (intro map_idI) auto
  with None show ?thesis by (simp add: IncrementFailures_def update_triggers_def)
qed (simp add: IncrementFailures_def)

interpretation pgc: circuit_columns circuit_columns_of
  "\<lambda>now i db. snd (IncrementFailures now i db)" ResetFailures OpenCircuit HalfOpenCircuit CloseCircuit
  by unfold_locales
     (simp_all add: circuit_columns_of_def increment_snd ResetFailures_def OpenCircuit_def
        HalfOpenCircuit_def CloseCircuit_def find_update_triggers circuit_of_def [abs_def] option.map_comp comp_def)

section \<open>The abstract breaker\<close>

text \<open>
  Closed with the failures in a row, open since an instant, or probing. An execution is admitted or
  not, and moves an admitted breaker by its outcome.
\<close>

datatype breaker = Closed int | Open instant | HalfOpen

fun admits :: "instant \<Rightarrow> breaker \<Rightarrow> bool" where
  "admits now (Open at) = (now - at \<ge> circuitResetPeriod)"
| "admits now _ = True"

fun breaker_step :: "int \<Rightarrow> instant \<Rightarrow> bool \<Rightarrow> breaker \<Rightarrow> breaker" where
  "breaker_step threshold now True b = Closed 0"
| "breaker_step threshold now False (Closed n) = (if n + 1 \<ge> threshold then Open now else Closed (n + 1))"
| "breaker_step threshold now False (Open at) = Open now"
| "breaker_step threshold now False HalfOpen = Open now"

text \<open>The abstract state of a row whose columns hold one.\<close>

fun breaker_of :: "columns \<Rightarrow> breaker option" where
  "breaker_of (Some CircuitClosed, Some n, at) = (if 0 \<le> n then Some (Closed n) else None)"
| "breaker_of (Some CircuitOpen, Some n, Some at) = Some (Open at)"
| "breaker_of (Some CircuitHalfOpen, Some n, at) = Some HalfOpen"
| "breaker_of _ = None"

definition breaker_row :: "string \<Rightarrow> trigger_db \<Rightarrow> breaker option" where
  "breaker_row i db = Option.bind (circuit_columns_of i db) breaker_of"

text \<open>The copy a caller has just read of the row.\<close>

definition read_trigger :: "string \<Rightarrow> trigger_db \<Rightarrow> trigger option" where
  "read_trigger i db = map_option toTrigger (find_trigger i db)"

lemma read_trigger_columns:
  assumes "read_trigger i db = Some t"
  shows "\<exists>c n at. circuit_columns_of i db = Some (c, n, at) \<and> tr_id t = i \<and>
    tr_circuit_state t = (case c of Some c \<Rightarrow> c | None \<Rightarrow> CircuitClosed) \<and>
    tr_consecutive_failures t = nullIntValue n 0 \<and> tr_circuit_opened_at t = at"
proof -
  from assms obtain r where r: "find_trigger i db = Some r" "t = toTrigger r"
    by (auto simp: read_trigger_def)
  then have "tw_id r = i" by (auto simp: find_trigger_def find_Some_iff)
  with r show ?thesis by (auto simp: circuit_columns_of_def circuit_of_def toTrigger_def)
qed

lemma breaker_of_cases:
  assumes "breaker_of (c, n, at) = Some b"
  obtains k where "c = Some CircuitClosed" "n = Some k" "0 \<le> k" "b = Closed k"
  | k s where "c = Some CircuitOpen" "n = Some k" "at = Some s" "b = Open s"
  | k where "c = Some CircuitHalfOpen" "n = Some k" "b = HalfOpen"
  using assms by (cases "(c, n, at)" rule: breaker_of.cases) (auto split: if_splits)

lemma should_execute_admits:
  assumes "read_trigger i db = Some t" "breaker_row i db = Some b"
  shows "ShouldExecute now t = admits now b"
proof -
  from read_trigger_columns [OF assms(1)] obtain c n at where
    c: "circuit_columns_of i db = Some (c, n, at)" "tr_circuit_state t = (case c of Some c \<Rightarrow> c | None \<Rightarrow> CircuitClosed)"
    "tr_circuit_opened_at t = at" by blast
  with assms(2) have "breaker_of (c, n, at) = Some b" by (simp add: breaker_row_def)
  then show ?thesis
    by (rule breaker_of_cases) (use c in \<open>simp_all add: ShouldExecute_def reset_elapsed_def\<close>)
qed

end
