(* ===== verification/TriggerExecutor.thy ===== *)
theory TriggerExecutor
  imports TriggerBreaker
begin

text \<open>
  Firing a trigger (\<open>internal/agents/trigger/executor.go\<close>): the guards, the rendering of the input,
  the attempts of an agent session or the run of a workflow, and what is recorded of them. The session
  manager, the agent lookup, the template language and the workflow runner are parameters; what the
  code sees of a session is the list of events it receives before the deadline.
\<close>

section \<open>What an execution meets\<close>

datatype session_event =
    TurnEnd "string option"
  | SessionEnd
  | SessionError "string option"
  | OtherEvent
  | ChannelClosed

datatype launch =
    AgentNotLoaded string
  | NotPrepared string
  | NotLaunched string
  | Launched "session_event list"

datatype attempt_error =
    RecordFailed store_error
  | LoadFailed string
  | PrepareFailed string
  | LaunchFailed string
  | RunFailed execution_status string

text \<open>
  \<open>env_attempt\<close> is the session of the n-th attempt and \<open>env_duration\<close> the time the attempt takes,
  \<open>env_cancelled\<close> whether the context ends during the delay after it.
\<close>

record exec_env =
  env_json :: "string \<Rightarrow> bool"
  env_template :: "string \<Rightarrow> string \<times> string \<times> trigger_type \<Rightarrow> string \<Rightarrow> string + string"
  env_session_id :: "int \<Rightarrow> string"
  env_attempt :: "int \<Rightarrow> launch"
  env_duration :: "int \<Rightarrow> instant"
  env_cancelled :: "int \<Rightarrow> bool"
  env_workflow :: "(string \<Rightarrow> string \<Rightarrow> string \<Rightarrow> string option) option"

section \<open>The input\<close>

definition payload_text :: "string option \<Rightarrow> string" where
  "payload_text payload = (case payload of None \<Rightarrow> '''' | Some p \<Rightarrow> p)"

definition renderInput :: "exec_env \<Rightarrow> trigger \<Rightarrow> string option \<Rightarrow> string + string" where
  "renderInput env t payload =
     (if tr_input_template t = '''' then
        (if payload_text payload \<noteq> '''' then Inr (payload_text payload)
         else Inr (''Trigger '' @ [CHR 0x27] @ tr_name t @ [CHR 0x27] @ '' activated.''))
      else env_template env (tr_input_template t) (tr_id t, tr_name t, tr_type t) (payload_text payload))"

section \<open>One attempt\<close>

text \<open>The loop over the session's events; when they run out the deadline has passed.\<close>

fun collect :: "session_event list \<Rightarrow> string \<Rightarrow> execution_status \<times> string \<times> string" where
  "collect [] final = (StatusTimeout, final, ''trigger execution timed out'')"
| "collect (TurnEnd txt # evs) final =
     collect evs (case txt of Some s \<Rightarrow> (if s \<noteq> '''' then s else final) | None \<Rightarrow> final)"
| "collect (SessionEnd # evs) final = (StatusCompleted, final, '''')"
| "collect (SessionError msg # evs) final =
     (StatusFailed, final, (case msg of Some s \<Rightarrow> s | None \<Rightarrow> ''''))"
| "collect (OtherEvent # evs) final = collect evs final"
| "collect (ChannelClosed # evs) final = (StatusCompleted, final, '''')"

definition preview_of :: "string \<Rightarrow> string" where
  "preview_of s = (if length s > 1000 then take 1000 s @ ''...(truncated)'' else s)"

definition milliseconds :: "instant \<Rightarrow> int" where
  "milliseconds d = d div 1000000"

definition executeSingle ::
  "exec_env \<Rightarrow> trigger \<Rightarrow> string \<Rightarrow> string option \<Rightarrow> int \<Rightarrow> instant \<Rightarrow> trigger_db
     \<Rightarrow> attempt_error option \<times> trigger_db" where
  "executeSingle env t input payload attempt now db =
     (let exec = \<lparr>ex_id = 0, ex_tenant_id = tr_tenant_id t, ex_trigger_id = tr_id t,
            ex_session_id = Some (env_session_id env attempt), ex_status = StatusRunning,
            ex_trigger_payload = payload, ex_input_rendered = input, ex_output_preview = None,
            ex_error_message = None, ex_attempt = attempt, ex_duration_ms = None, ex_started_at = now,
            ex_completed_at = None\<rparr>;
          later = now + env_duration env attempt;
          complete = (\<lambda>i status out err.
            CompleteExecution later i status out err (milliseconds (env_duration env attempt)))
      in case RecordExecution (env_json env) now exec db of
           (Inl e, db1) \<Rightarrow> (Some (RecordFailed e), db1)
         | (Inr i, db1) \<Rightarrow>
             (case env_attempt env attempt of
                AgentNotLoaded e \<Rightarrow> (Some (LoadFailed e), complete i StatusFailed '''' e db1)
              | NotPrepared e \<Rightarrow> (Some (PrepareFailed e), complete i StatusFailed '''' e db1)
              | NotLaunched e \<Rightarrow> (Some (LaunchFailed e), complete i StatusFailed '''' e db1)
              | Launched evs \<Rightarrow>
                  let (status, final, err) = collect evs ''''
                  in ((if status = StatusFailed \<or> status = StatusTimeout then Some (RunFailed status err) else None),
                      complete i status (preview_of final) err db1)))"

section \<open>Attempts\<close>

definition retry_delay :: "trigger \<Rightarrow> instant" where
  "retry_delay t =
     (let delay = tr_retry_delay_seconds t * 1000000000 in if delay \<le> 0 then 60 * 1000000000 else delay)"

function retry_loop ::
  "exec_env \<Rightarrow> trigger \<Rightarrow> string \<Rightarrow> string option \<Rightarrow> int \<Rightarrow> int \<Rightarrow> instant \<Rightarrow> trigger_db \<Rightarrow> trigger_db" where
  "retry_loop env t input payload maxAttempts attempt now db =
     (if attempt \<le> maxAttempts then
        (case executeSingle env t input payload attempt now db of
           (None, db1) \<Rightarrow> RecordSuccess (now + env_duration env attempt) t db1
         | (Some _, db1) \<Rightarrow>
             if attempt < maxAttempts then
               (if env_cancelled env attempt then db1
                else retry_loop env t input payload maxAttempts (attempt + 1)
                       (now + env_duration env attempt + retry_delay t) db1)
             else RecordFailure (now + env_duration env attempt) t db1)
      else RecordFailure now t db)"
  by pat_completeness auto
termination
  by (relation "measure (\<lambda>(env, t, input, payload, maxAttempts, attempt, now, db). nat (maxAttempts - attempt))") auto

declare retry_loop.simps [simp del]

definition executeWithRetries ::
  "exec_env \<Rightarrow> trigger \<Rightarrow> string \<Rightarrow> string option \<Rightarrow> instant \<Rightarrow> trigger_db \<Rightarrow> trigger_db" where
  "executeWithRetries env t input payload now db =
     (let maxAttempts = tr_max_retries t + 1;
          maxAttempts = (if maxAttempts \<le> 0 then 1 else maxAttempts)
      in retry_loop env t input payload maxAttempts 1 now db)"

definition executeWorkflowTrigger ::
  "exec_env \<Rightarrow> trigger \<Rightarrow> string \<Rightarrow> string option \<Rightarrow> instant \<Rightarrow> trigger_db \<Rightarrow> trigger_db" where
  "executeWorkflowTrigger env t input payload now db =
     (case env_workflow env of
        None \<Rightarrow> RecordFailure now t db
      | Some run \<Rightarrow>
          let exec = \<lparr>ex_id = 0, ex_tenant_id = tr_tenant_id t, ex_trigger_id = tr_id t,
                ex_session_id = None, ex_status = StatusRunning, ex_trigger_payload = payload,
                ex_input_rendered = input, ex_output_preview = None, ex_error_message = None,
                ex_attempt = 1, ex_duration_ms = None, ex_started_at = now, ex_completed_at = None\<rparr>;
              later = now + env_duration env 1;
              durationMs = milliseconds (env_duration env 1)
          in case RecordExecution (env_json env) now exec db of
               (Inl _, db1) \<Rightarrow> db1
             | (Inr i, db1) \<Rightarrow>
                 (case run (tr_workflow_id t) (tr_tenant_id t) input of
                    Some err \<Rightarrow>
                      RecordFailure later t (CompleteExecution later i StatusFailed '''' err durationMs db1)
                  | None \<Rightarrow>
                      RecordSuccess later t
                        (CompleteExecution later i StatusCompleted ''Workflow executed successfully'' ''''
                           durationMs db1)))"

section \<open>Firing\<close>

definition Execute_trigger ::
  "exec_env \<Rightarrow> trigger option \<Rightarrow> string option \<Rightarrow> instant \<Rightarrow> trigger_db \<Rightarrow> trigger_db" where
  "Execute_trigger env ot payload now db =
     (case ot of
        None \<Rightarrow> db
      | Some t \<Rightarrow>
          if tr_tenant_id t = '''' then db
          else if \<not> ShouldExecute now t then db
          else
            let (t1, db1) = (if tr_circuit_state t = CircuitOpen then TransitionToHalfOpen now t db else (t, db))
            in if int (CountRunningExecutions (tr_id t1) db1) \<ge> tr_max_concurrent t1 then db1
               else
                 let input = (case renderInput env t1 payload of Inl _ \<Rightarrow> payload_text payload | Inr s \<Rightarrow> s)
                 in if tr_workflow_id t1 \<noteq> '''' then executeWorkflowTrigger env t1 input payload now db1
                    else executeWithRetries env t1 input payload now db1)"

section \<open>Executions leave the circuit alone\<close>

lemma triggers_record_execution [simp]:
  "db_triggers (snd (RecordExecution json now e db)) = db_triggers db"
  by (auto simp: RecordExecution_def Let_def)

lemma triggers_complete_execution [simp]:
  "db_triggers (CompleteExecution now i status out err ms db) = db_triggers db"
  by (simp add: CompleteExecution_def)

lemma columns_same_triggers:
  "db_triggers db' = db_triggers db \<Longrightarrow> circuit_columns_of i db' = circuit_columns_of i db"
  by (simp add: circuit_columns_of_def find_trigger_def)

definition payload_accepted :: "exec_env \<Rightarrow> string option \<Rightarrow> bool" where
  "payload_accepted env payload \<longleftrightarrow> (case payload of None \<Rightarrow> True | Some p \<Rightarrow> env_json env p)"

definition session_succeeds :: "launch \<Rightarrow> bool" where
  "session_succeeds l \<longleftrightarrow> (case l of Launched evs \<Rightarrow> fst (collect evs '''') = StatusCompleted | _ \<Rightarrow> False)"

lemma collect_status: "fst (collect evs final) \<in> {StatusCompleted, StatusFailed, StatusTimeout}"
  by (induction evs final rule: collect.induct) auto

lemma executeSingle_outcome:
  assumes "find_trigger (tr_id t) db \<noteq> None"
  shows "(fst (executeSingle env t input payload attempt now db) = None \<longleftrightarrow>
      payload_accepted env payload \<and> session_succeeds (env_attempt env attempt)) \<and>
    db_triggers (snd (executeSingle env t input payload attempt now db)) = db_triggers db"
proof -
  have st: "fst (collect evs '''') = StatusCompleted \<longleftrightarrow>
      fst (collect evs '''') \<noteq> StatusFailed \<and> fst (collect evs '''') \<noteq> StatusTimeout" for evs
    using collect_status [of evs "''''"] by auto
  show ?thesis
    using assms st
    by (auto simp: executeSingle_def Let_def RecordExecution_def payload_accepted_def session_succeeds_def
        CompleteExecution_def split: launch.splits prod.splits option.splits)
qed

end
