(* ===== verification/TriggerFiring.thy ===== *)
theory TriggerFiring
  imports TriggerExecutor GoValue
begin

text \<open>
  What makes triggers fire: the cron scheduler (\<open>scheduler.go\<close>), the webhook endpoint
  (\<open>webhook_handler.go\<close>), the event subscriber (\<open>event_subscriber.go\<close>), and the validation of a
  trigger before it is stored (\<open>validation.go\<close>), all in \<open>internal/agents/trigger\<close>. The cron library,
  the time zone database, the hash functions, the rate limiter and JSON are parameters.
\<close>

section \<open>Cron\<close>

text \<open>
  \<open>cron_next s l from\<close> is the library's \<open>Next\<close>: the next activation after \<open>from\<close> in the location,
  \<open>None\<close> for the zero time.
\<close>

record ('sched, 'loc) cron_lib =
  cron_parse :: "string \<Rightarrow> 'sched option"
  load_location :: "string \<Rightarrow> 'loc option"
  cron_next :: "'sched \<Rightarrow> 'loc \<Rightarrow> instant \<Rightarrow> instant option"

definition second :: instant where
  "second = 1000000000"

definition schedulerInterval :: instant where
  "schedulerInterval = 10 * second"

definition isDue :: "('s, 'l) cron_lib \<Rightarrow> trigger \<Rightarrow> instant \<Rightarrow> bool" where
  "isDue lib t now =
     (if tr_cron_expression t = '''' then False
      else case cron_parse lib (tr_cron_expression t) of
        None \<Rightarrow> False
      | Some sched \<Rightarrow>
          let timezone = (if tr_cron_timezone t = '''' then ''UTC'' else tr_cron_timezone t)
          in case load_location lib timezone of
               None \<Rightarrow> False
             | Some location \<Rightarrow>
                 let checkFrom = now - (schedulerInterval + second)
                 in case cron_next lib sched location checkFrom of
                      None \<Rightarrow> False
                    | Some nextRun \<Rightarrow> \<not> nextRun > now)"

text \<open>A tick under the advisory lock: the triggers handed to the executor.\<close>

definition scheduler_tick :: "('s, 'l) cron_lib \<Rightarrow> bool \<Rightarrow> instant \<Rightarrow> trigger_db \<Rightarrow> trigger list" where
  "scheduler_tick lib locked now db =
     (if \<not> locked then [] else filter (\<lambda>t. isDue lib t now) (ListEnabledCronTriggers db))"

datatype cron_error = CronSyntax | CronTimezone | CronNever

definition NextRunWithTimezone ::
  "('s, 'l) cron_lib \<Rightarrow> string \<Rightarrow> string \<Rightarrow> instant \<Rightarrow> cron_error + instant" where
  "NextRunWithTimezone lib expression timezone from_time =
     (case cron_parse lib expression of
        None \<Rightarrow> Inl CronSyntax
      | Some sched \<Rightarrow>
          let timezone = (if timezone = '''' then ''UTC'' else timezone)
          in case load_location lib timezone of
               None \<Rightarrow> Inl CronTimezone
             | Some location \<Rightarrow>
                 (case cron_next lib sched location from_time of
                    None \<Rightarrow> Inl CronNever
                  | Some n \<Rightarrow> Inr n))"

definition NextRun :: "('s, 'l) cron_lib \<Rightarrow> string \<Rightarrow> instant \<Rightarrow> cron_error + instant" where
  "NextRun lib expression now = NextRunWithTimezone lib expression ''UTC'' now"

section \<open>Validation\<close>

datatype config_error =
    TriggerRequired
  | CronExpressionRequired
  | InvalidCronExpression
  | InvalidCronTimezone string
  | EventSourceRequired
  | EventTypeRequired
  | UnsupportedType string

definition ValidateConfiguration ::
  "('s, 'l) cron_lib \<Rightarrow> trigger option \<Rightarrow> config_error option" where
  "ValidateConfiguration lib candidate =
     (case candidate of
        None \<Rightarrow> Some TriggerRequired
      | Some t \<Rightarrow>
          (case tr_type t of
             TriggerCron \<Rightarrow>
               let expression = TrimSpace (tr_cron_expression t)
               in if expression = '''' then Some CronExpressionRequired
                  else if cron_parse lib expression = None then Some InvalidCronExpression
                  else
                    let tz = TrimSpace (tr_cron_timezone t); tz = (if tz = '''' then ''UTC'' else tz)
                    in if load_location lib tz = None then Some (InvalidCronTimezone tz) else None
           | TriggerWebhook \<Rightarrow> None
           | TriggerEvent \<Rightarrow>
               if TrimSpace (tr_event_source_agent_id t) = '''' then Some EventSourceRequired
               else if TrimSpace (tr_event_type t) = '''' then Some EventTypeRequired
               else None
           | OtherTrigger s \<Rightarrow> Some (UnsupportedType s)))"

text \<open>The record Go leaves when only these three fields are given.\<close>

definition zero_trigger :: trigger where
  "zero_trigger = \<lparr>tr_id = [], tr_tenant_id = [], tr_agent_id = [], tr_name = [], tr_type = OtherTrigger [],
     tr_enabled = False, tr_cron_expression = [], tr_cron_timezone = [], tr_webhook_secret_hash = [],
     tr_webhook_path = [], tr_event_source_agent_id = [], tr_event_type = [], tr_event_filter = [],
     tr_workflow_id = [], tr_input_template = [], tr_max_retries = 0, tr_retry_delay_seconds = 0,
     tr_timeout_seconds = 0, tr_max_concurrent = 0, tr_consecutive_failures = 0,
     tr_circuit_state = OtherCircuit [], tr_circuit_opened_at = None, tr_created_at = 0, tr_updated_at = 0\<rparr>"

definition ValidateCronConfiguration :: "('s, 'l) cron_lib \<Rightarrow> string \<Rightarrow> string \<Rightarrow> config_error option" where
  "ValidateCronConfiguration lib expression timezone =
     ValidateConfiguration lib (Some (zero_trigger\<lparr>tr_type := TriggerCron,
       tr_cron_expression := expression, tr_cron_timezone := timezone\<rparr>))"

section \<open>Webhooks\<close>

text \<open>
  \<open>hmac key body\<close> and \<open>sha256 text\<close> are in hex. The rate limiter of a trigger answers \<open>allow\<close>.
\<close>

record crypto =
  hmac_hex :: "string \<Rightarrow> string \<Rightarrow> string"
  sha256_hex :: "string \<Rightarrow> string"

definition maxWebhookBodySize :: nat where
  "maxWebhookBodySize = 1048576"

definition verifyHMAC :: "crypto \<Rightarrow> string \<Rightarrow> string \<Rightarrow> string \<Rightarrow> bool" where
  "verifyHMAC c secret body signature \<longleftrightarrow> trim_prefix signature ''sha256='' = hmac_hex c secret body"

definition GenerateWebhookSecret :: "crypto \<Rightarrow> string \<Rightarrow> string \<times> string" where
  "GenerateWebhookSecret c random_hex =
     (let raw = ''whsec_'' @ random_hex in (raw, sha256_hex c raw))"

text \<open>
  The status of the answer, and the trigger and payload the executor is started with. \<open>body\<close> is
  \<open>None\<close> when reading fails; the signature is the header's value, empty when absent.
\<close>

definition webhook_handle ::
  "crypto \<Rightarrow> (string \<Rightarrow> bool) \<Rightarrow> instant \<Rightarrow> string \<Rightarrow> string option \<Rightarrow> string \<Rightarrow> trigger_db
     \<Rightarrow> nat \<times> (trigger \<times> string) option" where
  "webhook_handle c allow now path body signature db =
     (if path = '''' then (400, None)
      else case GetTriggerByWebhookPath path db of
        Inl _ \<Rightarrow> (404, None)
      | Inr t \<Rightarrow>
          if \<not> ShouldExecute now t then (503, None)
          else case body of
            None \<Rightarrow> (400, None)
          | Some full \<Rightarrow>
              let text = take maxWebhookBodySize full
              in if tr_webhook_secret_hash t \<noteq> '''' \<and> signature = '''' then (401, None)
                 else if tr_webhook_secret_hash t \<noteq> '''' \<and>
                   \<not> verifyHMAC c (tr_webhook_secret_hash t) text signature then (401, None)
                 else if \<not> allow (tr_id t) then (429, None)
                 else (202, Some (t, if text = '''' then ''{}'' else text)))"

section \<open>Events\<close>

text \<open>\<open>unmarshal\<close> decodes a JSON object, a map being an association list with distinct keys.\<close>

definition filter_accepts :: "(string \<times> goval) list \<Rightarrow> (string \<times> goval) list \<Rightarrow> bool" where
  "filter_accepts flt event_data \<longleftrightarrow> (\<forall>(key, expected) \<in> set flt.
     case map_of event_data key of
       None \<Rightarrow> False
     | Some actual \<Rightarrow>
         (case (expected, actual) of (GoStr e, GoStr a) \<Rightarrow> e = a | _ \<Rightarrow> True))"

definition matchesFilter ::
  "(string \<Rightarrow> (string \<times> goval) list option) \<Rightarrow> trigger \<Rightarrow> string \<Rightarrow> bool" where
  "matchesFilter unmarshal t event_payload =
     (if tr_event_filter t = '''' \<or> tr_event_filter t = ''null'' then True
      else case unmarshal (tr_event_filter t) of
        None \<Rightarrow> True
      | Some flt \<Rightarrow>
          (case unmarshal event_payload of
             None \<Rightarrow> True
           | Some event_data \<Rightarrow> filter_accepts flt event_data))"

definition go_lookup :: "(string \<times> goval) list \<Rightarrow> string \<Rightarrow> goval" where
  "go_lookup m k = (case map_of m k of Some v \<Rightarrow> v | None \<Rightarrow> GoNil)"

text \<open>The triggers an event starts the executor with, and their payload.\<close>

definition handleEvent ::
  "(string \<Rightarrow> (string \<times> goval) list option) \<Rightarrow> ((string \<times> goval) list \<Rightarrow> string)
     \<Rightarrow> string \<Rightarrow> string \<Rightarrow> string \<Rightarrow> trigger_db \<Rightarrow> (trigger \<times> string) list" where
  "handleEvent unmarshal marshal event_id event_payload event_type db =
     (case unmarshal event_payload of
        None \<Rightarrow> []
      | Some event_data \<Rightarrow>
          (case as_string (go_lookup event_data ''agent_id'') of
             None \<Rightarrow> []
           | Some agent_id \<Rightarrow>
               if agent_id = '''' then []
               else
                 let payload = marshal [(''event_type'', GoStr event_type), (''source_agent_id'', GoStr agent_id),
                       (''session_id'', go_lookup event_data ''session_id''), (''event_id'', GoStr event_id),
                       (''data'', GoMap event_data)]
                 in map (\<lambda>t. (t, payload))
                      (filter (\<lambda>t. matchesFilter unmarshal t event_payload)
                        (ListEventTriggers agent_id event_type db))))"

end
