(* ===== verification/TriggerCircuit.thy ===== *)
theory TriggerCircuit
  imports TriggerExecutor
begin

text \<open>
  The executor and the statements of the store implement the abstract breaker: one firing that finds a
  free slot moves the row's columns as \<open>breaker_step\<close> moves the state they stand for.
\<close>

section \<open>A copy that agrees with its row\<close>

definition in_step :: "trigger \<Rightarrow> trigger_db \<Rightarrow> breaker \<Rightarrow> bool" where
  "in_step t db b \<longleftrightarrow> (\<exists>at. circuit_columns_of (tr_id t) db =
       Some (Some (tr_circuit_state t), Some (tr_consecutive_failures t), at) \<and>
     breaker_of (Some (tr_circuit_state t), Some (tr_consecutive_failures t), at) = Some b)"

lemma in_step_fresh:
  assumes "read_trigger i db = Some t" "breaker_row i db = Some b"
  shows "in_step t db b \<and> tr_id t = i"
proof -
  from read_trigger_columns [OF assms(1)] obtain c n at where
    c: "circuit_columns_of i db = Some (c, n, at)" "tr_id t = i"
    "tr_circuit_state t = (case c of Some c \<Rightarrow> c | None \<Rightarrow> CircuitClosed)"
    "tr_consecutive_failures t = nullIntValue n 0" by blast
  with assms(2) have "breaker_of (c, n, at) = Some b" by (simp add: breaker_row_def)
  then show ?thesis
    by (rule breaker_of_cases) (use c in \<open>simp_all add: in_step_def nullIntValue_def\<close>)
qed

lemma in_step_same_triggers:
  "db_triggers db' = db_triggers db \<Longrightarrow> in_step t db' b = in_step t db b"
  using columns_same_triggers [of db' db "tr_id t"] by (simp add: in_step_def)

lemma in_step_row: "in_step t db b \<Longrightarrow> breaker_row (tr_id t) db = Some b \<and> find_trigger (tr_id t) db \<noteq> None"
  by (auto simp: in_step_def breaker_row_def circuit_columns_of_def)

lemma in_step_transition:
  assumes "in_step t db (Open at)"
  shows "in_step (t\<lparr>tr_circuit_state := CircuitHalfOpen\<rparr>) (HalfOpenCircuit now (tr_id t) db) HalfOpen"
proof -
  from assms obtain at' where c: "circuit_columns_of (tr_id t) db =
      Some (Some (tr_circuit_state t), Some (tr_consecutive_failures t), at')"
    by (auto simp: in_step_def)
  then have "circuit_columns_of (tr_id t) (HalfOpenCircuit now (tr_id t) db) =
      Some (Some CircuitHalfOpen, Some (tr_consecutive_failures t), at')"
    by (simp add: pgc.columns_half_open)
  then show ?thesis by (simp add: in_step_def)
qed

lemma in_step_success:
  assumes "in_step t db b" "\<nexists>at. b = Open at"
  shows "breaker_row (tr_id t) (RecordSuccess now t db) = Some (Closed 0)"
proof -
  from assms(1) obtain at where c: "circuit_columns_of (tr_id t) db =
      Some (Some (tr_circuit_state t), Some (tr_consecutive_failures t), at)"
    "breaker_of (Some (tr_circuit_state t), Some (tr_consecutive_failures t), at) = Some b"
    by (auto simp: in_step_def)
  from c(2) show ?thesis
    by (rule breaker_of_cases)
       (use c assms(2) in \<open>auto simp: RecordSuccess_def breaker_row_def pgc.columns_rules\<close>)
qed

lemma increment_result:
  assumes "circuit_columns_of i db = Some (c, Some n, at)"
  shows "fst (IncrementFailures now i db) = Inr (n + 1)"
  using assms by (auto simp: circuit_columns_of_def circuit_of_def IncrementFailures_def)

lemma in_step_failure:
  assumes "in_step t db b" "\<nexists>at. b = Open at"
  shows "breaker_row (tr_id t) (RecordFailure now t db) = Some (breaker_step (failure_threshold t) now False b)"
proof -
  let ?i = "tr_id t"
  from assms(1) obtain at where c: "circuit_columns_of ?i db =
      Some (Some (tr_circuit_state t), Some (tr_consecutive_failures t), at)"
    "breaker_of (Some (tr_circuit_state t), Some (tr_consecutive_failures t), at) = Some b"
    by (auto simp: in_step_def)
  obtain db1 where inc: "IncrementFailures now ?i db = (Inr (tr_consecutive_failures t + 1), db1)"
    using increment_result [OF c(1), of now] by (cases "IncrementFailures now ?i db") auto
  have db1: "circuit_columns_of ?i db1 =
      Some (Some (tr_circuit_state t), Some (tr_consecutive_failures t + 1), at)"
    using pgc.columns_increment [of ?i now ?i db] inc c(1) by simp
  from c(2) show ?thesis
    by (rule breaker_of_cases)
       (use c(1) db1 inc assms(2) in \<open>auto simp: RecordFailure_def breaker_row_def pgc.columns_opened\<close>)
qed

section \<open>The attempts\<close>

definition no_cancel :: "exec_env \<Rightarrow> bool" where
  "no_cancel env \<longleftrightarrow> (\<forall>k. \<not> env_cancelled env k \<and> 0 \<le> env_duration env k)"

lemma retry_delay_pos [simp]: "0 < retry_delay t"
  by (simp add: retry_delay_def Let_def)

lemma retry_loop_breaker:
  assumes "no_cancel env" "in_step t db b" "\<nexists>at. b = Open at" "attempt \<le> m"
  shows "\<exists>at \<ge> now. breaker_row (tr_id t) (retry_loop env t input payload m attempt now db) =
    Some (breaker_step (failure_threshold t) at
      (payload_accepted env payload \<and> (\<exists>k \<in> {attempt..m}. session_succeeds (env_attempt env k))) b)"
  using assms(2,4)
proof (induction "nat (m - attempt)" arbitrary: attempt now db rule: less_induct)
  case less
  let ?ok = "\<lambda>a. payload_accepted env payload \<and> (\<exists>k \<in> {a..m}. session_succeeds (env_attempt env k))"
  obtain err db1 where e: "executeSingle env t input payload attempt now db = (err, db1)" by force
  have row: "find_trigger (tr_id t) db \<noteq> None" using in_step_row [OF less.prems(1)] by simp
  have out: "err = None \<longleftrightarrow> payload_accepted env payload \<and> session_succeeds (env_attempt env attempt)"
    and trg: "db_triggers db1 = db_triggers db"
    using executeSingle_outcome [OF row, of env input payload attempt now] e by simp_all
  from less.prems(1) have s1: "in_step t db1 b" unfolding in_step_same_triggers [OF trg] .
  have d: "0 \<le> env_duration env attempt" using assms(1) by (simp add: no_cancel_def)
  have split: "{attempt..m} = insert attempt {attempt + 1..m}" using less.prems(2) by auto
  consider "err = None" | "err \<noteq> None" "attempt < m" | "err \<noteq> None" "attempt = m"
    using less.prems(2) by fastforce
  then show ?case
  proof cases
    case 1
    with out split have "?ok attempt" by auto
    moreover have "retry_loop env t input payload m attempt now db = RecordSuccess (now + env_duration env attempt) t db1"
      using 1 e less.prems(2) by (subst retry_loop.simps) simp
    ultimately show ?thesis
      using in_step_success [OF s1 assms(3), of "now + env_duration env attempt"] d
      by (intro exI [of _ "now + env_duration env attempt"]) simp
  next
    case 2
    let ?next = "now + env_duration env attempt + retry_delay t"
    from less.hyps [of "attempt + 1" db1 ?next] s1 2(2) obtain at where at: "?next \<le> at"
      "breaker_row (tr_id t) (retry_loop env t input payload m (attempt + 1) ?next db1) =
        Some (breaker_step (failure_threshold t) at (?ok (attempt + 1)) b)" by auto
    from 2 out split have "?ok attempt = ?ok (attempt + 1)" by auto
    moreover have "now \<le> at" using at(1) d retry_delay_pos [of t] by linarith
    moreover have "retry_loop env t input payload m attempt now db =
        retry_loop env t input payload m (attempt + 1) ?next db1"
      using 2 e assms(1) by (subst retry_loop.simps) (auto simp: no_cancel_def)
    ultimately show ?thesis using at(2) by (intro exI [of _ at]) simp
  next
    case 3
    with out split have "\<not> ?ok attempt" by auto
    then have ok: "?ok attempt = False" by blast
    have "retry_loop env t input payload m attempt now db = RecordFailure (now + env_duration env attempt) t db1"
      using 3 e by (subst retry_loop.simps) auto
    with in_step_failure [OF s1 assms(3), of "now + env_duration env attempt"] d show ?thesis
      unfolding ok by (intro exI [of _ "now + env_duration env attempt"]) simp
  qed
qed

section \<open>Firing\<close>

text \<open>What an execution reports: nothing when a workflow run cannot be recorded.\<close>

definition run_outcome :: "exec_env \<Rightarrow> trigger \<Rightarrow> string option \<Rightarrow> bool option" where
  "run_outcome env t payload =
     (if tr_workflow_id t \<noteq> '''' then
        (case env_workflow env of
           None \<Rightarrow> Some False
         | Some run \<Rightarrow>
             if \<not> payload_accepted env payload then None
             else Some (run (tr_workflow_id t) (tr_tenant_id t)
                    (case renderInput env t payload of Inl _ \<Rightarrow> payload_text payload | Inr s \<Rightarrow> s) = None))
      else Some (payload_accepted env payload \<and>
        (\<exists>k \<in> {1..failure_threshold t}. session_succeeds (env_attempt env k))))"

lemma workflow_breaker:
  assumes "no_cancel env" "in_step t db b" "\<nexists>at. b = Open at" "tr_workflow_id t \<noteq> ''''"
    "input = (case renderInput env t payload of Inl _ \<Rightarrow> payload_text payload | Inr s \<Rightarrow> s)"
  shows "\<exists>at \<ge> now. breaker_row (tr_id t) (executeWorkflowTrigger env t input payload now db) =
    Some (case run_outcome env t payload of None \<Rightarrow> b | Some ok \<Rightarrow> breaker_step (failure_threshold t) at ok b)"
proof (cases "env_workflow env")
  case None
  with in_step_failure [OF assms(2,3)] assms(4) show ?thesis
    by (intro exI [of _ now]) (simp add: executeWorkflowTrigger_def run_outcome_def)
next
  case (Some run)
  obtain r where row: "find_trigger (tr_id t) db = Some r" and b: "breaker_row (tr_id t) db = Some b"
    using in_step_row [OF assms(2)] by auto
  have s: "in_step t (CompleteExecution l i st x y z db1) b" if "db_triggers db1 = db_triggers db" for l i st x y z db1
    using assms(2) in_step_same_triggers [of "CompleteExecution l i st x y z db1" db t b] that by simp
  note rules = in_step_success [OF s assms(3)] in_step_failure [OF s assms(3)]
  have d: "0 \<le> env_duration env 1" using assms(1) by (simp add: no_cancel_def)
  show ?thesis
  proof (cases "payload_accepted env payload")
    case False
    then have "\<not> (case payload of None \<Rightarrow> True | Some p \<Rightarrow> env_json env p)" by (simp add: payload_accepted_def)
    with Some assms(4) b False show ?thesis
      by (intro exI [of _ now]) (simp add: executeWorkflowTrigger_def run_outcome_def RecordExecution_def Let_def)
  next
    case True
    then have ok: "case payload of None \<Rightarrow> True | Some p \<Rightarrow> env_json env p" by (simp add: payload_accepted_def)
    show ?thesis
    proof (cases "run (tr_workflow_id t) (tr_tenant_id t) input")
      case None
      with Some row ok True assms(4) d show ?thesis
        by (intro exI [of _ "now + env_duration env 1"])
           (simp add: executeWorkflowTrigger_def run_outcome_def RecordExecution_def Let_def
              assms(5) [symmetric] rules(1))
    next
      case (Some e)
      with \<open>env_workflow env = Some run\<close> row ok True assms(4) d show ?thesis
        by (intro exI [of _ "now + env_duration env 1"])
           (simp add: executeWorkflowTrigger_def run_outcome_def RecordExecution_def Let_def
              assms(5) [symmetric] rules(2))
    qed
  qed
qed

lemma retries_breaker:
  assumes "no_cancel env" "in_step t db b" "\<nexists>at. b = Open at"
  shows "\<exists>at \<ge> now. breaker_row (tr_id t) (executeWithRetries env t input payload now db) =
    Some (breaker_step (failure_threshold t) at
      (payload_accepted env payload \<and> (\<exists>k \<in> {1..failure_threshold t}. session_succeeds (env_attempt env k))) b)"
proof -
  have "1 \<le> failure_threshold t" by (simp add: failure_threshold_def Let_def)
  from retry_loop_breaker [OF assms this, of now input payload] show ?thesis
    by (simp add: executeWithRetries_def failure_threshold_def Let_def)
qed

definition started_run :: "exec_env \<Rightarrow> trigger \<Rightarrow> string option \<Rightarrow> instant \<Rightarrow> trigger_db \<Rightarrow> trigger_db" where
  "started_run env t payload now db =
     (let input = (case renderInput env t payload of Inl _ \<Rightarrow> payload_text payload | Inr s \<Rightarrow> s)
      in if tr_workflow_id t \<noteq> '''' then executeWorkflowTrigger env t input payload now db
         else executeWithRetries env t input payload now db)"

lemma started_run_breaker:
  assumes "no_cancel env" "in_step t db b" "\<nexists>at. b = Open at"
  shows "\<exists>at \<ge> now. breaker_row (tr_id t) (started_run env t payload now db) =
    Some (case run_outcome env t payload of None \<Rightarrow> b | Some ok \<Rightarrow> breaker_step (failure_threshold t) at ok b)"
proof (cases "tr_workflow_id t = ''''")
  case True
  with retries_breaker [OF assms] show ?thesis by (simp add: started_run_def run_outcome_def Let_def)
next
  case False
  with workflow_breaker [OF assms False refl] show ?thesis by (simp add: started_run_def Let_def)
qed

lemma execute_runs:
  assumes "tr_tenant_id t \<noteq> ''''" "ShouldExecute now t" "tr_circuit_state t \<noteq> CircuitOpen"
    "int (CountRunningExecutions (tr_id t) db) < tr_max_concurrent t"
  shows "Execute_trigger env (Some t) payload now db = started_run env t payload now db"
  using assms by (simp add: Execute_trigger_def started_run_def Let_def)

lemma count_update_triggers [simp]:
  "CountRunningExecutions i (update_triggers p f db) = CountRunningExecutions i db"
  by (simp add: CountRunningExecutions_def update_triggers_def)

lemma execute_probes:
  assumes "tr_tenant_id t \<noteq> ''''" "ShouldExecute now t" "tr_circuit_state t = CircuitOpen"
    "int (CountRunningExecutions (tr_id t) db) < tr_max_concurrent t"
  shows "Execute_trigger env (Some t) payload now db =
    started_run env (t\<lparr>tr_circuit_state := CircuitHalfOpen\<rparr>) payload now (HalfOpenCircuit now (tr_id t) db)"
  using assms
  by (simp add: Execute_trigger_def started_run_def Let_def ShouldExecute_def TransitionToHalfOpen_def
      HalfOpenCircuit_def)

text \<open>
  C21: the circuit breaker is implemented. A trigger read and fired, with an execution slot free, is
  skipped exactly when the abstract breaker of its row does not admit it; otherwise its row moves as
  the abstract breaker does on the outcome of the run: a success closes it, a failure while probing
  opens it again, and while closed the failures in a row are counted and it opens when they reach the
  number of attempts of one run. A workflow run that cannot be recorded only starts the probe.
\<close>

theorem breaker_refined:
  assumes "no_cancel env" "read_trigger i db = Some t" "breaker_row i db = Some b"
    "tr_tenant_id t \<noteq> ''''" "int (CountRunningExecutions i db) < tr_max_concurrent t"
  shows "\<exists>at \<ge> now. breaker_row i (Execute_trigger env (Some t) payload now db) =
    Some (if admits now b
          then (case run_outcome env t payload of
                  None \<Rightarrow> (case b of Open _ \<Rightarrow> HalfOpen | _ \<Rightarrow> b)
                | Some ok \<Rightarrow> breaker_step (failure_threshold t) at ok b)
          else b)"
proof -
  from in_step_fresh [OF assms(2,3)] have s: "in_step t db b" and i: "tr_id t = i" by simp_all
  have adm: "ShouldExecute now t = admits now b" by (rule should_execute_admits [OF assms(2,3)])
  show ?thesis
  proof (cases "admits now b")
    case False
    with adm assms(3) have "breaker_row i (Execute_trigger env (Some t) payload now db) = Some b"
      by (simp add: Execute_trigger_def)
    with False show ?thesis by auto
  next
    case True
    with adm have "ShouldExecute now t" by simp
    note run = execute_runs [OF assms(4) this] execute_probes [OF assms(4) this]
    show ?thesis
    proof (cases "\<exists>at. b = Open at")
      case False
      with s have "tr_circuit_state t \<noteq> CircuitOpen"
        by (auto simp: in_step_def elim: breaker_of_cases)
      then have r: "Execute_trigger env (Some t) payload now db = started_run env t payload now db"
        by (rule run(1)) (use assms(5) i in simp)
      from False have same: "(case b of Open _ \<Rightarrow> HalfOpen | _ \<Rightarrow> b) = b" by (cases b) auto
      from started_run_breaker [OF assms(1) s False, of now payload] i show ?thesis
        unfolding r same using True by simp
    next
      case True
      then obtain at where b: "b = Open at" by blast
      let ?t = "t\<lparr>tr_circuit_state := CircuitHalfOpen\<rparr>"
      from s b have "tr_circuit_state t = CircuitOpen"
        by (auto simp: in_step_def elim: breaker_of_cases)
      moreover have "run_outcome env ?t payload = run_outcome env t payload"
        "failure_threshold ?t = failure_threshold t"
        by (simp_all add: run_outcome_def renderInput_def failure_threshold_def split: option.split)
      moreover have half: "breaker_step m at' ok (Open at) = breaker_step m at' ok HalfOpen" for m at' ok
        by (cases ok) simp_all
      moreover have "Execute_trigger env (Some t) payload now db =
          started_run env ?t payload now (HalfOpenCircuit now (tr_id t) db)"
        by (rule run(2)) (use \<open>tr_circuit_state t = CircuitOpen\<close> assms(5) i in simp_all)
      ultimately show ?thesis
        using started_run_breaker [OF assms(1) in_step_transition [OF s [unfolded b]], of now payload now]
          \<open>admits now b\<close> i unfolding b half by (simp cong: option.case_cong)
    qed
  qed
qed

section \<open>An instance\<close>

text \<open>A trigger without retries, stored and fired while its agent cannot be loaded.\<close>

definition demo_trigger :: trigger where
  "demo_trigger = \<lparr>tr_id = '''', tr_tenant_id = ''acme'', tr_agent_id = ''agent'', tr_name = ''nightly'',
     tr_type = TriggerCron, tr_enabled = True, tr_cron_expression = ''0 9 * * *'', tr_cron_timezone = ''UTC'',
     tr_webhook_secret_hash = '''', tr_webhook_path = '''', tr_event_source_agent_id = '''',
     tr_event_type = '''', tr_event_filter = '''', tr_workflow_id = '''', tr_input_template = '''',
     tr_max_retries = 0, tr_retry_delay_seconds = 60, tr_timeout_seconds = 300, tr_max_concurrent = 1,
     tr_consecutive_failures = 0, tr_circuit_state = CircuitClosed, tr_circuit_opened_at = None,
     tr_created_at = 0, tr_updated_at = 0\<rparr>"

definition empty_db :: trigger_db where
  "empty_db = \<lparr>db_triggers = [], db_executions = [], db_next_execution = 0\<rparr>"

definition demo_db :: trigger_db where
  "demo_db = snd (CreateTrigger 0 ''t1'' demo_trigger empty_db)"

definition demo_env :: exec_env where
  "demo_env = \<lparr>env_json = (\<lambda>_. True), env_template = (\<lambda>_ _ s. Inr s), env_session_id = (\<lambda>_. ''s''),
     env_attempt = (\<lambda>_. AgentNotLoaded ''gone''), env_duration = (\<lambda>_. 1), env_cancelled = (\<lambda>_. False),
     env_workflow = None\<rparr>"

definition demo_copy :: trigger where
  "demo_copy = demo_trigger\<lparr>tr_id := ''t1''\<rparr>"

lemma demo_read: "read_trigger ''t1'' demo_db = Some demo_copy"
  by (simp add: read_trigger_def demo_db_def empty_db_def CreateTrigger_def find_trigger_def toTrigger_def
      demo_trigger_def demo_copy_def null_if_empty_def nullStringValue_def nullIntValue_def)

lemma demo_breaker: "breaker_row ''t1'' demo_db = Some (Closed 0)"
  by (simp add: breaker_row_def circuit_columns_of_def circuit_of_def demo_db_def empty_db_def
      CreateTrigger_def find_trigger_def)

lemma demo_outcome: "run_outcome demo_env demo_copy None = Some False" "failure_threshold demo_copy = 1"
  by (simp_all add: run_outcome_def demo_copy_def demo_trigger_def failure_threshold_def demo_env_def
      session_succeeds_def)

theorem breaker_refined_witness:
  "\<exists>at \<ge> 5. breaker_row ''t1'' (Execute_trigger demo_env (Some demo_copy) None 5 demo_db) = Some (Open at)"
proof -
  have "no_cancel demo_env" "tr_tenant_id demo_copy \<noteq> ''''"
    "int (CountRunningExecutions ''t1'' demo_db) < tr_max_concurrent demo_copy"
    by (simp_all add: no_cancel_def demo_env_def demo_copy_def demo_trigger_def CountRunningExecutions_def
        demo_db_def empty_db_def CreateTrigger_def)
  from breaker_refined [OF this(1) demo_read demo_breaker this(2,3), of 5 None] demo_outcome
  show ?thesis by simp
qed

end
