(* ===== verification/TriggerSystem.thy ===== *)
theory TriggerSystem
  imports TriggerFiring TriggerCircuit
begin

text \<open>
  Everything that touches a trigger, interleaved: ticks of any scheduler, webhook requests, events, the
  database steps of the executions in flight (each holding the copy of the trigger it was fired with),
  crashes of workers, and the users' changes. One step is one statement of the store, so executions
  overlap in every way goroutines and pods can make them; the check of the running executions, which
  only ever skips a firing, is a flight that vanishes.
\<close>

datatype phase = Fired | Started | Recorded nat

record trigger_world =
  world_db :: trigger_db
  world_flight :: "(trigger \<times> phase) list"
  world_ids :: "string set"

definition empty_world :: trigger_world where
  "empty_world = \<lparr>world_db = \<lparr>db_triggers = [], db_executions = [], db_next_execution = 0\<rparr>,
     world_flight = [], world_ids = {}\<rparr>"

definition fire :: "trigger \<Rightarrow> trigger_world \<Rightarrow> trigger_world" where
  "fire t w = w\<lparr>world_flight := (t, Fired) # world_flight w\<rparr>"

text \<open>A flight moves on, with the database it leaves.\<close>

definition proceed :: "trigger \<times> phase \<Rightarrow> (trigger \<times> phase) list \<Rightarrow> trigger_db \<Rightarrow> trigger_world \<Rightarrow> trigger_world" where
  "proceed f next_flight db w =
     w\<lparr>world_db := db, world_flight := next_flight @ remove1 f (world_flight w)\<rparr>"

inductive trigger_step :: "('s, 'l) cron_lib \<Rightarrow> trigger_world \<Rightarrow> trigger_world \<Rightarrow> bool"
  for lib :: "('s, 'l) cron_lib" where
  cron: "t \<in> set (scheduler_tick lib locked now (world_db w)) \<Longrightarrow> trigger_step lib w (fire t w)"
| webhook: "webhook_handle c allow now path body signature (world_db w) = (status, Some (t, payload)) \<Longrightarrow>
    trigger_step lib w (fire t w)"
| event: "(t, payload) \<in> set (handleEvent unmarshal marshal event_id event_payload event_type (world_db w)) \<Longrightarrow>
    trigger_step lib w (fire t w)"
| start: "(t, Fired) \<in> set (world_flight w) \<Longrightarrow> tr_tenant_id t \<noteq> '''' \<Longrightarrow> ShouldExecute now t \<Longrightarrow>
    TransitionToHalfOpen now t (world_db w) = (t1, db1) \<Longrightarrow>
    trigger_step lib w (proceed (t, Fired) [(t1, Started)] db1 w)"
| record_execution: "(t, Started) \<in> set (world_flight w) \<Longrightarrow>
    ex_trigger_id e = tr_id t \<Longrightarrow> RecordExecution json now e (world_db w) = (Inr i, db1) \<Longrightarrow>
    trigger_step lib w (proceed (t, Started) [(t, Recorded i)] db1 w)"
| complete: "(t, Recorded i) \<in> set (world_flight w) \<Longrightarrow>
    trigger_step lib w (proceed (t, Recorded i) [(t, Started)]
      (CompleteExecution now i status out err ms (world_db w)) w)"
| success: "(t, Started) \<in> set (world_flight w) \<Longrightarrow>
    trigger_step lib w (proceed (t, Started) [] (RecordSuccess now t (world_db w)) w)"
| failure: "(t, Started) \<in> set (world_flight w) \<Longrightarrow>
    trigger_step lib w (proceed (t, Started) [] (RecordFailure now t (world_db w)) w)"
| vanish: "f \<in> set (world_flight w) \<Longrightarrow> trigger_step lib w (proceed f [] (world_db w) w)"
| create: "i \<notin> world_ids w \<Longrightarrow> CreateTrigger now i t (world_db w) = (t1, db1) \<Longrightarrow>
    trigger_step lib w (w\<lparr>world_db := db1, world_ids := insert i (world_ids w)\<rparr>)"
| update: "UpdateTrigger now t (world_db w) = Inr (t1, db1) \<Longrightarrow> trigger_step lib w (w\<lparr>world_db := db1\<rparr>)"
| delete: "trigger_step lib w (w\<lparr>world_db := DeleteTrigger i tenant (world_db w)\<rparr>)"

inductive trigger_reachable :: "('s, 'l) cron_lib \<Rightarrow> trigger_world \<Rightarrow> bool"
  for lib :: "('s, 'l) cron_lib" where
  initial: "trigger_reachable lib empty_world"
| trigger_step: "trigger_reachable lib w \<Longrightarrow> trigger_step lib w w' \<Longrightarrow> trigger_reachable lib w'"

section \<open>Bookkeeping that always holds\<close>

text \<open>Ids are unique and never come back, and a flight's execution is one of its trigger.\<close>

definition ids_ok :: "trigger_world \<Rightarrow> bool" where
  "ids_ok w \<longleftrightarrow> tw_id ` set (db_triggers (world_db w)) \<subseteq> world_ids w \<and>
     distinct (map tw_id (db_triggers (world_db w)))"

definition executions_ok :: "trigger_world \<Rightarrow> bool" where
  "executions_ok w \<longleftrightarrow>
     (\<forall>e \<in> set (db_executions (world_db w)). ex_id e < db_next_execution (world_db w)) \<and>
     (\<forall>t i. (t, Recorded i) \<in> set (world_flight w) \<longrightarrow> i < db_next_execution (world_db w) \<and>
        (\<forall>e \<in> set (db_executions (world_db w)). ex_id e = i \<longrightarrow> ex_trigger_id e = tr_id t))"

text \<open>The statements by the rows they change.\<close>

definition touches :: "string \<Rightarrow> trigger_db \<Rightarrow> trigger_db \<Rightarrow> bool" where
  "touches i db db1 \<longleftrightarrow> db_executions db1 = db_executions db \<and> db_next_execution db1 = db_next_execution db \<and>
     (\<exists>f. (\<forall>r. tw_id (f r) = tw_id r \<and> tw_type (f r) = tw_type r) \<and>
        db_triggers db1 = map (\<lambda>r. if tw_id r = i then f r else r) (db_triggers db))"

lemma touches_refl: "touches i db db"
  unfolding touches_def by (intro conjI refl exI [of _ "\<lambda>r. r"]) simp_all

lemma touches_update:
  "(\<And>r. tw_id (f r) = tw_id r \<and> tw_type (f r) = tw_type r) \<Longrightarrow> touches i db (update_triggers (\<lambda>r. tw_id r = i) f db)"
  unfolding touches_def by (auto simp: update_triggers_def)

lemma touches_circuit [intro]:
  "touches i db (ResetFailures now i db)" "touches i db (OpenCircuit now i db)"
  "touches i db (HalfOpenCircuit now i db)" "touches i db (CloseCircuit now i db)"
  by (simp_all add: ResetFailures_def OpenCircuit_def HalfOpenCircuit_def CloseCircuit_def touches_update)

lemma touches_trans:
  assumes "touches i db db1" "touches i db1 db2"
  shows "touches i db db2"
proof -
  from assms obtain f g where f: "\<forall>r. tw_id (f r) = tw_id r \<and> tw_type (f r) = tw_type r"
    "db_triggers db1 = map (\<lambda>r. if tw_id r = i then f r else r) (db_triggers db)"
    and g: "\<forall>r. tw_id (g r) = tw_id r \<and> tw_type (g r) = tw_type r"
    "db_triggers db2 = map (\<lambda>r. if tw_id r = i then g r else r) (db_triggers db1)"
    by (auto simp: touches_def)
  have "db_triggers db2 = map (\<lambda>r. if tw_id r = i then g (f r) else r) (db_triggers db)"
    using f g by auto
  with assms f(1) g(1) show ?thesis
    unfolding touches_def by (intro conjI exI [of _ "\<lambda>r. g (f r)"]) simp_all
qed

lemma touches_success: "touches (tr_id t) db (RecordSuccess now t db)"
  by (auto simp: RecordSuccess_def touches_refl)

lemma touches_failure: "touches (tr_id t) db (RecordFailure now t db)"
proof -
  obtain res db1 where inc: "IncrementFailures now (tr_id t) db = (res, db1)" by force
  have "touches (tr_id t) db db1"
    using increment_snd [of now "tr_id t" db] inc by (simp add: touches_update)
  with inc show ?thesis by (auto simp: RecordFailure_def split: sum.split intro: touches_trans)
qed

lemma touches_transition: "TransitionToHalfOpen now t db = (t1, db1) \<Longrightarrow> touches (tr_id t) db db1 \<and> tr_id t1 = tr_id t"
  by (auto simp: TransitionToHalfOpen_def touches_refl split: if_splits)

lemma touches_ids:
  assumes "touches k db db1"
  shows "map tw_id (db_triggers db1) = map tw_id (db_triggers db)"
proof -
  from assms obtain f where f: "\<forall>r. tw_id (f r) = tw_id r"
    "db_triggers db1 = map (\<lambda>r. if tw_id r = k then f r else r) (db_triggers db)" by (auto simp: touches_def)
  then show ?thesis by simp
qed

lemma touches_rows:
  assumes "touches k db db1" "r \<in> set (db_triggers db1)" "tw_id r \<noteq> k"
  shows "r \<in> set (db_triggers db)"
  using assms unfolding touches_def by (auto split: if_splits)

lemma in_update_triggers:
  "r \<in> set (db_triggers (update_triggers p f db)) \<Longrightarrow> r \<in> set (db_triggers db) \<or> (\<exists>r0 \<in> set (db_triggers db). p r0 \<and> r = f r0)"
  by (auto simp: update_triggers_def split: if_splits)

lemma update_trigger_db:
  "UpdateTrigger now t db = Inr (t1, db1) \<Longrightarrow>
     db1 = update_triggers (\<lambda>r. tw_id r = tr_id t \<and> tw_tenant_id r = tr_tenant_id t) (updated_row now t) db"
  by (auto simp: UpdateTrigger_def Let_def split: if_splits)

lemma updated_row_same [simp]:
  "tw_id (updated_row now t r) = tw_id r" "tw_type (updated_row now t r) = tw_type r"
  "tw_circuit_state (updated_row now t r) = tw_circuit_state r"
  by (simp_all add: updated_row_def)

lemma update_triggers_ids:
  "(\<And>r. tw_id (f r) = tw_id r) \<Longrightarrow> map tw_id (db_triggers (update_triggers p f db)) = map tw_id (db_triggers db)"
  by (simp add: update_triggers_def)

lemma distinct_map_filter: "distinct (map f xs) \<Longrightarrow> distinct (map f (filter p xs))"
  by (induction xs) auto

lemma ids_ok_same:
  assumes "ids_ok w" "map tw_id (db_triggers db) = map tw_id (db_triggers (world_db w))"
  shows "ids_ok (w\<lparr>world_db := db\<rparr>)" "ids_ok (proceed f fl db w)"
  using assms by (simp_all add: ids_ok_def proceed_def flip: set_map)

section \<open>A circuit that is open for good\<close>

definition executions_of :: "string \<Rightarrow> trigger_world \<Rightarrow> execution list" where
  "executions_of i w = filter (\<lambda>e. ex_trigger_id e = i) (db_executions (world_db w))"

text \<open>
  Every row of the trigger is a cron or event trigger with an open circuit, and no execution of it is
  in flight.
\<close>

definition shut :: "string \<Rightarrow> trigger_world \<Rightarrow> bool" where
  "shut i w \<longleftrightarrow> i \<in> world_ids w \<and> (\<forall>f \<in> set (world_flight w). tr_id (fst f) \<noteq> i) \<and>
     (\<forall>r \<in> set (db_triggers (world_db w)). tw_id r = i \<longrightarrow>
        tw_type r \<in> {TriggerCron, TriggerEvent} \<and> tw_circuit_state r = Some CircuitOpen)"

lemma shut_flights:
  assumes "shut i w" "r \<in> set (db_triggers (world_db w))" "tr_id t = tw_id r"
    "tw_type r = TriggerWebhook \<or> circuit_not_open r"
  shows "tr_id t \<noteq> i"
  using assms by (auto simp: shut_def circuit_not_open_def)

lemma tr_id_toTrigger [simp]: "tr_id (toTrigger r) = tw_id r"
  by (simp add: toTrigger_def)

lemma scheduler_tick_row:
  "t \<in> set (scheduler_tick lib locked now db) \<Longrightarrow>
     \<exists>r \<in> set (db_triggers db). tr_id t = tw_id r \<and> circuit_not_open r"
  by (auto simp: scheduler_tick_def ListEnabledCronTriggers_def materializeTriggers_def split: if_splits)

lemma webhook_row:
  "webhook_handle c allow now path body signature db = (status, Some (t, payload)) \<Longrightarrow>
     \<exists>r \<in> set (db_triggers db). tr_id t = tw_id r \<and> tw_type r = TriggerWebhook"
  by (auto simp: webhook_handle_def GetTriggerByWebhookPath_def Let_def find_Some_iff
      split: if_splits sum.splits option.splits)

lemma event_row:
  "(t, payload) \<in> set (handleEvent um ma ei ep et db) \<Longrightarrow>
     \<exists>r \<in> set (db_triggers db). tr_id t = tw_id r \<and> circuit_not_open r"
  by (auto simp: handleEvent_def ListEventTriggers_def materializeTriggers_def Let_def
      split: if_splits option.splits)

lemma flights_proceed:
  assumes "shut i w" "f \<in> set (world_flight w)" "\<forall>g \<in> set fl. tr_id (fst g) = tr_id (fst f)"
  shows "\<forall>g \<in> set (fl @ remove1 f (world_flight w)). tr_id (fst g) \<noteq> i"
proof
  fix g assume "g \<in> set (fl @ remove1 f (world_flight w))"
  then consider "g \<in> set fl" | "g \<in> set (world_flight w)" by (auto dest: notin_set_remove1)
  then show "tr_id (fst g) \<noteq> i" using assms unfolding shut_def by cases metis+
qed

lemma shut_proceed:
  assumes "shut i w" "f \<in> set (world_flight w)" "\<forall>g \<in> set fl. tr_id (fst g) = tr_id (fst f)"
    "touches (tr_id (fst f)) (world_db w) db"
  shows "shut i (proceed f fl db w) \<and> executions_of i (proceed f fl db w) = executions_of i w"
proof -
  from assms(1,2) have ne: "tr_id (fst f) \<noteq> i" by (auto simp: shut_def)
  have "r \<in> set (db_triggers (world_db w))" if "r \<in> set (db_triggers db)" "tw_id r = i" for r
    using touches_rows [OF assms(4) that(1)] that(2) ne by simp
  with assms(1,4) flights_proceed [OF assms(1-3)] show ?thesis
    by (simp add: shut_def proceed_def executions_of_def touches_def)
qed

lemma shut_same_triggers:
  assumes "shut i w" "f \<in> set (world_flight w)" "\<forall>g \<in> set fl. tr_id (fst g) = tr_id (fst f)"
    "db_triggers db = db_triggers (world_db w)"
  shows "shut i (proceed f fl db w)"
  using assms(1,4) flights_proceed [OF assms(1-3)] by (simp add: shut_def proceed_def)

lemma complete_other:
  assumes "executions_ok w" "(t, Recorded j) \<in> set (world_flight w)" "tr_id t \<noteq> i"
  shows "filter (\<lambda>e. ex_trigger_id e = i) (db_executions (CompleteExecution now j st out err ms (world_db w))) =
    executions_of i w"
proof -
  have ne: "\<forall>e \<in> set (db_executions (world_db w)). ex_id e = j \<longrightarrow> ex_trigger_id e \<noteq> i"
    using assms by (auto simp: executions_ok_def)
  have "filter (\<lambda>e. ex_trigger_id e = i) (map (\<lambda>e. if ex_id e = j then g e else e) es) =
      filter (\<lambda>e. ex_trigger_id e = i) es"
    if "\<forall>e \<in> set es. ex_id e = j \<longrightarrow> ex_trigger_id e \<noteq> i" "\<And>e. ex_trigger_id (g e) = ex_trigger_id e" for es g
    using that by (induction es) auto
  from this [OF ne] show ?thesis by (simp add: CompleteExecution_def executions_of_def)
qed

lemma record_other:
  assumes "RecordExecution json now e db = (Inr j, db1)" "ex_trigger_id e \<noteq> i"
  shows "filter (\<lambda>e. ex_trigger_id e = i) (db_executions db1) = filter (\<lambda>e. ex_trigger_id e = i) (db_executions db)"
  using assms by (auto simp: RecordExecution_def Let_def split: if_splits)

lemma shut_step:
  assumes "trigger_step lib w w'" "shut i w" "executions_ok w"
  shows "shut i w' \<and> set (executions_of i w') \<subseteq> set (executions_of i w)"
  using assms(1)
proof (cases rule: trigger_step.cases)
  case (cron t locked now)
  with scheduler_tick_row [OF cron(2)] shut_flights [OF assms(2)] have "tr_id t \<noteq> i" by blast
  with cron assms(2) show ?thesis by (auto simp: shut_def fire_def executions_of_def)
next
  case (webhook c allow now path body signature status t payload)
  with webhook_row [OF webhook(2)] shut_flights [OF assms(2)] have "tr_id t \<noteq> i" by blast
  with webhook assms(2) show ?thesis by (auto simp: shut_def fire_def executions_of_def)
next
  case (event t payload um ma ei ep et)
  with event_row [OF event(2)] shut_flights [OF assms(2)] have "tr_id t \<noteq> i" by blast
  with event assms(2) show ?thesis by (auto simp: shut_def fire_def executions_of_def)
next
  case (start t now t1 db1)
  from touches_transition [OF start(5)] have "touches (tr_id t) (world_db w) db1" "tr_id t1 = tr_id t" by simp_all
  with shut_proceed [OF assms(2) start(2), of "[(t1, Started)]" db1] start(1) show ?thesis by simp
next
  case (record_execution t e json now j db1)
  have ne: "ex_trigger_id e \<noteq> i" using assms(2) record_execution(2,3) by (auto simp: shut_def)
  have "db_triggers db1 = db_triggers (world_db w)"
    using triggers_record_execution [of json now e "world_db w"] record_execution(4) by simp
  with shut_same_triggers [OF assms(2) record_execution(2), of "[(t, Recorded j)]" db1] record_execution(1)
    record_other [OF record_execution(4) ne] show ?thesis
    by (simp add: executions_of_def proceed_def)
next
  case (complete t j now st out err ms)
  have ne: "tr_id t \<noteq> i" using assms(2) complete(2) by (auto simp: shut_def)
  let ?db = "CompleteExecution now j st out err ms (world_db w)"
  from shut_same_triggers [OF assms(2) complete(2), of "[(t, Started)]" ?db] complete(1)
    complete_other [OF assms(3) complete(2) ne, of now st out err ms] show ?thesis
    by (simp add: executions_of_def proceed_def)
next
  case (success t now)
  from shut_proceed [OF assms(2) success(2), of "[]"] touches_success [of t] success(1) show ?thesis by simp
next
  case (failure t now)
  from shut_proceed [OF assms(2) failure(2), of "[]"] touches_failure [of t] failure(1) show ?thesis by simp
next
  case (vanish f)
  from shut_proceed [OF assms(2) vanish(2), of "[]"] touches_refl vanish(1) show ?thesis by simp
next
  case (create k now t t1 db1)
  with assms(2) show ?thesis by (auto simp: shut_def executions_of_def CreateTrigger_def)
next
  case (update now t t1 db1)
  have db1: "db1 = update_triggers (\<lambda>r. tw_id r = tr_id t \<and> tw_tenant_id r = tr_tenant_id t)
      (updated_row now t) (world_db w)" using update_trigger_db [OF update(2)] .
  have "tw_type r \<in> {TriggerCron, TriggerEvent} \<and> tw_circuit_state r = Some CircuitOpen"
    if "r \<in> set (db_triggers db1)" "tw_id r = i" for r
    using in_update_triggers [OF that(1) [unfolded db1]] that(2) assms(2) by (auto simp: shut_def)
  with update(1) assms(2) db1 show ?thesis
    by (simp add: shut_def executions_of_def) (simp add: update_triggers_def)
next
  case (delete k tenant)
  with assms(2) show ?thesis
    by (auto simp: shut_def executions_of_def DeleteTrigger_def Let_def split: if_splits)
qed

section \<open>Reachable worlds\<close>

lemma executions_ok_keep:
  assumes "executions_ok w" "set (db_executions db) \<subseteq> set (db_executions (world_db w))"
    "db_next_execution db = db_next_execution (world_db w)"
    "\<forall>t j. (t, Recorded j) \<in> set fl \<longrightarrow> (t, Recorded j) \<in> set (world_flight w)"
  shows "executions_ok (w\<lparr>world_db := db, world_flight := fl\<rparr>)"
  using assms unfolding executions_ok_def by (simp add: subset_iff) blast

lemma in_remove1: "x \<in> set (remove1 y xs) \<Longrightarrow> x \<in> set xs"
  by (rule subsetD [OF set_remove1_subset])

lemma executions_ok_proceed:
  assumes "executions_ok w" "touches k (world_db w) db" "\<forall>t j. (t, Recorded j) \<notin> set fl"
  shows "executions_ok (proceed f fl db w)"
  unfolding proceed_def
  by (rule executions_ok_keep [OF assms(1)]) (use assms(2,3) in \<open>auto simp: touches_def dest: in_remove1\<close>)

lemma record_execution_row:
  assumes "RecordExecution json now e db = (Inr j, db1)"
  shows "j = db_next_execution db \<and> db_next_execution db1 = Suc j \<and>
    (\<exists>e1. db_executions db1 = db_executions db @ [e1] \<and> ex_id e1 = j \<and> ex_trigger_id e1 = ex_trigger_id e)"
  using assms by (simp add: RecordExecution_def Let_def split: if_splits) auto

lemma executions_ok_record:
  assumes "executions_ok w" "RecordExecution json now e (world_db w) = (Inr j, db1)" "ex_trigger_id e = tr_id t"
  shows "executions_ok (proceed f [(t, Recorded j)] db1 w)"
proof -
  let ?db = "world_db w" and ?w = "proceed f [(t, Recorded j)] db1 w"
  from record_execution_row [OF assms(2)] assms(3) obtain e1 where
    db1: "db_executions db1 = db_executions ?db @ [e1]" "ex_id e1 = j" "ex_trigger_id e1 = tr_id t"
      "j = db_next_execution ?db" "db_next_execution db1 = Suc j" by metis
  have old: "ex_id x < j" if "x \<in> set (db_executions ?db)" for x
    using assms(1) that db1(4) by (auto simp: executions_ok_def)
  have "k < Suc j \<and> (\<forall>x \<in> set (db_executions db1). ex_id x = k \<longrightarrow> ex_trigger_id x = tr_id u)"
    if u: "(u, Recorded k) \<in> set (world_flight ?w)" for u k
  proof -
    from u consider "u = t" "k = j" | "(u, Recorded k) \<in> set (world_flight w)"
      by (auto simp: proceed_def dest: in_remove1)
    then show ?thesis
    proof cases
      case 1
      have "\<forall>x \<in> set (db_executions ?db). ex_id x \<noteq> j" using old by blast
      then show ?thesis using 1 db1(1-3) by simp
    next
      case 2
      with assms(1) have "k < j" "\<forall>x \<in> set (db_executions ?db). ex_id x = k \<longrightarrow> ex_trigger_id x = tr_id u"
        by (auto simp: executions_ok_def db1(4))
      then show ?thesis using db1 by auto
    qed
  qed
  with old db1 show ?thesis by (auto simp: executions_ok_def proceed_def less_Suc_eq)
qed

lemma executions_ok_complete:
  assumes "executions_ok w"
  shows "executions_ok (proceed f [(t, Started)] (CompleteExecution now j st out err ms (world_db w)) w)"
proof -
  have "\<exists>x0 \<in> set (db_executions (world_db w)). ex_id x = ex_id x0 \<and> ex_trigger_id x = ex_trigger_id x0"
    if "x \<in> set (db_executions (CompleteExecution now j st out err ms (world_db w)))" for x
    using that by (auto simp: CompleteExecution_def)
  moreover have "db_next_execution (CompleteExecution now j st out err ms (world_db w)) = db_next_execution (world_db w)"
    by (simp add: CompleteExecution_def)
  ultimately show ?thesis
    using assms unfolding executions_ok_def proceed_def by (auto dest!: in_remove1) metis+
qed

lemma ids_ok_proceed:
  assumes "ids_ok w" "map tw_id (db_triggers db) = map tw_id (db_triggers (world_db w))"
  shows "ids_ok (proceed f fl db w)"
  using ids_ok_same(2) [OF assms] .

lemma step_invariant:
  assumes "trigger_step lib w w'" "ids_ok w" "executions_ok w"
  shows "ids_ok w' \<and> executions_ok w'"
  using assms(1)
proof (cases rule: trigger_step.cases)
  case (cron t locked now)
  with assms show ?thesis by (simp add: ids_ok_def executions_ok_def fire_def)
next
  case (webhook c allow now path body signature status t payload)
  with assms show ?thesis by (simp add: ids_ok_def executions_ok_def fire_def)
next
  case (event t payload um ma ei ep et)
  with assms show ?thesis by (simp add: ids_ok_def executions_ok_def fire_def)
next
  case (start t now t1 db1)
  from touches_transition [OF start(5)] have tc: "touches (tr_id t) (world_db w) db1" by simp
  with start(1) executions_ok_proceed [OF assms(3) tc, of "[(t1, Started)]"] touches_ids [OF tc]
  show ?thesis by (simp add: ids_ok_proceed [OF assms(2)])
next
  case (record_execution t e json now j db1)
  have "db_triggers db1 = db_triggers (world_db w)"
    using triggers_record_execution [of json now e "world_db w"] record_execution(4) by simp
  with executions_ok_record [OF assms(3) record_execution(4,3)] record_execution(1) show ?thesis
    by (simp add: ids_ok_proceed [OF assms(2)])
next
  case (complete t j now st out err ms)
  with executions_ok_complete [OF assms(3)] show ?thesis by (simp add: ids_ok_proceed [OF assms(2)])
next
  case (success t now)
  note tc = touches_success [of t "world_db w" now]
  from success(1) executions_ok_proceed [OF assms(3) tc, of "[]"] touches_ids [OF tc]
  show ?thesis by (simp add: ids_ok_proceed [OF assms(2)])
next
  case (failure t now)
  note tc = touches_failure [of t "world_db w" now]
  from failure(1) executions_ok_proceed [OF assms(3) tc, of "[]"] touches_ids [OF tc]
  show ?thesis by (simp add: ids_ok_proceed [OF assms(2)])
next
  case (vanish f)
  with executions_ok_proceed [OF assms(3) touches_refl, of "[]"] show ?thesis
    by (simp add: ids_ok_proceed [OF assms(2)])
next
  case (create k now t t1 db1)
  have ids: "map tw_id (db_triggers db1) = map tw_id (db_triggers (world_db w)) @ [k]"
    and ex: "db_executions db1 = db_executions (world_db w)" "db_next_execution db1 = db_next_execution (world_db w)"
    using create(3) by (auto simp: CreateTrigger_def)
  have "tw_id ` set (db_triggers db1) = insert k (tw_id ` set (db_triggers (world_db w)))"
    using arg_cong [OF ids, of set] by simp
  with create(1,2) assms(2,3) ex ids show ?thesis by (auto simp: ids_ok_def executions_ok_def)
next
  case (update now t t1 db1)
  have db1: "db1 = update_triggers (\<lambda>r. tw_id r = tr_id t \<and> tw_tenant_id r = tr_tenant_id t)
      (updated_row now t) (world_db w)" using update_trigger_db [OF update(2)] .
  then have "map tw_id (db_triggers db1) = map tw_id (db_triggers (world_db w))"
    by (simp add: update_triggers_ids)
  moreover have "executions_ok (w\<lparr>world_db := db1\<rparr>)"
    using assms(3) by (simp add: db1 executions_ok_def update_triggers_def)
  ultimately show ?thesis using update(1) ids_ok_same(1) [OF assms(2)] by simp
next
  case (delete k tenant)
  have "executions_ok (w\<lparr>world_db := DeleteTrigger k tenant (world_db w)\<rparr>)"
    using assms(3) by (auto simp: executions_ok_def DeleteTrigger_def Let_def)
  with delete assms(2) show ?thesis
    by (auto simp: ids_ok_def DeleteTrigger_def Let_def distinct_map_filter)
qed

lemma reachable_invariants: "trigger_reachable lib w \<Longrightarrow> ids_ok w \<and> executions_ok w"
proof (induction rule: trigger_reachable.induct)
  case initial
  show ?case by (simp add: ids_ok_def executions_ok_def empty_world_def)
next
  case (trigger_step w w')
  then show ?case using step_invariant by blast
qed

lemma shut_steps:
  assumes "(trigger_step lib)\<^sup>*\<^sup>* w w'" "shut i w" "ids_ok w" "executions_ok w"
  shows "shut i w' \<and> set (executions_of i w') \<subseteq> set (executions_of i w)"
proof -
  have "shut i w' \<and> executions_ok w' \<and> ids_ok w' \<and> set (executions_of i w') \<subseteq> set (executions_of i w)"
    using assms(1)
  proof (induction rule: rtranclp_induct)
    case base
    with assms show ?case by simp
  next
    case (step w1 w2)
    then show ?case using shut_step [OF step(2)] step_invariant [OF step(2)] by blast
  qed
  then show ?thesis by blast
qed


text \<open>The trigger of the instance above: created, fired by a tick, failed; then another tick.\<close>

definition demo_lib :: "(unit, unit) cron_lib" where
  "demo_lib = \<lparr>cron_parse = (\<lambda>_. Some ()), load_location = (\<lambda>_. Some ()), cron_next = (\<lambda>_ _ t. Some (t + 1))\<rparr>"

definition created_world :: trigger_world where
  "created_world = empty_world\<lparr>world_db := demo_db, world_ids := {''t1''}\<rparr>"

definition failed_world :: trigger_world where
  "failed_world = proceed (demo_copy, Started) [] (RecordFailure 7 demo_copy demo_db)
     (proceed (demo_copy, Fired) [(demo_copy, Started)] demo_db (fire demo_copy created_world))"

lemma failed_world_reachable: "trigger_reachable demo_lib failed_world"
proof -
  have "trigger_step demo_lib empty_world created_world"
    using trigger_step.create [of "''t1''" empty_world 0 demo_trigger "demo_trigger\<lparr>tr_id := ''t1''\<rparr>" demo_db demo_lib]
    by (simp add: empty_world_def created_world_def demo_db_def empty_db_def CreateTrigger_def demo_trigger_def)
  then have r1: "trigger_reachable demo_lib created_world"
    using trigger_reachable.intros by blast
  have "demo_copy \<in> set (scheduler_tick demo_lib True 0 (world_db created_world))"
    by (simp add: scheduler_tick_def ListEnabledCronTriggers_def materializeTriggers_def created_world_def
        demo_db_def empty_db_def CreateTrigger_def circuit_not_open_def isDue_def demo_lib_def toTrigger_def
        demo_trigger_def demo_copy_def null_if_empty_def nullStringValue_def nullIntValue_def
        schedulerInterval_def second_def)
  from trigger_step.cron [OF this] have r2: "trigger_reachable demo_lib (fire demo_copy created_world)"
    using r1 trigger_reachable.trigger_step by blast
  have "trigger_step demo_lib (fire demo_copy created_world)
      (proceed (demo_copy, Fired) [(demo_copy, Started)] demo_db (fire demo_copy created_world))"
    by (rule trigger_step.start [of _ _ 5])
       (simp_all add: fire_def created_world_def demo_copy_def demo_trigger_def ShouldExecute_def
          TransitionToHalfOpen_def)
  with r2 have r3: "trigger_reachable demo_lib
      (proceed (demo_copy, Fired) [(demo_copy, Started)] demo_db (fire demo_copy created_world))"
    using trigger_reachable.trigger_step by blast
  have "trigger_step demo_lib (proceed (demo_copy, Fired) [(demo_copy, Started)] demo_db (fire demo_copy created_world))
      failed_world"
    unfolding failed_world_def
    using trigger_step.failure [of demo_copy "proceed (demo_copy, Fired) [(demo_copy, Started)] demo_db
        (fire demo_copy created_world)" demo_lib 7]
    by (simp add: proceed_def fire_def)
  with r3 show ?thesis using trigger_reachable.trigger_step by blast
qed


end
