(* ===== verification/TriggerGuarantees.thy ===== *)
theory TriggerGuarantees
  imports TriggerSystem
begin

text \<open>
  What the scheduler guarantees of a cron trigger, and what the model shows of the parts around it:
  the webhook signature, the listing of executions, the validation of time zones.
\<close>

section \<open>Cron activations\<close>

text \<open>
  The documented behaviour of the cron library for a parsed schedule in a location: \<open>Next\<close> is the
  earliest activation after the given time, and the zero time when there is none.
\<close>

definition next_activation :: "('s, 'l) cron_lib \<Rightarrow> 's \<Rightarrow> 'l \<Rightarrow> instant set \<Rightarrow> bool" where
  "next_activation lib s l S \<longleftrightarrow>
     (\<forall>from_time. case cron_next lib s l from_time of
        Some n \<Rightarrow> n \<in> S \<and> from_time < n \<and> (\<forall>m \<in> S. from_time < m \<longrightarrow> n \<le> m)
      | None \<Rightarrow> \<forall>m \<in> S. m \<le> from_time)"

lemma next_activation_window:
  assumes "next_activation lib s l S"
  shows "(case cron_next lib s l (now - d) of None \<Rightarrow> False | Some n \<Rightarrow> \<not> n > now) \<longleftrightarrow>
    (\<exists>a \<in> S. a \<le> now \<and> now < a + d)"
proof (cases "cron_next lib s l (now - d)")
  case None
  with spec [OF assms [unfolded next_activation_def], of "now - d"] have "\<forall>m \<in> S. m \<le> now - d" by simp
  with None show ?thesis by force
next
  case (Some n)
  with assms have n: "n \<in> S" "now - d < n" "\<forall>m \<in> S. now - d < m \<longrightarrow> n \<le> m"
    using spec [OF assms [unfolded next_activation_def], of "now - d"] by simp_all
  show ?thesis
  proof
    assume "case cron_next lib s l (now - d) of None \<Rightarrow> False | Some n \<Rightarrow> \<not> n > now"
    with Some n show "\<exists>a \<in> S. a \<le> now \<and> now < a + d" by (intro bexI [of _ n]) auto
  next
    assume "\<exists>a \<in> S. a \<le> now \<and> now < a + d"
    with Some n(3) show "case cron_next lib s l (now - d) of None \<Rightarrow> False | Some n \<Rightarrow> \<not> n > now"
      by fastforce
  qed
qed

definition schedules :: "('s, 'l) cron_lib \<Rightarrow> trigger \<Rightarrow> instant set \<Rightarrow> bool" where
  "schedules lib t S \<longleftrightarrow> tr_cron_expression t \<noteq> '''' \<and>
     (\<exists>s l. cron_parse lib (tr_cron_expression t) = Some s \<and>
        load_location lib (if tr_cron_timezone t = '''' then ''UTC'' else tr_cron_timezone t) = Some l \<and>
        next_activation lib s l S)"

lemma is_due_window:
  assumes "schedules lib t S"
  shows "isDue lib t now \<longleftrightarrow> (\<exists>a \<in> S. a \<le> now \<and> now < a + 11 * second)"
proof -
  from assms obtain s l where *: "tr_cron_expression t \<noteq> ''''" "cron_parse lib (tr_cron_expression t) = Some s"
    "load_location lib (if tr_cron_timezone t = '''' then ''UTC'' else tr_cron_timezone t) = Some l"
    "next_activation lib s l S" by (auto simp: schedules_def)
  have d: "schedulerInterval + second = 11 * second" by (simp add: schedulerInterval_def second_def)
  from * show ?thesis
    unfolding isDue_def Let_def d next_activation_window [OF *(4), symmetric] by simp
qed

lemma due_ticks:
  assumes gaps: "\<And>j. tick j + 6 * second \<le> tick (Suc j)" and a: "tick k < a" "a \<le> tick (Suc k)"
  shows "{j. a \<le> tick j \<and> tick j < a + 11 * second} =
    (if tick (Suc k) < a + 11 * second then {Suc k} else {}) \<union>
    (if tick (Suc (Suc k)) < a + 11 * second then {Suc (Suc k)} else {})"
proof -
  have pos: "0 < second" by (simp add: second_def)
  have le: "tick i \<le> tick j" if "i \<le> j" for i j :: nat
    by (rule lift_Suc_mono_le [OF _ that]) (use gaps pos in \<open>smt (verit)\<close>)
  have "j = Suc k \<or> j = Suc (Suc k)" if j: "a \<le> tick j" "tick j < a + 11 * second" for j
  proof (rule ccontr)
    assume "\<not> ?thesis"
    then consider "j \<le> k" | "Suc (Suc (Suc k)) \<le> j" by linarith
    then show False
    proof cases
      case 1
      from le [OF 1] j a show False by linarith
    next
      case 2
      from le [OF 2] j a gaps [of "Suc k"] gaps [of "Suc (Suc k)"] pos show False by linarith
    qed
  qed
  moreover have "a \<le> tick (Suc (Suc k))" using a le [of "Suc k" "Suc (Suc k)"] by linarith
  ultimately show ?thesis using a by auto
qed

text \<open>
  C23: no activation of a cron schedule is missed. When the ticks of the leader are 6 to 11 seconds
  apart, an enabled cron trigger whose circuit is not open is handed to the executor at a tick exactly
  when an activation lies less than 11 seconds back. So every activation is picked up by the first
  tick after it, and by the next tick once more exactly when that one comes less than 11 seconds after
  the activation, and by no other.
\<close>

theorem cron_fires:
  assumes "schedules lib t S" "t \<in> set (ListEnabledCronTriggers db)"
    "\<And>j. tick j + 6 * second \<le> tick (Suc j) \<and> tick (Suc j) \<le> tick j + 11 * second"
    "a \<in> S" "tick k < a" "a \<le> tick (Suc k)"
  shows "(t \<in> set (scheduler_tick lib True now db) \<longleftrightarrow> (\<exists>b \<in> S. b \<le> now \<and> now < b + 11 * second)) \<and>
    {j. t \<in> set (scheduler_tick lib True (tick j) db) \<and> a \<le> tick j \<and> tick j < a + 11 * second} =
      (if tick (Suc (Suc k)) < a + 11 * second then {Suc k, Suc (Suc k)} else {Suc k})"
proof -
  have due: "t \<in> set (scheduler_tick lib True x db) \<longleftrightarrow> (\<exists>b \<in> S. b \<le> x \<and> x < b + 11 * second)" for x
    using assms(2) is_due_window [OF assms(1)] by (simp add: scheduler_tick_def)
  have "tick (Suc k) < a + 11 * second" using assms(3) [of k] assms(5) by linarith
  moreover have "{j. t \<in> set (scheduler_tick lib True (tick j) db) \<and> a \<le> tick j \<and> tick j < a + 11 * second} =
      {j. a \<le> tick j \<and> tick j < a + 11 * second}"
    using assms(4) by (auto simp: due)
  ultimately show ?thesis
    using due_ticks [of tick k a] assms(3,5,6) due by auto
qed

text \<open>A schedule with one activation, a minute after the origin, and ticks half a second off.\<close>

definition minute_lib :: "(unit, unit) cron_lib" where
  "minute_lib = \<lparr>cron_parse = (\<lambda>_. Some ()), load_location = (\<lambda>_. Some ()),
     cron_next = (\<lambda>_ _ t. if t < 60 * second then Some (60 * second) else None)\<rparr>"

definition half_past :: "nat \<Rightarrow> instant" where
  "half_past j = second div 2 + 10 * second * int j"

theorem cron_fires_witness:
  "{j. demo_copy \<in> set (scheduler_tick minute_lib True (half_past j) demo_db) \<and>
       60 * second \<le> half_past j \<and> half_past j < 60 * second + 11 * second} = {6, 7}"
proof -
  have s: "schedules minute_lib demo_copy {60 * second}"
    by (simp add: schedules_def next_activation_def minute_lib_def demo_copy_def demo_trigger_def)
  have e: "demo_copy \<in> set (ListEnabledCronTriggers demo_db)"
    by (simp add: ListEnabledCronTriggers_def materializeTriggers_def demo_db_def empty_db_def
        CreateTrigger_def circuit_not_open_def toTrigger_def demo_trigger_def demo_copy_def
        null_if_empty_def nullStringValue_def nullIntValue_def)
  have gaps: "half_past j + 6 * second \<le> half_past (Suc j) \<and> half_past (Suc j) \<le> half_past j + 11 * second" for j
    by (simp add: half_past_def second_def)
  have k: "half_past 5 < 60 * second" "60 * second \<le> half_past (Suc 5)"
    "half_past (Suc (Suc 5)) < 60 * second + 11 * second"
    by (simp_all add: half_past_def second_def)
  from k(3) have "(if half_past (Suc (Suc 5)) < 60 * second + 11 * second then {Suc 5, Suc (Suc 5)} else {Suc 5}) = {6, 7}"
    by simp
  then show ?thesis
    unfolding cron_fires [OF s e gaps singletonI k(1,2), THEN conjunct2] .
qed

text \<open>
  With the ticker's ten seconds, an activation fires twice exactly when a tick falls less than one
  second after it: the window is one second wider than the interval, and nothing remembers the firing.
\<close>

lemma fires_twice:
  assumes "schedules lib t S" "t \<in> set (ListEnabledCronTriggers db)" "a \<in> S" "a \<le> now" "now < a + second"
  shows "t \<in> set (scheduler_tick lib True now db) \<and> t \<in> set (scheduler_tick lib True (now + 10 * second) db)"
proof -
  have due: "t \<in> set (scheduler_tick lib True x db)" if "a \<le> x" "x < a + 11 * second" for x
    using assms(2,3) that is_due_window [OF assms(1)] by (auto simp: scheduler_tick_def)
  have "0 < second" by (simp add: second_def)
  with assms(4,5) show ?thesis by (intro conjI due) linarith+
qed

section \<open>Findings\<close>

text \<open>
  The stored secret is the hash of the one the user is given, and the handler uses the hash as the
  key: a request signed with the user's secret is refused unless the two keys collide on the body.
\<close>

lemma raw_secret_signature_refused:
  assumes "GenerateWebhookSecret c rnd = (raw, stored)" "hmac_hex c stored body \<noteq> hmac_hex c raw body"
  shows "\<not> verifyHMAC c stored body (''sha256='' @ hmac_hex c raw body)"
  unfolding verifyHMAC_def trim_prefix_append using assms(2) by simp

text \<open>A completed execution has no error message, so a page that holds one cannot be read.\<close>

lemma completed_execution_breaks_listing:
  assumes "db_executions db = [e]" "ex_trigger_id e = i" "ex_id e = j"
  shows "ListExecutions i 50 0 (CompleteExecution now j StatusCompleted out '''' ms db) = Inl ErrScanNull"
  using assms by (simp add: ListExecutions_def CompleteExecution_def scannable_def null_if_empty_def)

text \<open>A time zone is validated without its surrounding spaces, and loaded with them.\<close>

lemma spaced_timezone_never_due:
  assumes "tr_type t = TriggerCron" "TrimSpace (tr_cron_expression t) \<noteq> ''''"
    "cron_parse lib (TrimSpace (tr_cron_expression t)) \<noteq> None"
    "TrimSpace (tr_cron_timezone t) = ''UTC''" "load_location lib ''UTC'' \<noteq> None"
    "tr_cron_timezone t \<noteq> ''''" "load_location lib (tr_cron_timezone t) = None"
  shows "ValidateConfiguration lib (Some t) = None \<and> \<not> isDue lib t now"
proof
  show "ValidateConfiguration lib (Some t) = None" using assms(1-5) by (simp add: ValidateConfiguration_def Let_def)
  show "\<not> isDue lib t now"
    using assms(6,7) by (cases "cron_parse lib (tr_cron_expression t)") (simp_all add: isDue_def)
qed

text \<open>A webhook body that is not JSON cannot be recorded, and that counts as a failed run.\<close>

lemma invalid_body_is_failure:
  "tr_workflow_id t = '''' \<Longrightarrow> \<not> env_json env body \<Longrightarrow> run_outcome env t (Some body) = Some False"
  by (simp add: run_outcome_def payload_accepted_def)

text \<open>
  An execution a crash leaves in the state running keeps its slot: with the default of one slot the
  trigger is skipped from then on.
\<close>

lemma running_execution_blocks:
  assumes "tr_max_concurrent t = 1" "e \<in> set (db_executions db)" "ex_trigger_id e = tr_id t"
    "ex_status e = StatusRunning" "tr_circuit_state t = CircuitClosed"
  shows "Execute_trigger env (Some t) payload now db = db"
proof -
  have "filter (\<lambda>e. ex_trigger_id e = tr_id t \<and> ex_status e \<in> {StatusPending, StatusRunning}) (db_executions db) \<noteq> []"
    using assms(2-4) by (auto simp: filter_empty_conv)
  then have "1 \<le> int (CountRunningExecutions (tr_id t) db)"
    by (cases "filter (\<lambda>e. ex_trigger_id e = tr_id t \<and> ex_status e \<in> {StatusPending, StatusRunning}) (db_executions db)")
       (simp_all add: CountRunningExecutions_def)
  with assms(1,5) show ?thesis by (simp add: Execute_trigger_def ShouldExecute_def Let_def)
qed

end
