(* ===== verification/WalletIdentity.thy ===== *)
theory WalletIdentity
  imports GoValue
begin

text \<open>
  Which organization pays for a tenant (\<open>internal/billingidentity/identity.go\<close> and \<open>ResolveOrg\<close> of
  \<open>internal/billingmeter/meter.go\<close>). Usage is stored under an organization id, under the id of one of
  its instances, deleted ones included, or under a legacy tenant configuration's id. The rows of a
  table are a list in any order, the order the database happens to answer in.
\<close>

section \<open>The platform tables\<close>

record org_row =
  og_id :: string
  og_plan_tier :: string

record instance_row =
  mi_id :: string
  mi_organization_id :: string
  mi_deleted_at :: "int option"

record tenant_config_row =
  tc_organization_id :: string
  tc_instance_id :: string

record identity_db =
  id_organizations :: "org_row list"
  id_instances :: "instance_row list"
  id_tenant_configs :: "tenant_config_row list"

record organization =
  o_ID :: string
  o_Tier :: string

datatype identity_error = IdentityRequired | NoOrganization

text \<open>SQL's \<open>TRIM\<close> removes blanks only; \<open>LOWER\<close> follows the database's locale, the argument.\<close>

definition sql_trim :: "string \<Rightarrow> string" where
  "sql_trim s = rev (dropWhile (\<lambda>c. c = CHR '' '') (rev (dropWhile (\<lambda>c. c = CHR '' '') s)))"

section \<open>Resolution\<close>

text \<open>
  The \<open>WHERE\<close> clause of the two queries over their left joins: an organization is in the answer when
  its own id, an instance joined to it or a configuration joined to it has the tenant's id. The join
  condition on instances is the only difference between them.
\<close>

definition identified_by :: "(instance_row \<Rightarrow> bool) \<Rightarrow> identity_db \<Rightarrow> string \<Rightarrow> org_row \<Rightarrow> bool" where
  "identified_by joined db t o' \<longleftrightarrow> og_id o' = t \<or>
     (\<exists>mi \<in> set (id_instances db). mi_organization_id mi = og_id o' \<and> joined mi \<and> mi_id mi = t) \<or>
     (\<exists>tc \<in> set (id_tenant_configs db). tc_organization_id tc = og_id o' \<and> tc_instance_id tc = t)"

definition resolveOrganization ::
    "(string \<Rightarrow> string) \<Rightarrow> (instance_row \<Rightarrow> bool) \<Rightarrow> identity_db option \<Rightarrow> string \<Rightarrow> identity_error + organization"
where
  "resolveOrganization lower joined dbo t =
     (case dbo of
        None \<Rightarrow> Inl IdentityRequired
      | Some db \<Rightarrow>
          if TrimSpace t = [] then Inl IdentityRequired
          else case filter (identified_by joined db t) (id_organizations db) of
                 [] \<Rightarrow> Inl NoOrganization
               | o' # _ \<Rightarrow> Inr \<lparr>o_ID = og_id o', o_Tier = lower (sql_trim (og_plan_tier o'))\<rparr>)"

definition ResolveOrganization ::
    "(string \<Rightarrow> string) \<Rightarrow> identity_db option \<Rightarrow> string \<Rightarrow> identity_error + organization" where
  "ResolveOrganization lower = resolveOrganization lower (\<lambda>_. True)"

definition ResolveActiveOrganization ::
    "(string \<Rightarrow> string) \<Rightarrow> identity_db option \<Rightarrow> string \<Rightarrow> identity_error + organization" where
  "ResolveActiveOrganization lower = resolveOrganization lower (\<lambda>mi. mi_deleted_at mi = None)"

text \<open>\<open>UNION\<close> removes duplicates.\<close>

definition ListOrganizationAliases :: "identity_db option \<Rightarrow> string \<Rightarrow> identity_error + string list" where
  "ListOrganizationAliases dbo org =
     (case dbo of
        None \<Rightarrow> Inl IdentityRequired
      | Some db \<Rightarrow>
          if TrimSpace org = [] then Inl IdentityRequired
          else Inr (remdups (org #
            map mi_id (filter (\<lambda>mi. mi_organization_id mi = org) (id_instances db)) @
            map tc_instance_id (filter (\<lambda>tc. tc_organization_id tc = org) (id_tenant_configs db)))))"

text \<open>The gateway's own resolver: \<open>None\<close> is \<open>("", false, nil)\<close>, usage that is not billed.\<close>

definition ResolveOrg :: "identity_db option \<Rightarrow> string \<Rightarrow> string option" where
  "ResolveOrg dbo tenantID =
     (let t = TrimSpace tenantID in
      case dbo of
        None \<Rightarrow> None
      | Some db \<Rightarrow>
          if t = [] then None
          else case filter (\<lambda>o'. og_id o' = t) (id_organizations db) of
                 o' # _ \<Rightarrow> Some (og_id o')
               | [] \<Rightarrow> (case filter (\<lambda>mi. mi_id mi = t) (id_instances db) of
                          mi # _ \<Rightarrow> Some (mi_organization_id mi)
                        | [] \<Rightarrow> None))"

section \<open>One payer per tenant\<close>

text \<open>
  What the platform's keys give: ids are unique across the three tables but for an organization's own
  rows, an instance belongs to an organization that exists, and no id is blank.
\<close>

definition identity_wf :: "identity_db \<Rightarrow> bool" where
  "identity_wf db \<longleftrightarrow>
     (\<forall>o1 \<in> set (id_organizations db). \<forall>o2 \<in> set (id_organizations db). \<forall>t.
        identified_by (\<lambda>_. True) db t o1 \<longrightarrow> identified_by (\<lambda>_. True) db t o2 \<longrightarrow> o1 = o2) \<and>
     (\<forall>mi \<in> set (id_instances db). \<exists>o' \<in> set (id_organizations db). og_id o' = mi_organization_id mi) \<and>
     (\<forall>o' \<in> set (id_organizations db). TrimSpace (og_id o') \<noteq> [])"

lemma filter_head:
  assumes "filter P xs = y # ys"
  shows "y \<in> set xs \<and> P y"
proof -
  have "y \<in> set (filter P xs)" unfolding assms by simp
  then show ?thesis by simp
qed

lemma identified_by_mono:
  "identified_by joined db t o' \<Longrightarrow> identified_by (\<lambda>_. True) db t o'"
  by (auto simp: identified_by_def)

lemma resolve_some:
  assumes "resolveOrganization lower joined (Some db) t = Inr org"
  shows "TrimSpace t \<noteq> [] \<and> (\<exists>o' \<in> set (id_organizations db). identified_by joined db t o' \<and>
           org = \<lparr>o_ID = og_id o', o_Tier = lower (sql_trim (og_plan_tier o'))\<rparr>)"
proof -
  from assms have nb: "TrimSpace t \<noteq> []" by (auto simp: resolveOrganization_def)
  show ?thesis
  proof (cases "filter (identified_by joined db t) (id_organizations db)")
    case Nil
    with assms nb show ?thesis by (simp add: resolveOrganization_def)
  next
    case (Cons o' os)
    from filter_head [OF this] Cons assms nb show ?thesis
      by (intro conjI bexI [of _ o']) (simp_all add: resolveOrganization_def)
  qed
qed

lemma resolve_unique:
  assumes wf: "identity_wf db" and "TrimSpace t \<noteq> []"
    and o': "o' \<in> set (id_organizations db)" "identified_by joined db t o'"
  shows "resolveOrganization lower joined (Some db) t =
           Inr \<lparr>o_ID = og_id o', o_Tier = lower (sql_trim (og_plan_tier o'))\<rparr>"
proof (cases "filter (identified_by joined db t) (id_organizations db)")
  case Nil
  with o' show ?thesis by (auto simp: filter_empty_conv)
next
  case (Cons p ps)
  from filter_head [OF this] have "p = o'"
    using wf o' identified_by_mono unfolding identity_wf_def by blast
  with Cons assms(2) show ?thesis by (simp add: resolveOrganization_def)
qed

lemma aliases_identify:
  assumes "ListOrganizationAliases (Some db) (og_id o') = Inr as"
  shows "t \<in> set as \<longleftrightarrow> identified_by (\<lambda>_. True) db t o'"
  using assms by (auto simp: ListOrganizationAliases_def identified_by_def split: if_splits)

lemma resolve_org_some:
  assumes wf: "identity_wf db" and r: "ResolveOrg (Some db) t = Some i"
  shows "TrimSpace t \<noteq> [] \<and> (\<exists>o' \<in> set (id_organizations db). og_id o' = i \<and>
           identified_by (\<lambda>_. True) db (TrimSpace t) o')"
proof -
  let ?t = "TrimSpace t"
  from r have nb: "?t \<noteq> []" by (auto simp: ResolveOrg_def Let_def)
  show ?thesis
  proof (cases "filter (\<lambda>o'. og_id o' = ?t) (id_organizations db)")
    case (Cons o' os)
    from filter_head [OF this] Cons r nb show ?thesis
      by (intro conjI bexI [of _ o']) (simp_all add: ResolveOrg_def Let_def identified_by_def)
  next
    case Nil
    show ?thesis
    proof (cases "filter (\<lambda>mi. mi_id mi = ?t) (id_instances db)")
      case Nil
      with \<open>filter (\<lambda>o'. og_id o' = ?t) (id_organizations db) = []\<close> r nb show ?thesis
        by (simp add: ResolveOrg_def Let_def)
    next
      case (Cons mi mis)
      from filter_head [OF this] have mi: "mi \<in> set (id_instances db)" "mi_id mi = ?t" by auto
      with wf obtain o' where "o' \<in> set (id_organizations db)" "og_id o' = mi_organization_id mi"
        unfolding identity_wf_def by blast
      moreover have "i = mi_organization_id mi"
        using Cons Nil r nb by (simp add: ResolveOrg_def Let_def)
      ultimately show ?thesis using mi nb
        by (intro conjI bexI [of _ o']) (auto simp: identified_by_def intro!: bexI [of _ mi])
    qed
  qed
qed

text \<open>
  Every tenant has one payer. When ids are unique, the organization that \<open>ResolveOrganization\<close>
  finds for a tenant is exactly the one whose alias list holds that tenant, so the usage summed over
  an organization's aliases is the usage of the tenants it pays for, each counted for one
  organization; the resolver for new allocations never finds another one; and the gateway's own
  resolver for inference, when it finds one, finds the same.
\<close>

theorem one_payer_per_tenant:
  assumes wf: "identity_wf db" and t: "TrimSpace t = t" "t \<noteq> []"
  shows "(ResolveOrganization lower (Some db) t = Inr org \<longleftrightarrow>
      (\<exists>o' \<in> set (id_organizations db). \<exists>as. ListOrganizationAliases (Some db) (og_id o') = Inr as \<and>
         t \<in> set as \<and> org = \<lparr>o_ID = og_id o', o_Tier = lower (sql_trim (og_plan_tier o'))\<rparr>)) \<and>
    (ResolveActiveOrganization lower (Some db) t = Inr org \<longrightarrow> ResolveOrganization lower (Some db) t = Inr org) \<and>
    (ResolveOrg (Some db) t = Some i \<longrightarrow> (\<exists>org'. ResolveOrganization lower (Some db) t = Inr org' \<and> o_ID org' = i))"
    (is "?exact \<and> ?active \<and> ?inference")
proof (intro conjI)
  have nb: "TrimSpace t \<noteq> []" using t by simp
  note all = resolve_unique [OF wf nb]
  have listed: "\<exists>as. ListOrganizationAliases (Some db) (og_id o') = Inr as" if "o' \<in> set (id_organizations db)" for o'
    using wf that by (auto simp: identity_wf_def ListOrganizationAliases_def)
  show ?exact
    using all listed aliases_identify by (auto simp: ResolveOrganization_def dest!: resolve_some) blast+
  show ?active
    using all identified_by_mono
    by (auto simp: ResolveOrganization_def ResolveActiveOrganization_def dest!: resolve_some)
  show ?inference
    using all resolve_org_some [OF wf, of t i] t by (auto simp: ResolveOrganization_def)
qed

definition example_identity :: identity_db where
  "example_identity =
     \<lparr>id_organizations = [\<lparr>og_id = ''org'', og_plan_tier = '' Free''\<rparr>],
      id_instances = [\<lparr>mi_id = ''old'', mi_organization_id = ''org'', mi_deleted_at = Some 7\<rparr>],
      id_tenant_configs = [\<lparr>tc_organization_id = ''org'', tc_instance_id = ''legacy''\<rparr>]\<rparr>"

lemma example_ids:
  "TrimSpace ''org'' = ''org''" "TrimSpace ''old'' = ''old''"
  "ResolveOrg (Some example_identity) ''old'' = Some ''org''"
  by code_simp+

lemma example_identity_wf: "identity_wf example_identity"
  using example_ids(1) by (auto simp: identity_wf_def example_identity_def identified_by_def)

theorem one_payer_per_tenant_witness:
  "\<exists>org. ResolveOrganization id (Some example_identity) ''old'' = Inr org \<and> o_ID org = ''org''"
  using one_payer_per_tenant [OF example_identity_wf example_ids(2), where lower = id and i = "''org''"]
    example_ids(3) by blast

text \<open>
  A tenant known only by its legacy configuration: its sandboxes are billed, its inference is not, as
  the gateway's resolver does not read \<open>tenant_config\<close>.
\<close>

lemma legacy_tenant_inference_unbilled:
  "ResolveOrganization id (Some example_identity) ''legacy'' = Inr \<lparr>o_ID = ''org'', o_Tier = ''Free''\<rparr> \<and>
   ResolveOrg (Some example_identity) ''legacy'' = None"
  by code_simp

end
