(* ===== verification/WalletStore.thy ===== *)
theory WalletStore
  imports WalletIdentity GoInt
begin

text \<open>
  The billing schema that \<open>internal/billingcredit/credit.go\<close> and \<open>internal/billingmeter/meter.go\<close> write:
  the ledger of grants and debits with its unique idempotency key, the two kinds of watermarks, the
  cached balances, the holds and the subscriptions; and each SQL statement as its effect on them. A
  \<open>BIGINT\<close> or Go \<open>int64\<close> is an integer: a cast that leaves the range fails in SQL, arithmetic wraps
  in Go.
\<close>

section \<open>Case folding\<close>

text \<open>
  \<open>strings.EqualFold\<close> against a constant of lower-case ASCII letters. Unicode folds two more
  characters onto such letters, the long s (U+017F) and the Kelvin sign (U+212A).
\<close>

definition fold_variants :: "char \<Rightarrow> string list" where
  "fold_variants c =
     [[c], [char_of (of_char c - 32 :: nat)]] @
     (if c = CHR ''s'' then [[CHR 0xC5, CHR 0xBF]] else []) @
     (if c = CHR ''k'' then [[CHR 0xE2, CHR 0x84, CHR 0xAA]] else [])"

fun EqualFold :: "string \<Rightarrow> string \<Rightarrow> bool" where
  "EqualFold s [] \<longleftrightarrow> s = []"
| "EqualFold s (c # cs) \<longleftrightarrow>
     list_ex (\<lambda>v. has_prefix s v \<and> EqualFold (drop (length v) s) cs) (fold_variants c)"

section \<open>The schema\<close>

datatype entry_type = EntryGrant | EntryDebit | OtherEntry string

record ledger_entry =
  le_organization_id :: string
  le_entry_type :: entry_type
  le_amount_micros :: int
  le_resource_type :: string
  le_metric_type :: "string option"
  le_idempotency_key :: string
  le_period :: "((int \<times> int) \<times> (int \<times> int)) option"

record meter_watermark =
  mw_organization_id :: string
  mw_metric_type :: string
  mw_total_value :: int

record credit_hold =
  ch_organization_id :: string
  ch_amount_micros :: int
  ch_state :: string

record subscription =
  sub_status :: string
  sub_stripe_customer_id :: string
  sub_stripe_subscription_id :: string

text \<open>
  \<open>bd_subscriptions\<close> is the answer of the query for an organization's subscription: an error, no row,
  or the row.
\<close>

record billing_db =
  bd_ledger :: "ledger_entry list"
  bd_meters :: "meter_watermark list"
  bd_debit_watermarks :: "string \<times> string \<rightharpoonup> int"
  bd_starter_baselines :: "string \<rightharpoonup> int"
  bd_balances :: "string \<rightharpoonup> int"
  bd_holds :: "credit_hold list"
  bd_subscriptions :: "string \<Rightarrow> string + subscription option"

section \<open>Statements\<close>

text \<open>
  Each statement may fail by itself: \<open>faults\<close> says which do. \<open>StHandle\<close> is the database handle, a
  fault when it is nil. A failing statement ends the transaction.
\<close>

datatype wallet_stmt =
    StHandle | StBegin | StLock | StGrant | StReadCumulative | StReadBilled | StReadBaseline | StSeed
  | StDebit | StAdvance | StSumGrants | StSumLedger | StSaveBalance | StSumHolds | StCommit

type_synonym faults = "wallet_stmt \<Rightarrow> string option"

datatype wallet_error = MissingInput | CreditNotConfigured | SubscriptionLookup string | StmtFailed wallet_stmt string

definition exec :: "faults \<Rightarrow> wallet_stmt \<Rightarrow> wallet_error + 'a \<Rightarrow> wallet_error + 'a" where
  "exec fl s r = (case fl s of Some e \<Rightarrow> Inl (StmtFailed s e) | None \<Rightarrow> r)"

definition no_faults :: faults where
  "no_faults = (\<lambda>_. None)"

lemma exec_no_faults [simp]: "exec no_faults s r = r"
  by (simp add: exec_def no_faults_def)

lemma exec_Inr [go_result]: "exec fl s r = Inr x \<longleftrightarrow> fl s = None \<and> r = Inr x"
  by (auto simp: exec_def split: option.splits)

text \<open>The casts \<open>::BIGINT\<close> and \<open>::uuid\<close>; the second is Postgres's and yields the canonical text.\<close>

definition bigint :: "wallet_stmt \<Rightarrow> int \<Rightarrow> wallet_error + int" where
  "bigint s i = (if in_int64 i then Inr i else Inl (StmtFailed s ''bigint out of range''))"

lemma bigint_Inr [go_result]: "bigint s i = Inr j \<longleftrightarrow> in_int64 i \<and> j = i"
  by (auto simp: bigint_def)

definition as_uuid :: "(string \<Rightarrow> string option) \<Rightarrow> wallet_stmt \<Rightarrow> string \<Rightarrow> wallet_error + string" where
  "as_uuid pg_uuid s t = (case pg_uuid t of Some u \<Rightarrow> Inr u | None \<Rightarrow> Inl (StmtFailed s ''invalid uuid''))"

lemma as_uuid_Inr [go_result]: "as_uuid pg_uuid s t = Inr u \<longleftrightarrow> pg_uuid t = Some u"
  by (auto simp: as_uuid_def split: option.splits)

text \<open>\<open>INSERT INTO billing.credit_ledger ... ON CONFLICT (idempotency_key) DO NOTHING\<close>.\<close>

definition ledger_keys :: "billing_db \<Rightarrow> string set" where
  "ledger_keys db = le_idempotency_key ` set (bd_ledger db)"

definition insert_ledger :: "ledger_entry \<Rightarrow> billing_db \<Rightarrow> billing_db" where
  "insert_ledger e db =
     (if le_idempotency_key e \<in> ledger_keys db then db else db\<lparr>bd_ledger := bd_ledger db @ [e]\<rparr>)"

text \<open>The sums the transactions read, \<open>u\<close> the organization.\<close>

definition ledger_sum :: "string \<Rightarrow> billing_db \<Rightarrow> int" where
  "ledger_sum u db = (\<Sum>e \<leftarrow> filter (\<lambda>e. le_organization_id e = u) (bd_ledger db). le_amount_micros e)"

definition grant_sum :: "string \<Rightarrow> billing_db \<Rightarrow> int" where
  "grant_sum u db =
     (\<Sum>e \<leftarrow> filter (\<lambda>e. le_organization_id e = u \<and> le_entry_type e = EntryGrant) (bd_ledger db).
        le_amount_micros e)"

definition metered_total :: "string \<Rightarrow> string \<Rightarrow> meter_watermark list \<Rightarrow> int" where
  "metered_total u metric ms =
     (\<Sum>m \<leftarrow> filter (\<lambda>m. mw_organization_id m = u \<and> mw_metric_type m = metric) ms. mw_total_value m)"

definition held_sum :: "string \<Rightarrow> credit_hold list \<Rightarrow> int" where
  "held_sum u hs =
     (\<Sum>h \<leftarrow> filter (\<lambda>h. ch_organization_id h = u \<and> ch_state h = ''held'') hs. ch_amount_micros h)"

text \<open>The upserts of the watermark and of the cached balance.\<close>

definition seed_watermark :: "string \<Rightarrow> string \<Rightarrow> int \<Rightarrow> billing_db \<Rightarrow> billing_db" where
  "seed_watermark u metric n db =
     (if bd_debit_watermarks db (u, metric) = None
      then db\<lparr>bd_debit_watermarks := (bd_debit_watermarks db)((u, metric) \<mapsto> n)\<rparr> else db)"

definition advance_watermark :: "string \<Rightarrow> string \<Rightarrow> int \<Rightarrow> billing_db \<Rightarrow> billing_db" where
  "advance_watermark u metric n db = db\<lparr>bd_debit_watermarks := (bd_debit_watermarks db)((u, metric) \<mapsto> n)\<rparr>"

definition save_balance :: "string \<Rightarrow> int \<Rightarrow> billing_db \<Rightarrow> billing_db" where
  "save_balance u n db = db\<lparr>bd_balances := (bd_balances db)(u \<mapsto> n)\<rparr>"

text \<open>
  \<open>BeginTxx\<close> and \<open>Commit\<close> around a body, with the deferred rollback: an error at any point leaves the
  database as it was.
\<close>

definition transaction ::
    "faults \<Rightarrow> (billing_db \<Rightarrow> wallet_error + 'a \<times> billing_db) \<Rightarrow> billing_db \<Rightarrow> (wallet_error + 'a) \<times> billing_db"
where
  "transaction fl body db =
     (case exec fl StBegin (bind_result (body db) (\<lambda>(x, db'). exec fl StCommit (Inr (x, db')))) of
        Inl e \<Rightarrow> (Inl e, db)
      | Inr (x, db') \<Rightarrow> (Inr x, db'))"

lemma transaction_error: "transaction fl body db = (Inl e, db') \<Longrightarrow> db' = db"
  by (auto simp: transaction_def split: sum.splits)

lemma transaction_Inr:
  "transaction fl body db = (Inr x, db') \<longleftrightarrow> fl StBegin = None \<and> fl StCommit = None \<and> body db = Inr (x, db')"
  by (auto simp: transaction_def exec_def go_result split: sum.splits option.splits)

section \<open>The ledger as an append-only book\<close>

text \<open>
  What every client of the ledger uses: a key is posted once, a posting changes a sum by its amount,
  and nothing else of the schema.
\<close>

locale ledger_book =
  fixes post :: "'e \<Rightarrow> 'db \<Rightarrow> 'db"
    and keys :: "'db \<Rightarrow> 'k set"
    and sum_of :: "('e \<Rightarrow> bool) \<Rightarrow> 'db \<Rightarrow> int"
    and key :: "'e \<Rightarrow> 'k"
    and amount :: "'e \<Rightarrow> int"
  assumes post_known: "key e \<in> keys db \<Longrightarrow> post e db = db"
    and post_keys: "keys (post e db) = insert (key e) (keys db)"
    and post_sum: "key e \<notin> keys db \<Longrightarrow> sum_of P (post e db) = sum_of P db + (if P e then amount e else 0)"
begin

lemma post_twice: "key e' = key e \<Longrightarrow> post e' (post e db) = post e db"
  by (simp add: post_known post_keys)

lemma post_sum_cases:
  "sum_of P (post e db) = sum_of P db + (if P e \<and> key e \<notin> keys db then amount e else 0)"
  by (cases "key e \<in> keys db") (simp_all add: post_known post_sum)

lemma post_other: "\<not> P e \<Longrightarrow> sum_of P (post e db) = sum_of P db"
  by (simp add: post_sum_cases)

lemma post_still_known: "k \<in> keys db \<Longrightarrow> k \<in> keys (post e db)"
  by (simp add: post_keys)

end

definition entry_sum :: "(ledger_entry \<Rightarrow> bool) \<Rightarrow> billing_db \<Rightarrow> int" where
  "entry_sum P db = (\<Sum>e \<leftarrow> filter P (bd_ledger db). le_amount_micros e)"

interpretation book: ledger_book insert_ledger ledger_keys entry_sum le_idempotency_key le_amount_micros
  by unfold_locales (auto simp: insert_ledger_def ledger_keys_def entry_sum_def)

lemma ledger_sum_entry: "ledger_sum u db = entry_sum (\<lambda>e. le_organization_id e = u) db"
  by (simp add: ledger_sum_def entry_sum_def)

lemma grant_sum_entry:
  "grant_sum u db = entry_sum (\<lambda>e. le_organization_id e = u \<and> le_entry_type e = EntryGrant) db"
  by (simp add: grant_sum_def entry_sum_def)

named_theorems wallet_frame "What the statements leave unchanged"

lemma insert_ledger_frame [wallet_frame, simp]:
  "bd_meters (insert_ledger e db) = bd_meters db"
  "bd_debit_watermarks (insert_ledger e db) = bd_debit_watermarks db"
  "bd_starter_baselines (insert_ledger e db) = bd_starter_baselines db"
  "bd_balances (insert_ledger e db) = bd_balances db"
  "bd_holds (insert_ledger e db) = bd_holds db"
  "bd_subscriptions (insert_ledger e db) = bd_subscriptions db"
  by (simp_all add: insert_ledger_def)

lemma watermark_frame [wallet_frame, simp]:
  "bd_ledger (seed_watermark u m n db) = bd_ledger db"
  "bd_meters (seed_watermark u m n db) = bd_meters db"
  "bd_starter_baselines (seed_watermark u m n db) = bd_starter_baselines db"
  "bd_holds (seed_watermark u m n db) = bd_holds db"
  "bd_subscriptions (seed_watermark u m n db) = bd_subscriptions db"
  "bd_ledger (advance_watermark u m n db) = bd_ledger db"
  "bd_meters (advance_watermark u m n db) = bd_meters db"
  "bd_starter_baselines (advance_watermark u m n db) = bd_starter_baselines db"
  "bd_holds (advance_watermark u m n db) = bd_holds db"
  "bd_subscriptions (advance_watermark u m n db) = bd_subscriptions db"
  by (simp_all add: seed_watermark_def advance_watermark_def)

lemma save_balance_frame [wallet_frame, simp]:
  "bd_ledger (save_balance u n db) = bd_ledger db"
  "bd_meters (save_balance u n db) = bd_meters db"
  "bd_debit_watermarks (save_balance u n db) = bd_debit_watermarks db"
  "bd_starter_baselines (save_balance u n db) = bd_starter_baselines db"
  "bd_holds (save_balance u n db) = bd_holds db"
  "bd_subscriptions (save_balance u n db) = bd_subscriptions db"
  by (simp_all add: save_balance_def)

lemma sums_of_ledger:
  "bd_ledger db' = bd_ledger db \<Longrightarrow> entry_sum P db' = entry_sum P db \<and> ledger_keys db' = ledger_keys db"
  by (simp add: entry_sum_def ledger_keys_def)

end
