(* ===== verification/WalletCredit.thy ===== *)
theory WalletCredit
  imports WalletStore
begin

text \<open>
  The signup credit and the sandbox gate (\<open>internal/billingcredit/credit.go\<close>): the amount of the
  credit, the transaction that grants it, debits the sandbox cost metered since the last time and
  recomputes the balance, and the access decision. The statements run under the organization's
  advisory lock, so a transaction is one atomic step.
\<close>

section \<open>The amount\<close>

text \<open>
  The plans file's \<open>StarterCreditUSD\<close>, \<open>None\<close> when the file does not load or has no sandbox pricing. A
  finite \<open>float64\<close> is the rational it denotes; \<open>rnd\<close> is the rounding of a result to \<open>float64\<close> and \<open>ovf\<close>
  the conversion of a float outside the \<open>int64\<close> range.
\<close>

datatype go_float = FloatNaN | FloatInf bool | FloatFinite rat

definition math_round :: "rat \<Rightarrow> rat" where
  "math_round x = (if x < 0 then - of_int \<lfloor>1 / 2 - x\<rfloor> else of_int \<lfloor>x + 1 / 2\<rfloor>)"

definition StarterCreditMicros :: "(rat \<Rightarrow> rat) \<Rightarrow> (rat \<Rightarrow> int) \<Rightarrow> go_float option \<Rightarrow> int" where
  "StarterCreditMicros rnd ovf cfg =
     (case cfg of
        Some (FloatFinite usd) \<Rightarrow>
          if usd \<le> 0 then 0 else float_to_int 64 ovf (math_round (rnd (usd * 1000000)))
      | _ \<Rightarrow> 0)"

lemma starter_credit_fails_closed:
  "StarterCreditMicros rnd ovf None = 0" "StarterCreditMicros rnd ovf (Some FloatNaN) = 0"
  "StarterCreditMicros rnd ovf (Some (FloatInf neg)) = 0"
  "usd \<le> 0 \<Longrightarrow> StarterCreditMicros rnd ovf (Some (FloatFinite usd)) = 0"
  by (simp_all add: StarterCreditMicros_def)

section \<open>The transaction\<close>

definition sandboxCostMetric :: string where
  "sandboxCostMetric = ''sandbox_compute_cost_micros''"

definition SignupGrantResourceType :: string where
  "SignupGrantResourceType = ''signup''"

definition sandboxResource :: string where
  "sandboxResource = ''sandbox''"

definition SignupGrantIdempotencyKey :: "string \<Rightarrow> string" where
  "SignupGrantIdempotencyKey organizationID = ''signup-grant:'' @ organizationID"

text \<open>
  The key of a sandbox debit is put together in SQL, where the parameter \<open>$1\<close> has the type \<open>uuid\<close>: it
  holds the canonical text, unlike the key of the grant, which Go builds from the text it was given.
\<close>

definition sandbox_debit_key :: "string \<Rightarrow> int \<Rightarrow> string" where
  "sandbox_debit_key u cumulative = ''sandbox-debit:'' @ u @ '':'' @ decimal cumulative"

record wallet_status =
  st_AmountMicros :: int
  st_UsedMicros :: int
  st_RemainingMicros :: int

definition grant_entry :: "string \<Rightarrow> string \<Rightarrow> int \<Rightarrow> ledger_entry" where
  "grant_entry org u grantMicros =
     \<lparr>le_organization_id = u, le_entry_type = EntryGrant, le_amount_micros = grantMicros,
      le_resource_type = SignupGrantResourceType, le_metric_type = None,
      le_idempotency_key = SignupGrantIdempotencyKey org, le_period = None\<rparr>"

definition sandbox_debit_entry :: "string \<Rightarrow> int \<Rightarrow> int \<Rightarrow> ledger_entry" where
  "sandbox_debit_entry u cumulative delta =
     \<lparr>le_organization_id = u, le_entry_type = EntryDebit, le_amount_micros = wrap64 (- delta),
      le_resource_type = sandboxResource, le_metric_type = Some sandboxCostMetric,
      le_idempotency_key = sandbox_debit_key u cumulative, le_period = None\<rparr>"

text \<open>The four parts of the body, numbered as in the code.\<close>

definition grant_signup ::
    "(string \<Rightarrow> string option) \<Rightarrow> faults \<Rightarrow> string \<Rightarrow> int \<Rightarrow> billing_db \<Rightarrow> wallet_error + string \<times> billing_db"
where
  "grant_signup pg_uuid fl org grantMicros db =
     exec fl StGrant (bind_result (as_uuid pg_uuid StGrant org) (\<lambda>u.
       Inr (u, insert_ledger (grant_entry org u grantMicros) db)))"

definition billed_or_seed ::
    "faults \<Rightarrow> string \<Rightarrow> int \<Rightarrow> billing_db \<Rightarrow> wallet_error + int \<times> billing_db" where
  "billed_or_seed fl u cumulative db =
     exec fl StReadBilled
       (case bd_debit_watermarks db (u, sandboxCostMetric) of
          Some billed \<Rightarrow> bind_result (bigint StReadBilled billed) (\<lambda>billed. Inr (billed, db))
        | None \<Rightarrow>
            exec fl StReadBaseline (bind_result
              (bigint StReadBaseline
                (case bd_starter_baselines db u of Some b \<Rightarrow> b | None \<Rightarrow> cumulative)) (\<lambda>billed.
            exec fl StSeed (Inr (billed, seed_watermark u sandboxCostMetric billed db)))))"

definition debit_sandbox ::
    "faults \<Rightarrow> string \<Rightarrow> int \<Rightarrow> int \<Rightarrow> billing_db \<Rightarrow> wallet_error + billing_db" where
  "debit_sandbox fl u cumulative billed db =
     (let delta = wrap64 (cumulative - billed) in
      if delta > 0 then
        exec fl StDebit (let db = insert_ledger (sandbox_debit_entry u cumulative delta) db in
        exec fl StAdvance (Inr (advance_watermark u sandboxCostMetric cumulative db)))
      else Inr db)"

definition recompute_balance :: "faults \<Rightarrow> string \<Rightarrow> billing_db \<Rightarrow> wallet_error + int \<times> billing_db" where
  "recompute_balance fl u db =
     exec fl StSumLedger (bind_result (bigint StSumLedger (ledger_sum u db)) (\<lambda>balance.
     exec fl StSaveBalance (Inr (balance, save_balance u balance db))))"

definition wallet_body ::
    "(string \<Rightarrow> string option) \<Rightarrow> faults \<Rightarrow> string \<Rightarrow> int \<Rightarrow> billing_db \<Rightarrow> wallet_error + wallet_status \<times> billing_db"
where
  "wallet_body pg_uuid fl org grantMicros db =
     exec fl StLock (bind_result (grant_signup pg_uuid fl org grantMicros db) (\<lambda>(u, db).
     exec fl StReadCumulative
       (bind_result (bigint StReadCumulative (metered_total u sandboxCostMetric (bd_meters db))) (\<lambda>cumulative.
     bind_result (billed_or_seed fl u cumulative db) (\<lambda>(billed, db).
     bind_result (debit_sandbox fl u cumulative billed db) (\<lambda>db.
     exec fl StSumGrants (bind_result (bigint StSumGrants (grant_sum u db)) (\<lambda>granted.
     bind_result (recompute_balance fl u db) (\<lambda>(balance, db).
     exec fl StSumHolds (bind_result (bigint StSumHolds (held_sum u (bd_holds db))) (\<lambda>held.
       let available = wrap64 (balance - held);
           used = wrap64 (granted - available);
           used = (if used < 0 then 0 else used)
       in Inr (\<lparr>st_AmountMicros = granted, st_UsedMicros = used, st_RemainingMicros = available\<rparr>, db))))))))))))"

definition resolveWalletCredit ::
    "(string \<Rightarrow> string option) \<Rightarrow> faults \<Rightarrow> string \<Rightarrow> int \<Rightarrow> billing_db \<Rightarrow> (wallet_error + wallet_status) \<times> billing_db"
where
  "resolveWalletCredit pg_uuid fl org grantMicros db =
     (if grantMicros \<le> 0 then (Inl CreditNotConfigured, db)
      else transaction fl (wallet_body pg_uuid fl org grantMicros) db)"

section \<open>The access decision\<close>

record access =
  ac_Allowed :: bool
  ac_BillingConfigured :: bool
  ac_BillingActive :: bool
  ac_Credit :: wallet_status

definition zero_status :: wallet_status where
  "zero_status = \<lparr>st_AmountMicros = 0, st_UsedMicros = 0, st_RemainingMicros = 0\<rparr>"

definition subscription_active :: "subscription \<Rightarrow> bool" where
  "subscription_active s \<longleftrightarrow>
     (EqualFold (sub_status s) ''active'' \<or> EqualFold (sub_status s) ''trialing'') \<and>
     TrimSpace (sub_stripe_customer_id s) \<noteq> [] \<and> TrimSpace (sub_stripe_subscription_id s) \<noteq> []"

definition enterprise_tier :: "string \<Rightarrow> bool" where
  "enterprise_tier tier \<longleftrightarrow> EqualFold (TrimSpace tier) ''enterprise''"

text \<open>\<open>starter\<close> is the value of \<open>StarterCreditMicros\<close>.\<close>

definition Resolve_access ::
    "(string \<Rightarrow> string option) \<Rightarrow> int \<Rightarrow> faults \<Rightarrow> string \<Rightarrow> string \<Rightarrow> billing_db \<Rightarrow>
       (wallet_error + access) \<times> billing_db"
where
  "Resolve_access pg_uuid starter fl org tier db =
     (if fl StHandle \<noteq> None \<or> TrimSpace org = [] then (Inl MissingInput, db)
      else if enterprise_tier tier then
        (Inr \<lparr>ac_Allowed = True, ac_BillingConfigured = False, ac_BillingActive = False,
              ac_Credit = zero_status\<rparr>, db)
      else case bd_subscriptions db org of
        Inr (Some s) \<Rightarrow>
          (let active = subscription_active s in
           (Inr \<lparr>ac_Allowed = active, ac_BillingConfigured = True, ac_BillingActive = active,
                 ac_Credit = zero_status\<rparr>, db))
      | Inl e \<Rightarrow> (Inl (SubscriptionLookup e), db)
      | Inr None \<Rightarrow>
          (case resolveWalletCredit pg_uuid fl org starter db of
             (Inl e, db) \<Rightarrow> (Inl e, db)
           | (Inr credit, db) \<Rightarrow>
               (Inr \<lparr>ac_Allowed = (st_RemainingMicros credit > 0), ac_BillingConfigured = False,
                     ac_BillingActive = False, ac_Credit = credit\<rparr>, db)))"

end
