(* ===== verification/WalletMeter.thy ===== *)
theory WalletMeter
  imports WalletCredit
begin

text \<open>
  What an inference request costs its organization: the debit transaction
  (\<open>internal/billingmeter/meter.go\<close>) and the meter of one request
  (\<open>internal/api/grpc/gateway/v1/inference_meter.go\<close>), which adds up the attempts served with a platform
  key, observes the ones that are not billed, and settles once at the end.
\<close>

section \<open>The debit\<close>

definition inferenceResource :: string where
  "inferenceResource = ''inference''"

definition MetricChat :: string where
  "MetricChat = ''chat''"

text \<open>
  \<open>now\<close> is the year and month of the instant in UTC; the period runs from the first of that month to
  the first of the next, \<open>AddDate(0, 1, 0)\<close>.
\<close>

definition next_month :: "int \<times> int \<Rightarrow> int \<times> int" where
  "next_month ym = (case ym of (y, m) \<Rightarrow> if m = 12 then (y + 1, 1) else (y, m + 1))"

definition inference_key :: "string \<Rightarrow> string" where
  "inference_key requestID = ''inference:'' @ requestID"

definition inference_entry :: "string \<Rightarrow> string \<Rightarrow> string \<Rightarrow> int \<Rightarrow> int \<times> int \<Rightarrow> ledger_entry" where
  "inference_entry u requestID modality costMicros now =
     \<lparr>le_organization_id = u, le_entry_type = EntryDebit, le_amount_micros = wrap64 (- costMicros),
      le_resource_type = inferenceResource, le_metric_type = Some modality,
      le_idempotency_key = inference_key requestID, le_period = Some (now, next_month now)\<rparr>"

definition debit_body ::
    "(string \<Rightarrow> string option) \<Rightarrow> faults \<Rightarrow> string \<Rightarrow> string \<Rightarrow> string \<Rightarrow> int \<Rightarrow> int \<times> int \<Rightarrow> billing_db \<Rightarrow>
       wallet_error + unit \<times> billing_db"
where
  "debit_body pg_uuid fl orgID requestID modality costMicros now db =
     exec fl StLock (exec fl StDebit (bind_result (as_uuid pg_uuid StDebit orgID) (\<lambda>u.
     bind_result
       (recompute_balance fl u (insert_ledger (inference_entry u requestID modality costMicros now) db))
       (\<lambda>(_, db). Inr ((), db)))))"

definition DebitInference ::
    "(string \<Rightarrow> string option) \<Rightarrow> faults \<Rightarrow> string \<Rightarrow> string \<Rightarrow> string \<Rightarrow> int \<Rightarrow> int \<times> int \<Rightarrow> billing_db \<Rightarrow>
       (wallet_error + unit) \<times> billing_db"
where
  "DebitInference pg_uuid fl orgID requestID modality costMicros now db =
     (let orgID = TrimSpace orgID; requestID = TrimSpace requestID in
      if orgID = [] \<or> requestID = [] then (Inl MissingInput, db)
      else if costMicros \<le> 0 then (Inr (), db)
      else if fl StHandle \<noteq> None then (Inl (StmtFailed StHandle ''nil billing database''), db)
      else
        let modality = (if TrimSpace modality = [] then MetricChat else modality) in
        transaction fl (debit_body pg_uuid fl orgID requestID modality costMicros now) db)"

section \<open>The meter of a request\<close>

definition platformKeySource :: string where
  "platformKeySource = ''config''"

definition shadowCanceled :: string where
  "shadowCanceled = ''canceled_before_settle''"

text \<open>
  The buckets of unbilled cost, a Go map from reason to count and cost. The nil receiver, on which
  every method does nothing, is \<open>None\<close>.
\<close>

record inferenceMeter =
  im_org :: string
  im_reqID :: string
  im_modality :: string
  im_markup :: rat
  im_micros :: int
  im_shadow :: "(string \<times> int \<times> int) list"

text \<open>
  \<open>idb\<close> is the billing database of the request's context, \<open>None\<close> without one; \<open>cfg\<close> is the
  inference markup of the plans file, if it loads and has one.
\<close>

definition resolveMeterOrg :: "identity_db option \<Rightarrow> string \<Rightarrow> string option" where
  "resolveMeterOrg idb tenantID =
     (case idb of
        None \<Rightarrow> None
      | Some _ \<Rightarrow> (case ResolveOrg idb tenantID of
                    Some org \<Rightarrow> if org = [] then None else Some org
                  | None \<Rightarrow> None))"

definition inference_markup :: "rat option \<Rightarrow> rat" where
  "inference_markup cfg = (case cfg of Some k \<Rightarrow> if k > 0 then k else 1 | None \<Rightarrow> 1)"

definition newInferenceMeter ::
    "rat option \<Rightarrow> identity_db option \<Rightarrow> string \<Rightarrow> string \<Rightarrow> inferenceMeter option" where
  "newInferenceMeter cfg idb tenantID reqID =
     (case resolveMeterOrg idb tenantID of
        None \<Rightarrow> None
      | Some org \<Rightarrow>
          if reqID = [] then None
          else Some \<lparr>im_org = org, im_reqID = reqID, im_modality = MetricChat,
                     im_markup = inference_markup cfg, im_micros = 0, im_shadow = []\<rparr>)"

text \<open>
  \<open>int64(estimatedUSD*m.markup*1_000_000 + 0.5)\<close>: \<open>scaled\<close> is the value of the \<open>float64\<close> expression,
  whose operations Go may fuse, and \<open>ovf\<close> the conversion outside the range.
\<close>

definition usd_micros :: "(rat \<Rightarrow> rat \<Rightarrow> rat) \<Rightarrow> (rat \<Rightarrow> int) \<Rightarrow> rat \<Rightarrow> rat \<Rightarrow> int" where
  "usd_micros scaled ovf markup usd = float_to_int 64 ovf (scaled usd markup)"

definition record_attempt ::
    "(rat \<Rightarrow> rat \<Rightarrow> int) \<Rightarrow> string \<Rightarrow> rat \<Rightarrow> inferenceMeter option \<Rightarrow> inferenceMeter option" where
  "record_attempt micros keySource usd mo =
     (case mo of
        None \<Rightarrow> None
      | Some m \<Rightarrow>
          if keySource \<noteq> platformKeySource \<or> usd \<le> 0 then Some m
          else Some (m\<lparr>im_micros := wrap64 (im_micros m + micros (im_markup m) usd)\<rparr>))"

fun add_shadow :: "string \<Rightarrow> int \<Rightarrow> (string \<times> int \<times> int) list \<Rightarrow> (string \<times> int \<times> int) list" where
  "add_shadow reason c [] = [(reason, 1, c)]"
| "add_shadow reason c ((r, n, k) # bs) =
     (if r = reason then (r, wrap64 (n + 1), wrap64 (k + c)) # bs else (r, n, k) # add_shadow reason c bs)"

definition recordShadow ::
    "(rat \<Rightarrow> rat \<Rightarrow> int) \<Rightarrow> string \<Rightarrow> string \<Rightarrow> rat \<Rightarrow> inferenceMeter option \<Rightarrow> inferenceMeter option" where
  "recordShadow micros reason keySource usd mo =
     (case mo of
        None \<Rightarrow> None
      | Some m \<Rightarrow>
          if reason = [] \<or> keySource \<noteq> platformKeySource \<or> usd < 0 then Some m
          else Some (m\<lparr>im_shadow :=
                 add_shadow reason (if usd > 0 then micros (im_markup m) usd else 0) (im_shadow m)\<rparr>))"

record shadow_report =
  sr_billed :: int
  sr_shadow_total :: int
  sr_canceled :: bool
  sr_lines :: "(string \<times> int \<times> int) list"

text \<open>
  \<open>settle\<close>: the debit, whose error is only logged, then the report of what was not billed, if there is
  anything to report. \<open>canceled\<close> is \<open>parent.Err() == context.Canceled\<close>.
\<close>

definition settle ::
    "(string \<Rightarrow> string option) \<Rightarrow> faults \<Rightarrow> int \<times> int \<Rightarrow> bool \<Rightarrow> inferenceMeter option \<Rightarrow> billing_db \<Rightarrow>
       shadow_report option \<times> inferenceMeter option \<times> billing_db"
where
  "settle pg_uuid fl now canceled mo db =
     (case mo of
        None \<Rightarrow> (None, None, db)
      | Some m \<Rightarrow>
          let db = (if im_micros m > 0
                    then snd (DebitInference pg_uuid fl (im_org m) (im_reqID m) (im_modality m) (im_micros m) now db)
                    else db);
              m = (if canceled \<and> im_micros m = 0 \<and> im_shadow m = []
                   then m\<lparr>im_shadow := [(shadowCanceled, 1, 0)]\<rparr> else m)
          in if im_shadow m = [] then (None, Some m, db)
             else (Some \<lparr>sr_billed = im_micros m,
                         sr_shadow_total = wrap64 (\<Sum>(r, n, c) \<leftarrow> im_shadow m. c),
                         sr_canceled = canceled, sr_lines = im_shadow m\<rparr>, Some m, db))"

text \<open>A request makes any sequence of these calls before it settles.\<close>

datatype meter_call = RecordCall string rat | ShadowCall string string rat

fun meter_step :: "(rat \<Rightarrow> rat \<Rightarrow> int) \<Rightarrow> meter_call \<Rightarrow> inferenceMeter option \<Rightarrow> inferenceMeter option" where
  "meter_step micros (RecordCall ks usd) = record_attempt micros ks usd"
| "meter_step micros (ShadowCall reason ks usd) = recordShadow micros reason ks usd"

section \<open>What a request is billed\<close>

text \<open>The cost of a call: catalog times markup for a recorded platform attempt, nothing otherwise.\<close>

fun billable :: "(rat \<Rightarrow> rat \<Rightarrow> int) \<Rightarrow> rat \<Rightarrow> meter_call \<Rightarrow> int" where
  "billable micros markup (RecordCall ks usd) =
     (if ks = platformKeySource \<and> usd > 0 then micros markup usd else 0)"
| "billable micros markup (ShadowCall reason ks usd) = 0"

lemma wrap64_add [simp]: "wrap64 (wrap64 a + b) = wrap64 (a + b)"
proof -
  have "wrap64 (wrap64 a + b) = ((a + 2 ^ 63) mod 2 ^ 64 + b) mod 2 ^ 64 - 2 ^ 63"
    by (simp add: wrap64_def)
  also have "\<dots> = wrap64 (a + b)"
    by (simp only: mod_add_left_eq) (simp add: wrap64_def algebra_simps)
  finally show ?thesis .
qed

lemma meter_calls:
  "fold (meter_step micros) cs (Some m) = Some m' \<Longrightarrow>
     im_org m' = im_org m \<and> im_reqID m' = im_reqID m \<and> im_modality m' = im_modality m \<and>
     im_markup m' = im_markup m \<and>
     wrap64 (im_micros m') = wrap64 (im_micros m + (\<Sum>c \<leftarrow> cs. billable micros (im_markup m) c))"
proof (induction cs arbitrary: m)
  case (Cons c cs)
  have "\<exists>m1. meter_step micros c (Some m) = Some m1"
    by (cases c) (auto simp: record_attempt_def recordShadow_def)
  then obtain m1 where m1: "meter_step micros c (Some m) = Some m1" ..
  have step: "im_org m1 = im_org m" "im_reqID m1 = im_reqID m" "im_modality m1 = im_modality m"
    "im_markup m1 = im_markup m" "wrap64 (im_micros m1 + x) = wrap64 (im_micros m + billable micros (im_markup m) c + x)" for x
    using m1 by (cases c; auto simp: record_attempt_def recordShadow_def split: if_splits)+
  from Cons.prems m1 have "fold (meter_step micros) cs (Some m1) = Some m'" by simp
  from Cons.IH [OF this] step show ?case by (simp add: add.assoc)
qed simp

lemma meter_calls_range:
  "fold (meter_step micros) cs (Some m) = Some m' \<Longrightarrow> in_int64 (im_micros m) \<Longrightarrow> in_int64 (im_micros m')"
proof (induction cs arbitrary: m)
  case (Cons c cs)
  have "\<exists>m1. meter_step micros c (Some m) = Some m1 \<and> in_int64 (im_micros m1)"
    using Cons.prems(2) by (cases c) (auto simp: record_attempt_def recordShadow_def in_int64_wrap64)
  with Cons show ?case by auto
qed simp

end
