(* ===== verification/WalletSystem.thy ===== *)
theory WalletSystem
  imports WalletMeter
begin

text \<open>
  The wallet of an organization as a number. The specification knows no ledger, no keys and no
  watermark: an account with its grant, the sandbox cost at enrolment and the sandbox cost billed so
  far, and the list of the requests charged. Any sequence of gate checks and inference debits, failing
  ones included, interleaved with the other writers of the billing schema, keeps the ledger and that
  account in agreement.
\<close>

section \<open>Events\<close>

text \<open>
  \<open>EvTables\<close> is what others do to the tables the gateway only reads (meters, legacy baselines, holds,
  subscriptions); \<open>EvPost\<close> is an entry another service posts to the ledger, under a key of its own.
\<close>

datatype wallet_event =
    EvResolve faults string string
  | EvDebit faults string string string int "int \<times> int"
  | EvTables "meter_watermark list" "string \<rightharpoonup> int" "credit_hold list" "string \<Rightarrow> string + subscription option"
  | EvPost ledger_entry

fun wallet_event_step ::
    "(string \<Rightarrow> string option) \<Rightarrow> int \<Rightarrow> wallet_event \<Rightarrow> billing_db \<Rightarrow> bool \<times> billing_db" where
  "wallet_event_step pg_uuid starter (EvResolve fl org tier) db =
     map_prod (\<lambda>r. \<not> isl r) id (Resolve_access pg_uuid starter fl org tier db)"
| "wallet_event_step pg_uuid starter (EvDebit fl org req modality cost now) db =
     map_prod (\<lambda>r. \<not> isl r) id (DebitInference pg_uuid fl org req modality cost now db)"
| "wallet_event_step pg_uuid starter (EvTables ms bs hs ss) db =
     (True, db\<lparr>bd_meters := ms, bd_starter_baselines := bs, bd_holds := hs, bd_subscriptions := ss\<rparr>)"
| "wallet_event_step pg_uuid starter (EvPost e) db = (True, insert_ledger e db)"

section \<open>The specification\<close>

record account =
  wa_grant :: int
  wa_baseline :: int
  wa_billed :: int

record wallet =
  w_accounts :: "string \<rightharpoonup> account"
  w_charges :: "(string \<times> string \<times> int) list"
  w_posted :: "ledger_entry list"
  w_meters :: "meter_watermark list"
  w_baselines :: "string \<rightharpoonup> int"
  w_subscriptions :: "string \<Rightarrow> string + subscription option"

definition settle_account :: "int \<Rightarrow> int \<Rightarrow> int option \<Rightarrow> account option \<Rightarrow> account" where
  "settle_account g cumulative baseline ao =
     (case ao of
        Some a \<Rightarrow> a\<lparr>wa_billed := max (wa_billed a) cumulative\<rparr>
      | None \<Rightarrow> (let b = (case baseline of Some b \<Rightarrow> b | None \<Rightarrow> cumulative)
                 in \<lparr>wa_grant = g, wa_baseline = b, wa_billed = max b cumulative\<rparr>))"

fun wallet_spec :: "int \<Rightarrow> wallet_event \<Rightarrow> wallet \<Rightarrow> wallet" where
  "wallet_spec starter (EvResolve fl org tier) w =
     (if enterprise_tier tier \<or> w_subscriptions w org \<noteq> Inr None then w
      else w\<lparr>w_accounts := (w_accounts w)(org \<mapsto>
             settle_account starter (metered_total org sandboxCostMetric (w_meters w)) (w_baselines w org)
               (w_accounts w org))\<rparr>)"
| "wallet_spec starter (EvDebit fl org req modality cost now) w =
     (if cost \<le> 0 \<or> TrimSpace req \<in> fst ` set (w_charges w) then w
      else w\<lparr>w_charges := w_charges w @ [(TrimSpace req, TrimSpace org, cost)]\<rparr>)"
| "wallet_spec starter (EvTables ms bs hs ss) w = w\<lparr>w_meters := ms, w_baselines := bs, w_subscriptions := ss\<rparr>"
| "wallet_spec starter (EvPost e) w =
     (if le_idempotency_key e \<in> le_idempotency_key ` set (w_posted w) then w
      else w\<lparr>w_posted := w_posted w @ [e]\<rparr>)"

definition charged :: "string \<Rightarrow> wallet \<Rightarrow> int" where
  "charged u w = (\<Sum>(r, o', c) \<leftarrow> w_charges w. if o' = u then c else 0)"

definition posted :: "(ledger_entry \<Rightarrow> bool) \<Rightarrow> wallet \<Rightarrow> int" where
  "posted P w = (\<Sum>e \<leftarrow> filter P (w_posted w). le_amount_micros e)"

definition granted_to :: "string \<Rightarrow> wallet \<Rightarrow> int" where
  "granted_to u w = (case w_accounts w u of Some a \<Rightarrow> wa_grant a | None \<Rightarrow> 0)"

definition sandbox_spent :: "string \<Rightarrow> wallet \<Rightarrow> int" where
  "sandbox_spent u w = (case w_accounts w u of Some a \<Rightarrow> wa_billed a - wa_baseline a | None \<Rightarrow> 0)"

definition wallet_balance :: "string \<Rightarrow> wallet \<Rightarrow> int" where
  "wallet_balance u w =
     granted_to u w - sandbox_spent u w - charged u w + posted (\<lambda>e. le_organization_id e = u) w"

text \<open>Both run in step; the specification takes the steps that committed.\<close>

definition wallet_step ::
    "(string \<Rightarrow> string option) \<Rightarrow> int \<Rightarrow> wallet_event \<Rightarrow> billing_db \<times> wallet \<Rightarrow> billing_db \<times> wallet" where
  "wallet_step pg_uuid starter ev s =
     (case s of (db, w) \<Rightarrow>
       (case wallet_event_step pg_uuid starter ev db of
          (ok, db') \<Rightarrow> (db', if ok then wallet_spec starter ev w else w)))"

definition empty_billing_db :: billing_db where
  "empty_billing_db =
     \<lparr>bd_ledger = [], bd_meters = [], bd_debit_watermarks = Map.empty, bd_starter_baselines = Map.empty,
      bd_balances = Map.empty, bd_holds = [], bd_subscriptions = (\<lambda>_. Inr None)\<rparr>"

definition empty_wallet :: wallet where
  "empty_wallet =
     \<lparr>w_accounts = Map.empty, w_charges = [], w_posted = [], w_meters = [], w_baselines = Map.empty,
      w_subscriptions = (\<lambda>_. Inr None)\<rparr>"

definition wallet_run ::
    "(string \<Rightarrow> string option) \<Rightarrow> int \<Rightarrow> wallet_event list \<Rightarrow> billing_db \<times> wallet" where
  "wallet_run pg_uuid starter es = fold (wallet_step pg_uuid starter) es (empty_billing_db, empty_wallet)"

section \<open>Keys\<close>

datatype key_class = KeySignup | KeySandbox | KeyInference | KeyOther

definition key_class :: "string \<Rightarrow> key_class" where
  "key_class k =
     (if has_prefix k ''signup-grant:'' then KeySignup
      else if has_prefix k ''sandbox-debit:'' then KeySandbox
      else if has_prefix k ''inference:'' then KeyInference
      else KeyOther)"

lemma key_classes [simp]:
  "key_class (SignupGrantIdempotencyKey u) = KeySignup"
  "key_class (sandbox_debit_key u n) = KeySandbox"
  "key_class (inference_key r) = KeyInference"
  by (simp_all add: key_class_def has_prefix_def SignupGrantIdempotencyKey_def sandbox_debit_key_def
      inference_key_def)

text \<open>
  The assumptions on the events: organizations come by their canonical id, a cost is an \<open>int64\<close>, a
  metered total and a baseline are not negative, and other services use keys of their own.
\<close>

fun event_ok :: "(string \<Rightarrow> string option) \<Rightarrow> wallet_event \<Rightarrow> bool" where
  "event_ok pg_uuid (EvResolve fl org tier) \<longleftrightarrow> pg_uuid org = Some org"
| "event_ok pg_uuid (EvDebit fl org req modality cost now) \<longleftrightarrow>
     pg_uuid (TrimSpace org) = Some (TrimSpace org) \<and> in_int64 cost"
| "event_ok pg_uuid (EvTables ms bs hs ss) \<longleftrightarrow>
     (\<forall>m \<in> set ms. 0 \<le> mw_total_value m) \<and> (\<forall>u b. bs u = Some b \<longrightarrow> 0 \<le> b)"
| "event_ok pg_uuid (EvPost e) \<longleftrightarrow> key_class (le_idempotency_key e) = KeyOther"

text \<open>A sandbox debit's key tells the organization and the total apart: a number has no colon.\<close>

lemma decimal_no_colon: "CHR '':'' \<notin> set (decimal i)"
proof -
  have "CHR '':'' \<notin> set (decimal_nat n)" for n
  proof
    assume "CHR '':'' \<in> set (decimal_nat n)"
    then obtain k :: nat where "k < 10" "CHR '':'' = char_of (48 + k)" using decimal_nat_digits by blast
    then have "of_char (CHR '':'') = (48 + k :: nat)" by simp
    with \<open>k < 10\<close> show False by simp
  qed
  then show ?thesis by (simp add: decimal_def)
qed

lemma decimal_inject: "0 \<le> m \<Longrightarrow> 0 \<le> n \<Longrightarrow> decimal m = decimal n \<longleftrightarrow> m = n"
  by (auto simp: decimal_def decimal_nat_inject)

lemma sandbox_key_inject:
  assumes "sandbox_debit_key u m = sandbox_debit_key v n" "0 \<le> m" "0 \<le> n"
  shows "u = v \<and> m = n"
proof -
  from assms(1) have eq: "u @ CHR '':'' # decimal m = v @ CHR '':'' # decimal n"
    by (simp add: sandbox_debit_key_def)
  have "last_index_byte CHR '':'' (u @ CHR '':'' # decimal m) = Some (length u)"
    "last_index_byte CHR '':'' (v @ CHR '':'' # decimal n) = Some (length v)"
    by (simp_all only: last_index_byte_append decimal_no_colon not_False_eq_True)
  with eq have "length u = length v" by simp
  with eq have "u = v" "decimal m = decimal n" by (simp_all add: append_eq_append_conv)
  with assms(2,3) show ?thesis by (simp add: decimal_inject)
qed

end
