(* ===== verification/WalletRefinement.thy ===== *)
theory WalletRefinement
  imports WalletSystem
begin

text \<open>
  The transactions implement the specification: the relation between the billing schema and the
  account, that every event keeps it, and what the gate answers in terms of the account.
\<close>

section \<open>The effect of a committed transaction\<close>

definition read_billed :: "string \<Rightarrow> int \<Rightarrow> billing_db \<Rightarrow> int" where
  "read_billed u cumulative db =
     (case bd_debit_watermarks db (u, sandboxCostMetric) of
        Some billed \<Rightarrow> billed
      | None \<Rightarrow> (case bd_starter_baselines db u of Some b \<Rightarrow> b | None \<Rightarrow> cumulative))"

definition settled_ledger :: "string \<Rightarrow> string \<Rightarrow> int \<Rightarrow> billing_db \<Rightarrow> billing_db" where
  "settled_ledger org u g db =
     (let cumulative = metered_total u sandboxCostMetric (bd_meters db);
          billed = read_billed u cumulative db;
          db = seed_watermark u sandboxCostMetric billed (insert_ledger (grant_entry org u g) db)
      in if wrap64 (cumulative - billed) > 0
         then advance_watermark u sandboxCostMetric cumulative
                (insert_ledger (sandbox_debit_entry u cumulative (wrap64 (cumulative - billed))) db)
         else db)"

definition settled_status :: "string \<Rightarrow> billing_db \<Rightarrow> wallet_status" where
  "settled_status u db =
     (let available = wrap64 (ledger_sum u db - held_sum u (bd_holds db));
          used = wrap64 (grant_sum u db - available)
      in \<lparr>st_AmountMicros = grant_sum u db, st_UsedMicros = (if used < 0 then 0 else used),
          st_RemainingMicros = available\<rparr>)"

definition readable_figures :: "string \<Rightarrow> string \<Rightarrow> int \<Rightarrow> billing_db \<Rightarrow> bool" where
  "readable_figures org u g db \<longleftrightarrow>
     (let cumulative = metered_total u sandboxCostMetric (bd_meters db); db' = settled_ledger org u g db
      in in_int64 cumulative \<and> in_int64 (read_billed u cumulative db) \<and>
         in_int64 (grant_sum u db') \<and> in_int64 (ledger_sum u db') \<and> in_int64 (held_sum u (bd_holds db)))"

lemma sums_save_balance [simp]:
  "ledger_sum u (save_balance v n db) = ledger_sum u db" "grant_sum u (save_balance v n db) = grant_sum u db"
  "ledger_keys (save_balance v n db) = ledger_keys db" "entry_sum P (save_balance v n db) = entry_sum P db"
  by (simp_all add: ledger_sum_def grant_sum_def ledger_keys_def entry_sum_def)

lemma seed_known:
  "bd_debit_watermarks db (u, m) = Some b \<Longrightarrow> seed_watermark u m n db = db"
  by (simp add: seed_watermark_def)

lemma wallet_body_committed:
  assumes "wallet_body pg_uuid fl org g db = Inr (st, db')" "pg_uuid org = Some u"
  shows "db' = save_balance u (ledger_sum u (settled_ledger org u g db)) (settled_ledger org u g db) \<and>
    st = settled_status u (settled_ledger org u g db) \<and> readable_figures org u g db"
  using assms
  by (auto simp: wallet_body_def grant_signup_def billed_or_seed_def debit_sandbox_def recompute_balance_def
      go_result settled_ledger_def settled_status_def readable_figures_def read_billed_def Let_def seed_known
      split: option.splits if_splits)

lemma wallet_body_commits:
  assumes "pg_uuid org = Some u" "readable_figures org u g db"
  shows "\<exists>st db'. wallet_body pg_uuid no_faults org g db = Inr (st, db')"
proof -
  let ?cum = "metered_total u sandboxCostMetric (bd_meters db)"
  let ?db1 = "insert_ledger (grant_entry org u g) db"
  let ?b = "read_billed u ?cum db"
  let ?db2 = "seed_watermark u sandboxCostMetric ?b ?db1"
  have fig: "in_int64 ?cum" "in_int64 ?b" "in_int64 (grant_sum u (settled_ledger org u g db))"
    "in_int64 (ledger_sum u (settled_ledger org u g db))" "in_int64 (held_sum u (bd_holds db))"
    using assms(2) by (simp_all add: readable_figures_def Let_def)
  have "grant_signup pg_uuid no_faults org g db = Inr (u, ?db1)"
    using assms(1) by (simp add: grant_signup_def as_uuid_def)
  moreover have "billed_or_seed no_faults u ?cum ?db1 = Inr (?b, ?db2)"
    using fig(2) by (auto simp: billed_or_seed_def read_billed_def bigint_def seed_known split: option.splits)
  moreover have "debit_sandbox no_faults u ?cum ?b ?db2 = Inr (settled_ledger org u g db)"
    by (simp add: debit_sandbox_def settled_ledger_def Let_def)
  moreover have "bd_holds (settled_ledger org u g db) = bd_holds db"
    by (simp add: settled_ledger_def Let_def)
  ultimately show ?thesis
    using fig by (simp add: wallet_body_def recompute_balance_def bigint_def Let_def)
qed

lemma resolve_changes:
  assumes "Resolve_access pg_uuid g fl org tier db = (r, db')"
  shows "(db' = db \<and> (isl r \<or> enterprise_tier tier \<or> bd_subscriptions db org \<noteq> Inr None)) \<or>
    (\<exists>st. \<not> isl r \<and> \<not> enterprise_tier tier \<and> bd_subscriptions db org = Inr None \<and> 0 < g \<and>
       wallet_body pg_uuid fl org g db = Inr (st, db'))"
proof (cases "resolveWalletCredit pg_uuid fl org g db")
  case (Pair q db1)
  show ?thesis
  proof (cases q)
    case (Inl e)
    with Pair have "db1 = db"
      by (auto simp: resolveWalletCredit_def dest: transaction_error split: if_splits)
    with Pair Inl assms show ?thesis
      by (auto simp: Resolve_access_def Let_def split: if_splits sum.splits option.splits)
  next
    case (Inr st)
    with Pair have "0 < g" "wallet_body pg_uuid fl org g db = Inr (st, db1)"
      by (auto simp: resolveWalletCredit_def transaction_Inr split: if_splits)
    with Pair Inr assms show ?thesis
      by (auto simp: Resolve_access_def Let_def split: if_splits sum.splits option.splits)
  qed
qed

lemma debit_changes:
  assumes "DebitInference pg_uuid fl org req modality cost now db = (r, db')"
    "pg_uuid (TrimSpace org) = Some u"
  shows "(db' = db \<and> (isl r \<or> cost \<le> 0)) \<or>
    (\<not> isl r \<and> cost > 0 \<and> (\<exists>md. let db1 = insert_ledger (inference_entry u (TrimSpace req) md cost now) db
       in db' = save_balance u (ledger_sum u db1) db1))"
proof (cases r)
  case (Inl e)
  with assms(1) show ?thesis
    by (auto simp: DebitInference_def Let_def dest: transaction_error split: if_splits)
next
  case (Inr x)
  with assms show ?thesis
    by (auto simp: DebitInference_def Let_def transaction_Inr debit_body_def recompute_balance_def go_result
        split: if_splits)
qed

section \<open>The relation\<close>

definition class_sum :: "key_class \<Rightarrow> string \<Rightarrow> billing_db \<Rightarrow> int" where
  "class_sum k u db = entry_sum (\<lambda>e. le_organization_id e = u \<and> key_class (le_idempotency_key e) = k) db"

definition others :: "billing_db \<Rightarrow> ledger_entry list" where
  "others db = filter (\<lambda>e. key_class (le_idempotency_key e) = KeyOther) (bd_ledger db)"

text \<open>Each debit of the two kinds and each signup grant is accounted for, by key and by amount.\<close>

definition keys_agree :: "billing_db \<Rightarrow> wallet \<Rightarrow> bool" where
  "keys_agree db w \<longleftrightarrow>
     (\<forall>u. SignupGrantIdempotencyKey u \<in> ledger_keys db \<longleftrightarrow> w_accounts w u \<noteq> None) \<and>
     (\<forall>u n. 0 \<le> n \<longrightarrow> sandbox_debit_key u n \<in> ledger_keys db \<longrightarrow>
        (\<exists>a. w_accounts w u = Some a \<and> n \<le> wa_billed a)) \<and>
     (\<forall>r. inference_key r \<in> ledger_keys db \<longleftrightarrow> r \<in> fst ` set (w_charges w))"

definition sums_agree :: "billing_db \<Rightarrow> wallet \<Rightarrow> bool" where
  "sums_agree db w \<longleftrightarrow>
     (\<forall>u. class_sum KeySignup u db = granted_to u w \<and> class_sum KeySandbox u db = - sandbox_spent u w \<and>
          class_sum KeyInference u db = - charged u w) \<and>
     others db = w_posted w"

definition entries_typed :: "billing_db \<Rightarrow> bool" where
  "entries_typed db \<longleftrightarrow>
     (\<forall>e \<in> set (bd_ledger db). key_class (le_idempotency_key e) \<noteq> KeyOther \<longrightarrow>
        (le_entry_type e = EntryGrant \<longleftrightarrow> key_class (le_idempotency_key e) = KeySignup))"

definition tables_agree :: "billing_db \<Rightarrow> wallet \<Rightarrow> bool" where
  "tables_agree db w \<longleftrightarrow>
     bd_meters db = w_meters w \<and> bd_starter_baselines db = w_baselines w \<and>
     bd_subscriptions db = w_subscriptions w \<and>
     (\<forall>u. bd_debit_watermarks db (u, sandboxCostMetric) = map_option wa_billed (w_accounts w u))"

definition figures_ok :: "wallet \<Rightarrow> bool" where
  "figures_ok w \<longleftrightarrow>
     (\<forall>u a. w_accounts w u = Some a \<longrightarrow> 0 \<le> wa_baseline a \<and> wa_baseline a \<le> wa_billed a) \<and>
     (\<forall>m \<in> set (w_meters w). 0 \<le> mw_total_value m) \<and> (\<forall>u b. w_baselines w u = Some b \<longrightarrow> 0 \<le> b)"

definition wallet_sim :: "billing_db \<Rightarrow> wallet \<Rightarrow> bool" where
  "wallet_sim db w \<longleftrightarrow> keys_agree db w \<and> sums_agree db w \<and> entries_typed db \<and> tables_agree db w \<and> figures_ok w"

lemma entry_sum_split:
  "entry_sum P db = entry_sum (\<lambda>e. P e \<and> Q e) db + entry_sum (\<lambda>e. P e \<and> \<not> Q e) db"
proof -
  have "(\<Sum>e \<leftarrow> filter P es. le_amount_micros e) =
    (\<Sum>e \<leftarrow> filter (\<lambda>e. P e \<and> Q e) es. le_amount_micros e) +
    (\<Sum>e \<leftarrow> filter (\<lambda>e. P e \<and> \<not> Q e) es. le_amount_micros e)" for es
    by (induction es) auto
  then show ?thesis by (simp add: entry_sum_def)
qed

lemma entry_sum_cong:
  "(\<And>e. e \<in> set (bd_ledger db) \<Longrightarrow> P e = Q e) \<Longrightarrow> entry_sum P db = entry_sum Q db"
  by (simp add: entry_sum_def cong: filter_cong)

lemma entry_sum_others:
  "entry_sum (\<lambda>e. P e \<and> key_class (le_idempotency_key e) = KeyOther) db =
     (\<Sum>e \<leftarrow> filter P (others db). le_amount_micros e)"
  by (simp add: entry_sum_def others_def conj_commute)

lemma ledger_sum_classes:
  "ledger_sum u db = class_sum KeySignup u db + class_sum KeySandbox u db + class_sum KeyInference u db +
     (\<Sum>e \<leftarrow> filter (\<lambda>e. le_organization_id e = u) (others db). le_amount_micros e)"
proof -
  let ?k = "\<lambda>e. key_class (le_idempotency_key e)" and ?o = "\<lambda>e. le_organization_id e = u"
  have rest: "(\<lambda>e. ((?o e \<and> ?k e \<noteq> KeySignup) \<and> ?k e \<noteq> KeySandbox) \<and> ?k e \<noteq> KeyInference) =
      (\<lambda>e. ?o e \<and> ?k e = KeyOther)"
  proof (rule ext)
    fix e
    show "(((?o e \<and> ?k e \<noteq> KeySignup) \<and> ?k e \<noteq> KeySandbox) \<and> ?k e \<noteq> KeyInference) = (?o e \<and> ?k e = KeyOther)"
      by (cases "?k e") simp_all
  qed
  have part: "(\<lambda>e. (?o e \<and> ?k e \<noteq> KeySignup) \<and> ?k e = KeySandbox) = (\<lambda>e. ?o e \<and> ?k e = KeySandbox)"
    "(\<lambda>e. ((?o e \<and> ?k e \<noteq> KeySignup) \<and> ?k e \<noteq> KeySandbox) \<and> ?k e = KeyInference) =
      (\<lambda>e. ?o e \<and> ?k e = KeyInference)" by auto
  have "ledger_sum u db = entry_sum (\<lambda>e. ?o e \<and> ?k e = KeySignup) db +
      entry_sum (\<lambda>e. ?o e \<and> ?k e \<noteq> KeySignup) db"
    unfolding ledger_sum_entry by (rule entry_sum_split)
  also have "entry_sum (\<lambda>e. ?o e \<and> ?k e \<noteq> KeySignup) db = class_sum KeySandbox u db +
      (class_sum KeyInference u db + entry_sum (\<lambda>e. ?o e \<and> ?k e = KeyOther) db)"
    using entry_sum_split [of "\<lambda>e. ?o e \<and> ?k e \<noteq> KeySignup" db "\<lambda>e. ?k e = KeySandbox"]
      entry_sum_split [of "\<lambda>e. (?o e \<and> ?k e \<noteq> KeySignup) \<and> ?k e \<noteq> KeySandbox" db "\<lambda>e. ?k e = KeyInference"]
    unfolding part rest class_sum_def by simp
  finally show ?thesis by (simp add: class_sum_def entry_sum_others)
qed

lemma grant_sum_classes:
  assumes "entries_typed db"
  shows "grant_sum u db = class_sum KeySignup u db +
     (\<Sum>e \<leftarrow> filter (\<lambda>e. le_organization_id e = u \<and> le_entry_type e = EntryGrant) (others db). le_amount_micros e)"
proof -
  let ?k = "\<lambda>e. key_class (le_idempotency_key e)"
  let ?g = "\<lambda>e. le_organization_id e = u \<and> le_entry_type e = EntryGrant"
  have "entry_sum (\<lambda>e. ?g e \<and> ?k e \<noteq> KeyOther) db = class_sum KeySignup u db"
    unfolding class_sum_def using assms by (intro entry_sum_cong) (auto simp: entries_typed_def)
  with entry_sum_split [of ?g db "\<lambda>e. ?k e = KeyOther"] show ?thesis
    unfolding grant_sum_entry entry_sum_others [symmetric] by linarith
qed

text \<open>The two figures of the ledger are those of the specification.\<close>

lemma sim_figures:
  assumes "wallet_sim db w"
  shows "ledger_sum u db = wallet_balance u w"
    "grant_sum u db = granted_to u w +
       posted (\<lambda>e. le_organization_id e = u \<and> le_entry_type e = EntryGrant) w"
proof -
  from assms have "sums_agree db w" "entries_typed db" by (simp_all add: wallet_sim_def)
  then show "ledger_sum u db = wallet_balance u w"
    "grant_sum u db = granted_to u w +
       posted (\<lambda>e. le_organization_id e = u \<and> le_entry_type e = EntryGrant) w"
    by (simp_all add: ledger_sum_classes grant_sum_classes sums_agree_def wallet_balance_def posted_def)
qed

section \<open>Every event keeps the relation\<close>

lemma same_ledger [simp]:
  "class_sum k u (save_balance v n db) = class_sum k u db" "others (save_balance v n db) = others db"
  "class_sum k u (seed_watermark v m n db) = class_sum k u db" "others (seed_watermark v m n db) = others db"
  "class_sum k u (advance_watermark v m n db) = class_sum k u db" "others (advance_watermark v m n db) = others db"
  "ledger_keys (seed_watermark v m n db) = ledger_keys db" "ledger_keys (advance_watermark v m n db) = ledger_keys db"
  "entries_typed (save_balance v n db) = entries_typed db"
  "entries_typed (seed_watermark v m n db) = entries_typed db"
  "entries_typed (advance_watermark v m n db) = entries_typed db"
  by (simp_all add: class_sum_def others_def entry_sum_def ledger_keys_def entries_typed_def)

lemma keys_distinct [simp]:
  "SignupGrantIdempotencyKey u \<noteq> inference_key r" "inference_key r \<noteq> SignupGrantIdempotencyKey u"
  "sandbox_debit_key u n \<noteq> inference_key r" "inference_key r \<noteq> sandbox_debit_key u n"
  "SignupGrantIdempotencyKey u \<noteq> sandbox_debit_key v n" "sandbox_debit_key v n \<noteq> SignupGrantIdempotencyKey u"
  "SignupGrantIdempotencyKey u = SignupGrantIdempotencyKey v \<longleftrightarrow> u = v"
  "inference_key r = inference_key r' \<longleftrightarrow> r = r'"
  by (simp_all add: SignupGrantIdempotencyKey_def inference_key_def sandbox_debit_key_def)

lemma class_sum_insert:
  "class_sum k u (insert_ledger e db) = class_sum k u db +
     (if le_organization_id e = u \<and> key_class (le_idempotency_key e) = k \<and>
         le_idempotency_key e \<notin> ledger_keys db then le_amount_micros e else 0)"
  by (simp add: class_sum_def book.post_sum_cases)

lemma others_insert:
  "others (insert_ledger e db) = others db @
     (if key_class (le_idempotency_key e) = KeyOther \<and> le_idempotency_key e \<notin> ledger_keys db then [e] else [])"
  by (simp add: insert_ledger_def others_def)

lemma entries_typed_insert:
  "entries_typed db \<Longrightarrow>
     (key_class (le_idempotency_key e) \<noteq> KeyOther \<Longrightarrow>
        (le_entry_type e = EntryGrant) = (key_class (le_idempotency_key e) = KeySignup)) \<Longrightarrow>
     entries_typed (insert_ledger e db)"
  by (auto simp: insert_ledger_def entries_typed_def)

lemma entry_projections [simp]:
  "le_organization_id (grant_entry org u g) = u" "le_idempotency_key (grant_entry org u g) = SignupGrantIdempotencyKey org"
  "le_amount_micros (grant_entry org u g) = g" "le_entry_type (grant_entry org u g) = EntryGrant"
  "le_organization_id (sandbox_debit_entry u n d) = u"
  "le_idempotency_key (sandbox_debit_entry u n d) = sandbox_debit_key u n"
  "le_amount_micros (sandbox_debit_entry u n d) = wrap64 (- d)" "le_entry_type (sandbox_debit_entry u n d) = EntryDebit"
  "le_organization_id (inference_entry u r md c now) = u"
  "le_idempotency_key (inference_entry u r md c now) = inference_key r"
  "le_amount_micros (inference_entry u r md c now) = wrap64 (- c)"
  "le_entry_type (inference_entry u r md c now) = EntryDebit"
  by (simp_all add: grant_entry_def sandbox_debit_entry_def inference_entry_def)

lemmas insert_rules = class_sum_insert others_insert book.post_keys

lemma other_key_distinct:
  assumes "key_class k = KeyOther"
  shows "k \<noteq> SignupGrantIdempotencyKey u" "k \<noteq> sandbox_debit_key u n" "k \<noteq> inference_key r"
  using assms by auto

lemma others_keys:
  "key_class k = KeyOther \<Longrightarrow> k \<in> ledger_keys db \<longleftrightarrow> k \<in> le_idempotency_key ` set (others db)"
  by (auto simp: ledger_keys_def others_def)

lemma sim_empty: "wallet_sim empty_billing_db empty_wallet"
  by (simp add: wallet_sim_def keys_agree_def sums_agree_def entries_typed_def tables_agree_def figures_ok_def
      empty_billing_db_def empty_wallet_def ledger_keys_def class_sum_def entry_sum_def others_def granted_to_def
      sandbox_spent_def charged_def)

lemma sim_tables:
  assumes "wallet_sim db w" "event_ok pg_uuid (EvTables ms bs hs ss)"
  shows "wallet_sim (db\<lparr>bd_meters := ms, bd_starter_baselines := bs, bd_holds := hs, bd_subscriptions := ss\<rparr>)
           (wallet_spec starter (EvTables ms bs hs ss) w)"
  using assms
  by (auto simp: wallet_sim_def keys_agree_def sums_agree_def entries_typed_def tables_agree_def figures_ok_def
      ledger_keys_def class_sum_def entry_sum_def others_def granted_to_def sandbox_spent_def charged_def)

lemma sim_post:
  assumes "wallet_sim db w" "event_ok pg_uuid (EvPost e)"
  shows "wallet_sim (insert_ledger e db) (wallet_spec starter (EvPost e) w)"
proof -
  have cls: "key_class (le_idempotency_key e) = KeyOther" using assms(2) by simp
  note distinct = other_key_distinct [OF cls, symmetric]
  have known: "le_idempotency_key e \<in> ledger_keys db \<longleftrightarrow> le_idempotency_key e \<in> le_idempotency_key ` set (w_posted w)"
    using assms(1) others_keys [OF cls] by (simp add: wallet_sim_def sums_agree_def)
  have typed: "entries_typed (insert_ledger e db)"
    using assms(1) cls by (intro entries_typed_insert) (simp_all add: wallet_sim_def)
  show ?thesis
    using assms(1) cls distinct known typed
    by (auto simp: wallet_sim_def keys_agree_def sums_agree_def tables_agree_def figures_ok_def insert_rules
        granted_to_def sandbox_spent_def charged_def)
qed

lemma charged_snoc:
  "charged u (w\<lparr>w_charges := w_charges w @ [(r, o', c)]\<rparr>) = charged u w + (if o' = u then c else 0)"
  by (simp add: charged_def)

lemma sim_debit:
  assumes "wallet_sim db w" "0 < cost" "in_int64 cost"
  shows "wallet_sim (save_balance u n (insert_ledger (inference_entry u (TrimSpace req) md cost now) db))
           (if TrimSpace req \<in> fst ` set (w_charges w) then w
            else w\<lparr>w_charges := w_charges w @ [(TrimSpace req, u, cost)]\<rparr>)"
proof -
  have amount: "wrap64 (- cost) = - cost" using assms(2,3) by (intro wrap64_id) (simp add: in_int64_def)
  have known: "inference_key r \<in> ledger_keys db \<longleftrightarrow> r \<in> fst ` set (w_charges w)" for r
    using assms(1) by (simp add: wallet_sim_def keys_agree_def)
  have typed: "entries_typed (insert_ledger (inference_entry u (TrimSpace req) md cost now) db)"
    using assms(1) by (intro entries_typed_insert) (simp_all add: wallet_sim_def)
  show ?thesis
    using assms(1) known amount typed
    by (auto simp: wallet_sim_def keys_agree_def sums_agree_def tables_agree_def figures_ok_def insert_rules
        granted_to_def sandbox_spent_def charged_snoc)
qed

lemma metered_total_nonneg: "\<forall>m \<in> set ms. 0 \<le> mw_total_value m \<Longrightarrow> 0 \<le> metered_total u metric ms"
  unfolding metered_total_def by (rule sum_list_nonneg) auto

text \<open>What the settlement of organization \<open>u\<close> does, its figures in range and its debit's key new.\<close>

lemma settled_effect:
  fixes db u g
  defines "cum \<equiv> metered_total u sandboxCostMetric (bd_meters db)"
  defines "b \<equiv> read_billed u cum db"
  assumes range: "in_int64 cum" "in_int64 b" "0 \<le> cum" "0 \<le> b"
    and fresh: "b < cum \<Longrightarrow> sandbox_debit_key u cum \<notin> ledger_keys db"
    and typed: "entries_typed db"
  shows "ledger_keys (settled_ledger u u g db) = insert (SignupGrantIdempotencyKey u)
           (ledger_keys db \<union> (if b < cum then {sandbox_debit_key u cum} else {}))"
    and "class_sum k v (settled_ledger u u g db) = class_sum k v db +
           (if v = u \<and> k = KeySignup \<and> SignupGrantIdempotencyKey u \<notin> ledger_keys db then g else 0) -
           (if v = u \<and> k = KeySandbox \<and> b < cum then cum - b else 0)"
    and "others (settled_ledger u u g db) = others db"
    and "entries_typed (settled_ledger u u g db)"
    and "bd_debit_watermarks (settled_ledger u u g db) (v, sandboxCostMetric) =
           (if v = u then Some (max b cum) else bd_debit_watermarks db (v, sandboxCostMetric))"
    and "bd_meters (settled_ledger u u g db) = bd_meters db"
    and "bd_starter_baselines (settled_ledger u u g db) = bd_starter_baselines db"
    and "bd_subscriptions (settled_ledger u u g db) = bd_subscriptions db"
proof -
  have diff: "wrap64 (cum - b) = cum - b" using range by (simp add: in_int64_diff)
  have neg: "wrap64 (b - cum) = b - cum" using range by (simp add: in_int64_diff)
  have eq: "settled_ledger u u g db =
    (let db1 = seed_watermark u sandboxCostMetric b (insert_ledger (grant_entry u u g) db)
     in if b < cum then advance_watermark u sandboxCostMetric cum
                          (insert_ledger (sandbox_debit_entry u cum (cum - b)) db1) else db1)"
    unfolding settled_ledger_def cum_def [symmetric] b_def [symmetric] Let_def diff by simp
  note rules = eq Let_def insert_rules neg
  show "ledger_keys (settled_ledger u u g db) = insert (SignupGrantIdempotencyKey u)
           (ledger_keys db \<union> (if b < cum then {sandbox_debit_key u cum} else {}))"
    by (auto simp: rules)
  show "class_sum k v (settled_ledger u u g db) = class_sum k v db +
           (if v = u \<and> k = KeySignup \<and> SignupGrantIdempotencyKey u \<notin> ledger_keys db then g else 0) -
           (if v = u \<and> k = KeySandbox \<and> b < cum then cum - b else 0)"
    using fresh by (auto simp: rules)
  show "others (settled_ledger u u g db) = others db" by (simp add: rules)
  show "entries_typed (settled_ledger u u g db)"
    using typed by (auto simp: eq Let_def intro!: entries_typed_insert)
  show "bd_debit_watermarks (settled_ledger u u g db) (v, sandboxCostMetric) =
           (if v = u then Some (max b cum) else bd_debit_watermarks db (v, sandboxCostMetric))"
    by (auto simp: eq Let_def seed_watermark_def advance_watermark_def b_def read_billed_def)
  show "bd_meters (settled_ledger u u g db) = bd_meters db"
    "bd_starter_baselines (settled_ledger u u g db) = bd_starter_baselines db"
    "bd_subscriptions (settled_ledger u u g db) = bd_subscriptions db"
    by (simp_all add: eq Let_def)
qed

text \<open>The account after the settlement has the balance the ledger then shows.\<close>

lemma sim_settle:
  fixes db u w g
  defines "w' \<equiv> w\<lparr>w_accounts := (w_accounts w)(u \<mapsto>
     settle_account g (metered_total u sandboxCostMetric (w_meters w)) (w_baselines w u) (w_accounts w u))\<rparr>"
  assumes sim: "wallet_sim db w"
    and range: "in_int64 (metered_total u sandboxCostMetric (bd_meters db))"
      "in_int64 (read_billed u (metered_total u sandboxCostMetric (bd_meters db)) db)"
  shows "wallet_sim (settled_ledger u u g db) w'"
proof -
  let ?cum = "metered_total u sandboxCostMetric (bd_meters db)"
  let ?b = "read_billed u ?cum db"
  from sim have ka: "keys_agree db w" and sa: "sums_agree db w" and et: "entries_typed db"
    and ta: "tables_agree db w" and fo: "figures_ok w" by (simp_all add: wallet_sim_def)
  have cum: "0 \<le> ?cum" using ta fo by (intro metered_total_nonneg) (simp add: tables_agree_def figures_ok_def)
  have b: "?b = (case w_accounts w u of Some a \<Rightarrow> wa_billed a
      | None \<Rightarrow> (case w_baselines w u of Some b \<Rightarrow> b | None \<Rightarrow> ?cum))"
    using ta by (simp add: read_billed_def tables_agree_def split: option.splits)
  have b0: "0 \<le> ?b" using b cum fo by (fastforce simp: figures_ok_def split: option.splits)
  have "sandbox_debit_key u ?cum \<notin> ledger_keys db" if "?b < ?cum"
    using ka b cum that by (fastforce simp: keys_agree_def)
  with b0 have eff:
    "ledger_keys (settled_ledger u u g db) = insert (SignupGrantIdempotencyKey u)
           (ledger_keys db \<union> (if ?b < ?cum then {sandbox_debit_key u ?cum} else {}))"
    "\<And>k v. class_sum k v (settled_ledger u u g db) = class_sum k v db +
           (if v = u \<and> k = KeySignup \<and> SignupGrantIdempotencyKey u \<notin> ledger_keys db then g else 0) -
           (if v = u \<and> k = KeySandbox \<and> ?b < ?cum then ?cum - ?b else 0)"
    "others (settled_ledger u u g db) = others db" "entries_typed (settled_ledger u u g db)"
    "\<And>v. bd_debit_watermarks (settled_ledger u u g db) (v, sandboxCostMetric) =
           (if v = u then Some (max ?b ?cum) else bd_debit_watermarks db (v, sandboxCostMetric))"
    "bd_meters (settled_ledger u u g db) = bd_meters db"
    "bd_starter_baselines (settled_ledger u u g db) = bd_starter_baselines db"
    "bd_subscriptions (settled_ledger u u g db) = bd_subscriptions db"
    using settled_effect [of u db] range cum et by simp_all
  define a' where "a' = settle_account g ?cum (w_baselines w u) (w_accounts w u)"
  have w': "w' = w\<lparr>w_accounts := (w_accounts w)(u \<mapsto> a')\<rparr>"
    using ta by (simp add: w'_def a'_def tables_agree_def)
  have a': "wa_billed a' = max ?b ?cum"
    "wa_grant a' = (case w_accounts w u of Some a \<Rightarrow> wa_grant a | None \<Rightarrow> g)"
    "wa_baseline a' = (case w_accounts w u of Some a \<Rightarrow> wa_baseline a | None \<Rightarrow> ?b)"
    using b by (simp_all add: a'_def settle_account_def Let_def split: option.splits)
  have acct: "w_accounts w' v = (if v = u then Some a' else w_accounts w v)" for v by (simp add: w')
  have "keys_agree (settled_ledger u u g db) w'"
    unfolding keys_agree_def eff(1)
  proof (intro conjI allI impI)
    fix v n assume n: "0 \<le> n" and key: "sandbox_debit_key v n \<in> insert (SignupGrantIdempotencyKey u)
           (ledger_keys db \<union> (if ?b < ?cum then {sandbox_debit_key u ?cum} else {}))"
    show "\<exists>a. w_accounts w' v = Some a \<and> n \<le> wa_billed a"
    proof (cases "sandbox_debit_key v n \<in> ledger_keys db")
      case True
      with ka n obtain a where "w_accounts w v = Some a" "n \<le> wa_billed a"
        unfolding keys_agree_def by blast
      then show ?thesis using b by (auto simp: acct a'(1))
    next
      case False
      with key have "sandbox_debit_key v n = sandbox_debit_key u ?cum" by (auto split: if_splits)
      from sandbox_key_inject [OF this n cum] show ?thesis by (simp add: acct a'(1))
    qed
  qed (use ka in \<open>auto simp: keys_agree_def acct w'\<close>)
  moreover have "sums_agree (settled_ledger u u g db) w'"
  proof -
    have signup: "SignupGrantIdempotencyKey u \<in> ledger_keys db \<longleftrightarrow> w_accounts w u \<noteq> None"
      using ka by (simp add: keys_agree_def)
    have "granted_to v w' = granted_to v w + (if v = u \<and> w_accounts w u = None then g else 0)"
      "sandbox_spent v w' = sandbox_spent v w + (if v = u \<and> ?b < ?cum then ?cum - ?b else 0)"
      "charged v w' = charged v w" for v
      using b a' by (auto simp: granted_to_def sandbox_spent_def charged_def acct w' split: option.splits)
    with sa signup show ?thesis by (auto simp: sums_agree_def eff w')
  qed
  moreover have "tables_agree (settled_ledger u u g db) w'"
    using ta by (auto simp: tables_agree_def eff acct a'(1)) (simp_all add: w')
  moreover have "figures_ok w'"
  proof -
    have "0 \<le> wa_baseline a' \<and> wa_baseline a' \<le> wa_billed a'"
      using fo b cum a' b0 by (auto simp: figures_ok_def le_max_iff_disj split: option.splits)
    with fo show ?thesis by (auto simp: figures_ok_def acct) (auto simp: w')
  qed
  ultimately show ?thesis using eff(4) by (simp add: wallet_sim_def)
qed

lemma sim_save_balance [simp]: "wallet_sim (save_balance u n db) w = wallet_sim db w"
  by (simp add: wallet_sim_def keys_agree_def sums_agree_def tables_agree_def)

lemma sim_step:
  assumes sim: "wallet_sim db w" and ok: "event_ok pg_uuid ev"
    and step: "wallet_step pg_uuid starter ev (db, w) = (db', w')"
  shows "wallet_sim db' w'"
proof (cases ev)
  case (EvResolve fl org tier)
  obtain r db1 where r: "Resolve_access pg_uuid starter fl org tier db = (r, db1)" by fastforce
  have uuid: "pg_uuid org = Some org" using ok EvResolve by simp
  have subs: "bd_subscriptions db = w_subscriptions w" using sim by (simp add: wallet_sim_def tables_agree_def)
  from resolve_changes [OF r] show ?thesis
  proof (elim disjE exE conjE)
    fix st assume committed: "\<not> isl r" "\<not> enterprise_tier tier" "bd_subscriptions db org = Inr None"
      and body: "wallet_body pg_uuid fl org starter db = Inr (st, db1)"
    from wallet_body_committed [OF body uuid] have fig: "readable_figures org org starter db"
      and db1: "db1 = save_balance org (ledger_sum org (settled_ledger org org starter db))
                        (settled_ledger org org starter db)" by simp_all
    have "wallet_sim db1 (wallet_spec starter ev w)"
      using sim_settle [OF sim, of org starter] fig [unfolded readable_figures_def Let_def] committed subs unfolding db1 EvResolve by simp
    with step EvResolve r committed show ?thesis by (simp add: wallet_step_def)
  qed (use sim step EvResolve r subs in \<open>auto simp: wallet_step_def split: if_splits\<close>)
next
  case (EvDebit fl org req md cost now)
  obtain r db1 where r: "DebitInference pg_uuid fl org req md cost now db = (r, db1)" by fastforce
  have uuid: "pg_uuid (TrimSpace org) = Some (TrimSpace org)" and cost: "in_int64 cost"
    using ok EvDebit by simp_all
  from debit_changes [OF r uuid] show ?thesis
  proof (elim disjE exE conjE)
    fix md' assume c: "\<not> isl r" "0 < cost" and db1: "let db2 = insert_ledger
        (inference_entry (TrimSpace org) (TrimSpace req) md' cost now) db
      in db1 = save_balance (TrimSpace org) (ledger_sum (TrimSpace org) db2) db2"
    have "wallet_sim db1 (wallet_spec starter ev w)"
      using sim_debit [OF sim c(2) cost, of "TrimSpace org" _ req md' now] c(2) db1
      by (auto simp: EvDebit Let_def)
    with step EvDebit r c show ?thesis by (simp add: wallet_step_def)
  qed (use sim step EvDebit r in \<open>auto simp: wallet_step_def split: if_splits\<close>)
next
  case (EvTables ms bs hs ss)
  with sim_tables [OF sim, of pg_uuid ms bs hs ss] ok step show ?thesis by (simp add: wallet_step_def)
next
  case (EvPost e)
  with sim_post [OF sim, of pg_uuid e] ok step show ?thesis by (simp add: wallet_step_def)
qed

lemma sim_run:
  assumes "list_all (event_ok pg_uuid) es" "wallet_run pg_uuid starter es = (db, w)"
  shows "wallet_sim db w"
  using assms
proof (induction es arbitrary: db w rule: rev_induct)
  case Nil
  then show ?case by (simp add: wallet_run_def sim_empty)
next
  case (snoc ev es)
  obtain db1 w1 where run: "wallet_run pg_uuid starter es = (db1, w1)" by fastforce
  with snoc have "wallet_sim db1 w1" "wallet_step pg_uuid starter ev (db1, w1) = (db, w)"
    by (simp_all add: wallet_run_def)
  with sim_step [of db1 w1 pg_uuid ev starter db w] snoc.prems(1) show ?case by simp
qed

text \<open>Figures read are figures of the account: what a settlement reads is in range if its result is.\<close>

lemma settle_in_range:
  assumes sim: "wallet_sim db w"
    and a': "settle_account g (metered_total u sandboxCostMetric (w_meters w)) (w_baselines w u) (w_accounts w u) = a'"
    and "in_int64 (wa_billed a')"
  shows "in_int64 (metered_total u sandboxCostMetric (bd_meters db))"
    "in_int64 (read_billed u (metered_total u sandboxCostMetric (bd_meters db)) db)"
proof -
  let ?cum = "metered_total u sandboxCostMetric (bd_meters db)"
  have ta: "tables_agree db w" and fo: "figures_ok w" using sim by (simp_all add: wallet_sim_def)
  have "0 \<le> ?cum" using ta fo by (intro metered_total_nonneg) (simp add: tables_agree_def figures_ok_def)
  moreover have "0 \<le> read_billed u ?cum db"
    using ta fo calculation by (fastforce simp: read_billed_def tables_agree_def figures_ok_def split: option.splits)
  moreover have "wa_billed a' = max (read_billed u ?cum db) ?cum"
    using a' ta by (auto simp: settle_account_def read_billed_def tables_agree_def Let_def split: option.splits)
  ultimately show "in_int64 ?cum" "in_int64 (read_billed u ?cum db)"
    using assms(3) by (simp_all add: in_int64_def)
qed

end
