(* ===== verification/WalletGuarantees.thy ===== *)
theory WalletGuarantees
  imports WalletRefinement
begin

text \<open>What the wallet promises.\<close>

section \<open>The balance\<close>


definition demo_uuid :: "string \<Rightarrow> string option" where
  "demo_uuid s = (if s = ''AB'' then Some ''ab'' else Some s)"

definition demo_meter :: "int \<Rightarrow> meter_watermark" where
  "demo_meter n = \<lparr>mw_organization_id = ''ab'', mw_metric_type = sandboxCostMetric, mw_total_value = n\<rparr>"

definition demo_events :: "wallet_event list" where
  "demo_events =
     [EvTables [demo_meter 7] Map.empty [] (\<lambda>_. Inr None),
      EvResolve no_faults ''ab'' ''free'',
      EvTables [demo_meter 10] Map.empty [] (\<lambda>_. Inr None),
      EvResolve (\<lambda>s. if s = StCommit then Some ''down'' else None) ''ab'' ''free'',
      EvDebit no_faults ''ab'' ''r1'' ''chat'' 5 (2025, 12),
      EvDebit no_faults ''ab'' ''r1'' ''chat'' 5 (2025, 12),
      EvResolve no_faults ''ab'' ''free'']"

lemma demo_trim: "TrimSpace ''ab'' = ''ab''" "TrimSpace ''r1'' = ''r1''" "\<not> enterprise_tier ''free''"
  by code_simp+

lemma demo_events_ok: "list_all (event_ok demo_uuid) demo_events"
  by (simp add: demo_events_def demo_uuid_def demo_meter_def demo_trim in_int64_def)

lemma demo_balance: "ledger_sum ''ab'' (fst (wallet_run demo_uuid 100 demo_events)) = 92"
  by code_simp


section \<open>The gate\<close>


definition gate_demo :: "billing_db \<times> wallet" where
  "gate_demo = wallet_run demo_uuid 100 demo_events"

lemma gate_demo_facts:
  "bd_subscriptions (fst gate_demo) ''ab'' = Inr None"
  "held_sum ''ab'' (bd_holds (fst gate_demo)) = 0"
  "map_option wa_billed (w_accounts (wallet_spec 100 (EvResolve no_faults ''ab'' ''free'') (snd gate_demo)) ''ab'') = Some 10"
  "wallet_balance ''ab'' (wallet_spec 100 (EvResolve no_faults ''ab'' ''free'') (snd gate_demo)) = 92"
  "granted_to ''ab'' (wallet_spec 100 (EvResolve no_faults ''ab'' ''free'') (snd gate_demo)) = 100"
  "w_posted (wallet_spec 100 (EvResolve no_faults ''ab'' ''free'') (snd gate_demo)) = []"
  by code_simp+


text \<open>
  The gate fails closed. Whichever statements fail and in whatever state: an error leaves the
  database as it was; and compute is allowed only on an enterprise contract, on a subscription that is
  active or in trial with both Stripe identifiers, or on a wallet that after the settlement has more
  than the holds on it. Only the last writes anything. Without a configured credit the last never happens.
\<close>

theorem gate_fails_closed:
  assumes "Resolve_access pg_uuid starter fl org tier db = (r, db')"
  shows "case r of
      Inl e \<Rightarrow> db' = db
    | Inr a \<Rightarrow>
        if enterprise_tier tier then ac_Allowed a \<and> db' = db
        else case bd_subscriptions db org of
          Inr (Some s) \<Rightarrow> ac_Allowed a = subscription_active s \<and> ac_BillingActive a = subscription_active s \<and> db' = db
        | Inr None \<Rightarrow>
            0 < starter \<and> (\<exists>u. pg_uuid org = Some u \<and>
              ac_Allowed a = (wrap64 (ledger_sum u db' - held_sum u (bd_holds db')) > 0) \<and>
              bd_balances db' u = Some (ledger_sum u db') \<and>
              SignupGrantIdempotencyKey org \<in> ledger_keys db')
        | Inl e \<Rightarrow> False"
proof (cases "fl StHandle \<noteq> None \<or> TrimSpace org = [] \<or> enterprise_tier tier \<or> bd_subscriptions db org \<noteq> Inr None")
  case True
  with assms show ?thesis
    by (auto simp: Resolve_access_def Let_def split: if_splits sum.splits option.splits)
next
  case False
  then have free: "fl StHandle = None" "TrimSpace org \<noteq> []" "\<not> enterprise_tier tier"
    "bd_subscriptions db org = Inr None" by simp_all
  show ?thesis
  proof (cases "resolveWalletCredit pg_uuid fl org starter db")
    case (Pair q db1)
    show ?thesis
    proof (cases q)
      case (Inl e)
      with Pair have "db1 = db" by (auto simp: resolveWalletCredit_def dest: transaction_error split: if_splits)
      with Pair Inl assms free show ?thesis by (auto simp: Resolve_access_def)
    next
      case (Inr st)
      with Pair have pos: "0 < starter" and body: "wallet_body pg_uuid fl org starter db = Inr (st, db1)"
        by (auto simp: resolveWalletCredit_def transaction_Inr split: if_splits)
      then obtain u where u: "pg_uuid org = Some u"
        by (auto simp: wallet_body_def grant_signup_def go_result)
      let ?s = "settled_ledger org u starter db"
      from wallet_body_committed [OF body u] have db1: "db1 = save_balance u (ledger_sum u ?s) ?s"
        and st: "st = settled_status u ?s" by simp_all
      have key: "SignupGrantIdempotencyKey org \<in> ledger_keys ?s"
        by (auto simp: settled_ledger_def Let_def book.post_keys)
      have "bd_balances db1 u = Some (ledger_sum u db1)" "held_sum u (bd_holds db1) = held_sum u (bd_holds ?s)"
        by (simp_all add: db1) (simp add: save_balance_def)
      with Pair Inr assms free pos u key show ?thesis
        by (auto simp: Resolve_access_def st db1 settled_status_def Let_def)
    qed
  qed
qed

theorem gate_fails_closed_witness:
  "Resolve_access demo_uuid 0 no_faults ''ab'' ''free'' empty_billing_db = (Inl CreditNotConfigured, empty_billing_db) \<and>
   ac_Allowed (case fst (Resolve_access demo_uuid 5 no_faults ''ab'' '' Enterprise '' empty_billing_db) of Inr a \<Rightarrow> a)"
proof -
  have tier: "enterprise_tier '' Enterprise ''" by code_simp
  have "Resolve_access demo_uuid 0 no_faults ''ab'' ''free'' empty_billing_db = (Inl CreditNotConfigured, empty_billing_db)"
    by (simp add: Resolve_access_def resolveWalletCredit_def demo_trim no_faults_def empty_billing_db_def)
  moreover obtain a db' where a: "Resolve_access demo_uuid 5 no_faults ''ab'' '' Enterprise '' empty_billing_db = (Inr a, db')"
    using tier demo_trim(1) by (simp add: Resolve_access_def no_faults_def)
  moreover from gate_fails_closed [OF a] tier have "ac_Allowed a" by simp
  ultimately show ?thesis by simp
qed

section \<open>A request\<close>

lemma debit_commits:
  assumes "pg_uuid org = Some org" "TrimSpace org = org" "org \<noteq> []" "TrimSpace req \<noteq> []" "0 < cost"
    "in_int64 (ledger_sum org (insert_ledger (inference_entry org (TrimSpace req) md cost now) db))"
    "TrimSpace md \<noteq> []"
  shows "DebitInference pg_uuid no_faults org req md cost now db =
    (let db1 = insert_ledger (inference_entry org (TrimSpace req) md cost now) db
     in (Inr (), save_balance org (ledger_sum org db1) db1))"
  using assms
  by (simp add: DebitInference_def Let_def transaction_def debit_body_def recompute_balance_def as_uuid_def bigint_def)
     (simp add: no_faults_def)

lemma session_total:
  assumes "fold (meter_step micros) cs (Some m) = Some m'" "im_micros m = 0"
    and "in_int64 (\<Sum>c \<leftarrow> cs. billable micros (im_markup m) c)"
  shows "im_micros m' = (\<Sum>c \<leftarrow> cs. billable micros (im_markup m) c)"
proof -
  have "in_int64 (im_micros m')"
    using meter_calls_range [OF assms(1)] assms(2) by (simp add: in_int64_def)
  with meter_calls [OF assms(1)] assms(2,3) show ?thesis by simp
qed


definition demo_meter0 :: inferenceMeter where
  "demo_meter0 = \<lparr>im_org = ''org'', im_reqID = ''r1'', im_modality = MetricChat, im_markup = 1,
     im_micros = 0, im_shadow = []\<rparr>"

definition demo_calls :: "meter_call list" where
  "demo_calls = [RecordCall ''config'' 2, ShadowCall ''tool_loop_iteration'' ''config'' 9, RecordCall ''byok'' 4]"

definition demo_micros :: "rat \<Rightarrow> rat \<Rightarrow> int" where
  "demo_micros k usd = \<lfloor>k * usd\<rfloor>"

lemma demo_request:
  "newInferenceMeter None (Some example_identity) ''old'' ''r1'' = Some demo_meter0"
  "fold (meter_step demo_micros) demo_calls (Some demo_meter0) =
     Some (demo_meter0\<lparr>im_micros := 2, im_shadow := [(''tool_loop_iteration'', 1, 9)]\<rparr>)"
  "(\<Sum>c \<leftarrow> demo_calls. billable demo_micros (inference_markup None) c) = 2"
  by (simp_all add: newInferenceMeter_def resolveMeterOrg_def example_ids(3) demo_meter0_def inference_markup_def
      demo_calls_def record_attempt_def recordShadow_def platformKeySource_def demo_micros_def wrap64_def)


section \<open>Two ways to lose money\<close>

text \<open>
  The key of the grant is the text the organization came by, the row's organization is the uuid it
  denotes: the same organization spelled in another case is granted the credit a second time. Every
  caller in the repository passes the canonical text.
\<close>

lemma spelled_twice_granted_twice:
  "grant_sum ''ab'' (snd (Resolve_access demo_uuid 5 no_faults ''ab'' ''free'' empty_billing_db)) = 5"
  "grant_sum ''ab'' (snd (Resolve_access demo_uuid 5 no_faults ''AB'' ''free''
     (snd (Resolve_access demo_uuid 5 no_faults ''ab'' ''free'' empty_billing_db)))) = 10"
  by code_simp+

text \<open>
  \<open>DebitInference\<close> leaves it to its caller to retry, since it is a single transaction; its only caller
  does not, so a settlement that meets a failing statement bills nothing.
\<close>

lemma failed_settlement_bills_nothing:
  "fl StCommit \<noteq> None \<Longrightarrow> snd (snd (settle pg_uuid fl now canceled mo db)) = db"
proof -
  assume "fl StCommit \<noteq> None"
  then have fails: "snd (transaction fl body db) = db" for body :: "billing_db \<Rightarrow> wallet_error + unit \<times> billing_db"
    by (cases "transaction fl body db"; cases "fst (transaction fl body db)")
       (auto dest: transaction_error simp: transaction_Inr)
  have "snd (DebitInference pg_uuid fl org req md cost now db) = db" for org req md cost
    by (simp add: DebitInference_def Let_def fails)
  then show ?thesis by (simp add: settle_def Let_def split: option.split)
qed

end
