(* ===== verification/WalletReporter.thy ===== *)
theory WalletReporter
  imports WalletCredit
begin

text \<open>
  The shared usage reporter (\<open>cmd/serve/shared_sandbox_billing.go\<close>): it sums the sandbox usage of an
  organization over its aliases, posts the cumulative snapshot to central billing, and stops, parks or
  releases the organization's compute by the answer. Central billing is another service: its answer to
  a snapshot is the argument \<open>rp_post\<close>. So are the live accrual, the browser meter and the sandbox
  manager that stops and resumes.
\<close>

section \<open>State\<close>

record usage_record =
  ur_tenant_id :: string
  ur_duration_seconds :: int
  ur_cost_total_usd :: rat

record sandbox_alloc =
  sa_tenant_id :: string
  sa_lifecycle_state :: string
  sa_billing_started_at :: "int option"
  sa_billing_ended_at :: "int option"

record usage_db =
  ud_records :: "usage_record list"
  ud_instances :: "sandbox_alloc list"
  ud_browser_tenants :: "string list"

record usage_snapshot =
  us_OrganizationID :: string
  us_InstanceID :: string
  us_ConcurrentSandboxesCount :: int
  us_ComputeSeconds :: int
  us_ComputeCostMicros :: int
  us_BrowserSeconds :: int
  us_BrowserCostMicros :: int

record billing_access =
  ba_SandboxAllowed :: bool
  ba_BillingConfigured :: bool
  ba_BillingActive :: bool
  ba_StarterCreditMicros :: int
  ba_StarterCreditUsedMicros :: int
  ba_StarterCreditRemainingMicros :: int

text \<open>The response of central billing; \<open>sandbox_allowed\<close> may be missing.\<close>

record billing_response =
  br_SandboxAllowed :: "bool option"
  br_BillingConfigured :: bool
  br_BillingActive :: bool
  br_StarterCreditMicros :: int
  br_StarterCreditUsedMicros :: int
  br_StarterCreditRemainingMicros :: int

datatype post_result = SendFailed | Answered int "billing_response option"

datatype report_error =
    NotConfigured | TenantRequired | EndpointMissing | IdentityFailed identity_error | UsageUnreadable
  | NegativeUsage | BrowserUsageFailed string | SendError | BadStatus int | UndecodableAnswer | AccessOmitted
  | ActiveOrganizationFailed identity_error | ReporterMissing

text \<open>
  The manager's three operations, each with the result it will give for a tenant: the number of
  sandboxes or agents it changed, or an error.
\<close>

record stopper =
  sp_StopTenantSandboxes :: "string \<Rightarrow> string + int"
  sp_SuspendTenantAgents :: "string \<Rightarrow> string + int"
  sp_ResumeTenantAgents :: "string \<Rightarrow> string + int"

record reporter =
  rp_db :: "usage_db option"
  rp_billingDB :: "identity_db option"
  rp_live :: "(string \<Rightarrow> rat \<times> int) option"
  rp_browser :: "(string \<Rightarrow> string + int \<times> int) option"
  rp_endpoint :: string
  rp_instanceID :: string
  rp_post :: "usage_snapshot \<Rightarrow> post_result"
  rp_stopper :: "stopper option"
  rp_lower :: "string \<Rightarrow> string"
  rp_rnd :: "rat \<Rightarrow> rat"
  rp_ovf :: "rat \<Rightarrow> int"

text \<open>\<open>sharedSandboxBillingSourceID\<close>, over the process environment.\<close>

definition sharedSandboxBillingSourceID :: "(string \<Rightarrow> string) \<Rightarrow> string" where
  "sharedSandboxBillingSourceID getenv =
     (let explicit = TrimSpace (getenv ''EVS_SHARED_SANDBOX_BILLING_SOURCE_ID'') in
      if explicit \<noteq> [] then explicit
      else
        let region = TrimSpace (getenv ''EVS_CONTROLPLANE_REGION'');
            region = (if region = [] then TrimSpace (getenv ''EVS_REGION'') else region)
        in if region = [] then ''shared-sandbox-plane'' else ''shared-sandbox-plane:'' @ region)"

section \<open>One report\<close>

definition resolveBillingIdentity :: "reporter \<Rightarrow> string \<Rightarrow> identity_error + string \<times> string list" where
  "resolveBillingIdentity r t =
     (case rp_billingDB r of
        None \<Rightarrow> Inr (t, [t])
      | Some db \<Rightarrow>
          bind_result (ResolveOrganization (rp_lower r) (Some db) t) (\<lambda>org.
          bind_result (ListOrganizationAliases (Some db) (o_ID org)) (\<lambda>aliases. Inr (o_ID org, aliases))))"

definition active_states :: "string list" where
  "active_states = [''pending'', ''creating'', ''provisioning'', ''running'', ''stopping'', ''reviving'', ''terminating'']"

definition closed_seconds :: "string list \<Rightarrow> usage_db \<Rightarrow> int" where
  "closed_seconds ts db = (\<Sum>u \<leftarrow> filter (\<lambda>u. ur_tenant_id u \<in> set ts) (ud_records db). ur_duration_seconds u)"

definition closed_cost :: "(rat \<Rightarrow> rat) \<Rightarrow> string list \<Rightarrow> usage_db \<Rightarrow> rat" where
  "closed_cost rnd ts db = rnd (\<Sum>u \<leftarrow> filter (\<lambda>u. ur_tenant_id u \<in> set ts) (ud_records db). ur_cost_total_usd u)"

definition concurrent_sandboxes :: "string list \<Rightarrow> usage_db \<Rightarrow> int" where
  "concurrent_sandboxes ts db = int (length (filter (\<lambda>s. sa_tenant_id s \<in> set ts \<and>
     (sa_lifecycle_state s \<in> set active_states \<or>
      sa_billing_started_at s \<noteq> None \<and> sa_billing_ended_at s = None)) (ud_instances db)))"

text \<open>The loops over the aliases; sums of floats round at each step, sums of \<open>int64\<close> wrap.\<close>

fun live_usage :: "(rat \<Rightarrow> rat) \<Rightarrow> (string \<Rightarrow> rat \<times> int) \<Rightarrow> string list \<Rightarrow> rat \<times> int \<Rightarrow> rat \<times> int" where
  "live_usage rnd live [] acc = acc"
| "live_usage rnd live (t # ts) (cost, secs) =
     (case live t of (c, s) \<Rightarrow> live_usage rnd live ts (rnd (cost + c), wrap64 (secs + s)))"

fun browser_usage ::
    "(string \<Rightarrow> string + int \<times> int) \<Rightarrow> string list \<Rightarrow> int \<times> int \<Rightarrow> report_error + int \<times> int" where
  "browser_usage meter [] acc = Inr acc"
| "browser_usage meter (t # ts) (secs, cost) =
     (case meter t of
        Inl e \<Rightarrow> Inl (BrowserUsageFailed e)
      | Inr (s, c) \<Rightarrow> browser_usage meter ts (wrap64 (secs + s), wrap64 (cost + c)))"

definition usage_snapshot_of ::
    "reporter \<Rightarrow> usage_db \<Rightarrow> (string \<Rightarrow> rat \<times> int) \<Rightarrow> string \<Rightarrow> string list \<Rightarrow> report_error + usage_snapshot" where
  "usage_snapshot_of r db live org ts =
     (if \<not> in_int64 (closed_seconds ts db) then Inl UsageUnreadable
      else case live_usage (rp_rnd r) live ts (0, 0) of (liveCost, liveSeconds) \<Rightarrow>
        let totalSeconds = wrap64 (closed_seconds ts db + liveSeconds);
            totalCostMicros = float_to_int 64 (rp_ovf r)
              (math_round (rp_rnd r (rp_rnd r (closed_cost (rp_rnd r) ts db + liveCost) * 1000000)))
        in if totalSeconds < 0 \<or> totalCostMicros < 0 then Inl NegativeUsage
           else bind_result (case rp_browser r of None \<Rightarrow> Inr (0, 0) | Some m \<Rightarrow> browser_usage m ts (0, 0))
             (\<lambda>(bs, bc). Inr \<lparr>us_OrganizationID = org, us_InstanceID = rp_instanceID r,
                us_ConcurrentSandboxesCount = concurrent_sandboxes ts db, us_ComputeSeconds = totalSeconds,
                us_ComputeCostMicros = totalCostMicros, us_BrowserSeconds = bs, us_BrowserCostMicros = bc\<rparr>))"

definition read_answer :: "post_result \<Rightarrow> report_error + billing_access" where
  "read_answer p =
     (case p of
        SendFailed \<Rightarrow> Inl SendError
      | Answered status body \<Rightarrow>
          if status < 200 \<or> 300 \<le> status then Inl (BadStatus status)
          else case body of
            None \<Rightarrow> Inl UndecodableAnswer
          | Some res \<Rightarrow>
              (case br_SandboxAllowed res of
                 None \<Rightarrow> Inl AccessOmitted
               | Some allowed \<Rightarrow> Inr
                   \<lparr>ba_SandboxAllowed = allowed, ba_BillingConfigured = br_BillingConfigured res,
                    ba_BillingActive = br_BillingActive res, ba_StarterCreditMicros = br_StarterCreditMicros res,
                    ba_StarterCreditUsedMicros = br_StarterCreditUsedMicros res,
                    ba_StarterCreditRemainingMicros = br_StarterCreditRemainingMicros res\<rparr>))"

definition ReportTenant :: "reporter \<Rightarrow> string \<Rightarrow> report_error + billing_access" where
  "ReportTenant r tenantID =
     (case (rp_db r, rp_live r) of
        (Some db, Some live) \<Rightarrow>
          (let t = TrimSpace tenantID in
           if t = [] then Inl TenantRequired
           else if rp_endpoint r = [] then Inl EndpointMissing
           else case resolveBillingIdentity r t of
             Inl e \<Rightarrow> Inl (IdentityFailed e)
           | Inr (org, aliases) \<Rightarrow>
               bind_result (usage_snapshot_of r db live org aliases) (\<lambda>snap. read_answer (rp_post r snap)))
      | _ \<Rightarrow> Inl NotConfigured)"

section \<open>A round over all tenants\<close>

text \<open>\<open>collate\<close> is the \<open>ORDER BY\<close> of the database.\<close>

definition listMeteredTenants :: "(string list \<Rightarrow> string list) \<Rightarrow> reporter \<Rightarrow> report_error + string list" where
  "listMeteredTenants collate r =
     (case rp_db r of
        None \<Rightarrow> Inl NotConfigured
      | Some db \<Rightarrow> Inr (collate (remdups (filter (\<lambda>t. t \<noteq> [])
          (map sa_tenant_id (ud_instances db) @ map ur_tenant_id (ud_records db) @ ud_browser_tenants db)))))"

text \<open>The groups, each an organization and its aliases; the index maps an organization to its position.\<close>

definition group_key :: "reporter \<Rightarrow> string \<Rightarrow> string" where
  "group_key r t =
     (case resolveBillingIdentity r t of
        Inr (org, _) \<Rightarrow> if TrimSpace org \<noteq> [] then org else t
      | Inl _ \<Rightarrow> t)"

fun group_loop ::
    "reporter \<Rightarrow> string list \<Rightarrow> (string \<times> string list) list \<Rightarrow> (string \<rightharpoonup> nat) \<Rightarrow> (string \<times> string list) list" where
  "group_loop r [] groups index = groups"
| "group_loop r (t # ts) groups index =
     (let k = group_key r t in
      case index k of
        Some i \<Rightarrow> group_loop r ts (groups[i := (fst (groups ! i), snd (groups ! i) @ [t])]) index
      | None \<Rightarrow> group_loop r ts (groups @ [(k, [t])]) (index(k \<mapsto> length groups)))"

definition groupTenantsByOrganization :: "reporter \<Rightarrow> string list \<Rightarrow> (string \<times> string list) list" where
  "groupTenantsByOrganization r ts = group_loop r ts [] Map.empty"

definition sandboxStopReason :: "billing_access \<Rightarrow> string" where
  "sandboxStopReason a =
     (if ba_BillingConfigured a \<and> \<not> ba_BillingActive a then ''subscription inactive''
      else if ba_StarterCreditMicros a > 0 then ''starter credit exhausted''
      else ''no active subscription or starter credit'')"

text \<open>What a round does to the sandbox manager, in order, and the errors it joins.\<close>

datatype stopper_call = StopCall string | SuspendCall string | ResumeCall string

datatype round_error =
    ReportFailed string report_error | ResumeFailed string string
  | StopFailed string string string | SuspendFailed string string

fun resume_aliases :: "stopper \<Rightarrow> string list \<Rightarrow> stopper_call list \<times> round_error list" where
  "resume_aliases s [] = ([], [])"
| "resume_aliases s (t # ts) =
     (case resume_aliases s ts of (cs, es) \<Rightarrow>
       (ResumeCall t # cs,
        (case sp_ResumeTenantAgents s t of Inl e \<Rightarrow> [ResumeFailed t e] | Inr _ \<Rightarrow> []) @ es))"

fun stop_aliases :: "stopper \<Rightarrow> string \<Rightarrow> string list \<Rightarrow> stopper_call list \<times> round_error list" where
  "stop_aliases s reason [] = ([], [])"
| "stop_aliases s reason (t # ts) =
     (case stop_aliases s reason ts of (cs, es) \<Rightarrow>
        case sp_StopTenantSandboxes s t of
          Inl e \<Rightarrow> (StopCall t # cs, StopFailed t reason e # es)
        | Inr _ \<Rightarrow>
            (StopCall t # SuspendCall t # cs,
             (case sp_SuspendTenantAgents s t of Inl e \<Rightarrow> [SuspendFailed t e] | Inr _ \<Rightarrow> []) @ es))"

definition report_group :: "reporter \<Rightarrow> string \<times> string list \<Rightarrow> stopper_call list \<times> round_error list" where
  "report_group r g =
     (case ReportTenant r (hd (snd g)) of
        Inl e \<Rightarrow> ([], [ReportFailed (hd (snd g)) e])
      | Inr a \<Rightarrow>
          (case rp_stopper r of
             None \<Rightarrow> ([], [])
           | Some s \<Rightarrow>
               if ba_SandboxAllowed a then resume_aliases s (snd g)
               else stop_aliases s (sandboxStopReason a) (snd g)))"

definition reportAll ::
    "(string list \<Rightarrow> string list) \<Rightarrow> reporter \<Rightarrow> report_error + stopper_call list \<times> round_error list" where
  "reportAll collate r =
     bind_result (listMeteredTenants collate r) (\<lambda>ts.
       let rs = map (report_group r) (groupTenantsByOrganization r ts)
       in Inr (concat (map fst rs), concat (map snd rs)))"

section \<open>Admission\<close>

text \<open>
  \<open>resolveSharedRuntimeBillingAccess\<close> and \<open>resolveSharedSandboxBilling\<close>; \<open>dbo\<close> is the platform database
  and \<open>reporter\<close> the interface, which may be nil.
\<close>

definition no_access :: billing_access where
  "no_access = \<lparr>ba_SandboxAllowed = False, ba_BillingConfigured = False, ba_BillingActive = False,
     ba_StarterCreditMicros = 0, ba_StarterCreditUsedMicros = 0, ba_StarterCreditRemainingMicros = 0\<rparr>"

definition resolveSharedRuntimeBillingAccess ::
    "(string \<Rightarrow> string) \<Rightarrow> identity_db option \<Rightarrow> (string \<Rightarrow> report_error + billing_access) option \<Rightarrow> string \<Rightarrow>
       report_error + string \<times> billing_access"
where
  "resolveSharedRuntimeBillingAccess lower dbo reporter tenantID =
     (let t = TrimSpace tenantID in
      if dbo = None \<or> t = [] then Inr ([], no_access)
      else case ResolveActiveOrganization lower dbo t of
        Inl NoOrganization \<Rightarrow> Inr ([], no_access)
      | Inl e \<Rightarrow> Inl (ActiveOrganizationFailed e)
      | Inr org \<Rightarrow>
          (case reporter of
             None \<Rightarrow> Inl ReporterMissing
           | Some report \<Rightarrow> bind_result (report t) (\<lambda>a. Inr (o_Tier org, a))))"

definition resolveSharedSandboxBilling ::
    "(string \<Rightarrow> string) \<Rightarrow> identity_db option \<Rightarrow> (string \<Rightarrow> report_error + billing_access) option \<Rightarrow> string \<Rightarrow>
       report_error + bool"
where
  "resolveSharedSandboxBilling lower dbo reporter tenantID =
     bind_result (resolveSharedRuntimeBillingAccess lower dbo reporter tenantID) (\<lambda>(_, a). Inr (ba_SandboxAllowed a))"

end
