(* ===== verification/WalletEnforcement.thy ===== *)
theory WalletEnforcement
  imports WalletReporter
begin

text \<open>
  A round of the usage reporter: the groups it forms are those of the organizations, and what it does
  to a tenant is what billing answered for that tenant.
\<close>

section \<open>Grouping\<close>

definition firsts :: "'a list \<Rightarrow> 'a list" where
  "firsts ks = rev (remdups (rev ks))"

lemma firsts_simps [simp]:
  "firsts [] = []" "firsts (ks @ [k]) = firsts ks @ (if k \<in> set ks then [] else [k])"
  "set (firsts ks) = set ks" "distinct (firsts ks)"
  by (simp_all add: firsts_def)

text \<open>Each organization in the order it is first met, with its tenants in the order of the list.\<close>

definition tenant_groups :: "(string \<Rightarrow> string) \<Rightarrow> string list \<Rightarrow> (string \<times> string list) list" where
  "tenant_groups key ts = map (\<lambda>k. (k, filter (\<lambda>t. key t = k) ts)) (firsts (map key ts))"

definition index_of_keys :: "(string \<times> string list) list \<Rightarrow> (string \<rightharpoonup> nat) \<Rightarrow> bool" where
  "index_of_keys groups index \<longleftrightarrow>
     (\<forall>k i. index k = Some i \<longleftrightarrow> i < length groups \<and> fst (groups ! i) = k)"

lemma index_None:
  assumes "index_of_keys groups index"
  shows "index k = None \<longleftrightarrow> k \<notin> fst ` set groups"
proof -
  have "k \<in> fst ` set groups \<longleftrightarrow> (\<exists>i. i < length groups \<and> fst (groups ! i) = k)"
    by (auto simp: set_conv_nth)
  also have "\<dots> \<longleftrightarrow> (\<exists>i. index k = Some i)" using assms by (simp add: index_of_keys_def)
  finally show ?thesis by simp
qed

lemma tenant_groups_known:
  assumes "key t \<in> set (map key ts)" "i < length (tenant_groups key ts)" "fst (tenant_groups key ts ! i) = key t"
  shows "tenant_groups key (ts @ [t]) =
    (tenant_groups key ts)[i := (fst (tenant_groups key ts ! i), snd (tenant_groups key ts ! i) @ [t])]"
proof (rule nth_equalityI)
  show "length (tenant_groups key (ts @ [t])) = length ((tenant_groups key ts)
      [i := (fst (tenant_groups key ts ! i), snd (tenant_groups key ts ! i) @ [t])])"
    using assms(1) by (simp add: tenant_groups_def)
next
  fix j assume "j < length (tenant_groups key (ts @ [t]))"
  then have j: "j < length (firsts (map key ts))" using assms(1) by (auto simp: tenant_groups_def)
  have i: "i < length (firsts (map key ts))" "firsts (map key ts) ! i = key t"
    using assms(2,3) by (simp_all add: tenant_groups_def)
  have "firsts (map key ts) ! j = key t \<longleftrightarrow> j = i"
    using i j nth_eq_iff_index_eq [OF firsts_simps(4), of j "map key ts" i] by auto
  with i j assms(1) show "tenant_groups key (ts @ [t]) ! j = (tenant_groups key ts)
      [i := (fst (tenant_groups key ts ! i), snd (tenant_groups key ts ! i) @ [t])] ! j"
    by (cases "j = i") (auto simp: tenant_groups_def)
qed

lemma tenant_groups_new:
  assumes "key t \<notin> set (map key ts)"
  shows "tenant_groups key (ts @ [t]) = tenant_groups key ts @ [(key t, [t])]"
proof -
  have "filter (\<lambda>s. key s = key t) ts = []" using assms by (intro filter_False ballI) (metis image_eqI set_map)
  moreover have "filter (\<lambda>s. key s = k) (ts @ [t]) = filter (\<lambda>s. key s = k) ts" if "k \<in> set (map key ts)" for k
    using that assms by auto
  ultimately show ?thesis using assms by (auto simp: tenant_groups_def)
qed

lemma group_loop_exact:
  assumes "groups = tenant_groups (group_key r) done" "index_of_keys groups index"
  shows "group_loop r ts groups index = tenant_groups (group_key r) (done @ ts)"
  using assms
proof (induction ts arbitrary: "done" groups index)
  case (Cons t ts)
  let ?k = "group_key r t"
  have keys: "fst ` set groups = set (map (group_key r) done)"
    using Cons.prems(1) by (force simp: tenant_groups_def)
  show ?case
  proof (cases "index ?k")
    case None
    then have new: "?k \<notin> set (map (group_key r) done)" using index_None [OF Cons.prems(2)] keys by simp
    have "index_of_keys (groups @ [(?k, [t])]) (index(?k \<mapsto> length groups))"
      unfolding index_of_keys_def
    proof (intro allI)
      fix k i
      have old: "index k' = Some i' \<longleftrightarrow> i' < length groups \<and> fst (groups ! i') = k'" for k' i'
        using Cons.prems(2) by (simp add: index_of_keys_def)
      show "(index(?k \<mapsto> length groups)) k = Some i \<longleftrightarrow>
          i < length (groups @ [(?k, [t])]) \<and> fst ((groups @ [(?k, [t])]) ! i) = k"
        using old [of k i] old [of ?k i] None by (auto simp: nth_append less_Suc_eq)
    qed
    from Cons.IH [OF _ this, of "done @ [t]"] None new Cons.prems(1) show ?thesis
      by (simp add: Let_def tenant_groups_new fun_upd_def)
  next
    case (Some i)
    then have i: "i < length groups" "fst (groups ! i) = ?k" using Cons.prems(2) by (simp_all add: index_of_keys_def)
    then have known: "?k \<in> set (map (group_key r) done)" using keys by (metis image_eqI nth_mem)
    let ?g = "groups[i := (fst (groups ! i), snd (groups ! i) @ [t])]"
    have "index_of_keys ?g index"
      using Cons.prems(2) i by (auto simp: index_of_keys_def nth_list_update)
    moreover have "?g = tenant_groups (group_key r) (done @ [t])"
      using tenant_groups_known [of "group_key r" t "done" i] known i Cons.prems(1) by simp
    ultimately show ?thesis using Cons.IH [of ?g "done @ [t]" index] Some by (simp add: Let_def)
  qed
qed (simp add: tenant_groups_def)

lemma groups_exact: "groupTenantsByOrganization r ts = tenant_groups (group_key r) ts"
  using group_loop_exact [of "[]" r "[]" Map.empty ts]
  by (simp add: groupTenantsByOrganization_def tenant_groups_def index_of_keys_def)

section \<open>What a round does to a tenant\<close>

lemma stop_calls:
  "StopCall t \<in> set (fst (stop_aliases s reason as)) \<longleftrightarrow> t \<in> set as"
  "SuspendCall t \<in> set (fst (stop_aliases s reason as)) \<longleftrightarrow> t \<in> set as \<and> \<not> isl (sp_StopTenantSandboxes s t)"
  "ResumeCall t \<notin> set (fst (stop_aliases s reason as))"
  by (induction as) (auto split: prod.splits sum.splits)

lemma resume_calls:
  "ResumeCall t \<in> set (fst (resume_aliases s as)) \<longleftrightarrow> t \<in> set as"
  "StopCall t \<notin> set (fst (resume_aliases s as))" "SuspendCall t \<notin> set (fst (resume_aliases s as))"
  by (induction as) (auto split: prod.splits)

text \<open>The tenant a call is about.\<close>

fun call_tenant :: "stopper_call \<Rightarrow> string" where
  "call_tenant (StopCall t) = t"
| "call_tenant (SuspendCall t) = t"
| "call_tenant (ResumeCall t) = t"

lemma calls_members:
  "c \<in> set (fst (stop_aliases s reason as)) \<Longrightarrow> call_tenant c \<in> set as"
  "c \<in> set (fst (resume_aliases s as)) \<Longrightarrow> call_tenant c \<in> set as"
  by (induction as) (auto split: prod.splits sum.splits)

lemma group_calls_members:
  "c \<in> set (fst (report_group r g)) \<Longrightarrow> call_tenant c \<in> set (snd g)"
  using calls_members [of c] by (simp add: report_group_def split: sum.splits option.splits if_splits)

definition calls_for :: "string \<Rightarrow> stopper_call list \<Rightarrow> stopper_call set" where
  "calls_for t cs = {c \<in> set cs. call_tenant c = t}"

lemma round_calls_of_group:
  assumes "reportAll collate r = Inr (calls, errs)" "listMeteredTenants collate r = Inr ts" "t \<in> set ts"
  shows "calls_for t calls = calls_for t (fst (report_group r
           (group_key r t, filter (\<lambda>s. group_key r s = group_key r t) ts)))"
proof -
  let ?g = "\<lambda>k. (k, filter (\<lambda>s. group_key r s = k) ts)"
  have calls: "set calls = (\<Union>k \<in> group_key r ` set ts. set (fst (report_group r (?g k))))"
    using assms(1,2) by (auto simp: reportAll_def Let_def groups_exact tenant_groups_def)
  have other: "k = group_key r t" if "c \<in> set (fst (report_group r (?g k)))" "call_tenant c = t" for c k
    using group_calls_members [OF that(1)] that(2) by auto
  show ?thesis
  proof (intro set_eqI iffI)
    fix c assume "c \<in> calls_for t calls"
    then obtain k where "c \<in> set (fst (report_group r (?g k)))" "call_tenant c = t"
      unfolding calls_for_def calls by auto
    with other [OF this] show "c \<in> calls_for t (fst (report_group r (?g (group_key r t))))"
      by (simp add: calls_for_def)
  next
    fix c assume "c \<in> calls_for t (fst (report_group r (?g (group_key r t))))"
    with assms(3) show "c \<in> calls_for t calls" unfolding calls_for_def calls by blast
  qed
qed

lemma round_errors_of_group:
  assumes "reportAll collate r = Inr (calls, errs)" "listMeteredTenants collate r = Inr ts" "t \<in> set ts"
  shows "set (snd (report_group r (group_key r t, filter (\<lambda>s. group_key r s = group_key r t) ts))) \<subseteq> set errs"
  using assms by (auto simp: reportAll_def Let_def groups_exact tenant_groups_def)

text \<open>Every member of a group gets the answer of its first one.\<close>

definition identities_sound :: "reporter \<Rightarrow> bool" where
  "identities_sound r \<longleftrightarrow> (case rp_billingDB r of None \<Rightarrow> True | Some db \<Rightarrow> identity_wf db)"

lemma same_key_same_identity:
  assumes sound: "identities_sound r" and key: "group_key r s = group_key r t"
    and trim: "TrimSpace s = s" "s \<noteq> []" "TrimSpace t = t" "t \<noteq> []"
  shows "resolveBillingIdentity r s = resolveBillingIdentity r t"
proof (cases "rp_billingDB r")
  case None
  with key show ?thesis by (simp add: group_key_def resolveBillingIdentity_def split: if_splits)
next
  case (Some db)
  with sound have wf: "identity_wf db" by (simp add: identities_sound_def)
  let ?org = "\<lambda>o'. \<lparr>o_ID = og_id o', o_Tier = rp_lower r (sql_trim (og_plan_tier o'))\<rparr>"
  have listed: "\<exists>as. ListOrganizationAliases (Some db) (og_id o') = Inr as \<and> TrimSpace (og_id o') \<noteq> []"
    if "o' \<in> set (id_organizations db)" for o'
    using wf that by (auto simp: identity_wf_def ListOrganizationAliases_def)
  have cases: "(\<exists>o' as. o' \<in> set (id_organizations db) \<and> ListOrganizationAliases (Some db) (og_id o') = Inr as \<and>
        ResolveOrganization (rp_lower r) (Some db) u = Inr (?org o') \<and>
        resolveBillingIdentity r u = Inr (og_id o', as) \<and> group_key r u = og_id o') \<or>
      ((\<forall>o' \<in> set (id_organizations db). \<not> identified_by (\<lambda>_. True) db u o') \<and> group_key r u = u)"
    if u: "TrimSpace u = u" "u \<noteq> []" for u
  proof (cases "\<exists>o' \<in> set (id_organizations db). identified_by (\<lambda>_. True) db u o'")
    case True
    then obtain o' where o': "o' \<in> set (id_organizations db)" "identified_by (\<lambda>_. True) db u o'" by blast
    have "ResolveOrganization (rp_lower r) (Some db) u = Inr (?org o')"
      using resolve_unique [OF wf _ o'] u by (simp add: ResolveOrganization_def)
    moreover from listed [OF o'(1)] obtain as where
      "ListOrganizationAliases (Some db) (og_id o') = Inr as" "TrimSpace (og_id o') \<noteq> []" by blast
    ultimately show ?thesis using o' Some by (auto simp: resolveBillingIdentity_def group_key_def)
  next
    case False
    then have "filter (identified_by (\<lambda>_. True) db u) (id_organizations db) = []" by (auto simp: filter_empty_conv)
    with False Some u show ?thesis
      by (auto simp: resolveBillingIdentity_def group_key_def ResolveOrganization_def resolveOrganization_def)
  qed
  have own: "identified_by (\<lambda>_. True) db (og_id o') o'" for o' by (simp add: identified_by_def)
  show ?thesis
    using cases [OF trim(1,2)] cases [OF trim(3,4)] key own by (elim disjE exE conjE) auto
qed

lemma same_key_same_report:
  assumes "identities_sound r" "group_key r s = group_key r t"
    and "TrimSpace s = s" "s \<noteq> []" "TrimSpace t = t" "t \<noteq> []"
  shows "ReportTenant r s = ReportTenant r t"
  using same_key_same_identity [OF assms] assms(3-6) by (simp add: ReportTenant_def split: option.splits)

lemma group_report:
  assumes "identities_sound r" "t \<in> set ts" "\<forall>s \<in> set ts. TrimSpace s = s \<and> s \<noteq> []"
  defines "as \<equiv> filter (\<lambda>s. group_key r s = group_key r t) ts"
  shows "ReportTenant r (hd as) = ReportTenant r t" "group_key r (hd as) = group_key r t" "t \<in> set as"
proof -
  show "t \<in> set as" using assms(2) by (simp add: as_def)
  then have "hd as \<in> set as" by (cases as) auto
  then have hd: "hd as \<in> set ts" "group_key r (hd as) = group_key r t" by (simp_all add: as_def)
  then show "group_key r (hd as) = group_key r t" by simp
  from same_key_same_report [OF assms(1) hd(2)] hd(1) assms(2,3)
  show "ReportTenant r (hd as) = ReportTenant r t" by blast
qed

lemma calls_for_aliases:
  assumes "t \<in> set as"
  shows "calls_for t (fst (resume_aliases s as)) = {ResumeCall t}"
    "calls_for t (fst (stop_aliases s reason as)) =
       insert (StopCall t) (if isl (sp_StopTenantSandboxes s t) then {} else {SuspendCall t})"
proof -
  have "call_tenant c = t \<longleftrightarrow> c = StopCall t \<or> c = SuspendCall t \<or> c = ResumeCall t" for c
    by (cases c) auto
  then show "calls_for t (fst (resume_aliases s as)) = {ResumeCall t}"
    "calls_for t (fst (stop_aliases s reason as)) =
       insert (StopCall t) (if isl (sp_StopTenantSandboxes s t) then {} else {SuspendCall t})"
    using assms stop_calls [of t s] resume_calls [of t s] by (auto simp: calls_for_def)
qed

lemma round_of_tenant:
  assumes sound: "identities_sound r" "\<forall>s \<in> set ts. TrimSpace s = s \<and> s \<noteq> []"
    and round: "reportAll collate r = Inr (calls, errs)" "listMeteredTenants collate r = Inr ts" "t \<in> set ts"
  shows "case ReportTenant r t of
      Inl e \<Rightarrow> calls_for t calls = {} \<and> (\<exists>s. group_key r s = group_key r t \<and> ReportFailed s e \<in> set errs)
    | Inr a \<Rightarrow> (case rp_stopper r of
          None \<Rightarrow> calls_for t calls = {}
        | Some st \<Rightarrow> calls_for t calls =
            (if ba_SandboxAllowed a then {ResumeCall t}
             else insert (StopCall t) (if isl (sp_StopTenantSandboxes st t) then {} else {SuspendCall t})))"
proof -
  let ?as = "filter (\<lambda>s. group_key r s = group_key r t) ts"
  note hd = group_report [OF sound(1) round(3) sound(2)]
  note eq = round_calls_of_group [OF round] round_errors_of_group [OF round]
  show ?thesis
  proof (cases "ReportTenant r t")
    case (Inl e)
    then have "report_group r (group_key r t, ?as) = ([], [ReportFailed (hd ?as) e])"
      by (simp add: report_group_def hd)
    with eq hd(2) Inl show ?thesis by (auto simp: calls_for_def)
  next
    case (Inr a)
    with eq(1) hd(1) calls_for_aliases [OF hd(3)] show ?thesis
      by (simp add: report_group_def calls_for_def split: option.split)
  qed
qed

text \<open>
  C27: Enforcement follows billing. A round groups the metered tenants by organization, each tenant in
  exactly one group and in the order of the list, and reports one tenant of each; what it does to any
  tenant is nevertheless what billing answers for that tenant: if compute is refused its sandboxes are
  stopped and, when that succeeded, its agents parked; if it is allowed its agents are released and
  nothing else; and a failed report touches nothing and is returned as an error.
\<close>

theorem enforcement_follows_billing:
  assumes "identities_sound r" "\<forall>s \<in> set ts. TrimSpace s = s \<and> s \<noteq> []"
    and "reportAll collate r = Inr (calls, errs)" "listMeteredTenants collate r = Inr ts" "t \<in> set ts"
  shows "groupTenantsByOrganization r ts = tenant_groups (group_key r) ts \<and>
    (case ReportTenant r t of
      Inl e \<Rightarrow> calls_for t calls = {} \<and> (\<exists>s. group_key r s = group_key r t \<and> ReportFailed s e \<in> set errs)
    | Inr a \<Rightarrow> (case rp_stopper r of
          None \<Rightarrow> calls_for t calls = {}
        | Some st \<Rightarrow> calls_for t calls =
            (if ba_SandboxAllowed a then {ResumeCall t}
             else insert (StopCall t) (if isl (sp_StopTenantSandboxes st t) then {} else {SuspendCall t}))))"
  using groups_exact round_of_tenant [OF assms] by blast

definition demo_answer :: "usage_snapshot \<Rightarrow> post_result" where
  "demo_answer snap = Answered 200 (Some \<lparr>br_SandboxAllowed = Some False, br_BillingConfigured = False,
     br_BillingActive = False, br_StarterCreditMicros = 5, br_StarterCreditUsedMicros = 5,
     br_StarterCreditRemainingMicros = 0\<rparr>)"

definition demo_reporter :: reporter where
  "demo_reporter =
     \<lparr>rp_db = Some \<lparr>ud_records = [\<lparr>ur_tenant_id = ''old'', ur_duration_seconds = 60, ur_cost_total_usd = 1\<rparr>],
                    ud_instances = [], ud_browser_tenants = [''org'']\<rparr>,
      rp_billingDB = Some example_identity, rp_live = Some (\<lambda>_. (0, 0)), rp_browser = None,
      rp_endpoint = ''http://billing'', rp_instanceID = ''plane'', rp_post = demo_answer,
      rp_stopper = Some \<lparr>sp_StopTenantSandboxes = (\<lambda>_. Inr 1), sp_SuspendTenantAgents = (\<lambda>_. Inr 1),
                         sp_ResumeTenantAgents = (\<lambda>_. Inr 0)\<rparr>,
      rp_lower = id, rp_rnd = id, rp_ovf = (\<lambda>_. 0)\<rparr>"

lemma demo_round:
  "reportAll id demo_reporter =
     Inr ([StopCall ''old'', SuspendCall ''old'', StopCall ''org'', SuspendCall ''org''], [])"
  "listMeteredTenants id demo_reporter = Inr [''old'', ''org'']"
  by code_simp+

theorem enforcement_follows_billing_witness:
  "case ReportTenant demo_reporter ''old'' of
     Inl e \<Rightarrow> False
   | Inr a \<Rightarrow> \<not> ba_SandboxAllowed a \<and>
       calls_for ''old'' [StopCall ''old'', SuspendCall ''old'', StopCall ''org'', SuspendCall ''org''] =
         {StopCall ''old'', SuspendCall ''old''}"
proof -
  have sound: "identities_sound demo_reporter"
    using example_identity_wf by (simp add: identities_sound_def demo_reporter_def)
  have trim: "\<forall>s \<in> set [''old'', ''org'']. TrimSpace s = s \<and> s \<noteq> []" using example_ids by simp
  have refused: "(case ReportTenant demo_reporter ''old'' of Inl e \<Rightarrow> False | Inr a \<Rightarrow> \<not> ba_SandboxAllowed a)"
    by code_simp
  obtain s where stopper: "rp_stopper demo_reporter = Some s" "sp_StopTenantSandboxes s ''old'' = Inr 1"
    by (simp add: demo_reporter_def)
  from enforcement_follows_billing [OF sound trim demo_round, of "''old''"] refused stopper show ?thesis
    by (auto split: sum.splits)
qed

text \<open>
  A tenant no organization owns keeps a group of its own, which the code does so that it is not dropped
  from enforcement; but the report of that group resolves the tenant again, fails, and the round does
  nothing to it.
\<close>

lemma unresolved_tenant_not_enforced:
  assumes "identities_sound r" "\<forall>s \<in> set ts. TrimSpace s = s \<and> s \<noteq> []"
    and "reportAll collate r = Inr (calls, errs)" "listMeteredTenants collate r = Inr ts" "t \<in> set ts"
    and "rp_billingDB r = Some db" "\<not> (\<exists>o' \<in> set (id_organizations db). identified_by (\<lambda>_. True) db t o')"
  shows "calls_for t calls = {}"
proof -
  have "filter (identified_by (\<lambda>_. True) db t) (id_organizations db) = []"
    using assms(7) by (auto simp: filter_empty_conv)
  then have "resolveBillingIdentity r t = Inl NoOrganization"
    using assms(2,5,6) by (auto simp: resolveBillingIdentity_def ResolveOrganization_def resolveOrganization_def)
  then have "\<exists>e. ReportTenant r t = Inl e"
    using assms(2,5) by (auto simp: ReportTenant_def Let_def split: option.split)
  with round_of_tenant [OF assms(1-5)] show ?thesis by auto
qed

text \<open>Admission fails closed: it needs an active organization, a reporter and a positive answer.\<close>

lemma admission_fails_closed:
  "resolveSharedSandboxBilling lower dbo reporter tenantID = Inr True \<longleftrightarrow>
     (\<exists>org report a. dbo \<noteq> None \<and> TrimSpace tenantID \<noteq> [] \<and>
        ResolveActiveOrganization lower dbo (TrimSpace tenantID) = Inr org \<and>
        reporter = Some report \<and> report (TrimSpace tenantID) = Inr a \<and> ba_SandboxAllowed a)"
  by (auto simp: resolveSharedSandboxBilling_def resolveSharedRuntimeBillingAccess_def Let_def go_result
      no_access_def split: sum.splits identity_error.splits option.splits if_splits)

end
