(* ===== verification/GatewayLimits.thy ===== *)
theory GatewayLimits
  imports GoInt
begin

text \<open>
  What the gateway knows of the providers' rate limits (\<open>internal/providers/ratelimit/monitor.go\<close>,
  \<open>config.go\<close>): the figures parsed from response headers, kept per provider or per key, and the
  question whether a provider may be asked now. Instants are nanoseconds; the current one is an
  argument.
\<close>

section \<open>Figures\<close>

record rate_limit_info =
  rl_Provider :: string
  rl_KeyID :: string
  rl_Model :: string
  rl_Timestamp :: int
  rl_RequestLimit :: int
  rl_RequestRemaining :: int
  rl_RequestReset :: int
  rl_TokenLimit :: int
  rl_TokenRemaining :: int
  rl_TokenReset :: int
  rl_IsRateLimited :: bool
  rl_RetryAfter :: int

text \<open>The zero value of a struct that sets only the provider and the model; \<open>time.Time{}\<close> is year 1.\<close>

definition zero_time :: int where
  "zero_time = - 62135596800 * 1000000000"

definition bare_info :: "string \<Rightarrow> string \<Rightarrow> int \<Rightarrow> rate_limit_info" where
  "bare_info provider model t =
     \<lparr>rl_Provider = provider, rl_KeyID = [], rl_Model = model, rl_Timestamp = t, rl_RequestLimit = 0,
      rl_RequestRemaining = 0, rl_RequestReset = 0, rl_TokenLimit = 0, rl_TokenRemaining = 0, rl_TokenReset = 0,
      rl_IsRateLimited = False, rl_RetryAfter = 0\<rparr>"

section \<open>Headers\<close>

record rateLimitHeaderMap =
  hm_ReqLimit :: "string list"
  hm_ReqRemaining :: "string list"
  hm_ReqReset :: "string list"
  hm_TokenLimit :: "string list"
  hm_TokenRemaining :: "string list"
  hm_TokenReset :: "string list"
  hm_RetryAfter :: "string list"

definition stdHeaderMap :: rateLimitHeaderMap where
  "stdHeaderMap =
     \<lparr>hm_ReqLimit = [''x-ratelimit-limit'', ''rate-limit-limit''],
      hm_ReqRemaining = [''x-ratelimit-remaining'', ''rate-limit-remaining''],
      hm_ReqReset = [''x-ratelimit-reset'', ''rate-limit-reset''],
      hm_TokenLimit = [''x-ratelimit-limit-tokens'', ''rate-limit-limit-tokens''],
      hm_TokenRemaining = [''x-ratelimit-remaining-tokens'', ''rate-limit-remaining-tokens''],
      hm_TokenReset = [''x-ratelimit-reset-tokens'', ''rate-limit-reset-tokens''],
      hm_RetryAfter = [''retry-after'']\<rparr>"

definition openaiHeaderMap :: rateLimitHeaderMap where
  "openaiHeaderMap =
     \<lparr>hm_ReqLimit = ''x-ratelimit-limit-requests'' # hm_ReqLimit stdHeaderMap,
      hm_ReqRemaining = ''x-ratelimit-remaining-requests'' # hm_ReqRemaining stdHeaderMap,
      hm_ReqReset = ''x-ratelimit-reset-requests'' # hm_ReqReset stdHeaderMap,
      hm_TokenLimit = ''x-ratelimit-limit-tokens'' # hm_TokenLimit stdHeaderMap,
      hm_TokenRemaining = ''x-ratelimit-remaining-tokens'' # hm_TokenRemaining stdHeaderMap,
      hm_TokenReset = ''x-ratelimit-reset-tokens'' # hm_TokenReset stdHeaderMap,
      hm_RetryAfter = [''retry-after'']\<rparr>"

definition anthropicHeaderMap :: rateLimitHeaderMap where
  "anthropicHeaderMap =
     \<lparr>hm_ReqLimit = ''anthropic-ratelimit-requests-limit'' # hm_ReqLimit stdHeaderMap,
      hm_ReqRemaining = ''anthropic-ratelimit-requests-remaining'' # hm_ReqRemaining stdHeaderMap,
      hm_ReqReset = ''anthropic-ratelimit-requests-reset'' # hm_ReqReset stdHeaderMap,
      hm_TokenLimit = ''anthropic-ratelimit-tokens-limit'' # hm_TokenLimit stdHeaderMap,
      hm_TokenRemaining = ''anthropic-ratelimit-tokens-remaining'' # hm_TokenRemaining stdHeaderMap,
      hm_TokenReset = ''anthropic-ratelimit-tokens-reset'' # hm_TokenReset stdHeaderMap,
      hm_RetryAfter = [''retry-after'']\<rparr>"

definition providerHeaderMaps :: "string \<Rightarrow> rateLimitHeaderMap" where
  "providerHeaderMaps p =
     (if p = ''openai'' then openaiHeaderMap
      else if p = ''anthropic'' then anthropicHeaderMap else stdHeaderMap)"

text \<open>
  \<open>hdr\<close> is \<open>http.Header.Get\<close>, the empty string for an absent header. The parsers of durations and of
  RFC 3339 timestamps and the lower-casing are the standard library's, arguments.
\<close>

record time_lib =
  tl_ParseDuration :: "string \<Rightarrow> int option"
  tl_ParseRFC3339 :: "string \<Rightarrow> int option"
  tl_ToLower :: "string \<Rightarrow> string"

fun firstInt :: "(string \<Rightarrow> string) \<Rightarrow> string list \<Rightarrow> int option" where
  "firstInt hdr [] = None"
| "firstInt hdr (k # ks) =
     (let v = TrimSpace (hdr k) in
      if v = [] then firstInt hdr ks
      else case atoi v of Some n \<Rightarrow> Some n | None \<Rightarrow> firstInt hdr ks)"

definition whole_seconds :: "int \<Rightarrow> int" where
  "whole_seconds d = sgn d * (\<bar>d\<bar> div 1000000000)"

fun firstResetSeconds :: "time_lib \<Rightarrow> int \<Rightarrow> (string \<Rightarrow> string) \<Rightarrow> string list \<Rightarrow> int option" where
  "firstResetSeconds lib now hdr [] = None"
| "firstResetSeconds lib now hdr (k # ks) =
     (let v = TrimSpace (hdr k) in
      if v = [] then firstResetSeconds lib now hdr ks
      else case tl_ParseDuration lib v of
        Some d \<Rightarrow> Some (whole_seconds d)
      | None \<Rightarrow> (case atoi v of
          Some n \<Rightarrow> Some n
        | None \<Rightarrow> (case tl_ParseRFC3339 lib v of
            Some ts \<Rightarrow> Some (whole_seconds (time_sub ts now))
          | None \<Rightarrow> firstResetSeconds lib now hdr ks)))"

definition ParseHeaders :: "time_lib \<Rightarrow> int \<Rightarrow> (string \<Rightarrow> string) \<Rightarrow> string \<Rightarrow> string \<Rightarrow> rate_limit_info" where
  "ParseHeaders lib now hdr provider model =
     (let m = providerHeaderMaps (tl_ToLower lib (TrimSpace provider));
          field = (\<lambda>ks. case firstInt hdr ks of Some n \<Rightarrow> n | None \<Rightarrow> 0);
          reset = (\<lambda>ks. case firstResetSeconds lib now hdr ks of Some n \<Rightarrow> n | None \<Rightarrow> 0)
      in (bare_info provider model now)
           \<lparr>rl_RequestLimit := field (hm_ReqLimit m), rl_RequestRemaining := field (hm_ReqRemaining m),
            rl_RequestReset := reset (hm_ReqReset m), rl_TokenLimit := field (hm_TokenLimit m),
            rl_TokenRemaining := field (hm_TokenRemaining m), rl_TokenReset := reset (hm_TokenReset m),
            rl_IsRateLimited := (firstInt hdr (hm_RetryAfter m) \<noteq> None),
            rl_RetryAfter := field (hm_RetryAfter m)\<rparr>)"

section \<open>The monitor\<close>

text \<open>The subscribers are their ids in any order; a callback runs by itself.\<close>

record monitor =
  mo_providers :: "string \<rightharpoonup> rate_limit_info"
  mo_subscribers :: "nat list"
  mo_nextSubID :: nat

definition NewMonitor :: monitor where
  "NewMonitor = \<lparr>mo_providers = Map.empty, mo_subscribers = [], mo_nextSubID = 0\<rparr>"

definition Subscribe_limits :: "monitor \<Rightarrow> nat \<times> monitor" where
  "Subscribe_limits m =
     (mo_nextSubID m, m\<lparr>mo_nextSubID := mo_nextSubID m + 1, mo_subscribers := mo_subscribers m @ [mo_nextSubID m]\<rparr>)"

definition Unsubscribe_limits :: "nat \<Rightarrow> monitor \<Rightarrow> monitor" where
  "Unsubscribe_limits i m = m\<lparr>mo_subscribers := filter (\<lambda>j. j \<noteq> i) (mo_subscribers m)\<rparr>"

definition providerEntryTTL :: int where
  "providerEntryTTL = 3600 * 1000000000"

definition evictStaleProviders :: "int \<Rightarrow> (string \<rightharpoonup> rate_limit_info) \<Rightarrow> (string \<rightharpoonup> rate_limit_info)" where
  "evictStaleProviders now ps =
     (\<lambda>k. case ps k of
        Some i \<Rightarrow> if rl_Timestamp i < now - providerEntryTTL then None else Some i
      | None \<Rightarrow> None)"

definition tracking_key :: "rate_limit_info \<Rightarrow> string" where
  "tracking_key i = (if rl_KeyID i \<noteq> [] then rl_Provider i @ '':'' @ rl_KeyID i else rl_Provider i)"

text \<open>The update and the subscribers it notifies.\<close>

definition Update_limits :: "int \<Rightarrow> rate_limit_info \<Rightarrow> monitor \<Rightarrow> monitor \<times> nat list" where
  "Update_limits now i m =
     (m\<lparr>mo_providers := evictStaleProviders now ((mo_providers m)(tracking_key i \<mapsto> i))\<rparr>, mo_subscribers m)"

definition GetStatus :: "string \<Rightarrow> monitor \<Rightarrow> rate_limit_info option" where
  "GetStatus key m = mo_providers m key"

definition IsRateLimited :: "int \<Rightarrow> string \<Rightarrow> monitor \<Rightarrow> bool" where
  "IsRateLimited now key m =
     (case GetStatus key m of
        None \<Rightarrow> False
      | Some i \<Rightarrow>
          if rl_IsRateLimited i \<and> rl_RetryAfter i > 0
          then time_sub now (rl_Timestamp i) < in_seconds (rl_RetryAfter i)
          else rl_RequestRemaining i < 10 \<or> rl_TokenRemaining i < 1000)"

definition ShouldBackoff :: "int \<Rightarrow> string \<Rightarrow> monitor \<Rightarrow> bool \<times> int" where
  "ShouldBackoff now key m =
     (case GetStatus key m of
        None \<Rightarrow> (False, 0)
      | Some i \<Rightarrow>
          let remaining = wrap64 (in_seconds (rl_RetryAfter i) - time_sub now (rl_Timestamp i)) in
          if rl_IsRateLimited i \<and> rl_RetryAfter i > 0 \<and> remaining > 0 then (True, remaining)
          else if rl_RequestRemaining i \<le> 5 then (True, in_seconds (rl_RequestReset i))
          else if rl_TokenRemaining i \<le> 500 then (True, in_seconds (rl_TokenReset i))
          else (False, 0))"

end
