(* ===== verification/GatewaySelector.thy ===== *)
theory GatewaySelector
  imports GatewayLimits "HOL-Library.Word" "HOL-Library.Char_ord" "HOL-Library.List_Lexorder"
begin

unbundle bit_operations_syntax

text \<open>
  The sticky weighted choice: of an API key (\<open>internal/services/api_key_selector/service.go\<close>) and of a
  model when the request names none (\<open>selectOmittedModel\<close> in
  \<open>internal/api/grpc/gateway/v1/server.go\<close>). A sticky key is hashed with the 32-bit FNV-1a hash, reduced to a
  point of the cumulated weights, and the point is found by binary search.
\<close>

section \<open>Hash and search\<close>

text \<open>\<open>fnv.New32a\<close>: exclusive or with the byte, then multiplication, modulo \<open>2^32\<close>.\<close>

definition fnv32a :: "string \<Rightarrow> 32 word" where
  "fnv32a s = foldl (\<lambda>h c. (h XOR of_nat (of_char c)) * 16777619) 2166136261 s"

text \<open>\<open>sort.SearchInts\<close>: the loop of \<open>sort.Search\<close> over \<open>[i, j)\<close>.\<close>

function search_loop :: "int list \<Rightarrow> int \<Rightarrow> nat \<Rightarrow> nat \<Rightarrow> nat" where
  "search_loop a x i j =
     (if i < j then
        (let h = (i + j) div 2 in
         if a ! h < x then search_loop a x (h + 1) j else search_loop a x i h)
      else i)"
  by pat_completeness auto

termination
  by (relation "measure (\<lambda>(a, x, i, j). j - i)") (auto simp: Let_def)

declare search_loop.simps [simp del]

definition SearchInts :: "int list \<Rightarrow> int \<Rightarrow> nat" where
  "SearchInts a x = search_loop a x 0 (length a)"

text \<open>The first position whose entry reaches \<open>x\<close>, the contract of the search on a sorted slice.\<close>

fun first_reaching :: "int list \<Rightarrow> int \<Rightarrow> nat" where
  "first_reaching [] x = 0"
| "first_reaching (y # ys) x = (if y < x then Suc (first_reaching ys x) else 0)"

lemma first_reaching_le: "first_reaching a x \<le> length a"
  by (induction a) auto

lemma first_reaching_before: "k < first_reaching a x \<Longrightarrow> a ! k < x"
proof (induction a arbitrary: k)
  case (Cons y ys)
  then show ?case by (cases k) (auto split: if_splits)
qed simp

lemma first_reaching_at: "first_reaching a x < length a \<Longrightarrow> \<not> a ! first_reaching a x < x"
  by (induction a) auto

lemma search_loop_exact:
  assumes "sorted a" "i \<le> first_reaching a x" "first_reaching a x \<le> j" "j \<le> length a"
  shows "search_loop a x i j = first_reaching a x"
  using assms
proof (induction a x i j rule: search_loop.induct)
  case (1 a x i j)
  let ?f = "first_reaching a x" and ?h = "(i + j) div 2"
  show ?case
  proof (cases "i < j")
    case False
    with 1 show ?thesis by (subst search_loop.simps) simp
  next
    case True
    then have h: "?h < j" "?h < length a" using "1.prems"(4) by linarith+
    have step: "search_loop a x i j =
        (if a ! ?h < x then search_loop a x (?h + 1) j else search_loop a x i ?h)"
      using True by (subst search_loop.simps) (simp add: Let_def)
    show ?thesis
    proof (cases "a ! ?h < x")
      case True
      have "?h < ?f"
      proof (rule ccontr)
        assume "\<not> ?h < ?f"
        then have "a ! ?f \<le> a ! ?h" using \<open>sorted a\<close> h by (intro sorted_nth_mono) auto
        moreover have "\<not> a ! ?f < x" using first_reaching_at [of a x] h \<open>\<not> ?h < ?f\<close> by simp
        ultimately show False using True by simp
      qed
      with 1 True \<open>i < j\<close> step show ?thesis by simp
    next
      case False
      have "?f \<le> ?h" using first_reaching_before [of ?h a x] False by (meson not_le)
      with 1 False \<open>i < j\<close> step h show ?thesis by simp
    qed
  qed
qed

lemma SearchInts_exact: "sorted a \<Longrightarrow> SearchInts a x = first_reaching a x"
  unfolding SearchInts_def by (rule search_loop_exact) (simp_all add: first_reaching_le)

section \<open>Weights\<close>

text \<open>
  The loop that cumulates weights, an \<open>int\<close> each; the modulus is \<open>uint32(total)\<close>, which panics when it
  is zero.
\<close>

fun cumulate :: "int \<Rightarrow> int list \<Rightarrow> int list" where
  "cumulate acc [] = []"
| "cumulate acc (w # ws) = wrap64 (acc + w) # cumulate (wrap64 (acc + w)) ws"

definition total_weight :: "int list \<Rightarrow> int" where
  "total_weight cum = (if cum = [] then 0 else last cum)"

text \<open>\<open>None\<close> is the division by zero.\<close>

definition sticky_index :: "string \<Rightarrow> int list \<Rightarrow> nat option" where
  "sticky_index stickyKey cum =
     (let n = (of_int (total_weight cum) :: 32 word) in
      if n = 0 then None
      else Some (SearchInts cum (uint (fnv32a stickyKey mod n) + 1)))"

section \<open>The choice of an API key\<close>

record provider_api_key =
  pk_ID :: string
  pk_KeyEncrypted :: string
  pk_Weight :: int
  pk_IsActive :: bool

datatype select_error = NoKeysAvailable | AllKeysRateLimited | DivideByZero

definition filterAvailableKeys :: "int \<Rightarrow> monitor option \<Rightarrow> string \<Rightarrow> provider_api_key list \<Rightarrow> provider_api_key list" where
  "filterAvailableKeys now mon provider keys =
     filter (\<lambda>k. pk_IsActive k \<and>
       \<not> (case mon of None \<Rightarrow> False | Some m \<Rightarrow> IsRateLimited now (provider @ '':'' @ pk_ID k) m)) keys"

definition key_weight :: "provider_api_key \<Rightarrow> int" where
  "key_weight k = (if pk_Weight k \<le> 0 then 1 else pk_Weight k)"

definition SelectAPIKey ::
    "int \<Rightarrow> monitor option \<Rightarrow> provider_api_key list \<Rightarrow> string \<Rightarrow> string \<Rightarrow> select_error + provider_api_key" where
  "SelectAPIKey now mon keys stickyKey provider =
     (if keys = [] then Inl NoKeysAvailable
      else
        let available = filterAvailableKeys now mon provider keys in
        if available = [] then Inl AllKeysRateLimited
        else case sticky_index stickyKey (cumulate 0 (map key_weight available)) of
          None \<Rightarrow> Inl DivideByZero
        | Some idx \<Rightarrow> Inr (available ! (if idx \<ge> length available then 0 else idx)))"

section \<open>The choice of a model\<close>

record provider_configuration =
  pc_ID :: string
  pc_OrganizationID :: "string option"
  pc_ProviderName :: string
  pc_APIKeyEncrypted :: string
  pc_CustomBaseURL :: "string option"
  pc_CustomSettings :: "(string \<times> string) list"
  pc_IsActive :: bool
  pc_EnabledModels :: "string list"

text \<open>
  \<open>aliases\<close>: the model names of a provider in the order of the configurations. \<open>weights\<close> is the map of
  the static configuration, \<open>None\<close> when there is no configuration, whose dereference panics. The key is
  the request's sticky key, never empty here (the code takes the time when it is).
\<close>

definition active_configs :: "provider_configuration list \<Rightarrow> provider_configuration list" where
  "active_configs = filter pc_IsActive"

definition all_aliases :: "(string \<Rightarrow> string) \<Rightarrow> provider_configuration list \<Rightarrow> string list" where
  "all_aliases lower cs = concat (map (\<lambda>c. map lower (pc_EnabledModels c)) (active_configs cs))"

definition aliases_of :: "(string \<Rightarrow> string) \<Rightarrow> provider_configuration list \<Rightarrow> string \<Rightarrow> string list" where
  "aliases_of lower cs prov =
     concat (map (\<lambda>c. map lower (pc_EnabledModels c))
       (filter (\<lambda>c. lower (pc_ProviderName c) = prov) (active_configs cs)))"

definition provider_names :: "(string \<Rightarrow> string) \<Rightarrow> provider_configuration list \<Rightarrow> string list" where
  "provider_names lower cs = sort (remdups (map (\<lambda>c. lower (pc_ProviderName c)) (active_configs cs)))"

definition provider_weight :: "(string \<rightharpoonup> int) \<Rightarrow> string \<Rightarrow> int" where
  "provider_weight weights p = (case weights p of Some v \<Rightarrow> if v > 0 then v else 1 | None \<Rightarrow> 1)"

datatype model_choice = Chosen string | ChoicePanics

definition selectOmittedModel ::
    "(string \<Rightarrow> string) \<Rightarrow> bool \<Rightarrow> string \<Rightarrow> (string \<rightharpoonup> int) option \<Rightarrow> string \<Rightarrow> provider_configuration list \<Rightarrow>
       string \<Rightarrow> model_choice"
where
  "selectOmittedModel lower enabled strategy weights defaultModel configs key =
     (if \<not> enabled \<or> configs = [] \<or> lower strategy = ''priority'' then Chosen defaultModel
      else
        let provs = provider_names lower configs; models = all_aliases lower configs in
        if provs = [] then Chosen defaultModel
        else if lower strategy = ''round_robin'' \<and> models \<noteq> [] then
          Chosen (models ! unat (fnv32a key mod of_nat (length models)))
        else case weights of
          None \<Rightarrow> ChoicePanics
        | Some ws \<Rightarrow>
            (case sticky_index key (cumulate 0 (map (provider_weight ws) provs)) of
               None \<Rightarrow> ChoicePanics
             | Some idx \<Rightarrow>
                 if idx \<ge> length provs then Chosen defaultModel
                 else case aliases_of lower configs (provs ! idx) of
                   [] \<Rightarrow> Chosen defaultModel
                 | al # _ \<Rightarrow> Chosen al))"

section \<open>Every weight gets its share\<close>

text \<open>The slot of a point: weights laid end to end from zero.\<close>

fun slot :: "int list \<Rightarrow> int \<Rightarrow> nat" where
  "slot [] r = 0"
| "slot (w # ws) r = (if r < w then 0 else Suc (slot ws (r - w)))"

lemma slot_less: "0 \<le> r \<Longrightarrow> r < sum_list ws \<Longrightarrow> slot ws r < length ws"
  by (induction ws arbitrary: r) auto

lemma slot_share:
  assumes "\<forall>w \<in> set ws. 0 < w" "i < length ws"
  shows "card {r \<in> {0 ..< sum_list ws}. slot ws r = i} = nat (ws ! i)"
  using assms
proof (induction ws arbitrary: i)
  case (Cons w ws)
  have w: "0 < w" using Cons.prems by simp
  have rest: "0 \<le> sum_list ws" using Cons.prems by (intro sum_list_nonneg) force
  show ?case
  proof (cases i)
    case 0
    have "{r \<in> {0 ..< sum_list (w # ws)}. slot (w # ws) r = i} = {0 ..< w}"
      using 0 rest by auto
    then show ?thesis using 0 by simp
  next
    case (Suc j)
    have "{r \<in> {0 ..< sum_list (w # ws)}. slot (w # ws) r = i} =
        (\<lambda>r. r + w) ` {r \<in> {0 ..< sum_list ws}. slot ws r = j}" (is "?A = ?f ` ?B")
    proof (intro set_eqI iffI)
      fix r assume "r \<in> ?A"
      then have "r - w \<in> ?B" using Suc by (auto split: if_splits)
      then have "?f (r - w) \<in> ?f ` ?B" by (rule imageI)
      then show "r \<in> ?f ` ?B" by simp
    next
      fix r assume "r \<in> ?f ` ?B"
      then obtain q where "r = q + w" "q \<in> ?B" by blast
      then show "r \<in> ?A" using Suc w by simp
    qed
    moreover have "inj_on ?f ?B" by (simp add: inj_on_def)
    ultimately have "card {r \<in> {0 ..< sum_list (w # ws)}. slot (w # ws) r = i} = card ?B"
      by (simp add: card_image)
    then show ?thesis using Cons Suc by simp
  qed
qed simp

lemma cumulate_slot:
  assumes "\<forall>w \<in> set ws. 0 < w" "0 \<le> acc" "acc + sum_list ws < 2 ^ 32"
  shows "sorted (cumulate acc ws) \<and> (\<forall>c \<in> set (cumulate acc ws). acc < c) \<and>
    length (cumulate acc ws) = length ws \<and>
    (ws \<noteq> [] \<longrightarrow> last (cumulate acc ws) = acc + sum_list ws) \<and>
    first_reaching (cumulate acc ws) (acc + r + 1) = slot ws r"
  using assms
proof (induction ws arbitrary: acc r)
  case (Cons w ws)
  have nonneg: "0 \<le> sum_list ws" using Cons.prems(1) by (intro sum_list_nonneg) force
  have in_range: "wrap64 (acc + w) = acc + w"
    using Cons.prems nonneg by (intro wrap64_id) (simp add: in_int64_def)
  have IH: "sorted (cumulate (acc + w) ws) \<and> (\<forall>c \<in> set (cumulate (acc + w) ws). acc + w < c) \<and>
    length (cumulate (acc + w) ws) = length ws \<and>
    (ws \<noteq> [] \<longrightarrow> last (cumulate (acc + w) ws) = acc + w + sum_list ws) \<and>
    first_reaching (cumulate (acc + w) ws) (acc + w + (r - w) + 1) = slot ws (r - w)"
    using Cons.prems by (intro Cons.IH) auto
  have ne: "cumulate (acc + w) ws = [] \<longleftrightarrow> ws = []" using IH by auto
  have "0 < w" using Cons.prems(1) by simp
  with IH in_range ne show ?case
    by (force simp: add.assoc less_imp_le)
qed simp

lemma sticky_index_exact:
  assumes "\<forall>w \<in> set ws. 0 < w" "ws \<noteq> []" "sum_list ws < 2 ^ 32"
  shows "sticky_index key (cumulate 0 ws) = Some (slot ws (uint (fnv32a key) mod sum_list ws))"
    and "slot ws (uint (fnv32a key) mod sum_list ws) < length ws"
proof -
  let ?T = "sum_list ws"
  have pos: "0 < ?T"
  proof -
    from assms(2) obtain w vs where "ws = w # vs" by (cases ws) auto
    moreover have "0 \<le> sum_list vs" using assms(1) calculation by (intro sum_list_nonneg) force
    ultimately show ?thesis using assms(1) by simp
  qed
  note c = cumulate_slot [of ws 0, simplified, OF assms(1) assms(3)[simplified]]
  have tot: "total_weight (cumulate 0 ws) = ?T"
    using c [of 0] assms(2) by (auto simp: total_weight_def)
  let ?n = "of_int ?T :: 32 word"
  have un: "uint ?n = ?T" using pos assms(3) by (simp add: uint_word_of_int_eq take_bit_int_eq_self)
  then have "?n \<noteq> 0" using pos by auto
  moreover have "uint (fnv32a key mod ?n) = uint (fnv32a key) mod ?T"
    by (simp add: uint_mod un)
  moreover have "SearchInts (cumulate 0 ws) (r + 1) = slot ws r" for r
    using c [of r] SearchInts_exact by simp
  ultimately show "sticky_index key (cumulate 0 ws) = Some (slot ws (uint (fnv32a key) mod ?T))"
    by (simp add: sticky_index_def Let_def tot)
  show "slot ws (uint (fnv32a key) mod ?T) < length ws"
    using pos by (intro slot_less) simp_all
qed

section \<open>The two weighted choices\<close>

text \<open>What both choices rely on: candidates with positive weights, a key that picks a slot.\<close>

locale weighted_choice =
  fixes weight :: "'a \<Rightarrow> int"
  assumes weight_pos: "0 < weight x"
begin

definition pick :: "string \<Rightarrow> 'a list \<Rightarrow> nat" where
  "pick key xs = slot (map weight xs) (uint (fnv32a key) mod sum_list (map weight xs))"

lemma positive: "\<forall>w \<in> set (map weight xs). 0 < w"
  using weight_pos by auto

lemma picks:
  assumes "xs \<noteq> []" "sum_list (map weight xs) < 2 ^ 32"
  shows "sticky_index key (cumulate 0 (map weight xs)) = Some (pick key xs)" "pick key xs < length xs"
  using sticky_index_exact [OF positive, of xs key] assms by (simp_all add: pick_def)

lemma share:
  "i < length xs \<Longrightarrow>
     card {r \<in> {0 ..< sum_list (map weight xs)}. slot (map weight xs) r = i} = nat (weight (xs ! i))"
  using slot_share [OF positive, of i xs] by simp

end

interpretation keys: weighted_choice key_weight
  by unfold_locales (simp add: key_weight_def)

interpretation models: weighted_choice "provider_weight ws" for ws
  by unfold_locales (simp add: provider_weight_def split: option.split)

lemma SelectAPIKey_exact:
  assumes "available = filterAvailableKeys now mon provider ks" "available \<noteq> []"
    "sum_list (map key_weight available) < 2 ^ 32"
  shows "SelectAPIKey now mon ks stickyKey provider = Inr (available ! keys.pick stickyKey available)"
proof -
  have "ks \<noteq> []" using assms(1,2) by (auto simp: filterAvailableKeys_def)
  with assms keys.picks [OF assms(2,3), of stickyKey] show ?thesis by (simp add: SelectAPIKey_def Let_def)
qed

text \<open>A weighted choice of a model is the first model of the provider picked.\<close>

lemma selectOmittedModel_weighted:
  assumes "enabled" "lower strategy \<notin> {''priority'', ''round_robin''}" "provs = provider_names lower configs" "provs \<noteq> []"
    "sum_list (map (provider_weight ws) provs) < 2 ^ 32"
  shows "selectOmittedModel lower enabled strategy (Some ws) def configs key =
    Chosen (case aliases_of lower configs (provs ! models.pick ws key provs) of [] \<Rightarrow> def | al # _ \<Rightarrow> al)"
proof -
  have "configs \<noteq> []" using assms(3,4) by (auto simp: provider_names_def active_configs_def)
  with assms models.picks [OF assms(4,5), of key] show ?thesis
    by (simp add: selectOmittedModel_def Let_def split: list.split)
qed

end
