(* ===== verification/GatewayRouter.thy ===== *)
theory GatewayRouter
  imports GatewaySelector
begin

text \<open>
  From a model name to a provider (\<open>internal/lib/handlers/gateway/router.go\<close>, the registry in
  \<open>provider.go\<close>, and the cache of resolved routes in \<open>fastpath/router_cache.go\<close>). A provider is a value of
  any type \<open>'p\<close>; \<open>supports\<close> is its method \<open>SupportsModel\<close> and \<open>lower\<close> is \<open>strings.ToLower\<close>. A Go map that
  is ranged over is an association list with distinct keys, in any order.
\<close>

section \<open>Registry\<close>

type_synonym 'p registry = "(string \<times> 'p) list"

definition NewRegistry :: "'p registry" where
  "NewRegistry = []"

definition Register_provider :: "('p \<Rightarrow> string) \<Rightarrow> 'p \<Rightarrow> 'p registry \<Rightarrow> 'p registry" where
  "Register_provider name p r =
     (if map_of r (name p) = None then r @ [(name p, p)]
      else map (\<lambda>(k, q). if k = name p then (k, p) else (k, q)) r)"

definition Reset_registry :: "'p registry \<Rightarrow> 'p registry \<Rightarrow> 'p registry" where
  "Reset_registry providers r = providers"

definition Get_provider :: "'p registry \<Rightarrow> string \<Rightarrow> 'p option" where
  "Get_provider r name = map_of r name"

lemma Register_provider_Get [simp]:
  "Get_provider (Register_provider name p r) k = (if k = name p then Some p else Get_provider r k)"
proof (cases "map_of r (name p)")
  case None
  then show ?thesis by (auto simp: Get_provider_def Register_provider_def map_add_def split: option.split)
next
  case (Some q)
  have "map_of (map (\<lambda>(k, q). if k = name p then (k, p) else (k, q)) r) k =
      (if k = name p \<and> map_of r k \<noteq> None then Some p else map_of r k)"
    by (induction r) auto
  with Some show ?thesis by (auto simp: Get_provider_def Register_provider_def)
qed

lemma Register_provider_distinct:
  "distinct (map fst r) \<Longrightarrow> distinct (map fst (Register_provider name p r))"
  by (auto simp: Register_provider_def map_of_eq_None_iff o_def case_prod_beta if_distrib cong: if_cong)

section \<open>The route cache\<close>

text \<open>The hit and miss counters are 64-bit unsigned.\<close>

record 'p provider_info =
  pi_Name :: string
  pi_ModelName :: string
  pi_IsCustom :: bool
  pi_ProviderRef :: "'p option"

record 'p router_cache =
  rc_modelToProvider :: "string \<rightharpoonup> 'p provider_info"
  rc_providerByName :: "string \<rightharpoonup> 'p provider_info"
  rc_aliasToModel :: "string \<rightharpoonup> string"
  rc_hits :: "64 word"
  rc_misses :: "64 word"
  rc_warmed :: bool

definition NewRouterCache :: "'p router_cache" where
  "NewRouterCache = \<lparr>rc_modelToProvider = Map.empty, rc_providerByName = Map.empty, rc_aliasToModel = Map.empty,
     rc_hits = 0, rc_misses = 0, rc_warmed = False\<rparr>"

definition cache_key :: "(string \<Rightarrow> string) \<Rightarrow> 'p router_cache \<Rightarrow> string \<Rightarrow> string" where
  "cache_key lower c model =
     (case rc_aliasToModel c (lower model) of Some canonical \<Rightarrow> canonical | None \<Rightarrow> lower model)"

definition Resolve_cached ::
    "(string \<Rightarrow> string) \<Rightarrow> string \<Rightarrow> 'p router_cache \<Rightarrow> 'p provider_info option \<times> 'p router_cache" where
  "Resolve_cached lower model c =
     (if model = [] then (None, c\<lparr>rc_misses := rc_misses c + 1\<rparr>)
      else case rc_modelToProvider c (cache_key lower c model) of
        Some info \<Rightarrow> (Some info, c\<lparr>rc_hits := rc_hits c + 1\<rparr>)
      | None \<Rightarrow> (None, c\<lparr>rc_misses := rc_misses c + 1\<rparr>))"

definition ResolveProvider_cached :: "(string \<Rightarrow> string) \<Rightarrow> string \<Rightarrow> 'p router_cache \<Rightarrow> 'p provider_info option" where
  "ResolveProvider_cached lower name c = rc_providerByName c (lower name)"

definition Register_route ::
    "(string \<Rightarrow> string) \<Rightarrow> string \<Rightarrow> 'p provider_info option \<Rightarrow> 'p router_cache \<Rightarrow> 'p router_cache" where
  "Register_route lower model info c =
     (case info of
        None \<Rightarrow> c
      | Some i \<Rightarrow>
          if model = [] then c
          else c\<lparr>rc_modelToProvider := (rc_modelToProvider c)(lower model \<mapsto> i),
                 rc_providerByName := (rc_providerByName c)(lower (pi_Name i) \<mapsto> i)\<rparr>)"

definition RegisterAlias :: "(string \<Rightarrow> string) \<Rightarrow> string \<Rightarrow> string \<Rightarrow> 'p router_cache \<Rightarrow> 'p router_cache" where
  "RegisterAlias lower alias canonical c =
     (if alias = [] \<or> canonical = [] then c
      else c\<lparr>rc_aliasToModel := (rc_aliasToModel c)(lower alias \<mapsto> lower canonical)\<rparr>)"

definition RegisterBatch ::
    "(string \<Rightarrow> string) \<Rightarrow> (string \<times> 'p provider_info option) list \<Rightarrow> 'p router_cache \<Rightarrow> 'p router_cache" where
  "RegisterBatch lower ms c = fold (\<lambda>(model, info). Register_route lower model info) ms c"

definition Unregister_route :: "(string \<Rightarrow> string) \<Rightarrow> string \<Rightarrow> 'p router_cache \<Rightarrow> 'p router_cache" where
  "Unregister_route lower model c =
     (if model = [] then c else c\<lparr>rc_modelToProvider := (rc_modelToProvider c)(lower model := None)\<rparr>)"

definition Clear_cache :: "'p router_cache \<Rightarrow> 'p router_cache" where
  "Clear_cache c = c\<lparr>rc_modelToProvider := Map.empty, rc_providerByName := Map.empty,
     rc_aliasToModel := Map.empty, rc_warmed := False\<rparr>"

definition MarkWarmed :: "'p router_cache \<Rightarrow> 'p router_cache" where
  "MarkWarmed c = c\<lparr>rc_warmed := True\<rparr>"

definition ResetStats :: "'p router_cache \<Rightarrow> 'p router_cache" where
  "ResetStats c = c\<lparr>rc_hits := 0, rc_misses := 0\<rparr>"

record 'p route_info =
  ri_ProviderName :: string
  ri_ModelName :: string
  ri_IsCustom :: bool
  ri_Provider :: "'p option"

definition Warm_cache ::
    "(string \<Rightarrow> string) \<Rightarrow> (string \<times> 'p route_info) list \<Rightarrow> 'p router_cache \<Rightarrow> 'p router_cache" where
  "Warm_cache lower routes c =
     MarkWarmed (fold (\<lambda>(model, r). Register_route lower model
       (Some \<lparr>pi_Name = ri_ProviderName r, pi_ModelName = ri_ModelName r, pi_IsCustom = ri_IsCustom r,
              pi_ProviderRef = ri_Provider r\<rparr>)) routes c)"

text \<open>What start-up warms the cache with (\<open>cmd/serve/start_api.go\<close>): each provider under its own name.\<close>

definition startup_routes :: "'p registry \<Rightarrow> (string \<times> 'p route_info) list" where
  "startup_routes r =
     map (\<lambda>(name, p). (name, \<lparr>ri_ProviderName = name, ri_ModelName = name, ri_IsCustom = False,
       ri_Provider = Some p\<rparr>)) r"

section \<open>The router\<close>

record model_route =
  mr_ProviderName :: string
  mr_ModelName :: string
  mr_IsCustom :: bool

text \<open>
  The resolver of custom models reads the database: an error, nothing found, or a provider and a model.
\<close>

record 'p router =
  ro_registry :: "'p registry"
  ro_modelToProvider :: "string \<rightharpoonup> string"
  ro_modelRoutes :: "string \<rightharpoonup> model_route"
  ro_fallbacks :: "string \<rightharpoonup> model_route list"
  ro_customResolver :: "(string \<Rightarrow> string + (string \<times> string) option) option"

definition NewRouter :: "'p registry \<Rightarrow> (string \<rightharpoonup> string) \<Rightarrow> 'p router" where
  "NewRouter registry m = \<lparr>ro_registry = registry, ro_modelToProvider = m, ro_modelRoutes = Map.empty,
     ro_fallbacks = Map.empty, ro_customResolver = None\<rparr>"

definition SetRegistry :: "'p registry \<Rightarrow> 'p router \<Rightarrow> 'p router" where
  "SetRegistry registry r = r\<lparr>ro_registry := registry\<rparr>"

definition SetModelToProvider :: "(string \<rightharpoonup> string) \<Rightarrow> 'p router \<Rightarrow> 'p router" where
  "SetModelToProvider m r = r\<lparr>ro_modelToProvider := m\<rparr>"

definition SetModelRoutes :: "(string \<rightharpoonup> model_route) \<Rightarrow> 'p router \<Rightarrow> 'p router" where
  "SetModelRoutes routes r = r\<lparr>ro_modelRoutes := routes\<rparr>"

definition SetFallbacks :: "(string \<rightharpoonup> model_route list) \<Rightarrow> 'p router \<Rightarrow> 'p router" where
  "SetFallbacks fb r = r\<lparr>ro_fallbacks := fb\<rparr>"

definition SetCustomResolver ::
    "(string \<Rightarrow> string + (string \<times> string) option) option \<Rightarrow> 'p router \<Rightarrow> 'p router" where
  "SetCustomResolver f r = r\<lparr>ro_customResolver := f\<rparr>"

definition FallbacksFor :: "(string \<Rightarrow> string) \<Rightarrow> 'p router \<Rightarrow> string \<Rightarrow> model_route list" where
  "FallbacksFor lower r alias = (case ro_fallbacks r (lower alias) of Some fs \<Rightarrow> fs | None \<Rightarrow> [])"

definition ProviderForRoute :: "'p router \<Rightarrow> model_route \<Rightarrow> 'p option" where
  "ProviderForRoute r route = Get_provider (ro_registry r) (mr_ProviderName route)"

datatype route_error = ModelRequired | ModelNotFound string

definition parseProviderRef :: "string \<Rightarrow> (string \<times> string) option" where
  "parseProviderRef s =
     (case s of
        c # rest \<Rightarrow>
          if rest = [] \<or> c \<noteq> CHR ''@'' then None
          else (case index_byte CHR ''/'' rest of
                  None \<Rightarrow> None
                | Some i \<Rightarrow> if i = 0 \<or> i \<ge> length rest - 1 then None
                            else Some (take i rest, drop (i + 1) rest))
      | [] \<Rightarrow> None)"

definition lookupProvider :: "(string \<Rightarrow> string) \<Rightarrow> 'p router \<Rightarrow> string \<Rightarrow> 'p option" where
  "lookupProvider lower r name =
     (case Get_provider (ro_registry r) name of
        Some p \<Rightarrow> Some p
      | None \<Rightarrow> map_option snd (find (\<lambda>(k, p). lower k = lower name) (ro_registry r)))"

text \<open>The stages after the cache, each the value it returns or nothing.\<close>

definition custom_stage :: "'p router \<Rightarrow> string \<Rightarrow> ('p \<times> model_route) option" where
  "custom_stage r model =
     (case ro_customResolver r of
        None \<Rightarrow> None
      | Some f \<Rightarrow>
          (case f model of
             Inr (Some (prov, m)) \<Rightarrow>
               map_option (\<lambda>p. (p, \<lparr>mr_ProviderName = prov, mr_ModelName = m, mr_IsCustom = True\<rparr>))
                 (Get_provider (ro_registry r) prov)
           | _ \<Rightarrow> None))"

definition route_stage :: "(string \<Rightarrow> string) \<Rightarrow> 'p router \<Rightarrow> string \<Rightarrow> ('p \<times> model_route) option" where
  "route_stage lower r model =
     (case ro_modelRoutes r (lower model) of
        None \<Rightarrow> None
      | Some route \<Rightarrow> map_option (\<lambda>p. (p, route)) (Get_provider (ro_registry r) (mr_ProviderName route)))"

definition mapping_stage :: "(string \<Rightarrow> string) \<Rightarrow> 'p router \<Rightarrow> string \<Rightarrow> ('p \<times> model_route) option" where
  "mapping_stage lower r model =
     (case ro_modelToProvider r (lower model) of
        None \<Rightarrow> None
      | Some prov \<Rightarrow>
          map_option (\<lambda>p. (p, \<lparr>mr_ProviderName = prov, mr_ModelName = model, mr_IsCustom = False\<rparr>))
            (Get_provider (ro_registry r) prov))"

definition catalog_stage :: "('p \<Rightarrow> string \<Rightarrow> bool) \<Rightarrow> 'p router \<Rightarrow> string \<Rightarrow> ('p \<times> model_route) option" where
  "catalog_stage supports r model =
     map_option (\<lambda>(name, p). (p, \<lparr>mr_ProviderName = name, mr_ModelName = model, mr_IsCustom = False\<rparr>))
       (find (\<lambda>(name, p). supports p model) (ro_registry r))"

definition after_cache ::
    "(string \<Rightarrow> string) \<Rightarrow> ('p \<Rightarrow> string \<Rightarrow> bool) \<Rightarrow> 'p router \<Rightarrow> string \<Rightarrow> route_error + 'p \<times> model_route" where
  "after_cache lower supports r model =
     (case custom_stage r model of
        Some x \<Rightarrow> Inr x
      | None \<Rightarrow> (case route_stage lower r model of
          Some x \<Rightarrow> Inr x
        | None \<Rightarrow> (case mapping_stage lower r model of
            Some x \<Rightarrow> Inr x
          | None \<Rightarrow> (case catalog_stage supports r model of
              Some x \<Rightarrow> Inr x
            | None \<Rightarrow> Inl (ModelNotFound model)))))"

text \<open>\<open>cache\<close> is the process-wide route cache, \<open>None\<close> when the fast path is off.\<close>

definition resolve_bare ::
    "(string \<Rightarrow> string) \<Rightarrow> ('p \<Rightarrow> string \<Rightarrow> bool) \<Rightarrow> 'p router \<Rightarrow> string \<Rightarrow> 'p router_cache option \<Rightarrow>
       (route_error + 'p \<times> model_route) \<times> 'p router_cache option"
where
  "resolve_bare lower supports r model cache =
     (case cache of
        None \<Rightarrow> (after_cache lower supports r model, None)
      | Some c \<Rightarrow>
          (case Resolve_cached lower model c of
             (Some info, c') \<Rightarrow>
               (case pi_ProviderRef info of
                  Some p \<Rightarrow> (Inr (p, \<lparr>mr_ProviderName = pi_Name info, mr_ModelName = pi_ModelName info,
                                      mr_IsCustom = pi_IsCustom info\<rparr>), Some c')
                | None \<Rightarrow> (after_cache lower supports r model, Some c'))
           | (None, c') \<Rightarrow> (after_cache lower supports r model, Some c')))"

definition ResolveWithContext ::
    "(string \<Rightarrow> string) \<Rightarrow> ('p \<Rightarrow> string \<Rightarrow> bool) \<Rightarrow> 'p router \<Rightarrow> string \<Rightarrow> 'p router_cache option \<Rightarrow>
       (route_error + 'p \<times> model_route) \<times> 'p router_cache option"
where
  "ResolveWithContext lower supports r requestedModel cache =
     (if requestedModel = [] then (Inl ModelRequired, cache)
      else case parseProviderRef requestedModel of
        Some (provName, bareModel) \<Rightarrow>
          (case lookupProvider lower r provName of
             Some p \<Rightarrow> (Inr (p, \<lparr>mr_ProviderName = provName, mr_ModelName = bareModel, mr_IsCustom = False\<rparr>), cache)
           | None \<Rightarrow> resolve_bare lower supports r bareModel cache)
      | None \<Rightarrow> resolve_bare lower supports r requestedModel cache)"

section \<open>References\<close>

text \<open>An \<open>@provider/model\<close> reference is read back as it was written, when neither part is empty.\<close>

lemma parse_provider_ref:
  assumes "CHR ''/'' \<notin> set p" "p \<noteq> []" "m \<noteq> []"
  shows "parseProviderRef (CHR ''@'' # p @ CHR ''/'' # m) = Some (p, m)"
  using assms by (cases m) (auto simp: parseProviderRef_def index_byte_append simp del: index_byte_None)

lemma parse_provider_ref_shape:
  assumes "parseProviderRef s = Some (p, m)"
  shows "s = CHR ''@'' # p @ CHR ''/'' # m \<and> p \<noteq> [] \<and> m \<noteq> [] \<and> CHR ''/'' \<notin> set p"
proof -
  from assms obtain rest i where s: "s = CHR ''@'' # rest" "index_byte CHR ''/'' rest = Some i"
    "i \<noteq> 0" "i < length rest - 1" "p = take i rest" "m = drop (i + 1) rest"
    by (auto simp: parseProviderRef_def split: list.splits if_splits option.splits)
  with index_byte_SomeD [OF s(2)] show ?thesis by auto
qed

section \<open>What comes out is registered\<close>

lemma find_mem: "find P xs = Some x \<Longrightarrow> x \<in> set xs"
  by (auto simp: find_Some_iff)

lemma snd_mem: "(k, p) \<in> set xs \<Longrightarrow> p \<in> snd ` set xs"
  by (rule image_eqI [where f = snd]) simp_all

lemma find_in_registry: "find P r = Some (k, p) \<Longrightarrow> distinct (map fst r) \<Longrightarrow> map_of r k = Some p \<and> P (k, p)"
  by (auto simp: find_Some_iff intro!: map_of_is_SomeI)

lemma after_cache_registered:
  assumes "after_cache lower supports r model = Inr (p, route)" "distinct (map fst (ro_registry r))"
  shows "ProviderForRoute r route = Some p"
  using assms find_in_registry [of "\<lambda>(name, p). supports p model" "ro_registry r"]
  by (fastforce simp: after_cache_def custom_stage_def route_stage_def mapping_stage_def catalog_stage_def
      ProviderForRoute_def Get_provider_def split: option.splits sum.splits prod.splits)

lemma after_cache_error:
  "after_cache lower supports r model = Inl e \<longleftrightarrow> e = ModelNotFound model \<and>
     custom_stage r model = None \<and> route_stage lower r model = None \<and> mapping_stage lower r model = None \<and>
     (\<forall>x \<in> set (ro_registry r). \<not> supports (snd x) model)"
proof -
  have "catalog_stage supports r model = None \<longleftrightarrow> (\<forall>x \<in> set (ro_registry r). \<not> supports (snd x) model)"
    by (auto simp: catalog_stage_def find_None_iff)
  then show ?thesis by (auto simp: after_cache_def split: option.splits)
qed

end
