(* ===== verification/GatewayBalancer.thy ===== *)
theory GatewayBalancer
  imports GatewayRouter WorkflowEngine
begin

text \<open>
  The load balancer node of a workflow (\<open>internal/workflows/engine/executors/load_balancer.go\<close>), a node
  executor of the engine: it picks a provider by the gateway's router, by rotation, by weight or at
  random, among the providers the monitor does not hold to be limited. The two draws of \<open>math/rand\<close>, the
  instant and the order in which the registry's map is ranged over at this call are arguments.
\<close>

section \<open>Configuration\<close>

record weightedProvider =
  wp_Name :: string
  wp_Weight :: rat

fun weights_of :: "goval list \<Rightarrow> weightedProvider list" where
  "weights_of [] = []"
| "weights_of (v # vs) =
     (case as_map v of
        None \<Rightarrow> weights_of vs
      | Some m \<Rightarrow>
          let name = (case map_of m ''provider'' of Some p \<Rightarrow> (case as_string p of Some s \<Rightarrow> s | None \<Rightarrow> []) | None \<Rightarrow> []);
              weight = (case map_of m ''weight'' of Some w \<Rightarrow> (case as_float w of Some f \<Rightarrow> f | None \<Rightarrow> 0) | None \<Rightarrow> 0)
          in if name \<noteq> [] then \<lparr>wp_Name = name, wp_Weight = (if weight \<le> 0 then 1 else weight)\<rparr> # weights_of vs
             else weights_of vs)"

definition parseWeights :: "graph_node \<Rightarrow> weightedProvider list" where
  "parseWeights n =
     (case node_config n of
        None \<Rightarrow> []
      | Some cfg \<Rightarrow>
          (case cfg ''weights'' of
             None \<Rightarrow> []
           | Some raw \<Rightarrow> (case as_list raw of Some arr \<Rightarrow> weights_of arr | None \<Rightarrow> [])))"

text \<open>\<open>names\<close> are the registry's keys in the order of this iteration, \<open>None\<close> without a registry.\<close>

definition buildCandidates :: "string list option \<Rightarrow> weightedProvider list \<Rightarrow> weightedProvider list" where
  "buildCandidates names weights =
     (if weights \<noteq> [] then weights
      else case names of
        None \<Rightarrow> []
      | Some ns \<Rightarrow> map (\<lambda>n. \<lparr>wp_Name = n, wp_Weight = 1\<rparr>) ns)"

definition filterAvailable :: "int \<Rightarrow> monitor \<Rightarrow> weightedProvider list \<Rightarrow> weightedProvider list" where
  "filterAvailable now mon cs = filter (\<lambda>c. \<not> IsRateLimited now (wp_Name c) mon) cs"

section \<open>Strategies\<close>

text \<open>The rotation counter is a \<open>uint64\<close>.\<close>

definition selectRoundRobin :: "weightedProvider list \<Rightarrow> 64 word \<Rightarrow> string \<times> 64 word" where
  "selectRoundRobin cs rr =
     (if cs = [] then ([], rr) else (wp_Name (cs ! unat (rr mod of_nat (length cs))), rr + 1))"

fun weighted_loop :: "(rat \<Rightarrow> rat) \<Rightarrow> rat \<Rightarrow> rat \<Rightarrow> weightedProvider list \<Rightarrow> string option" where
  "weighted_loop rnd r cumulative [] = None"
| "weighted_loop rnd r cumulative (c # cs) =
     (let cumulative = rnd (cumulative + wp_Weight c) in
      if r \<le> cumulative then Some (wp_Name c) else weighted_loop rnd r cumulative cs)"

definition selectWeighted :: "(rat \<Rightarrow> rat) \<Rightarrow> rat \<Rightarrow> weightedProvider list \<Rightarrow> string" where
  "selectWeighted rnd u cs =
     (if cs = [] then []
      else
        let total = foldl (\<lambda>t c. rnd (t + wp_Weight c)) 0 cs in
        case weighted_loop rnd (rnd (u * total)) 0 cs of
          Some name \<Rightarrow> name
        | None \<Rightarrow> wp_Name (last cs))"

definition selectRandom :: "(nat \<Rightarrow> nat) \<Rightarrow> weightedProvider list \<Rightarrow> string" where
  "selectRandom intn cs = (if cs = [] then [] else wp_Name (cs ! intn (length cs)))"

section \<open>The executor\<close>

record balancer_env =
  be_now :: int
  be_monitor :: monitor
  be_names :: "string list option"
  be_float :: rat
  be_intn :: "nat \<Rightarrow> nat"
  be_rnd :: "rat \<Rightarrow> rat"

definition failed_node :: "string \<Rightarrow> node_result" where
  "failed_node e = \<lparr>next_handle = [], result_error = Some e, result_output = None\<rparr>"

definition selected_node :: "string \<Rightarrow> string \<Rightarrow> node_result" where
  "selected_node strategy selected =
     \<lparr>next_handle = ''out'', result_error = None,
      result_output = Some [''strategy'' \<mapsto> GoStr strategy, ''selected'' \<mapsto> GoStr selected]\<rparr>"

definition executeRouter ::
    "(string \<Rightarrow> string) \<Rightarrow> ('p \<Rightarrow> string \<Rightarrow> bool) \<Rightarrow> 'p router option \<Rightarrow> 'p router_cache option \<Rightarrow> exec_context \<Rightarrow>
       node_result \<times> exec_context"
where
  "executeRouter lower supports ro cache ec =
     (case ro of
        None \<Rightarrow> (failed_node ''load balancer: router not configured'', ec)
      | Some r \<Rightarrow>
          if resolved_model ec = [] then
            (failed_node ''load balancer: no model specified for router resolution'', ec)
          else case fst (ResolveWithContext lower supports r (resolved_model ec) cache) of
            Inl e \<Rightarrow> (failed_node ''load balancer: router resolution failed'', ec)
          | Inr (p, route) \<Rightarrow>
              (selected_node ''router'' (mr_ProviderName route),
               SetNodeData ''candidates_count'' ''1''
                 (SetNodeData ''selected_provider'' (mr_ProviderName route)
                   (SetNodeData ''strategy'' ''router''
                     (ec\<lparr>resolved_provider := mr_ProviderName route, resolved_model := mr_ModelName route\<rparr>)))))"

text \<open>The candidates a call chooses from: configured or registered, or the fallback; those available, or all.\<close>

definition choice_list :: "balancer_env \<Rightarrow> graph_node \<Rightarrow> weightedProvider list" where
  "choice_list env n =
     (let fallback = GetConfigString n ''fallback'';
          candidates = buildCandidates (be_names env) (parseWeights n);
          candidates = (if candidates = [] \<and> fallback \<noteq> []
                        then [\<lparr>wp_Name = fallback, wp_Weight = 1\<rparr>] else candidates);
          available = filterAvailable (be_now env) (be_monitor env) candidates
      in if available = [] then candidates else available)"

definition select_provider ::
    "balancer_env \<Rightarrow> string \<Rightarrow> weightedProvider list \<Rightarrow> 64 word \<Rightarrow> string \<times> 64 word" where
  "select_provider env strategy cs rr =
     (if strategy = ''weighted'' then (selectWeighted (be_rnd env) (be_float env) cs, rr)
      else if strategy = ''random'' then (selectRandom (be_intn env) cs, rr)
      else selectRoundRobin cs rr)"

definition Execute_balancer ::
    "(string \<Rightarrow> string) \<Rightarrow> ('p \<Rightarrow> string \<Rightarrow> bool) \<Rightarrow> 'p router option \<Rightarrow> 'p router_cache option \<Rightarrow> balancer_env \<Rightarrow>
       graph_node \<Rightarrow> exec_context \<Rightarrow> 64 word \<Rightarrow> (node_result \<times> exec_context) \<times> 64 word"
where
  "Execute_balancer lower supports ro cache env n ec rr =
     (let strategy = (let s = GetConfigString n ''strategy'' in if s = [] then ''router'' else s) in
      if strategy = ''router'' then (executeRouter lower supports ro cache ec, rr)
      else
        let fallback = GetConfigString n ''fallback''; cs = choice_list env n in
        if cs = [] then ((failed_node ''load balancer: no providers configured'', ec), rr)
        else case select_provider env strategy cs rr of (selected, rr') \<Rightarrow>
          let selected = (if selected = [] \<and> fallback \<noteq> [] then fallback else selected) in
          if selected = [] then ((failed_node ''load balancer: could not select a provider'', ec), rr')
          else
            ((selected_node strategy selected,
              SetNodeData ''candidates_count'' (decimal (int (length cs)))
                (SetNodeData ''selected_provider'' selected
                  (SetNodeData ''strategy'' strategy (ec\<lparr>resolved_provider := selected\<rparr>)))), rr'))"

text \<open>As a node executor of the engine, at a fixed environment and counter; it emits no events.\<close>

definition balancer_executor ::
    "(string \<Rightarrow> string) \<Rightarrow> ('p \<Rightarrow> string \<Rightarrow> bool) \<Rightarrow> 'p router option \<Rightarrow> 'p router_cache option \<Rightarrow> balancer_env \<Rightarrow>
       64 word \<Rightarrow> node_executor"
where
  "balancer_executor lower supports ro cache env rr n ec =
     (case Execute_balancer lower supports ro cache env n ec rr of ((res, ec'), _) \<Rightarrow> (res, ec', []))"

section \<open>A choice is a candidate\<close>

lemma weighted_loop_member: "weighted_loop rnd r c cs = Some name \<Longrightarrow> name \<in> wp_Name ` set cs"
  by (induction cs arbitrary: c) (auto simp: Let_def split: if_splits)

lemma selectWeighted_member: "cs \<noteq> [] \<Longrightarrow> selectWeighted rnd u cs \<in> wp_Name ` set cs"
  using weighted_loop_member by (auto simp: selectWeighted_def Let_def split: option.splits)

lemma selectRoundRobin_index:
  assumes "cs \<noteq> []" "length cs < 2 ^ 64"
  shows "fst (selectRoundRobin cs rr) = wp_Name (cs ! (unat rr mod length cs))" "unat rr mod length cs < length cs"
proof -
  have "unat (of_nat (length cs) :: 64 word) = length cs"
    using assms(2) by (simp add: unsigned_of_nat take_bit_nat_eq_self)
  then show "fst (selectRoundRobin cs rr) = wp_Name (cs ! (unat rr mod length cs))"
    using assms(1) by (simp add: selectRoundRobin_def unat_mod)
  show "unat rr mod length cs < length cs" using assms(1) by simp
qed

lemma select_provider_member:
  assumes "cs \<noteq> []" "length cs < 2 ^ 64" "be_intn env (length cs) < length cs"
  shows "fst (select_provider env strategy cs rr) \<in> wp_Name ` set cs"
  using assms selectWeighted_member selectRoundRobin_index [OF assms(1,2), of rr]
  by (auto simp: select_provider_def selectRandom_def)

lemma choice_list_available:
  assumes "c \<in> set (choice_list env n)" "IsRateLimited (be_now env) (wp_Name c) (be_monitor env)"
  shows "\<forall>d \<in> set (choice_list env n). IsRateLimited (be_now env) (wp_Name d) (be_monitor env)"
  using assms by (auto simp: choice_list_def filterAvailable_def Let_def filter_empty_conv split: if_splits)

lemma weights_named: "c \<in> set (weights_of vs) \<Longrightarrow> wp_Name c \<noteq> [] \<and> 0 < wp_Weight c"
  by (induction vs) (auto simp: Let_def split: option.splits if_splits)

end
