(* ===== verification/GatewayDefaults.thy ===== *)
theory GatewayDefaults
  imports GoInt
begin

text \<open>
  Request defaults in two tiers, provider-wide and per model
  (\<open>internal/api/grpc/gateway/v1/model_defaults.go\<close>). A pointer is an option, so an unset control and a
  configured zero differ. A Go map is an association list with distinct keys in the order of this
  iteration. \<open>strconv.ParseFloat\<close> is an argument (finite values only); \<open>lower\<close> is \<open>strings.ToLower\<close>.
\<close>

section \<open>Controls\<close>

record modelRequestDefaults =
  md_MaxOutputTokens :: "int option"
  md_Temperature :: "rat option"
  md_TopP :: "rat option"
  md_FrequencyPenalty :: "rat option"
  md_PresencePenalty :: "rat option"
  md_ReasoningEffort :: string
  md_ReasoningBudgetTokens :: "int option"
  md_ReasoningEnabled :: "bool option"
  md_TopK :: "int option"
  md_Seed :: "int option"
  md_Verbosity :: string

definition no_defaults :: modelRequestDefaults where
  "no_defaults = \<lparr>md_MaxOutputTokens = None, md_Temperature = None, md_TopP = None, md_FrequencyPenalty = None,
     md_PresencePenalty = None, md_ReasoningEffort = [], md_ReasoningBudgetTokens = None,
     md_ReasoningEnabled = None, md_TopK = None, md_Seed = None, md_Verbosity = []\<rparr>"

definition modelDefaultsKey :: "(string \<Rightarrow> string) \<Rightarrow> string \<Rightarrow> string \<Rightarrow> string" where
  "modelDefaultsKey lower providerName modelName =
     lower (TrimSpace providerName) @ [CHR 0x00] @ lower (TrimSpace modelName)"

section \<open>Parsing\<close>

text \<open>\<open>strconv.ParseBool\<close>.\<close>

definition parse_bool :: "string \<Rightarrow> bool option" where
  "parse_bool s =
     (if s \<in> {''1'', ''t'', ''T'', ''true'', ''TRUE'', ''True''} then Some True
      else if s \<in> {''0'', ''f'', ''F'', ''false'', ''FALSE'', ''False''} then Some False
      else None)"

datatype default_error =
    MustBePositive string
  | MustBeNumber string
  | MustBeNonNegative string
  | MustBeBool string
  | MustBeInteger string

text \<open>One turn of the loop over the values: the branch of a key, an unknown key is skipped.\<close>

definition parse_control ::
    "(string \<Rightarrow> rat option) \<Rightarrow> string \<Rightarrow> string \<Rightarrow> modelRequestDefaults \<Rightarrow> default_error + modelRequestDefaults" where
  "parse_control pf key raw d =
     (let value = TrimSpace raw in
      if value = [] then Inr d
      else if key = ''max_output_tokens'' then
        (case atoi value of
           Some n \<Rightarrow> if n \<le> 0 then Inl (MustBePositive key) else Inr (d\<lparr>md_MaxOutputTokens := Some n\<rparr>)
         | None \<Rightarrow> Inl (MustBePositive key))
      else if key \<in> {''temperature'', ''top_p'', ''frequency_penalty'', ''presence_penalty''} then
        (case pf value of
           None \<Rightarrow> Inl (MustBeNumber key)
         | Some f \<Rightarrow>
             Inr (if key = ''temperature'' then d\<lparr>md_Temperature := Some f\<rparr>
                  else if key = ''top_p'' then d\<lparr>md_TopP := Some f\<rparr>
                  else if key = ''frequency_penalty'' then d\<lparr>md_FrequencyPenalty := Some f\<rparr>
                  else d\<lparr>md_PresencePenalty := Some f\<rparr>))
      else if key = ''reasoning_effort'' then Inr (d\<lparr>md_ReasoningEffort := value\<rparr>)
      else if key = ''verbosity'' then Inr (d\<lparr>md_Verbosity := value\<rparr>)
      else if key = ''reasoning_budget_tokens'' then
        (case atoi value of
           Some n \<Rightarrow> if n < 0 then Inl (MustBeNonNegative key) else Inr (d\<lparr>md_ReasoningBudgetTokens := Some n\<rparr>)
         | None \<Rightarrow> Inl (MustBeNonNegative key))
      else if key = ''reasoning_enabled'' then
        (case parse_bool value of
           Some b \<Rightarrow> Inr (d\<lparr>md_ReasoningEnabled := Some b\<rparr>)
         | None \<Rightarrow> Inl (MustBeBool key))
      else if key = ''top_k'' then
        (case atoi value of
           Some n \<Rightarrow> if n < 0 then Inl (MustBeNonNegative key) else Inr (d\<lparr>md_TopK := Some n\<rparr>)
         | None \<Rightarrow> Inl (MustBeNonNegative key))
      else if key = ''seed'' then
        (case atoi value of
           Some n \<Rightarrow> Inr (d\<lparr>md_Seed := Some n\<rparr>)
         | None \<Rightarrow> Inl (MustBeInteger key))
      else Inr d)"

fun parse_controls ::
    "(string \<Rightarrow> rat option) \<Rightarrow> (string \<times> string) list \<Rightarrow> modelRequestDefaults \<Rightarrow>
       default_error + modelRequestDefaults" where
  "parse_controls pf [] d = Inr d"
| "parse_controls pf ((key, value) # kvs) d =
     (case parse_control pf key value d of
        Inl e \<Rightarrow> Inl e
      | Inr d' \<Rightarrow> parse_controls pf kvs d')"

definition parseOneModelRequestDefaults ::
    "(string \<Rightarrow> rat option) \<Rightarrow> (string \<times> string) list \<Rightarrow> default_error + modelRequestDefaults" where
  "parseOneModelRequestDefaults pf values = parse_controls pf values no_defaults"

definition providerParameterKeys :: "string \<Rightarrow> string option" where
  "providerParameterKeys = map_of
     [(''max_tokens'', ''max_output_tokens''), (''max_output_tokens'', ''max_output_tokens''),
      (''temperature'', ''temperature''), (''top_p'', ''top_p''), (''top_k'', ''top_k''),
      (''frequency_penalty'', ''frequency_penalty''), (''presence_penalty'', ''presence_penalty''),
      (''seed'', ''seed''), (''verbosity'', ''verbosity''), (''reasoning_effort'', ''reasoning_effort''),
      (''reasoning_budget_tokens'', ''reasoning_budget_tokens''), (''reasoning_enabled'', ''reasoning_enabled'')]"

text \<open>The loop that translates the keys; \<open>values\<close> is the map it fills.\<close>

fun provider_values :: "(string \<times> string) list \<Rightarrow> (string \<rightharpoonup> string) \<Rightarrow> (string \<rightharpoonup> string)" where
  "provider_values [] values = values"
| "provider_values ((key, value) # kvs) values =
     (case providerParameterKeys key of
        None \<Rightarrow> provider_values kvs values
      | Some parameter \<Rightarrow>
          if values parameter \<noteq> None \<and> key = ''max_tokens'' then provider_values kvs values
          else provider_values kvs (values(parameter \<mapsto> value)))"

text \<open>
  \<open>order\<close> lists the entries of a map in the order the second loop meets them: any enumeration of the
  entries, which is what a range over a Go map is.
\<close>

definition parseProviderRequestDefaults ::
    "(string \<Rightarrow> rat option) \<Rightarrow> ((string \<rightharpoonup> string) \<Rightarrow> (string \<times> string) list) \<Rightarrow> (string \<times> string) list \<Rightarrow>
       default_error + modelRequestDefaults" where
  "parseProviderRequestDefaults pf order customSettings =
     (if customSettings = [] then Inr no_defaults
      else parseOneModelRequestDefaults pf (order (provider_values customSettings Map.empty)))"

datatype model_defaults_error = InvalidJSON | BadModel string default_error

text \<open>\<open>json.Unmarshal\<close> into a map of maps is an argument.\<close>

fun collect_models ::
    "(string \<Rightarrow> string) \<Rightarrow> (string \<Rightarrow> rat option) \<Rightarrow> string \<Rightarrow> (string \<times> (string \<times> string) list) list \<Rightarrow>
       (string \<rightharpoonup> modelRequestDefaults) \<Rightarrow> model_defaults_error + (string \<rightharpoonup> modelRequestDefaults)" where
  "collect_models lower pf provider [] acc = Inr acc"
| "collect_models lower pf provider ((model, values) # ms) acc =
     (case parseOneModelRequestDefaults pf values of
        Inl e \<Rightarrow> Inl (BadModel model e)
      | Inr d \<Rightarrow> collect_models lower pf provider ms (acc(modelDefaultsKey lower provider model \<mapsto> d)))"

definition parseModelRequestDefaults ::
    "(string \<Rightarrow> string) \<Rightarrow> (string \<Rightarrow> rat option) \<Rightarrow> (string \<Rightarrow> (string \<times> (string \<times> string) list) list option) \<Rightarrow>
       string \<Rightarrow> string \<Rightarrow> model_defaults_error + (string \<rightharpoonup> modelRequestDefaults)" where
  "parseModelRequestDefaults lower pf unmarshal providerName raw =
     (if TrimSpace raw = [] then Inr Map.empty
      else case unmarshal raw of
        None \<Rightarrow> Inl InvalidJSON
      | Some models \<Rightarrow> collect_models lower pf providerName models Map.empty)"

section \<open>Composition\<close>

definition keep_if :: "bool \<Rightarrow> 'a option \<Rightarrow> 'a option" where
  "keep_if b x = (if b then x else None)"

definition restrictedTo :: "(string \<Rightarrow> bool) \<Rightarrow> modelRequestDefaults \<Rightarrow> modelRequestDefaults" where
  "restrictedTo supports d =
     \<lparr>md_MaxOutputTokens = keep_if (supports ''max_output_tokens'') (md_MaxOutputTokens d),
      md_Temperature = keep_if (supports ''temperature'') (md_Temperature d),
      md_TopP = keep_if (supports ''top_p'') (md_TopP d),
      md_FrequencyPenalty = keep_if (supports ''frequency_penalty'') (md_FrequencyPenalty d),
      md_PresencePenalty = keep_if (supports ''presence_penalty'') (md_PresencePenalty d),
      md_ReasoningEffort = (if supports ''reasoning_effort'' then md_ReasoningEffort d else []),
      md_ReasoningBudgetTokens = keep_if (supports ''reasoning_budget_tokens'') (md_ReasoningBudgetTokens d),
      md_ReasoningEnabled = keep_if (supports ''reasoning_enabled'') (md_ReasoningEnabled d),
      md_TopK = keep_if (supports ''top_k'') (md_TopK d),
      md_Seed = keep_if (supports ''seed'') (md_Seed d),
      md_Verbosity = (if supports ''verbosity'' then md_Verbosity d else [])\<rparr>"

definition or_else :: "'a option \<Rightarrow> 'a option \<Rightarrow> 'a option" where
  "or_else x y = (if x \<noteq> None then x else y)"

definition overlay :: "modelRequestDefaults \<Rightarrow> modelRequestDefaults \<Rightarrow> modelRequestDefaults" where
  "overlay d base =
     \<lparr>md_MaxOutputTokens = or_else (md_MaxOutputTokens d) (md_MaxOutputTokens base),
      md_Temperature = or_else (md_Temperature d) (md_Temperature base),
      md_TopP = or_else (md_TopP d) (md_TopP base),
      md_FrequencyPenalty = or_else (md_FrequencyPenalty d) (md_FrequencyPenalty base),
      md_PresencePenalty = or_else (md_PresencePenalty d) (md_PresencePenalty base),
      md_ReasoningEffort = (if md_ReasoningEffort d \<noteq> [] then md_ReasoningEffort d else md_ReasoningEffort base),
      md_ReasoningBudgetTokens = or_else (md_ReasoningBudgetTokens d) (md_ReasoningBudgetTokens base),
      md_ReasoningEnabled = or_else (md_ReasoningEnabled d) (md_ReasoningEnabled base),
      md_TopK = or_else (md_TopK d) (md_TopK base),
      md_Seed = or_else (md_Seed d) (md_Seed base),
      md_Verbosity = (if md_Verbosity d \<noteq> [] then md_Verbosity d else md_Verbosity base)\<rparr>"

section \<open>Application to a request\<close>

record sampling_params =
  sp_Temperature :: rat
  sp_TemperatureConfigured :: bool
  sp_TopP :: rat
  sp_TopPConfigured :: bool
  sp_MaxTokens :: int
  sp_MaxCompletionTokens :: int
  sp_Stop :: "string list"
  sp_FrequencyPenalty :: rat
  sp_FrequencyConfigured :: bool
  sp_PresencePenalty :: rat
  sp_PresenceConfigured :: bool
  sp_ReasoningEffort :: string
  sp_ReasoningBudget :: "int option"
  sp_ReasoningEnabled :: "bool option"
  sp_TopK :: "int option"
  sp_Seed :: "int option"
  sp_Verbosity :: string

text \<open>Each guarded assignment of \<open>applySampling\<close>, with the flag that becomes true when it is taken.\<close>

definition apply_when :: "bool \<Rightarrow> ('s \<Rightarrow> 's) \<Rightarrow> 's \<times> bool \<Rightarrow> 's \<times> bool" where
  "apply_when b f sa = (if b then (f (fst sa), True) else sa)"

definition request_has_reasoning :: "sampling_params \<Rightarrow> bool" where
  "request_has_reasoning s \<longleftrightarrow>
     sp_ReasoningEffort s \<noteq> [] \<or> sp_ReasoningBudget s \<noteq> None \<or> sp_ReasoningEnabled s \<noteq> None"

definition applySampling :: "modelRequestDefaults \<Rightarrow> sampling_params \<Rightarrow> sampling_params \<times> bool" where
  "applySampling d s =
     (let sa = (s, False);
          sa = apply_when (md_MaxOutputTokens d \<noteq> None \<and> sp_MaxTokens s = 0 \<and> sp_MaxCompletionTokens s = 0)
                 (\<lambda>s. s\<lparr>sp_MaxTokens := the (md_MaxOutputTokens d)\<rparr>) sa;
          sa = apply_when (md_Temperature d \<noteq> None \<and> \<not> sp_TemperatureConfigured s \<and> sp_Temperature s = 0)
                 (\<lambda>s. s\<lparr>sp_Temperature := the (md_Temperature d), sp_TemperatureConfigured := True\<rparr>) sa;
          sa = apply_when (md_TopP d \<noteq> None \<and> \<not> sp_TopPConfigured s \<and> sp_TopP s = 0)
                 (\<lambda>s. s\<lparr>sp_TopP := the (md_TopP d), sp_TopPConfigured := True\<rparr>) sa;
          sa = apply_when (md_FrequencyPenalty d \<noteq> None \<and> \<not> sp_FrequencyConfigured s \<and> sp_FrequencyPenalty s = 0)
                 (\<lambda>s. s\<lparr>sp_FrequencyPenalty := the (md_FrequencyPenalty d), sp_FrequencyConfigured := True\<rparr>) sa;
          sa = apply_when (md_PresencePenalty d \<noteq> None \<and> \<not> sp_PresenceConfigured s \<and> sp_PresencePenalty s = 0)
                 (\<lambda>s. s\<lparr>sp_PresencePenalty := the (md_PresencePenalty d), sp_PresenceConfigured := True\<rparr>) sa;
          sa = apply_when (md_TopK d \<noteq> None \<and> sp_TopK s = None) (\<lambda>s. s\<lparr>sp_TopK := md_TopK d\<rparr>) sa;
          sa = apply_when (md_Seed d \<noteq> None \<and> sp_Seed s = None) (\<lambda>s. s\<lparr>sp_Seed := md_Seed d\<rparr>) sa;
          sa = apply_when (md_Verbosity d \<noteq> [] \<and> sp_Verbosity s = []) (\<lambda>s. s\<lparr>sp_Verbosity := md_Verbosity d\<rparr>) sa;
          open = \<not> request_has_reasoning s;
          sa = apply_when (open \<and> md_ReasoningEffort d \<noteq> [])
                 (\<lambda>s. s\<lparr>sp_ReasoningEffort := md_ReasoningEffort d\<rparr>) sa;
          sa = apply_when (open \<and> md_ReasoningBudgetTokens d \<noteq> None)
                 (\<lambda>s. s\<lparr>sp_ReasoningBudget := md_ReasoningBudgetTokens d\<rparr>) sa
      in apply_when (open \<and> md_ReasoningEnabled d \<noteq> None)
           (\<lambda>s. s\<lparr>sp_ReasoningEnabled := md_ReasoningEnabled d\<rparr>) sa)"

text \<open>The part of a Responses API request the defaults reach.\<close>

record response_params =
  rq_MaxOutputTokens :: int
  rq_MaxOutputConfigured :: bool
  rq_Temperature :: rat
  rq_TemperatureConfigured :: bool
  rq_TopP :: rat
  rq_TopPConfigured :: bool
  rq_Reasoning :: "(string \<times> string) option"

definition applyResponse :: "modelRequestDefaults \<Rightarrow> response_params \<Rightarrow> response_params \<times> bool" where
  "applyResponse d r =
     (let sa = (r, False);
          sa = apply_when (md_MaxOutputTokens d \<noteq> None \<and> \<not> rq_MaxOutputConfigured r \<and> rq_MaxOutputTokens r = 0)
                 (\<lambda>r. r\<lparr>rq_MaxOutputTokens := the (md_MaxOutputTokens d), rq_MaxOutputConfigured := True\<rparr>) sa;
          sa = apply_when (md_Temperature d \<noteq> None \<and> \<not> rq_TemperatureConfigured r \<and> rq_Temperature r = 0)
                 (\<lambda>r. r\<lparr>rq_Temperature := the (md_Temperature d), rq_TemperatureConfigured := True\<rparr>) sa;
          sa = apply_when (md_TopP d \<noteq> None \<and> \<not> rq_TopPConfigured r \<and> rq_TopP r = 0)
                 (\<lambda>r. r\<lparr>rq_TopP := the (md_TopP d), rq_TopPConfigured := True\<rparr>) sa
      in apply_when (md_ReasoningEffort d \<noteq> [] \<and> (case rq_Reasoning r of None \<Rightarrow> True | Some (effort, _) \<Rightarrow> effort = []))
           (\<lambda>r. r\<lparr>rq_Reasoning := Some (md_ReasoningEffort d,
                     case rq_Reasoning r of None \<Rightarrow> [] | Some (_, summary) \<Rightarrow> summary)\<rparr>) sa)"

section \<open>A parse depends on the map only\<close>

text \<open>The entries the parser rejects.\<close>

definition bad_control :: "(string \<Rightarrow> rat option) \<Rightarrow> string \<Rightarrow> string \<Rightarrow> bool" where
  "bad_control pf key raw \<longleftrightarrow>
     (let v = TrimSpace raw in
      v \<noteq> [] \<and>
      ((key = ''max_output_tokens'' \<and> (case atoi v of Some n \<Rightarrow> n \<le> 0 | None \<Rightarrow> True)) \<or>
       (key \<in> {''temperature'', ''top_p'', ''frequency_penalty'', ''presence_penalty''} \<and> pf v = None) \<or>
       (key \<in> {''reasoning_budget_tokens'', ''top_k''} \<and> (case atoi v of Some n \<Rightarrow> n < 0 | None \<Rightarrow> True)) \<or>
       (key = ''reasoning_enabled'' \<and> parse_bool v = None) \<or>
       (key = ''seed'' \<and> atoi v = None)))"

lemma parse_control_rejects: "isl (parse_control pf key raw d) \<longleftrightarrow> bad_control pf key raw"
  by (auto simp: parse_control_def bad_control_def Let_def split: option.splits)

lemma parse_controls_rejects: "isl (parse_controls pf kvs d) \<longleftrightarrow> (\<exists>(k, v) \<in> set kvs. bad_control pf k v)"
proof (induction kvs arbitrary: d)
  case (Cons kv kvs)
  obtain k v where kv: "kv = (k, v)" by (cases kv)
  show ?case
    using Cons.IH parse_control_rejects [of pf k v d] by (auto simp: kv split: sum.splits)
qed simp

text \<open>A projection that only one key moves ends at that key's entry.\<close>

lemma parse_controls_projection:
  assumes step: "\<And>k v d d'. parse_control pf k v d = Inr d' \<Longrightarrow>
      prj d' = (if k = key \<and> TrimSpace v \<noteq> [] then g (TrimSpace v) else prj d)"
    and "parse_controls pf kvs d = Inr d'" "distinct (map fst kvs)"
  shows "prj d' = (case map_of kvs key of
      Some v \<Rightarrow> if TrimSpace v \<noteq> [] then g (TrimSpace v) else prj d | None \<Rightarrow> prj d)"
  using assms(2,3)
proof (induction kvs arbitrary: d)
  case (Cons kv kvs)
  obtain k v where kv: "kv = (k, v)" by (cases kv)
  from Cons.prems obtain d1 where d1: "parse_control pf k v d = Inr d1" "parse_controls pf kvs d1 = Inr d'"
    by (auto simp: kv split: sum.splits)
  have "map_of kvs k = None" using Cons.prems(2) by (simp add: kv map_of_eq_None_iff)
  then show ?case
    using Cons.IH [OF d1(2)] Cons.prems(2) step [OF d1(1)] by (auto simp: kv split: option.splits)
qed simp

definition read_control :: "(string \<Rightarrow> 'a option) \<Rightarrow> (string \<rightharpoonup> string) \<Rightarrow> string \<Rightarrow> 'a option" where
  "read_control parse m key =
     (case m key of Some v \<Rightarrow> if TrimSpace v \<noteq> [] then parse (TrimSpace v) else None | None \<Rightarrow> None)"

definition read_text :: "(string \<rightharpoonup> string) \<Rightarrow> string \<Rightarrow> string" where
  "read_text m key = (case m key of Some v \<Rightarrow> TrimSpace v | None \<Rightarrow> [])"

definition defaults_of :: "(string \<Rightarrow> rat option) \<Rightarrow> (string \<rightharpoonup> string) \<Rightarrow> modelRequestDefaults" where
  "defaults_of pf m =
     \<lparr>md_MaxOutputTokens = read_control atoi m ''max_output_tokens'',
      md_Temperature = read_control pf m ''temperature'',
      md_TopP = read_control pf m ''top_p'',
      md_FrequencyPenalty = read_control pf m ''frequency_penalty'',
      md_PresencePenalty = read_control pf m ''presence_penalty'',
      md_ReasoningEffort = read_text m ''reasoning_effort'',
      md_ReasoningBudgetTokens = read_control atoi m ''reasoning_budget_tokens'',
      md_ReasoningEnabled = read_control parse_bool m ''reasoning_enabled'',
      md_TopK = read_control atoi m ''top_k'',
      md_Seed = read_control atoi m ''seed'',
      md_Verbosity = read_text m ''verbosity''\<rparr>"

lemma parse_controls_reads:
  assumes step: "\<And>k v d d'. parse_control pf k v d = Inr d' \<Longrightarrow>
      prj d' = (if k = key \<and> TrimSpace v \<noteq> [] then parse (TrimSpace v) else prj d)"
    and "parse_controls pf kvs no_defaults = Inr d'" "distinct (map fst kvs)" "prj no_defaults = None"
  shows "prj d' = read_control parse (map_of kvs) key"
  using parse_controls_projection [of pf prj key parse, OF step assms(2,3)] assms(4)
  by (simp add: read_control_def split: option.splits)

lemma parse_controls_reads_text:
  assumes step: "\<And>k v d d'. parse_control pf k v d = Inr d' \<Longrightarrow>
      prj d' = (if k = key \<and> TrimSpace v \<noteq> [] then TrimSpace v else prj d)"
    and "parse_controls pf kvs no_defaults = Inr d'" "distinct (map fst kvs)" "prj no_defaults = []"
  shows "prj d' = read_text (map_of kvs) key"
  using parse_controls_projection [of pf prj key "\<lambda>v. v", OF step assms(2,3)] assms(4)
  by (auto simp: read_text_def split: option.splits)

lemmas parse_branches = parse_control_def Let_def

lemma parseOne_exact:
  assumes "distinct (map fst kvs)"
  shows "(\<exists>e. parseOneModelRequestDefaults pf kvs = Inl e) \<longleftrightarrow> (\<exists>(k, v) \<in> set kvs. bad_control pf k v)"
    and "parseOneModelRequestDefaults pf kvs = Inr d \<Longrightarrow> d = defaults_of pf (map_of kvs)"
proof -
  show "(\<exists>e. parseOneModelRequestDefaults pf kvs = Inl e) \<longleftrightarrow> (\<exists>(k, v) \<in> set kvs. bad_control pf k v)"
    unfolding parse_controls_rejects [of pf kvs no_defaults, symmetric] parseOneModelRequestDefaults_def
    by (cases "parse_controls pf kvs no_defaults") auto
next
  assume "parseOneModelRequestDefaults pf kvs = Inr d"
  then have p: "parse_controls pf kvs no_defaults = Inr d" by (simp add: parseOneModelRequestDefaults_def)
  note reads = parse_controls_reads [OF _ p assms] and texts = parse_controls_reads_text [OF _ p assms]
  show "d = defaults_of pf (map_of kvs)"
    by (rule modelRequestDefaults.equality; simp add: defaults_of_def; (rule reads texts;
      auto simp: parse_branches no_defaults_def split: if_splits option.splits))
qed

text \<open>Both spellings of the output cap, \<open>max_output_tokens\<close> wins in any order.\<close>

definition own_parameter :: "string \<Rightarrow> bool" where
  "own_parameter k \<longleftrightarrow> k \<in> set [''max_output_tokens'', ''temperature'', ''top_p'', ''top_k'', ''frequency_penalty'',
     ''presence_penalty'', ''seed'', ''verbosity'', ''reasoning_effort'', ''reasoning_budget_tokens'',
     ''reasoning_enabled'']"

lemma map_of_own: "map_of (map (\<lambda>k. (k, k)) ks) k = (if k \<in> set ks then Some k else None)"
  by (induction ks) auto

lemma providerParameterKeys_cases:
  "providerParameterKeys k =
     (if k = ''max_tokens'' then Some ''max_output_tokens'' else if own_parameter k then Some k else None)"
proof -
  have keys: "providerParameterKeys = map_of ((''max_tokens'', ''max_output_tokens'') #
      map (\<lambda>k. (k, k)) [''max_output_tokens'', ''temperature'', ''top_p'', ''top_k'', ''frequency_penalty'',
        ''presence_penalty'', ''seed'', ''verbosity'', ''reasoning_effort'', ''reasoning_budget_tokens'',
        ''reasoning_enabled''])"
    by (simp only: providerParameterKeys_def list.map)
  show ?thesis by (simp only: keys map_of.simps fun_upd_apply map_of_own own_parameter_def fst_conv snd_conv)
qed

lemma own_parameter_cap: "own_parameter ''max_output_tokens''" "\<not> own_parameter ''max_tokens''"
  by (simp_all add: own_parameter_def)

definition provider_view :: "(string \<rightharpoonup> string) \<Rightarrow> (string \<rightharpoonup> string)" where
  "provider_view m p =
     (if p = ''max_output_tokens'' then or_else (m ''max_output_tokens'') (m ''max_tokens'')
      else if own_parameter p then m p else None)"

lemma provider_values_cap:
  "distinct (map fst kvs) \<Longrightarrow>
     provider_values kvs values ''max_output_tokens'' =
       or_else (map_of kvs ''max_output_tokens'') (or_else (values ''max_output_tokens'') (map_of kvs ''max_tokens''))"
proof (induction kvs arbitrary: "values")
  case (Cons kv kvs)
  obtain k v where kv: "kv = (k, v)" by (cases kv)
  have fresh: "map_of kvs k = None" using Cons.prems by (simp add: kv map_of_eq_None_iff)
  have IH: "provider_values kvs vs ''max_output_tokens'' =
      or_else (map_of kvs ''max_output_tokens'') (or_else (vs ''max_output_tokens'') (map_of kvs ''max_tokens''))" for vs
    using Cons by (simp add: kv)
  consider "k = ''max_tokens''" | "k = ''max_output_tokens''"
    | "k \<noteq> ''max_tokens''" "k \<noteq> ''max_output_tokens''" by blast
  then show ?case
  proof cases
    case 1
    then show ?thesis using fresh
      by (cases "values ''max_output_tokens''") (simp_all add: kv IH providerParameterKeys_cases or_else_def)
  next
    case 2
    then show ?thesis using fresh own_parameter_cap by (simp add: kv IH providerParameterKeys_cases or_else_def)
  next
    case 3
    then show ?thesis by (simp add: kv IH providerParameterKeys_cases)
  qed
qed (simp add: or_else_def)

lemma provider_values_other:
  "distinct (map fst kvs) \<Longrightarrow> p \<noteq> ''max_output_tokens'' \<Longrightarrow>
     provider_values kvs values p =
       (if own_parameter p \<and> map_of kvs p \<noteq> None then map_of kvs p else values p)"
proof (induction kvs arbitrary: "values")
  case (Cons kv kvs)
  obtain k v where kv: "kv = (k, v)" by (cases kv)
  have fresh: "map_of kvs k = None" using Cons.prems by (simp add: kv map_of_eq_None_iff)
  have IH: "provider_values kvs vs p = (if own_parameter p \<and> map_of kvs p \<noteq> None then map_of kvs p else vs p)" for vs
    using Cons by (simp add: kv)
  consider "k = ''max_tokens''" | "k \<noteq> ''max_tokens''" "p = k" | "k \<noteq> ''max_tokens''" "p \<noteq> k" by blast
  then show ?case
  proof cases
    case 1
    have "p = ''max_tokens'' \<Longrightarrow> \<not> own_parameter p" using own_parameter_cap by simp
    with 1 Cons.prems(2) show ?thesis by (auto simp: kv IH providerParameterKeys_cases)
  next
    case 2
    then show ?thesis using Cons.prems(2) fresh by (simp add: kv IH [unfolded 2] providerParameterKeys_cases)
  next
    case 3
    then show ?thesis using Cons.prems(2)
      by (cases "map_of kvs p") (simp_all add: kv IH providerParameterKeys_cases)
  qed
qed simp

lemma provider_values_exact:
  "distinct (map fst kvs) \<Longrightarrow> provider_values kvs Map.empty = provider_view (map_of kvs)"
proof (rule ext)
  fix p
  assume "distinct (map fst kvs)"
  then show "provider_values kvs Map.empty p = provider_view (map_of kvs) p"
    by (cases "map_of kvs p")
      (simp_all add: provider_view_def provider_values_cap provider_values_other or_else_def)
qed

section \<open>The effective value of a control\<close>

text \<open>A number of the request, or the default where the request left it unset.\<close>

definition number_or :: "bool \<Rightarrow> 'a \<Rightarrow> 'a option \<Rightarrow> 'a" where
  "number_or taken x d = (if taken then x else case d of Some y \<Rightarrow> y | None \<Rightarrow> x)"

lemma apply_when_simps [simp]:
  "fst (apply_when b f sa) = (if b then f (fst sa) else fst sa)"
  "snd (apply_when b f sa) = (b \<or> snd sa)"
  by (auto simp: apply_when_def)

text \<open>
  A guarded assignment seen through a field: one that leaves the field alone is transparent, the other
  is a case distinction.
\<close>

lemma apply_when_frame: "(\<And>y. p (f y) = p y) \<Longrightarrow> p (fst (apply_when b f sa)) = p (fst sa)"
  by simp

lemma apply_when_at: "p (fst (apply_when b f sa)) = (if b then p (f (fst sa)) else p (fst sa))"
  by simp

lemmas sampling_frame =
  apply_when_frame [where p = sp_Temperature]
  apply_when_frame [where p = sp_TemperatureConfigured]
  apply_when_frame [where p = sp_TopP]
  apply_when_frame [where p = sp_TopPConfigured]
  apply_when_frame [where p = sp_MaxTokens]
  apply_when_frame [where p = sp_MaxCompletionTokens]
  apply_when_frame [where p = sp_Stop]
  apply_when_frame [where p = sp_FrequencyPenalty]
  apply_when_frame [where p = sp_FrequencyConfigured]
  apply_when_frame [where p = sp_PresencePenalty]
  apply_when_frame [where p = sp_PresenceConfigured]
  apply_when_frame [where p = sp_ReasoningEffort]
  apply_when_frame [where p = sp_ReasoningBudget]
  apply_when_frame [where p = sp_ReasoningEnabled]
  apply_when_frame [where p = sp_TopK]
  apply_when_frame [where p = sp_Seed]
  apply_when_frame [where p = sp_Verbosity]

lemmas sampling_at =
  apply_when_at [where p = sp_Temperature]
  apply_when_at [where p = sp_TemperatureConfigured]
  apply_when_at [where p = sp_TopP]
  apply_when_at [where p = sp_TopPConfigured]
  apply_when_at [where p = sp_MaxTokens]
  apply_when_at [where p = sp_MaxCompletionTokens]
  apply_when_at [where p = sp_Stop]
  apply_when_at [where p = sp_FrequencyPenalty]
  apply_when_at [where p = sp_FrequencyConfigured]
  apply_when_at [where p = sp_PresencePenalty]
  apply_when_at [where p = sp_PresenceConfigured]
  apply_when_at [where p = sp_ReasoningEffort]
  apply_when_at [where p = sp_ReasoningBudget]
  apply_when_at [where p = sp_ReasoningEnabled]
  apply_when_at [where p = sp_TopK]
  apply_when_at [where p = sp_Seed]
  apply_when_at [where p = sp_Verbosity]

lemma applySampling_values:
  "fst (applySampling d s) = s
     \<lparr>sp_MaxTokens := number_or (sp_MaxTokens s \<noteq> 0 \<or> sp_MaxCompletionTokens s \<noteq> 0) (sp_MaxTokens s) (md_MaxOutputTokens d),
      sp_Temperature := number_or (sp_TemperatureConfigured s \<or> sp_Temperature s \<noteq> 0) (sp_Temperature s) (md_Temperature d),
      sp_TemperatureConfigured := sp_TemperatureConfigured s \<or> (sp_Temperature s = 0 \<and> md_Temperature d \<noteq> None),
      sp_TopP := number_or (sp_TopPConfigured s \<or> sp_TopP s \<noteq> 0) (sp_TopP s) (md_TopP d),
      sp_TopPConfigured := sp_TopPConfigured s \<or> (sp_TopP s = 0 \<and> md_TopP d \<noteq> None),
      sp_FrequencyPenalty :=
        number_or (sp_FrequencyConfigured s \<or> sp_FrequencyPenalty s \<noteq> 0) (sp_FrequencyPenalty s) (md_FrequencyPenalty d),
      sp_FrequencyConfigured := sp_FrequencyConfigured s \<or> (sp_FrequencyPenalty s = 0 \<and> md_FrequencyPenalty d \<noteq> None),
      sp_PresencePenalty :=
        number_or (sp_PresenceConfigured s \<or> sp_PresencePenalty s \<noteq> 0) (sp_PresencePenalty s) (md_PresencePenalty d),
      sp_PresenceConfigured := sp_PresenceConfigured s \<or> (sp_PresencePenalty s = 0 \<and> md_PresencePenalty d \<noteq> None),
      sp_TopK := or_else (sp_TopK s) (md_TopK d),
      sp_Seed := or_else (sp_Seed s) (md_Seed d),
      sp_Verbosity := (if sp_Verbosity s \<noteq> [] then sp_Verbosity s else md_Verbosity d),
      sp_ReasoningEffort := (if request_has_reasoning s then sp_ReasoningEffort s else md_ReasoningEffort d),
      sp_ReasoningBudget := (if request_has_reasoning s then sp_ReasoningBudget s else md_ReasoningBudgetTokens d),
      sp_ReasoningEnabled := (if request_has_reasoning s then sp_ReasoningEnabled s else md_ReasoningEnabled d)\<rparr>"
  by (rule sampling_params.equality; (simp only: applySampling_def Let_def)?;
    (simp add: sampling_frame del: apply_when_simps)?; (simp only: sampling_at)?;
    (simp add: sampling_frame number_or_def or_else_def request_has_reasoning_def del: apply_when_simps
       cong: if_cong split: option.split)?)

text \<open>
  The provider-wide tier as a function of the settings map: neither the order of the settings nor the
  order of the translated map shows in what is accepted.
\<close>

definition enumerates :: "((string \<rightharpoonup> string) \<Rightarrow> (string \<times> string) list) \<Rightarrow> bool" where
  "enumerates order \<longleftrightarrow>
     (\<forall>m. (\<forall>k. m k \<noteq> None \<longrightarrow> own_parameter k) \<longrightarrow> distinct (map fst (order m)) \<and> map_of (order m) = m)"

definition in_order :: "string list \<Rightarrow> (string \<rightharpoonup> string) \<Rightarrow> (string \<times> string) list" where
  "in_order ks m = concat (map (\<lambda>k. case m k of None \<Rightarrow> [] | Some v \<Rightarrow> [(k, v)]) ks)"

lemma in_order_map_of:
  "map_of (in_order ks m) k = (if k \<in> set ks then m k else None)"
  "fst ` set (in_order ks m) \<subseteq> set ks"
  by (induction ks) (auto simp: in_order_def split: option.splits)

lemma in_order_distinct: "distinct ks \<Longrightarrow> distinct (map fst (in_order ks m))"
proof (induction ks)
  case (Cons k ks)
  then show ?case using in_order_map_of(2) [of ks m] by (auto simp: in_order_def split: option.splits)
qed (simp add: in_order_def)

text \<open>Ranging over the map in any order of the parameters enumerates it.\<close>

lemma in_order_enumerates: "distinct ks \<Longrightarrow> (\<And>k. own_parameter k \<Longrightarrow> k \<in> set ks) \<Longrightarrow> enumerates (in_order ks)"
proof -
  assume ks: "distinct ks" "\<And>k. own_parameter k \<Longrightarrow> k \<in> set ks"
  have "map_of (in_order ks m) = m" if "\<forall>k. m k \<noteq> None \<longrightarrow> own_parameter k" for m
  proof (rule ext)
    fix k show "map_of (in_order ks m) k = m k"
      unfolding in_order_map_of(1) using that ks(2) [of k] by (cases "m k") auto
  qed
  with in_order_distinct [OF ks(1)] show ?thesis unfolding enumerates_def by blast
qed

lemma provider_view_parameters: "provider_view m k \<noteq> None \<Longrightarrow> own_parameter k"
  by (auto simp: provider_view_def own_parameter_cap split: if_splits)

lemma parseProvider_exact:
  assumes "distinct (map fst kvs)" "enumerates order"
  shows "parseProviderRequestDefaults pf order kvs = Inr d \<longleftrightarrow>
    (\<forall>k v. provider_view (map_of kvs) k = Some v \<longrightarrow> \<not> bad_control pf k v) \<and>
    d = defaults_of pf (provider_view (map_of kvs))"
proof (cases "kvs = []")
  case True
  have none: "provider_view (map_of []) = Map.empty"
    by (rule ext) (simp add: provider_view_def or_else_def)
  have "no_defaults = defaults_of pf Map.empty"
    by (simp add: no_defaults_def defaults_of_def read_control_def read_text_def)
  then show ?thesis using True none by (auto simp: parseProviderRequestDefaults_def)
next
  case False
  let ?m = "provider_view (map_of kvs)" and ?l = "order (provider_view (map_of kvs))"
  have l: "distinct (map fst ?l)" "map_of ?l = ?m"
    using assms(2) [unfolded enumerates_def, rule_format, of ?m] provider_view_parameters [of "map_of kvs"] by blast+
  have parse: "parseProviderRequestDefaults pf order kvs = parseOneModelRequestDefaults pf ?l"
    using False assms(1) by (simp add: parseProviderRequestDefaults_def provider_values_exact)
  have bad: "(\<exists>(k, v) \<in> set ?l. bad_control pf k v) \<longleftrightarrow> (\<exists>k v. ?m k = Some v \<and> bad_control pf k v)"
    unfolding map_of_eq_Some_iff [OF l(1), unfolded l(2)] by blast
  show ?thesis
    using parseOne_exact(1) [OF l(1), of pf] parseOne_exact(2) [OF l(1), of pf]
    unfolding parse bad l(2) by (cases "parseOneModelRequestDefaults pf ?l") auto
qed

end
