(* ===== verification/GatewayGuarantees.thy ===== *)
theory GatewayGuarantees
  imports GatewayBalancer GatewayDefaults
begin

text \<open>
  What the gateway promises before it calls a provider: a key and a provider in proportion to their
  weights, a route to a registered provider, figures of the rate limits that are the last reported, and the
  configured defaults.
\<close>

section \<open>The choice of a key\<close>

text \<open>
  C31: The choice of an API key is sticky and proportional. With a key available and weights below 2^32 in
  total, the sticky key alone determines the choice: the key whose slot the hash falls into, an active key
  that is not rate limited. Of the residues of the hash modulo the total weight, each key has exactly as many as
  its weight.
\<close>

theorem sticky_choice_proportional:
  assumes "available = filterAvailableKeys now mon provider keys" "available \<noteq> []"
    and "ws = map key_weight available" "sum_list ws < 2 ^ 32"
  shows "(let i = slot ws (uint (fnv32a stickyKey) mod sum_list ws)
          in i < length available \<and> SelectAPIKey now mon keys stickyKey provider = Inr (available ! i)) \<and>
    (\<forall>i < length available.
       card {r \<in> {0 ..< sum_list ws}. slot ws r = i} = nat (key_weight (available ! i)) \<and>
       available ! i \<in> set keys \<and> pk_IsActive (available ! i) \<and>
       (\<forall>m. mon = Some m \<longrightarrow> \<not> IsRateLimited now (provider @ '':'' @ pk_ID (available ! i)) m))"
proof -
  have ws: "sum_list (map key_weight available) < 2 ^ 32" using assms(3,4) by simp
  have "available ! i \<in> set keys \<and> pk_IsActive (available ! i) \<and>
      (\<forall>m. mon = Some m \<longrightarrow> \<not> IsRateLimited now (provider @ '':'' @ pk_ID (available ! i)) m)"
    if "i < length available" for i
    using nth_mem [OF that] by (auto simp: assms(1) filterAvailableKeys_def)
  with SelectAPIKey_exact [OF assms(1,2) ws, of stickyKey] keys.picks(2) [OF assms(2) ws, of stickyKey] keys.share
  show ?thesis by (simp add: Let_def assms(3) keys.pick_def)
qed

definition demo_keys :: "provider_api_key list" where
  "demo_keys = [\<lparr>pk_ID = ''k1'', pk_KeyEncrypted = ''s1'', pk_Weight = 3, pk_IsActive = True\<rparr>,
     \<lparr>pk_ID = ''k2'', pk_KeyEncrypted = ''s2'', pk_Weight = 0, pk_IsActive = True\<rparr>]"

theorem sticky_choice_proportional_witness:
  "SelectAPIKey 0 (Some NewMonitor) demo_keys ''user-1'' ''openai'' \<in> {Inr (demo_keys ! 0), Inr (demo_keys ! 1)} \<and>
   card {r \<in> {0 ..< 4}. slot [3, 1] r = 0} = 3"
proof -
  have av: "filterAvailableKeys 0 (Some NewMonitor) ''openai'' demo_keys = demo_keys"
    by (simp add: filterAvailableKeys_def demo_keys_def IsRateLimited_def GetStatus_def NewMonitor_def)
  have ws: "map key_weight demo_keys = [3, 1]" by (simp add: demo_keys_def key_weight_def)
  have len: "length demo_keys = 2" by (simp add: demo_keys_def)
  have k: "key_weight (demo_keys ! 0) = 3" by (simp add: demo_keys_def key_weight_def)
  have two: "i < 2 \<Longrightarrow> i = 0 \<or> i = 1" for i :: nat by auto
  note p = sticky_choice_proportional
    [where available = demo_keys and now = 0 and mon = "Some NewMonitor" and provider = "''openai''"
       and keys = demo_keys and ws = "[3, 1]" and stickyKey = "''user-1''"]
  have "demo_keys \<noteq> []" by (simp add: demo_keys_def)
  from p [OF av [symmetric] this ws [symmetric]] two show ?thesis
    by (fastforce simp: Let_def len k)
qed

section \<open>The load balancer\<close>

text \<open>The results of \<open>m\<close> consecutive calls of a node, the counter handed on.\<close>

fun balancer_runs ::
    "(string \<Rightarrow> string) \<Rightarrow> ('p \<Rightarrow> string \<Rightarrow> bool) \<Rightarrow> 'p router option \<Rightarrow> 'p router_cache option \<Rightarrow> balancer_env \<Rightarrow>
       graph_node \<Rightarrow> exec_context \<Rightarrow> 64 word \<Rightarrow> nat \<Rightarrow> node_result list" where
  "balancer_runs lower supports ro cache env n ec rr 0 = []"
| "balancer_runs lower supports ro cache env n ec rr (Suc m) =
     (case Execute_balancer lower supports ro cache env n ec rr of
        ((res, _), rr') \<Rightarrow> res # balancer_runs lower supports ro cache env n ec rr' m)"

definition rotates :: "string \<Rightarrow> bool" where
  "rotates strategy \<longleftrightarrow> strategy \<noteq> [] \<and> strategy \<notin> {''router'', ''weighted'', ''random''}"

lemma rotation_step:
  assumes "rotates (GetConfigString n ''strategy'')" "cs = choice_list env n" "cs \<noteq> []" "length cs < 2 ^ 64"
    "\<And>c. c \<in> set cs \<Longrightarrow> wp_Name c \<noteq> []"
  shows "\<exists>ec'. Execute_balancer lower supports ro cache env n ec rr =
    ((selected_node (GetConfigString n ''strategy'') (wp_Name (cs ! (unat rr mod length cs))), ec'), rr + 1)"
proof -
  note idx = selectRoundRobin_index [OF assms(3,4), of rr]
  have "wp_Name (cs ! (unat rr mod length cs)) \<noteq> []" using assms(5) idx(2) by simp
  moreover have "selectRoundRobin cs rr = (wp_Name (cs ! (unat rr mod length cs)), rr + 1)"
    using idx(1) assms(3) by (simp add: selectRoundRobin_def)
  ultimately show ?thesis
    using assms(1,3) by (auto simp: Execute_balancer_def rotates_def Let_def select_provider_def assms(2) [symmetric])
qed

lemma rotation_runs:
  assumes "rotates (GetConfigString n ''strategy'')" "cs = choice_list env n" "cs \<noteq> []"
    "\<And>c. c \<in> set cs \<Longrightarrow> wp_Name c \<noteq> []" "unat rr + m \<le> 2 ^ 64" "length cs < 2 ^ 64"
  shows "balancer_runs lower supports ro cache env n ec rr m =
    map (\<lambda>j. selected_node (GetConfigString n ''strategy'') (wp_Name (cs ! ((unat rr + j) mod length cs)))) [0 ..< m]"
  using assms(5)
proof (induction m arbitrary: rr)
  case (Suc m)
  obtain ec' where step: "Execute_balancer lower supports ro cache env n ec rr =
      ((selected_node (GetConfigString n ''strategy'') (wp_Name (cs ! (unat rr mod length cs))), ec'), rr + 1)"
    using rotation_step [OF assms(1-3,6,4)] by blast
  show ?case
  proof (cases "m = 0")
    case True
    then show ?thesis by (simp add: step)
  next
    case False
    then have "unat rr + 1 < 2 ^ 64" using Suc.prems by simp
    then have "unat (rr + 1) = unat rr + 1" by (simp add: unat_word_ariths)
    with Suc step show ?thesis by (simp add: map_upt_Suc del: upt_Suc)
  qed
qed simp

lemma residue_once:
  fixes b i n :: nat
  assumes "i < n"
  shows "card {j \<in> {..< n}. (b + j) mod n = i} = 1"
proof -
  have bn: "b mod n < n" using assms by simp
  have "{j \<in> {..< n}. (b + j) mod n = i} = {(i + (n - b mod n)) mod n}"
  proof (intro set_eqI iffI)
    fix j assume "j \<in> {j \<in> {..< n}. (b + j) mod n = i}"
    then have j: "j < n" "(b mod n + j) mod n = i" by (auto simp: mod_add_left_eq)
    have "i + (n - b mod n) = j + n \<or> i + (n - b mod n) = j"
    proof (cases "b mod n + j < n")
      case True
      with j(2) have "b mod n + j = i" by simp
      with bn show ?thesis by arith
    next
      case False
      have "b mod n + j - n < n" using j(1) bn by arith
      then have "(b mod n + j) mod n = b mod n + j - n"
        using le_mod_geq [of n "b mod n + j"] False by (simp only: mod_less not_less)
      with j(2) have "b mod n + j - n = i" by simp
      with bn False show ?thesis by arith
    qed
    with j(1) show "j \<in> {(i + (n - b mod n)) mod n}" by auto
  next
    fix j assume "j \<in> {(i + (n - b mod n)) mod n}"
    then have j: "j = (i + (n - b mod n)) mod n" by simp
    have sum: "b mod n + (i + (n - b mod n)) = i + n" using bn by arith
    have "(b + j) mod n = (b mod n + (i + (n - b mod n))) mod n"
      by (simp add: j mod_simps del: diff_add_assoc add_diff_assoc)
    also have "\<dots> = i" using assms unfolding sum by simp
    finally show "j \<in> {j \<in> {..< n}. (b + j) mod n = i}" using assms j by simp
  qed
  then show ?thesis by simp
qed

lemma residues_even:
  assumes "i < n"
  shows "count_list (map (\<lambda>j. (a + j) mod n) [0 ..< k * n]) i = k"
proof (induction k)
  case (Suc k)
  have count: "count_list (map f [0 ..< m]) i = card {j \<in> {..< m}. f j = i}" for f :: "nat \<Rightarrow> nat" and m
    by (simp add: count_list_eq_length_filter filter_map o_def length_filter_conv_card lessThan_def conj_commute)
      (rule arg_cong [where f = card], auto)
  have "map (\<lambda>j. (a + j) mod n) [0 ..< Suc k * n] =
      map (\<lambda>j. (a + j) mod n) [0 ..< k * n] @ map (\<lambda>j. (a + k * n + j) mod n) [0 ..< n]"
    by (rule nth_equalityI) (auto simp: nth_append add.assoc)
  then show ?case using Suc.IH residue_once [OF assms, of "a + k * n"] by (simp add: count)
qed simp

lemma selected_node_inj [simp]: "selected_node st a = selected_node st b \<longleftrightarrow> a = b"
proof
  assume "selected_node st a = selected_node st b"
  then have "the (result_output (selected_node st a)) ''selected'' = the (result_output (selected_node st b)) ''selected''"
    by simp
  then show "a = b" by (simp add: selected_node_def)
qed simp

lemma count_list_inj: "inj_on f (insert x (set xs)) \<Longrightarrow> count_list (map f xs) (f x) = count_list xs x"
  by (induction xs) (auto simp: inj_on_def)

text \<open>
  Rotation is fair and avoids limited providers. Called again and again with the same candidates, distinct
  and named, and the counter not wrapping, the round robin node selects each candidate exactly \<open>k\<close> times in
  \<open>k\<close> times as many calls as there are candidates; a rate limited provider is a candidate only when all are.
\<close>

theorem balancer_rotation_fair:
  assumes "rotates (GetConfigString n ''strategy'')" "cs = choice_list env n" "cs \<noteq> []"
    and "distinct (map wp_Name cs)" "[] \<notin> wp_Name ` set cs" "unat rr + k * length cs \<le> 2 ^ 64" "length cs < 2 ^ 64"
  shows "\<forall>c \<in> set cs.
      count_list (balancer_runs lower supports ro cache env n ec rr (k * length cs))
        (selected_node (GetConfigString n ''strategy'') (wp_Name c)) = k \<and>
      (IsRateLimited (be_now env) (wp_Name c) (be_monitor env) \<longrightarrow>
         (\<forall>d \<in> set cs. IsRateLimited (be_now env) (wp_Name d) (be_monitor env)))"
proof
  fix c assume c: "c \<in> set cs"
  let ?sel = "\<lambda>i. selected_node (GetConfigString n ''strategy'') (wp_Name (cs ! i))"
  from c obtain i where i: "i < length cs" "c = cs ! i" by (metis in_set_conv_nth)
  have runs: "balancer_runs lower supports ro cache env n ec rr (k * length cs) =
      map ?sel (map (\<lambda>j. (unat rr + j) mod length cs) [0 ..< k * length cs])"
    using assms rotation_runs [OF assms(1-3) _ assms(6,7)] by (force simp: o_def)
  have inj: "inj_on ?sel {..< length cs}"
    using assms(4) by (auto simp: inj_on_def distinct_conv_nth)
  have "inj_on ?sel (insert i (set (map (\<lambda>j. (unat rr + j) mod length cs) [0 ..< k * length cs])))"
    by (rule inj_on_subset [OF inj]) (use assms(3) i(1) in auto)
  from count_list_inj [OF this] residues_even [OF i(1), of "unat rr" k]
  have "count_list (map ?sel (map (\<lambda>j. (unat rr + j) mod length cs) [0 ..< k * length cs])) (?sel i) = k"
    by (simp only:)
  then have "count_list (balancer_runs lower supports ro cache env n ec rr (k * length cs))
      (selected_node (GetConfigString n ''strategy'') (wp_Name c)) = k"
    unfolding runs i(2) .
  moreover have "IsRateLimited (be_now env) (wp_Name c) (be_monitor env) \<longrightarrow>
      (\<forall>d \<in> set cs. IsRateLimited (be_now env) (wp_Name d) (be_monitor env))"
    using choice_list_available [of c env n] c assms(2) by blast
  ultimately show "count_list (balancer_runs lower supports ro cache env n ec rr (k * length cs))
      (selected_node (GetConfigString n ''strategy'') (wp_Name c)) = k \<and>
      (IsRateLimited (be_now env) (wp_Name c) (be_monitor env) \<longrightarrow>
         (\<forall>d \<in> set cs. IsRateLimited (be_now env) (wp_Name d) (be_monitor env)))" by blast
qed

definition demo_balancer_node :: graph_node where
  "demo_balancer_node = \<lparr>node_id = ''lb'', node_type = ''load-balancer'', node_label = [],
     node_config = Some [''strategy'' \<mapsto> GoStr ''round_robin'',
       ''weights'' \<mapsto> GoList [GoMap [(''provider'', GoStr ''openai''), (''weight'', GoFloat 2)],
         GoMap [(''provider'', GoStr ''mistral''), (''weight'', GoFloat 1)]]],
     out_edges = [], in_edges = []\<rparr>"

definition demo_balancer_env :: balancer_env where
  "demo_balancer_env = \<lparr>be_now = 0, be_monitor = NewMonitor, be_names = None, be_float = 0, be_intn = (\<lambda>n. 0),
     be_rnd = (\<lambda>x. x)\<rparr>"

definition demo_balancer_ctx :: exec_context where
  "demo_balancer_ctx = NewExecutionContext"

theorem balancer_rotation_fair_witness:
  "count_list (balancer_runs (\<lambda>s. s) (\<lambda>p m. False) (None :: string router option) None demo_balancer_env
       demo_balancer_node demo_balancer_ctx 5 6) (selected_node ''round_robin'' ''mistral'') = 3"
proof -
  have cfg: "GetConfigString demo_balancer_node ''strategy'' = ''round_robin''" by code_simp
  have cs: "choice_list demo_balancer_env demo_balancer_node =
      [\<lparr>wp_Name = ''openai'', wp_Weight = 2\<rparr>, \<lparr>wp_Name = ''mistral'', wp_Weight = 1\<rparr>]" by code_simp
  have rot: "rotates (GetConfigString demo_balancer_node ''strategy'')" by (simp add: cfg rotates_def)
  show ?thesis
    using balancer_rotation_fair [OF rot refl, of demo_balancer_env 5 3 "\<lambda>s. s" "\<lambda>p m. False"
        "None :: string router option" None demo_balancer_ctx]
    by (simp add: cs cfg)
qed

section \<open>Routing\<close>

text \<open>The model name that the stages after a reference see.\<close>

definition bare_model :: "string \<Rightarrow> string" where
  "bare_model model = (case parseProviderRef model of Some (p, m) \<Rightarrow> m | None \<Rightarrow> model)"

definition named_provider :: "(string \<Rightarrow> string) \<Rightarrow> 'p router \<Rightarrow> string \<Rightarrow> 'p option" where
  "named_provider lower r model =
     (case parseProviderRef model of Some (p, m) \<Rightarrow> lookupProvider lower r p | None \<Rightarrow> None)"

lemma lookupProvider_registered: "lookupProvider lower r name = Some p \<Longrightarrow> p \<in> snd ` set (ro_registry r)"
  by (auto simp: lookupProvider_def Get_provider_def split: option.splits dest!: map_of_SomeD find_mem intro: snd_mem)

lemma Get_provider_mem: "Get_provider reg name = Some p \<Longrightarrow> p \<in> snd ` set reg"
  by (auto simp: Get_provider_def dest!: map_of_SomeD intro: snd_mem)


text \<open>A route to \<open>gpt-4\<close> by the catalog, one by reference, and a model nobody has.\<close>

definition demo_router :: "string router" where
  "demo_router = NewRouter [(''openai'', ''P'')] Map.empty"


text \<open>A cached route is returned though the tenant's registry does not have its provider.\<close>

lemma cache_crosses_registries:
  "fst (ResolveWithContext (\<lambda>s. s) (\<lambda>p m. False) (NewRouter [] Map.empty) ''openai''
     (Some (Warm_cache (\<lambda>s. s) (startup_routes [(''openai'', ''platform'')]) NewRouterCache))) =
   Inr (''platform'', \<lparr>mr_ProviderName = ''openai'', mr_ModelName = ''openai'', mr_IsCustom = False\<rparr>)"
  by code_simp

section \<open>Rate limits\<close>

text \<open>
  The monitor knows of a provider its last report, unless a later report, of anyone, found it older than
  an hour: reports with the instants at which they are handed in, in time order, each stamped no later.
\<close>

definition report :: "int \<times> rate_limit_info \<Rightarrow> monitor \<Rightarrow> monitor" where
  "report x m = fst (Update_limits (fst x) (snd x) m)"

lemma GetStatus_report:
  "GetStatus key (report (now, i) m) =
     (case (if tracking_key i = key then Some i else GetStatus key m) of
        Some j \<Rightarrow> if rl_Timestamp j < now - providerEntryTTL then None else Some j
      | None \<Rightarrow> None)"
  by (auto simp: report_def Update_limits_def GetStatus_def evictStaleProviders_def split: option.splits)

lemma limits_exact:
  assumes "sorted (map fst xs)"
  shows "GetStatus key (fold report xs NewMonitor) =
    (case filter (\<lambda>x. tracking_key (snd x) = key) xs of
       [] \<Rightarrow> None
     | ys \<Rightarrow> if rl_Timestamp (snd (last ys)) < fst (last xs) - providerEntryTTL then None else Some (snd (last ys)))"
  using assms
proof (induction xs rule: rev_induct)
  case Nil
  then show ?case by (simp add: GetStatus_def NewMonitor_def)
next
  case (snoc x xs)
  obtain now i where x: "x = (now, i)" by (cases x)
  have s: "sorted (map fst xs)" and le: "xs \<noteq> [] \<Longrightarrow> fst (last xs) \<le> now"
    using snoc.prems by (auto simp: sorted_append x)
  let ?f = "\<lambda>x. tracking_key (snd x) = key"
  show ?case
  proof (cases "tracking_key i = key")
    case True
    then show ?thesis by (cases "filter ?f xs") (auto simp: x GetStatus_report)
  next
    case False
    show ?thesis
    proof (cases "filter ?f xs")
      case Nil
      with snoc.IH [OF s] False show ?thesis by (simp add: x GetStatus_report)
    next
      case (Cons y ys)
      then have "xs \<noteq> []" by auto
      with snoc.IH [OF s] False Cons le show ?thesis by (auto simp: x GetStatus_report split: if_splits)
    qed
  qed
qed

text \<open>
  A provider whose answers carry no rate limit headers counts as limited, and stays so as time passes:
  zero is below the thresholds, and nothing but another report evicts.
\<close>

lemma headerless_is_limited:
  assumes "\<And>k. hdr k = []"
  shows "IsRateLimited later provider (report (now, ParseHeaders lib now hdr provider model) NewMonitor)"
proof -
  have "TrimSpace [] = []" by code_simp
  then have no_int: "firstInt hdr ks = None" for ks
    by (induction ks) (simp_all add: assms Let_def)
  show ?thesis
    by (simp add: IsRateLimited_def GetStatus_report ParseHeaders_def bare_info_def tracking_key_def no_int Let_def
        providerEntryTTL_def)
qed

section \<open>Request defaults\<close>

text \<open>The value the two tiers of a configuration give a control, the model's before the provider's.\<close>

definition tier :: "(string \<Rightarrow> 'a option) \<Rightarrow> (string \<rightharpoonup> string) \<Rightarrow> (string \<rightharpoonup> string) \<Rightarrow> (string \<Rightarrow> bool) \<Rightarrow> string \<Rightarrow> 'a option" where
  "tier parse mv pv supports key = or_else (read_control parse mv key) (keep_if (supports key) (read_control parse pv key))"

definition tier_text :: "(string \<rightharpoonup> string) \<Rightarrow> (string \<rightharpoonup> string) \<Rightarrow> (string \<Rightarrow> bool) \<Rightarrow> string \<Rightarrow> string" where
  "tier_text mv pv supports key =
     (if read_text mv key \<noteq> [] then read_text mv key else if supports key then read_text pv key else [])"

text \<open>
  The tiers of defaults compose. Whatever the order in which the settings and the translated values are
  ranged over, a request control that is set stays as it is; an unset one gets the model's value, or else the
  provider's if the model accepts the control, or stays unset; a request with any reasoning control takes no
  reasoning default.
\<close>

theorem defaults_compose:
  assumes provider: "parseProviderRequestDefaults pf order settings = Inr p" "distinct (map fst settings)" "enumerates order"
    and model: "parseOneModelRequestDefaults pf values = Inr m" "distinct (map fst values)"
    and views: "mv = map_of values" "pv = provider_view (map_of settings)"
  shows "fst (applySampling (overlay m (restrictedTo supports p)) s) = s
     \<lparr>sp_MaxTokens := number_or (sp_MaxTokens s \<noteq> 0 \<or> sp_MaxCompletionTokens s \<noteq> 0) (sp_MaxTokens s)
        (tier atoi mv pv supports ''max_output_tokens''),
      sp_Temperature := number_or (sp_TemperatureConfigured s \<or> sp_Temperature s \<noteq> 0) (sp_Temperature s)
        (tier pf mv pv supports ''temperature''),
      sp_TemperatureConfigured := sp_TemperatureConfigured s \<or>
        (sp_Temperature s = 0 \<and> tier pf mv pv supports ''temperature'' \<noteq> None),
      sp_TopP := number_or (sp_TopPConfigured s \<or> sp_TopP s \<noteq> 0) (sp_TopP s) (tier pf mv pv supports ''top_p''),
      sp_TopPConfigured := sp_TopPConfigured s \<or> (sp_TopP s = 0 \<and> tier pf mv pv supports ''top_p'' \<noteq> None),
      sp_FrequencyPenalty := number_or (sp_FrequencyConfigured s \<or> sp_FrequencyPenalty s \<noteq> 0) (sp_FrequencyPenalty s)
        (tier pf mv pv supports ''frequency_penalty''),
      sp_FrequencyConfigured := sp_FrequencyConfigured s \<or>
        (sp_FrequencyPenalty s = 0 \<and> tier pf mv pv supports ''frequency_penalty'' \<noteq> None),
      sp_PresencePenalty := number_or (sp_PresenceConfigured s \<or> sp_PresencePenalty s \<noteq> 0) (sp_PresencePenalty s)
        (tier pf mv pv supports ''presence_penalty''),
      sp_PresenceConfigured := sp_PresenceConfigured s \<or>
        (sp_PresencePenalty s = 0 \<and> tier pf mv pv supports ''presence_penalty'' \<noteq> None),
      sp_TopK := or_else (sp_TopK s) (tier atoi mv pv supports ''top_k''),
      sp_Seed := or_else (sp_Seed s) (tier atoi mv pv supports ''seed''),
      sp_Verbosity := (if sp_Verbosity s \<noteq> [] then sp_Verbosity s else tier_text mv pv supports ''verbosity''),
      sp_ReasoningEffort := (if request_has_reasoning s then sp_ReasoningEffort s
        else tier_text mv pv supports ''reasoning_effort''),
      sp_ReasoningBudget := (if request_has_reasoning s then sp_ReasoningBudget s
        else tier atoi mv pv supports ''reasoning_budget_tokens''),
      sp_ReasoningEnabled := (if request_has_reasoning s then sp_ReasoningEnabled s
        else tier parse_bool mv pv supports ''reasoning_enabled'')\<rparr>"
proof -
  have p: "p = defaults_of pf pv" using parseProvider_exact [OF provider(2,3)] provider(1) views(2) by blast
  have m: "m = defaults_of pf mv" using parseOne_exact(2) [OF model(2,1)] views(1) by simp
  show ?thesis
    unfolding applySampling_values p m
    by (simp add: overlay_def restrictedTo_def defaults_of_def tier_def tier_text_def)
qed

text \<open>
  The provider caps the output at 100 tokens and sets a temperature, the model another temperature; the
  request asks for effort only, which keeps the model's budget out.
\<close>

definition demo_float :: "string \<Rightarrow> rat option" where
  "demo_float s = map_option rat_of_int (atoi s)"

definition demo_parameters :: "string list" where
  "demo_parameters = [''temperature'', ''max_output_tokens'', ''top_p'', ''top_k'', ''frequency_penalty'',
     ''presence_penalty'', ''seed'', ''verbosity'', ''reasoning_effort'', ''reasoning_budget_tokens'',
     ''reasoning_enabled'']"

definition demo_settings :: "(string \<times> string) list" where
  "demo_settings = [(''region'', ''eu''), (''max_tokens'', ''100''), (''temperature'', ''1'')]"

definition demo_values :: "(string \<times> string) list" where
  "demo_values = [(''reasoning_budget_tokens'', ''64''), (''temperature'', '' 0 '')]"

definition demo_request :: sampling_params where
  "demo_request = \<lparr>sp_Temperature = 0, sp_TemperatureConfigured = False, sp_TopP = 1, sp_TopPConfigured = False,
     sp_MaxTokens = 0, sp_MaxCompletionTokens = 0, sp_Stop = [], sp_FrequencyPenalty = 0,
     sp_FrequencyConfigured = False, sp_PresencePenalty = 0, sp_PresenceConfigured = False,
     sp_ReasoningEffort = ''low'', sp_ReasoningBudget = None, sp_ReasoningEnabled = None, sp_TopK = None,
     sp_Seed = None, sp_Verbosity = []\<rparr>"

theorem defaults_compose_witness:
  "\<exists>p m. parseProviderRequestDefaults demo_float (in_order demo_parameters) demo_settings = Inr p \<and>
     parseOneModelRequestDefaults demo_float demo_values = Inr m \<and>
     fst (applySampling (overlay m (restrictedTo (\<lambda>k. True) p)) demo_request) =
       demo_request\<lparr>sp_MaxTokens := 100, sp_TemperatureConfigured := True\<rparr>"
proof -
  let ?parse = "parseProviderRequestDefaults demo_float (in_order demo_parameters) demo_settings"
  obtain p where p: "?parse = Inr p"
    by (cases ?parse) (simp_all, code_simp)
  obtain m where m: "parseOneModelRequestDefaults demo_float demo_values = Inr m"
    by (cases "parseOneModelRequestDefaults demo_float demo_values") (simp_all, code_simp)
  have dist: "distinct (map fst demo_settings)" "distinct (map fst demo_values)" "distinct demo_parameters"
    by code_simp+
  have enum: "enumerates (in_order demo_parameters)"
    by (rule in_order_enumerates [OF dist(3)]) (auto simp: own_parameter_def demo_parameters_def)
  note composed = defaults_compose [OF p dist(1) enum m dist(2) refl refl, of "\<lambda>k. True" demo_request]
  have "fst (applySampling (overlay m (restrictedTo (\<lambda>k. True) p)) demo_request) =
      demo_request\<lparr>sp_MaxTokens := 100, sp_TemperatureConfigured := True\<rparr>"
    unfolding composed by code_simp
  with p m show ?thesis by blast
qed

end
