(* ===== verification/GatewayTenants.thy ===== *)
theory GatewayTenants
  imports GatewayRouter GatewayDefaults "HOL-Library.AList"
begin

text \<open>
  The gateway's providers per tenant (\<open>internal/api/grpc/gateway/v1/tenant_providers.go\<close>,
  \<open>bootstrap_from_config.go\<close>, and \<open>EnsureProvidersForRequest\<close> in \<open>server.go\<close>): a bundle of registry,
  router and request defaults, built from the tenant's rows, cached for fifteen seconds under the
  tenant's key, replaced when a failing API key is rotated. Instants are nanoseconds, the current one an
  argument; the database is an argument of each operation that reads it.
\<close>

section \<open>Requests and bundles\<close>

record gateway_ctx =
  gx_schema :: string
  gx_tenant :: string
  gx_sticky :: string
  gx_correlation :: string

definition tenantKeyFromContext :: "gateway_ctx \<Rightarrow> string" where
  "tenantKeyFromContext c =
     (if gx_schema c \<noteq> [] then gx_schema c else if gx_tenant c \<noteq> [] then gx_tenant c else [])"

definition hashKeyFromContext :: "gateway_ctx \<Rightarrow> string" where
  "hashKeyFromContext c = (if gx_sticky c \<noteq> [] then gx_sticky c else gx_correlation c)"

record 'p tenant_bundle =
  tb_reg :: "'p registry"
  tb_router :: "'p router"
  tb_providerDefaults :: "string \<rightharpoonup> modelRequestDefaults"
  tb_modelDefaults :: "string \<rightharpoonup> modelRequestDefaults"
  tb_loadedAt :: int

section \<open>Building a bundle\<close>

text \<open>The rows: every configuration, and the keys of a configuration; \<open>None\<close> is a database error.\<close>

record provider_db =
  db_configs :: "provider_configuration list option"
  db_keys :: "string \<Rightarrow> provider_api_key list option"

definition ListForOrg :: "string \<Rightarrow> provider_db \<Rightarrow> provider_configuration list option" where
  "ListForOrg org db =
     (if org = [] then None else map_option (filter (\<lambda>c. pc_OrganizationID c = Some org)) (db_configs db))"

definition listProviderConfigs :: "gateway_ctx \<Rightarrow> provider_db \<Rightarrow> provider_configuration list option" where
  "listProviderConfigs c db = (if gx_tenant c \<noteq> [] then ListForOrg (gx_tenant c) db else db_configs db)"

record aggregated_input =
  ai_Provider :: string
  ai_APIKey :: string
  ai_APIKeys :: "provider_api_key list"
  ai_BaseURL :: string
  ai_Models :: "string list"
  ai_StickyKey :: string

text \<open>
  The server's fixed surroundings: the mode, the catalog's whitelist, the factories of the providers
  (\<open>None\<close> when one fails), a provider's name and models, the parsers, and the orders in which maps are
  ranged over.
\<close>

record 'p boot_env =
  bo_lower :: "string \<Rightarrow> string"
  bo_equal_fold :: "string \<Rightarrow> string \<Rightarrow> bool"
  bo_shared :: bool
  bo_allowed :: "(string \<rightharpoonup> string list) option"
  bo_factory :: "string \<Rightarrow> (aggregated_input \<Rightarrow> 'p option) option"
  bo_name :: "'p \<Rightarrow> string"
  bo_supports :: "'p \<Rightarrow> string \<Rightarrow> bool"
  bo_parse_float :: "string \<Rightarrow> rat option"
  bo_unmarshal :: "string \<Rightarrow> (string \<times> (string \<times> string) list) list option"
  bo_order :: "(string \<rightharpoonup> string) \<Rightarrow> (string \<times> string) list"
  bo_shuffle :: "(string \<times> aggregated_input) list \<Rightarrow> (string \<times> aggregated_input) list"

record boot_state =
  bs_modelMap :: "string \<rightharpoonup> string"
  bs_modelRoutes :: "string \<rightharpoonup> model_route"
  bs_aggregated :: "(string \<times> aggregated_input) list"
  bs_providerDefaults :: "string \<rightharpoonup> modelRequestDefaults"
  bs_modelDefaults :: "string \<rightharpoonup> modelRequestDefaults"

definition boot_start :: boot_state where
  "boot_start = \<lparr>bs_modelMap = Map.empty, bs_modelRoutes = Map.empty, bs_aggregated = [],
     bs_providerDefaults = Map.empty, bs_modelDefaults = Map.empty\<rparr>"

definition filtered_models :: "'p boot_env \<Rightarrow> provider_configuration \<Rightarrow> string list" where
  "filtered_models env c =
     filter (\<lambda>m. bo_shared env \<or>
       (case bo_allowed env of
          None \<Rightarrow> True
        | Some allowed \<Rightarrow>
            (case allowed (bo_lower env (pc_ProviderName c)) of
               Some ms \<Rightarrow> bo_lower env m \<in> set ms | None \<Rightarrow> False)))
       (pc_EnabledModels c)"

definition add_routes :: "'p boot_env \<Rightarrow> string \<Rightarrow> string list \<Rightarrow> boot_state \<Rightarrow> boot_state" where
  "add_routes env provider ms st =
     fold (\<lambda>m st. st\<lparr>bs_modelMap := (bs_modelMap st)(bo_lower env m \<mapsto> provider),
                     bs_modelRoutes := (bs_modelRoutes st)(bo_lower env m \<mapsto>
                       \<lparr>mr_ProviderName = provider, mr_ModelName = m, mr_IsCustom = False\<rparr>)\<rparr>) ms st"

definition existing_input :: "string \<Rightarrow> boot_state \<Rightarrow> aggregated_input" where
  "existing_input provider st =
     (case map_of (bs_aggregated st) provider of
        Some a \<Rightarrow> a
      | None \<Rightarrow> \<lparr>ai_Provider = provider, ai_APIKey = [], ai_APIKeys = [], ai_BaseURL = [], ai_Models = [],
                 ai_StickyKey = []\<rparr>)"

definition put_input :: "string \<Rightarrow> aggregated_input \<Rightarrow> boot_state \<Rightarrow> boot_state" where
  "put_input provider a st = st\<lparr>bs_aggregated := AList.update provider a (bs_aggregated st)\<rparr>"

definition add_defaults :: "'p boot_env \<Rightarrow> string \<Rightarrow> (string \<times> string) list \<Rightarrow> boot_state \<Rightarrow> boot_state" where
  "add_defaults env provider settings st =
     (if settings = [] then st
      else
        let st = (case parseProviderRequestDefaults (bo_parse_float env) (bo_order env) settings of
                    Inl e \<Rightarrow> st
                  | Inr d \<Rightarrow>
                      if d \<noteq> no_defaults
                      then st\<lparr>bs_providerDefaults := (bs_providerDefaults st)(provider \<mapsto> d)\<rparr>
                      else st)
        in case map_of settings ''model_parameters'' of
          None \<Rightarrow> st
        | Some raw \<Rightarrow>
            (case parseModelRequestDefaults (bo_lower env) (bo_parse_float env) (bo_unmarshal env) provider raw of
               Inl e \<Rightarrow> st
             | Inr parsed \<Rightarrow> st\<lparr>bs_modelDefaults := bs_modelDefaults st ++ parsed\<rparr>))"

text \<open>The turn of the loop over the configurations.\<close>

definition boot_step :: "'p boot_env \<Rightarrow> provider_db \<Rightarrow> provider_configuration \<Rightarrow> boot_state \<Rightarrow> boot_state" where
  "boot_step env db c st =
     (if \<not> pc_IsActive c \<or> pc_EnabledModels c = [] \<or> filtered_models env c = [] then st
      else
        let provider = bo_lower env (pc_ProviderName c); ms = filtered_models env c;
            st = add_routes env provider ms st;
            agg = existing_input provider st;
            agg = (case pc_CustomBaseURL c of
                     Some url \<Rightarrow> if url \<noteq> [] then agg\<lparr>ai_BaseURL := url\<rparr> else agg
                   | None \<Rightarrow> agg);
            agg = agg\<lparr>ai_Models := ai_Models agg @ ms\<rparr>;
            st = add_defaults env provider (pc_CustomSettings c) st
        in case db_keys db (pc_ID c) of
             None \<Rightarrow> put_input provider agg st
           | Some keys \<Rightarrow>
               let agg = (if keys \<noteq> [] then agg\<lparr>ai_APIKeys := filter pk_IsActive keys\<rparr> else agg);
                   agg = (if ai_APIKeys agg = [] \<and> pc_APIKeyEncrypted c \<noteq> []
                          then agg\<lparr>ai_APIKey := pc_APIKeyEncrypted c\<rparr> else agg)
               in if ai_APIKeys agg = [] \<and> ai_APIKey agg = []
                  then st\<lparr>bs_aggregated := AList.delete provider (bs_aggregated st)\<rparr>
                  else put_input provider agg st)"

definition build_registry :: "'p boot_env \<Rightarrow> string \<Rightarrow> (string \<times> aggregated_input) list \<Rightarrow> 'p registry" where
  "build_registry env sticky aggregated =
     fold (\<lambda>(prov, inp) reg.
        case bo_factory env prov of
          None \<Rightarrow> reg
        | Some f \<Rightarrow> (case f (inp\<lparr>ai_StickyKey := sticky\<rparr>) of
                     None \<Rightarrow> reg | Some p \<Rightarrow> Register_provider (bo_name env) p reg))
       aggregated NewRegistry"

definition bootstrapFromDatabase ::
    "'p boot_env \<Rightarrow> provider_db \<Rightarrow> gateway_ctx \<Rightarrow> 'p tenant_bundle option" where
  "bootstrapFromDatabase env db c =
     (case listProviderConfigs c db of
        None \<Rightarrow> None
      | Some configs \<Rightarrow>
          let st = fold (boot_step env db) configs boot_start;
              reg = build_registry env (hashKeyFromContext c) (bo_shuffle env (bs_aggregated st))
          in Some \<lparr>tb_reg = reg, tb_router = SetModelRoutes (bs_modelRoutes st) (NewRouter reg (bs_modelMap st)),
                   tb_providerDefaults = bs_providerDefaults st, tb_modelDefaults = bs_modelDefaults st,
                   tb_loadedAt = zero_time\<rparr>)"

section \<open>The cache of bundles\<close>

text \<open>\<open>zero_time\<close> is the instant no store has stamped.\<close>

record 'p gateway_server =
  gs_default :: "'p tenant_bundle option"
  gs_bundles :: "string \<rightharpoonup> 'p tenant_bundle"
  gs_failedKeys :: "string set"

definition providerRefreshStaleness :: int where
  "providerRefreshStaleness = 15 * 1000000000"

definition bundle_get :: "int \<Rightarrow> string \<Rightarrow> int \<Rightarrow> 'p gateway_server \<Rightarrow> 'p tenant_bundle option" where
  "bundle_get now key ttl s =
     (case gs_bundles s key of
        None \<Rightarrow> None
      | Some b \<Rightarrow>
          if ttl > 0 \<and> tb_loadedAt b \<noteq> zero_time \<and> time_sub now (tb_loadedAt b) > ttl then None else Some b)"

definition bundle_store :: "int \<Rightarrow> string \<Rightarrow> 'p tenant_bundle \<Rightarrow> 'p gateway_server \<Rightarrow> 'p gateway_server" where
  "bundle_store now key b s = s\<lparr>gs_bundles := (gs_bundles s)(key \<mapsto> b\<lparr>tb_loadedAt := now\<rparr>)\<rparr>"

definition providersFor :: "'p boot_env \<Rightarrow> int \<Rightarrow> gateway_ctx \<Rightarrow> 'p gateway_server \<Rightarrow> 'p tenant_bundle option" where
  "providersFor env now c s =
     (if \<not> bo_shared env then gs_default s
      else if tenantKeyFromContext c = [] then None
      else bundle_get now (tenantKeyFromContext c) providerRefreshStaleness s)"

definition regFor :: "'p boot_env \<Rightarrow> int \<Rightarrow> gateway_ctx \<Rightarrow> 'p gateway_server \<Rightarrow> 'p registry option" where
  "regFor env now c s = map_option tb_reg (providersFor env now c s)"

definition routerFor :: "'p boot_env \<Rightarrow> int \<Rightarrow> gateway_ctx \<Rightarrow> 'p gateway_server \<Rightarrow> 'p router option" where
  "routerFor env now c s = map_option tb_router (providersFor env now c s)"

text \<open>The stamp of \<open>store\<close> is written through the pointer that the default bundle then shares.\<close>

definition installBundle ::
    "'p boot_env \<Rightarrow> int \<Rightarrow> string \<Rightarrow> 'p tenant_bundle \<Rightarrow> 'p gateway_server \<Rightarrow> 'p gateway_server" where
  "installBundle env now key b s =
     (if key = [] then s\<lparr>gs_default := Some b\<rparr>
      else
        let s = bundle_store now key b s
        in if \<not> bo_shared env then s\<lparr>gs_default := Some (b\<lparr>tb_loadedAt := now\<rparr>)\<rparr> else s)"

definition invalidateBundle :: "string \<Rightarrow> 'p gateway_server \<Rightarrow> 'p gateway_server" where
  "invalidateBundle key s =
     (if key = [] then s\<lparr>gs_default := None\<rparr> else s\<lparr>gs_bundles := (gs_bundles s)(key := None)\<rparr>)"

definition dropAllBundles :: "'p gateway_server \<Rightarrow> 'p gateway_server" where
  "dropAllBundles s = s\<lparr>gs_bundles := Map.empty, gs_default := None\<rparr>"

text \<open>\<open>None\<close> in the first component is the error of the bootstrap.\<close>

definition EnsureProvidersForRequest ::
    "'p boot_env \<Rightarrow> int \<Rightarrow> provider_db \<Rightarrow> gateway_ctx \<Rightarrow> 'p gateway_server \<Rightarrow> bool \<times> 'p gateway_server" where
  "EnsureProvidersForRequest env now db c s =
     (let key = tenantKeyFromContext c in
      if \<not> bo_shared env \<or> key = [] then (True, s)
      else if bundle_get now key providerRefreshStaleness s \<noteq> None then (True, s)
      else case bootstrapFromDatabase env db c of
        None \<Rightarrow> (False, s)
      | Some b \<Rightarrow> (True, bundle_store now key b s))"

definition RefreshProviders ::
    "'p boot_env \<Rightarrow> int \<Rightarrow> provider_db \<Rightarrow> gateway_ctx \<Rightarrow> 'p gateway_server \<Rightarrow> bool \<times> 'p gateway_server" where
  "RefreshProviders env now db c s =
     (case bootstrapFromDatabase env db c of
        None \<Rightarrow> (False, s)
      | Some b \<Rightarrow> (True, installBundle env now (tenantKeyFromContext c) b s))"

text \<open>At most two rounds; \<open>now\<close> and \<open>later\<close> are the instants of the load and of the read of a round.\<close>

fun bundle_rounds ::
    "'p boot_env \<Rightarrow> (int \<times> int) list \<Rightarrow> provider_db \<Rightarrow> gateway_ctx \<Rightarrow> 'p gateway_server \<Rightarrow>
       ('p registry \<times> 'p router) option \<times> 'p gateway_server" where
  "bundle_rounds env [] db c s = (None, s)"
| "bundle_rounds env ((now, later) # rounds) db c s =
     (case EnsureProvidersForRequest env now db c s of
        (False, s') \<Rightarrow> (None, s')
      | (True, s') \<Rightarrow>
          (case providersFor env later c s' of
             Some b \<Rightarrow> (Some (tb_reg b, tb_router b), s')
           | None \<Rightarrow> bundle_rounds env rounds db c s'))"

definition ProviderBundleForRequest ::
    "'p boot_env \<Rightarrow> int \<times> int \<Rightarrow> int \<times> int \<Rightarrow> provider_db \<Rightarrow> gateway_ctx \<Rightarrow> 'p gateway_server \<Rightarrow>
       ('p registry \<times> 'p router) option \<times> 'p gateway_server" where
  "ProviderBundleForRequest env t1 t2 db c s = bundle_rounds env [t1, t2] db c s"

section \<open>Request defaults of a model\<close>

definition providerDefaultsFor ::
    "'p boot_env \<Rightarrow> int \<Rightarrow> gateway_ctx \<Rightarrow> 'p gateway_server \<Rightarrow> string \<Rightarrow> modelRequestDefaults option" where
  "providerDefaultsFor env now c s provider =
     (case providersFor env now c s of None \<Rightarrow> None | Some b \<Rightarrow> tb_providerDefaults b provider)"

definition modelDefaultsFor ::
    "'p boot_env \<Rightarrow> int \<Rightarrow> gateway_ctx \<Rightarrow> 'p gateway_server \<Rightarrow> string \<Rightarrow> string \<Rightarrow> modelRequestDefaults option" where
  "modelDefaultsFor env now c s provider model =
     (case providersFor env now c s of
        None \<Rightarrow> None
      | Some b \<Rightarrow> tb_modelDefaults b (modelDefaultsKey (bo_lower env) provider model))"

text \<open>
  \<open>parameters\<close> is the catalog: the controls a model declares, \<open>None\<close> when it does not describe the model.
\<close>

definition modelParameterSupport :: "(string \<Rightarrow> string \<Rightarrow> string list option) \<Rightarrow> string \<Rightarrow> string \<Rightarrow> string \<Rightarrow> bool" where
  "modelParameterSupport parameters provider model key =
     (case parameters provider model of None \<Rightarrow> True | Some ps \<Rightarrow> if ps = [] then True else key \<in> set ps)"

text \<open>The branch of \<open>requestDefaultsForModel\<close> over the tenant's bundle; \<open>None\<close> falls through to the static file.\<close>

definition bundleDefaultsForModel ::
    "'p boot_env \<Rightarrow> (string \<Rightarrow> string \<Rightarrow> string list option) \<Rightarrow> int \<Rightarrow> gateway_ctx \<Rightarrow> 'p router_cache option \<Rightarrow>
       'p gateway_server \<Rightarrow> string \<Rightarrow> modelRequestDefaults option" where
  "bundleDefaultsForModel env parameters now c cache s model =
     (case routerFor env now c s of
        None \<Rightarrow> None
      | Some r \<Rightarrow>
          (case fst (ResolveWithContext (bo_lower env) (bo_supports env) r model cache) of
             Inl e \<Rightarrow> None
           | Inr (p, route) \<Rightarrow>
               let pd = providerDefaultsFor env now c s (mr_ProviderName route);
                   md = modelDefaultsFor env now c s (mr_ProviderName route) (mr_ModelName route)
               in if pd = None \<and> md = None then None
                  else Some (overlay (case md of Some d \<Rightarrow> d | None \<Rightarrow> no_defaults)
                         (restrictedTo
                           (modelParameterSupport parameters (mr_ProviderName route) (mr_ModelName route))
                           (case pd of Some d \<Rightarrow> d | None \<Rightarrow> no_defaults)))))"

section \<open>Rotation of a failing key\<close>

definition markFailedKey :: "string \<Rightarrow> 'p gateway_server \<Rightarrow> 'p gateway_server" where
  "markFailedKey k s = s\<lparr>gs_failedKeys := insert k (gs_failedKeys s)\<rparr>"

definition clearFailedKey :: "string \<Rightarrow> 'p gateway_server \<Rightarrow> 'p gateway_server" where
  "clearFailedKey k s = s\<lparr>gs_failedKeys := gs_failedKeys s - {k}\<rparr>"

definition isKeyFailed :: "string \<Rightarrow> 'p gateway_server \<Rightarrow> bool" where
  "isKeyFailed k s \<longleftrightarrow> k \<in> gs_failedKeys s"

definition rotation_keys :: "provider_api_key list \<Rightarrow> 'p gateway_server \<Rightarrow> provider_api_key list" where
  "rotation_keys keys s = filter (\<lambda>k. pk_IsActive k \<and> \<not> isKeyFailed (pk_ID k) s) keys"

text \<open>The bundle after a rotation: the other providers, the new one, and a new router.\<close>

definition rotated_bundle ::
    "'p boot_env \<Rightarrow> provider_configuration \<Rightarrow> 'p \<Rightarrow> 'p tenant_bundle option \<Rightarrow> 'p tenant_bundle" where
  "rotated_bundle env cfg newp current =
     (let kept = (case current of
                    None \<Rightarrow> []
                  | Some b \<Rightarrow> filter (\<lambda>(name, p). \<not> bo_equal_fold env name (pc_ProviderName cfg)) (tb_reg b));
          reg = Register_provider (bo_name env) newp
                  (fold (\<lambda>(name, p). Register_provider (bo_name env) p) kept NewRegistry);
          modelMap = fold (\<lambda>m mm. mm(bo_lower env m \<mapsto> pc_ProviderName cfg)) (pc_EnabledModels cfg) Map.empty
      in \<lparr>tb_reg = reg, tb_router = NewRouter reg modelMap,
          tb_providerDefaults = (case current of None \<Rightarrow> Map.empty | Some b \<Rightarrow> tb_providerDefaults b),
          tb_modelDefaults = (case current of None \<Rightarrow> Map.empty | Some b \<Rightarrow> tb_modelDefaults b),
          tb_loadedAt = zero_time\<rparr>)"

definition rotation_input ::
    "provider_configuration \<Rightarrow> provider_api_key list \<Rightarrow> gateway_ctx \<Rightarrow> aggregated_input" where
  "rotation_input cfg keys c =
     \<lparr>ai_Provider = pc_ProviderName cfg, ai_APIKey = [], ai_APIKeys = keys,
      ai_BaseURL = (case pc_CustomBaseURL cfg of Some url \<Rightarrow> url | None \<Rightarrow> []),
      ai_Models = pc_EnabledModels cfg, ai_StickyKey = hashKeyFromContext c\<rparr>"

text \<open>Whether a rotation took place, and the key id it answers.\<close>

definition attemptKeyRotation ::
    "'p boot_env \<Rightarrow> int \<Rightarrow> provider_db \<Rightarrow> gateway_ctx \<Rightarrow> 'p router_cache option \<Rightarrow> string \<Rightarrow> 'p gateway_server \<Rightarrow>
       string option \<times> 'p gateway_server" where
  "attemptKeyRotation env now db c cache model s =
     (case routerFor env now c s of
        None \<Rightarrow> (None, s)
      | Some r \<Rightarrow>
          (case fst (ResolveWithContext (bo_lower env) (bo_supports env) r model cache) of
             Inl e \<Rightarrow> (None, s)
           | Inr (p, route) \<Rightarrow>
               (case listProviderConfigs c db of
                  None \<Rightarrow> (None, s)
                | Some configs \<Rightarrow>
                    (case find (\<lambda>cfg. bo_equal_fold env (pc_ProviderName cfg) (mr_ProviderName route)) configs of
                       None \<Rightarrow> (None, s)
                     | Some cfg \<Rightarrow>
                         (case db_keys db (pc_ID cfg) of
                            None \<Rightarrow> (None, s)
                          | Some all_keys \<Rightarrow>
                              (case rotation_keys all_keys s of
                                 [] \<Rightarrow> (None, s)
                               | k # ks \<Rightarrow>
                                   (case bo_factory env (pc_ProviderName cfg) of
                                      None \<Rightarrow> (None, s)
                                    | Some f \<Rightarrow>
                                        (case f (rotation_input cfg (k # ks) c) of
                                           None \<Rightarrow> (None, s)
                                         | Some newp \<Rightarrow>
                                             (Some (pk_ID k),
                                              installBundle env now (tenantKeyFromContext c)
                                                (rotated_bundle env cfg newp (providersFor env now c s)) s)))))))))"

end
