(* ===== verification/GatewayIsolation.thy ===== *)
theory GatewayIsolation
  imports GatewayTenants
begin

text \<open>
  Whose keys a request can reach in shared mode. The gateway runs through loads, refreshes, key
  rotations and invalidations for the requests of many tenants, in any order and over a changing database;
  every provider of the bundle a request is served from was built from the keys of the request's tenant.
\<close>

section \<open>Provenance\<close>

text \<open>\<open>owns secret org\<close>: the organization has stored the secret.\<close>

definition input_of :: "(string \<Rightarrow> string \<Rightarrow> bool) \<Rightarrow> string \<Rightarrow> aggregated_input \<Rightarrow> bool" where
  "input_of owns org inp \<longleftrightarrow>
     (\<forall>k \<in> set (ai_APIKeys inp). owns (pk_KeyEncrypted k) org) \<and> (ai_APIKey inp \<noteq> [] \<longrightarrow> owns (ai_APIKey inp) org)"

definition made_for :: "'p boot_env \<Rightarrow> (string \<Rightarrow> string \<Rightarrow> bool) \<Rightarrow> string \<Rightarrow> 'p \<Rightarrow> bool" where
  "made_for env owns org p \<longleftrightarrow>
     (\<exists>name f inp. bo_factory env name = Some f \<and> f inp = Some p \<and> input_of owns org inp)"

text \<open>A database whose rows belong to whom they say.\<close>

definition db_owned :: "(string \<Rightarrow> string \<Rightarrow> bool) \<Rightarrow> provider_db \<Rightarrow> bool" where
  "db_owned owns db \<longleftrightarrow>
     (\<forall>cs. db_configs db = Some cs \<longrightarrow>
       (\<forall>c \<in> set cs. \<forall>org. pc_OrganizationID c = Some org \<longrightarrow>
          (pc_APIKeyEncrypted c \<noteq> [] \<longrightarrow> owns (pc_APIKeyEncrypted c) org) \<and>
          (\<forall>ks. db_keys db (pc_ID c) = Some ks \<longrightarrow> (\<forall>k \<in> set ks. owns (pk_KeyEncrypted k) org))))"

section \<open>Runs of the gateway\<close>

text \<open>The operations that change the server, for requests of \<open>C\<close> over databases that keep ownership.\<close>

inductive gateway_run ::
    "'p boot_env \<Rightarrow> (string \<Rightarrow> string \<Rightarrow> bool) \<Rightarrow> gateway_ctx set \<Rightarrow> 'p gateway_server \<Rightarrow> bool"
  for env :: "'p boot_env" and owns :: "string \<Rightarrow> string \<Rightarrow> bool" and C :: "gateway_ctx set" where
  boot: "gs_bundles s = Map.empty \<Longrightarrow> gateway_run env owns C s"
| ensure: "gateway_run env owns C s \<Longrightarrow> db_owned owns db \<Longrightarrow> c \<in> C \<Longrightarrow>
    gateway_run env owns C (snd (EnsureProvidersForRequest env now db c s))"
| refresh: "gateway_run env owns C s \<Longrightarrow> db_owned owns db \<Longrightarrow> c \<in> C \<Longrightarrow>
    gateway_run env owns C (snd (RefreshProviders env now db c s))"
| request: "gateway_run env owns C s \<Longrightarrow> db_owned owns db \<Longrightarrow> c \<in> C \<Longrightarrow>
    gateway_run env owns C (snd (ProviderBundleForRequest env t1 t2 db c s))"
| rotate: "gateway_run env owns C s \<Longrightarrow> db_owned owns db \<Longrightarrow> c \<in> C \<Longrightarrow>
    gateway_run env owns C (snd (attemptKeyRotation env now db c cache model s))"
| mark: "gateway_run env owns C s \<Longrightarrow> gateway_run env owns C (markFailedKey k s)"
| clear: "gateway_run env owns C s \<Longrightarrow> gateway_run env owns C (clearFailedKey k s)"
| invalidate: "gateway_run env owns C s \<Longrightarrow> gateway_run env owns C (invalidateBundle key s)"
| drop_all: "gateway_run env owns C s \<Longrightarrow> gateway_run env owns C (dropAllBundles s)"

definition bundle_of :: "'p boot_env \<Rightarrow> (string \<Rightarrow> string \<Rightarrow> bool) \<Rightarrow> string \<Rightarrow> 'p tenant_bundle \<Rightarrow> bool" where
  "bundle_of env owns org b \<longleftrightarrow>
     (\<forall>x \<in> set (tb_reg b). made_for env owns org (snd x)) \<and> ro_registry (tb_router b) = tb_reg b"

definition bundles_separate ::
    "'p boot_env \<Rightarrow> (string \<Rightarrow> string \<Rightarrow> bool) \<Rightarrow> gateway_ctx set \<Rightarrow> 'p gateway_server \<Rightarrow> bool" where
  "bundles_separate env owns C s \<longleftrightarrow>
     (\<forall>c \<in> C. \<forall>b. gs_bundles s (tenantKeyFromContext c) = Some b \<longrightarrow> bundle_of env owns (gx_tenant c) b)"

text \<open>The requests' identities: a tenant id each, and one tenant per cache key.\<close>

definition well_scoped :: "gateway_ctx set \<Rightarrow> bool" where
  "well_scoped C \<longleftrightarrow>
     (\<forall>c \<in> C. gx_tenant c \<noteq> []) \<and>
     (\<forall>c \<in> C. \<forall>d \<in> C. tenantKeyFromContext c = tenantKeyFromContext d \<longrightarrow> gx_tenant c = gx_tenant d)"

lemma well_scopedD:
  assumes "well_scoped C" "c \<in> C"
  shows "gx_tenant c \<noteq> []" "d \<in> C \<Longrightarrow> tenantKeyFromContext d = tenantKeyFromContext c \<Longrightarrow> gx_tenant d = gx_tenant c"
  using assms unfolding well_scoped_def by blast+

lemma well_scoped_key: "well_scoped C \<Longrightarrow> c \<in> C \<Longrightarrow> tenantKeyFromContext c \<noteq> []"
  using well_scopedD(1) by (auto simp: tenantKeyFromContext_def)

section \<open>A load reads the tenant's rows only\<close>

lemma Register_provider_set: "x \<in> set (Register_provider name p r) \<Longrightarrow> x \<in> set r \<or> snd x = p"
  by (auto simp: Register_provider_def split: if_splits)

lemma fold_register_set:
  "x \<in> set (fold (\<lambda>(n, p). Register_provider name p) ps r) \<Longrightarrow> x \<in> set r \<or> (\<exists>y \<in> set ps. snd x = snd y)"
  by (induction ps arbitrary: r) (fastforce dest: Register_provider_set)+

lemma alist_update_set: "x \<in> set (AList.update k v al) \<Longrightarrow> x \<in> set al \<or> x = (k, v)"
  by (induction al) (auto split: if_splits)

lemma add_routes_aggregated [simp]: "bs_aggregated (add_routes env provider ms st) = bs_aggregated st"
  unfolding add_routes_def by (induction ms arbitrary: st) simp_all

lemma add_defaults_aggregated [simp]: "bs_aggregated (add_defaults env provider settings st) = bs_aggregated st"
  by (simp add: add_defaults_def Let_def split: sum.split option.split)

definition inputs_of :: "(string \<Rightarrow> string \<Rightarrow> bool) \<Rightarrow> string \<Rightarrow> boot_state \<Rightarrow> bool" where
  "inputs_of owns org st \<longleftrightarrow> (\<forall>x \<in> set (bs_aggregated st). input_of owns org (snd x))"

lemma inputs_of_same: "bs_aggregated st' = bs_aggregated st \<Longrightarrow> inputs_of owns org st' = inputs_of owns org st"
  by (simp add: inputs_of_def)

lemma existing_input_of: "inputs_of owns org st \<Longrightarrow> input_of owns org (existing_input provider st)"
proof (cases "map_of (bs_aggregated st) provider")
  case (Some a)
  assume "inputs_of owns org st"
  with map_of_SomeD [OF Some] show ?thesis by (fastforce simp: existing_input_def inputs_of_def Some)
qed (simp add: existing_input_def input_of_def)

lemma put_input_of: "inputs_of owns org st \<Longrightarrow> input_of owns org a \<Longrightarrow> inputs_of owns org (put_input provider a st)"
  by (auto simp: inputs_of_def put_input_def dest!: alist_update_set)

lemma boot_step_of:
  assumes "inputs_of owns org st"
    and legacy: "pc_APIKeyEncrypted c \<noteq> [] \<Longrightarrow> owns (pc_APIKeyEncrypted c) org"
    and keys: "\<And>ks k. db_keys db (pc_ID c) = Some ks \<Longrightarrow> k \<in> set ks \<Longrightarrow> owns (pk_KeyEncrypted k) org"
  shows "inputs_of owns org (boot_step env db c st)"
proof -
  let ?p = "bo_lower env (pc_ProviderName c)"
  let ?st = "add_routes env ?p (filtered_models env c) st"
  let ?st' = "add_defaults env ?p (pc_CustomSettings c) ?st"
  have st: "inputs_of owns org ?st'" using assms(1) by (simp add: inputs_of_def)
  have agg: "input_of owns org (existing_input ?p ?st)"
    using assms(1) by (intro existing_input_of) (simp add: inputs_of_def)
  have del: "inputs_of owns org (?st'\<lparr>bs_aggregated := AList.delete ?p (bs_aggregated st)\<rparr>)"
    using assms(1) by (auto simp: inputs_of_def AList.delete_eq)
  show ?thesis
  proof (cases "db_keys db (pc_ID c)")
    case None
    then show ?thesis
      using assms(1) st agg by (auto simp: boot_step_def Let_def input_of_def intro!: put_input_of split: option.split)
  next
    case (Some ks)
    then show ?thesis
      using assms(1) st agg del legacy keys [OF Some]
      by (auto simp: boot_step_def Let_def input_of_def intro!: put_input_of split: option.split)
  qed
qed

lemma boot_fold_of:
  assumes "db_owned owns db" "db_configs db = Some all"
    and "\<And>c. c \<in> set cs \<Longrightarrow> c \<in> set all \<and> pc_OrganizationID c = Some org"
    and "inputs_of owns org st"
  shows "inputs_of owns org (fold (boot_step env db) cs st)"
  using assms(3,4)
proof (induction cs arbitrary: st)
  case (Cons c cs)
  have c: "c \<in> set all" "pc_OrganizationID c = Some org" using Cons.prems(1) [of c] by auto
  have "inputs_of owns org (boot_step env db c st)"
    using c assms(1,2) by (intro boot_step_of [OF Cons.prems(2)]) (auto simp: db_owned_def)
  with Cons show ?case by simp
qed simp

lemma build_registry_of:
  assumes "\<And>y. y \<in> set ps \<Longrightarrow> input_of owns org (snd y)" "x \<in> set (build_registry env sticky ps)"
  shows "made_for env owns org (snd x)"
proof -
  define add where "add = (\<lambda>(prov, inp) reg.
      case bo_factory env prov of
        None \<Rightarrow> reg
      | Some f \<Rightarrow> (case f (inp\<lparr>ai_StickyKey := sticky\<rparr>) of
                   None \<Rightarrow> reg | Some p \<Rightarrow> Register_provider (bo_name env) p reg))"
  have "\<forall>x \<in> set (fold add ps r). made_for env owns org (snd x)"
    if "\<forall>x \<in> set r. made_for env owns org (snd x)" for r
    using assms(1) that
  proof (induction ps arbitrary: r)
    case (Cons y ps)
    obtain prov inp where y: "y = (prov, inp)" by (cases y)
    have inp: "input_of owns org (inp\<lparr>ai_StickyKey := sticky\<rparr>)"
      using Cons.prems(1) [of y] by (simp add: y input_of_def)
    have "\<forall>x \<in> set (add y r). made_for env owns org (snd x)"
      using Cons.prems(2) inp
      by (auto simp: y add_def made_for_def dest!: Register_provider_set split: option.split)
    with Cons show ?case by simp
  qed simp
  from this [of NewRegistry] assms(2) show ?thesis
    by (simp add: build_registry_def add_def [symmetric] NewRegistry_def)
qed

lemma bootstrap_of:
  assumes "bootstrapFromDatabase env db c = Some b" "db_owned owns db" "gx_tenant c \<noteq> []"
    "\<And>xs. set (bo_shuffle env xs) \<subseteq> set xs"
  shows "bundle_of env owns (gx_tenant c) b"
proof -
  from assms(1,3) obtain all where all: "db_configs db = Some all"
    by (auto simp: bootstrapFromDatabase_def listProviderConfigs_def ListForOrg_def split: option.splits)
  let ?cs = "filter (\<lambda>cfg. pc_OrganizationID cfg = Some (gx_tenant c)) all"
  let ?st = "fold (boot_step env db) ?cs boot_start"
  have "inputs_of owns (gx_tenant c) ?st"
    by (rule boot_fold_of [OF assms(2) all]) (auto simp: inputs_of_def boot_start_def)
  then have "\<forall>y \<in> set (bo_shuffle env (bs_aggregated ?st)). input_of owns (gx_tenant c) (snd y)"
    using assms(4) by (fastforce simp: inputs_of_def)
  moreover have "tb_reg b = build_registry env (hashKeyFromContext c) (bo_shuffle env (bs_aggregated ?st)) \<and>
      ro_registry (tb_router b) = tb_reg b"
    using assms(1,3) all
    by (auto simp: bootstrapFromDatabase_def listProviderConfigs_def ListForOrg_def Let_def SetModelRoutes_def NewRouter_def)
  ultimately show ?thesis using build_registry_of by (fastforce simp: bundle_of_def)
qed

section \<open>Every operation keeps bundles separate\<close>

lemma bundle_of_stamp [simp]: "bundle_of env owns org (b\<lparr>tb_loadedAt := t\<rparr>) = bundle_of env owns org b"
  by (simp add: bundle_of_def)

lemma separate_store:
  assumes "bundles_separate env owns C s" "well_scoped C" "c \<in> C" "bundle_of env owns (gx_tenant c) b"
  shows "bundles_separate env owns C (bundle_store now (tenantKeyFromContext c) b s)"
  unfolding bundles_separate_def
proof (intro ballI allI impI)
  fix d b'
  assume d: "d \<in> C" "gs_bundles (bundle_store now (tenantKeyFromContext c) b s) (tenantKeyFromContext d) = Some b'"
  show "bundle_of env owns (gx_tenant d) b'"
  proof (cases "tenantKeyFromContext d = tenantKeyFromContext c")
    case True
    then have "gx_tenant d = gx_tenant c" by (rule well_scopedD(2) [OF assms(2,3) d(1)])
    with True d(2) assms(4) show ?thesis by (auto simp: bundle_store_def)
  next
    case False
    with d assms(1) show ?thesis by (auto simp: bundle_store_def bundles_separate_def)
  qed
qed

lemma separate_default [simp]: "bundles_separate env owns C (s\<lparr>gs_default := d\<rparr>) = bundles_separate env owns C s"
  by (simp add: bundles_separate_def)

lemma separate_install:
  assumes "bundles_separate env owns C s" "well_scoped C" "c \<in> C" "bundle_of env owns (gx_tenant c) b"
  shows "bundles_separate env owns C (installBundle env now (tenantKeyFromContext c) b s)"
  using separate_store [OF assms, of now] well_scoped_key [OF assms(2,3)]
  by (simp add: installBundle_def Let_def)

lemma separate_ensure:
  assumes "bundles_separate env owns C s" "well_scoped C" "c \<in> C" "db_owned owns db"
    "\<And>xs. set (bo_shuffle env xs) \<subseteq> set xs"
  shows "bundles_separate env owns C (snd (EnsureProvidersForRequest env now db c s))"
proof (cases "bootstrapFromDatabase env db c")
  case None
  then show ?thesis using assms(1) by (simp add: EnsureProvidersForRequest_def Let_def)
next
  case (Some b)
  have "bundle_of env owns (gx_tenant c) b"
    by (rule bootstrap_of [OF Some assms(4) well_scopedD(1) [OF assms(2,3)] assms(5)])
  then have "bundles_separate env owns C (bundle_store now (tenantKeyFromContext c) b s)"
    by (rule separate_store [OF assms(1-3)])
  then show ?thesis using assms(1) Some by (simp add: EnsureProvidersForRequest_def Let_def)
qed

lemma providersFor_separate:
  assumes "bundles_separate env owns C s" "c \<in> C" "bo_shared env" "providersFor env now c s = Some b"
  shows "bundle_of env owns (gx_tenant c) b"
  using assms by (auto simp: providersFor_def bundle_get_def bundles_separate_def split: if_splits option.splits)

lemma rotated_bundle_of:
  assumes "made_for env owns org newp" "\<And>b. current = Some b \<Longrightarrow> bundle_of env owns org b"
  shows "bundle_of env owns org (rotated_bundle env cfg newp current)"
proof -
  have "made_for env owns org (snd x)" if "x \<in> set (tb_reg (rotated_bundle env cfg newp current))" for x
  proof (cases current)
    case None
    with that assms(1) show ?thesis
      by (auto simp: rotated_bundle_def Let_def NewRegistry_def dest!: Register_provider_set)
  next
    case (Some b)
    from that Some have "snd x = newp \<or> (\<exists>y \<in> set (tb_reg b). snd x = snd y)"
      by (auto simp: rotated_bundle_def Let_def NewRegistry_def dest!: Register_provider_set fold_register_set)
    with assms Some show ?thesis by (auto simp: bundle_of_def)
  qed
  then show ?thesis by (simp add: bundle_of_def rotated_bundle_def Let_def NewRouter_def)
qed

lemma separate_rotate:
  assumes "bundles_separate env owns C s" "well_scoped C" "c \<in> C" "db_owned owns db" "bo_shared env"
  shows "bundles_separate env owns C (snd (attemptKeyRotation env now db c cache model s))"
proof -
  have made: "made_for env owns (gx_tenant c) newp"
    if "listProviderConfigs c db = Some configs" "cfg \<in> set configs" "db_keys db (pc_ID cfg) = Some keys"
      "rotation_keys keys s = ks" "bo_factory env (pc_ProviderName cfg) = Some f"
      "f (rotation_input cfg ks c) = Some newp" for configs cfg keys ks f newp
  proof -
    have "gx_tenant c \<noteq> []" using assms(2,3) by (rule well_scopedD)
    with that(1,2) obtain all where "db_configs db = Some all" "cfg \<in> set all" "pc_OrganizationID cfg = Some (gx_tenant c)"
      by (auto simp: listProviderConfigs_def ListForOrg_def)
    with assms(4) that(3) have "\<forall>k \<in> set keys. owns (pk_KeyEncrypted k) (gx_tenant c)"
      by (auto simp: db_owned_def)
    then have "input_of owns (gx_tenant c) (rotation_input cfg ks c)"
      using that(4) by (auto simp: input_of_def rotation_input_def rotation_keys_def)
    with that(5,6) show ?thesis by (auto simp: made_for_def)
  qed
  have "bundles_separate env owns C (installBundle env now (tenantKeyFromContext c)
      (rotated_bundle env cfg newp (providersFor env now c s)) s)"
    if "made_for env owns (gx_tenant c) newp" for cfg newp
    using providersFor_separate [OF assms(1,3,5)] that
    by (intro separate_install [OF assms(1-3)] rotated_bundle_of)
  then have rotated: "bundles_separate env owns C (installBundle env now (tenantKeyFromContext c)
      (rotated_bundle env cfg newp (providersFor env now c s)) s)"
    if "listProviderConfigs c db = Some configs" "find P configs = Some cfg" "db_keys db (pc_ID cfg) = Some keys"
      "rotation_keys keys s = ks" "bo_factory env (pc_ProviderName cfg) = Some f"
      "f (rotation_input cfg ks c) = Some newp" for configs P cfg keys ks f newp
    using made [OF that(1) find_mem [OF that(2)] that(3-6)] by blast
  show ?thesis
    using assms(1) by (auto simp: attemptKeyRotation_def intro: rotated split: option.split sum.split list.split)
qed

lemma gateway_run_separate:
  assumes "gateway_run env owns C s" "well_scoped C" "bo_shared env" "\<And>xs. set (bo_shuffle env xs) \<subseteq> set xs"
  shows "bundles_separate env owns C s"
  using assms(1)
proof induction
  case (boot s)
  then show ?case by (simp add: bundles_separate_def)
next
  case (ensure s db c now)
  then show ?case using assms by (intro separate_ensure)
next
  case (refresh s db c now)
  have "gx_tenant c \<noteq> []" using assms(2) refresh(3) by (rule well_scopedD)
  then have "bundles_separate env owns C (installBundle env now (tenantKeyFromContext c) b s)"
    if "bootstrapFromDatabase env db c = Some b" for b
    using separate_install [OF refresh(4) assms(2) refresh(3)] bootstrap_of [OF that refresh(2) _ assms(4)] by blast
  with refresh(4) show ?case by (simp add: RefreshProviders_def split: option.split)
next
  case (request s db c t1 t2)
  have "bundles_separate env owns C (snd (bundle_rounds env ts db c s))" for ts
    using request(4)
  proof (induction ts arbitrary: s)
    case (Cons t ts)
    obtain n l where t: "t = (n, l)" by (cases t)
    have "bundles_separate env owns C (snd (EnsureProvidersForRequest env n db c s))"
      using Cons.prems assms request by (intro separate_ensure)
    then show ?case using Cons.IH by (auto simp: t split: prod.split bool.split option.split)
  qed simp
  then show ?case by (simp add: ProviderBundleForRequest_def)
next
  case (rotate s db c now cache model)
  then show ?case using assms by (intro separate_rotate)
next
  case (mark s k)
  then show ?case by (simp add: bundles_separate_def markFailedKey_def)
next
  case (clear s k)
  then show ?case by (simp add: bundles_separate_def clearFailedKey_def)
next
  case (invalidate s key)
  then show ?case by (auto simp: bundles_separate_def invalidateBundle_def split: if_splits)
next
  case (drop_all s)
  then show ?case by (simp add: bundles_separate_def dropAllBundles_def)
qed

end
