(* ===== verification/GatewayPlan.thy ===== *)
theory GatewayPlan
  imports GatewaySelector
begin

text \<open>
  Load balancing and fallback configuration of a request (\<open>server.go\<close> of
  \<open>internal/api/grpc/gateway/v1\<close>): the tenant's runtime configuration
  (\<open>internal/domain/runtime_config/models.go\<close>) before the static file
  (\<open>cmd/config/gateway/validator/gateway.go\<close>), the plan of fallback steps, the sticky key.
\<close>

section \<open>Configuration\<close>

record rt_model =
  rm_Provider :: string
  rm_Model :: string
  rm_MaxTokens :: int
  rm_Temperature :: rat

record rt_factor =
  rf_Name :: string
  rf_Priority :: int
  rf_Strategy :: string
  rf_Models :: "rt_model list"
  rf_TimeoutMs :: int
  rf_BackoffMs :: int
  rf_MaxAttempts :: int

record rt_fallback =
  rb_Enabled :: bool
  rb_Default :: "rt_model option"
  rb_Factors :: "rt_factor list"

record rt_load_balancer =
  rlb_Enabled :: bool
  rlb_Strategy :: string
  rlb_KeySource :: string
  rlb_Fallback :: "rt_fallback option"

record fallback_model =
  fm_Enabled :: bool
  fm_Provider :: string
  fm_Model :: string
  fm_MaxTokens :: int
  fm_Temperature :: rat

record fallback_factor =
  ff_Name :: string
  ff_Priority :: int
  ff_Strategy :: string
  ff_Models :: "fallback_model list"
  ff_TimeoutMs :: int
  ff_BackoffMs :: int
  ff_MaxAttempts :: int

record fallback_config =
  fc_Enabled :: bool
  fc_Default :: fallback_model
  fc_Factors :: "fallback_factor list"

record load_balancer_config =
  lc_Enabled :: bool
  lc_Strategy :: string
  lc_Weights :: "string \<rightharpoonup> int"
  lc_KeySource :: string
  lc_Fallback :: fallback_config

definition no_model :: fallback_model where
  "no_model = \<lparr>fm_Enabled = False, fm_Provider = [], fm_Model = [], fm_MaxTokens = 0, fm_Temperature = 0\<rparr>"

definition validator_model :: "bool \<Rightarrow> rt_model \<Rightarrow> fallback_model" where
  "validator_model enabled m = \<lparr>fm_Enabled = enabled, fm_Provider = rm_Provider m, fm_Model = rm_Model m,
     fm_MaxTokens = rm_MaxTokens m, fm_Temperature = rm_Temperature m\<rparr>"

definition rtconfigFallbackToValidator :: "rt_fallback \<Rightarrow> fallback_config" where
  "rtconfigFallbackToValidator i =
     \<lparr>fc_Enabled = rb_Enabled i,
      fc_Default = (case rb_Default i of None \<Rightarrow> no_model | Some m \<Rightarrow> validator_model (rm_Model m \<noteq> []) m),
      fc_Factors = map (\<lambda>f. \<lparr>ff_Name = rf_Name f, ff_Priority = rf_Priority f, ff_Strategy = rf_Strategy f,
          ff_Models = map (validator_model True) (rf_Models f), ff_TimeoutMs = rf_TimeoutMs f,
          ff_BackoffMs = rf_BackoffMs f, ff_MaxAttempts = rf_MaxAttempts f\<rparr>) (rb_Factors i)\<rparr>"

text \<open>\<open>rt\<close> is the tenant's section, \<open>None\<close> without the service; \<open>cfg\<close> is the static section.\<close>

definition effectiveFallbackConfig ::
    "rt_load_balancer option \<Rightarrow> load_balancer_config option \<Rightarrow> fallback_config option" where
  "effectiveFallbackConfig rt cfg =
     (let static = (case cfg of
                      Some c \<Rightarrow> if fc_Enabled (lc_Fallback c) then Some (lc_Fallback c) else None
                    | None \<Rightarrow> None)
      in case rt of
        None \<Rightarrow> static
      | Some lb \<Rightarrow>
          (case rlb_Fallback lb of
             Some fb \<Rightarrow> if rlb_Enabled lb \<and> rb_Enabled fb then Some (rtconfigFallbackToValidator fb) else static
           | None \<Rightarrow> static))"

definition effectiveLoadBalancerToggle ::
    "rt_load_balancer option \<Rightarrow> load_balancer_config option \<Rightarrow> bool \<times> string" where
  "effectiveLoadBalancerToggle rt cfg =
     (let static = (case cfg of Some c \<Rightarrow> (lc_Enabled c, lc_Strategy c) | None \<Rightarrow> (False, []))
      in case rt of
        None \<Rightarrow> static
      | Some lb \<Rightarrow> if rlb_Strategy lb \<noteq> [] \<or> rlb_Enabled lb then (rlb_Enabled lb, rlb_Strategy lb) else static)"

definition effectiveKeySource :: "rt_load_balancer option \<Rightarrow> load_balancer_config option \<Rightarrow> string" where
  "effectiveKeySource rt cfg =
     (let static = (case cfg of Some c \<Rightarrow> lc_KeySource c | None \<Rightarrow> [])
      in case rt of
        None \<Rightarrow> static
      | Some lb \<Rightarrow> if rlb_Enabled lb \<and> rlb_KeySource lb \<noteq> [] then rlb_KeySource lb else static)"

text \<open>\<open>get\<close> reads a header, the empty string when absent; \<open>strings.Split\<close> at the first comma.\<close>

definition extractStickyKey :: "(string \<Rightarrow> string) \<Rightarrow> string \<Rightarrow> (string \<Rightarrow> string) \<Rightarrow> string" where
  "extractStickyKey lower source get =
     (if lower source = ''api_key'' then get ''x-evs-api-key''
      else if lower source = ''user_id'' then get ''x-user-id''
      else if lower source = ''ip'' then
        (let ff = get ''x-forwarded-for'' in
         if ff \<noteq> [] then TrimSpace (takeWhile (\<lambda>c. c \<noteq> CHR '','') ff) else get ''x-real-ip'')
      else [])"

section \<open>The plan\<close>

record fallback_step =
  fs_Aliases :: "string list"
  fs_Strategy :: string
  fs_TimeoutMs :: int
  fs_BackoffMs :: int
  fs_MaxAttempts :: int
  fs_Name :: string

definition single_step :: "fallback_factor \<Rightarrow> string \<Rightarrow> fallback_step" where
  "single_step f a = \<lparr>fs_Aliases = [a], fs_Strategy = ''priority'', fs_TimeoutMs = ff_TimeoutMs f,
     fs_BackoffMs = ff_BackoffMs f, fs_MaxAttempts = ff_MaxAttempts f, fs_Name = ff_Name f\<rparr>"

definition factor_aliases :: "(string \<Rightarrow> string) \<Rightarrow> fallback_factor \<Rightarrow> string list" where
  "factor_aliases lower f = map (\<lambda>m. lower (fm_Model m)) (filter (\<lambda>m. fm_Model m \<noteq> []) (ff_Models f))"

text \<open>\<open>key\<close> is the correlation id, or the time when there is none.\<close>

definition factor_steps :: "(string \<Rightarrow> string) \<Rightarrow> string \<Rightarrow> fallback_factor \<Rightarrow> fallback_step list" where
  "factor_steps lower key f =
     (let aliases = factor_aliases lower f in
      if aliases = [] then []
      else if lower (ff_Strategy f) = ''parallel'' then
        [\<lparr>fs_Aliases = aliases, fs_Strategy = ''parallel'', fs_TimeoutMs = ff_TimeoutMs f,
          fs_BackoffMs = ff_BackoffMs f, fs_MaxAttempts = ff_MaxAttempts f, fs_Name = ff_Name f\<rparr>]
      else if lower (ff_Strategy f) = ''round_robin'' then
        (let rot = unat (fnv32a key mod of_nat (length aliases))
         in map (single_step f) (drop rot aliases @ take rot aliases))
      else map (single_step f) aliases)"

text \<open>
  \<open>by_priority\<close> is the outcome of \<open>sort.Slice\<close>, which is not stable: any arrangement by ascending
  priority.
\<close>

definition sorts_by_priority :: "(fallback_factor list \<Rightarrow> fallback_factor list) \<Rightarrow> bool" where
  "sorts_by_priority by_priority \<longleftrightarrow>
     (\<forall>fs. set (by_priority fs) = set fs \<and> length (by_priority fs) = length fs \<and>
       sorted (map ff_Priority (by_priority fs)))"

definition fallbackPlan ::
    "(string \<Rightarrow> string) \<Rightarrow> (fallback_factor list \<Rightarrow> fallback_factor list) \<Rightarrow> string \<Rightarrow> fallback_config option \<Rightarrow>
       fallback_step list" where
  "fallbackPlan lower by_priority key fbo =
     (case fbo of
        None \<Rightarrow> []
      | Some fb \<Rightarrow>
          (if fm_Enabled (fc_Default fb) \<and> fm_Model (fc_Default fb) \<noteq> []
           then [\<lparr>fs_Aliases = [lower (fm_Model (fc_Default fb))], fs_Strategy = ''priority'', fs_TimeoutMs = 0,
                  fs_BackoffMs = 0, fs_MaxAttempts = 0, fs_Name = ''default_fallback''\<rparr>]
           else []) @
          concat (map (factor_steps lower key) (by_priority (fc_Factors fb))))"

text \<open>The loop with the set of aliases seen.\<close>

fun ordered_aliases :: "(string \<Rightarrow> string) \<Rightarrow> string list \<Rightarrow> string set \<Rightarrow> string list" where
  "ordered_aliases lower [] seen = []"
| "ordered_aliases lower (alias # as) seen =
     (if lower alias \<in> seen then ordered_aliases lower as seen
      else lower alias # ordered_aliases lower as (insert (lower alias) seen))"

definition fallbackAliasOrder :: "(string \<Rightarrow> string) \<Rightarrow> fallback_step list \<Rightarrow> string list" where
  "fallbackAliasOrder lower steps = ordered_aliases lower (concat (map fs_Aliases steps)) {}"

section \<open>A plan is the configuration\<close>

lemma factor_steps_aliases: "set (concat (map fs_Aliases (factor_steps lower key f))) = set (factor_aliases lower f)"
proof -
  have "set (drop n xs @ take n xs) = set xs" for n and xs :: "string list"
    by (metis append_take_drop_id set_append sup_commute)
  then show ?thesis by (auto simp: factor_steps_def Let_def single_step_def)
qed

lemma ordered_aliases_distinct: "distinct (ordered_aliases lower as seen)"
  "set (ordered_aliases lower as seen) = lower ` set as - seen"
  by (induction as arbitrary: seen) auto

end
