(* ===== verification/GatewayFallback.thy ===== *)
theory GatewayFallback
  imports GatewayPlan GatewayTenants WalletMeter
begin

text \<open>
  What the gateway does when the first attempt at a chat completion fails
  (\<open>processChatCompletion\<close> in \<open>internal/api/grpc/gateway/v1/processors.go\<close>, the error classes in
  \<open>internal/lib/retrypolicy/retry.go\<close> and \<open>internal/lib/handlers/gateway/errors.go\<close>): rotation of the API key,
  then the fallback plan, sequential or racing; and the streaming variant. The providers' answers, the
  instants and the database are given per upstream call, numbered from the first of the request.
\<close>

section \<open>Errors\<close>

datatype mf_class =
    MfUnauthenticated | MfUnavailable | MfDeadlineExceeded | MfResourceExhausted | MfInternal | MfOther

text \<open>What the checks read of an \<open>error\<close>: its text, its class, and what \<open>errors.Is\<close> and \<open>errors.As\<close> find in it.\<close>

record gateway_error =
  ge_msg :: string
  ge_class :: mf_class
  ge_ctx_done :: bool
  ge_model_not_found :: bool
  ge_not_implemented :: bool

definition IsModelNotFoundError :: "gateway_error \<Rightarrow> bool" where
  "IsModelNotFoundError e = ge_model_not_found e"

definition IsNonRetriableError :: "gateway_error \<Rightarrow> bool" where
  "IsNonRetriableError e \<longleftrightarrow> IsModelNotFoundError e \<or> ge_not_implemented e"

definition IsAuthenticationError :: "(string \<Rightarrow> string) \<Rightarrow> gateway_error \<Rightarrow> bool" where
  "IsAuthenticationError lower e \<longleftrightarrow>
     (if ge_class e = MfUnauthenticated then True
      else
        let msg = lower (ge_msg e) in
        if go_contains msg ''model_not_supported'' \<or> go_contains msg ''model not found'' \<or>
           go_contains msg ''model'' \<and> go_contains msg ''not supported'' then False
        else list_ex (go_contains msg)
          [''invalid api token'', ''invalid api key'', ''authentication failed'', ''unauthorized'',
           ''unauthenticated'', ''invalid_api_key'', ''401'', ''403'', ''cohere error''])"

definition IsRetryable :: "(string \<Rightarrow> string) \<Rightarrow> gateway_error \<Rightarrow> bool" where
  "IsRetryable lower e \<longleftrightarrow>
     (if IsAuthenticationError lower e then False
      else if ge_ctx_done e then True
      else if ge_class e \<in> {MfUnavailable, MfDeadlineExceeded, MfResourceExhausted} then True
      else if ge_class e = MfInternal then True
      else list_ex (go_contains (lower (ge_msg e)))
        [''timeout'', ''temporar'', ''rate limit'', ''too many requests'', ''unavailable'', ''overloaded'', ''529''])"

definition IsRateLimitError :: "(string \<Rightarrow> string) \<Rightarrow> gateway_error \<Rightarrow> bool" where
  "IsRateLimitError lower e \<longleftrightarrow>
     ge_class e = MfResourceExhausted \<or>
     list_ex (go_contains (lower (ge_msg e)))
       [''rate limit'', ''rate_limit'', ''too many requests'', ''429'', ''overloaded'', ''529'']"

definition route_failure :: "route_error \<Rightarrow> gateway_error" where
  "route_failure e =
     (case e of
        ModelRequired \<Rightarrow> \<lparr>ge_msg = ''model is required'', ge_class = MfOther, ge_ctx_done = False,
                          ge_model_not_found = False, ge_not_implemented = False\<rparr>
      | ModelNotFound m \<Rightarrow>
          \<lparr>ge_msg = ''model not found: '' @ m @
             '' (no provider found for model (model may not be activated or configured))'',
           ge_class = MfOther, ge_ctx_done = False, ge_model_not_found = True, ge_not_implemented = False\<rparr>)"

section \<open>An upstream call\<close>

text \<open>
  \<open>up_chat n p m\<close> is the answer of provider \<open>p\<close> to model \<open>m\<close> if it is the \<open>n\<close>-th call. \<open>up_race n\<close>: which of the
  successes of a race that starts at call \<open>n\<close> arrives first, \<open>None\<close> when the context ends before one does.
  \<open>up_ctx_ends\<close>: the request's own context ends some time.
\<close>

record ('p, 'r) upstream =
  up_chat :: "nat \<Rightarrow> 'p \<Rightarrow> string \<Rightarrow> gateway_error + 'r"
  up_stream :: "nat \<Rightarrow> 'p \<Rightarrow> string \<Rightarrow> string list \<times> gateway_error option"
  up_now :: "nat \<Rightarrow> int"
  up_db :: "nat \<Rightarrow> provider_db"
  up_race :: "nat \<Rightarrow> nat option"
  up_ctx_ends :: bool
  up_model :: "'r \<Rightarrow> string"
  up_key_source :: "'r \<Rightarrow> string"
  up_cost :: "'r \<Rightarrow> rat"
  up_total_tokens :: "'r \<Rightarrow> int"

datatype 'a attempt = Answer 'a | Failure gateway_error | NilRouter

text \<open>
  \<open>Resolve\<close> on a router that may be nil: the route cache is asked before the first field is read, whose
  dereference panics (\<open>None\<close>).
\<close>

definition resolve_maybe ::
    "'p boot_env \<Rightarrow> 'p router option \<Rightarrow> string \<Rightarrow> 'p router_cache option \<Rightarrow>
       (route_error + 'p \<times> model_route) option" where
  "resolve_maybe env ro model cache =
     (case ro of
        Some r \<Rightarrow> Some (fst (ResolveWithContext (bo_lower env) (bo_supports env) r model cache))
      | None \<Rightarrow>
          if model = [] then Some (Inl ModelRequired)
          else if parseProviderRef model \<noteq> None then None
          else case cache of
            None \<Rightarrow> None
          | Some rc \<Rightarrow>
              (case fst (Resolve_cached (bo_lower env) model rc) of
                 None \<Rightarrow> None
               | Some info \<Rightarrow>
                   map_option (\<lambda>p. Inr (p, \<lparr>mr_ProviderName = pi_Name info, mr_ModelName = pi_ModelName info,
                                           mr_IsCustom = pi_IsCustom info\<rparr>)) (pi_ProviderRef info)))"

definition sent_model :: "model_route \<Rightarrow> string \<Rightarrow> string" where
  "sent_model route model = (if mr_ModelName route \<noteq> [] then mr_ModelName route else model)"

definition HandleChat ::
    "'p boot_env \<Rightarrow> ('p, 'r) upstream \<Rightarrow> 'p router_cache option \<Rightarrow> 'p router option \<Rightarrow> nat \<Rightarrow> string \<Rightarrow> 'r attempt" where
  "HandleChat env up cache ro n model =
     (case resolve_maybe env ro model cache of
        None \<Rightarrow> NilRouter
      | Some (Inl e) \<Rightarrow> Failure (route_failure e)
      | Some (Inr (p, route)) \<Rightarrow>
          (case up_chat up n p (sent_model route model) of Inl e \<Rightarrow> Failure e | Inr r \<Rightarrow> Answer r))"

text \<open>The chunks handed to the client, and how the stream ended.\<close>

definition HandleChatStream ::
    "'p boot_env \<Rightarrow> ('p, 'r) upstream \<Rightarrow> 'p router_cache option \<Rightarrow> 'p router option \<Rightarrow> nat \<Rightarrow> string \<Rightarrow>
       string list \<times> unit attempt" where
  "HandleChatStream env up cache ro n model =
     (case resolve_maybe env ro model cache of
        None \<Rightarrow> ([], NilRouter)
      | Some (Inl e) \<Rightarrow> ([], Failure (route_failure e))
      | Some (Inr (p, route)) \<Rightarrow>
          (case up_stream up n p (sent_model route model) of
             (chunks, None) \<Rightarrow> (chunks, Answer ())
           | (chunks, Some e) \<Rightarrow> (chunks, Failure e)))"

section \<open>What a request leaves behind\<close>

datatype fallback_event =
    FallbackSucceededEvent string string string int
  | FallbackFailedEvent string int
  | ModelNotFoundEvent string

record attempt_log =
  al_tried :: "string list"
  al_meter :: "meter_call list"
  al_pauses :: "int list"
  al_chunks :: "string list"
  al_fallbackAttempts :: int
  al_events :: "fallback_event list"

definition fresh_log :: attempt_log where
  "fresh_log = \<lparr>al_tried = [], al_meter = [], al_pauses = [], al_chunks = [], al_fallbackAttempts = 0,
     al_events = []\<rparr>"

abbreviation call_number :: "attempt_log \<Rightarrow> nat" where
  "call_number lg \<equiv> length (al_tried lg)"

definition log_tried :: "string \<Rightarrow> attempt_log \<Rightarrow> attempt_log" where
  "log_tried alias lg = lg\<lparr>al_tried := al_tried lg @ [alias]\<rparr>"

definition log_meter :: "meter_call \<Rightarrow> attempt_log \<Rightarrow> attempt_log" where
  "log_meter m lg = lg\<lparr>al_meter := al_meter lg @ [m]\<rparr>"

definition shadowRetryFailed :: string where
  "shadowRetryFailed = ''retry_attempt_failed''"

definition shadowFallbackServed :: string where
  "shadowFallbackServed = ''fallback_served_unbilled''"

text \<open>The key source handed to the meter after a failure is the load balancer's \<open>key_source\<close> setting.\<close>

definition log_retry_failed :: "string \<Rightarrow> attempt_log \<Rightarrow> attempt_log" where
  "log_retry_failed ks = log_meter (ShadowCall shadowRetryFailed ks 0)"

definition log_pause :: "int \<Rightarrow> attempt_log \<Rightarrow> attempt_log" where
  "log_pause ms lg = (if ms > 0 then lg\<lparr>al_pauses := al_pauses lg @ [ms]\<rparr> else lg)"

definition log_success :: "string \<Rightarrow> string \<Rightarrow> string \<Rightarrow> attempt_log \<Rightarrow> attempt_log" where
  "log_success requested model reason lg =
     lg\<lparr>al_fallbackAttempts := al_fallbackAttempts lg + 1,
        al_events := al_events lg @ [FallbackSucceededEvent requested model reason (al_fallbackAttempts lg + 1)]\<rparr>"

record fallback_info =
  fi_requested :: string
  fi_served :: string
  fi_reason :: string
  fi_attempts :: int

text \<open>
  A response with its fallback information, an error returned as it is or as not found; a race nobody
  wins and nothing ends; a nil router.
\<close>

datatype 'r request_outcome =
    Sent 'r "fallback_info option"
  | ReturnedError gateway_error
  | NotFoundError gateway_error
  | Hangs
  | Panics

definition info_of :: "('p, 'r) upstream \<Rightarrow> string \<Rightarrow> string \<Rightarrow> 'r \<Rightarrow> attempt_log \<Rightarrow> fallback_info" where
  "info_of up requested reason r lg = \<lparr>fi_requested = requested, fi_served = up_model up r, fi_reason = reason,
     fi_attempts = al_fallbackAttempts lg\<rparr>"

section \<open>The fallback plan, unary\<close>

text \<open>A request's fixed surroundings.\<close>

record ('p, 'r) request_env =
  re_boot :: "'p boot_env"
  re_up :: "('p, 'r) upstream"
  re_cache :: "'p router_cache option"
  re_ctx :: gateway_ctx
  re_keySource :: string
  re_requested :: string
  re_model :: string

definition chat_call :: "('p, 'r) request_env \<Rightarrow> 'p gateway_server \<Rightarrow> nat \<Rightarrow> string \<Rightarrow> 'r attempt" where
  "chat_call rq s n alias =
     HandleChat (re_boot rq) (re_up rq) (re_cache rq)
       (routerFor (re_boot rq) (up_now (re_up rq) n) (re_ctx rq) s) n alias"

fun try_alias ::
    "('p, 'r) request_env \<Rightarrow> 'p gateway_server \<Rightarrow> fallback_step \<Rightarrow> string \<Rightarrow> nat \<Rightarrow> attempt_log \<Rightarrow>
       'r request_outcome option \<times> attempt_log" where
  "try_alias rq s st alias 0 lg = (None, lg)"
| "try_alias rq s st alias (Suc left) lg =
     (let res = chat_call rq s (call_number lg) alias; lg = log_tried alias lg in
      case res of
        NilRouter \<Rightarrow> (Some Panics, lg)
      | Answer r \<Rightarrow>
          let lg = log_success (re_requested rq) (up_model (re_up rq) r) (fs_Name st) lg;
              info = info_of (re_up rq) (re_requested rq) (fs_Name st) r lg;
              lg = (if up_total_tokens (re_up rq) r > 0
                    then log_meter (ShadowCall shadowFallbackServed (up_key_source (re_up rq) r) (up_cost (re_up rq) r)) lg
                    else lg)
          in (Some (Sent r (Some info)), lg)
      | Failure e \<Rightarrow>
          let lg = log_retry_failed (re_keySource rq) lg in
          if \<not> IsRetryable (bo_lower (re_boot rq)) e \<or> left = 0 then (None, lg)
          else try_alias rq s st alias left (log_pause (fs_BackoffMs st) lg))"

definition step_attempts :: "fallback_step \<Rightarrow> nat" where
  "step_attempts st = (if fs_MaxAttempts st \<le> 0 then 1 else nat (fs_MaxAttempts st))"

fun try_aliases ::
    "('p, 'r) request_env \<Rightarrow> 'p gateway_server \<Rightarrow> fallback_step \<Rightarrow> string list \<Rightarrow> attempt_log \<Rightarrow>
       'r request_outcome option \<times> attempt_log" where
  "try_aliases rq s st [] lg = (None, lg)"
| "try_aliases rq s st (alias # as) lg =
     (if alias = [] \<or> alias = re_model rq then try_aliases rq s st as lg
      else case try_alias rq s st alias (step_attempts st) lg of
        (None, lg') \<Rightarrow> try_aliases rq s st as lg'
      | (Some out, lg') \<Rightarrow> (Some out, lg'))"

text \<open>
  A race: every alias is called, one goroutine each, whose panic ends the process. The request waits for
  the first success or the end of the context; an error ends nothing. What the losers' successes note for
  the meter, after the response, is left out.
\<close>

fun race_answers :: "('p, 'r) request_env \<Rightarrow> 'p gateway_server \<Rightarrow> nat \<Rightarrow> string list \<Rightarrow> 'r attempt list" where
  "race_answers rq s n [] = []"
| "race_answers rq s n (alias # as) = chat_call rq s n alias # race_answers rq s (Suc n) as"

fun answers :: "'r attempt list \<Rightarrow> 'r list" where
  "answers [] = []"
| "answers (Answer r # as) = r # answers as"
| "answers (a # as) = answers as"

definition race_ends :: "('p, 'r) request_env \<Rightarrow> fallback_step \<Rightarrow> bool" where
  "race_ends rq st \<longleftrightarrow> fs_TimeoutMs st > 0 \<or> up_ctx_ends (re_up rq)"

definition run_race ::
    "('p, 'r) request_env \<Rightarrow> 'p gateway_server \<Rightarrow> fallback_step \<Rightarrow> attempt_log \<Rightarrow> 'r request_outcome option \<times> attempt_log" where
  "run_race rq s st lg =
     (let n = call_number lg;
          as = race_answers rq s n (fs_Aliases st);
          lg = lg\<lparr>al_tried := al_tried lg @ fs_Aliases st\<rparr>;
          served = (\<lambda>r.
            let lg = log_success (re_requested rq) (up_model (re_up rq) r) (fs_Name st)
                       (log_meter (ShadowCall shadowFallbackServed (up_key_source (re_up rq) r) (up_cost (re_up rq) r)) lg)
            in (Some (Sent r (Some (info_of (re_up rq) (re_requested rq) (fs_Name st) r lg))), lg))
      in if NilRouter \<in> set as then (Some Panics, lg)
         else case answers as of
           [] \<Rightarrow> if race_ends rq st then (None, lg) else (Some Hangs, lg)
         | r # rs \<Rightarrow>
             (case up_race (re_up rq) n of
                Some j \<Rightarrow> served ((r # rs) ! (j mod length (r # rs)))
              | None \<Rightarrow> if race_ends rq st then (None, lg) else served r))"

definition is_race :: "fallback_step \<Rightarrow> bool" where
  "is_race st \<longleftrightarrow> fs_Strategy st = ''parallel'' \<and> length (fs_Aliases st) > 1"

definition run_step ::
    "('p, 'r) request_env \<Rightarrow> 'p gateway_server \<Rightarrow> fallback_step \<Rightarrow> attempt_log \<Rightarrow> 'r request_outcome option \<times> attempt_log" where
  "run_step rq s st lg = (if is_race st then run_race rq s st lg else try_aliases rq s st (fs_Aliases st) lg)"

fun run_plan ::
    "('p, 'r) request_env \<Rightarrow> 'p gateway_server \<Rightarrow> fallback_step list \<Rightarrow> attempt_log \<Rightarrow>
       'r request_outcome option \<times> attempt_log" where
  "run_plan rq s [] lg = (None, lg)"
| "run_plan rq s (st # sts) lg =
     (case run_step rq s st lg of
        (None, lg') \<Rightarrow> run_plan rq s sts lg'
      | (Some out, lg') \<Rightarrow> (Some out, lg'))"

text \<open>The plan, and what follows when it is exhausted.\<close>

definition run_fallback ::
    "('p, 'r) request_env \<Rightarrow> fallback_step list \<Rightarrow> gateway_error \<Rightarrow> 'p gateway_server \<Rightarrow> attempt_log \<Rightarrow>
       'r request_outcome \<times> attempt_log" where
  "run_fallback rq plan err s lg =
     (case run_plan rq s plan lg of
        (Some out, lg') \<Rightarrow> (out, lg')
      | (None, lg') \<Rightarrow>
          (ReturnedError err,
           if al_fallbackAttempts lg' > 0
           then lg'\<lparr>al_events := al_events lg' @ [FallbackFailedEvent (re_requested rq) (al_fallbackAttempts lg')]\<rparr>
           else lg'))"

section \<open>Key rotation\<close>

datatype 'a rotation_end = Rotated 'a | Unrotated gateway_error | RotationPanics

text \<open>The loop of both variants: \<open>call\<close> retries, \<open>note\<close> is what a still failing retry leaves.\<close>

fun rotate_keys ::
    "('p, 'r) request_env \<Rightarrow> string \<Rightarrow> ('p gateway_server \<Rightarrow> attempt_log \<Rightarrow> 'a attempt \<times> attempt_log) \<Rightarrow>
       (attempt_log \<Rightarrow> attempt_log) \<Rightarrow> nat \<Rightarrow> gateway_error \<Rightarrow> 'p gateway_server \<Rightarrow> attempt_log \<Rightarrow>
       'a rotation_end \<times> 'p gateway_server \<times> attempt_log" where
  "rotate_keys rq alias call note 0 err s lg = (Unrotated err, s, lg)"
| "rotate_keys rq alias call note (Suc k) err s lg =
     (case attemptKeyRotation (re_boot rq) (up_now (re_up rq) (call_number lg)) (up_db (re_up rq) (call_number lg))
             (re_ctx rq) (re_cache rq) alias s of
        (None, s1) \<Rightarrow> (Unrotated err, s1, lg)
      | (Some keyID, s1) \<Rightarrow>
          let s2 = (if keyID \<noteq> [] then markFailedKey keyID s1 else s1) in
          (case call s2 lg of
             (NilRouter, lg') \<Rightarrow> (RotationPanics, s2, lg')
           | (Answer r, lg') \<Rightarrow> (Rotated r, if keyID \<noteq> [] then clearFailedKey keyID s2 else s2, lg')
           | (Failure e, lg') \<Rightarrow>
               if \<not> IsAuthenticationError (bo_lower (re_boot rq)) e then (Unrotated e, s2, lg')
               else rotate_keys rq alias call note k e s2 (note lg')))"

definition maxKeyRotations :: nat where
  "maxKeyRotations = 10"

definition chat_retry ::
    "('p, 'r) request_env \<Rightarrow> string \<Rightarrow> 'p gateway_server \<Rightarrow> attempt_log \<Rightarrow> 'r attempt \<times> attempt_log" where
  "chat_retry rq alias s lg = (chat_call rq s (call_number lg) alias, log_tried alias lg)"

section \<open>A unary request\<close>

text \<open>What follows the failure of the primary attempt.\<close>

definition after_primary ::
    "('p, 'r) request_env \<Rightarrow> fallback_step list \<Rightarrow> gateway_error \<Rightarrow> 'p gateway_server \<Rightarrow> attempt_log \<Rightarrow>
       'r request_outcome \<times> 'p gateway_server \<times> attempt_log" where
  "after_primary rq plan err s lg =
     (if IsNonRetriableError err then
        (NotFoundError err, s,
         if IsModelNotFoundError err then lg\<lparr>al_events := al_events lg @ [ModelNotFoundEvent (re_model rq)]\<rparr> else lg)
      else if IsAuthenticationError (bo_lower (re_boot rq)) err then
        (case rotate_keys rq (re_model rq) (chat_retry rq (re_model rq)) (\<lambda>lg. lg) maxKeyRotations err s lg of
           (Rotated r, s', lg') \<Rightarrow> (Sent r None, s', lg')
         | (RotationPanics, s', lg') \<Rightarrow> (Panics, s', lg')
         | (Unrotated e, s', lg') \<Rightarrow> (case run_fallback rq plan e s' lg' of (out, lg'') \<Rightarrow> (out, s', lg'')))
      else (case run_fallback rq plan err s lg of (out, lg') \<Rightarrow> (out, s, lg')))"

text \<open>The primary attempt without tool loop and caches; its success is the one recorded for billing.\<close>

definition unary_request ::
    "('p, 'r) request_env \<Rightarrow> fallback_step list \<Rightarrow> 'p gateway_server \<Rightarrow> 'r request_outcome \<times> 'p gateway_server \<times> attempt_log" where
  "unary_request rq plan s =
     (case chat_retry rq (re_model rq) s fresh_log of
        (NilRouter, lg) \<Rightarrow> (Panics, s, lg)
      | (Answer r, lg) \<Rightarrow>
          (Sent r None, s, log_meter (RecordCall (up_key_source (re_up rq) r) (up_cost (re_up rq) r)) lg)
      | (Failure e, lg) \<Rightarrow> after_primary rq plan e s lg)"

section \<open>A streaming request\<close>

definition stream_retry ::
    "('p, 'r) request_env \<Rightarrow> string \<Rightarrow> 'p gateway_server \<Rightarrow> attempt_log \<Rightarrow> unit attempt \<times> attempt_log" where
  "stream_retry rq alias s lg =
     (case HandleChatStream (re_boot rq) (re_up rq) (re_cache rq)
             (routerFor (re_boot rq) (up_now (re_up rq) (call_number lg)) (re_ctx rq) s) (call_number lg) alias of
        (chunks, res) \<Rightarrow> (res, (log_tried alias lg)\<lparr>al_chunks := al_chunks lg @ chunks\<rparr>))"

datatype stream_end = Completed | LastError gateway_error | StreamPanics

text \<open>The attempts at an alias: \<open>first\<close> holds for attempt 1.\<close>

fun stream_alias ::
    "('p, 'r) request_env \<Rightarrow> fallback_step \<Rightarrow> string \<Rightarrow> bool \<Rightarrow> nat \<Rightarrow> gateway_error option \<Rightarrow> 'p gateway_server \<Rightarrow>
       attempt_log \<Rightarrow> (stream_end + gateway_error option) \<times> 'p gateway_server \<times> attempt_log" where
  "stream_alias rq st alias first 0 lastErr s lg = (Inr lastErr, s, lg)"
| "stream_alias rq st alias first (Suc left) lastErr s lg =
     (case stream_retry rq alias s lg of
        (NilRouter, lg) \<Rightarrow> (Inl StreamPanics, s, lg)
      | (Answer _, lg) \<Rightarrow> (Inl Completed, s, lg)
      | (Failure e, lg) \<Rightarrow>
          let lg = log_retry_failed (re_keySource rq) lg in
          if first \<and> IsAuthenticationError (bo_lower (re_boot rq)) e then
            (case rotate_keys rq alias (stream_retry rq alias) (log_retry_failed (re_keySource rq)) maxKeyRotations e s lg of
               (Rotated _, s', lg') \<Rightarrow> (Inl Completed, s', lg')
             | (RotationPanics, s', lg') \<Rightarrow> (Inl StreamPanics, s', lg')
             | (Unrotated e', s', lg') \<Rightarrow> (Inr (Some e'), s', lg'))
          else if \<not> IsRetryable (bo_lower (re_boot rq)) e \<or> left = 0 then (Inr (Some e), s, lg)
          else stream_alias rq st alias False left (Some e) s (log_pause (fs_BackoffMs st) lg))"

text \<open>The two outer loops, flattened to the pairs of step and alias they meet.\<close>

fun stream_loop ::
    "('p, 'r) request_env \<Rightarrow> (fallback_step \<times> string) list \<Rightarrow> gateway_error option \<Rightarrow> 'p gateway_server \<Rightarrow>
       attempt_log \<Rightarrow> stream_end \<times> 'p gateway_server \<times> attempt_log" where
  "stream_loop rq [] lastErr s lg = ((case lastErr of Some e \<Rightarrow> LastError e | None \<Rightarrow> Completed), s, lg)"
| "stream_loop rq ((st, alias) # rest) lastErr s lg =
     (case stream_alias rq st alias True (step_attempts st) lastErr s lg of
        (Inl fin, s', lg') \<Rightarrow> (fin, s', lg')
      | (Inr lastErr', s', lg') \<Rightarrow> stream_loop rq rest lastErr' s' lg')"

definition primary_step :: "string \<Rightarrow> fallback_step" where
  "primary_step model = \<lparr>fs_Aliases = [model], fs_Strategy = ''priority'', fs_TimeoutMs = 0, fs_BackoffMs = 0,
     fs_MaxAttempts = 0, fs_Name = []\<rparr>"

definition stream_steps :: "string \<Rightarrow> fallback_step list \<Rightarrow> fallback_step list" where
  "stream_steps model plan =
     (if plan = [] then [primary_step model]
      else if \<exists>st \<in> set plan. model \<in> set (fs_Aliases st) then plan
      else primary_step model # plan)"

definition stream_request ::
    "('p, 'r) request_env \<Rightarrow> fallback_step list \<Rightarrow> 'p gateway_server \<Rightarrow> stream_end \<times> 'p gateway_server \<times> attempt_log" where
  "stream_request rq plan s =
     stream_loop rq (concat (map (\<lambda>st. map (Pair st) (fs_Aliases st)) (stream_steps (re_model rq) plan))) None s fresh_log"

end
