(* ===== verification/GatewayServing.thy ===== *)
theory GatewayServing
  imports GatewayFallback
begin

text \<open>
  What a request gets when its first attempt fails: the sequential loops and the race as relations on the
  log of the request, the rotation loop as progress through the tenant's keys.
\<close>

section \<open>The log only grows\<close>

lemmas log_defs = log_tried_def log_meter_def log_retry_failed_def log_pause_def log_success_def

definition free_call :: "meter_call \<Rightarrow> bool" where
  "free_call m = (case m of RecordCall ks usd \<Rightarrow> False | ShadowCall r ks usd \<Rightarrow> True)"

lemma free_call_simps [simp]: "free_call (ShadowCall r ks usd)" "\<not> free_call (RecordCall ks usd)"
  by (simp_all add: free_call_def)

lemma free_call_billable: "free_call m \<Longrightarrow> billable micros markup m = 0"
  by (cases m) simp_all

text \<open>\<open>lg'\<close> continues \<open>lg\<close> by the calls \<open>ts\<close>, at no charge; \<open>k\<close> successes were counted.\<close>

definition continues :: "attempt_log \<Rightarrow> string list \<Rightarrow> nat \<Rightarrow> attempt_log \<Rightarrow> bool" where
  "continues lg ts k lg' \<longleftrightarrow>
     al_tried lg' = al_tried lg @ ts \<and>
     (\<exists>ms. al_meter lg' = al_meter lg @ ms \<and> list_all free_call ms) \<and>
     al_fallbackAttempts lg' = al_fallbackAttempts lg + int k \<and>
     (\<exists>es. al_events lg' = al_events lg @ es \<and> length es = k \<and>
        (\<forall>e \<in> set es. \<exists>a b c. e = FallbackSucceededEvent a b c (al_fallbackAttempts lg + 1)))"

lemma continues_refl: "continues lg [] 0 lg"
  by (simp add: continues_def)

lemma continues_trans:
  assumes "continues lg ts 0 lg1" "continues lg1 us k lg2"
  shows "continues lg (ts @ us) k lg2"
  using assms by (auto simp: continues_def)

lemma continues_failed: "continues lg [alias] 0 (log_retry_failed ks (log_tried alias lg))"
  by (simp add: continues_def log_defs)

lemma continues_pause: "continues lg ts k (log_pause ms lg') = continues lg ts k lg'"
  by (simp add: continues_def log_pause_def)

section \<open>An outcome of the plan\<close>

definition answered :: "('p, 'r) request_env \<Rightarrow> 'p gateway_server \<Rightarrow> attempt_log \<Rightarrow> 'r \<Rightarrow> bool" where
  "answered rq s lg r \<longleftrightarrow> (\<exists>n < call_number lg. chat_call rq s n (al_tried lg ! n) = Answer r)"

text \<open>
  How a part of the plan over the steps \<open>sts\<close> ends: nothing; a response of a call it made, with the
  fallback information; stuck in a race without end; a nil router.
\<close>

definition part_ends ::
    "('p, 'r) request_env \<Rightarrow> 'p gateway_server \<Rightarrow> fallback_step set \<Rightarrow> attempt_log \<Rightarrow> 'r request_outcome option \<Rightarrow>
       attempt_log \<Rightarrow> bool" where
  "part_ends rq s sts lg out lg' \<longleftrightarrow>
     (case out of
        None \<Rightarrow> al_fallbackAttempts lg' = al_fallbackAttempts lg \<and> al_events lg' = al_events lg
      | Some (Sent r (Some info)) \<Rightarrow>
          answered rq s lg' r \<and> fi_requested info = re_requested rq \<and> fi_served info = up_model (re_up rq) r \<and>
          fi_attempts info = al_fallbackAttempts lg + 1
      | Some Hangs \<Rightarrow> \<exists>st \<in> sts. is_race st \<and> \<not> race_ends rq st
      | Some Panics \<Rightarrow> \<exists>n. routerFor (re_boot rq) (up_now (re_up rq) n) (re_ctx rq) s = None
      | _ \<Rightarrow> False)"

lemma part_ends_from:
  "al_fallbackAttempts lg1 = al_fallbackAttempts lg \<Longrightarrow> al_events lg1 = al_events lg \<Longrightarrow>
     part_ends rq s sts lg1 out lg' = part_ends rq s sts lg out lg'"
  by (simp only: part_ends_def)

lemma part_ends_after:
  "part_ends rq s sts lg None lg1 \<Longrightarrow> part_ends rq s sts lg1 out lg' = part_ends rq s sts lg out lg'"
  by (rule part_ends_from) (simp_all add: part_ends_def)

definition goes_on :: "'r request_outcome option \<Rightarrow> nat \<Rightarrow> bool" where
  "goes_on out k \<longleftrightarrow> (case out of Some (Sent r info) \<Rightarrow> k = 1 | _ \<Rightarrow> k = 0)"

lemma chat_call_nil:
  "chat_call rq s n alias = NilRouter \<Longrightarrow> routerFor (re_boot rq) (up_now (re_up rq) n) (re_ctx rq) s = None"
  by (auto simp: chat_call_def HandleChat_def resolve_maybe_def split: option.splits sum.splits)

lemma try_alias_ends:
  assumes "try_alias rq s st alias left lg = (out, lg')" "st \<in> sts"
  shows "\<exists>ts k. continues lg ts k lg' \<and> goes_on out k \<and> length ts \<le> left \<and> set ts \<subseteq> {alias} \<and>
    (0 < left \<longrightarrow> ts \<noteq> []) \<and> part_ends rq s sts lg out lg'"
  using assms(1)
proof (induction left arbitrary: lg)
  case 0
  then show ?case by (auto simp: part_ends_def goes_on_def intro!: continues_refl exI [of _ "[]"])
next
  case (Suc left)
  show ?case
  proof (cases "chat_call rq s (call_number lg) alias")
    case (Answer r)
    with Suc.prems show ?thesis
      by (intro exI [of _ "[alias]"] exI [of _ "Suc 0"])
        (auto simp: part_ends_def goes_on_def continues_def answered_def info_of_def log_defs Let_def nth_append
          intro!: exI [of _ "call_number lg"])
  next
    case (Failure e)
    let ?lg = "log_retry_failed (re_keySource rq) (log_tried alias lg)"
    show ?thesis
    proof (cases "\<not> IsRetryable (bo_lower (re_boot rq)) e \<or> left = 0")
      case True
      with Failure Suc.prems have "out = None" "lg' = ?lg" by (auto simp: Let_def)
      then show ?thesis
        using continues_failed [of lg "alias" "re_keySource rq"]
        by (intro exI [of _ "[alias]"] exI [of _ 0]) (simp add: part_ends_def goes_on_def log_defs)
    next
      case False
      let ?lg1 = "log_pause (fs_BackoffMs st) ?lg"
      from Failure False Suc.prems have "try_alias rq s st alias left ?lg1 = (out, lg')"
        by (auto simp: Let_def)
      from Suc.IH [OF this] obtain ts k where ts: "continues ?lg1 ts k lg'" "goes_on out k" "length ts \<le> left"
        "set ts \<subseteq> {alias}" "part_ends rq s sts ?lg1 out lg'" by blast
      have "continues lg [alias] 0 ?lg1" by (simp add: continues_pause continues_failed)
      from continues_trans [OF this ts(1)] have "continues lg (alias # ts) k lg'" by simp
      moreover have "al_fallbackAttempts ?lg1 = al_fallbackAttempts lg" "al_events ?lg1 = al_events lg"
        by (simp_all add: log_defs)
      then have "part_ends rq s sts lg out lg'" 
        using ts(5) part_ends_from [of ?lg1 lg rq s sts out lg'] by blast
      ultimately show ?thesis using ts by (intro exI [of _ "alias # ts"] exI [of _ k]) simp
    qed
  next
    case NilRouter
    with Suc.prems show ?thesis
      using chat_call_nil [OF NilRouter]
      by (intro exI [of _ "[alias]"] exI [of _ 0])
        (auto simp: part_ends_def goes_on_def continues_def log_defs Let_def)
  qed
qed

text \<open>The aliases a sequential step has to try.\<close>

definition eligible :: "('p, 'r) request_env \<Rightarrow> string \<Rightarrow> bool" where
  "eligible rq alias \<longleftrightarrow> alias \<noteq> [] \<and> alias \<noteq> re_model rq"

definition step_calls :: "fallback_step \<Rightarrow> nat" where
  "step_calls st = length (fs_Aliases st) * step_attempts st"

lemma step_attempts_pos: "0 < step_attempts st"
  by (auto simp: step_attempts_def)

lemma try_aliases_ends:
  assumes "try_aliases rq s st as lg = (out, lg')" "st \<in> sts"
  shows "\<exists>ts k. continues lg ts k lg' \<and> goes_on out k \<and> length ts \<le> length as * step_attempts st \<and>
    set ts \<subseteq> set as \<and> (out = None \<longrightarrow> (\<forall>alias \<in> set as. eligible rq alias \<longrightarrow> alias \<in> set ts)) \<and>
    part_ends rq s sts lg out lg'"
  using assms(1)
proof (induction as arbitrary: lg)
  case Nil
  then show ?case by (auto simp: part_ends_def goes_on_def intro!: continues_refl exI [of _ "[]"])
next
  case (Cons al as)
  show ?case
  proof (cases "eligible rq al")
    case False
    then have "try_aliases rq s st as lg = (out, lg')" using Cons.prems by (auto simp: eligible_def)
    from Cons.IH [OF this] False show ?thesis by (fastforce intro: trans_le_add2)
  next
    case True
    obtain out1 lg1 where one: "try_alias rq s st al (step_attempts st) lg = (out1, lg1)" by force
    from try_alias_ends [OF one assms(2)] step_attempts_pos [of st] obtain ts k where
      ts: "continues lg ts k lg1" "goes_on out1 k" "length ts \<le> step_attempts st" "set ts \<subseteq> {al}" "ts \<noteq> []"
        "part_ends rq s sts lg out1 lg1" by auto
    show ?thesis
    proof (cases out1)
      case (Some o1)
      with one Cons.prems True have "out = out1" "lg' = lg1" by (auto simp: eligible_def)
      with ts Some show ?thesis by (intro exI [of _ ts] exI [of _ k]) auto
    next
      case None
      with one Cons.prems True have "try_aliases rq s st as lg1 = (out, lg')" by (auto simp: eligible_def)
      from Cons.IH [OF this] obtain us m where
        us: "continues lg1 us m lg'" "goes_on out m" "length us \<le> length as * step_attempts st" "set us \<subseteq> set as"
          "out = None \<longrightarrow> (\<forall>alias \<in> set as. eligible rq alias \<longrightarrow> alias \<in> set us)" "part_ends rq s sts lg1 out lg'"
        by blast
      have k: "k = 0" using ts(2) None by (simp add: goes_on_def)
      have "part_ends rq s sts lg out lg'"
        using ts(6) us(6) part_ends_after unfolding None by blast
      moreover have "al \<in> set ts" using ts(4,5) by (cases ts) auto
      ultimately show ?thesis
        using continues_trans [OF ts(1) [unfolded k] us(1)] us ts(3,4)
        by (intro exI [of _ "ts @ us"] exI [of _ m]) auto
    qed
  qed
qed

lemma race_answers_nth:
  "i < length as \<Longrightarrow> race_answers rq s n as ! i = chat_call rq s (n + i) (as ! i)"
  "length (race_answers rq s n as) = length as"
proof (induction as arbitrary: n i)
  case (Cons a as)
  { case 1 then show ?case using Cons.IH(1) [of "i - 1" "Suc n"] by (cases i) simp_all }
  { case 2 then show ?case using Cons.IH(2) by simp }
qed simp_all

lemma answers_mem: "r \<in> set (answers as) \<longleftrightarrow> Answer r \<in> set as"
  by (induction as rule: answers.induct) auto

lemma race_served:
  assumes "r \<in> set (answers (race_answers rq s (call_number lg) as))" "al_tried lg' = al_tried lg @ as"
  shows "answered rq s lg' r"
proof -
  from assms(1) [unfolded answers_mem] obtain i where
    i: "i < length as" "race_answers rq s (call_number lg) as ! i = Answer r"
    by (auto simp: in_set_conv_nth race_answers_nth(2))
  then have "chat_call rq s (call_number lg + i) (as ! i) = Answer r" by (simp add: race_answers_nth(1))
  with i(1) assms(2) show ?thesis
    unfolding answered_def by (intro exI [of _ "call_number lg + i"]) (simp add: nth_append)
qed

lemma run_race_ends:
  assumes "run_race rq s st lg = (out, lg')" "st \<in> sts" "is_race st"
  shows "\<exists>k. continues lg (fs_Aliases st) k lg' \<and> goes_on out k \<and> part_ends rq s sts lg out lg'"
proof -
  let ?as = "race_answers rq s (call_number lg) (fs_Aliases st)"
  let ?lg = "lg\<lparr>al_tried := al_tried lg @ fs_Aliases st\<rparr>"
  have plain: "continues lg (fs_Aliases st) 0 ?lg" by (simp add: continues_def)
  have served: "\<exists>k. continues lg (fs_Aliases st) k lg' \<and> goes_on out k \<and> part_ends rq s sts lg out lg'"
    if "r \<in> set (answers ?as)"
      "lg' = log_success (re_requested rq) (up_model (re_up rq) r) (fs_Name st)
         (log_meter (ShadowCall shadowFallbackServed (up_key_source (re_up rq) r) (up_cost (re_up rq) r)) ?lg)"
      "out = Some (Sent r (Some (info_of (re_up rq) (re_requested rq) (fs_Name st) r lg')))" for r
    using that race_served [OF that(1), of lg']
    by (intro exI [of _ "Suc 0"]) (simp add: continues_def goes_on_def part_ends_def info_of_def log_defs)
  show ?thesis
  proof (cases "NilRouter \<in> set ?as")
    case True
    then obtain i where "i < length (fs_Aliases st)" "?as ! i = NilRouter"
      by (auto simp: in_set_conv_nth race_answers_nth(2))
    then have "chat_call rq s (call_number lg + i) (fs_Aliases st ! i) = NilRouter" by (simp add: race_answers_nth(1))
    from chat_call_nil [OF this] True plain assms show ?thesis
      by (intro exI [of _ 0]) (auto simp: run_race_def Let_def goes_on_def part_ends_def)
  next
    case False
    show ?thesis
    proof (cases "answers ?as")
      case Nil
      with False plain assms show ?thesis
        by (intro exI [of _ 0]) (auto simp: run_race_def Let_def goes_on_def part_ends_def split: if_splits)
    next
      case (Cons r rs)
      have mem: "(r # rs) ! (j mod length (r # rs)) \<in> set (answers ?as)" for j
        unfolding Cons by (rule nth_mem) simp
      show ?thesis
      proof (cases "up_race (re_up rq) (call_number lg)")
        case None
        show ?thesis
        proof (cases "race_ends rq st")
          case True
          with None Cons False plain assms(1) show ?thesis
            by (intro exI [of _ 0]) (auto simp: run_race_def Let_def goes_on_def part_ends_def)
        next
          case ends: False
          show ?thesis
            using assms(1) None Cons False ends by (intro served [of r]) (auto simp: run_race_def Let_def)
        qed
      next
        case (Some j)
        show ?thesis
          using assms(1) Cons False Some
          by (intro served [OF mem [of j]]) (auto simp: run_race_def Let_def)
      qed
    qed
  qed
qed

definition plan_calls :: "fallback_step list \<Rightarrow> nat" where
  "plan_calls plan = (\<Sum>st \<leftarrow> plan. step_calls st)"

definition plan_aliases :: "fallback_step list \<Rightarrow> string list" where
  "plan_aliases plan = concat (map fs_Aliases plan)"

lemma run_step_ends:
  assumes "run_step rq s st lg = (out, lg')" "st \<in> sts"
  shows "\<exists>ts k. continues lg ts k lg' \<and> goes_on out k \<and> length ts \<le> step_calls st \<and> set ts \<subseteq> set (fs_Aliases st) \<and>
    (out = None \<longrightarrow> (\<forall>alias \<in> set (fs_Aliases st). eligible rq alias \<longrightarrow> alias \<in> set ts)) \<and>
    part_ends rq s sts lg out lg'"
proof (cases "is_race st")
  case True
  have "length (fs_Aliases st) \<le> step_calls st"
    using step_attempts_pos [of st] by (simp add: step_calls_def)
  with True assms run_race_ends [of rq s st lg out lg' sts] show ?thesis by (fastforce simp: run_step_def)
next
  case False
  with assms try_aliases_ends [of rq s st "fs_Aliases st" lg out lg' sts] show ?thesis
    by (simp add: run_step_def step_calls_def)
qed

lemma run_plan_ends:
  assumes "run_plan rq s plan lg = (out, lg')" "set plan \<subseteq> sts"
  shows "\<exists>ts k. continues lg ts k lg' \<and> goes_on out k \<and> length ts \<le> plan_calls plan \<and>
    set ts \<subseteq> set (plan_aliases plan) \<and>
    (out = None \<longrightarrow> (\<forall>alias \<in> set (plan_aliases plan). eligible rq alias \<longrightarrow> alias \<in> set ts)) \<and>
    part_ends rq s sts lg out lg'"
  using assms
proof (induction plan arbitrary: lg)
  case Nil
  then show ?case
    by (auto simp: part_ends_def goes_on_def plan_aliases_def intro!: continues_refl exI [of _ "[]"])
next
  case (Cons st plan)
  obtain out1 lg1 where one: "run_step rq s st lg = (out1, lg1)" by force
  from run_step_ends [OF one, of sts] Cons.prems(2) obtain ts k where
    ts: "continues lg ts k lg1" "goes_on out1 k" "length ts \<le> step_calls st" "set ts \<subseteq> set (fs_Aliases st)"
      "out1 = None \<longrightarrow> (\<forall>alias \<in> set (fs_Aliases st). eligible rq alias \<longrightarrow> alias \<in> set ts)"
      "part_ends rq s sts lg out1 lg1" by auto
  show ?case
  proof (cases out1)
    case (Some o1)
    with one Cons.prems have "out = out1" "lg' = lg1" by auto
    with ts Some show ?thesis
      by (intro exI [of _ ts] exI [of _ k]) (auto simp: plan_calls_def plan_aliases_def)
  next
    case None
    with one Cons.prems have "run_plan rq s plan lg1 = (out, lg')" by simp
    from Cons.IH [OF this] Cons.prems(2) obtain us m where
      us: "continues lg1 us m lg'" "goes_on out m" "length us \<le> plan_calls plan" "set us \<subseteq> set (plan_aliases plan)"
        "out = None \<longrightarrow> (\<forall>alias \<in> set (plan_aliases plan). eligible rq alias \<longrightarrow> alias \<in> set us)"
        "part_ends rq s sts lg1 out lg'" by auto
    have k: "k = 0" using ts(2) None by (simp add: goes_on_def)
    have "part_ends rq s sts lg out lg'" using ts(6) us(6) part_ends_after unfolding None by blast
    with continues_trans [OF ts(1) [unfolded k] us(1)] us ts None show ?thesis
      by (intro exI [of _ "ts @ us"] exI [of _ m]) (auto simp: plan_calls_def plan_aliases_def)
  qed
qed

section \<open>Rotation spends keys\<close>

lemma installBundle_failedKeys [simp]: "gs_failedKeys (installBundle env now key b s) = gs_failedKeys s"
  by (simp add: installBundle_def bundle_store_def Let_def)

lemma attemptKeyRotation_progress:
  "attemptKeyRotation env now db c cache model s = (Some keyID, s1) \<Longrightarrow>
     gs_failedKeys s1 = gs_failedKeys s \<and> keyID \<notin> gs_failedKeys s \<and>
     (\<exists>cid keys k. db_keys db cid = Some keys \<and> k \<in> set keys \<and> pk_IsActive k \<and> pk_ID k = keyID)"
  "attemptKeyRotation env now db c cache model s = (None, s1) \<Longrightarrow> s1 = s"
proof -
  have first: "k \<in> set keys \<and> pk_IsActive k \<and> pk_ID k \<notin> gs_failedKeys s"
    if "rotation_keys keys s = k # ks" for keys k ks
  proof -
    have "k \<in> set (rotation_keys keys s)" using that by simp
    then show ?thesis by (simp add: rotation_keys_def isKeyFailed_def)
  qed
  show "attemptKeyRotation env now db c cache model s = (Some keyID, s1) \<Longrightarrow>
     gs_failedKeys s1 = gs_failedKeys s \<and> keyID \<notin> gs_failedKeys s \<and>
     (\<exists>cid keys k. db_keys db cid = Some keys \<and> k \<in> set keys \<and> pk_IsActive k \<and> pk_ID k = keyID)"
    by (auto simp: attemptKeyRotation_def dest!: first split: option.splits sum.splits list.splits) blast
  show "attemptKeyRotation env now db c cache model s = (None, s1) \<Longrightarrow> s1 = s"
    by (auto simp: attemptKeyRotation_def split: option.splits sum.splits list.splits)
qed

text \<open>
  \<open>ids\<close> are the keys a rotation loop answers with: new ones each time, all marked in the end except the
  one that worked.
\<close>

definition spends ::
    "string set \<Rightarrow> string list \<Rightarrow> 'a rotation_end \<Rightarrow> 'p gateway_server \<Rightarrow> 'p gateway_server \<Rightarrow> bool" where
  "spends K ids fin s s' \<longleftrightarrow>
     distinct ids \<and> set ids \<subseteq> K - gs_failedKeys s \<and>
     (case fin of
        Rotated r \<Rightarrow> ids \<noteq> [] \<and> gs_failedKeys s' = gs_failedKeys s \<union> set (butlast ids)
      | _ \<Rightarrow> gs_failedKeys s' = gs_failedKeys s \<union> set ids)"

lemma spends_more:
  assumes "keyID \<in> K - gs_failedKeys s" "gs_failedKeys s2 = insert keyID (gs_failedKeys s)" "spends K ids fin s2 s'"
  shows "spends K (keyID # ids) fin s s'"
  using assms by (cases fin) (auto simp: spends_def)

lemma rotate_keys_progress:
  assumes call: "\<And>s lg res lg'. call s lg = (res, lg') \<Longrightarrow> al_tried lg' = al_tried lg @ [al]"
    and quiet: "\<And>lg. al_tried (note lg) = al_tried lg"
    and keys: "\<And>n cid ks k. db_keys (up_db (re_up rq) n) cid = Some ks \<Longrightarrow> k \<in> set ks \<Longrightarrow> pk_ID k \<in> K \<and> pk_ID k \<noteq> []"
    and run: "rotate_keys rq al call note k err s lg = (fin, s', lg')"
  shows "\<exists>ids. length ids \<le> k \<and> al_tried lg' = al_tried lg @ replicate (length ids) al \<and> spends K ids fin s s'"
  using run
proof (induction k arbitrary: err s lg)
  case 0
  then show ?case by (auto simp: spends_def intro!: exI [of _ "[]"])
next
  case (Suc k)
  obtain r s1 where rot: "attemptKeyRotation (re_boot rq) (up_now (re_up rq) (call_number lg))
      (up_db (re_up rq) (call_number lg)) (re_ctx rq) (re_cache rq) al s = (r, s1)" by force
  show ?case
  proof (cases r)
    case None
    with rot Suc.prems attemptKeyRotation_progress(2) [OF rot [unfolded None]] show ?thesis
      by (intro exI [of _ "[]"]) (auto simp: spends_def)
  next
    case (Some keyID)
    from attemptKeyRotation_progress(1) [OF rot [unfolded Some]] keys
    have id: "keyID \<in> K - gs_failedKeys s" "keyID \<noteq> []" "gs_failedKeys s1 = gs_failedKeys s" by auto
    let ?s2 = "markFailedKey keyID s1"
    have marked: "gs_failedKeys ?s2 = insert keyID (gs_failedKeys s)" using id by (simp add: markFailedKey_def)
    obtain res lg1 where call1: "call ?s2 lg = (res, lg1)" by force
    note tried = call [OF call1]
    show ?thesis
    proof (cases "\<exists>e. res = Failure e \<and> IsAuthenticationError (bo_lower (re_boot rq)) e")
      case True
      then obtain e where "res = Failure e" "IsAuthenticationError (bo_lower (re_boot rq)) e" by blast
      with Suc.prems rot Some call1 id(2) have "rotate_keys rq al call note k e ?s2 (note lg1) = (fin, s', lg')" by simp
      from Suc.IH [OF this] obtain ids where ids: "length ids \<le> k"
        "al_tried lg' = al_tried (note lg1) @ replicate (length ids) al" "spends K ids fin ?s2 s'" by blast
      with tried quiet spends_more [OF id(1) marked ids(3)] show ?thesis
        by (intro exI [of _ "keyID # ids"]) simp
    next
      case False
      with Suc.prems rot Some call1 id tried marked show ?thesis
        by (intro exI [of _ "[keyID]"]) (cases res; auto simp: spends_def clearFailedKey_def)
    qed
  qed
qed

lemma chat_retry_tried: "chat_retry rq al s lg = (res, lg') \<Longrightarrow> al_tried lg' = al_tried lg @ [al]"
  by (auto simp: chat_retry_def log_defs)

text \<open>The unary loop leaves nothing but the calls.\<close>

lemma rotate_chat_log:
  assumes "rotate_keys rq al (chat_retry rq al) (\<lambda>lg. lg) k err s lg = (fin, s', lg')"
  shows "\<exists>m \<le> k. continues lg (replicate m al) 0 lg' \<and> al_meter lg' = al_meter lg \<and> al_events lg' = al_events lg \<and>
    (case fin of
       Rotated r \<Rightarrow> \<exists>s1. answered rq s1 lg' r
     | RotationPanics \<Rightarrow> \<exists>n s1. routerFor (re_boot rq) (up_now (re_up rq) n) (re_ctx rq) s1 = None
     | _ \<Rightarrow> True)"
  using assms
proof (induction k arbitrary: err s lg)
  case 0
  then show ?case by (auto simp: continues_refl)
next
  case (Suc k)
  obtain r s1 where rot: "attemptKeyRotation (re_boot rq) (up_now (re_up rq) (call_number lg))
      (up_db (re_up rq) (call_number lg)) (re_ctx rq) (re_cache rq) al s = (r, s1)" by force
  show ?case
  proof (cases r)
    case None
    with rot Suc.prems show ?thesis by (intro exI [of _ 0]) (auto simp: continues_refl)
  next
    case (Some keyID)
    let ?s2 = "if keyID \<noteq> [] then markFailedKey keyID s1 else s1"
    let ?lg1 = "log_tried al lg"
    have lg1: "continues lg [al] 0 ?lg1" "al_meter ?lg1 = al_meter lg" "al_events ?lg1 = al_events lg"
      by (simp_all add: continues_def log_defs)
    show ?thesis
    proof (cases "chat_call rq ?s2 (call_number lg) al")
      case (Answer x)
      then have "answered rq ?s2 ?lg1 x"
        unfolding answered_def by (intro exI [of _ "call_number lg"]) (simp add: log_defs)
      then have ans: "\<exists>s1. answered rq s1 ?lg1 x" by blast
      from Answer Suc.prems rot Some have "fin = Rotated x" "lg' = ?lg1"
        by (auto simp: chat_retry_def split: if_splits)
      with lg1 ans show ?thesis by (intro exI [of _ "Suc 0"]) simp
    next
      case NilRouter
      from chat_call_nil [OF this] Suc.prems rot Some NilRouter lg1 show ?thesis
        by (intro exI [of _ "Suc 0"]) (auto simp: chat_retry_def split: if_splits)
    next
      case (Failure e)
      show ?thesis
      proof (cases "IsAuthenticationError (bo_lower (re_boot rq)) e")
        case False
        with Failure Suc.prems rot Some have "fin = Unrotated e" "lg' = ?lg1"
          by (auto simp: chat_retry_def split: if_splits)
        with lg1 show ?thesis by (intro exI [of _ "Suc 0"]) simp
      next
        case True
        have "chat_retry rq al ?s2 lg = (Failure e, ?lg1)" using Failure by (simp add: chat_retry_def)
        with True Suc.prems rot Some
        have "rotate_keys rq al (chat_retry rq al) (\<lambda>lg. lg) k e ?s2 ?lg1 = (fin, s', lg')"
          by (auto split: if_splits)
        from Suc.IH [OF this] obtain m where m: "m \<le> k" "continues ?lg1 (replicate m al) 0 lg'"
          "al_meter lg' = al_meter ?lg1" "al_events lg' = al_events ?lg1"
          "case fin of Rotated r \<Rightarrow> \<exists>s1. answered rq s1 lg' r
           | RotationPanics \<Rightarrow> \<exists>n s1. routerFor (re_boot rq) (up_now (re_up rq) n) (re_ctx rq) s1 = None
           | _ \<Rightarrow> True" by blast
        from continues_trans [OF lg1(1) m(2)] m lg1 show ?thesis by (intro exI [of _ "Suc m"]) simp
      qed
    qed
  qed
qed

section \<open>A stream is its attempts\<close>

definition stream_call :: "('p, 'r) request_env \<Rightarrow> 'p gateway_server \<Rightarrow> nat \<Rightarrow> string \<Rightarrow> string list \<times> unit attempt" where
  "stream_call rq s n al =
     HandleChatStream (re_boot rq) (re_up rq) (re_cache rq)
       (routerFor (re_boot rq) (up_now (re_up rq) n) (re_ctx rq) s) n al"

text \<open>\<open>rs\<close> are the chunks and ends of the calls so far, each at some state of the server.\<close>

definition history :: "('p, 'r) request_env \<Rightarrow> attempt_log \<Rightarrow> (string list \<times> unit attempt) list \<Rightarrow> bool" where
  "history rq lg rs \<longleftrightarrow>
     length rs = call_number lg \<and> al_chunks lg = concat (map fst rs) \<and>
     (\<forall>n < length rs. \<exists>s1. rs ! n = stream_call rq s1 n (al_tried lg ! n))"

lemma history_same:
  "al_tried lg' = al_tried lg \<Longrightarrow> al_chunks lg' = al_chunks lg \<Longrightarrow> history rq lg' rs = history rq lg rs"
  by (simp only: history_def)

lemma history_notes [simp]:
  "history rq (log_retry_failed ks lg) rs = history rq lg rs"
  "history rq (log_pause ms lg) rs = history rq lg rs"
  by (rule history_same; simp add: log_defs)+

lemma history_retry:
  assumes "history rq lg rs" "stream_retry rq al s lg = (res, lg')"
  shows "\<exists>chunks. history rq lg' (rs @ [(chunks, res)])"
proof -
  obtain chunks res' where c: "stream_call rq s (call_number lg) al = (chunks, res')" by force
  with assms(2) have "res' = res" "lg' = (log_tried al lg)\<lparr>al_chunks := al_chunks lg @ chunks\<rparr>"
    by (auto simp: stream_retry_def stream_call_def)
  with assms(1) c have "history rq lg' (rs @ [(chunks, res)])"
    unfolding history_def by (auto simp: log_defs nth_append less_Suc_eq intro!: exI [of _ s])
  then show ?thesis ..
qed

text \<open>A row of calls: all fail but the last, which is as given; an error handed on is the last call's.\<close>

definition call_failed :: "string list \<times> unit attempt \<Rightarrow> bool" where
  "call_failed x \<longleftrightarrow> (case snd x of Failure e \<Rightarrow> True | _ \<Rightarrow> False)"

definition row_ends ::
    "stream_end + gateway_error option \<Rightarrow> gateway_error option \<Rightarrow> (string list \<times> unit attempt) list \<Rightarrow> bool" where
  "row_ends out lastErr new \<longleftrightarrow>
     list_all call_failed (butlast new) \<and>
     (case out of
        Inl Completed \<Rightarrow> new \<noteq> [] \<and> snd (last new) = Answer ()
      | Inl StreamPanics \<Rightarrow> new \<noteq> [] \<and> snd (last new) = NilRouter
      | Inl (LastError e) \<Rightarrow> False
      | Inr le \<Rightarrow> if new = [] then le = lastErr else (\<exists>e. snd (last new) = Failure e \<and> le = Some e))"

lemma row_ends_one [simp]:
  "row_ends (Inl Completed) le [x] = (snd x = Answer ())"
  "row_ends (Inl StreamPanics) le [x] = (snd x = NilRouter)"
  "row_ends (Inr le') le [x] = (\<exists>e. snd x = Failure e \<and> le' = Some e)"
  by (simp_all add: row_ends_def)

lemma row_ends_more:
  assumes "row_ends (Inr le1) le new1" "row_ends out le1 new2"
  shows "row_ends out le (new1 @ new2)"
proof (cases "new2 = []")
  case True
  with assms show ?thesis by (cases out) (auto simp: row_ends_def split: if_splits stream_end.splits)
next
  case False
  have "list_all call_failed new1"
    using assms(1) by (cases new1 rule: rev_cases) (auto simp: row_ends_def call_failed_def)
  with assms(2) False show ?thesis
    by (cases out) (auto simp: row_ends_def butlast_append split: stream_end.splits)
qed

definition rotation_out :: "unit rotation_end \<Rightarrow> stream_end + gateway_error option" where
  "rotation_out fin = (case fin of Rotated _ \<Rightarrow> Inl Completed | RotationPanics \<Rightarrow> Inl StreamPanics | Unrotated e \<Rightarrow> Inr (Some e))"

lemma stream_rotation_row:
  assumes "rotate_keys rq al (stream_retry rq al) (log_retry_failed ks) k err s lg = (fin, s', lg')" "history rq lg rs"
  shows "\<exists>new. history rq lg' (rs @ new) \<and> length new \<le> k \<and> row_ends (rotation_out fin) (Some err) new"
  using assms
proof (induction k arbitrary: err s lg rs)
  case 0
  then show ?case by (intro exI [of _ "[]"]) (auto simp: rotation_out_def row_ends_def)
next
  case (Suc k)
  obtain r s1 where rot: "attemptKeyRotation (re_boot rq) (up_now (re_up rq) (call_number lg))
      (up_db (re_up rq) (call_number lg)) (re_ctx rq) (re_cache rq) al s = (r, s1)" by force
  show ?case
  proof (cases r)
    case None
    with rot Suc.prems show ?thesis by (intro exI [of _ "[]"]) (auto simp: rotation_out_def row_ends_def)
  next
    case (Some keyID)
    let ?s2 = "if keyID \<noteq> [] then markFailedKey keyID s1 else s1"
    obtain res lg1 where call: "stream_retry rq al ?s2 lg = (res, lg1)" by force
    from history_retry [OF Suc.prems(2) call] obtain chunks where h: "history rq lg1 (rs @ [(chunks, res)])" ..
    show ?thesis
    proof (cases "\<exists>e. res = Failure e \<and> IsAuthenticationError (bo_lower (re_boot rq)) e")
      case False
      with Suc.prems(1) rot Some call have "lg' = lg1" "row_ends (rotation_out fin) (Some err) [(chunks, res)]"
        by (cases res; auto simp: rotation_out_def split: if_splits)+
      with h show ?thesis by (intro exI [of _ "[(chunks, res)]"]) simp
    next
      case True
      then obtain e where e: "res = Failure e" "IsAuthenticationError (bo_lower (re_boot rq)) e" by blast
      with Suc.prems(1) rot Some call
      have "rotate_keys rq al (stream_retry rq al) (log_retry_failed ks) k e ?s2 (log_retry_failed ks lg1) = (fin, s', lg')"
        by (auto split: if_splits)
      moreover have "history rq (log_retry_failed ks lg1) (rs @ [(chunks, res)])" using h by simp
      ultimately obtain new where
        new: "history rq lg' ((rs @ [(chunks, res)]) @ new)" "length new \<le> k" "row_ends (rotation_out fin) (Some e) new"
        using Suc.IH by blast
      have "row_ends (Inr (Some e)) (Some err) [(chunks, res)]" by (simp add: e)
      from row_ends_more [OF this new(3)] new show ?thesis by (intro exI [of _ "(chunks, res) # new"]) simp
    qed
  qed
qed

lemma stream_alias_row:
  assumes "stream_alias rq st al first left lastErr s lg = (out, s', lg')" "history rq lg rs"
  shows "\<exists>new. history rq lg' (rs @ new) \<and> length new \<le> left + maxKeyRotations \<and> row_ends out lastErr new \<and>
    (0 < left \<longrightarrow> new \<noteq> [])"
  using assms
proof (induction left arbitrary: first lastErr s lg rs)
  case 0
  then show ?case by (intro exI [of _ "[]"]) (auto simp: row_ends_def)
next
  case (Suc left)
  obtain res lg1 where call: "stream_retry rq al s lg = (res, lg1)" by force
  from history_retry [OF Suc.prems(2) call] obtain chunks where h: "history rq lg1 (rs @ [(chunks, res)])" ..
  let ?lg2 = "log_retry_failed (re_keySource rq) lg1"
  show ?case
  proof (cases res)
    case (Failure e)
    have one: "row_ends (Inr (Some e)) lastErr [(chunks, res)]" by (simp add: Failure)
    consider (rotate) "first" "IsAuthenticationError (bo_lower (re_boot rq)) e"
      | (stop) "\<not> (first \<and> IsAuthenticationError (bo_lower (re_boot rq)) e)"
          "\<not> IsRetryable (bo_lower (re_boot rq)) e \<or> left = 0"
      | (again) "\<not> (first \<and> IsAuthenticationError (bo_lower (re_boot rq)) e)"
          "IsRetryable (bo_lower (re_boot rq)) e" "left \<noteq> 0" by blast
    then show ?thesis
    proof cases
      case rotate
      obtain fin s2 lg2 where r: "rotate_keys rq al (stream_retry rq al) (log_retry_failed (re_keySource rq))
          maxKeyRotations e s ?lg2 = (fin, s2, lg2)" by (metis prod_cases3)
      have "history rq ?lg2 (rs @ [(chunks, res)])" using h by simp
      from stream_rotation_row [OF r this] obtain new where
        new: "history rq lg2 ((rs @ [(chunks, res)]) @ new)" "length new \<le> maxKeyRotations"
          "row_ends (rotation_out fin) (Some e) new" by blast
      have "lg' = lg2" "out = rotation_out fin"
        using Suc.prems(1) call Failure rotate r
        by (cases fin; auto simp: rotation_out_def Let_def)+
      with row_ends_more [OF one new(3)] new show ?thesis
        by (intro exI [of _ "(chunks, res) # new"]) simp
    next
      case stop
      with Suc.prems(1) call Failure have "lg' = ?lg2" "out = Inr (Some e)" by (auto simp: Let_def split: if_splits)
      with h one show ?thesis by (intro exI [of _ "[(chunks, res)]"]) simp
    next
      case again
      with Suc.prems(1) call Failure
      have "stream_alias rq st al False left (Some e) s (log_pause (fs_BackoffMs st) ?lg2) = (out, s', lg')"
        by (auto simp: Let_def split: if_splits)
      moreover have "history rq (log_pause (fs_BackoffMs st) ?lg2) (rs @ [(chunks, res)])" using h by simp
      ultimately obtain new where
        new: "history rq lg' ((rs @ [(chunks, res)]) @ new)" "length new \<le> left + maxKeyRotations"
          "row_ends out (Some e) new" using Suc.IH by blast
      from row_ends_more [OF one new(3)] new show ?thesis by (intro exI [of _ "(chunks, res) # new"]) simp
    qed
  next
    case (Answer u)
    with Suc.prems(1) call h show ?thesis by (intro exI [of _ "[(chunks, res)]"]) auto
  next
    case NilRouter
    with Suc.prems(1) call h show ?thesis by (intro exI [of _ "[(chunks, res)]"]) auto
  qed
qed

lemma stream_loop_row:
  assumes "stream_loop rq xs lastErr s lg = (fin, s', lg')" "history rq lg rs"
  shows "\<exists>new out. history rq lg' (rs @ new) \<and> length new \<le> (\<Sum>x \<leftarrow> xs. step_attempts (fst x) + maxKeyRotations) \<and>
    row_ends out lastErr new \<and> (xs \<noteq> [] \<longrightarrow> new \<noteq> []) \<and>
    fin = (case out of Inl f \<Rightarrow> f | Inr None \<Rightarrow> Completed | Inr (Some e) \<Rightarrow> LastError e)"
  using assms
proof (induction xs arbitrary: lastErr s lg rs)
  case Nil
  then show ?case
    by (intro exI [of _ "[]"] exI [of _ "Inr lastErr"]) (auto simp: row_ends_def split: option.splits)
next
  case (Cons x xs)
  obtain st al where x: "x = (st, al)" by (cases x)
  obtain out1 s1 lg1 where one: "stream_alias rq st al True (step_attempts st) lastErr s lg = (out1, s1, lg1)"
    by (metis prod_cases3)
  from stream_alias_row [OF one Cons.prems(2)] step_attempts_pos [of st] obtain new where
    new: "history rq lg1 (rs @ new)" "length new \<le> step_attempts st + maxKeyRotations" "row_ends out1 lastErr new"
      "new \<noteq> []" by blast
  show ?case
  proof (cases out1)
    case (Inl f)
    with one Cons.prems(1) have "lg' = lg1" "fin = f" by (auto simp: x)
    with new Inl show ?thesis by (intro exI [of _ new] exI [of _ out1]) (simp add: x)
  next
    case (Inr le)
    with one Cons.prems(1) have "stream_loop rq xs le s1 lg1 = (fin, s', lg')" by (simp add: x)
    from Cons.IH [OF this new(1)] obtain more out where
      more: "history rq lg' ((rs @ new) @ more)" "length more \<le> (\<Sum>x \<leftarrow> xs. step_attempts (fst x) + maxKeyRotations)"
        "row_ends out le more" "fin = (case out of Inl f \<Rightarrow> f | Inr None \<Rightarrow> Completed | Inr (Some e) \<Rightarrow> LastError e)"
      by blast
    from row_ends_more [OF new(3) [unfolded Inr] more(3)] more new show ?thesis
      by (intro exI [of _ "new @ more"] exI [of _ out]) (simp add: x)
  qed
qed

end
