(* ===== verification/GatewayOutcomes.thy ===== *)
theory GatewayOutcomes
  imports GatewayIsolation GatewayServing
begin

text \<open>
  What the gateway promises once it calls providers: a request reaches its own tenant's keys only, ends with
  the answer of an upstream call or after the whole plan, rotation goes through the tenant's keys once, and
  a stream is the row of its attempts. Concrete runs at the end of each part show where the code
  falls short of its comments.
\<close>

section \<open>Tenants\<close>

text \<open>
  C28: Tenants keep their keys. In shared mode, however loads, refreshes, rotations and invalidations of many
  tenants interleave over a changing database, if every request carries a tenant id and no two tenants share a
  cache key, then the bundle that serves a request holds only providers built from keys and credentials of the
  request's tenant, and so does the provider its router finds for any model without the process-wide route cache.
\<close>

theorem tenants_keep_their_keys:
  assumes "gateway_run env owns C s" "well_scoped C" "bo_shared env" "\<And>xs. set (bo_shuffle env xs) \<subseteq> set xs"
    and "c \<in> C" "providersFor env now c s = Some b"
  shows "(\<forall>x \<in> set (tb_reg b). made_for env owns (gx_tenant c) (snd x)) \<and>
    (\<forall>model p route. fst (ResolveWithContext (bo_lower env) (bo_supports env) (tb_router b) model None) = Inr (p, route) \<longrightarrow>
       made_for env owns (gx_tenant c) p)"
proof -
  have of: "bundle_of env owns (gx_tenant c) b"
    using providersFor_separate [OF gateway_run_separate [OF assms(1-4)] assms(5,3,6)] .
  have reg: "p \<in> snd ` set (tb_reg b)"
    if "fst (ResolveWithContext (bo_lower env) (bo_supports env) (tb_router b) model None) = Inr (p, route)" for model p route
  proof -
    have found: "q \<in> snd ` set reg" if "Get_provider reg n = Some q" for reg :: "'a registry" and n q
      using map_of_SomeD [OF that [unfolded Get_provider_def]] by (rule snd_mem)
    have "p \<in> snd ` set (ro_registry (tb_router b))"
      using that
      by (auto simp: ResolveWithContext_def resolve_bare_def lookupProvider_def after_cache_def custom_stage_def
          route_stage_def mapping_stage_def catalog_stage_def split: if_splits option.splits sum.splits prod.splits
          dest: found find_mem intro: snd_mem)
    with of show ?thesis by (simp add: bundle_of_def)
  qed
  show ?thesis using of reg by (fastforce simp: bundle_of_def)
qed

text \<open>A gateway with two tenants; a provider is its secret.\<close>

definition demo_boot :: "string boot_env" where
  "demo_boot = \<lparr>bo_lower = (\<lambda>s. s), bo_equal_fold = (=), bo_shared = True, bo_allowed = None,
     bo_factory = (\<lambda>name. if name = ''openai''
       then Some (\<lambda>inp. Some (case ai_APIKeys inp of [] \<Rightarrow> ai_APIKey inp | k # ks \<Rightarrow> pk_KeyEncrypted k)) else None),
     bo_name = (\<lambda>p. ''openai''), bo_supports = (\<lambda>p m. m = ''gpt-4''), bo_parse_float = (\<lambda>s. None),
     bo_unmarshal = (\<lambda>s. None), bo_order = (\<lambda>m. []), bo_shuffle = (\<lambda>xs. xs)\<rparr>"

definition demo_gw_config :: "string \<Rightarrow> string \<Rightarrow> provider_configuration" where
  "demo_gw_config cid org = \<lparr>pc_ID = cid, pc_OrganizationID = Some org, pc_ProviderName = ''openai'',
     pc_APIKeyEncrypted = [], pc_CustomBaseURL = None, pc_CustomSettings = [], pc_IsActive = True,
     pc_EnabledModels = [''gpt-4'']\<rparr>"

definition demo_key :: "string \<Rightarrow> provider_api_key" where
  "demo_key k = \<lparr>pk_ID = k, pk_KeyEncrypted = CHR ''s'' # k, pk_Weight = 1, pk_IsActive = True\<rparr>"

definition demo_gateway_db :: provider_db where
  "demo_gateway_db = \<lparr>db_configs = Some [demo_gw_config ''c1'' ''acme'', demo_gw_config ''c2'' ''rival''],
     db_keys = (\<lambda>cid. Some (if cid = ''c1'' then [demo_key ''a1'', demo_key ''a2''] else [demo_key ''r1'']))\<rparr>"

definition demo_gw_request :: "string \<Rightarrow> string \<Rightarrow> gateway_ctx" where
  "demo_gw_request schema tenant = \<lparr>gx_schema = schema, gx_tenant = tenant, gx_sticky = [], gx_correlation = ''chat_1''\<rparr>"

definition demo_server :: "string gateway_server" where
  "demo_server = \<lparr>gs_default = None, gs_bundles = Map.empty, gs_failedKeys = {}\<rparr>"

definition demo_owns :: "string \<Rightarrow> string \<Rightarrow> bool" where
  "demo_owns secret org \<longleftrightarrow> (if org = ''acme'' then secret \<in> {''sa1'', ''sa2''} else secret = ''sr1'')"

definition demo_loaded :: "string gateway_server" where
  "demo_loaded = snd (EnsureProvidersForRequest demo_boot 0 demo_gateway_db (demo_gw_request [] ''acme'') demo_server)"

theorem tenants_keep_their_keys_witness:
  "\<exists>b. providersFor demo_boot 1 (demo_gw_request [] ''acme'') demo_loaded = Some b \<and> tb_reg b = [(''openai'', ''sa1'')] \<and>
    made_for demo_boot demo_owns ''acme'' ''sa1''"
proof -
  let ?C = "{demo_gw_request [] ''acme'', demo_gw_request [] ''rival''}"
  have run: "gateway_run demo_boot demo_owns ?C demo_loaded"
    unfolding demo_loaded_def
    by (rule gateway_run.ensure, rule gateway_run.boot)
      (auto simp: demo_server_def db_owned_def demo_gateway_db_def demo_gw_config_def demo_key_def demo_owns_def)
  have scoped: "well_scoped ?C" by (auto simp: well_scoped_def demo_gw_request_def tenantKeyFromContext_def)
  have reg: "map_option tb_reg (providersFor demo_boot 1 (demo_gw_request [] ''acme'') demo_loaded) = Some [(''openai'', ''sa1'')]"
    by code_simp
  then obtain b where b: "providersFor demo_boot 1 (demo_gw_request [] ''acme'') demo_loaded = Some b" "tb_reg b = [(''openai'', ''sa1'')]"
    by auto
  have "\<forall>x \<in> set (tb_reg b). made_for demo_boot demo_owns (gx_tenant (demo_gw_request [] ''acme'')) (snd x)"
    using tenants_keep_their_keys [OF run scoped _ _ _ b(1)] by (simp add: demo_boot_def)
  with b show ?thesis by (auto simp: demo_gw_request_def)
qed

text \<open>
  The hypothesis on tenant ids matters: a request with a schema and no tenant id is cached under its schema
  with every tenant's rows, here the other tenant's key.
\<close>

lemma schema_without_tenant_leaks:
  "map_option tb_reg (providersFor demo_boot 1 (demo_gw_request ''acme_schema'' [])
     (snd (EnsureProvidersForRequest demo_boot 0 demo_gateway_db (demo_gw_request ''acme_schema'' []) demo_server))) =
   Some [(''openai'', ''sr1'')]"
  by code_simp

text \<open>A bundle is not stable for the life of a request: sixteen seconds after its load there is none.\<close>

lemma bundle_expires_mid_request:
  "routerFor demo_boot (16 * 1000000000) (demo_gw_request [] ''acme'') demo_loaded = None"
proof -
  have "map_option tb_reg (providersFor demo_boot (16 * 1000000000) (demo_gw_request [] ''acme'') demo_loaded) = None"
    by code_simp
  then show ?thesis by (simp add: routerFor_def)
qed

text \<open>A rotation drops the routes and mappings of the other providers and every explicit route.\<close>

lemma rotation_forgets_routes:
  "ro_modelRoutes (tb_router (rotated_bundle env cfg newp current)) = Map.empty \<and>
   ro_customResolver (tb_router (rotated_bundle env cfg newp current)) = None"
  by (simp add: rotated_bundle_def NewRouter_def Let_def)

section \<open>Failover\<close>

lemma run_fallback_ends:
  assumes "run_fallback rq plan err s lg = (out, lg')" "al_fallbackAttempts lg = 0"
  shows "\<exists>ts. al_tried lg' = al_tried lg @ ts \<and> length ts \<le> plan_calls plan \<and>
    (\<exists>ms. al_meter lg' = al_meter lg @ ms \<and> list_all free_call ms) \<and>
    (\<forall>e \<in> set (al_events lg'). e \<in> set (al_events lg) \<or> (\<exists>a b c. e = FallbackSucceededEvent a b c 1)) \<and>
    (case out of
       Sent r info \<Rightarrow> answered rq s lg' r \<and>
         (\<exists>i. info = Some i \<and> fi_requested i = re_requested rq \<and> fi_served i = up_model (re_up rq) r \<and> fi_attempts i = 1)
     | ReturnedError e \<Rightarrow> e = err \<and> (\<forall>al \<in> set (plan_aliases plan). eligible rq al \<longrightarrow> al \<in> set ts)
     | NotFoundError e \<Rightarrow> False
     | Hangs \<Rightarrow> \<exists>st \<in> set plan. is_race st \<and> \<not> race_ends rq st
     | Panics \<Rightarrow> \<exists>n. routerFor (re_boot rq) (up_now (re_up rq) n) (re_ctx rq) s = None)"
proof -
  obtain o1 lg1 where run: "run_plan rq s plan lg = (o1, lg1)" by force
  from run_plan_ends [OF run subset_refl] obtain ts k where
    p: "continues lg ts k lg1" "goes_on o1 k" "length ts \<le> plan_calls plan"
      "o1 = None \<longrightarrow> (\<forall>al \<in> set (plan_aliases plan). eligible rq al \<longrightarrow> al \<in> set ts)"
      "part_ends rq s (set plan) lg o1 lg1" by blast
  have events: "\<forall>e \<in> set (al_events lg1). e \<in> set (al_events lg) \<or> (\<exists>a b c. e = FallbackSucceededEvent a b c 1)"
    using p(1) assms(2) by (auto simp: continues_def) blast
  show ?thesis
  proof (cases o1)
    case None
    then have "al_fallbackAttempts lg1 = 0" using p(5) assms(2) by (simp add: part_ends_def)
    with assms(1) run None have "out = ReturnedError err" "lg' = lg1" by (auto simp: run_fallback_def)
    with p events None show ?thesis by (intro exI [of _ ts]) (auto simp: continues_def)
  next
    case (Some o2)
    with assms(1) run have "out = o2" "lg' = lg1" by (auto simp: run_fallback_def)
    with p events Some assms(2) show ?thesis
      by (intro exI [of _ ts]) (auto simp: continues_def part_ends_def split: request_outcome.splits option.splits)
  qed
qed


text \<open>
  A gateway whose first key is refused: the primary call and the first rotation use it, the second
  rotation the other key.
\<close>

definition refusal :: gateway_error where
  "refusal = \<lparr>ge_msg = ''401 invalid api key'', ge_class = MfOther, ge_ctx_done = False, ge_model_not_found = False,
     ge_not_implemented = False\<rparr>"

definition outage :: gateway_error where
  "outage = \<lparr>ge_msg = ''overloaded'', ge_class = MfOther, ge_ctx_done = False, ge_model_not_found = False,
     ge_not_implemented = False\<rparr>"

definition demo_upstream :: "(nat \<Rightarrow> string \<Rightarrow> string \<Rightarrow> gateway_error + string) \<Rightarrow> (string, string) upstream" where
  "demo_upstream chat = \<lparr>up_chat = chat, up_stream = (\<lambda>n p m. ([], None)), up_now = (\<lambda>n. int n),
     up_db = (\<lambda>n. demo_gateway_db), up_race = (\<lambda>n. None), up_ctx_ends = False, up_model = (\<lambda>r. ''gpt-4''),
     up_key_source = (\<lambda>r. ''config''), up_cost = (\<lambda>r. 1), up_total_tokens = (\<lambda>r. 7)\<rparr>"

definition demo_rq :: "(string, string) upstream \<Rightarrow> (string, string) request_env" where
  "demo_rq up = \<lparr>re_boot = demo_boot, re_up = up, re_cache = None, re_ctx = demo_gw_request [] ''acme'',
     re_keySource = ''user_id'', re_requested = ''gpt-4'', re_model = ''gpt-4''\<rparr>"

definition refused_rq :: "(string, string) request_env" where
  "refused_rq = demo_rq (demo_upstream (\<lambda>n p m. if p = ''sa2'' then Inr ''hello'' else Inl refusal))"


text \<open>
  The request that a rotated key served leaves the meter nothing to settle or report. And a failed attempt
  is noted with the load balancer's key source, which is not the one that counts.
\<close>

lemma rotated_request_unmetered:
  "case unary_request refused_rq [] demo_loaded of (out, s', lg) \<Rightarrow>
     out = Sent ''hello'' None \<and> settle pg_uuid fl now canceled (fold (meter_step micros) (al_meter lg) (Some m)) db =
       settle pg_uuid fl now canceled (Some m) db"
proof -
  have "case unary_request refused_rq [] demo_loaded of (out, s', lg) \<Rightarrow> out = Sent ''hello'' None \<and> al_meter lg = []"
    by code_simp
  then show ?thesis by (auto split: prod.splits)
qed

lemma retry_failures_uncounted:
  "re_keySource rq \<noteq> platformKeySource \<Longrightarrow>
     fold (meter_step micros) (al_meter (log_retry_failed (re_keySource rq) lg)) mo =
     fold (meter_step micros) (al_meter lg) mo"
  by (cases "fold (meter_step micros) (al_meter lg) mo")
    (simp_all add: log_defs recordShadow_def)

text \<open>A race without a timeout whose attempts all fail never returns.\<close>

definition race_plan :: "fallback_step list" where
  "race_plan = [\<lparr>fs_Aliases = [''gpt-4'', ''o3''], fs_Strategy = ''parallel'', fs_TimeoutMs = 0, fs_BackoffMs = 0,
     fs_MaxAttempts = 1, fs_Name = ''outage''\<rparr>]"

lemma failed_race_hangs:
  "fst (unary_request (demo_rq (demo_upstream (\<lambda>n p m. Inl outage))) race_plan demo_loaded) = Hangs"
  by code_simp

text \<open>A fallback after the bundle expired panics: the primary call fails at once, the next is 16 seconds later.\<close>

lemma late_fallback_panics:
  "fst (unary_request (demo_rq ((demo_upstream (\<lambda>n p m. Inl outage))\<lparr>up_now := (\<lambda>n. 16 * 1000000000 * int n)\<rparr>))
     [primary_step ''o3''] demo_loaded) = Panics"
  by code_simp

section \<open>Rotation\<close>

text \<open>
  Rotation spends keys. While the requests of a tenant are refused, each rotation answers with a key that
  no rotation answered with before and marks it; only the key that works is unmarked. So there are at most as
  many retries as unmarked keys, and never more than ten.
\<close>

theorem rotation_spends_keys:
  assumes "\<And>n cid ks k. db_keys (up_db (re_up rq) n) cid = Some ks \<Longrightarrow> k \<in> set ks \<Longrightarrow> pk_ID k \<in> K \<and> pk_ID k \<noteq> []"
    and "finite K"
    and "rotate_keys rq al (chat_retry rq al) (\<lambda>lg. lg) maxKeyRotations err s lg = (fin, s', lg')"
  shows "\<exists>ids. distinct ids \<and> set ids \<subseteq> K - gs_failedKeys s \<and>
    length ids \<le> min 10 (card (K - gs_failedKeys s)) \<and>
    al_tried lg' = al_tried lg @ replicate (length ids) al \<and>
    gs_failedKeys s' = gs_failedKeys s \<union> (case fin of Rotated r \<Rightarrow> set (butlast ids) | _ \<Rightarrow> set ids)"
proof -
  have "\<exists>ids. length ids \<le> maxKeyRotations \<and> al_tried lg' = al_tried lg @ replicate (length ids) al \<and>
      spends K ids fin s s'"
    by (rule rotate_keys_progress [OF _ _ _ assms(3)]) (use assms(1) in \<open>auto dest: chat_retry_tried\<close>)
  then obtain ids where
    ids: "length ids \<le> maxKeyRotations" "al_tried lg' = al_tried lg @ replicate (length ids) al" "spends K ids fin s s'"
    by blast
  have "card (set ids) \<le> card (K - gs_failedKeys s)"
    using ids(3) assms(2) by (intro card_mono) (auto simp: spends_def)
  with ids show ?thesis
    by (intro exI [of _ ids]) (auto simp: spends_def distinct_card maxKeyRotations_def split: rotation_end.splits)
qed

theorem rotation_spends_keys_witness:
  "case rotate_keys refused_rq ''gpt-4'' (chat_retry refused_rq ''gpt-4'') (\<lambda>lg. lg) maxKeyRotations refusal
       demo_loaded fresh_log of
     (fin, s', lg') \<Rightarrow> fin = Rotated ''hello'' \<and>
       (\<exists>ids. length ids = 2 \<and> distinct ids \<and> set ids \<subseteq> {''a1'', ''a2'', ''r1''} \<and> gs_failedKeys s' = set (butlast ids))"
proof -
  let ?K = "{''a1'', ''a2'', ''r1''}"
  let ?run = "rotate_keys refused_rq ''gpt-4'' (chat_retry refused_rq ''gpt-4'') (\<lambda>lg. lg) maxKeyRotations refusal demo_loaded fresh_log"
  obtain fin s' lg' where run: "?run = (fin, s', lg')" by (metis prod_cases3)
  have "case ?run of (fin, s', lg') \<Rightarrow> fin = Rotated ''hello'' \<and> call_number lg' = 2" by code_simp
  then have fin: "fin = Rotated ''hello''" "call_number lg' = 2" by (simp_all add: run)
  have none: "gs_failedKeys demo_loaded = {}" by code_simp
  have start: "al_tried fresh_log = []" by (simp add: fresh_log_def)
  have "\<exists>ids. distinct ids \<and> set ids \<subseteq> ?K - gs_failedKeys demo_loaded \<and>
      length ids \<le> min 10 (card (?K - gs_failedKeys demo_loaded)) \<and>
      al_tried lg' = al_tried fresh_log @ replicate (length ids) ''gpt-4'' \<and>
      gs_failedKeys s' = gs_failedKeys demo_loaded \<union> (case fin of Rotated r \<Rightarrow> set (butlast ids) | _ \<Rightarrow> set ids)"
    by (rule rotation_spends_keys [OF _ _ run])
      (auto simp: refused_rq_def demo_rq_def demo_upstream_def demo_gateway_db_def demo_key_def split: if_splits)
  then show ?thesis using fin by (auto simp: none start run)
qed

section \<open>Streams\<close>

text \<open>
  C30: A stream is the row of its attempts. The client receives the chunks of every upstream call, in order,
  the failed ones included; all calls but the last fail; the stream is complete when the last one is, and
  otherwise ends with its error. There is at least one call, and at most the attempts of each step and ten
  rotations for each alias.
\<close>

theorem stream_is_its_attempts:
  assumes "stream_request rq plan s = (fin, s', lg)" "\<And>st. st \<in> set plan \<Longrightarrow> fs_Aliases st \<noteq> []"
  shows "\<exists>rs. history rq lg rs \<and> rs \<noteq> [] \<and> list_all call_failed (butlast rs) \<and>
    length rs \<le> (\<Sum>st \<leftarrow> stream_steps (re_model rq) plan. length (fs_Aliases st) * (step_attempts st + maxKeyRotations)) \<and>
    (case fin of
       Completed \<Rightarrow> snd (last rs) = Answer ()
     | LastError e \<Rightarrow> snd (last rs) = Failure e
     | StreamPanics \<Rightarrow> snd (last rs) = NilRouter)"
proof -
  let ?steps = "stream_steps (re_model rq) plan"
  let ?xs = "concat (map (\<lambda>st. map (Pair st) (fs_Aliases st)) ?steps)"
  have nonempty: "?steps \<noteq> []" "\<And>st. st \<in> set ?steps \<Longrightarrow> fs_Aliases st \<noteq> []"
    using assms(2) by (auto simp: stream_steps_def primary_step_def split: if_splits)
  then have xs: "?xs \<noteq> []" by (cases ?steps) auto
  have start: "history rq fresh_log []" by (simp add: history_def fresh_log_def)
  from stream_loop_row [OF assms(1) [unfolded stream_request_def] start] xs obtain new out where
    new: "history rq lg new" "length new \<le> (\<Sum>x \<leftarrow> ?xs. step_attempts (fst x) + maxKeyRotations)"
      "row_ends out None new" "new \<noteq> []"
      "fin = (case out of Inl f \<Rightarrow> f | Inr None \<Rightarrow> Completed | Inr (Some e) \<Rightarrow> LastError e)" by auto
  have "(\<Sum>x \<leftarrow> concat (map (\<lambda>st. map (Pair st) (fs_Aliases st)) sts). step_attempts (fst x) + maxKeyRotations) =
      (\<Sum>st \<leftarrow> sts. length (fs_Aliases st) * (step_attempts st + maxKeyRotations))" for sts
    by (induction sts) (simp_all add: o_def sum_list_triv)
  with new show ?thesis
    by (intro exI [of _ new]) (auto simp: row_ends_def split: sum.splits option.splits stream_end.splits)
qed

text \<open>A stream whose first provider breaks off after a chunk, then a second one.\<close>

definition broken_rq :: "(string, string) request_env" where
  "broken_rq = demo_rq ((demo_upstream (\<lambda>n p m. Inl outage))
     \<lparr>up_stream := (\<lambda>n p m. if n = 0 then ([''Hel''], Some outage) else ([''Hello''], None))\<rparr>)"

definition retry_step :: fallback_step where
  "retry_step = (primary_step ''gpt-4'')\<lparr>fs_MaxAttempts := 2\<rparr>"

theorem stream_is_its_attempts_witness:
  "\<exists>x y lg. history broken_rq lg [x, y] \<and> call_failed x \<and> snd y = Answer () \<and> al_chunks lg = [''Hel'', ''Hello'']"
proof -
  let ?run = "stream_request broken_rq [retry_step] demo_loaded"
  obtain fin s' lg where run: "?run = (fin, s', lg)" by (metis prod_cases3)
  have "case ?run of (fin, s', lg) \<Rightarrow> fin = Completed \<and> al_chunks lg = [''Hel'', ''Hello''] \<and> call_number lg = 2"
    by code_simp
  then have r: "fin = Completed" "al_chunks lg = [''Hel'', ''Hello'']" "call_number lg = 2" by (simp_all add: run)
  have "fs_Aliases retry_step \<noteq> []" by code_simp
  then obtain rs where rs: "history broken_rq lg rs" "list_all call_failed (butlast rs)" "snd (last rs) = Answer ()"
    using stream_is_its_attempts [OF run] r(1) by auto
  have "length rs = 2" using rs(1) r(3) by (simp add: history_def)
  then obtain x y where xy: "rs = [x, y]" by (auto simp: numeral_2_eq_2 length_Suc_conv)
  show ?thesis
    by (rule exI [of _ x], rule exI [of _ y], rule exI [of _ lg]) (use rs r(2) xy in simp)
qed

text \<open>When a later step names the requested model, the stream starts with the earlier step's model.\<close>

lemma requested_model_not_first:
  "al_tried (snd (snd (stream_request (demo_rq (demo_upstream (\<lambda>n p m. Inl outage)))
     [primary_step ''o3'', primary_step ''gpt-4''] demo_loaded))) = [''o3'', ''gpt-4'']"
  by code_simp

end
