(* ===== verification/GoText.thy ===== *)
theory GoText
  imports GoInt "HOL-Library.List_Lexorder" "HOL-Library.Char_ord"
begin

text \<open>
  \<open>strings.Join\<close> and \<open>strings.Fields\<close>, which the agent runtime uses on the texts of a conversation.
  \<open>List_Lexorder\<close> orders byte strings the way \<open>sort.Strings\<close> does.
\<close>

section \<open>\<open>strings.Join\<close>\<close>

fun go_join :: "string \<Rightarrow> string list \<Rightarrow> string" where
  "go_join sep [] = []"
| "go_join sep [s] = s"
| "go_join sep (s # t # ts) = s @ sep @ go_join sep (t # ts)"

lemma go_join_split_byte: "go_join [c] (split_byte c s) = s"
proof (induction s)
  case (Cons x s)
  obtain w ws where split: "split_byte c s = w # ws" by (cases "split_byte c s") auto
  with Cons.IH show ?case by (cases ws) auto
qed simp

section \<open>\<open>strings.Fields\<close>\<close>

text \<open>The bytes up to the next white space character, and the rest from there on.\<close>

fun span_word :: "string \<Rightarrow> string \<times> string" where
  "span_word [] = ([], [])"
| "span_word (x # xs) =
     (if find (\<lambda>w. has_prefix (x # xs) w) white_space \<noteq> None then ([], x # xs)
      else (x # fst (span_word xs), snd (span_word xs)))"

lemma span_word_append: "fst (span_word s) @ snd (span_word s) = s"
  by (induction s) auto

lemma trim_left_fixpoint: "find (\<lambda>w. has_prefix (trim_left s) w) white_space = None"
proof (induction s rule: trim_left.induct)
  case (1 s)
  then show ?case
    by (cases "find (\<lambda>w. has_prefix s w) white_space") (subst trim_left.simps, simp)+
qed

lemma length_trim_left: "length (trim_left s) \<le> length s"
proof (induction s rule: trim_left.induct)
  case (1 s)
  show ?case
  proof (cases "find (\<lambda>w. has_prefix s w) white_space")
    case None
    then show ?thesis by (subst trim_left.simps) simp
  next
    case (Some w)
    from 1 [OF this] have "length (trim_left (drop (length w) s)) \<le> length s" by simp
    with Some show ?thesis by (subst trim_left.simps) simp
  qed
qed

lemma span_word_shorter:
  assumes "trim_left s \<noteq> []"
  shows "length (snd (span_word (trim_left s))) < length s"
proof -
  obtain x xs where trimmed: "trim_left s = x # xs" using assms by (cases "trim_left s") auto
  have "find (\<lambda>w. has_prefix (x # xs) w) white_space = None"
    using trim_left_fixpoint [of s] trimmed by simp
  then have "snd (span_word (trim_left s)) = snd (span_word xs)" using trimmed by simp
  moreover have "length (snd (span_word xs)) \<le> length xs"
    using arg_cong [OF span_word_append [of xs], of length] by simp
  moreover have "length (x # xs) \<le> length s" using length_trim_left [of s] trimmed by simp
  ultimately show ?thesis by simp
qed

function go_fields :: "string \<Rightarrow> string list" where
  "go_fields s =
     (if trim_left s = [] then []
      else fst (span_word (trim_left s)) # go_fields (snd (span_word (trim_left s))))"
  by pat_completeness auto

termination
  by (relation "measure length") (use span_word_shorter in auto)

declare go_fields.simps [simp del]

text \<open>No field is empty.\<close>

lemma go_fields_nonempty: "w \<in> set (go_fields s) \<Longrightarrow> w \<noteq> []"
proof (induction s rule: go_fields.induct)
  case (1 s)
  show ?case
  proof (cases "trim_left s")
    case Nil
    with "1.prems" show ?thesis by (subst (asm) go_fields.simps) simp
  next
    case (Cons x xs)
    have "find (\<lambda>w. has_prefix (x # xs) w) white_space = None"
      using trim_left_fixpoint [of s] Cons by simp
    then have "fst (span_word (trim_left s)) \<noteq> []" using Cons by simp
    moreover have "w = fst (span_word (trim_left s)) \<or> w \<in> set (go_fields (snd (span_word (trim_left s))))"
      using "1.prems" Cons by (subst (asm) go_fields.simps) auto
    ultimately show ?thesis using "1.IH" Cons by auto
  qed
qed

end
