(* ===== verification/AgentMessages.thy ===== *)
theory AgentMessages
  imports GoText
begin

text \<open>
  The conversation of the agent runtime and what \<open>src/internal/agents/runtime/loop.go\<close> and
  \<open>token_counter.go\<close> read of it: the text of a message, the questions it recognises, the signature of a
  set of tool calls, the size estimate, the shortening of old tool results and the cut of the history.
  A field that is a pointer in Go is an option.
\<close>

section \<open>Messages\<close>

record content_part =
  part_type :: string
  part_text :: "string option"
  part_image_url :: "string option"
  part_file_id :: "string option"
  part_tool_call_id :: "string option"
  part_function_call :: "string option"
  part_provider_json :: "string option"

record tool_call =
  tc_ID :: string
  tc_Type :: string
  tc_Name :: string
  tc_Arguments :: string

record chat_message =
  msg_role :: string
  msg_content :: "content_part list"
  msg_tool_calls :: "tool_call list"
  msg_tool_call_id :: string

definition RoleSystem :: string where "RoleSystem = ''system''"
definition RoleUser :: string where "RoleUser = ''user''"
definition RoleAssistant :: string where "RoleAssistant = ''assistant''"
definition RoleTool :: string where "RoleTool = ''tool''"

lemmas role_defs = RoleSystem_def RoleUser_def RoleAssistant_def RoleTool_def

text \<open>The literals \<open>gw.Message{Role: r, Content: []gw.ContentPart{{Type: "text", Text: strPtr(s)}}}\<close>.\<close>

definition text_part :: "string \<Rightarrow> content_part" where
  "text_part s = \<lparr>part_type = ''text'', part_text = Some s, part_image_url = None, part_file_id = None,
     part_tool_call_id = None, part_function_call = None, part_provider_json = None\<rparr>"

definition text_message :: "string \<Rightarrow> string \<Rightarrow> chat_message" where
  "text_message role s = \<lparr>msg_role = role, msg_content = [text_part s], msg_tool_calls = [], msg_tool_call_id = []\<rparr>"

definition tool_message :: "string \<Rightarrow> string \<Rightarrow> chat_message" where
  "tool_message tool_id s = (text_message RoleTool s)\<lparr>msg_tool_call_id := tool_id\<rparr>"

fun parts_text :: "content_part list \<Rightarrow> string" where
  "parts_text [] = []"
| "parts_text (part # parts) = (case part_text part of None \<Rightarrow> [] | Some s \<Rightarrow> s) @ parts_text parts"

definition messageText :: "chat_message \<Rightarrow> string" where
  "messageText msg = parts_text (msg_content msg)"

lemma parts_text_append [simp]: "parts_text (xs @ ys) = parts_text xs @ parts_text ys"
  by (induction xs) auto

lemma part_text_text_part [simp]: "part_text (text_part s) = Some s"
  by (simp add: text_part_def)

lemma text_message_fields [simp]:
  "msg_role (text_message r s) = r" "msg_tool_calls (text_message r s) = []"
  "msg_content (text_message r s) = [text_part s]" "msg_tool_call_id (text_message r s) = []"
  by (simp_all add: text_message_def)

lemma tool_message_fields [simp]:
  "msg_role (tool_message i s) = RoleTool" "msg_tool_calls (tool_message i s) = []"
  "msg_content (tool_message i s) = [text_part s]" "msg_tool_call_id (tool_message i s) = i"
  by (simp_all add: tool_message_def)

lemma messageText_text_message [simp]: "messageText (text_message r s) = s"
  by (simp add: messageText_def)

fun hasPriorUserTurn :: "chat_message list \<Rightarrow> bool" where
  "hasPriorUserTurn [] \<longleftrightarrow> False"
| "hasPriorUserTurn (msg # messages) \<longleftrightarrow> (if msg_role msg = RoleUser then True else hasPriorUserTurn messages)"

lemma hasPriorUserTurn_iff: "hasPriorUserTurn messages \<longleftrightarrow> (\<exists>msg \<in> set messages. msg_role msg = RoleUser)"
  by (induction messages) auto

section \<open>Tools and addresses\<close>

definition isSandboxToolName :: "string \<Rightarrow> bool" where
  "isSandboxToolName name = has_prefix name ''sandbox_''"

fun toolNameAllowed :: "string list \<Rightarrow> string \<Rightarrow> bool" where
  "toolNameAllowed [] target \<longleftrightarrow> False"
| "toolNameAllowed (name # names) target \<longleftrightarrow> (if name = target then True else toolNameAllowed names target)"

lemma toolNameAllowed_iff: "toolNameAllowed names target \<longleftrightarrow> target \<in> set names"
  by (induction names) auto

definition call_signature :: "tool_call \<Rightarrow> string" where
  "call_signature tc = tc_Name tc @ '':'' @ tc_Arguments tc @ ''|''"

definition toolCallSignature :: "tool_call list \<Rightarrow> string" where
  "toolCallSignature calls = concat (map call_signature calls)"

lemma toolCallSignature_Nil_iff [simp]: "toolCallSignature calls = [] \<longleftrightarrow> calls = []"
  by (cases calls) (simp_all add: toolCallSignature_def call_signature_def)

text \<open>A set of addresses is a Go map with empty values; \<open>sort.Strings\<close> of its keys.\<close>

definition sortedURLs :: "string set \<Rightarrow> string list" where
  "sortedURLs urls = sorted_list_of_set urls"

lemma set_sortedURLs: "finite urls \<Longrightarrow> set (sortedURLs urls) = urls"
  by (simp add: sortedURLs_def)

definition messageMentionsAnyURL :: "string \<Rightarrow> string list \<Rightarrow> bool" where
  "messageMentionsAnyURL txt urls \<longleftrightarrow> TrimSpace txt \<noteq> [] \<and> list_ex (go_contains txt) urls"

section \<open>Questions in plain text\<close>

definition blockingPhrases :: "string list" where
  "blockingPhrases =
     [''reply yes'', ''do you approve'', ''would you like me to proceed'', ''let me know your'',
      ''tell me which'', ''tell me your preferred'', ''just reply with'', ''pick your'',
      ''choose as many as you like'', ''which topics do you want'', ''what time would you like'',
      ''what timezone are you in'']"

definition questionPrefixes :: "string list" where
  "questionPrefixes =
     [''what '', ''which '', ''when '', ''where '', ''do you '', ''would you '', ''could you '', ''can you '']"

definition line_feed :: string where "line_feed = [CHR 0x0A]"

definition looksLikeBlockingUserQuestion :: "(string \<Rightarrow> string) \<Rightarrow> string \<Rightarrow> bool" where
  "looksLikeBlockingUserQuestion lower txt =
     (let normalized = lower (TrimSpace txt) in
      if normalized = [] then False
      else if list_ex (go_contains normalized) blockingPhrases then True
      else if \<not> go_contains normalized ''?'' then False
      else list_ex (\<lambda>prefix. has_prefix normalized prefix \<or> go_contains normalized (line_feed @ prefix))
             questionPrefixes)"

definition shouldBackstopAskUser :: "(string \<Rightarrow> string) \<Rightarrow> string list \<Rightarrow> string \<Rightarrow> bool" where
  "shouldBackstopAskUser lower tools assistantText =
     (if TrimSpace assistantText = [] then False
      else if \<not> toolNameAllowed tools ''ask_user'' then False
      else looksLikeBlockingUserQuestion lower assistantText)"

section \<open>Sizes\<close>

definition part_chars :: "content_part \<Rightarrow> nat" where
  "part_chars part = (case part_text part of None \<Rightarrow> 0 | Some s \<Rightarrow> length s)"

definition call_chars :: "tool_call \<Rightarrow> nat" where
  "call_chars tc = length (tc_Name tc) + length (tc_Arguments tc) + 20"

definition message_chars :: "chat_message \<Rightarrow> nat" where
  "message_chars msg = 16 + sum_list (map part_chars (msg_content msg)) + sum_list (map call_chars (msg_tool_calls msg))"

definition EstimateTokens :: "chat_message list \<Rightarrow> nat" where
  "EstimateTokens messages = sum_list (map message_chars messages) div 4"

definition EstimateTokensForText :: "string \<Rightarrow> nat" where
  "EstimateTokensForText s = length s div 4"

definition approxMessagesBytes :: "chat_message list \<Rightarrow> nat" where
  "approxMessagesBytes msgs =
     sum_list (map (\<lambda>m. length (msg_role m) + sum_list (map part_chars (msg_content m))) msgs)"

section \<open>Shortening old tool results\<close>

definition toolResultCompactThreshold :: nat where "toolResultCompactThreshold = 300"
definition skillResultSummaryLength :: nat where "skillResultSummaryLength = 280"

definition compactSkillResultText :: "string \<Rightarrow> string" where
  "compactSkillResultText s =
     (let lines = split_byte (CHR 0x0A) s;
          header = (if lines \<noteq> [] \<and> TrimSpace (hd lines) \<noteq> []
                    then ''[Previously loaded '' @ TrimSpace (trim_prefix (hd lines) ''## '') @ '']''
                    else ''[Skill instructions were loaded earlier in this session.]'');
          body = TrimSpace (go_join line_feed (tl lines));
          body = go_join '' '' (go_fields body);
          body = (if length body > skillResultSummaryLength then take skillResultSummaryLength body @ ''...'' else body)
      in if body = [] then header
         else header @ line_feed @ ''Retain and follow the loaded skill guidance for this task.'' @ line_feed @
              ''Summary: '' @ body)"

definition em_dash :: string where "em_dash = [CHR 0xE2, CHR 0x80, CHR 0x94]"

definition compactToolResultText :: "string \<Rightarrow> string" where
  "compactToolResultText s =
     (if has_prefix s ''## Skill:'' then compactSkillResultText s
      else let keep = (if length s < 200 then length s else 200)
           in take keep s @ line_feed @ ''...[truncated '' @ em_dash @ '' '' @ decimal (int (length s)) @ '' chars total]'')"

definition compact_part :: "content_part \<Rightarrow> content_part" where
  "compact_part part =
     (case part_text part of
        None \<Rightarrow> part
      | Some s \<Rightarrow> if length s \<le> toolResultCompactThreshold then part
                  else part\<lparr>part_text := Some (compactToolResultText s)\<rparr>)"

definition compact_message :: "chat_message \<Rightarrow> chat_message" where
  "compact_message msg =
     (if msg_role msg \<noteq> RoleTool \<or> msg_tool_call_id msg = [] then msg
      else msg\<lparr>msg_content := map compact_part (msg_content msg)\<rparr>)"

definition compactToolResults :: "chat_message list \<Rightarrow> nat \<Rightarrow> chat_message list" where
  "compactToolResults messages keepRecent =
     (if length messages \<le> keepRecent then messages
      else let cutoff = length messages - keepRecent
           in map compact_message (take cutoff messages) @ drop cutoff messages)"

lemma length_compactToolResults [simp]: "length (compactToolResults messages k) = length messages"
  by (simp add: compactToolResults_def Let_def)

lemma compact_message_fields [simp]:
  "msg_role (compact_message m) = msg_role m" "msg_tool_calls (compact_message m) = msg_tool_calls m"
  "msg_tool_call_id (compact_message m) = msg_tool_call_id m"
  by (simp_all add: compact_message_def)

lemma map_compactToolResults:
  assumes "\<And>m. f (compact_message m) = f m"
  shows "map f (compactToolResults messages k) = map f messages"
proof -
  have "map f (take n messages) @ map f (drop n messages) = map f messages" for n
    by (metis append_take_drop_id map_append)
  then show ?thesis by (simp add: compactToolResults_def Let_def comp_def assms)
qed

section \<open>The history that is sent\<close>

text \<open>
  The slice of the newest \<open>limit\<close> messages, the first one kept in front when it is the system prompt;
  \<open>limit\<close> is positive whenever the slices are taken.
\<close>

definition historyToSend :: "int \<Rightarrow> chat_message list \<Rightarrow> chat_message list" where
  "historyToSend limit messages =
     (if limit > 0 \<and> int (length messages) > limit then
        if messages \<noteq> [] \<and> msg_role (hd messages) = RoleSystem
        then hd messages # drop (nat (int (length messages) - limit + 1)) messages
        else drop (nat (int (length messages) - limit)) messages
      else messages)"

lemma historyToSend_length:
  assumes "limit > 0"
  shows "length (historyToSend limit messages) = min (nat limit) (length messages)"
  using assms by (auto simp: historyToSend_def)

lemma historyToSend_newest:
  assumes "limit > 1" "messages \<noteq> []"
  shows "last (historyToSend limit messages) = last messages"
  using assms by (auto simp: historyToSend_def)

lemma historyToSend_system_prompt:
  assumes "limit > 0" "messages \<noteq> []" "msg_role (hd messages) = RoleSystem"
  shows "hd (historyToSend limit messages) = hd messages"
  using assms by (auto simp: historyToSend_def)

end
