(* ===== verification/AgentStream.thy ===== *)
theory AgentStream
  imports AgentMessages
begin

text \<open>
  Model responses: \<open>ChatCompletionResponse\<close> and \<open>Usage\<close> of
  \<open>src/internal/lib/handlers/gateway/types.go\<close>, and \<open>ExecuteTurnStream\<close> of
  \<open>src/internal/agents/runtime/engine.go\<close>, which reassembles a response from its stream. A stream
  is the list of chunks the provider hands to the callback and the error it ends with, if any; the
  callback of the turn loop never fails.
\<close>

section \<open>Responses\<close>

record token_details =
  td_CachedTokens :: int
  td_CacheReadTokens :: int
  td_CacheWriteTokens :: int

record chat_usage =
  us_PromptTokens :: int
  us_CompletionTokens :: int
  us_TotalTokens :: int
  us_PromptDetails :: "token_details option"

definition CacheReadCount :: "chat_usage \<Rightarrow> int" where
  "CacheReadCount u =
     (case us_PromptDetails u of
        None \<Rightarrow> 0
      | Some d \<Rightarrow> if td_CacheReadTokens d > 0 \<or> td_CacheWriteTokens d > 0 then td_CacheReadTokens d
                  else td_CachedTokens d)"

definition CacheWriteCount :: "chat_usage \<Rightarrow> int" where
  "CacheWriteCount u = (case us_PromptDetails u of None \<Rightarrow> 0 | Some d \<Rightarrow> td_CacheWriteTokens d)"

record chat_choice =
  ch_Index :: int
  ch_Message :: chat_message
  ch_FinishReason :: string

record chat_completion =
  cc_ID :: string
  cc_Model :: string
  cc_Choices :: "chat_choice list"
  cc_Usage :: chat_usage

definition no_usage :: chat_usage where
  "no_usage = \<lparr>us_PromptTokens = 0, us_CompletionTokens = 0, us_TotalTokens = 0, us_PromptDetails = None\<rparr>"

definition no_message :: chat_message where
  "no_message = \<lparr>msg_role = [], msg_content = [], msg_tool_calls = [], msg_tool_call_id = []\<rparr>"

definition no_choice :: chat_choice where
  "no_choice = \<lparr>ch_Index = 0, ch_Message = no_message, ch_FinishReason = []\<rparr>"

definition no_completion :: chat_completion where
  "no_completion = \<lparr>cc_ID = [], cc_Model = [], cc_Choices = [], cc_Usage = no_usage\<rparr>"

section \<open>Streams\<close>

record choice_delta =
  cd_Index :: int
  cd_Delta :: chat_message
  cd_FinishReason :: string

record chat_chunk =
  ck_ID :: string
  ck_Model :: string
  ck_Choices :: "choice_delta list"
  ck_Usage :: "chat_usage option"

record stream_acc =
  sa_accumulated :: chat_completion
  sa_toolCalls :: "tool_call list"
  sa_contentParts :: "content_part list"
  sa_shown :: "string list"

text \<open>The loop over the known calls that looks for the fragment's ID; \<open>None\<close>: not found.\<close>

fun extend_call :: "tool_call \<Rightarrow> tool_call list \<Rightarrow> tool_call list option" where
  "extend_call tc [] = None"
| "extend_call tc (c # cs) =
     (if tc_ID c = tc_ID tc
      then Some (c\<lparr>tc_Type := (if tc_Type tc \<noteq> [] then tc_Type tc else tc_Type c),
                   tc_Name := tc_Name c @ tc_Name tc,
                   tc_Arguments := tc_Arguments c @ tc_Arguments tc\<rparr> # cs)
      else map_option ((#) c) (extend_call tc cs))"

definition add_fragment :: "tool_call \<Rightarrow> tool_call list \<Rightarrow> tool_call list" where
  "add_fragment tc calls =
     (if tc_ID tc \<noteq> [] then
        (case extend_call tc calls of Some calls' \<Rightarrow> calls' | None \<Rightarrow> calls @ [tc])
      else if calls \<noteq> [] then
        butlast calls @ [(last calls)\<lparr>tc_Name := tc_Name (last calls) @ tc_Name tc,
                                      tc_Arguments := tc_Arguments (last calls) @ tc_Arguments tc\<rparr>]
      else calls)"

definition set_finish :: "string \<Rightarrow> chat_completion \<Rightarrow> chat_completion" where
  "set_finish reason r =
     (if reason = [] then r
      else let choices = (if cc_Choices r = [] then [no_choice] else cc_Choices r)
           in r\<lparr>cc_Choices := (hd choices)\<lparr>ch_FinishReason := reason\<rparr> # tl choices\<rparr>)"

definition on_delta :: "choice_delta \<Rightarrow> stream_acc \<Rightarrow> stream_acc" where
  "on_delta delta a =
     (let parts = msg_content (cd_Delta delta); txt = parts_text parts in
      a\<lparr>sa_contentParts := sa_contentParts a @ parts,
        sa_shown := (if txt \<noteq> [] then sa_shown a @ [txt] else sa_shown a),
        sa_toolCalls := fold add_fragment (msg_tool_calls (cd_Delta delta)) (sa_toolCalls a),
        sa_accumulated := set_finish (cd_FinishReason delta) (sa_accumulated a)\<rparr>)"

definition on_stream_chunk :: "chat_chunk \<Rightarrow> stream_acc \<Rightarrow> stream_acc" where
  "on_stream_chunk chunk a =
     (let r = sa_accumulated a;
          r = (if ck_Model chunk \<noteq> [] then r\<lparr>cc_Model := ck_Model chunk\<rparr> else r);
          r = (if ck_ID chunk \<noteq> [] then r\<lparr>cc_ID := ck_ID chunk\<rparr> else r);
          a = fold on_delta (ck_Choices chunk) (a\<lparr>sa_accumulated := r\<rparr>)
      in case ck_Usage chunk of
           None \<Rightarrow> a
         | Some u \<Rightarrow> a\<lparr>sa_accumulated := (sa_accumulated a)\<lparr>cc_Usage := u\<rparr>\<rparr>)"

definition stream_start :: stream_acc where
  "stream_start = \<lparr>sa_accumulated = no_completion, sa_toolCalls = [], sa_contentParts = [], sa_shown = []\<rparr>"

definition finish_stream :: "stream_acc \<Rightarrow> chat_completion" where
  "finish_stream a =
     (let r = sa_accumulated a;
          choices = (if cc_Choices r = [] then [no_choice] else cc_Choices r);
          msg = ch_Message (hd choices);
          finalText = concat (sa_shown a);
          msg = (if sa_contentParts a \<noteq> [] then msg\<lparr>msg_content := sa_contentParts a\<rparr>
                 else if finalText \<noteq> [] then msg\<lparr>msg_content := [text_part finalText]\<rparr>
                 else msg);
          msg = msg\<lparr>msg_role := RoleAssistant\<rparr>;
          msg = (if sa_toolCalls a \<noteq> [] then msg\<lparr>msg_tool_calls := sa_toolCalls a\<rparr> else msg)
      in r\<lparr>cc_Choices := (hd choices)\<lparr>ch_Message := msg\<rparr> # tl choices\<rparr>)"

text \<open>The response or the error, and the deltas shown on the way.\<close>

definition ExecuteTurnStream :: "chat_chunk list \<times> 'e option \<Rightarrow> ('e + chat_completion) \<times> string list" where
  "ExecuteTurnStream stream =
     (let a = fold on_stream_chunk (fst stream) stream_start in
      (case snd stream of Some err \<Rightarrow> Inl err | None \<Rightarrow> Inr (finish_stream a), sa_shown a))"

section \<open>What a stream carries\<close>

definition stream_deltas :: "chat_chunk list \<Rightarrow> choice_delta list" where
  "stream_deltas chunks = concat (map ck_Choices chunks)"

definition stream_parts :: "chat_chunk list \<Rightarrow> content_part list" where
  "stream_parts chunks = concat (map (\<lambda>d. msg_content (cd_Delta d)) (stream_deltas chunks))"

definition stream_fragments :: "chat_chunk list \<Rightarrow> tool_call list" where
  "stream_fragments chunks = concat (map (\<lambda>d. msg_tool_calls (cd_Delta d)) (stream_deltas chunks))"

definition last_given :: "string list \<Rightarrow> string" where
  "last_given ss = (case rev (filter (\<lambda>s. s \<noteq> []) ss) of [] \<Rightarrow> [] | s # _ \<Rightarrow> s)"

definition last_usage :: "chat_chunk list \<Rightarrow> chat_usage" where
  "last_usage chunks = (case rev (List.map_filter ck_Usage chunks) of [] \<Rightarrow> no_usage | u # _ \<Rightarrow> u)"

lemmas stream_defs = stream_deltas_def stream_parts_def stream_fragments_def

lemma last_given_snoc: "last_given (ss @ [s]) = (if s = [] then last_given ss else s)"
  by (simp add: last_given_def)

lemma last_usage_snoc:
  "last_usage (chunks @ [c]) = (case ck_Usage c of None \<Rightarrow> last_usage chunks | Some u \<Rightarrow> u)"
  by (simp add: last_usage_def map_filter_def split: option.splits)

text \<open>The fields of the response that the loop over the deltas of a chunk leaves alone.\<close>

lemma set_finish_fields [simp]:
  "cc_ID (set_finish s r) = cc_ID r" "cc_Model (set_finish s r) = cc_Model r" "cc_Usage (set_finish s r) = cc_Usage r"
  by (simp_all add: set_finish_def Let_def)

lemma on_delta_fields [simp]:
  "sa_contentParts (on_delta d a) = sa_contentParts a @ msg_content (cd_Delta d)"
  "sa_toolCalls (on_delta d a) = fold add_fragment (msg_tool_calls (cd_Delta d)) (sa_toolCalls a)"
  "concat (sa_shown (on_delta d a)) = concat (sa_shown a) @ parts_text (msg_content (cd_Delta d))"
  "sa_accumulated (on_delta d a) = set_finish (cd_FinishReason d) (sa_accumulated a)"
  by (simp_all add: on_delta_def Let_def)

lemma fold_on_delta:
  "sa_contentParts (fold on_delta ds a) = sa_contentParts a @ concat (map (\<lambda>d. msg_content (cd_Delta d)) ds)"
  "sa_toolCalls (fold on_delta ds a) = fold add_fragment (concat (map (\<lambda>d. msg_tool_calls (cd_Delta d)) ds)) (sa_toolCalls a)"
  "concat (sa_shown (fold on_delta ds a)) =
     concat (sa_shown a) @ parts_text (concat (map (\<lambda>d. msg_content (cd_Delta d)) ds))"
  "sa_accumulated (fold on_delta ds a) = fold set_finish (map cd_FinishReason ds) (sa_accumulated a)"
  by (induction ds arbitrary: a) simp_all

lemma fold_set_finish_fields [simp]:
  "cc_ID (fold set_finish ss r) = cc_ID r" "cc_Model (fold set_finish ss r) = cc_Model r"
  "cc_Usage (fold set_finish ss r) = cc_Usage r"
  by (induction ss arbitrary: r) simp_all

definition single_choice :: "string \<Rightarrow> chat_choice list" where
  "single_choice reason = (if reason = [] then [] else [no_choice\<lparr>ch_FinishReason := reason\<rparr>])"

lemma cc_Choices_set_finish:
  "cc_Choices r = single_choice old \<Longrightarrow>
     cc_Choices (set_finish reason r) = single_choice (if reason = [] then old else reason)"
  by (simp add: set_finish_def Let_def single_choice_def no_choice_def)

lemma cc_Choices_fold_set_finish:
  "cc_Choices r = single_choice (last_given old) \<Longrightarrow>
     cc_Choices (fold set_finish ss r) = single_choice (last_given (old @ ss))"
proof (induction ss arbitrary: r old)
  case (Cons s ss)
  have "cc_Choices (set_finish s r) = single_choice (last_given (old @ [s]))"
    using cc_Choices_set_finish [OF Cons.prems] by (simp add: last_given_snoc)
  from Cons.IH [OF this] show ?case by simp
qed simp

lemma on_stream_chunk_fields:
  "sa_contentParts (on_stream_chunk c a) = sa_contentParts a @ stream_parts [c]"
  "sa_toolCalls (on_stream_chunk c a) = fold add_fragment (stream_fragments [c]) (sa_toolCalls a)"
  "concat (sa_shown (on_stream_chunk c a)) = concat (sa_shown a) @ parts_text (stream_parts [c])"
  "cc_ID (sa_accumulated (on_stream_chunk c a)) = (if ck_ID c = [] then cc_ID (sa_accumulated a) else ck_ID c)"
  "cc_Model (sa_accumulated (on_stream_chunk c a)) =
     (if ck_Model c = [] then cc_Model (sa_accumulated a) else ck_Model c)"
  "cc_Usage (sa_accumulated (on_stream_chunk c a)) =
     (case ck_Usage c of None \<Rightarrow> cc_Usage (sa_accumulated a) | Some u \<Rightarrow> u)"
  by (simp_all add: on_stream_chunk_def Let_def stream_defs fold_on_delta split: option.splits)

lemma cc_Choices_on_stream_chunk:
  assumes "cc_Choices (sa_accumulated a) = single_choice (last_given old)"
  shows "cc_Choices (sa_accumulated (on_stream_chunk c a)) =
    single_choice (last_given (old @ map cd_FinishReason (ck_Choices c)))"
  using assms
  by (auto simp: on_stream_chunk_def Let_def fold_on_delta split: option.splits
           intro!: cc_Choices_fold_set_finish)

text \<open>What has been accumulated after any number of chunks.\<close>

lemma stream_accumulates:
  defines "a chunks \<equiv> fold on_stream_chunk chunks stream_start"
  shows "sa_contentParts (a chunks) = stream_parts chunks"
    and "sa_toolCalls (a chunks) = fold add_fragment (stream_fragments chunks) []"
    and "concat (sa_shown (a chunks)) = parts_text (stream_parts chunks)"
    and "cc_ID (sa_accumulated (a chunks)) = last_given (map ck_ID chunks)"
    and "cc_Model (sa_accumulated (a chunks)) = last_given (map ck_Model chunks)"
    and "cc_Usage (sa_accumulated (a chunks)) = last_usage chunks"
    and "cc_Choices (sa_accumulated (a chunks)) =
      single_choice (last_given (map cd_FinishReason (stream_deltas chunks)))"
  unfolding a_def
proof (induction chunks rule: rev_induct)
  case Nil
  show "sa_contentParts (fold on_stream_chunk [] stream_start) = stream_parts []"
    "sa_toolCalls (fold on_stream_chunk [] stream_start) = fold add_fragment (stream_fragments []) []"
    "concat (sa_shown (fold on_stream_chunk [] stream_start)) = parts_text (stream_parts [])"
    "cc_ID (sa_accumulated (fold on_stream_chunk [] stream_start)) = last_given (map ck_ID [])"
    "cc_Model (sa_accumulated (fold on_stream_chunk [] stream_start)) = last_given (map ck_Model [])"
    "cc_Usage (sa_accumulated (fold on_stream_chunk [] stream_start)) = last_usage []"
    "cc_Choices (sa_accumulated (fold on_stream_chunk [] stream_start)) =
      single_choice (last_given (map cd_FinishReason (stream_deltas [])))"
    by (simp_all add: stream_start_def stream_defs no_completion_def last_given_def last_usage_def
      map_filter_simps single_choice_def)
next
  case (snoc c chunks)
  {
    case 1
    show ?case using snoc.IH(1) by (simp add: on_stream_chunk_fields) (simp add: stream_defs)
  next
    case 2
    show ?case using snoc.IH(2) by (simp add: on_stream_chunk_fields) (simp add: stream_defs)
  next
    case 3
    show ?case using snoc.IH(3) by (simp add: on_stream_chunk_fields) (simp add: stream_defs)
  next
    case 4
    show ?case using snoc.IH(4) by (simp add: on_stream_chunk_fields last_given_snoc)
  next
    case 5
    show ?case using snoc.IH(5) by (simp add: on_stream_chunk_fields last_given_snoc)
  next
    case 6
    show ?case using snoc.IH(6) by (simp add: on_stream_chunk_fields last_usage_snoc split: option.split)
  next
    case 7
    show ?case using cc_Choices_on_stream_chunk [OF snoc.IH(7)] by (simp add: stream_defs)
  }
qed

text \<open>The text of the message is what has been shown, delta by delta.\<close>

lemma finish_stream_text: "concat (sa_shown a) = parts_text (sa_contentParts a) \<Longrightarrow>
    cc_Choices (sa_accumulated a) = single_choice reason \<Longrightarrow>
    cc_Choices (finish_stream a) =
      [\<lparr>ch_Index = 0, ch_Message = \<lparr>msg_role = RoleAssistant, msg_content = sa_contentParts a,
         msg_tool_calls = sa_toolCalls a, msg_tool_call_id = []\<rparr>, ch_FinishReason = reason\<rparr>]"
  by (simp add: finish_stream_def Let_def single_choice_def no_choice_def no_message_def)

lemma finish_stream_fields [simp]:
  "cc_ID (finish_stream a) = cc_ID (sa_accumulated a)" "cc_Model (finish_stream a) = cc_Model (sa_accumulated a)"
  "cc_Usage (finish_stream a) = cc_Usage (sa_accumulated a)"
  by (simp_all add: finish_stream_def Let_def)

section \<open>Tool calls cut into fragments\<close>

text \<open>The first fragment names the call, those after it carry argument text only.\<close>

definition argument_piece :: "string \<Rightarrow> tool_call" where
  "argument_piece s = \<lparr>tc_ID = [], tc_Type = [], tc_Name = [], tc_Arguments = s\<rparr>"

fun call_fragments :: "tool_call \<Rightarrow> string list \<Rightarrow> tool_call list" where
  "call_fragments tc [] = [tc]"
| "call_fragments tc (piece # pieces) = tc\<lparr>tc_Arguments := piece\<rparr> # map argument_piece pieces"

lemma extend_call_absent: "tc_ID tc \<notin> tc_ID ` set calls \<Longrightarrow> extend_call tc calls = None"
  by (induction calls) auto

lemma add_argument_piece:
  "add_fragment (argument_piece s) (calls @ [c]) = calls @ [c\<lparr>tc_Arguments := tc_Arguments c @ s\<rparr>]"
  by (simp add: add_fragment_def argument_piece_def)

lemma fold_argument_pieces:
  "fold add_fragment (map argument_piece pieces) (calls @ [c]) =
     calls @ [c\<lparr>tc_Arguments := tc_Arguments c @ concat pieces\<rparr>]"
  by (induction pieces arbitrary: c) (simp_all add: add_argument_piece)

lemma fold_call_fragments:
  assumes "tc_ID tc \<noteq> []" "tc_ID tc \<notin> tc_ID ` set calls" "pieces = [] \<or> concat pieces = tc_Arguments tc"
  shows "fold add_fragment (call_fragments tc pieces) calls = calls @ [tc]"
proof (cases pieces)
  case Nil
  then show ?thesis using assms by (simp add: add_fragment_def extend_call_absent)
next
  case (Cons p ps)
  have "add_fragment (tc\<lparr>tc_Arguments := p\<rparr>) calls = calls @ [tc\<lparr>tc_Arguments := p\<rparr>]"
    using assms by (simp add: add_fragment_def extend_call_absent)
  then show ?thesis using Cons assms(3) by (simp add: fold_argument_pieces)
qed

lemma fold_all_fragments:
  assumes "distinct (map tc_ID calls)" "[] \<notin> tc_ID ` set calls" "tc_ID ` set calls \<inter> tc_ID ` set old = {}"
    "list_all2 (\<lambda>tc pieces. pieces = [] \<or> concat pieces = tc_Arguments tc) calls cuts"
  shows "fold add_fragment (concat (map2 call_fragments calls cuts)) old = old @ calls"
  using assms(4,1-3)
proof (induction arbitrary: old rule: list_all2_induct)
  case (Cons tc calls pieces cuts)
  have "fold add_fragment (call_fragments tc pieces) old = old @ [tc]"
    using Cons.prems Cons.hyps(1) by (intro fold_call_fragments) auto
  then show ?case using Cons.IH [of "old @ [tc]"] Cons.prems by auto
qed simp

end
