(* ===== verification/AgentCompact.thy ===== *)
theory AgentCompact
  imports AgentStream Policy
begin

text \<open>
  Context compaction: the package \<open>src/internal/lib/handlers/gateway/compact\<close> (configuration, decision,
  summariser, gateway middleware) and its adapter to the agent runtime,
  \<open>src/internal/agents/runtime/monitor.go\<close>, with the consumer of its requests in \<open>loop.go\<close>. A finite
  \<open>float64\<close> is the rational it denotes and \<open>rnd\<close> the rounding of a result to \<open>float64\<close>.
\<close>

section \<open>Configuration\<close>

record compact_config =
  cpt_Enabled :: bool
  cpt_MaxContextTokens :: int
  cpt_BackgroundThreshold :: rat
  cpt_AggressiveThreshold :: rat
  cpt_EmergencyThreshold :: rat
  cpt_SummarizationModel :: string
  cpt_EnabledForProviders :: "string list"

definition DefaultConfig_compact :: "(rat \<Rightarrow> rat) \<Rightarrow> compact_config" where
  "DefaultConfig_compact rnd = \<lparr>cpt_Enabled = False, cpt_MaxContextTokens = 128000,
     cpt_BackgroundThreshold = rnd (80 / 100), cpt_AggressiveThreshold = rnd (85 / 100),
     cpt_EmergencyThreshold = rnd (95 / 100), cpt_SummarizationModel = ''gpt-4o-mini'',
     cpt_EnabledForProviders = []\<rparr>"

datatype compact_error = MaxContextNotPositive | BackgroundOutOfRange | AggressiveOutOfRange | EmergencyOutOfRange

definition Validate_compact :: "compact_config \<Rightarrow> compact_error option" where
  "Validate_compact c =
     (if cpt_MaxContextTokens c \<le> 0 then Some MaxContextNotPositive
      else if \<not> (cpt_BackgroundThreshold c > 0 \<and> cpt_BackgroundThreshold c < 1) then Some BackgroundOutOfRange
      else if \<not> (cpt_AggressiveThreshold c > cpt_BackgroundThreshold c \<and> cpt_AggressiveThreshold c < 1)
        then Some AggressiveOutOfRange
      else if \<not> (cpt_EmergencyThreshold c > cpt_AggressiveThreshold c \<and> cpt_EmergencyThreshold c \<le> 1)
        then Some EmergencyOutOfRange
      else None)"

definition IsProviderAllowed :: "compact_config \<Rightarrow> string \<Rightarrow> bool" where
  "IsProviderAllowed c name \<longleftrightarrow>
     cpt_EnabledForProviders c = [] \<or> list_ex (\<lambda>p. p = name) (cpt_EnabledForProviders c)"

text \<open>\<open>ParseMonitorConfig\<close>: each field is read under its own guard, no field against another.\<close>

definition read_when :: "'a option \<Rightarrow> ('a \<Rightarrow> bool) \<Rightarrow> ('a \<Rightarrow> 'c \<Rightarrow> 'c) \<Rightarrow> 'c \<Rightarrow> 'c" where
  "read_when v ok set_field cfg = (case v of Some x \<Rightarrow> if ok x then set_field x cfg else cfg | None \<Rightarrow> cfg)"

definition cfg_field :: "gofields \<Rightarrow> string \<Rightarrow> (goval \<Rightarrow> 'a option) \<Rightarrow> 'a option" where
  "cfg_field m key as = Option.bind (map_of m key) as"

definition ParseMonitorConfig :: "(rat \<Rightarrow> rat) \<Rightarrow> (rat \<Rightarrow> int) \<Rightarrow> gofields \<Rightarrow> compact_config" where
  "ParseMonitorConfig rnd ovf config =
     (case cfg_field config ''monitor'' as_map of
        None \<Rightarrow> DefaultConfig_compact rnd
      | Some m \<Rightarrow>
          let cfg = DefaultConfig_compact rnd;
              cfg = read_when (cfg_field m ''enabled'' as_bool) (\<lambda>_. True) (\<lambda>b c. c\<lparr>cpt_Enabled := b\<rparr>) cfg;
              cfg = read_when (cfg_field m ''max_context_tokens'' as_float) (\<lambda>f. f \<ge> 1000)
                      (\<lambda>f c. c\<lparr>cpt_MaxContextTokens := float_to_int 64 ovf f\<rparr>) cfg;
              cfg = read_when (cfg_field m ''background_threshold'' as_float) (\<lambda>f. f > 0 \<and> f < 1)
                      (\<lambda>f c. c\<lparr>cpt_BackgroundThreshold := f\<rparr>) cfg;
              cfg = read_when (cfg_field m ''aggressive_threshold'' as_float) (\<lambda>f. f > 0 \<and> f < 1)
                      (\<lambda>f c. c\<lparr>cpt_AggressiveThreshold := f\<rparr>) cfg;
              cfg = read_when (cfg_field m ''emergency_threshold'' as_float) (\<lambda>f. f > 0 \<and> f < 1)
                      (\<lambda>f c. c\<lparr>cpt_EmergencyThreshold := f\<rparr>) cfg
          in read_when (cfg_field m ''summarization_model'' as_string) (\<lambda>s. s \<noteq> [])
               (\<lambda>s c. c\<lparr>cpt_SummarizationModel := s\<rparr>) cfg)"

section \<open>Decision\<close>

datatype compact_action = ActionNone | ActionSummarize | ActionTruncate

record compact_decision =
  cd_Action :: compact_action
  cd_Tier :: string
  cd_ReplaceStart :: nat
  cd_ReplaceEnd :: nat
  cd_FreedTokens :: nat

definition nothing_to_do :: compact_decision where
  "nothing_to_do = \<lparr>cd_Action = ActionNone, cd_Tier = [], cd_ReplaceStart = 0, cd_ReplaceEnd = 0, cd_FreedTokens = 0\<rparr>"

definition TierBackground :: string where "TierBackground = ''background''"
definition TierAggressive :: string where "TierAggressive = ''aggressive''"
definition TierEmergency :: string where "TierEmergency = ''emergency''"

definition Estimate :: "chat_message list \<Rightarrow> nat" where
  "Estimate messages =
     fold (\<lambda>msg totalChars. totalChars + 16 + sum_list (map part_chars (msg_content msg)) +
             sum_list (map call_chars (msg_tool_calls msg))) messages 0 div 4"

definition message_range :: "nat \<Rightarrow> nat \<Rightarrow> chat_message list \<Rightarrow> chat_message list" where
  "message_range i j messages = take (j - i) (drop i messages)"

definition decideEmergency :: "chat_message list \<Rightarrow> compact_decision" where
  "decideEmergency messages =
     (if length messages \<le> 21 then nothing_to_do
      else let keepStart = length messages - 20
           in if keepStart \<le> 1 then nothing_to_do
              else \<lparr>cd_Action = ActionTruncate, cd_Tier = TierEmergency, cd_ReplaceStart = 1,
                    cd_ReplaceEnd = keepStart, cd_FreedTokens = Estimate (message_range 1 keepStart messages)\<rparr>)"

definition decideSummarize :: "(rat \<Rightarrow> rat) \<Rightarrow> chat_message list \<Rightarrow> rat \<Rightarrow> string \<Rightarrow> compact_decision" where
  "decideSummarize rnd messages fraction tier =
     (let startIdx = (if messages \<noteq> [] \<and> msg_role (hd messages) = RoleSystem then 1 else 0);
          nonSystemCount = length messages - startIdx;
          summarizeCount = truncate_float (rnd (rnd (of_nat nonSystemCount) * fraction))
      in if summarizeCount < 2 then nothing_to_do
         else let endIdx = startIdx + nat summarizeCount
              in \<lparr>cd_Action = ActionSummarize, cd_Tier = tier, cd_ReplaceStart = startIdx,
                  cd_ReplaceEnd = endIdx, cd_FreedTokens = Estimate (message_range startIdx endIdx messages)\<rparr>)"

definition Decide :: "(rat \<Rightarrow> rat) \<Rightarrow> compact_config \<Rightarrow> chat_message list \<Rightarrow> int \<Rightarrow> compact_decision" where
  "Decide rnd c messages promptTokens =
     (if \<not> cpt_Enabled c \<or> cpt_MaxContextTokens c \<le> 0 then nothing_to_do
      else let ratio = rnd (rnd (of_int promptTokens) / rnd (of_int (cpt_MaxContextTokens c)))
           in if ratio \<ge> cpt_EmergencyThreshold c then decideEmergency messages
              else if ratio \<ge> cpt_AggressiveThreshold c
                then decideSummarize rnd messages (rnd (60 / 100)) TierAggressive
              else if ratio \<ge> cpt_BackgroundThreshold c
                then decideSummarize rnd messages (rnd (30 / 100)) TierBackground
              else nothing_to_do)"

section \<open>Replacing a range\<close>

definition spliceOne :: "chat_message list \<Rightarrow> nat \<Rightarrow> nat \<Rightarrow> chat_message \<Rightarrow> chat_message list" where
  "spliceOne messages i j replacement = take i messages @ [replacement] @ drop j messages"

definition applyTruncate :: "chat_message list \<Rightarrow> compact_decision \<Rightarrow> chat_message list" where
  "applyTruncate messages d =
     spliceOne messages (cd_ReplaceStart d) (cd_ReplaceEnd d)
       (text_message RoleSystem (''[Context compacted: '' @
          decimal (int (cd_ReplaceEnd d) - int (cd_ReplaceStart d)) @
          '' earlier messages were removed to free context space.]''))"

definition summary_text :: "string \<Rightarrow> string \<Rightarrow> string" where
  "summary_text tier summary = ''[Context summary ('' @ tier @ '' compaction)]'' @ line_feed @ summary"

definition applySummary :: "chat_message list \<Rightarrow> compact_decision \<Rightarrow> string \<Rightarrow> chat_message list" where
  "applySummary messages d summary =
     spliceOne messages (cd_ReplaceStart d) (cd_ReplaceEnd d)
       (text_message RoleSystem (summary_text (cd_Tier d) summary))"

section \<open>The summariser\<close>

definition ellipsis :: string where "ellipsis = [CHR 0xE2, CHR 0x80, CHR 0xA6]"

definition truncateString_compact :: "string \<Rightarrow> nat \<Rightarrow> string" where
  "truncateString_compact s maxLen = (if length s \<le> maxLen then s else take maxLen s @ ellipsis)"

definition text_lines :: "(string \<Rightarrow> string) \<Rightarrow> content_part list \<Rightarrow> string" where
  "text_lines line parts = concat (map (\<lambda>part. case part_text part of None \<Rightarrow> [] | Some s \<Rightarrow> line s) parts)"

definition transcript_of :: "chat_message \<Rightarrow> string" where
  "transcript_of msg =
     text_lines (\<lambda>s. ''['' @ msg_role msg @ '']: '' @ s @ line_feed) (msg_content msg) @
     concat (map (\<lambda>tc. ''[tool_call '' @ tc_ID tc @ '']: '' @ tc_Name tc @ ''('' @
                       truncateString_compact (tc_Arguments tc) 200 @ '')'' @ line_feed) (msg_tool_calls msg)) @
     (if msg_tool_call_id msg \<noteq> []
      then text_lines (\<lambda>s. ''[tool_result '' @ msg_tool_call_id msg @ '']: '' @ truncateString_compact s 500 @ line_feed)
             (msg_content msg)
      else [])"

definition buildTranscript :: "chat_message list \<Rightarrow> string" where
  "buildTranscript messages = concat (map transcript_of messages)"

datatype 'e summary_error =
    NoSummaryProvider
  | NoSummaryModel
  | SummaryCallFailed 'e
  | SummaryNoOutput
  | SummaryNoText
  | NoResolver
  | ResolveSummaryModel 'e

definition summaryPrompt :: "string \<Rightarrow> string" where
  "summaryPrompt transcript =
     ''Summarize the following conversation excerpt concisely, preserving all important facts, decisions, tool results, and context needed for continuing the conversation. Focus on what was done, what was decided, and any important outputs.'' @
     line_feed @ line_feed @ ''Conversation:'' @ line_feed @ transcript @ line_feed @ line_feed @ ''Summary:''"

text \<open>\<open>chat model prompt\<close> is the provider's answer to the single user message, with temperature 0.3 and 1000 tokens.\<close>

definition Summarize ::
    "(string \<Rightarrow> string \<Rightarrow> 'e + chat_completion) option \<Rightarrow> string \<Rightarrow> chat_message list \<Rightarrow> 'e summary_error + string" where
  "Summarize provider model messages =
     (case provider of
        None \<Rightarrow> Inl NoSummaryProvider
      | Some chat \<Rightarrow>
          if model = [] then Inl NoSummaryModel
          else if messages = [] then Inr []
          else case chat model (summaryPrompt (buildTranscript messages)) of
            Inl e \<Rightarrow> Inl (SummaryCallFailed e)
          | Inr resp \<Rightarrow>
              if cc_Choices resp = [] \<or> msg_content (ch_Message (hd (cc_Choices resp))) = []
              then Inl SummaryNoOutput
              else case part_text (hd (msg_content (ch_Message (hd (cc_Choices resp))))) of
                None \<Rightarrow> Inl SummaryNoText
              | Some s \<Rightarrow> Inr s)"

section \<open>The gateway middleware\<close>

type_synonym 'e summary_resolver = "string \<Rightarrow> 'e + (string \<Rightarrow> string \<Rightarrow> 'e + chat_completion)"

record 'e compact_middleware =
  cm_providerName :: string
  cm_cfg :: compact_config
  cm_summarizerResolve :: "'e summary_resolver option"

definition runSummarize ::
    "'e compact_middleware \<Rightarrow> chat_message list \<Rightarrow> compact_decision \<Rightarrow> 'e summary_error + string" where
  "runSummarize m messages d =
     (case cm_summarizerResolve m of
        None \<Rightarrow> Inl NoResolver
      | Some resolve \<Rightarrow>
          (case resolve (cpt_SummarizationModel (cm_cfg m)) of
             Inl e \<Rightarrow> Inl (ResolveSummaryModel e)
           | Inr provider \<Rightarrow>
               Summarize (Some provider) (cpt_SummarizationModel (cm_cfg m))
                 (message_range (cd_ReplaceStart d) (cd_ReplaceEnd d) messages)))"

text \<open>\<open>opt_out\<close>: the request's metadata has the string \<open>"off"\<close> under \<open>compact\<close>. The messages that are passed on.\<close>

definition maybeCompact ::
    "(rat \<Rightarrow> rat) \<Rightarrow> 'e compact_middleware \<Rightarrow> bool \<Rightarrow> chat_message list \<Rightarrow> chat_message list" where
  "maybeCompact rnd m opt_out messages =
     (if \<not> cpt_Enabled (cm_cfg m) \<or> \<not> IsProviderAllowed (cm_cfg m) (cm_providerName m) \<or> opt_out \<or> messages = []
      then messages
      else let d = Decide rnd (cm_cfg m) messages (int (Estimate messages)) in
        case cd_Action d of
          ActionNone \<Rightarrow> messages
        | ActionTruncate \<Rightarrow> applyTruncate messages d
        | ActionSummarize \<Rightarrow>
            (case runSummarize m messages d of
               Inl _ \<Rightarrow> messages
             | Inr summary \<Rightarrow> applySummary messages d summary))"

section \<open>The monitor of a session\<close>

record compact_request =
  cr_ReplaceStart :: int
  cr_ReplaceEnd :: int
  cr_SummaryMessage :: chat_message
  cr_Tier :: string
  cr_FreedTokens :: nat

text \<open>\<open>EventCompactionTriggered\<close> carries the range of a truncation, the counts of a summary.\<close>

datatype monitor_event =
    TruncationTriggered string nat nat
  | SummaryTriggered string nat nat
  | CompactionFailed string

record context_summary =
  cs_Tier :: string
  cs_Content :: string
  cs_FreedTokens :: nat

record session_monitor =
  mon_compactCh :: "compact_request list"
  mon_summaryStack :: "context_summary list"
  mon_events :: "monitor_event list"

definition compactChCapacity :: nat where "compactChCapacity = 4"

definition dispatch :: "compact_request \<Rightarrow> string \<Rightarrow> session_monitor \<Rightarrow> session_monitor" where
  "dispatch req summaryText m =
     (if length (mon_compactCh m) < compactChCapacity
      then m\<lparr>mon_compactCh := mon_compactCh m @ [req],
             mon_summaryStack := mon_summaryStack m @
               [\<lparr>cs_Tier = cr_Tier req, cs_Content = summaryText, cs_FreedTokens = cr_FreedTokens req\<rparr>]\<rparr>
      else m)"

definition request_of :: "compact_decision \<Rightarrow> string \<Rightarrow> compact_request" where
  "request_of d summaryText =
     \<lparr>cr_ReplaceStart = int (cd_ReplaceStart d), cr_ReplaceEnd = int (cd_ReplaceEnd d),
      cr_SummaryMessage = text_message RoleSystem summaryText, cr_Tier = cd_Tier d,
      cr_FreedTokens = cd_FreedTokens d\<rparr>"

definition handleTruncate :: "compact_decision \<Rightarrow> session_monitor \<Rightarrow> session_monitor" where
  "handleTruncate d m =
     (let m1 = m\<lparr>mon_events := mon_events m @
            [TruncationTriggered (cd_Tier d) (cd_ReplaceStart d) (cd_ReplaceEnd d)]\<rparr>;
          summaryText = ''[Context compacted: '' @ decimal (int (cd_ReplaceEnd d) - int (cd_ReplaceStart d)) @
            '' earlier messages were removed to free context space. The conversation continues below.]''
      in dispatch (request_of d summaryText) summaryText m1)"

definition handleSummarize ::
    "'e summary_resolver \<Rightarrow> string \<Rightarrow> chat_message list \<Rightarrow> compact_decision \<Rightarrow> session_monitor \<Rightarrow> session_monitor" where
  "handleSummarize resolve model messages d m =
     (let m1 = m\<lparr>mon_events := mon_events m @
            [SummaryTriggered (cd_Tier d) (length messages) (cd_ReplaceEnd d - cd_ReplaceStart d)]\<rparr>;
          failed = m1\<lparr>mon_events := mon_events m1 @ [CompactionFailed (cd_Tier d)]\<rparr>
      in case resolve model of
           Inl _ \<Rightarrow> failed
         | Inr provider \<Rightarrow>
             (case Summarize (Some provider) model
                     (message_range (cd_ReplaceStart d) (cd_ReplaceEnd d) messages) of
                Inl _ \<Rightarrow> failed
              | Inr s \<Rightarrow> dispatch (request_of d (summary_text (cd_Tier d) s)) (summary_text (cd_Tier d) s) m1))"

definition ObserveTurnEnd ::
    "(rat \<Rightarrow> rat) \<Rightarrow> compact_config \<Rightarrow> 'e summary_resolver \<Rightarrow> chat_message list \<Rightarrow> int \<Rightarrow>
       session_monitor \<Rightarrow> session_monitor" where
  "ObserveTurnEnd rnd cfg resolve messages promptTokens m =
     (let d = Decide rnd cfg messages promptTokens in
      case cd_Action d of
        ActionNone \<Rightarrow> m
      | ActionTruncate \<Rightarrow> handleTruncate d m
      | ActionSummarize \<Rightarrow> handleSummarize resolve (cpt_SummarizationModel cfg) messages d m)"

text \<open>The loop's consumer: a request whose range does not fit the conversation of this moment is ignored.\<close>

definition request_fits :: "compact_request \<Rightarrow> chat_message list \<Rightarrow> bool" where
  "request_fits req messages \<longleftrightarrow>
     cr_ReplaceEnd req \<le> int (length messages) \<and> cr_ReplaceStart req \<ge> 0 \<and> cr_ReplaceStart req < cr_ReplaceEnd req"

definition apply_compact_request :: "compact_request \<Rightarrow> chat_message list \<Rightarrow> chat_message list" where
  "apply_compact_request req messages =
     (if request_fits req messages
      then take (nat (cr_ReplaceStart req)) messages @ [cr_SummaryMessage req] @ drop (nat (cr_ReplaceEnd req)) messages
      else messages)"

section \<open>Facts\<close>

lemma Estimate_eq_EstimateTokens: "Estimate messages = EstimateTokens messages"
proof -
  have "fold (\<lambda>msg totalChars. totalChars + 16 + sum_list (map part_chars (msg_content msg)) +
           sum_list (map call_chars (msg_tool_calls msg))) messages n =
        n + sum_list (map message_chars messages)" for n
    by (induction messages arbitrary: n) (simp_all add: message_chars_def)
  then show ?thesis by (simp add: Estimate_def EstimateTokens_def)
qed

lemma request_of_decision:
  assumes "cd_ReplaceStart d < cd_ReplaceEnd d" "cd_ReplaceEnd d \<le> length messages"
  shows "apply_compact_request (request_of d s) messages =
    spliceOne messages (cd_ReplaceStart d) (cd_ReplaceEnd d) (text_message RoleSystem s)"
  using assms by (simp add: apply_compact_request_def request_fits_def request_of_def spliceOne_def)

lemma decideEmergency_range:
  "cd_Action (decideEmergency messages) \<noteq> ActionNone \<Longrightarrow>
     length messages > 21 \<and> cd_Action (decideEmergency messages) = ActionTruncate \<and>
     cd_ReplaceStart (decideEmergency messages) = 1 \<and> cd_ReplaceEnd (decideEmergency messages) = length messages - 20"
  by (auto simp: decideEmergency_def nothing_to_do_def Let_def split: if_splits)

text \<open>What is relied on of \<open>float64\<close> rounding: it is monotone, and small dyadic fractions are representable.\<close>

definition float_rounding :: "(rat \<Rightarrow> rat) \<Rightarrow> bool" where
  "float_rounding rnd \<longleftrightarrow>
     mono rnd \<and> (\<forall>n k :: nat. n \<le> 2 ^ 53 \<longrightarrow> k \<le> 8 \<longrightarrow> rnd (of_nat n / 2 ^ k) = of_nat n / 2 ^ k)"

lemma float_rounding_id: "float_rounding (\<lambda>x. x)"
  by (simp add: float_rounding_def mono_def)

text \<open>The configured shares are 30 and 60 percent, below five eighths also after rounding.\<close>

lemma rounded_share:
  assumes "float_rounding rnd" "5 * n \<le> 2 ^ 53" "f \<le> 5 / 8"
  shows "8 * nat (truncate_float (rnd (rnd (of_nat n) * rnd f))) \<le> 5 * n"
proof -
  from assms(1) have mono: "\<And>x y. x \<le> y \<Longrightarrow> rnd x \<le> rnd y"
    and exact: "\<And>m k :: nat. m \<le> 2 ^ 53 \<Longrightarrow> k \<le> 8 \<Longrightarrow> rnd (of_nat m / 2 ^ k) = of_nat m / 2 ^ k"
    by (auto simp: float_rounding_def mono_def)
  have "rnd f \<le> 5 / 8" using mono [OF assms(3)] exact [of 5 3] by simp
  moreover have "rnd (of_nat n) = of_nat n" using exact [of n 0] assms(2) by simp
  ultimately have "rnd (of_nat n) * rnd f \<le> of_nat (5 * n) / 2 ^ 3"
    using mult_left_mono [of "rnd f" "5 / 8" "of_nat n"] by simp
  then have "rnd (rnd (of_nat n) * rnd f) \<le> of_nat (5 * n) / 2 ^ 3"
    using mono [of "rnd (of_nat n) * rnd f" "of_nat (5 * n) / 2 ^ 3"] exact [of "5 * n" 3] assms(2) by simp
  then have "rnd (rnd (of_nat n) * rnd f) * 8 \<le> of_nat (5 * n)" by simp
  moreover have "truncate_float x * 8 \<le> int (5 * n)" if "x * 8 \<le> of_nat (5 * n)" for x :: rat
  proof (cases "x \<ge> 0")
    case True
    have "of_int (truncate_float x * 8) \<le> x * 8" using True by (simp add: truncate_float_def)
    with that have "of_int (truncate_float x * 8) \<le> (of_int (int (5 * n)) :: rat)" by simp
    then show ?thesis by (simp only: of_int_le_iff)
  next
    case False
    then have "truncate_float x \<le> 0" by (simp add: truncate_float_def)
    then show ?thesis by linarith
  qed
  ultimately have "truncate_float (rnd (rnd (of_nat n) * rnd f)) * 8 \<le> int (5 * n)" by blast
  then show ?thesis by linarith
qed

lemma decideSummarize_range:
  assumes "float_rounding rnd" "length messages \<le> 2 ^ 50" "f \<le> 5 / 8"
    and "cd_Action (decideSummarize rnd messages (rnd f) tier) \<noteq> ActionNone"
  defines "d \<equiv> decideSummarize rnd messages (rnd f) tier"
  shows "cd_Action d = ActionSummarize" "cd_ReplaceStart d + 2 \<le> cd_ReplaceEnd d"
    "8 * (cd_ReplaceEnd d - cd_ReplaceStart d) \<le> 5 * (length messages - cd_ReplaceStart d)"
    "cd_ReplaceEnd d \<le> length messages"
    "cd_ReplaceStart d = (if messages \<noteq> [] \<and> msg_role (hd messages) = RoleSystem then 1 else 0)"
proof -
  define s where "s = (if messages \<noteq> [] \<and> msg_role (hd messages) = RoleSystem then 1 else 0 :: nat)"
  define k where "k = truncate_float (rnd (rnd (of_nat (length messages - s)) * rnd f))"
  have d: "d = (if k < 2 then nothing_to_do
      else \<lparr>cd_Action = ActionSummarize, cd_Tier = tier, cd_ReplaceStart = s, cd_ReplaceEnd = s + nat k,
            cd_FreedTokens = Estimate (message_range s (s + nat k) messages)\<rparr>)"
    unfolding d_def decideSummarize_def Let_def s_def [symmetric] k_def [symmetric] ..
  with assms(4) have k: "\<not> k < 2" unfolding d_def [symmetric] by (auto simp: nothing_to_do_def)
  have share: "8 * nat k \<le> 5 * (length messages - s)"
    unfolding k_def using assms(2) by (intro rounded_share assms) simp
  have "s \<le> length messages" by (auto simp: s_def Suc_le_eq)
  with share have "s + nat k \<le> length messages" by linarith
  with k share show "cd_Action d = ActionSummarize" "cd_ReplaceStart d + 2 \<le> cd_ReplaceEnd d"
    "8 * (cd_ReplaceEnd d - cd_ReplaceStart d) \<le> 5 * (length messages - cd_ReplaceStart d)"
    "cd_ReplaceEnd d \<le> length messages"
    "cd_ReplaceStart d = (if messages \<noteq> [] \<and> msg_role (hd messages) = RoleSystem then 1 else 0)"
    by (simp_all add: d s_def)
qed

text \<open>What \<open>Decide\<close> asks for, in every tier.\<close>

lemma Decide_range:
  assumes "float_rounding rnd" "length messages \<le> 2 ^ 50" "cd_Action (Decide rnd c messages n) \<noteq> ActionNone"
  defines "d \<equiv> Decide rnd c messages n"
  shows "cd_ReplaceStart d < cd_ReplaceEnd d" "cd_ReplaceEnd d \<le> length messages"
    "cd_ReplaceStart d \<le> 1" "msg_role (hd messages) = RoleSystem \<Longrightarrow> cd_ReplaceStart d = 1"
    "cd_ReplaceEnd d + 20 = length messages \<or>
     8 * (cd_ReplaceEnd d - cd_ReplaceStart d) \<le> 5 * (length messages - cd_ReplaceStart d)"
proof -
  have aggressive: "(60 / 100 :: rat) \<le> 5 / 8" and background: "(30 / 100 :: rat) \<le> 5 / 8" by simp_all
  consider "d = decideEmergency messages"
    | "d = decideSummarize rnd messages (rnd (60 / 100)) TierAggressive"
    | "d = decideSummarize rnd messages (rnd (30 / 100)) TierBackground"
    using assms(3) unfolding d_def Decide_def by (auto simp: nothing_to_do_def Let_def split: if_splits)
  then have "cd_ReplaceStart d < cd_ReplaceEnd d \<and> cd_ReplaceEnd d \<le> length messages \<and>
     cd_ReplaceStart d \<le> 1 \<and> (msg_role (hd messages) = RoleSystem \<longrightarrow> cd_ReplaceStart d = 1) \<and>
     (cd_ReplaceEnd d + 20 = length messages \<or>
     8 * (cd_ReplaceEnd d - cd_ReplaceStart d) \<le> 5 * (length messages - cd_ReplaceStart d))"
  proof cases
    case 1
    with assms(3) have "cd_Action (decideEmergency messages) \<noteq> ActionNone" by (simp add: d_def)
    from decideEmergency_range [OF this] show ?thesis by (auto simp: 1)
  next
    case 2
    with assms(3) decideSummarize_range [OF assms(1,2) aggressive, of TierAggressive]
    show ?thesis unfolding d_def [symmetric] 2 [symmetric] by (auto split: if_splits)
  next
    case 3
    with assms(3) decideSummarize_range [OF assms(1,2) background, of TierBackground]
    show ?thesis unfolding d_def [symmetric] 3 [symmetric] by (auto split: if_splits)
  qed
  then show "cd_ReplaceStart d < cd_ReplaceEnd d" "cd_ReplaceEnd d \<le> length messages"
    "cd_ReplaceStart d \<le> 1" "msg_role (hd messages) = RoleSystem \<Longrightarrow> cd_ReplaceStart d = 1"
    "cd_ReplaceEnd d + 20 = length messages \<or>
     8 * (cd_ReplaceEnd d - cd_ReplaceStart d) \<le> 5 * (length messages - cd_ReplaceStart d)"
    by simp_all
qed

text \<open>Two decisions of the same moment, applied one after the other, remove messages neither has summarised.\<close>

lemma queued_compactions_lose_messages:
  assumes "s < e" "e + (e - s) - 1 \<le> length messages"
    and "req = request_of \<lparr>cd_Action = ActionSummarize, cd_Tier = tier, cd_ReplaceStart = s, cd_ReplaceEnd = e,
                           cd_FreedTokens = n\<rparr> body"
  shows "apply_compact_request req (apply_compact_request req messages) =
    take s messages @ [text_message RoleSystem body] @ drop (e + (e - s) - 1) messages"
proof -
  have once: "apply_compact_request req messages = take s messages @ [text_message RoleSystem body] @ drop e messages"
    using request_of_decision [of "\<lparr>cd_Action = ActionSummarize, cd_Tier = tier, cd_ReplaceStart = s,
        cd_ReplaceEnd = e, cd_FreedTokens = n\<rparr>" messages body] assms
    by (simp add: spliceOne_def)
  have len: "length (apply_compact_request req messages) \<ge> e"
    using assms unfolding once by simp
  have "apply_compact_request req (apply_compact_request req messages) =
      take s (apply_compact_request req messages) @ [text_message RoleSystem body] @ drop e (apply_compact_request req messages)"
    using request_of_decision [of "\<lparr>cd_Action = ActionSummarize, cd_Tier = tier, cd_ReplaceStart = s,
        cd_ReplaceEnd = e, cd_FreedTokens = n\<rparr>" "apply_compact_request req messages" body] assms len
    by (simp add: spliceOne_def)
  also have "\<dots> = take s messages @ [text_message RoleSystem body] @ drop (e + (e - s) - 1) messages"
  proof -
    have "s \<le> length messages" using assms by simp
    moreover have "drop e (take s messages @ [text_message RoleSystem body] @ drop e messages) =
        drop (e - s - 1) (drop e messages)"
      using assms \<open>s \<le> length messages\<close> by (cases "e - s") (simp_all add: min_def)
    moreover have "drop (e - s - 1) (drop e messages) = drop (e + (e - s) - 1) messages"
      using assms by (simp add: add.commute)
    ultimately show ?thesis unfolding once by simp
  qed
  finally show ?thesis .
qed

text \<open>The text of a tool result enters the transcript in full before its shortened copy.\<close>

lemma tool_result_twice_in_transcript:
  "transcript_of (tool_message i s) =
     (if i = [] then ''[tool]: '' @ s @ line_feed
      else ''[tool]: '' @ s @ line_feed @ ''[tool_result '' @ i @ '']: '' @ truncateString_compact s 500 @ line_feed)"
  by (simp add: transcript_of_def text_lines_def RoleTool_def)

end
