(* ===== verification/AgentConfig.thy ===== *)
theory AgentConfig
  imports AgentCompact GatewayPlan GatewayDefaults
begin

text \<open>
  What an agent's configuration says to the runtime: the approval gate
  (\<open>src/internal/agents/runtime/approval.go\<close>), the model fallback, the API type and the sampling
  parameters (\<open>engine.go\<close>), the limits of the loop (\<open>loop.go\<close>). \<open>path_match\<close> stands for
  \<open>filepath.Match\<close>, a malformed pattern being no match.
\<close>

section \<open>The limits of the loop\<close>

record loop_config =
  lp_MaxIterations :: int
  lp_MaxToolCallsPerTurn :: int
  lp_MaxHistoryMessages :: int
  lp_EnableStreaming :: bool
  lp_TurnTimeout :: int
  lp_SessionTokenBudget :: int

definition go_minutes :: "int \<Rightarrow> int" where
  "go_minutes n = n * 60000000000"

definition DefaultLoopConfig :: loop_config where
  "DefaultLoopConfig = \<lparr>lp_MaxIterations = 200, lp_MaxToolCallsPerTurn = 0, lp_MaxHistoryMessages = 100,
     lp_EnableStreaming = True, lp_TurnTimeout = go_minutes 30, lp_SessionTokenBudget = 0\<rparr>"

definition NewLoop :: "loop_config \<Rightarrow> loop_config" where
  "NewLoop c = c\<lparr>
     lp_MaxIterations := (if lp_MaxIterations c \<le> 0 then 200 else lp_MaxIterations c),
     lp_MaxHistoryMessages := (if lp_MaxHistoryMessages c \<le> 0 then 100 else lp_MaxHistoryMessages c),
     lp_TurnTimeout := (if lp_TurnTimeout c \<le> 0 then go_minutes 30 else lp_TurnTimeout c)\<rparr>"

lemma NewLoop_positive:
  "lp_MaxIterations (NewLoop c) > 0" "lp_MaxHistoryMessages (NewLoop c) > 0" "lp_TurnTimeout (NewLoop c) > 0"
  by (simp_all add: NewLoop_def go_minutes_def)

section \<open>The approval gate\<close>

record hitl_config =
  hc_Tools :: "string list"
  hc_TimeoutSeconds :: int
  hc_DefaultAction :: string
  hc_MatchMode :: string

definition one_of :: "string list \<Rightarrow> string \<Rightarrow> bool" where
  "one_of choices s \<longleftrightarrow> s \<in> set choices"

definition ParseHITLConfig :: "(rat \<Rightarrow> int) \<Rightarrow> gofields \<Rightarrow> hitl_config option" where
  "ParseHITLConfig ovf config =
     (case cfg_field config ''hitl'' as_map of
        None \<Rightarrow> None
      | Some m \<Rightarrow>
          let cfg = \<lparr>hc_Tools = (case cfg_field m ''tools'' as_list of None \<Rightarrow> [] | Some vs \<Rightarrow> strings_of vs),
                     hc_TimeoutSeconds = 3600, hc_DefaultAction = ''deny'', hc_MatchMode = ''exact''\<rparr>
          in if hc_Tools cfg = [] then None
             else
               let cfg = read_when (cfg_field m ''timeout_seconds'' as_float) (\<lambda>f. f > 0)
                           (\<lambda>f c. c\<lparr>hc_TimeoutSeconds := float_to_int 64 ovf f\<rparr>) cfg;
                   cfg = read_when (cfg_field m ''default_action'' as_string) (one_of [''approve'', ''deny''])
                           (\<lambda>s c. c\<lparr>hc_DefaultAction := s\<rparr>) cfg
               in Some (read_when (cfg_field m ''match_mode'' as_string) (one_of [''exact'', ''glob''])
                          (\<lambda>s c. c\<lparr>hc_MatchMode := s\<rparr>) cfg))"

fun matchesToolPattern :: "(string \<Rightarrow> string \<Rightarrow> bool) \<Rightarrow> string \<Rightarrow> string list \<Rightarrow> string \<Rightarrow> bool" where
  "matchesToolPattern path_match toolName [] matchMode \<longleftrightarrow> False"
| "matchesToolPattern path_match toolName (pattern # patterns) matchMode \<longleftrightarrow>
     (if matchMode = ''glob''
      then if path_match pattern toolName then True else matchesToolPattern path_match toolName patterns matchMode
      else if pattern = toolName then True else matchesToolPattern path_match toolName patterns matchMode)"

lemma matchesToolPattern_iff:
  "matchesToolPattern path_match name patterns mode \<longleftrightarrow>
     (\<exists>p \<in> set patterns. if mode = ''glob'' then path_match p name else p = name)"
  by (induction patterns) auto

definition FilterToolCallsNeedingApproval ::
    "(string \<Rightarrow> string \<Rightarrow> bool) \<Rightarrow> tool_call list \<Rightarrow> hitl_config option \<Rightarrow> tool_call list" where
  "FilterToolCallsNeedingApproval path_match toolCalls cfg =
     (case cfg of
        None \<Rightarrow> []
      | Some c \<Rightarrow>
          if hc_Tools c = [] then []
          else filter (\<lambda>tc. matchesToolPattern path_match (tc_Name tc) (hc_Tools c) (hc_MatchMode c)) toolCalls)"

definition needs_approval :: "(string \<Rightarrow> string \<Rightarrow> bool) \<Rightarrow> hitl_config \<Rightarrow> tool_call \<Rightarrow> bool" where
  "needs_approval path_match c tc \<longleftrightarrow>
     (\<exists>p \<in> set (hc_Tools c). if hc_MatchMode c = ''glob'' then path_match p (tc_Name tc) else p = tc_Name tc)"

lemma FilterToolCallsNeedingApproval_Some [simp]:
  "FilterToolCallsNeedingApproval path_match calls (Some c) = filter (needs_approval path_match c) calls"
  by (auto simp: FilterToolCallsNeedingApproval_def matchesToolPattern_iff needs_approval_def [abs_def])

lemma FilterToolCallsNeedingApproval_None [simp]:
  "FilterToolCallsNeedingApproval path_match calls None = []"
  by (simp add: FilterToolCallsNeedingApproval_def)

record per_tool_decision =
  pd_ToolCallID :: string
  pd_Action :: string
  pd_Reason :: string

definition ExpandBatchDecision :: "string \<Rightarrow> tool_call list \<Rightarrow> string \<Rightarrow> per_tool_decision list" where
  "ExpandBatchDecision action toolCalls reason =
     map (\<lambda>tc. \<lparr>pd_ToolCallID = tc_ID tc, pd_Action = action, pd_Reason = reason\<rparr>) toolCalls"

datatype hitl_error = ToolsNotStrings | TimeoutOutOfRange | InvalidDefaultAction | InvalidMatchMode

definition ValidateHITLConfig :: "gofields \<Rightarrow> hitl_error option" where
  "ValidateHITLConfig config =
     (case cfg_field config ''hitl'' as_map of
        None \<Rightarrow> None
      | Some m \<Rightarrow>
          if (case map_of m ''tools'' of
                None \<Rightarrow> False
              | Some v \<Rightarrow> (case as_list v of None \<Rightarrow> True | Some vs \<Rightarrow> list_ex (\<lambda>t. as_string t = None) vs))
          then Some ToolsNotStrings
          else if (case map_of m ''timeout_seconds'' of
                     None \<Rightarrow> False
                   | Some v \<Rightarrow> (case as_float v of None \<Rightarrow> True | Some ts \<Rightarrow> ts < 1 \<or> ts > 86400))
          then Some TimeoutOutOfRange
          else if (case map_of m ''default_action'' of
                     None \<Rightarrow> False
                   | Some v \<Rightarrow> (case as_string v of None \<Rightarrow> True | Some s \<Rightarrow> s \<noteq> ''approve'' \<and> s \<noteq> ''deny''))
          then Some InvalidDefaultAction
          else if (case map_of m ''match_mode'' of
                     None \<Rightarrow> False
                   | Some v \<Rightarrow> (case as_string v of None \<Rightarrow> True | Some s \<Rightarrow> s \<noteq> ''exact'' \<and> s \<noteq> ''glob''))
          then Some InvalidMatchMode
          else None)"

lemma strings_of_all_strings:
  "\<not> list_ex (\<lambda>t. as_string t = None) vs \<Longrightarrow> map GoStr (strings_of vs) = vs"
proof (induction vs)
  case (Cons v vs)
  then show ?case by (cases v) auto
qed simp

lemma read_when_field:
  "cfg_field m key as = Some x \<Longrightarrow> ok x \<Longrightarrow> read_when (cfg_field m key as) ok put c = put x c"
  by (simp add: read_when_def)

text \<open>The fields of a parsed gate, one by one.\<close>

lemma ParseHITLConfig_fields:
  assumes "cfg_field config ''hitl'' as_map = Some m" "ParseHITLConfig ovf config = Some c"
  shows "hc_Tools c = (case cfg_field m ''tools'' as_list of None \<Rightarrow> [] | Some vs \<Rightarrow> strings_of vs)"
    and "hc_TimeoutSeconds c =
      (case cfg_field m ''timeout_seconds'' as_float of
         Some f \<Rightarrow> if f > 0 then float_to_int 64 ovf f else 3600 | None \<Rightarrow> 3600)"
    and "hc_DefaultAction c =
      (case cfg_field m ''default_action'' as_string of
         Some s \<Rightarrow> if s = ''approve'' \<or> s = ''deny'' then s else ''deny'' | None \<Rightarrow> ''deny'')"
    and "hc_MatchMode c =
      (case cfg_field m ''match_mode'' as_string of
         Some s \<Rightarrow> if s = ''exact'' \<or> s = ''glob'' then s else ''exact'' | None \<Rightarrow> ''exact'')"
  using assms
  by (auto simp: ParseHITLConfig_def Let_def read_when_def one_of_def split: option.splits if_splits)

lemma ParseHITLConfig_None_iff:
  "ParseHITLConfig ovf config = None \<longleftrightarrow>
     (case cfg_field config ''hitl'' as_map of
        None \<Rightarrow> True
      | Some m \<Rightarrow> (case cfg_field m ''tools'' as_list of None \<Rightarrow> True | Some vs \<Rightarrow> strings_of vs = []))"
  by (auto simp: ParseHITLConfig_def Let_def split: option.splits)

text \<open>Without validation a gate whose tools are a single string, not a list, is no gate.\<close>

lemma misspelt_tools_disable_gate:
  "ParseHITLConfig ovf [(''hitl'', GoMap [(''tools'', GoStr ''run_shell'')])] = None"
  "ValidateHITLConfig [(''hitl'', GoMap [(''tools'', GoStr ''run_shell'')])] = Some ToolsNotStrings"
  by (simp_all add: ParseHITLConfig_None_iff ValidateHITLConfig_def cfg_field_def)

section \<open>Fallback models\<close>

record agent_fallback =
  af_Models :: "string list"
  af_MaxAttempts :: int
  af_BackoffMs :: int

definition ParseFallbackConfig :: "(rat \<Rightarrow> int) \<Rightarrow> gofields \<Rightarrow> agent_fallback option" where
  "ParseFallbackConfig ovf config =
     (case cfg_field config ''fallback'' as_map of
        None \<Rightarrow> None
      | Some m \<Rightarrow>
          if cfg_field m ''enabled'' as_bool \<noteq> Some True then None
          else
            let cfg = \<lparr>af_Models = (case cfg_field m ''models'' as_list of
                                      None \<Rightarrow> [] | Some vs \<Rightarrow> filter (\<lambda>s. s \<noteq> []) (strings_of vs)),
                       af_MaxAttempts = 1, af_BackoffMs = 0\<rparr>
            in if af_Models cfg = [] then None
               else
                 let cfg = read_when (cfg_field m ''max_attempts'' as_float) (\<lambda>f. f > 0)
                             (\<lambda>f c. c\<lparr>af_MaxAttempts := float_to_int 64 ovf f\<rparr>) cfg
                 in Some (read_when (cfg_field m ''backoff_ms'' as_float) (\<lambda>f. f \<ge> 0)
                            (\<lambda>f c. c\<lparr>af_BackoffMs := float_to_int 64 ovf f\<rparr>) cfg))"

text \<open>A positive fraction is accepted as a number of attempts and truncated to none.\<close>

lemma fractional_attempts:
  "map_option af_MaxAttempts (ParseFallbackConfig ovf [(''fallback'',
     GoMap [(''enabled'', GoBool True), (''models'', GoList [GoStr ''m'']), (''max_attempts'', GoFloat (1 / 2))])])
   = Some 0"
  by (simp add: ParseFallbackConfig_def cfg_field_def read_when_def Let_def float_to_int_def truncate_float_def
    floor_eq_iff)

definition ParseAPIType :: "gofields \<Rightarrow> string" where
  "ParseAPIType config =
     (case cfg_field config ''api_type'' as_string of
        Some apiType \<Rightarrow> if apiType = ''responses'' then ''responses'' else ''chat_completions''
      | None \<Rightarrow> ''chat_completions'')"

text \<open>
  The gateway's fallback as an agent's: the loop over the models of a factor, then over the factors, with
  the set of models seen in lower case and the retry parameters of the first factor that has any.
\<close>

definition unseen_models :: "(string \<Rightarrow> string) \<Rightarrow> fallback_model list \<Rightarrow> string list \<Rightarrow> string list" where
  "unseen_models lower fms models =
     fold (\<lambda>fm ms. if fm_Model fm = [] \<or> lower (fm_Model fm) \<in> lower ` set ms then ms else ms @ [fm_Model fm])
       fms models"

definition pick_retry :: "fallback_factor list \<Rightarrow> int \<times> int" where
  "pick_retry factors =
     (case find (\<lambda>f. ff_MaxAttempts f > 0 \<or> ff_BackoffMs f > 0) factors of
        None \<Rightarrow> (0, 0) | Some f \<Rightarrow> (ff_MaxAttempts f, ff_BackoffMs f))"

definition FallbackConfigFromGateway ::
    "(string \<Rightarrow> string) \<Rightarrow> (fallback_factor list \<Rightarrow> fallback_factor list) \<Rightarrow> fallback_config option \<Rightarrow>
       agent_fallback option" where
  "FallbackConfigFromGateway lower by_priority gwCfg =
     (case gwCfg of
        None \<Rightarrow> None
      | Some fb \<Rightarrow>
          if \<not> fc_Enabled fb then None
          else
            let models = (if fm_Enabled (fc_Default fb) \<and> fm_Model (fc_Default fb) \<noteq> []
                          then [fm_Model (fc_Default fb)] else []);
                factors = by_priority (fc_Factors fb);
                models = fold (\<lambda>f. unseen_models lower (ff_Models f)) factors models;
                (maxAttempts, backoffMs) = pick_retry factors
            in if models = [] then None
               else Some \<lparr>af_Models = models, af_MaxAttempts = (if maxAttempts \<le> 0 then 1 else maxAttempts),
                          af_BackoffMs = backoffMs\<rparr>)"

lemma unseen_models_distinct:
  "distinct (map lower models) \<Longrightarrow> distinct (map lower (unseen_models lower fms models))"
  unfolding unseen_models_def
  by (induction fms arbitrary: models) auto

lemma FallbackConfigFromGateway_distinct:
  assumes "FallbackConfigFromGateway lower by_priority gwCfg = Some c"
  shows "distinct (map lower (af_Models c)) \<and> af_Models c \<noteq> [] \<and> af_MaxAttempts c \<ge> 1"
proof -
  have step: "distinct (map lower models) \<Longrightarrow>
      distinct (map lower (fold (\<lambda>f. unseen_models lower (ff_Models f)) factors models))" for factors models
    by (induction factors arbitrary: models) (simp_all add: unseen_models_distinct)
  from assms obtain fb where fb: "gwCfg = Some fb" "fc_Enabled fb"
    by (auto simp: FallbackConfigFromGateway_def split: option.splits if_splits)
  obtain maxAttempts backoffMs where retry: "pick_retry (by_priority (fc_Factors fb)) = (maxAttempts, backoffMs)"
    by fastforce
  show ?thesis
    using assms fb retry
    by (auto simp: FallbackConfigFromGateway_def Let_def intro!: step split: if_splits)
qed

section \<open>Sampling\<close>

text \<open>The Go types of \<open>numericConfigValue\<close> are a float or an integer, converted to \<open>float64\<close> by \<open>rnd\<close>.\<close>

fun numericValue :: "(rat \<Rightarrow> rat) \<Rightarrow> goval \<Rightarrow> rat option" where
  "numericValue rnd (GoFloat f) = Some f"
| "numericValue rnd (GoInt i) = Some (rnd (of_int i))"
| "numericValue rnd _ = None"

definition numericConfigValue :: "(rat \<Rightarrow> rat) \<Rightarrow> gofields \<Rightarrow> string \<Rightarrow> rat option" where
  "numericConfigValue rnd config key = cfg_field config key (numericValue rnd)"

definition stringConfigValue :: "gofields \<Rightarrow> string \<Rightarrow> string option" where
  "stringConfigValue config key = cfg_field config key as_string"

definition no_sampling :: sampling_params where
  "no_sampling = \<lparr>sp_Temperature = 0, sp_TemperatureConfigured = False, sp_TopP = 0, sp_TopPConfigured = False,
     sp_MaxTokens = 0, sp_MaxCompletionTokens = 0, sp_Stop = [], sp_FrequencyPenalty = 0,
     sp_FrequencyConfigured = False, sp_PresencePenalty = 0, sp_PresenceConfigured = False,
     sp_ReasoningEffort = [], sp_ReasoningBudget = None, sp_ReasoningEnabled = None, sp_TopK = None,
     sp_Seed = None, sp_Verbosity = []\<rparr>"

definition samplingParamsFromConfig :: "(rat \<Rightarrow> rat) \<Rightarrow> (rat \<Rightarrow> int) \<Rightarrow> gofields \<Rightarrow> sampling_params" where
  "samplingParamsFromConfig rnd ovf config =
     (let s = no_sampling\<lparr>sp_MaxTokens := 16384\<rparr>;
          s = read_when (numericConfigValue rnd config ''temperature'') (\<lambda>_. True) (\<lambda>v s. s\<lparr>sp_Temperature := v\<rparr>) s;
          s = read_when (numericConfigValue rnd config ''max_tokens'') (\<lambda>_. True)
                (\<lambda>v s. s\<lparr>sp_MaxTokens := float_to_int 64 ovf v\<rparr>) s;
          s = read_when (numericConfigValue rnd config ''top_p'') (\<lambda>_. True) (\<lambda>v s. s\<lparr>sp_TopP := v\<rparr>) s;
          s = read_when (stringConfigValue config ''reasoning_effort'') (\<lambda>_. True)
                (\<lambda>v s. s\<lparr>sp_ReasoningEffort := TrimSpace v\<rparr>) s;
          s = read_when (numericConfigValue rnd config ''reasoning_budget_tokens'') (\<lambda>v. v \<ge> 0)
                (\<lambda>v s. s\<lparr>sp_ReasoningBudget := Some (float_to_int 64 ovf v)\<rparr>) s
      in read_when (cfg_field config ''reasoning_enabled'' as_bool) (\<lambda>_. True)
           (\<lambda>v s. s\<lparr>sp_ReasoningEnabled := Some v\<rparr>) s)"

text \<open>A configured temperature of zero leaves no trace: the flag that tells it from a missing one is not set.\<close>

lemma zero_temperature_lost:
  "samplingParamsFromConfig rnd ovf [(''temperature'', GoFloat 0)] = samplingParamsFromConfig rnd ovf []"
  by (simp add: samplingParamsFromConfig_def numericConfigValue_def stringConfigValue_def cfg_field_def read_when_def
      no_sampling_def Let_def)

end
