(* ===== verification/AgentTools.thy ===== *)
theory AgentTools
  imports AgentStream
begin

text \<open>
  Running the functions a model calls: \<open>src/internal/functions/toolloop\<close> (handler and loop manager) and
  the argument parser, the repair of cut-off JSON and the result formatter of
  \<open>src/internal/functions/executor/executor.go\<close>. The executors themselves (webhook, proxy, sandbox), JSON
  decoding and the UUID parser are parameters.
\<close>

section \<open>Repairing cut-off JSON\<close>

record repair_scan =
  rs_inString :: bool
  rs_escaped :: bool
  rs_stack :: "char list"

text \<open>The stack holds the closers that are due, the innermost first.\<close>

definition scan_char :: "char \<Rightarrow> repair_scan \<Rightarrow> repair_scan" where
  "scan_char c s =
     (if rs_escaped s then s\<lparr>rs_escaped := False\<rparr>
      else if c = CHR 0x5C \<and> rs_inString s then s\<lparr>rs_escaped := True\<rparr>
      else if c = CHR 0x22 then s\<lparr>rs_inString := \<not> rs_inString s\<rparr>
      else if rs_inString s then s
      else if c = CHR ''{'' then s\<lparr>rs_stack := CHR ''}'' # rs_stack s\<rparr>
      else if c = CHR ''['' then s\<lparr>rs_stack := CHR '']'' # rs_stack s\<rparr>
      else if c = CHR ''}'' \<or> c = CHR '']'' then
        (if rs_stack s \<noteq> [] \<and> hd (rs_stack s) = c then s\<lparr>rs_stack := tl (rs_stack s)\<rparr> else s)
      else s)"

definition scan :: "string \<Rightarrow> repair_scan" where
  "scan s = fold scan_char s \<lparr>rs_inString = False, rs_escaped = False, rs_stack = []\<rparr>"

definition json_space :: "char \<Rightarrow> bool" where
  "json_space c \<longleftrightarrow> c = CHR 0x20 \<or> c = CHR 0x09 \<or> c = CHR 0x0A \<or> c = CHR 0x0D"

definition trim_right_json :: "string \<Rightarrow> string" where
  "trim_right_json s = rev (dropWhile json_space (rev s))"

definition drop_comma :: "string \<Rightarrow> string" where
  "drop_comma s =
     (let trimmed = trim_right_json s
      in if trimmed \<noteq> [] \<and> last trimmed = CHR '','' then butlast trimmed else s)"

definition RepairJSON :: "(string \<Rightarrow> bool) \<Rightarrow> string \<Rightarrow> string" where
  "RepairJSON json_valid s0 =
     (let s = TrimSpace s0 in
      if s = [] \<or> json_valid s then s
      else let r = scan s;
               s = (if rs_inString r then s @ [CHR 0x22] else s)
           in drop_comma s @ rs_stack r)"

type_synonym json_object = "(string \<times> goval) list"

definition argument_error :: "string \<Rightarrow> string" where
  "argument_error argsJSON =
     ''failed to parse tool arguments (malformed JSON '' @ [CHR 0xE2, CHR 0x80, CHR 0x94] @
     '' output was likely truncated). Truncated input: '' @
     (if length argsJSON > 200 then take 200 argsJSON @ ''...'' else argsJSON)"

definition ParseToolCallArguments ::
    "(string \<Rightarrow> bool) \<Rightarrow> (string \<Rightarrow> json_object option) \<Rightarrow> string \<Rightarrow> string + json_object" where
  "ParseToolCallArguments json_valid json_unmarshal argsJSON =
     (case json_unmarshal argsJSON of
        Some args \<Rightarrow> Inr args
      | None \<Rightarrow>
          let repaired = RepairJSON json_valid argsJSON in
          if repaired \<noteq> argsJSON \<and> json_unmarshal repaired \<noteq> None then Inr (the (json_unmarshal repaired))
          else Inl (argument_error argsJSON))"

section \<open>Functions\<close>

record function_row =
  fn_ID :: string
  fn_TenantID :: string
  fn_Name :: string
  fn_Mode :: string
  fn_Enabled :: bool
  fn_Description :: "string option"
  fn_Parameters :: string

text \<open>\<open>GetContext\<close> takes the first row of the answer; the tenant is an argument the statement does not use.\<close>

definition GetFunctionByName :: "function_row list \<Rightarrow> string \<Rightarrow> string \<Rightarrow> function_row option" where
  "GetFunctionByName functions name tenantID = find (\<lambda>fn. fn_Name fn = name \<and> fn_Enabled fn) functions"

definition ListEnabledFunctionNames :: "function_row list \<Rightarrow> string \<Rightarrow> string list" where
  "ListEnabledFunctionNames functions tenantID = sort (map fn_Name (filter fn_Enabled functions))"

datatype tool_content = ContentString string | ContentBytes string | ContentJSON string | ContentUnencodable string

record exec_result =
  xr_Content :: tool_content
  xr_Error :: string
  xr_Success :: bool
  xr_DurationMs :: int

definition FormatToolResult :: "exec_result \<Rightarrow> string" where
  "FormatToolResult r =
     (if \<not> xr_Success r then ''Error: '' @ xr_Error r
      else case xr_Content r of
        ContentString s \<Rightarrow> s
      | ContentBytes s \<Rightarrow> s
      | ContentJSON s \<Rightarrow> s
      | ContentUnencodable e \<Rightarrow> ''Error encoding result: '' @ e)"

text \<open>
  The manager: \<open>tl_execute n fn call args\<close> is the executor's answer to the \<open>n\<close>-th question to the world, a result
  that may be nil and an error that may be nil; \<open>tl_functions n\<close> the table at that moment.
\<close>

record tool_loop =
  tl_enabled :: bool
  tl_has_handler :: bool
  tl_parallelExecute :: bool
  tl_functions :: "nat \<Rightarrow> function_row list"
  tl_json_valid :: "string \<Rightarrow> bool"
  tl_json_unmarshal :: "string \<Rightarrow> json_object option"
  tl_modes :: "string list"
  tl_execute :: "nat \<Rightarrow> function_row \<Rightarrow> tool_call \<Rightarrow> json_object \<Rightarrow> exec_result option \<times> string option"

definition Registry_Execute ::
    "tool_loop \<Rightarrow> nat \<Rightarrow> function_row \<Rightarrow> tool_call \<Rightarrow> json_object \<Rightarrow> exec_result option \<times> string option" where
  "Registry_Execute tm n fn call args =
     (if fn_Mode fn \<notin> set (tl_modes tm) then
        let e = ''no executor registered for mode: '' @ fn_Mode fn
        in (Some \<lparr>xr_Content = ContentString [], xr_Error = e, xr_Success = False, xr_DurationMs = 0\<rparr>, Some e)
      else tl_execute tm n fn call args)"

record tool_result =
  tr_ToolCallID :: string
  tr_Content :: string

definition errorResult :: "tool_call \<Rightarrow> string \<Rightarrow> tool_result" where
  "errorResult call err =
     \<lparr>tr_ToolCallID = tc_ID call, tr_Content = ''{'' @ [CHR 0x22] @ ''error'' @ [CHR 0x22] @ '': '' @ [CHR 0x22] @ err @
        [CHR 0x22] @ ''}''\<rparr>"

definition not_found_text :: "string \<Rightarrow> string" where
  "not_found_text name = ''function '' @ [CHR 0x27] @ name @ [CHR 0x27] @ '' not found or not enabled''"

text \<open>\<open>None\<close>: an executor that answers neither a result nor an error, whose nil result is dereferenced.\<close>

definition executeToolCall ::
    "tool_loop \<Rightarrow> string \<Rightarrow> nat \<Rightarrow> tool_call \<Rightarrow> (tool_result \<times> string option) option" where
  "executeToolCall tm tenantID n call =
     (case GetFunctionByName (tl_functions tm n) (tc_Name call) tenantID of
        None \<Rightarrow> Some (errorResult call (not_found_text (tc_Name call)), Some ''sql: no rows in result set'')
      | Some fn \<Rightarrow>
          (case ParseToolCallArguments (tl_json_valid tm) (tl_json_unmarshal tm) (tc_Arguments call) of
             Inl e \<Rightarrow> Some (errorResult call (''invalid arguments: '' @ e), Some e)
           | Inr args \<Rightarrow>
               (case Registry_Execute tm n fn call args of
                  (None, None) \<Rightarrow> None
                | (None, Some err) \<Rightarrow> Some (errorResult call err, Some err)
                | (Some r, err) \<Rightarrow>
                    if err \<noteq> None \<or> \<not> xr_Success r then
                      let errMsg = (if xr_Error r \<noteq> [] then xr_Error r
                                    else case err of Some e \<Rightarrow> e | None \<Rightarrow> ''execution failed'')
                      in Some (errorResult call errMsg, err)
                    else Some (\<lparr>tr_ToolCallID = tc_ID call, tr_Content = FormatToolResult r\<rparr>, None))))"

text \<open>
  All calls, in parallel or one by one: either way result \<open>i\<close> belongs to call \<open>i\<close>, and no error is returned.
  The \<open>i\<close>-th call asks question \<open>n + i\<close>.
\<close>

fun ExecuteToolCalls :: "tool_loop \<Rightarrow> string \<Rightarrow> nat \<Rightarrow> tool_call list \<Rightarrow> tool_result list option" where
  "ExecuteToolCalls tm tenantID n [] = Some []"
| "ExecuteToolCalls tm tenantID n (call # calls) =
     (case executeToolCall tm tenantID n call of
        None \<Rightarrow> None
      | Some (r, _) \<Rightarrow> map_option ((#) r) (ExecuteToolCalls tm tenantID (Suc n) calls))"

section \<open>The loop manager\<close>

definition IsEnabled :: "tool_loop \<Rightarrow> bool" where
  "IsEnabled tm \<longleftrightarrow> tl_enabled tm \<and> tl_has_handler tm"

definition ShouldExecuteToolLoop :: "tool_loop \<Rightarrow> chat_completion \<Rightarrow> bool" where
  "ShouldExecuteToolLoop tm resp \<longleftrightarrow>
     IsEnabled tm \<and> cc_Choices resp \<noteq> [] \<and>
     (let choice = hd (cc_Choices resp)
      in ch_FinishReason choice = ''tool_calls'' \<or> ch_FinishReason choice = ''tool_use'' \<or>
         msg_tool_calls (ch_Message choice) \<noteq> [])"

definition ExtractToolCalls :: "chat_completion \<Rightarrow> tool_call list" where
  "ExtractToolCalls resp =
     (if cc_Choices resp = [] then [] else msg_tool_calls (ch_Message (hd (cc_Choices resp))))"

definition assistant_copy :: "chat_message \<Rightarrow> chat_message" where
  "assistant_copy msg = \<lparr>msg_role = RoleAssistant, msg_content = msg_content msg,
     msg_tool_calls = msg_tool_calls msg, msg_tool_call_id = []\<rparr>"

text \<open>The assistant message and one tool message per call of the response; \<open>None\<close>: a panic.\<close>

definition ExecuteToolLoop :: "tool_loop \<Rightarrow> string \<Rightarrow> nat \<Rightarrow> chat_completion \<Rightarrow> chat_message list option" where
  "ExecuteToolLoop tm tenantID n resp =
     (if \<not> IsEnabled tm then Some []
      else let toolCalls = ExtractToolCalls resp in
        if toolCalls = [] then Some []
        else map_option
               (\<lambda>results. assistant_copy (ch_Message (hd (cc_Choices resp))) #
                  map (\<lambda>r. tool_message (tr_ToolCallID r) (tr_Content r)) results)
               (ExecuteToolCalls tm tenantID n toolCalls))"

definition HasToolCalls :: "string \<Rightarrow> tool_call list \<Rightarrow> bool" where
  "HasToolCalls finishReason toolCalls \<longleftrightarrow>
     finishReason = ''tool_calls'' \<or> finishReason = ''tool_use'' \<or> length toolCalls > 0"

section \<open>Recording an execution\<close>

definition truncatePreview :: "string \<Rightarrow> int \<Rightarrow> string" where
  "truncatePreview s mx = (if mx \<le> 0 \<or> int (length s) \<le> mx then s else take (nat mx) s)"

definition fallbackString :: "string \<Rightarrow> string \<Rightarrow> string" where
  "fallbackString primary secondary =
     (if TrimSpace primary \<noteq> [] then primary else if TrimSpace secondary \<noteq> [] then secondary else ''default'')"

definition chooseTenantUUID :: "(string \<Rightarrow> bool) \<Rightarrow> string \<Rightarrow> string \<Rightarrow> string option" where
  "chooseTenantUUID is_uuid primary secondary =
     (if is_uuid (TrimSpace primary) then Some (TrimSpace primary)
      else if is_uuid (TrimSpace secondary) then Some (TrimSpace secondary) else None)"

section \<open>Facts\<close>

lemma executeToolCall_answers:
  "executeToolCall tm tenantID n call = Some (r, err) \<Longrightarrow> tr_ToolCallID r = tc_ID call"
  by (auto simp: executeToolCall_def errorResult_def Let_def split: option.splits sum.splits prod.splits if_splits)

lemma ExecuteToolCalls_answers:
  "ExecuteToolCalls tm tenantID n calls = Some results \<Longrightarrow> map tr_ToolCallID results = map tc_ID calls"
proof (induction calls arbitrary: n results)
  case (Cons call calls)
  then show ?case
    by (auto split: option.splits prod.splits dest!: executeToolCall_answers)
qed simp

lemma ExecuteToolLoop_messages:
  assumes "ExecuteToolLoop tm tenantID n resp = Some msgs"
  shows "msgs = [] \<and> (\<not> IsEnabled tm \<or> ExtractToolCalls resp = []) \<or>
    (\<exists>results :: tool_result list. msgs = assistant_copy (ch_Message (hd (cc_Choices resp))) #
         map (\<lambda>r. tool_message (tr_ToolCallID r) (tr_Content r)) results \<and>
       map tr_ToolCallID results = map tc_ID (ExtractToolCalls resp) \<and> ExtractToolCalls resp \<noteq> [])"
proof (cases "\<not> IsEnabled tm \<or> ExtractToolCalls resp = []")
  case True
  then show ?thesis using assms by (auto simp: ExecuteToolLoop_def Let_def split: if_splits)
next
  case False
  then obtain results where run: "ExecuteToolCalls tm tenantID n (ExtractToolCalls resp) = Some results"
    and msgs: "msgs = assistant_copy (ch_Message (hd (cc_Choices resp))) #
       map (\<lambda>r. tool_message (tr_ToolCallID r) (tr_Content r)) results"
    using assms by (auto simp: ExecuteToolLoop_def Let_def)
  from False have "ExtractToolCalls resp \<noteq> []" by simp
  with msgs ExecuteToolCalls_answers [OF run] show ?thesis by blast
qed

text \<open>The function of another tenant is found as well as one's own.\<close>

lemma function_lookup_crosses_tenants:
  assumes "functions = [\<lparr>fn_ID = i, fn_TenantID = ''tenant-b'', fn_Name = name, fn_Mode = mode, fn_Enabled = True,
    fn_Description = None, fn_Parameters = []\<rparr>]"
  shows "map_option fn_TenantID (GetFunctionByName functions name ''tenant-a'') = Some ''tenant-b''"
  using assms by (simp add: GetFunctionByName_def)

subsection \<open>Scanning\<close>

lemma scan_snoc: "scan (s @ [c]) = scan_char c (scan s)"
  by (simp add: scan_def)

lemma scan_append: "scan (s @ t) = fold scan_char t (scan s)"
  by (simp add: scan_def)

definition closers :: "repair_scan \<Rightarrow> bool" where
  "closers r \<longleftrightarrow> set (rs_stack r) \<subseteq> {CHR ''}'', CHR '']''} \<and> (rs_escaped r \<longrightarrow> rs_inString r)"

lemma closers_scan: "closers (scan s)"
proof (induction s rule: rev_induct)
  case Nil
  show ?case by (simp add: scan_def closers_def)
next
  case (snoc c s)
  have "set (tl (rs_stack (scan s))) \<subseteq> set (rs_stack (scan s))"
    by (cases "rs_stack (scan s)") auto
  with snoc show ?case by (auto simp: scan_snoc scan_char_def closers_def)
qed

text \<open>Feeding the closers that are due, innermost first, empties the stack.\<close>

lemma scan_due_closers:
  assumes "\<not> rs_inString r" "\<not> rs_escaped r" "set (rs_stack r) \<subseteq> {CHR ''}'', CHR '']''}"
  shows "fold scan_char (rs_stack r) r = r\<lparr>rs_stack := []\<rparr>"
  using assms
proof (induction "rs_stack r" arbitrary: r)
  case Nil
  then show ?case by simp
next
  case (Cons c cs)
  from Cons.hyps(2) have stack: "rs_stack r = c # cs" by simp
  have closer: "c = CHR ''}'' \<or> c = CHR '']''" using Cons.prems(3) stack by auto
  then have first: "scan_char c r = r\<lparr>rs_stack := cs\<rparr>"
    using Cons.prems stack by (auto simp: scan_char_def)
  have "fold scan_char cs (r\<lparr>rs_stack := cs\<rparr>) = (r\<lparr>rs_stack := cs\<rparr>)\<lparr>rs_stack := []\<rparr>"
    using Cons.hyps(1) [of "r\<lparr>rs_stack := cs\<rparr>"] Cons.prems stack by auto
  then show ?case using stack first by simp
qed

lemma scan_char_neutral:
  assumes "\<not> rs_inString r" "\<not> rs_escaped r" "json_space c \<or> c = CHR '',''"
  shows "scan_char c r = r"
  using assms by (auto simp: scan_char_def json_space_def)

lemma scan_drop_comma:
  assumes "\<not> rs_inString (scan s)" "\<not> rs_escaped (scan s)"
  shows "scan (drop_comma s) = scan s"
proof -
  have drop: "scan (rev (dropWhile json_space (rev s))) = scan s"
    if "\<not> rs_inString (scan s)" "\<not> rs_escaped (scan s)" for s
    using that
  proof (induction s rule: rev_induct)
    case (snoc c s)
    show ?case
    proof (cases "json_space c")
      case True
      then have scan_eq: "scan (s @ [c]) = scan s"
      proof -
        have "\<not> rs_inString (scan s)" "\<not> rs_escaped (scan s)"
          using snoc.prems True closers_scan [of s]
          by (auto simp: scan_snoc scan_char_def json_space_def closers_def split: if_splits)
        then show ?thesis using True by (simp add: scan_snoc scan_char_neutral)
      qed
      with snoc True show ?thesis by simp
    qed simp
  qed simp
  show ?thesis
  proof (cases "trim_right_json s \<noteq> [] \<and> last (trim_right_json s) = CHR '',''")
    case False
    then show ?thesis unfolding drop_comma_def Let_def by (simp only: if_False)
  next
    case True
    define u where "u = butlast (trim_right_json s)"
    have u: "trim_right_json s = u @ [CHR '','']" using True u_def by (metis append_butlast_last_id)
    have same: "scan (trim_right_json s) = scan s"
      using drop [OF assms] by (simp add: trim_right_json_def)
    have "rs_inString (scan (u @ [CHR '','']))  = rs_inString (scan u)"
      by (simp add: scan_snoc scan_char_def)
    then have "\<not> rs_inString (scan u)" using assms u same by simp
    moreover from this have "\<not> rs_escaped (scan u)" using closers_scan [of u] by (auto simp: closers_def)
    ultimately have "scan (u @ [CHR '','']) = scan u" by (simp add: scan_snoc scan_char_neutral)
    moreover have "drop_comma s = u" using True by (simp add: drop_comma_def u_def)
    ultimately show ?thesis using same u by simp
  qed
qed

lemma scan_closed_string:
  assumes "\<not> rs_escaped (scan s)"
  shows "scan (if rs_inString (scan s) then s @ [CHR 0x22] else s) = (scan s)\<lparr>rs_inString := False\<rparr>"
proof (cases "rs_inString (scan s)")
  case True
  have "scan_char (CHR 0x22) r = r\<lparr>rs_inString := False\<rparr>" if "rs_inString r" "\<not> rs_escaped r" for r :: repair_scan
    using that by (simp add: scan_char_def)
  with True assms show ?thesis by (simp add: scan_snoc)
next
  case False
  then show ?thesis by (cases "scan s") simp
qed

text \<open>
  Arguments of a tool call that were cut off come out of the repair with nothing left open: no string, and every
  bracket and brace closed in the right order; unless the cut is right behind a backslash inside a string,
  where the closing quote is taken for an escaped one.
\<close>

theorem repaired_text_closed:
  assumes "\<not> json_valid (TrimSpace s)" "TrimSpace s \<noteq> []" "\<not> rs_escaped (scan (TrimSpace s))"
  shows "scan (RepairJSON json_valid s) = \<lparr>rs_inString = False, rs_escaped = False, rs_stack = []\<rparr>"
proof -
  define u where "u = TrimSpace s"
  define v where "v = (if rs_inString (scan u) then u @ [CHR 0x22] else u)"
  have v: "scan v = (scan u)\<lparr>rs_inString := False\<rparr>"
    using scan_closed_string [of u] assms(3) unfolding u_def v_def by simp
  then have dropped: "scan (drop_comma v) = (scan u)\<lparr>rs_inString := False\<rparr>"
    using scan_drop_comma [of v] assms(3) unfolding u_def by simp
  have repaired: "RepairJSON json_valid s = drop_comma v @ rs_stack (scan u)"
    using assms by (simp add: RepairJSON_def Let_def u_def v_def)
  have "fold scan_char (rs_stack (scan u)) ((scan u)\<lparr>rs_inString := False\<rparr>) =
      (scan u)\<lparr>rs_inString := False\<rparr>\<lparr>rs_stack := []\<rparr>"
    using scan_due_closers [of "(scan u)\<lparr>rs_inString := False\<rparr>"] assms(3) closers_scan [of u]
    by (simp add: closers_def u_def)
  then have "scan (RepairJSON json_valid s) = (scan u)\<lparr>rs_inString := False\<rparr>\<lparr>rs_stack := []\<rparr>"
    by (simp add: repaired scan_append dropped)
  then show ?thesis using assms(3) by (cases "scan u") (simp add: u_def)
qed

theorem repaired_text_closed_witness:
  defines "s \<equiv> ''{'' @ [CHR 0x22] @ ''a'' @ [CHR 0x22] @ '': [1, 2, ''"
  shows "RepairJSON (\<lambda>_. False) s = ''{'' @ [CHR 0x22] @ ''a'' @ [CHR 0x22] @ '': [1, 2]}'' \<and>
     scan (RepairJSON (\<lambda>_. False) s) = \<lparr>rs_inString = False, rs_escaped = False, rs_stack = []\<rparr>"
proof -
  have "RepairJSON (\<lambda>_. False) s = ''{'' @ [CHR 0x22] @ ''a'' @ [CHR 0x22] @ '': [1, 2]}''"
    unfolding s_def by code_simp
  moreover have "TrimSpace s \<noteq> []" "\<not> rs_escaped (scan (TrimSpace s))" unfolding s_def by code_simp+
  ultimately show ?thesis using repaired_text_closed [of "\<lambda>_. False" s] by simp
qed

end
