(* ===== verification/AgentWorld.thy ===== *)
theory AgentWorld
  imports AgentConfig AgentTools PolicyEvaluator GatewayFallback
begin

text \<open>
  The surroundings of a turn of \<open>src/internal/agents/runtime/loop.go\<close>: the state that outlives a turn
  (\<open>LoopState\<close>), its input, the events it emits, and the world it asks. The world answers by number: the
  \<open>n\<close>-th question of a turn, whatever it is about, is answered by the oracles at \<open>n\<close>, so that every course
  of events is some world. Go's \<open>int\<close> and \<open>int32\<close> counters are unbounded here: the iterations stay below
  a limit of type \<open>int32\<close>, and tokens and tool calls of one session below \<open>2 ^ 31\<close>.
\<close>

section \<open>State\<close>

record usage_delta =
  ud_PromptTokens :: int
  ud_CompletionTokens :: int
  ud_TotalTokens :: int
  ud_CacheReadTokens :: int
  ud_CacheWriteTokens :: int

definition no_delta :: usage_delta where
  "no_delta = \<lparr>ud_PromptTokens = 0, ud_CompletionTokens = 0, ud_TotalTokens = 0, ud_CacheReadTokens = 0,
     ud_CacheWriteTokens = 0\<rparr>"

definition add_usage :: "chat_usage \<Rightarrow> usage_delta \<Rightarrow> usage_delta" where
  "add_usage u d = \<lparr>ud_PromptTokens = ud_PromptTokens d + us_PromptTokens u,
     ud_CompletionTokens = ud_CompletionTokens d + us_CompletionTokens u,
     ud_TotalTokens = ud_TotalTokens d + us_TotalTokens u,
     ud_CacheReadTokens = ud_CacheReadTokens d + CacheReadCount u,
     ud_CacheWriteTokens = ud_CacheWriteTokens d + CacheWriteCount u\<rparr>"

text \<open>Durations are left out of the metadata of a result.\<close>

record tool_result_meta =
  rm_Result :: string
  rm_Success :: bool

record loop_state =
  ls_Messages :: "chat_message list"
  ls_TurnNumber :: int
  ls_IterationCount :: int
  ls_TotalToolCalls :: int
  ls_TurnUsage :: usage_delta
  ls_CumulativeUsage :: usage_delta
  ls_PriorSessionTokens :: int
  ls_FinishReason :: string
  ls_LastAssistantText :: string
  ls_Done :: bool
  ls_ToolResults :: "string \<rightharpoonup> tool_result_meta"
  ls_TurnStartIndex :: nat

section \<open>Requests and events\<close>

record tool_definition =
  tdef_Type :: string
  tdef_Name :: string
  tdef_Description :: string
  tdef_Parameters :: gofields

record chat_request =
  rq_Model :: string
  rq_Messages :: "chat_message list"
  rq_Tools :: "tool_definition list"
  rq_Sampling :: sampling_params
  rq_UseResponsesAPI :: bool

definition BuildChatRequest ::
    "string \<Rightarrow> chat_message list \<Rightarrow> tool_definition list \<Rightarrow> sampling_params \<Rightarrow> chat_request" where
  "BuildChatRequest model messages tools sampling =
     \<lparr>rq_Model = model, rq_Messages = messages, rq_Tools = tools, rq_Sampling = sampling, rq_UseResponsesAPI = False\<rparr>"

record prompt_breakdown =
  pb_system_prompt :: nat
  pb_digest :: nat
  pb_skills_manifest :: nat
  pb_memory :: nat
  pb_current_user :: nat
  pb_history :: nat
  pb_tool_result :: nat
  pb_loaded_skill :: nat
  pb_estimated_total :: nat

definition loaded_skill_tokens :: "chat_message \<Rightarrow> nat" where
  "loaded_skill_tokens msg =
     sum_list (map (\<lambda>part. case part_text part of
         Some s \<Rightarrow> if has_prefix s ''## Skill:'' then EstimateTokensForText s else 0
       | None \<Rightarrow> 0) (msg_content msg))"

definition buildPromptTokenBreakdown ::
    "chat_message list \<Rightarrow> string \<Rightarrow> string \<Rightarrow> string \<Rightarrow> string \<Rightarrow> string \<Rightarrow> prompt_breakdown" where
  "buildPromptTokenBreakdown messages currentUserInput baseSystemPrompt digestPrompt skillsManifest memoryBlock =
     (let tools = filter (\<lambda>m. msg_role m = RoleTool) messages;
          history = filter (\<lambda>m. msg_role m \<noteq> RoleTool \<and> msg_role m \<noteq> RoleSystem) messages
      in \<lparr>pb_system_prompt = EstimateTokensForText baseSystemPrompt,
          pb_digest = EstimateTokensForText digestPrompt,
          pb_skills_manifest = EstimateTokensForText skillsManifest,
          pb_memory = EstimateTokensForText memoryBlock,
          pb_current_user = EstimateTokensForText currentUserInput,
          pb_history = sum_list (map (\<lambda>m. EstimateTokens [m]) history),
          pb_tool_result = sum_list (map (\<lambda>m. EstimateTokens [m]) tools),
          pb_loaded_skill = sum_list (map loaded_skill_tokens tools),
          pb_estimated_total = EstimateTokens messages\<rparr>)"

datatype agent_event =
    EvSessionError string
  | EvTurnStart int string
  | EvPolicyDecision string decision
  | EvTermination string
  | EvCompactionApplied string nat nat
  | EvLLMStart int nat prompt_breakdown
  | EvLLMChunk string
  | EvLLMRetry int int
  | EvLLMFailed string
  | EvLLMEnd usage_delta
  | EvCacheMiss string
  | EvCacheHit string string
  | EvCacheStore string bool
  | EvFallbackTriggered string string int
  | EvFallbackSucceeded string string int
  | EvFallbackFailed string string
  | EvSteerReceived string string
  | EvApprovalRequested "tool_call list" int string
  | EvApprovalHeartbeat
  | EvApprovalCancelled
  | EvApprovalResolved string string
  | EvToolCallStart string string string
  | EvToolCallEnd string string string bool
  | EvTurnEnd string usage_delta int int

section \<open>The world\<close>

datatype ctx_cause = TurnInterrupted | SessionCancelled | DeadlinePassed

datatype ctx_state = CtxLive | CtxDone ctx_cause

definition finishReasonFromContext :: "ctx_cause \<Rightarrow> string" where
  "finishReasonFromContext cause = (if cause = TurnInterrupted then ''interrupted'' else ''cancelled'')"

record approval_decision =
  ad_ReviewID :: string
  ad_Action :: string
  ad_Decisions :: "per_tool_decision list"
  ad_Reason :: string
  ad_ResolvedBy :: string

text \<open>
  How a wait for a reviewer ends: the context is done before the session manager takes the request; it is
  done during the wait; a decision arrives; the timer fires. The number is that of the heartbeats.
\<close>

datatype review_outcome =
    NotTaken ctx_cause
  | WaitCancelled nat ctx_cause
  | Decided nat approval_decision
  | TimerFired nat

datatype job_outcome = JobCompletedWith string | JobFailedWith string | JobWasCancelled | JobOther

record job_note =
  jn_JobID :: string
  jn_Outcome :: job_outcome

record fork_note =
  fk_Instruction :: string
  fk_Status :: string
  fk_Conclusion :: string
  fk_Error :: string

record peer_note =
  pn_SenderName :: string
  pn_MessageType :: string
  pn_Content :: string

text \<open>
  The context is done from question \<open>fst\<close> on. \<open>aw_cached\<close>: the cache's answer to a request with the kind of hit;
  \<open>aw_stream\<close> and \<open>aw_chat\<close>: the provider's answer; \<open>aw_stored\<close>: whether a response was stored, and
  semantically. The lists are what the channels hold when they are drained.
\<close>

record 'p agent_world =
  aw_ctx :: "(nat \<times> ctx_cause) option"
  aw_resolve :: "nat \<Rightarrow> string \<Rightarrow> gateway_error + 'p \<times> string"
  aw_name :: "'p \<Rightarrow> string option"
  aw_cached :: "nat \<Rightarrow> chat_request \<Rightarrow> (chat_completion \<times> string) option"
  aw_stream :: "nat \<Rightarrow> 'p \<Rightarrow> chat_request \<Rightarrow> chat_chunk list \<times> gateway_error option"
  aw_chat :: "nat \<Rightarrow> 'p \<Rightarrow> chat_request \<Rightarrow> gateway_error + chat_completion"
  aw_stored :: "nat \<Rightarrow> bool \<times> bool"
  aw_review :: "nat \<Rightarrow> tool_call list \<Rightarrow> review_outcome"
  aw_compactions :: "nat \<Rightarrow> compact_request list"
  aw_steer :: "nat \<Rightarrow> (string \<times> string) option"
  aw_jobs :: "nat \<Rightarrow> job_note list"
  aw_forks :: "nat \<Rightarrow> fork_note list"
  aw_peers :: "nat \<Rightarrow> peer_note list"

definition ctx_at :: "'p agent_world \<Rightarrow> nat \<Rightarrow> ctx_state" where
  "ctx_at w n = (case aw_ctx w of None \<Rightarrow> CtxLive | Some (k, c) \<Rightarrow> if k \<le> n then CtxDone c else CtxLive)"

lemma ctx_at_stays_done: "ctx_at w m = CtxDone c \<Longrightarrow> m \<le> n \<Longrightarrow> ctx_at w n = CtxDone c"
  by (auto simp: ctx_at_def split: option.splits if_splits)

text \<open>The interceptor of synthetic tools; its builder of tool definitions may be absent.\<close>

record interceptor_ops =
  ic_IsSyntheticTool :: "string \<Rightarrow> bool"
  ic_ExecuteSyntheticTool :: "nat \<Rightarrow> string \<Rightarrow> string \<Rightarrow> string + string"
  ic_CollectExposedURLs :: "nat \<Rightarrow> string list"
  ic_BuildToolDefinitions :: "(string list \<Rightarrow> string + tool_definition list) option"

record loop_input =
  li_TenantID :: string
  li_Model :: string
  li_SystemPrompt :: string
  li_Tools :: "string list"
  li_Sampling :: sampling_params
  li_UserInput :: string
  li_MaxSteps :: int
  li_HITLConfig :: "hitl_config option"
  li_ReviewChannels :: bool
  li_FallbackConfig :: "agent_fallback option"
  li_APIType :: string
  li_Interceptor :: "interceptor_ops option"
  li_Memory :: "(string + string) option"
  li_DigestBulletin :: string
  li_Skills :: "(string \<times> string) list"
  li_PolicyEvaluator :: "evaluator option"

text \<open>What stays fixed during a turn.\<close>

record 'p turn_env =
  te_config :: loop_config
  te_input :: loop_input
  te_world :: "'p agent_world"
  te_toolLoop :: "tool_loop option"
  te_toolDefs :: "tool_definition list"
  te_resolvedModel :: string
  te_text :: text_ops
  te_path_match :: "string \<Rightarrow> string \<Rightarrow> bool"
  te_prompts :: "string \<times> string \<times> string"

section \<open>A turn\<close>

text \<open>
  What a turn does to the world, in order: calls of a model, accepted responses, decisions of a reviewer,
  sets of tool calls that passed the guard against repetition, and executions of a tool. It is a record of
  the run, not a variable of the code.
\<close>

datatype 'p world_call =
    ModelCalled 'p chat_request
  | Accepted chat_completion
  | Reviewed "tool_call list" string
  | Admitted "tool_call list"
  | ToolExecuted tool_call

record 'p turn =
  tu_state :: loop_state
  tu_events :: "agent_event list"
  tu_trace :: "'p world_call list"
  tu_tick :: nat
  tu_provider :: 'p
  tu_lastToolSignature :: string
  tu_repeatedToolSignatureCount :: nat
  tu_forceRetryAfterToolFailure :: bool
  tu_pendingExposedURLs :: "string set"
  tu_urlAnnouncementAttempted :: bool
  tu_toolCalls :: int
  tu_sandboxToolCalls :: int
  tu_toolErrors :: int
  tu_emptyResponseRetries :: nat
  tu_askUserBackstopRetries :: nat
  tu_awaitingPostAskUserAction :: bool
  tu_askUserContinuationRetries :: nat
  tu_lengthRetries :: nat
  tu_partialStreamedText :: string

text \<open>How a pass through the loop's body ends.\<close>

datatype turn_stop = NextIteration | LeaveLoop | ReturnNow "gateway_error option" | TurnPanics

abbreviation "upd_state f t \<equiv> t\<lparr>tu_state := f (tu_state t)\<rparr>"

definition emit_event :: "agent_event \<Rightarrow> 'p turn \<Rightarrow> 'p turn" where
  "emit_event e t = t\<lparr>tu_events := tu_events t @ [e]\<rparr>"

definition record_call :: "'p world_call \<Rightarrow> 'p turn \<Rightarrow> 'p turn" where
  "record_call c t = t\<lparr>tu_trace := tu_trace t @ [c]\<rparr>"

definition ask_world :: "'p turn \<Rightarrow> 'p turn" where
  "ask_world t = t\<lparr>tu_tick := Suc (tu_tick t)\<rparr>"

definition append_message :: "chat_message \<Rightarrow> 'p turn \<Rightarrow> 'p turn" where
  "append_message msg t = upd_state (\<lambda>s. s\<lparr>ls_Messages := ls_Messages s @ [msg]\<rparr>) t"

definition append_messages :: "chat_message list \<Rightarrow> 'p turn \<Rightarrow> 'p turn" where
  "append_messages msgs t = upd_state (\<lambda>s. s\<lparr>ls_Messages := ls_Messages s @ msgs\<rparr>) t"

definition finish_with :: "string \<Rightarrow> 'p turn \<Rightarrow> 'p turn" where
  "finish_with reason t = upd_state (\<lambda>s. s\<lparr>ls_FinishReason := reason, ls_Done := True\<rparr>) t"

definition set_text :: "string \<Rightarrow> 'p turn \<Rightarrow> 'p turn" where
  "set_text s t = upd_state (\<lambda>st. st\<lparr>ls_LastAssistantText := s\<rparr>) t"

text \<open>A system message and the event that tells of it, as every nudge of the loop is given.\<close>

definition steer_with :: "string \<Rightarrow> 'p turn \<Rightarrow> 'p turn" where
  "steer_with s t = emit_event (EvSteerReceived ''system'' s) (append_message (text_message RoleSystem s) t)"

definition observe_ctx :: "'p turn_env \<Rightarrow> 'p turn \<Rightarrow> ctx_state \<times> 'p turn" where
  "observe_ctx env t = (ctx_at (te_world env) (tu_tick t), ask_world t)"

definition session_tokens :: "loop_state \<Rightarrow> int" where
  "session_tokens s = ls_PriorSessionTokens s + ud_TotalTokens (ls_CumulativeUsage s)"

end
