(* ===== verification/AgentLoop.thy ===== *)
theory AgentLoop
  imports AgentWorld
begin

text \<open>
  One turn of the agent: \<open>Loop.Run\<close> of \<open>src/internal/agents/runtime/loop.go\<close>, stage by stage in the
  order of the code. A stage that may leave the pass is a function into \<open>turn_stop \<times> turn + \<dots>\<close>: \<open>Inl\<close> is
  its \<open>continue\<close>, \<open>break\<close>, \<open>return\<close> or panic, and \<open>bind_result\<close> joins the stages.
\<close>

section \<open>Guards at the top of the loop\<close>

definition terminate_turn :: "string \<Rightarrow> 'p turn \<Rightarrow> turn_stop \<times> 'p turn" where
  "terminate_turn reason t = (LeaveLoop, emit_event (EvTermination reason) (finish_with reason t))"

definition loop_guards :: "'p turn_env \<Rightarrow> 'p turn \<Rightarrow> (turn_stop \<times> 'p turn) + 'p turn" where
  "loop_guards env t0 =
     (let (ctx, t) = observe_ctx env t0; c = te_config env; s = tu_state t in
      if ctx \<noteq> CtxLive then Inl (terminate_turn ''timeout'' t)
      else if ls_IterationCount s \<ge> lp_MaxIterations c then
        Inl (terminate_turn
               (if li_MaxSteps (te_input env) > 0 \<and> lp_MaxIterations c = li_MaxSteps (te_input env)
                then ''max_steps'' else ''max_iterations'') t)
      else if lp_MaxToolCallsPerTurn c > 0 \<and> ls_TotalToolCalls s \<ge> lp_MaxToolCallsPerTurn c then
        Inl (terminate_turn ''max_tool_calls'' t)
      else if lp_SessionTokenBudget c > 0 \<and> session_tokens s \<ge> lp_SessionTokenBudget c then
        Inl (terminate_turn ''token_budget_exhausted'' t)
      else Inr ((upd_state (\<lambda>s. s\<lparr>ls_IterationCount := ls_IterationCount s + 1\<rparr>) t)\<lparr>tu_partialStreamedText := []\<rparr>))"

section \<open>Preparing the request\<close>

definition compact_step :: "compact_request \<Rightarrow> 'p turn \<Rightarrow> 'p turn" where
  "compact_step req t =
     (if request_fits req (ls_Messages (tu_state t))
      then let t1 = upd_state (\<lambda>s. s\<lparr>ls_Messages := apply_compact_request req (ls_Messages s)\<rparr>) t
           in emit_event (EvCompactionApplied (cr_Tier req) (cr_FreedTokens req) (length (ls_Messages (tu_state t1)))) t1
      else t)"

definition drain_compactions :: "'p turn_env \<Rightarrow> 'p turn \<Rightarrow> 'p turn" where
  "drain_compactions env t = fold compact_step (aw_compactions (te_world env) (tu_tick t)) (ask_world t)"

definition prepare_request :: "'p turn_env \<Rightarrow> 'p turn \<Rightarrow> chat_request \<times> 'p turn" where
  "prepare_request env t0 =
     (let t = drain_compactions env t0;
          t = upd_state (\<lambda>s. s\<lparr>ls_Messages := compactToolResults (ls_Messages s) 6\<rparr>) t;
          messagesToSend = historyToSend (lp_MaxHistoryMessages (te_config env)) (ls_Messages (tu_state t));
          req = BuildChatRequest (te_resolvedModel env) messagesToSend (te_toolDefs env) (li_Sampling (te_input env));
          req = (if li_APIType (te_input env) = ''responses'' \<and> aw_name (te_world env) (tu_provider t) = Some ''openai''
                 then req\<lparr>rq_UseResponsesAPI := True\<rparr> else req);
          (digestPrompt, skillsManifest, memoryBlock) = te_prompts env;
          breakdown = buildPromptTokenBreakdown messagesToSend (li_UserInput (te_input env))
            (li_SystemPrompt (te_input env)) digestPrompt skillsManifest memoryBlock
      in (req, emit_event (EvLLMStart (ls_IterationCount (tu_state t)) (length (ls_Messages (tu_state t))) breakdown) t))"

section \<open>Calling the model\<close>

definition on_chunk :: "string \<Rightarrow> 'p turn \<Rightarrow> 'p turn" where
  "on_chunk textDelta t =
     emit_event (EvLLMChunk textDelta) (t\<lparr>tu_partialStreamedText := tu_partialStreamedText t @ textDelta\<rparr>)"

definition executeLLMCall ::
    "'p turn_env \<Rightarrow> 'p \<Rightarrow> chat_request \<Rightarrow> 'p turn \<Rightarrow> (gateway_error + chat_completion) \<times> 'p turn" where
  "executeLLMCall env provider req t0 =
     (let w = te_world env; n = tu_tick t0; t = ask_world t0; streaming = lp_EnableStreaming (te_config env) in
      case aw_cached w n req of
        Some (resp, hitType) \<Rightarrow>
          let t = emit_event (EvCacheHit (rq_Model req) hitType) t;
              hit_text = (if cc_Choices resp = [] then [] else messageText (ch_Message (hd (cc_Choices resp))))
          in (Inr resp, if streaming \<and> hit_text \<noteq> [] then on_chunk hit_text t else t)
      | None \<Rightarrow>
          let t = record_call (ModelCalled provider req) t;
              (result, t) = (if streaming
                 then let (r, shown) = ExecuteTurnStream (aw_stream w n provider req) in (r, fold on_chunk shown t)
                 else (aw_chat w n provider req, t));
              t = emit_event (EvCacheMiss (rq_Model req)) t
          in (result,
              if isl result then t
              else if fst (aw_stored w n) then emit_event (EvCacheStore (rq_Model req) (snd (aw_stored w n))) t
              else t))"

text \<open>\<open>fmt.Errorf("\<dots>: %w", err)\<close> hides the class: the class tests assert the type of the error itself.\<close>

definition wrap_error :: "string \<Rightarrow> gateway_error \<Rightarrow> gateway_error" where
  "wrap_error pre e = e\<lparr>ge_msg := pre @ ge_msg e, ge_class := MfOther\<rparr>"

definition ctx_error :: "ctx_cause \<Rightarrow> gateway_error" where
  "ctx_error cause = \<lparr>ge_msg = (if cause = DeadlinePassed then ''context deadline exceeded'' else ''context canceled''),
     ge_class = MfOther, ge_ctx_done = True, ge_model_not_found = False, ge_not_implemented = False\<rparr>"

datatype 'p fallback_try = TryServed chat_completion 'p | TryNext gateway_error | TryAborted gateway_error

text \<open>The attempts with one fallback model; \<open>left\<close> of them remain, \<open>err\<close> is the last error.\<close>

fun try_attempts ::
    "'p turn_env \<Rightarrow> agent_fallback \<Rightarrow> chat_request \<Rightarrow> string \<Rightarrow> nat \<Rightarrow> int \<Rightarrow> gateway_error \<Rightarrow> 'p turn \<Rightarrow>
       'p fallback_try \<times> 'p turn" where
  "try_attempts env fb req fbModel 0 attempt err t = (TryNext err, t)"
| "try_attempts env fb req fbModel (Suc left) attempt err t0 =
     (let t = emit_event (EvFallbackTriggered (li_Model (te_input env)) fbModel attempt) t0;
          answer = aw_resolve (te_world env) (tu_tick t) fbModel;
          t = ask_world t
      in case answer of
           Inl resolveErr \<Rightarrow> (TryNext err, t)
         | Inr (fbProvider, resolved) \<Rightarrow>
             let fbReq = req\<lparr>rq_Model := (if resolved = [] then fbModel else resolved)\<rparr>;
                 (ctx, t) = (if attempt > 1 \<and> af_BackoffMs fb > 0 then observe_ctx env t else (CtxLive, t))
             in case ctx of
                  CtxDone cause \<Rightarrow> (TryAborted (ctx_error cause), t)
                | CtxLive \<Rightarrow>
                    (case executeLLMCall env fbProvider fbReq t of
                       (Inr resp, t) \<Rightarrow>
                         (TryServed resp fbProvider,
                          emit_event (EvFallbackSucceeded (li_Model (te_input env)) fbModel attempt) t)
                     | (Inl err', t) \<Rightarrow>
                         if \<not> IsRetryable (to_lower (te_text env)) err' then (TryNext err', t)
                         else try_attempts env fb req fbModel left (attempt + 1) err' t))"

fun try_models ::
    "'p turn_env \<Rightarrow> agent_fallback \<Rightarrow> chat_request \<Rightarrow> string list \<Rightarrow> gateway_error \<Rightarrow> 'p turn \<Rightarrow>
       (gateway_error + chat_completion \<times> 'p) \<times> 'p turn" where
  "try_models env fb req [] err t =
     (Inl (wrap_error ''all fallback models exhausted, last error: '' err),
      emit_event (EvFallbackFailed (li_Model (te_input env)) (ge_msg err)) t)"
| "try_models env fb req (m # ms) err t =
     (case try_attempts env fb req m (nat (af_MaxAttempts fb)) 1 err t of
        (TryServed resp p, t) \<Rightarrow> (Inr (resp, p), t)
      | (TryAborted e, t) \<Rightarrow> (Inl e, t)
      | (TryNext e, t) \<Rightarrow> try_models env fb req ms e t)"

definition callWithFallback ::
    "'p turn_env \<Rightarrow> chat_request \<Rightarrow> 'p turn \<Rightarrow> (gateway_error + chat_completion \<times> 'p) \<times> 'p turn" where
  "callWithFallback env req t0 =
     (case executeLLMCall env (tu_provider t0) req t0 of
        (Inr resp, t) \<Rightarrow> (Inr (resp, tu_provider t0), t)
      | (Inl err, t) \<Rightarrow>
          (case li_FallbackConfig (te_input env) of
             None \<Rightarrow> (Inl err, t)
           | Some fb \<Rightarrow>
               if \<not> IsRetryable (to_lower (te_text env)) err then (Inl err, t)
               else try_models env fb req (af_Models fb) err t))"

definition maxRateLimitRetries :: nat where "maxRateLimitRetries = 3"

definition rateLimitBackoffs :: "int list" where "rateLimitBackoffs = [15, 30, 60]"

text \<open>The retries after a rate limit, \<open>left\<close> of them still allowed. The context may end the wait.\<close>

fun call_with_retries ::
    "'p turn_env \<Rightarrow> chat_request \<Rightarrow> nat \<Rightarrow> 'p turn \<Rightarrow> (gateway_error + chat_completion) \<times> 'p turn" where
  "call_with_retries env req left t0 =
     (case callWithFallback env req t0 of
        (Inr (resp, p), t) \<Rightarrow> (Inr resp, t\<lparr>tu_provider := p\<rparr>)
      | (Inl err, t) \<Rightarrow>
          (case left of
             0 \<Rightarrow> (Inl err, t)
           | Suc left' \<Rightarrow>
               if \<not> IsRateLimitError (to_lower (te_text env)) err then (Inl err, t)
               else
                 let attempt = maxRateLimitRetries - left;
                     t = emit_event (EvLLMRetry (rateLimitBackoffs ! attempt) (int attempt + 1)) t;
                     (ctx, t) = observe_ctx env t
                 in case ctx of
                      CtxDone cause \<Rightarrow> (Inl (ctx_error cause), t)
                    | CtxLive \<Rightarrow> call_with_retries env req left' t))"

declare call_with_retries.simps [simp del]

definition keep_partial :: "'p turn \<Rightarrow> 'p turn" where
  "keep_partial t =
     (let partial = tu_partialStreamedText t in
      if partial = [] then t else append_message (text_message RoleAssistant partial) (set_text partial t))"

definition account_usage :: "chat_completion \<Rightarrow> 'p turn \<Rightarrow> 'p turn" where
  "account_usage resp t =
     (let u = cc_Usage resp;
          t = upd_state (\<lambda>s. s\<lparr>ls_TurnUsage := add_usage u (ls_TurnUsage s),
                               ls_CumulativeUsage := add_usage u (ls_CumulativeUsage s)\<rparr>) t
      in emit_event (EvLLMEnd (add_usage u no_delta)) (record_call (Accepted resp) t))"

definition call_model ::
    "'p turn_env \<Rightarrow> chat_request \<Rightarrow> 'p turn \<Rightarrow> (turn_stop \<times> 'p turn) + chat_completion \<times> 'p turn" where
  "call_model env req t0 =
     (case call_with_retries env req maxRateLimitRetries t0 of
        (Inl err, t) \<Rightarrow>
          let (ctx, t) = observe_ctx env (keep_partial t) in
          (case ctx of
             CtxDone cause \<Rightarrow> Inl (ReturnNow None, finish_with (finishReasonFromContext cause) t)
           | CtxLive \<Rightarrow>
               Inl (ReturnNow (Some (wrap_error ''LLM call failed: '' err)),
                    finish_with ''error'' (emit_event (EvLLMFailed (ge_msg err)) t)))
      | (Inr resp, t) \<Rightarrow> Inr (resp, account_usage resp t))"

section \<open>Answers without tool calls\<close>

definition hasTools :: "'p turn_env \<Rightarrow> bool" where
  "hasTools env \<longleftrightarrow> te_toolDefs env \<noteq> []"

definition responseHasToolCalls :: "chat_completion \<Rightarrow> bool" where
  "responseHasToolCalls resp \<longleftrightarrow> ExtractToolCalls resp \<noteq> []"

definition shouldLoop :: "'p turn_env \<Rightarrow> chat_completion \<Rightarrow> bool" where
  "shouldLoop env resp \<longleftrightarrow>
     hasTools env \<and>
     ((case te_toolLoop env of None \<Rightarrow> False | Some tm \<Rightarrow> IsEnabled tm \<and> ShouldExecuteToolLoop tm resp) \<or>
      (li_Interceptor (te_input env) \<noteq> None \<and> responseHasToolCalls resp))"

definition maxLengthRetries :: nat where "maxLengthRetries = 3"
definition maxEmptyResponseRetries :: nat where "maxEmptyResponseRetries = 3"
definition maxAskUserBackstopRetries :: nat where "maxAskUserBackstopRetries = 2"
definition maxAskUserContinuationRetries :: nat where "maxAskUserContinuationRetries = 2"

definition length_hint :: string where
  "length_hint = ''Your previous response was truncated because it exceeded the output token limit. '' @
     ''Your tool call arguments were cut off and could not be parsed. '' @
     ''Please retry with shorter content. If you are writing a file, break it into smaller chunks using multiple tool calls.''"

definition empty_hint :: string where
  "empty_hint = ''Your previous response was empty. Please continue working on the task. Use your available tools to make progress, or provide a status update if you'' @ [CHR 0x27] @ ''re done.''"

definition backstop_hint :: string where
  "backstop_hint = ''You asked the user a blocking question in plain assistant text. Do not ask clarifying questions directly in assistant output. Re-issue the question as an ask_user tool call instead. When there are a few clear choices, include them in the options array.''"

definition continuation_hint :: string where
  "continuation_hint = ''You now have the user'' @ [CHR 0x27] @ ''s answer. Continue the task by taking the next concrete action immediately. If a scheduling or automation tool is available, use it now (for example create_trigger, schedule_cron, or a workflow-related tool). Do not stop after collecting user input unless you are truly blocked and must explain the blocker.''"

definition failure_hint :: string where
  "failure_hint = ''Previous tool execution failed. Continue troubleshooting with additional tool calls before ending this turn. If truly blocked, explain the blocker and ask for user input.''"

definition url_hint :: "string list \<Rightarrow> string" where
  "url_hint urls = ''Before ending this turn, provide a concise user-facing update listing these available sandbox URL(s):'' @
     line_feed @ go_join line_feed urls"

text \<open>An answer cut off by the output limit while it called tools is asked for again, three times.\<close>

definition length_retry :: "chat_completion \<Rightarrow> 'p turn \<Rightarrow> (turn_stop \<times> 'p turn) + 'p turn" where
  "length_retry resp t0 =
     (if cc_Choices resp \<noteq> [] \<and> ch_FinishReason (hd (cc_Choices resp)) = ''length'' \<and> responseHasToolCalls resp
      then let t = t0\<lparr>tu_lengthRetries := tu_lengthRetries t0 + 1\<rparr> in
        if tu_lengthRetries t \<le> maxLengthRetries
        then Inl (NextIteration, append_message (text_message RoleUser length_hint) t)
        else Inr t
      else Inr t0)"

definition final_answer :: "'p turn_env \<Rightarrow> chat_completion \<Rightarrow> 'p turn \<Rightarrow> turn_stop \<times> 'p turn" where
  "final_answer env resp t0 =
     (case cc_Choices resp of
        [] \<Rightarrow> (LeaveLoop, upd_state (\<lambda>s. s\<lparr>ls_LastAssistantText := [], ls_Done := True\<rparr>) t0)
      | choice # _ \<Rightarrow>
          let msg = ch_Message choice;
              answer = messageText msg;
              t = upd_state (\<lambda>s. s\<lparr>ls_FinishReason := ch_FinishReason choice, ls_LastAssistantText := answer\<rparr>) t0;
              hasText = (TrimSpace answer \<noteq> []);
              no_calls = (msg_tool_calls msg = [])
          in
          if \<not> hasText \<and> no_calls \<and> hasTools env \<and> tu_emptyResponseRetries t < maxEmptyResponseRetries then
            (NextIteration,
             append_message (text_message RoleUser empty_hint) (t\<lparr>tu_emptyResponseRetries := tu_emptyResponseRetries t + 1\<rparr>))
          else if hasText \<and> no_calls \<and> tu_askUserBackstopRetries t < maxAskUserBackstopRetries \<and>
                  shouldBackstopAskUser (to_lower (te_text env)) (li_Tools (te_input env)) answer then
            (NextIteration,
             steer_with backstop_hint (t\<lparr>tu_askUserBackstopRetries := tu_askUserBackstopRetries t + 1\<rparr>))
          else if no_calls \<and> tu_awaitingPostAskUserAction t \<and>
                  tu_askUserContinuationRetries t < maxAskUserContinuationRetries then
            (NextIteration,
             steer_with continuation_hint (t\<lparr>tu_askUserContinuationRetries := tu_askUserContinuationRetries t + 1\<rparr>))
          else (LeaveLoop, upd_state (\<lambda>s. s\<lparr>ls_Done := True\<rparr>) (append_message msg t)))"

text \<open>The finish reason announced tool calls but the response has none.\<close>

definition no_calls_extracted :: "'p turn_env \<Rightarrow> chat_completion \<Rightarrow> 'p turn \<Rightarrow> turn_stop \<times> 'p turn" where
  "no_calls_extracted env resp t0 =
     (let choice = hd (cc_Choices resp);
          answer = messageText (ch_Message choice);
          urls = sortedURLs (tu_pendingExposedURLs t0);
          mentioned = (tu_pendingExposedURLs t0 \<noteq> {} \<and> messageMentionsAnyURL answer urls);
          t = (if mentioned then t0\<lparr>tu_pendingExposedURLs := {}, tu_urlAnnouncementAttempted := False\<rparr> else t0)
      in
      if tu_pendingExposedURLs t0 \<noteq> {} \<and> \<not> mentioned \<and> hasTools env \<and> \<not> tu_urlAnnouncementAttempted t0 then
        (NextIteration, steer_with (url_hint urls) (t0\<lparr>tu_urlAnnouncementAttempted := True\<rparr>))
      else if tu_forceRetryAfterToolFailure t \<and> hasTools env then
        (NextIteration, steer_with failure_hint (t\<lparr>tu_forceRetryAfterToolFailure := False\<rparr>))
      else
        (LeaveLoop,
         append_message (ch_Message choice)
           (upd_state (\<lambda>s. s\<lparr>ls_FinishReason := ch_FinishReason choice, ls_LastAssistantText := answer, ls_Done := True\<rparr>) t)))"

section \<open>Admitting tool calls\<close>

definition maxRepeatedToolSignatures :: nat where "maxRepeatedToolSignatures = 3"

definition maxToolArgSize :: nat where "maxToolArgSize = 64 * 1024"

definition stall_message :: "nat \<Rightarrow> string" where
  "stall_message n = ''Tool loop stopped: identical tool calls were repeated '' @ decimal (int n) @ '' times without progress.''"

definition stop_with_message :: "string \<Rightarrow> string \<Rightarrow> 'p turn \<Rightarrow> turn_stop \<times> 'p turn" where
  "stop_with_message reason msg t =
     (LeaveLoop, append_message (text_message RoleAssistant msg) (set_text msg (finish_with reason t)))"

definition note_signature :: "string \<Rightarrow> 'p turn \<Rightarrow> 'p turn" where
  "note_signature sig t =
     (if sig = [] then t
      else if sig = tu_lastToolSignature t
      then t\<lparr>tu_repeatedToolSignatureCount := tu_repeatedToolSignatureCount t + 1\<rparr>
      else t\<lparr>tu_lastToolSignature := sig, tu_repeatedToolSignatureCount := 1\<rparr>)"

definition stall_guard :: "tool_call list \<Rightarrow> 'p turn \<Rightarrow> (turn_stop \<times> 'p turn) + 'p turn" where
  "stall_guard toolCalls t0 =
     (let t = note_signature (toolCallSignature toolCalls) t0 in
      if tu_repeatedToolSignatureCount t \<ge> maxRepeatedToolSignatures
      then Inl (stop_with_message ''tool_loop_stalled'' (stall_message (tu_repeatedToolSignatureCount t)) t)
      else Inr (record_call (Admitted toolCalls)
                  (upd_state (\<lambda>s. s\<lparr>ls_TotalToolCalls := ls_TotalToolCalls s + int (length toolCalls)\<rparr>) t)))"

definition oversized :: "tool_call \<Rightarrow> bool" where
  "oversized tc \<longleftrightarrow> length (tc_Arguments tc) > maxToolArgSize"

definition oversized_text :: string where
  "oversized_text = ''Tool call rejected: arguments exceed maximum size of '' @ decimal (int maxToolArgSize) @ '' bytes''"

text \<open>
  The loop removes elements of the slice it ranges over: \<open>arr\<close> is the backing array, which keeps its size,
  and \<open>len\<close> the length of the shortened slice. \<open>append(s[:i], s[i+1:]...)\<close> shifts the elements behind \<open>i\<close>
  to the left within the array, and panics (\<open>None\<close>) when \<open>i + 1\<close> is beyond \<open>len\<close>.
\<close>

fun reject_oversized ::
    "chat_message \<Rightarrow> nat list \<Rightarrow> tool_call list \<Rightarrow> nat \<Rightarrow> 'p turn \<Rightarrow> (tool_call list \<times> 'p turn) option \<times> 'p turn" where
  "reject_oversized msg [] arr len t = (Some (take len arr, t), t)"
| "reject_oversized msg (i # is) arr len t0 =
     (let tc = arr ! i in
      if \<not> oversized tc then reject_oversized msg is arr len t0
      else
        let t = append_messages [msg, tool_message (tc_ID tc) oversized_text] t0 in
        if i + 1 > len then (None, t)
        else reject_oversized msg is (take i arr @ drop (i + 1) (take len arr) @ drop (len - 1) arr) (len - 1) t)"

definition validate_sizes ::
    "chat_completion \<Rightarrow> tool_call list \<Rightarrow> 'p turn \<Rightarrow> (turn_stop \<times> 'p turn) + tool_call list \<times> 'p turn" where
  "validate_sizes resp toolCalls t =
     (case reject_oversized (ch_Message (hd (cc_Choices resp))) [0..<length toolCalls] toolCalls (length toolCalls) t of
        (None, t') \<Rightarrow> Inl (TurnPanics, t')
      | (Some r, _) \<Rightarrow> Inr r)"

section \<open>The approval gate\<close>

definition denial_text :: "string \<Rightarrow> string" where
  "denial_text reason =
     ''Tool call denied by human reviewer.'' @ (if reason \<noteq> [] then '' Reason: '' @ reason else [])"

definition heartbeats :: "nat \<Rightarrow> 'p turn \<Rightarrow> 'p turn" where
  "heartbeats n t = t\<lparr>tu_events := tu_events t @ replicate n EvApprovalHeartbeat\<rparr>"

definition timeout_decision :: "hitl_config \<Rightarrow> approval_decision" where
  "timeout_decision cfg = \<lparr>ad_ReviewID = [], ad_Action = hc_DefaultAction cfg, ad_Decisions = [],
     ad_Reason = ''approval_timeout'', ad_ResolvedBy = []\<rparr>"

definition apply_decision ::
    "chat_message \<Rightarrow> tool_call list \<Rightarrow> approval_decision \<Rightarrow> 'p turn \<Rightarrow> (turn_stop \<times> 'p turn) + 'p turn" where
  "apply_decision msg needsApproval d t0 =
     (let t = record_call (Reviewed needsApproval (ad_Action d))
            (emit_event (EvApprovalResolved (ad_Action d) (ad_Reason d)) t0) in
      if ad_Action d = ''deny''
      then Inl (NextIteration,
             append_messages (msg # map (\<lambda>tc. tool_message (tc_ID tc) (denial_text (ad_Reason d))) needsApproval) t)
      else Inr t)"

definition approval_gate ::
    "'p turn_env \<Rightarrow> chat_completion \<Rightarrow> tool_call list \<Rightarrow> 'p turn \<Rightarrow> (turn_stop \<times> 'p turn) + 'p turn" where
  "approval_gate env resp toolCalls t0 =
     (let needsApproval = FilterToolCallsNeedingApproval (te_path_match env) toolCalls (li_HITLConfig (te_input env)) in
      case li_HITLConfig (te_input env) of
        None \<Rightarrow> Inr t0
      | Some cfg \<Rightarrow>
          if \<not> li_ReviewChannels (te_input env) \<or> needsApproval = [] then Inr t0
          else
            let t = emit_event (EvApprovalRequested needsApproval (hc_TimeoutSeconds cfg) (hc_DefaultAction cfg)) t0;
                outcome = aw_review (te_world env) (tu_tick t) needsApproval;
                t = ask_world t;
                msg = ch_Message (hd (cc_Choices resp))
            in case outcome of
                 NotTaken cause \<Rightarrow> Inl (ReturnNow None, finish_with (finishReasonFromContext cause) t)
               | WaitCancelled n cause \<Rightarrow>
                   Inl (ReturnNow None,
                     finish_with (finishReasonFromContext cause) (emit_event EvApprovalCancelled (heartbeats n t)))
               | Decided n d \<Rightarrow> apply_decision msg needsApproval d (heartbeats n t)
               | TimerFired n \<Rightarrow> apply_decision msg needsApproval (timeout_decision cfg) (heartbeats n t))"

section \<open>Executing tool calls\<close>

text \<open>
  The names of synthetic tools are plain identifiers, which \<open>%q\<close> puts in quotes as they are. The executor
  returns no error, so the branch that emits an error event for a call is never taken.
\<close>

definition start_call :: "tool_call \<Rightarrow> 'p turn \<Rightarrow> 'p turn" where
  "start_call tc t =
     emit_event (EvToolCallStart (tc_ID tc) (tc_Name tc) (tc_Arguments tc))
       (t\<lparr>tu_toolCalls := tu_toolCalls t + 1,
          tu_sandboxToolCalls := tu_sandboxToolCalls t + (if isSandboxToolName (tc_Name tc) then 1 else 0)\<rparr>)"

definition keep_result :: "tool_call \<Rightarrow> string \<Rightarrow> bool \<Rightarrow> 'p turn \<Rightarrow> 'p turn" where
  "keep_result tc result ok t =
     upd_state (\<lambda>s. s\<lparr>ls_ToolResults := (ls_ToolResults s)(tc_ID tc \<mapsto> \<lparr>rm_Result = result, rm_Success = ok\<rparr>)\<rparr>) t"

record 'p synth_acc =
  sy_turn :: "'p turn"
  sy_syntheticResults :: "chat_message list"
  sy_regularToolCalls :: "tool_call list"
  sy_iterationHadToolFailure :: bool
  sy_seenSyntheticCalls :: "string set"

definition duplicate_text :: "string \<Rightarrow> string" where
  "duplicate_text quoted = ''Skipped duplicate synthetic tool call '' @ quoted @ '' in the same iteration.''"

definition skip_duplicate :: "(string \<Rightarrow> string) \<Rightarrow> tool_call \<Rightarrow> 'p synth_acc \<Rightarrow> 'p synth_acc" where
  "skip_duplicate quote tc a =
     (let result = duplicate_text (quote (tc_Name tc));
          t = emit_event (EvToolCallEnd (tc_ID tc) (tc_Name tc) result True) (start_call tc (sy_turn a))
      in a\<lparr>sy_turn := keep_result tc result True t,
           sy_syntheticResults := sy_syntheticResults a @ [tool_message (tc_ID tc) result]\<rparr>)"

definition awaiting_after :: "string \<Rightarrow> bool \<Rightarrow> 'p turn \<Rightarrow> 'p turn" where
  "awaiting_after name success t =
     (if name = ''ask_user'' then
        if success then t\<lparr>tu_awaitingPostAskUserAction := True, tu_askUserContinuationRetries := 0\<rparr>
        else t\<lparr>tu_awaitingPostAskUserAction := False\<rparr>
      else if success then t\<lparr>tu_awaitingPostAskUserAction := False\<rparr>
      else t)"

definition run_synthetic :: "interceptor_ops \<Rightarrow> tool_call \<Rightarrow> 'p synth_acc \<Rightarrow> 'p synth_acc" where
  "run_synthetic ic tc a =
     (let t = start_call tc (sy_turn a);
          answer = ic_ExecuteSyntheticTool ic (tu_tick t) (tc_Name tc) (tc_Arguments tc);
          t = record_call (ToolExecuted tc) (ask_world t);
          success = \<not> isl answer;
          result = (case answer of Inl e \<Rightarrow> ''Error: '' @ e | Inr r \<Rightarrow> r);
          t = awaiting_after (tc_Name tc) success t;
          t = (if success then t else t\<lparr>tu_toolErrors := tu_toolErrors t + 1\<rparr>);
          t = emit_event (EvToolCallEnd (tc_ID tc) (tc_Name tc) result success) t
      in a\<lparr>sy_turn := keep_result tc result success t,
           sy_iterationHadToolFailure := (sy_iterationHadToolFailure a \<or> \<not> success),
           sy_syntheticResults := sy_syntheticResults a @ [tool_message (tc_ID tc) result],
           sy_seenSyntheticCalls := insert (tc_Name tc @ '':'' @ tc_Arguments tc) (sy_seenSyntheticCalls a)\<rparr>)"

definition intercept_call :: "(string \<Rightarrow> string) \<Rightarrow> interceptor_ops \<Rightarrow> tool_call \<Rightarrow> 'p synth_acc \<Rightarrow> 'p synth_acc" where
  "intercept_call quote ic tc a =
     (if ic_IsSyntheticTool ic (tc_Name tc) then
        if tc_Name tc @ '':'' @ tc_Arguments tc \<in> sy_seenSyntheticCalls a then skip_duplicate quote tc a
        else run_synthetic ic tc a
      else a\<lparr>sy_turn := (sy_turn a)\<lparr>tu_awaitingPostAskUserAction := False\<rparr>,
             sy_regularToolCalls := sy_regularToolCalls a @ [tc]\<rparr>)"

definition intercept_calls :: "'p turn_env \<Rightarrow> tool_call list \<Rightarrow> 'p turn \<Rightarrow> 'p synth_acc" where
  "intercept_calls env toolCalls t =
     (let a = \<lparr>sy_turn = t, sy_syntheticResults = [], sy_regularToolCalls = [], sy_iterationHadToolFailure = False,
               sy_seenSyntheticCalls = {}\<rparr>
      in case li_Interceptor (te_input env) of
           None \<Rightarrow> a\<lparr>sy_regularToolCalls := toolCalls\<rparr>
         | Some ic \<Rightarrow> fold (intercept_call (\<lambda>s. CHR 0x22 # s @ [CHR 0x22]) ic) toolCalls a)"

text \<open>The executor runs the calls of the response, not those that are left of them.\<close>

definition execute_regular ::
    "'p turn_env \<Rightarrow> chat_completion \<Rightarrow> tool_call list \<Rightarrow> 'p turn \<Rightarrow> (turn_stop \<times> 'p turn) + chat_message list \<times> 'p turn" where
  "execute_regular env resp regularToolCalls t0 =
     (let t = fold start_call regularToolCalls t0 in
      if regularToolCalls = [] then Inr ([], t)
      else case te_toolLoop env of
        None \<Rightarrow> Inl (TurnPanics, t)
      | Some tm \<Rightarrow>
          (case ExecuteToolLoop tm (li_TenantID (te_input env)) (tu_tick t) resp of
             None \<Rightarrow> Inl (TurnPanics, t)
           | Some msgs \<Rightarrow>
               let run = (if IsEnabled tm then ExtractToolCalls resp else [])
               in Inr (msgs, (fold (\<lambda>tc. record_call (ToolExecuted tc)) run t)\<lparr>tu_tick := tu_tick t + length run\<rparr>)))"

definition merge_results :: "chat_completion \<Rightarrow> chat_message list \<Rightarrow> chat_message list \<Rightarrow> 'p turn \<Rightarrow> 'p turn" where
  "merge_results resp syntheticResults resultMessages t =
     (if syntheticResults = [] then t
      else append_messages
             (ch_Message (hd (cc_Choices resp)) # syntheticResults @
              (if resultMessages \<noteq> [] \<and> msg_role (hd resultMessages) = RoleAssistant then tl resultMessages
               else resultMessages)) t)"

definition last_text :: "content_part list \<Rightarrow> string" where
  "last_text parts = fold (\<lambda>part s. case part_text part of Some x \<Rightarrow> x | None \<Rightarrow> s) parts []"

text \<open>The loop over the regular calls that looks up their results; the executor never returns an error.\<close>

definition finish_regular_call :: "chat_message list \<Rightarrow> tool_call \<Rightarrow> bool \<times> 'p turn \<Rightarrow> bool \<times> 'p turn" where
  "finish_regular_call resultMessages tc ft =
     (let (failed, t) = ft;
          found = find (\<lambda>m. msg_tool_call_id m = tc_ID tc) resultMessages;
          success = (found \<noteq> None);
          result = (case found of None \<Rightarrow> [] | Some m \<Rightarrow> last_text (msg_content m));
          t = (if success then t else t\<lparr>tu_toolErrors := tu_toolErrors t + 1\<rparr>);
          t = emit_event (EvToolCallEnd (tc_ID tc) (tc_Name tc) result success) t
      in (failed \<or> \<not> success, keep_result tc result success t))"

definition collect_urls :: "'p turn_env \<Rightarrow> 'p turn \<Rightarrow> 'p turn" where
  "collect_urls env t =
     (case li_Interceptor (te_input env) of
        None \<Rightarrow> t
      | Some ic \<Rightarrow>
          (ask_world t)\<lparr>tu_pendingExposedURLs :=
             tu_pendingExposedURLs t \<union> set (ic_CollectExposedURLs ic (tu_tick t))\<rparr>)"

text \<open>The policy checks of \<open>PolicyEvaluator\<close> on the state of the turn.\<close>

definition policy_view :: "'p turn \<Rightarrow> turn_state" where
  "policy_view t =
     (let s = tu_state t in
      \<lparr>ts_turn_number = ls_TurnNumber s, ts_iteration_count = ls_IterationCount s,
       ts_prior_tokens = ls_PriorSessionTokens s, ts_cumulative_tokens = ud_TotalTokens (ls_CumulativeUsage s),
       ts_finish_reason = ls_FinishReason s, ts_done = ls_Done s, ts_assistant_text = ls_LastAssistantText s,
       ts_messages = [], ts_emitted = []\<rparr>)"

definition policy_back :: "turn_state \<Rightarrow> 'p turn \<Rightarrow> 'p turn" where
  "policy_back p t =
     (let t = t\<lparr>tu_events := tu_events t @ map (\<lambda>(phase, d). EvPolicyDecision phase d) (ts_emitted p)\<rparr>;
          t = append_messages (map (\<lambda>(role, s). text_message role s) (ts_messages p)) t
      in upd_state (\<lambda>s. s\<lparr>ls_FinishReason := ts_finish_reason p, ls_Done := ts_done p,
           ls_LastAssistantText := ts_assistant_text p\<rparr>) t)"

definition post_tool_policy :: "'p turn_env \<Rightarrow> 'p turn \<Rightarrow> (turn_stop \<times> 'p turn) + 'p turn" where
  "post_tool_policy env t0 =
     (let (p, blocked) = post_tool_check (te_text env) (li_PolicyEvaluator (te_input env))
            (tu_sandboxToolCalls t0) (tu_toolErrors t0) (policy_view t0);
          t = policy_back p t0
      in if blocked then Inl (LeaveLoop, t) else Inr t)"

definition no_results_message :: string where
  "no_results_message = ''Tool loop stopped: no tool results were produced for the requested tool calls.''"

section \<open>Messages between iterations\<close>

definition drain_steer :: "'p turn_env \<Rightarrow> 'p turn \<Rightarrow> 'p turn" where
  "drain_steer env t0 =
     (let t = ask_world t0 in
      case aw_steer (te_world env) (tu_tick t0) of
        None \<Rightarrow> t
      | Some (role, content) \<Rightarrow>
          emit_event (EvSteerReceived role content)
            (append_message (text_message (if role = ''system'' then RoleSystem else RoleUser) content) t))"

definition job_text :: "job_note \<Rightarrow> string option" where
  "job_text j =
     (case jn_Outcome j of
        JobCompletedWith r \<Rightarrow> Some (''[Background job '' @ jn_JobID j @ '' completed]'' @ line_feed @ ''Result: '' @ r)
      | JobFailedWith e \<Rightarrow> Some (''[Background job '' @ jn_JobID j @ '' failed]'' @ line_feed @ ''Error: '' @ e)
      | JobWasCancelled \<Rightarrow> Some (''[Background job '' @ jn_JobID j @ '' was cancelled]'')
      | JobOther \<Rightarrow> None)"

definition fork_text :: "fork_note \<Rightarrow> string option" where
  "fork_text f =
     (if fk_Status f = ''completed'' then
        Some (''[Fork conclusion (re: '' @ fk_Instruction f @ '')]'' @ line_feed @ fk_Conclusion f)
      else if fk_Status f = ''failed'' then
        Some (''[Fork failed (re: '' @ fk_Instruction f @ '')]'' @ line_feed @ ''Error: '' @ fk_Error f)
      else if fk_Status f = ''cancelled'' then Some (''[Fork cancelled (re: '' @ fk_Instruction f @ '')]'')
      else None)"

definition peer_text :: "peer_note \<Rightarrow> string" where
  "peer_text p =
     (if pn_MessageType p = ''delegation'' then ''[Job delegation from @'' @ pn_SenderName p @ '']: '' @ pn_Content p
      else if pn_MessageType p = ''job_result'' then ''[Job result from @'' @ pn_SenderName p @ '']: '' @ pn_Content p
      else ''[Message from @'' @ pn_SenderName p @ '']: '' @ pn_Content p)"

definition drain_notes :: "'p turn_env \<Rightarrow> 'p turn \<Rightarrow> 'p turn" where
  "drain_notes env t0 =
     (let w = te_world env;
          t = fold steer_with (List.map_filter job_text (aw_jobs w (tu_tick t0))) (ask_world t0);
          t = fold steer_with (List.map_filter fork_text (aw_forks w (tu_tick t))) (ask_world t)
      in fold steer_with (map peer_text (aw_peers w (tu_tick t))) (ask_world t))"

section \<open>A pass through the loop\<close>

definition execute_calls ::
    "'p turn_env \<Rightarrow> chat_completion \<Rightarrow> tool_call list \<Rightarrow> 'p turn \<Rightarrow> (turn_stop \<times> 'p turn) + 'p turn" where
  "execute_calls env resp toolCalls t0 =
     (let a = intercept_calls env toolCalls t0;
          syntheticResults = sy_syntheticResults a
      in bind_result (execute_regular env resp (sy_regularToolCalls a) (sy_turn a)) (\<lambda>(resultMessages, t).
         let t = merge_results resp syntheticResults resultMessages t;
             (failed, t) = fold (finish_regular_call resultMessages) (sy_regularToolCalls a)
                             (sy_iterationHadToolFailure a, t);
             t = (if syntheticResults = [] then append_messages resultMessages t else t);
             t = (collect_urls env t)\<lparr>tu_forceRetryAfterToolFailure := failed\<rparr>
         in bind_result (post_tool_policy env t) (\<lambda>t.
            if syntheticResults = [] \<and> resultMessages = [] \<and> toolCalls \<noteq> []
            then Inl (stop_with_message ''tool_loop_no_results'' no_results_message t)
            else Inr (drain_notes env (drain_steer env t)))))"

definition handle_calls ::
    "'p turn_env \<Rightarrow> chat_completion \<Rightarrow> 'p turn \<Rightarrow> (turn_stop \<times> 'p turn) + 'p turn" where
  "handle_calls env resp t0 =
     (let toolCalls = ExtractToolCalls resp in
      if toolCalls = [] then Inl (no_calls_extracted env resp t0)
      else bind_result (stall_guard toolCalls t0) (\<lambda>t.
           bind_result (validate_sizes resp toolCalls t) (\<lambda>(toolCalls, t).
           bind_result (approval_gate env resp toolCalls t) (execute_calls env resp toolCalls))))"

definition handle_response ::
    "'p turn_env \<Rightarrow> chat_completion \<times> 'p turn \<Rightarrow> (turn_stop \<times> 'p turn) + 'p turn" where
  "handle_response env rt =
     (let resp = fst rt in
      bind_result (length_retry resp (snd rt)) (\<lambda>t.
        if \<not> shouldLoop env resp then Inl (final_answer env resp t) else handle_calls env resp t))"

definition iteration :: "'p turn_env \<Rightarrow> 'p turn \<Rightarrow> turn_stop \<times> 'p turn" where
  "iteration env t0 =
     (case bind_result (loop_guards env t0) (\<lambda>t.
           let (req, t) = prepare_request env t in
           bind_result (call_model env req t) (handle_response env)) of
        Inl st \<Rightarrow> st
      | Inr t \<Rightarrow> (NextIteration, t))"

end
