(* ===== verification/AgentRun.thy ===== *)
theory AgentRun
  imports AgentLoop
begin

text \<open>
  What each stage of a pass leaves alone and what it adds to the record of the run, and from these the
  shape of a pass. \<open>core\<close> collects the variables the guards depend on.
\<close>

section \<open>What the stages leave alone\<close>

definition core_of ::
    "loop_state \<Rightarrow> string \<Rightarrow> nat \<Rightarrow> (int \<times> int \<times> int \<times> usage_delta \<times> usage_delta) \<times> int \<times> string \<times> nat" where
  "core_of s sig n =
     ((ls_IterationCount s, ls_TurnNumber s, ls_PriorSessionTokens s, ls_TurnUsage s, ls_CumulativeUsage s),
      ls_TotalToolCalls s, sig, n)"

definition core :: "'p turn \<Rightarrow> (int \<times> int \<times> int \<times> usage_delta \<times> usage_delta) \<times> int \<times> string \<times> nat" where
  "core t = core_of (tu_state t) (tu_lastToolSignature t) (tu_repeatedToolSignatureCount t)"

lemma core_of_other_fields [simp]:
  "core_of (ls_Messages_update f1 s) = core_of s" "core_of (ls_FinishReason_update f2 s) = core_of s"
  "core_of (ls_LastAssistantText_update f2 s) = core_of s" "core_of (ls_Done_update f3 s) = core_of s"
  "core_of (ls_ToolResults_update f4 s) = core_of s" "core_of (ls_TurnStartIndex_update f5 s) = core_of s"
  by (simp_all add: core_of_def fun_eq_iff)

text \<open>\<open>adds P t t'\<close>: from \<open>t\<close> to \<open>t'\<close> the core is unchanged and only calls that satisfy \<open>P\<close> are recorded.\<close>

definition adds :: "('p world_call \<Rightarrow> bool) \<Rightarrow> 'p turn \<Rightarrow> 'p turn \<Rightarrow> bool" where
  "adds P t t' \<longleftrightarrow> core t' = core t \<and> (\<exists>tr. tu_trace t' = tu_trace t @ tr \<and> list_all P tr)"

abbreviation "quiet \<equiv> adds (\<lambda>_. False)"

lemma adds_refl [simp, intro]: "adds P t t"
  by (simp add: adds_def)

lemma adds_trans: "adds P t u \<Longrightarrow> adds P u v \<Longrightarrow> adds P t v"
  by (auto simp: adds_def)

lemma adds_mono: "adds P t u \<Longrightarrow> (\<And>c. P c \<Longrightarrow> Q c) \<Longrightarrow> adds Q t u"
  unfolding adds_def by (metis list.pred_mono_strong)

lemma quiet_iff: "quiet t u \<longleftrightarrow> core u = core t \<and> tu_trace u = tu_trace t"
  by (auto simp: adds_def list_all_iff)

lemma quiet_adds: "quiet t u \<Longrightarrow> adds P t u"
  by (simp add: quiet_iff adds_def)

lemma adds_quiet: "adds P t u \<Longrightarrow> quiet u v \<Longrightarrow> adds P t v"
  by (rule adds_trans) (auto intro: quiet_adds)

lemma core_eq_fields:
  assumes "core u = core t"
  shows "ls_IterationCount (tu_state u) = ls_IterationCount (tu_state t)"
    "ls_TurnNumber (tu_state u) = ls_TurnNumber (tu_state t)"
    "ls_PriorSessionTokens (tu_state u) = ls_PriorSessionTokens (tu_state t)"
    "ls_TurnUsage (tu_state u) = ls_TurnUsage (tu_state t)"
    "ls_CumulativeUsage (tu_state u) = ls_CumulativeUsage (tu_state t)"
    "ls_TotalToolCalls (tu_state u) = ls_TotalToolCalls (tu_state t)"
    "tu_lastToolSignature u = tu_lastToolSignature t"
    "tu_repeatedToolSignatureCount u = tu_repeatedToolSignatureCount t"
  using assms by (simp_all add: core_def core_of_def)

lemma emit_event_core [simp]: "core (emit_event e t) = core t" "tu_trace (emit_event e t) = tu_trace t"
  by (simp_all add: core_def emit_event_def)

lemma ask_world_core [simp]: "core (ask_world t) = core t" "tu_trace (ask_world t) = tu_trace t"
  by (simp_all add: core_def ask_world_def)

lemma append_message_core [simp]: "core (append_message m t) = core t" "tu_trace (append_message m t) = tu_trace t"
  by (simp_all add: core_def append_message_def)

lemma append_messages_core [simp]: "core (append_messages ms t) = core t" "tu_trace (append_messages ms t) = tu_trace t"
  by (simp_all add: core_def append_messages_def)

lemma finish_with_core [simp]: "core (finish_with reason t) = core t" "tu_trace (finish_with reason t) = tu_trace t"
  by (simp_all add: core_def finish_with_def)

lemma set_text_core [simp]: "core (set_text s t) = core t" "tu_trace (set_text s t) = tu_trace t"
  by (simp_all add: core_def set_text_def)

lemma heartbeats_core [simp]: "core (heartbeats n t) = core t" "tu_trace (heartbeats n t) = tu_trace t"
  by (simp_all add: core_def heartbeats_def)

lemma start_call_core [simp]: "core (start_call tc t) = core t" "tu_trace (start_call tc t) = tu_trace t"
  by (simp_all add: core_def start_call_def emit_event_def)

lemma keep_result_core [simp]: "core (keep_result tc r ok t) = core t" "tu_trace (keep_result tc r ok t) = tu_trace t"
  by (simp_all add: core_def keep_result_def)

lemma awaiting_after_core [simp]: "core (awaiting_after name ok t) = core t" "tu_trace (awaiting_after name ok t) = tu_trace t"
  by (simp_all add: core_def awaiting_after_def)

lemma policy_back_core [simp]: "core (policy_back p t) = core t" "tu_trace (policy_back p t) = tu_trace t"
  by (simp_all add: core_def policy_back_def append_messages_def Let_def)

lemma steer_with_core [simp]: "core (steer_with s t) = core t" "tu_trace (steer_with s t) = tu_trace t"
  by (simp_all add: core_def steer_with_def emit_event_def append_message_def)

lemma state_primitives [simp]:
  "tu_state (emit_event e t) = tu_state t" "tu_state (ask_world t) = tu_state t" "tu_state (heartbeats n t) = tu_state t"
  "ls_Done (tu_state (finish_with reason t))" "ls_FinishReason (tu_state (finish_with reason t)) = reason"
  "ls_Done (tu_state (append_message m t)) = ls_Done (tu_state t)"
  "ls_Done (tu_state (append_messages ms t)) = ls_Done (tu_state t)"
  "ls_Done (tu_state (set_text s t)) = ls_Done (tu_state t)"
  by (simp_all add: emit_event_def ask_world_def heartbeats_def finish_with_def append_message_def append_messages_def
      set_text_def)

lemma record_call_core [simp]:
  "core (record_call c t) = core t" "tu_trace (record_call c t) = tu_trace t @ [c]"
  "tu_state (record_call c t) = tu_state t"
  by (simp_all add: record_call_def core_def)

lemma core_locals [simp]:
  "core (t\<lparr>tu_partialStreamedText := x\<rparr>) = core t" "core (t\<lparr>tu_provider := p\<rparr>) = core t"
  "core (t\<lparr>tu_lengthRetries := n\<rparr>) = core t" "core (t\<lparr>tu_emptyResponseRetries := n\<rparr>) = core t"
  "core (t\<lparr>tu_askUserBackstopRetries := n\<rparr>) = core t" "core (t\<lparr>tu_askUserContinuationRetries := n\<rparr>) = core t"
  "core (t\<lparr>tu_awaitingPostAskUserAction := b\<rparr>) = core t" "core (t\<lparr>tu_pendingExposedURLs := us\<rparr>) = core t"
  "core (t\<lparr>tu_urlAnnouncementAttempted := b\<rparr>) = core t" "core (t\<lparr>tu_forceRetryAfterToolFailure := b\<rparr>) = core t"
  "core (t\<lparr>tu_toolErrors := i\<rparr>) = core t" "core (t\<lparr>tu_tick := k\<rparr>) = core t"
  by (simp_all add: core_def)

lemma core_state_updates [simp]:
  "core (t\<lparr>tu_state := ls_Messages_update f (tu_state t)\<rparr>) = core t"
  "core (t\<lparr>tu_state := ls_Done_update g (tu_state t)\<rparr>) = core t"
  "core (t\<lparr>tu_state := (tu_state t)\<lparr>ls_LastAssistantText := x, ls_Done := b\<rparr>\<rparr>) = core t"
  "core (t\<lparr>tu_state := (tu_state t)\<lparr>ls_FinishReason := r, ls_LastAssistantText := x\<rparr>\<rparr>) = core t"
  "core (t\<lparr>tu_state := (tu_state t)\<lparr>ls_FinishReason := r, ls_LastAssistantText := x, ls_Done := b\<rparr>\<rparr>) = core t"
  by (simp_all add: core_def)

lemma observe_ctx_simps [simp]:
  "fst (observe_ctx env t) = ctx_at (te_world env) (tu_tick t)" "snd (observe_ctx env t) = ask_world t"
  by (simp_all add: observe_ctx_def)

lemma fold_core_trace:
  "(\<And>x t. core (f x t) = core t) \<Longrightarrow> (\<And>x t. tu_trace (f x t) = tu_trace t) \<Longrightarrow>
     core (fold f xs t) = core t \<and> tu_trace (fold f xs t) = tu_trace t"
  by (induction xs arbitrary: t) simp_all

section \<open>Requests and model calls\<close>

definition is_model_call :: "'p world_call \<Rightarrow> bool" where
  "is_model_call c \<longleftrightarrow> (\<exists>p req. c = ModelCalled p req)"

text \<open>Model calls only, and at most \<open>n\<close> of them.\<close>

definition calls_model :: "nat \<Rightarrow> 'p turn \<Rightarrow> 'p turn \<Rightarrow> bool" where
  "calls_model n t t' \<longleftrightarrow>
     core t' = core t \<and> (\<exists>tr. tu_trace t' = tu_trace t @ tr \<and> list_all is_model_call tr \<and> length tr \<le> n)"

lemma calls_model_refl: "core t' = core t \<Longrightarrow> tu_trace t' = tu_trace t \<Longrightarrow> calls_model n t t'"
  by (simp add: calls_model_def)

lemma calls_model_trans: "calls_model m t u \<Longrightarrow> calls_model n u v \<Longrightarrow> calls_model (m + n) t v"
  by (fastforce simp: calls_model_def)

lemma calls_model_weaken: "calls_model m t u \<Longrightarrow> m \<le> n \<Longrightarrow> calls_model n t u"
  by (fastforce simp: calls_model_def)

lemma calls_model_quiet:
  "calls_model n t u \<Longrightarrow> core v = core u \<Longrightarrow> tu_trace v = tu_trace u \<Longrightarrow> calls_model n t v"
  "core u = core t \<Longrightarrow> tu_trace u = tu_trace t \<Longrightarrow> calls_model n u v \<Longrightarrow> calls_model n t v"
  by (simp_all add: calls_model_def)

lemma compact_step_core: "core (compact_step req t) = core t \<and> tu_trace (compact_step req t) = tu_trace t"
  by (simp add: compact_step_def Let_def core_def emit_event_def)

lemma drain_compactions_core [simp]:
  "core (drain_compactions env t) = core t" "tu_trace (drain_compactions env t) = tu_trace t"
  by (simp_all add: drain_compactions_def fold_core_trace [OF compact_step_core [THEN conjunct1] compact_step_core [THEN conjunct2]])

lemma prepare_request_core:
  "prepare_request env t = (req, t') \<Longrightarrow> core t' = core t \<and> tu_trace t' = tu_trace t"
  by (auto simp: prepare_request_def Let_def split: prod.splits)

lemma on_chunk_core: "core (on_chunk x t) = core t \<and> tu_trace (on_chunk x t) = tu_trace t"
  by (simp add: on_chunk_def)

lemma executeLLMCall_calls: "executeLLMCall env p req t = (r, t') \<Longrightarrow> calls_model 1 t t'"
proof (cases "aw_cached (te_world env) (tu_tick t) req")
  case (Some hit)
  then show "executeLLMCall env p req t = (r, t') \<Longrightarrow> calls_model 1 t t'"
    by (auto simp: executeLLMCall_def Let_def on_chunk_core intro!: calls_model_refl split: prod.splits)
next
  case None
  define u where "u = record_call (ModelCalled p req) (ask_world t)"
  have chunks: "core (fold on_chunk xs u) = core t \<and> tu_trace (fold on_chunk xs u) = tu_trace t @ [ModelCalled p req]"
    for xs using fold_core_trace [of on_chunk xs u] on_chunk_core by (auto simp: u_def)
  have u: "core u = core t \<and> tu_trace u = tu_trace t @ [ModelCalled p req]" by (simp add: u_def)
  assume "executeLLMCall env p req t = (r, t')"
  with None have "core t' = core t \<and> tu_trace t' = tu_trace t @ [ModelCalled p req]"
    unfolding executeLLMCall_def Let_def u_def [symmetric]
    by (auto simp: chunks u split: prod.splits if_splits)
  then show "calls_model 1 t t'" by (simp add: calls_model_def is_model_call_def)
qed

lemma try_attempts_calls: "try_attempts env fb req m left k err t = (r, t') \<Longrightarrow> calls_model left t t'"
proof (induction left arbitrary: k err t r t')
  case 0
  then show ?case by (simp add: calls_model_refl)
next
  case (Suc left attempt err t0)
  define t1 where "t1 = ask_world (emit_event (EvFallbackTriggered (li_Model (te_input env)) m attempt) t0)"
  have t1: "core t1 = core t0" "tu_trace t1 = tu_trace t0" by (simp_all add: t1_def)
  show ?case
  proof (cases "aw_resolve (te_world env) (tu_tick (emit_event (EvFallbackTriggered (li_Model (te_input env)) m attempt) t0)) m")
    case (Inl e)
    with Suc.prems t1 show ?thesis by (auto simp: t1_def intro!: calls_model_refl)
  next
    case (Inr pr)
    obtain p resolved where pr: "pr = (p, resolved)" by fastforce
    define fbReq where "fbReq = req\<lparr>rq_Model := (if resolved = [] then m else resolved)\<rparr>"
    obtain ctx t2 where ctx: "(if attempt > 1 \<and> af_BackoffMs fb > 0 then observe_ctx env t1 else (CtxLive, t1)) = (ctx, t2)"
      by fastforce
    have t2: "core t2 = core t0" "tu_trace t2 = tu_trace t0"
      using ctx t1 observe_ctx_simps [of env t1] by (auto split: if_splits simp: observe_ctx_def)
    obtain answer t3 where call: "executeLLMCall env p fbReq t2 = (answer, t3)" by fastforce
    have one: "calls_model 1 t0 t3" using executeLLMCall_calls [OF call] t2 by (simp add: calls_model_def)
    note unfolded = Suc.prems [unfolded try_attempts.simps Let_def, folded t1_def, unfolded Inr pr, simplified,
        folded fbReq_def, unfolded ctx, simplified]
    show ?thesis
    proof (cases ctx)
      case (CtxDone cause)
      with unfolded t2 show ?thesis by (auto intro!: calls_model_refl)
    next
      case CtxLive
      show ?thesis
      proof (cases answer)
        case (Inr resp)
        with unfolded CtxLive call one have "core t' = core t3" "tu_trace t' = tu_trace t3" by auto
        then have "calls_model 1 t0 t'" using calls_model_quiet(1) [OF one] by simp
        then show ?thesis by (rule calls_model_weaken) simp
      next
        case (Inl e)
        show ?thesis
        proof (cases "IsRetryable (to_lower (te_text env)) e")
          case False
          with unfolded CtxLive call Inl have "t' = t3" by auto
          with one show ?thesis by (auto intro: calls_model_weaken)
        next
          case True
          with unfolded CtxLive call Inl
          have rest: "try_attempts env fb req m left (attempt + 1) e t3 = (r, t')" by auto
          have "calls_model left t3 t'" by (rule Suc.IH [OF rest])
          from calls_model_trans [OF one this] show ?thesis by simp
        qed
      qed
    qed
  qed
qed

lemma try_models_calls:
  "try_models env fb req ms err t = (r, t') \<Longrightarrow>
     calls_model (length ms * nat (af_MaxAttempts fb)) t t'"
proof (induction ms arbitrary: err t)
  case Nil
  then show ?case by (auto intro!: calls_model_refl)
next
  case (Cons m ms)
  obtain x u where attempts: "try_attempts env fb req m (nat (af_MaxAttempts fb)) 1 err t = (x, u)" by fastforce
  note first = try_attempts_calls [OF this]
  show ?case
  proof (cases x)
    case (TryNext e)
    with Cons.prems attempts have "try_models env fb req ms e u = (r, t')" by simp
    from calls_model_trans [OF first Cons.IH [OF this]] show ?thesis by (simp add: algebra_simps)
  qed (use Cons.prems attempts first in \<open>auto intro: calls_model_weaken\<close>)
qed

text \<open>Calls of one round: the primary model, then every fallback model as often as configured.\<close>

definition round_calls :: "'p turn_env \<Rightarrow> nat" where
  "round_calls env = Suc (case li_FallbackConfig (te_input env) of
     None \<Rightarrow> 0 | Some fb \<Rightarrow> length (af_Models fb) * nat (af_MaxAttempts fb))"

lemma callWithFallback_calls: "callWithFallback env req t = (r, t') \<Longrightarrow> calls_model (round_calls env) t t'"
proof -
  assume run: "callWithFallback env req t = (r, t')"
  obtain x u where primary: "executeLLMCall env (tu_provider t) req t = (x, u)" by fastforce
  note first = executeLLMCall_calls [OF this]
  consider "t' = u"
    | fb e where "li_FallbackConfig (te_input env) = Some fb" "try_models env fb req (af_Models fb) e u = (r, t')"
    using run primary by (auto simp: callWithFallback_def split: sum.splits option.splits if_splits)
  then show ?thesis
  proof cases
    case 1
    with first show ?thesis by (auto simp: round_calls_def intro: calls_model_weaken)
  next
    case (2 fb e)
    from calls_model_trans [OF first try_models_calls [OF 2(2)]] 2(1) show ?thesis by (simp add: round_calls_def)
  qed
qed

lemma call_with_retries_calls:
  "call_with_retries env req left t = (r, t') \<Longrightarrow> calls_model (Suc left * round_calls env) t t'"
proof (induction left arbitrary: t)
  case 0
  obtain x u where once: "callWithFallback env req t = (x, u)" by fastforce
  have "core t' = core u" "tu_trace t' = tu_trace u"
    using 0 once by (auto simp: call_with_retries.simps [of env req 0 t] split: sum.splits)
  with callWithFallback_calls [OF once] show ?case by (auto intro: calls_model_quiet(1))
next
  case (Suc left)
  obtain x u where once: "callWithFallback env req t = (x, u)" by fastforce
  note first = callWithFallback_calls [OF this]
  define v where "v e = ask_world (emit_event (EvLLMRetry (rateLimitBackoffs ! (maxRateLimitRetries - Suc left))
    (int (maxRateLimitRetries - Suc left) + 1)) u)" for e :: gateway_error
  consider "core t' = core u" "tu_trace t' = tu_trace u"
    | e where "call_with_retries env req left (v e) = (r, t')"
    using Suc.prems once
    by (subst (asm) call_with_retries.simps)
       (auto simp: v_def Let_def observe_ctx_def split: sum.splits if_splits ctx_state.splits)
  then show ?case
  proof cases
    case 1
    with first show ?thesis by (auto intro: calls_model_quiet(1) calls_model_weaken)
  next
    case (2 e)
    have "calls_model (Suc left * round_calls env) u t'"
      using calls_model_quiet(2) [OF _ _ Suc.IH [OF 2]] by (simp add: v_def)
    from calls_model_trans [OF first this] show ?thesis by simp
  qed
qed

definition turn_calls :: "'p turn_env \<Rightarrow> nat" where
  "turn_calls env = Suc maxRateLimitRetries * round_calls env"

lemma keep_partial_core [simp]: "core (keep_partial t) = core t" "tu_trace (keep_partial t) = tu_trace t"
  by (simp_all add: keep_partial_def Let_def)

lemma account_usage_trace [simp]: "tu_trace (account_usage resp t) = tu_trace t @ [Accepted resp]"
  by (simp add: account_usage_def Let_def record_call_def emit_event_def)

lemma call_model_Inl:
  assumes "call_model env req t = Inl (stop, t')"
  shows "calls_model (turn_calls env) t t' \<and> ls_Done (tu_state t') \<and> (\<exists>e. stop = ReturnNow e)"
proof -
  obtain e u where retries: "call_with_retries env req maxRateLimitRetries t = (Inl e, u)"
    using assms by (cases "call_with_retries env req maxRateLimitRetries t") (auto simp: call_model_def split: sum.splits)
  have "core t' = core u" "tu_trace t' = tu_trace u" "ls_Done (tu_state t')" "\<exists>e. stop = ReturnNow e"
    using assms retries
    by (auto simp: call_model_def Let_def observe_ctx_def split: ctx_state.splits)
  with call_with_retries_calls [OF retries] show ?thesis
    by (auto simp: turn_calls_def intro: calls_model_quiet(1))
qed

lemma call_model_Inr:
  assumes "call_model env req t = Inr (resp, t')"
  obtains u where "calls_model (turn_calls env) t u" "t' = account_usage resp u"
proof -
  obtain u where "call_with_retries env req maxRateLimitRetries t = (Inr resp, u)" "t' = account_usage resp u"
    using assms by (cases "call_with_retries env req maxRateLimitRetries t")
      (auto simp: call_model_def Let_def observe_ctx_def split: sum.splits ctx_state.splits)
  with call_with_retries_calls that show ?thesis unfolding turn_calls_def by blast
qed

section \<open>Executing tool calls\<close>

definition is_execution :: "tool_call set \<Rightarrow> 'p world_call \<Rightarrow> bool" where
  "is_execution S c \<longleftrightarrow> (\<exists>tc \<in> S. c = ToolExecuted tc)"

lemma run_synthetic_adds: "adds (is_execution {tc}) (sy_turn a) (sy_turn (run_synthetic ic tc a))"
  by (simp add: run_synthetic_def Let_def adds_def is_execution_def)

lemma skip_duplicate_adds: "quiet (sy_turn a) (sy_turn (skip_duplicate quote tc a))"
  by (simp add: skip_duplicate_def Let_def quiet_iff)

lemma intercept_call_adds: "adds (is_execution {tc}) (sy_turn a) (sy_turn (intercept_call quote ic tc a))"
proof (cases "ic_IsSyntheticTool ic (tc_Name tc)")
  case True
  then show ?thesis
    by (simp add: intercept_call_def run_synthetic_adds quiet_adds [OF skip_duplicate_adds])
next
  case False
  then show ?thesis by (simp add: intercept_call_def adds_def)
qed

lemma fold_intercept_adds:
  "adds (is_execution (set calls)) (sy_turn a) (sy_turn (fold (intercept_call quote ic) calls a))"
proof (induction calls arbitrary: a)
  case (Cons tc calls)
  have "adds (is_execution (set (tc # calls))) (sy_turn a) (sy_turn (intercept_call quote ic tc a))"
    using intercept_call_adds by (rule adds_mono) (auto simp: is_execution_def)
  moreover have "adds (is_execution (set (tc # calls))) (sy_turn (intercept_call quote ic tc a))
      (sy_turn (fold (intercept_call quote ic) calls (intercept_call quote ic tc a)))"
    using Cons.IH by (rule adds_mono) (auto simp: is_execution_def)
  ultimately show ?case by (auto intro: adds_trans)
qed simp

lemma intercept_calls_adds: "adds (is_execution (set calls)) t (sy_turn (intercept_calls env calls t))"
  using fold_intercept_adds [of calls "\<lparr>sy_turn = t, sy_syntheticResults = [], sy_regularToolCalls = [],
      sy_iterationHadToolFailure = False, sy_seenSyntheticCalls = {}\<rparr>"]
  by (auto simp: intercept_calls_def Let_def split: option.splits)

lemma fold_record_executions:
  "adds (is_execution (set run)) t (fold (\<lambda>tc. record_call (ToolExecuted tc)) run t)"
proof (induction run arbitrary: t)
  case (Cons tc run)
  have "adds (is_execution (set (tc # run))) t (record_call (ToolExecuted tc) t)"
    by (simp add: adds_def is_execution_def)
  moreover have "adds (is_execution (set (tc # run))) (record_call (ToolExecuted tc) t)
      (fold (\<lambda>tc. record_call (ToolExecuted tc)) run (record_call (ToolExecuted tc) t))"
    using Cons.IH by (rule adds_mono) (auto simp: is_execution_def)
  ultimately show ?case by (auto intro: adds_trans)
qed simp

lemma fold_start_call_core: "core (fold start_call calls t) = core t \<and> tu_trace (fold start_call calls t) = tu_trace t"
  by (rule fold_core_trace) simp_all

lemma execute_regular_Inl:
  "execute_regular env resp calls t = Inl (stop, t') \<Longrightarrow> stop = TurnPanics \<and> quiet t t'"
  using fold_start_call_core
  by (auto simp: execute_regular_def Let_def quiet_iff split: if_splits option.splits)

lemma execute_regular_Inr:
  assumes "execute_regular env resp calls t = Inr (msgs, t')"
  shows "adds (is_execution (set (ExtractToolCalls resp))) t t'"
proof -
  define u where "u = fold start_call calls t"
  have u: "quiet t u" using fold_start_call_core by (simp add: u_def quiet_iff)
  consider "t' = u"
    | tm where "t' = (fold (\<lambda>tc. record_call (ToolExecuted tc)) (if IsEnabled tm then ExtractToolCalls resp else []) u)
        \<lparr>tu_tick := tu_tick u + length (if IsEnabled tm then ExtractToolCalls resp else [])\<rparr>"
    using assms unfolding execute_regular_def Let_def u_def [symmetric]
    by (cases "calls = []"; cases "te_toolLoop env") (auto split: option.splits)
  then show ?thesis
  proof cases
    case 1
    with u show ?thesis by (simp add: quiet_adds)
  next
    case (2 tm)
    have "adds (is_execution (set (ExtractToolCalls resp))) u
        (fold (\<lambda>tc. record_call (ToolExecuted tc)) (if IsEnabled tm then ExtractToolCalls resp else []) u)"
      using fold_record_executions [of "ExtractToolCalls resp" u] by simp
    from adds_trans [OF quiet_adds [OF u] this] show ?thesis by (simp add: 2 adds_def)
  qed
qed

lemma merge_results_core [simp]:
  "core (merge_results resp sr rm t) = core t" "tu_trace (merge_results resp sr rm t) = tu_trace t"
  by (simp_all add: merge_results_def)

lemma finish_regular_call_core:
  "core (snd (finish_regular_call rm tc ft)) = core (snd ft) \<and>
   tu_trace (snd (finish_regular_call rm tc ft)) = tu_trace (snd ft)"
  by (cases ft) (simp add: finish_regular_call_def Let_def)

lemma fold_finish_regular_core:
  "core (snd (fold (finish_regular_call rm) calls ft)) = core (snd ft) \<and>
   tu_trace (snd (fold (finish_regular_call rm) calls ft)) = tu_trace (snd ft)"
  by (induction calls arbitrary: ft) (simp_all add: finish_regular_call_core)

lemma collect_urls_core [simp]: "core (collect_urls env t) = core t" "tu_trace (collect_urls env t) = tu_trace t"
  by (simp_all add: collect_urls_def split: option.splits)

lemma fold_steer_core: "core (fold steer_with ss t) = core t \<and> tu_trace (fold steer_with ss t) = tu_trace t"
  by (rule fold_core_trace) simp_all

lemma drain_core [simp]:
  "core (drain_steer env t) = core t" "tu_trace (drain_steer env t) = tu_trace t"
  "core (drain_notes env t) = core t" "tu_trace (drain_notes env t) = tu_trace t"
  by (simp_all add: drain_steer_def drain_notes_def Let_def fold_steer_core split: option.split prod.split)

lemma stop_with_message_core:
  "stop_with_message reason msg t = (stop, t') \<Longrightarrow>
     stop = LeaveLoop \<and> core t' = core t \<and> tu_trace t' = tu_trace t \<and> ls_Done (tu_state t')"
  by (auto simp: stop_with_message_def)

lemma post_tool_policy_core:
  "post_tool_policy env t = Inl (stop, t') \<Longrightarrow>
     stop = LeaveLoop \<and> core t' = core t \<and> tu_trace t' = tu_trace t \<and> ls_Done (tu_state t')"
  "post_tool_policy env t = Inr t' \<Longrightarrow> core t' = core t \<and> tu_trace t' = tu_trace t"
  by (auto simp: post_tool_policy_def Let_def split: prod.splits if_splits)
     (auto simp: post_tool_check_def policy_back_def append_messages_def Let_def emit_decisions_def policy_view_def
       split: if_splits)

text \<open>The calls that are executed are among those of the response.\<close>

lemma execute_calls_outcome:
  assumes "set toolCalls \<subseteq> set (ExtractToolCalls resp)"
  defines "E \<equiv> is_execution (set (ExtractToolCalls resp))"
  shows "execute_calls env resp toolCalls t = Inl (stop, t') \<Longrightarrow>
      adds E t t' \<and> (stop = TurnPanics \<or> stop = LeaveLoop \<and> ls_Done (tu_state t'))"
    and "execute_calls env resp toolCalls t = Inr t' \<Longrightarrow> adds E t t'"
proof -
  define a where "a = intercept_calls env toolCalls t"
  have a: "adds E t (sy_turn a)"
  proof -
    have "is_execution (set (ExtractToolCalls resp)) c" if "is_execution (set toolCalls) c" for c :: "'a world_call"
      using that assms(1) unfolding is_execution_def by blast
    then show ?thesis unfolding a_def E_def by (rule adds_mono [OF intercept_calls_adds])
  qed
  define after where "after msgs u =
     (let t = merge_results resp (sy_syntheticResults a) msgs u;
          (failed, t) = fold (finish_regular_call msgs) (sy_regularToolCalls a) (sy_iterationHadToolFailure a, t);
          t = (if sy_syntheticResults a = [] then append_messages msgs t else t)
      in (collect_urls env t)\<lparr>tu_forceRetryAfterToolFailure := failed\<rparr>)" for msgs and u :: "'a turn"
  have after: "quiet u (after msgs u)" for msgs u
    using fold_finish_regular_core [of msgs "sy_regularToolCalls a"
        "(sy_iterationHadToolFailure a, merge_results resp (sy_syntheticResults a) msgs u)"]
    by (auto simp: after_def Let_def quiet_iff split: prod.splits)
  have run: "execute_calls env resp toolCalls t =
     bind_result (execute_regular env resp (sy_regularToolCalls a) (sy_turn a)) (\<lambda>(msgs, u).
       bind_result (post_tool_policy env (after msgs u)) (\<lambda>v.
         if sy_syntheticResults a = [] \<and> msgs = [] \<and> toolCalls \<noteq> []
         then Inl (stop_with_message ''tool_loop_no_results'' no_results_message v)
         else Inr (drain_notes env (drain_steer env v))))"
    unfolding execute_calls_def Let_def a_def [symmetric] after_def
    by (rule arg_cong2 [where f = bind_result]) (auto simp: fun_eq_iff Let_def split: prod.splits)
  have shape: "case execute_calls env resp toolCalls t of
      Inl (stop, t') \<Rightarrow> adds E t t' \<and> (stop = TurnPanics \<or> stop = LeaveLoop \<and> ls_Done (tu_state t'))
    | Inr t' \<Rightarrow> adds E t t'"
  proof (cases "execute_regular env resp (sy_regularToolCalls a) (sy_turn a)")
    case (Inl st)
    obtain stop u where st: "st = (stop, u)" by fastforce
    with execute_regular_Inl Inl have "stop = TurnPanics" "quiet (sy_turn a) u" by blast+
    with adds_quiet [OF a] show ?thesis by (simp add: run Inl st)
  next
    case (Inr mu)
    obtain msgs u where mu: "mu = (msgs, u)" by fastforce
    have "adds E (sy_turn a) u" using execute_regular_Inr Inr mu unfolding E_def by blast
    then have reached: "adds E t (after msgs u)" using a after by (blast intro: adds_trans adds_quiet)
    show ?thesis
    proof (cases "post_tool_policy env (after msgs u)")
      case (Inl st)
      obtain stop v where st: "st = (stop, v)" by fastforce
      from post_tool_policy_core(1) [OF Inl [unfolded st]]
      have "stop = LeaveLoop" "quiet (after msgs u) v" "ls_Done (tu_state v)" by (simp_all add: quiet_iff)
      with adds_quiet [OF reached] show ?thesis by (simp add: run Inr mu Inl st)
    next
      case inner: (Inr v)
      from post_tool_policy_core(2) [OF inner] have v: "quiet (after msgs u) v" by (simp add: quiet_iff)
      note to_v = adds_quiet [OF reached v]
      obtain stop w where stop: "stop_with_message ''tool_loop_no_results'' no_results_message v = (stop, w)" by fastforce
      from stop_with_message_core [OF stop]
      have "stop = LeaveLoop" "quiet v w" "ls_Done (tu_state w)" by (simp_all add: quiet_iff)
      moreover have "quiet v (drain_notes env (drain_steer env v))" by (simp add: quiet_iff)
      ultimately show ?thesis using adds_quiet [OF to_v] stop by (simp add: run Inr mu inner)
    qed
  qed
  show "execute_calls env resp toolCalls t = Inl (stop, t') \<Longrightarrow>
      adds E t t' \<and> (stop = TurnPanics \<or> stop = LeaveLoop \<and> ls_Done (tu_state t'))"
    using shape by simp
  show "execute_calls env resp toolCalls t = Inr t' \<Longrightarrow> adds E t t'"
    using shape by simp
qed

section \<open>The gate and the guards\<close>

lemma reject_oversized_outcome:
  assumes "reject_oversized msg is arr len t = (r, t')"
  shows "core t' = core t \<and> tu_trace t' = tu_trace t \<and>
    (\<forall>calls u. r = Some (calls, u) \<longrightarrow> u = t' \<and> set calls \<subseteq> set arr)"
  using assms
proof (induction "is" arbitrary: arr len t)
  case Nil
  then show ?case by (auto dest: in_set_takeD)
next
  case (Cons i "is")
  define arr' where "arr' = take i arr @ drop (i + 1) (take len arr) @ drop (len - 1) arr"
  have smaller: "set arr' \<subseteq> set arr" by (auto simp: arr'_def dest: in_set_takeD in_set_dropD)
  show ?case
  proof (cases "oversized (arr ! i) \<and> i + 1 \<le> len")
    case True
    then have "reject_oversized msg is arr' (len - 1)
        (append_messages [msg, tool_message (tc_ID (arr ! i)) oversized_text] t) = (r, t')"
      using Cons.prems by (simp add: Let_def arr'_def)
    from Cons.IH [OF this] smaller show ?thesis by (simp add: subset_trans) blast
  next
    case False
    with Cons.prems Cons.IH [of arr len t] show ?thesis by (auto simp: Let_def split: if_splits)
  qed
qed

text \<open>Without an oversized argument the calls go on as they are.\<close>

lemma reject_oversized_none:
  "(\<And>tc. tc \<in> set arr \<Longrightarrow> \<not> oversized tc) \<Longrightarrow> \<forall>i \<in> set is. i < length arr \<Longrightarrow>
     reject_oversized msg is arr len t = (Some (take len arr, t), t)"
  by (induction "is") auto

lemma validate_sizes_none:
  "(\<And>tc. tc \<in> set calls \<Longrightarrow> \<not> oversized tc) \<Longrightarrow> validate_sizes resp calls t = Inr (calls, t)"
  by (simp add: validate_sizes_def reject_oversized_none)

lemma validate_sizes_outcome:
  "validate_sizes resp calls t = Inl (stop, t') \<Longrightarrow> stop = TurnPanics \<and> quiet t t'"
  "validate_sizes resp calls t = Inr (calls', t') \<Longrightarrow> set calls' \<subseteq> set calls \<and> quiet t t'"
  using reject_oversized_outcome
  by (fastforce simp: validate_sizes_def quiet_iff split: prod.splits option.splits)+

definition is_review :: "'p turn_env \<Rightarrow> tool_call list \<Rightarrow> 'p world_call list \<Rightarrow> bool \<Rightarrow> bool" where
  "is_review env calls tr approved \<longleftrightarrow>
     (case li_HITLConfig (te_input env) of
        None \<Rightarrow> tr = []
      | Some cfg \<Rightarrow>
          if \<not> li_ReviewChannels (te_input env) \<or> filter (needs_approval (te_path_match env) cfg) calls = [] then tr = []
          else \<exists>act. tr = [Reviewed (filter (needs_approval (te_path_match env) cfg) calls) act] \<and>
                     (approved \<longleftrightarrow> act \<noteq> ''deny''))"

lemma apply_decision_outcome:
  "apply_decision msg needs d t = Inl (stop, t') \<Longrightarrow>
     stop = NextIteration \<and> ad_Action d = ''deny'' \<and> core t' = core t \<and>
     tu_trace t' = tu_trace t @ [Reviewed needs (ad_Action d)]"
  "apply_decision msg needs d t = Inr t' \<Longrightarrow>
     ad_Action d \<noteq> ''deny'' \<and> core t' = core t \<and> tu_trace t' = tu_trace t @ [Reviewed needs (ad_Action d)]"
  by (auto simp: apply_decision_def Let_def split: if_splits)

lemma approval_gate_Inr:
  assumes "approval_gate env resp calls t = Inr t'"
  shows "core t' = core t \<and> (\<exists>tr. tu_trace t' = tu_trace t @ tr \<and> is_review env calls tr True)"
proof (cases "li_HITLConfig (te_input env)")
  case None
  with assms show ?thesis by (simp add: approval_gate_def is_review_def)
next
  case (Some cfg)
  show ?thesis
  proof (cases "\<not> li_ReviewChannels (te_input env) \<or> filter (needs_approval (te_path_match env) cfg) calls = []")
    case True
    with assms Some show ?thesis by (auto simp: approval_gate_def is_review_def Let_def)
  next
    case False
    then show ?thesis
      using assms Some
      by (auto simp: approval_gate_def is_review_def Let_def split: review_outcome.splits
          dest!: apply_decision_outcome(2))
  qed
qed

lemma approval_gate_Inl:
  assumes "approval_gate env resp calls t = Inl (stop, t')"
  shows "core t' = core t \<and> (\<exists>tr. tu_trace t' = tu_trace t @ tr \<and> (tr = [] \<or> is_review env calls tr False)) \<and>
    (stop = NextIteration \<or> (\<exists>e. stop = ReturnNow e) \<and> ls_Done (tu_state t'))"
proof (cases "li_HITLConfig (te_input env)")
  case None
  with assms show ?thesis by (simp add: approval_gate_def)
next
  case (Some cfg)
  show ?thesis
  proof (cases "\<not> li_ReviewChannels (te_input env) \<or> filter (needs_approval (te_path_match env) cfg) calls = []")
    case True
    with assms Some show ?thesis by (auto simp: approval_gate_def Let_def)
  next
    case False
    then show ?thesis
      using assms Some
      by (auto simp: approval_gate_def is_review_def Let_def split: review_outcome.splits
          dest!: apply_decision_outcome(1))
  qed
qed

text \<open>The guard against repetition as a step on the last signature and its count.\<close>

definition next_streak :: "string \<Rightarrow> string \<times> nat \<Rightarrow> string \<times> nat" where
  "next_streak sig st = (if sig = fst st then (sig, snd st + 1) else (sig, 1))"

lemma next_streak_simps:
  "fst (next_streak sig st) = sig" "snd (next_streak sig st) = (if sig = fst st then snd st + 1 else 1)"
  by (simp_all add: next_streak_def)

definition streak :: "'p turn \<Rightarrow> string \<times> nat" where
  "streak t = (tu_lastToolSignature t, tu_repeatedToolSignatureCount t)"

definition turn_account :: "'p turn \<Rightarrow> int \<times> int \<times> int \<times> usage_delta \<times> usage_delta" where
  "turn_account t = fst (core t)"

lemma note_signature_effect:
  assumes "calls \<noteq> []"
  shows "streak (note_signature (toolCallSignature calls) t) = next_streak (toolCallSignature calls) (streak t)"
    "tu_trace (note_signature sig t) = tu_trace t" "tu_state (note_signature sig t) = tu_state t"
    "turn_account (note_signature sig t) = turn_account t"
  using assms
  by (simp_all add: note_signature_def streak_def next_streak_def turn_account_def core_def core_of_def)

lemma stall_guard_Inr:
  assumes "calls \<noteq> []" "stall_guard calls t = Inr t'"
  shows "tu_trace t' = tu_trace t @ [Admitted calls]" "streak t' = next_streak (toolCallSignature calls) (streak t)"
    "snd (streak t') < maxRepeatedToolSignatures" "turn_account t' = turn_account t"
proof -
  define u where "u = note_signature (toolCallSignature calls) t"
  have t': "tu_repeatedToolSignatureCount u < maxRepeatedToolSignatures"
    "t' = record_call (Admitted calls)
      (upd_state (\<lambda>s. s\<lparr>ls_TotalToolCalls := ls_TotalToolCalls s + int (length calls)\<rparr>) u)"
    using assms(2) unfolding stall_guard_def Let_def u_def [symmetric] by (simp_all split: if_splits)
  from t'(2) have same: "streak t' = streak u" "turn_account t' = turn_account u" "tu_trace t' = tu_trace u @ [Admitted calls]"
    by (simp_all add: streak_def turn_account_def core_def core_of_def record_call_def)
  show "snd (streak t') < maxRepeatedToolSignatures" using t'(1) by (simp add: same) (simp add: streak_def)
  show "tu_trace t' = tu_trace t @ [Admitted calls]" "turn_account t' = turn_account t"
    "streak t' = next_streak (toolCallSignature calls) (streak t)"
    by (simp_all add: same u_def note_signature_effect [OF assms(1)])
qed

lemma stall_guard_Inl:
  assumes "calls \<noteq> []" "stall_guard calls t = Inl (stop, t')"
  shows "stop = LeaveLoop" "ls_Done (tu_state t')" "tu_trace t' = tu_trace t"
    "streak t' = next_streak (toolCallSignature calls) (streak t)"
    "snd (streak t') \<ge> maxRepeatedToolSignatures" "turn_account t' = turn_account t"
    "ls_FinishReason (tu_state t') = ''tool_loop_stalled''"
proof -
  define u where "u = note_signature (toolCallSignature calls) t"
  have stopped: "snd (streak u) \<ge> maxRepeatedToolSignatures"
    "stop_with_message ''tool_loop_stalled'' (stall_message (tu_repeatedToolSignatureCount u)) u = (stop, t')"
    using assms(2) unfolding stall_guard_def Let_def u_def [symmetric] streak_def by (simp_all split: if_splits)
  from stop_with_message_core [OF stopped(2)] have t': "core t' = core u" "tu_trace t' = tu_trace u"
    "stop = LeaveLoop" "ls_Done (tu_state t')" by blast+
  from t'(1) have same: "streak t' = streak u" "turn_account t' = turn_account u"
    using core_eq_fields [OF t'(1)] t'(1) by (simp_all add: streak_def turn_account_def)
  show "stop = LeaveLoop" "ls_Done (tu_state t')" by (fact t')+
  show "tu_trace t' = tu_trace t" "streak t' = next_streak (toolCallSignature calls) (streak t)" "turn_account t' = turn_account t"
    using t' same by (simp_all add: u_def note_signature_effect [OF assms(1)])
  show "snd (streak t') \<ge> maxRepeatedToolSignatures" using stopped(1) same by simp
  show "ls_FinishReason (tu_state t') = ''tool_loop_stalled''"
    using stopped(2) by (auto simp: stop_with_message_def append_message_def set_text_def finish_with_def)
qed

end
