(* ===== verification/AgentPass.thy ===== *)
theory AgentPass
  imports AgentRun
begin

text \<open>
  The shape of one pass through the loop, and the loop itself: \<open>run_loop\<close> repeats the pass while it ends
  in \<open>continue\<close>. Monitors on the record of the run state what its passes have in common.
\<close>

section \<open>Monitors\<close>

text \<open>
  The gate: between the acceptance of a response and the execution of a call that needs approval lies a
  review that covers the call and did not deny it. \<open>ok\<close> are the calls such a review covers.
\<close>

fun gate_ok :: "(tool_call \<Rightarrow> bool) \<Rightarrow> tool_call list \<Rightarrow> 'p world_call list \<Rightarrow> bool" where
  "gate_ok need ok [] \<longleftrightarrow> True"
| "gate_ok need ok (c # tr) \<longleftrightarrow>
     (case c of
        Accepted resp \<Rightarrow> gate_ok need [] tr
      | Reviewed calls act \<Rightarrow> gate_ok need (if act = ''deny'' then [] else calls) tr
      | ToolExecuted tc \<Rightarrow> (need tc \<longrightarrow> tc \<in> set ok) \<and> gate_ok need ok tr
      | _ \<Rightarrow> gate_ok need ok tr)"

fun gate_after :: "tool_call list \<Rightarrow> 'p world_call list \<Rightarrow> tool_call list" where
  "gate_after ok [] = ok"
| "gate_after ok (c # tr) =
     (case c of
        Accepted resp \<Rightarrow> gate_after [] tr
      | Reviewed calls act \<Rightarrow> gate_after (if act = ''deny'' then [] else calls) tr
      | _ \<Rightarrow> gate_after ok tr)"

lemma gate_ok_append: "gate_ok need ok (a @ b) \<longleftrightarrow> gate_ok need ok a \<and> gate_ok need (gate_after ok a) b"
  by (induction a arbitrary: ok) (auto split: world_call.splits)

text \<open>What the monitor says of a single execution.\<close>

definition reviewed_in :: "tool_call \<Rightarrow> 'p world_call list \<Rightarrow> bool" where
  "reviewed_in tc tr \<longleftrightarrow>
     (\<exists>pre calls act post. tr = pre @ Reviewed calls act # post \<and> tc \<in> set calls \<and> act \<noteq> ''deny'' \<and>
        (\<forall>resp. Accepted resp \<notin> set post))"

lemma reviewed_in_Cons: "reviewed_in tc tr \<Longrightarrow> reviewed_in tc (c # tr)"
  unfolding reviewed_in_def by (metis append_Cons)

lemma gate_after_review:
  "tc \<in> set (gate_after ok tr) \<Longrightarrow> tc \<in> set ok \<and> (\<forall>resp. Accepted resp \<notin> set tr) \<or> reviewed_in tc tr"
proof (induction tr arbitrary: ok)
  case (Cons c tr)
  show ?case
  proof (cases c)
    case (Accepted resp)
    with Cons have "reviewed_in tc tr" by fastforce
    then show ?thesis by (simp add: reviewed_in_Cons)
  next
    case (Reviewed calls act)
    with Cons.prems have "tc \<in> set (gate_after (if act = ''deny'' then [] else calls) tr)" by simp
    from Cons.IH [OF this] show ?thesis
    proof
      assume first: "tc \<in> set (if act = ''deny'' then [] else calls) \<and> (\<forall>resp. Accepted resp \<notin> set tr)"
      then have "act \<noteq> ''deny''" "tc \<in> set calls" by (auto split: if_splits)
      with first have "reviewed_in tc ([] @ Reviewed calls act # tr)" unfolding reviewed_in_def by blast
      then show ?thesis by (simp add: Reviewed)
    qed (simp add: reviewed_in_Cons)
  qed (use Cons in \<open>auto dest: reviewed_in_Cons\<close>)
qed simp

lemma gate_ok_execution:
  assumes "gate_ok need [] (pre @ ToolExecuted tc # post)" "need tc"
  shows "reviewed_in tc pre"
proof -
  from assms have "tc \<in> set (gate_after [] pre)" by (simp add: gate_ok_append)
  from gate_after_review [OF this] show ?thesis by simp
qed

text \<open>The repetition of tool calls, as the guard counts it.\<close>

fun streak_after :: "string \<times> nat \<Rightarrow> 'p world_call list \<Rightarrow> string \<times> nat" where
  "streak_after st [] = st"
| "streak_after st (c # tr) =
     (case c of Admitted calls \<Rightarrow> streak_after (next_streak (toolCallSignature calls) st) tr | _ \<Rightarrow> streak_after st tr)"

fun streak_ok :: "string \<times> nat \<Rightarrow> 'p world_call list \<Rightarrow> bool" where
  "streak_ok st [] \<longleftrightarrow> True"
| "streak_ok st (c # tr) \<longleftrightarrow>
     (case c of
        Admitted calls \<Rightarrow>
          snd (next_streak (toolCallSignature calls) st) < maxRepeatedToolSignatures \<and>
          streak_ok (next_streak (toolCallSignature calls) st) tr
      | _ \<Rightarrow> streak_ok st tr)"

lemma streak_append:
  "streak_after st (a @ b) = streak_after (streak_after st a) b"
  "streak_ok st (a @ b) \<longleftrightarrow> streak_ok st a \<and> streak_ok (streak_after st a) b"
  by (induction a arbitrary: st) (auto split: world_call.splits)

text \<open>Tokens: the session's use before each accepted response, and after all of them.\<close>

definition response_tokens :: "chat_completion \<Rightarrow> int" where
  "response_tokens resp = us_TotalTokens (cc_Usage resp)"

fun accepted_responses :: "'p world_call list \<Rightarrow> chat_completion list" where
  "accepted_responses [] = []"
| "accepted_responses (c # tr) = (case c of Accepted resp \<Rightarrow> resp # accepted_responses tr | _ \<Rightarrow> accepted_responses tr)"

lemma accepted_append [simp]: "accepted_responses (a @ b) = accepted_responses a @ accepted_responses b"
  by (induction a) (auto split: world_call.splits)

lemma Accepted_in_accepted: "Accepted resp \<in> set tr \<longleftrightarrow> resp \<in> set (accepted_responses tr)"
  by (induction tr) (auto split: world_call.splits)

definition accounted :: "chat_completion list \<Rightarrow> usage_delta \<Rightarrow> usage_delta" where
  "accounted resps = fold (\<lambda>resp. add_usage (cc_Usage resp)) resps"

lemma accounted_simps [simp]:
  "accounted [] d = d" "accounted (r # rs) d = accounted rs (add_usage (cc_Usage r) d)"
  "accounted (rs @ rs') d = accounted rs' (accounted rs d)"
  by (simp_all add: accounted_def)

lemma accounted_total:
  "ud_TotalTokens (accounted resps d) = ud_TotalTokens d + sum_list (map response_tokens resps)"
  by (induction resps arbitrary: d) (simp_all add: add_usage_def response_tokens_def)

text \<open>Every response was asked for while the session was below the budget.\<close>

definition budget_ok :: "int \<Rightarrow> int \<Rightarrow> chat_completion list \<Rightarrow> bool" where
  "budget_ok budget used resps \<longleftrightarrow>
     (\<forall>pre resp post. resps = pre @ resp # post \<longrightarrow> used + sum_list (map response_tokens pre) < budget)"

lemma budget_ok_Cons: "budget_ok b used (r # rs) \<longleftrightarrow> used < b \<and> budget_ok b (used + response_tokens r) rs"
proof
  assume whole: "budget_ok b used (r # rs)"
  have "used < b" using whole unfolding budget_ok_def by (elim allE [of _ "[]"]) simp
  moreover have "used + response_tokens r + sum_list (map response_tokens pre) < b" if "rs = pre @ resp # post"
    for pre resp post
    using whole that unfolding budget_ok_def by (elim allE [of _ "r # pre"]) (simp add: add.assoc)
  ultimately show "used < b \<and> budget_ok b (used + response_tokens r) rs" unfolding budget_ok_def by blast
next
  assume parts: "used < b \<and> budget_ok b (used + response_tokens r) rs"
  show "budget_ok b used (r # rs)"
    unfolding budget_ok_def
  proof (intro allI impI)
    fix pre resp post
    assume "r # rs = pre @ resp # post"
    with parts show "used + sum_list (map response_tokens pre) < b"
      by (cases pre) (auto simp: budget_ok_def add.assoc)
  qed
qed

lemma budget_ok_append:
  "budget_ok b used xs \<Longrightarrow> budget_ok b (used + sum_list (map response_tokens xs)) ys \<Longrightarrow> budget_ok b used (xs @ ys)"
  by (induction xs arbitrary: used) (auto simp: budget_ok_Cons add.assoc)

section \<open>A pass\<close>

definition below_limits :: "'p turn_env \<Rightarrow> 'p turn \<Rightarrow> bool" where
  "below_limits env t \<longleftrightarrow>
     ls_IterationCount (tu_state t) < lp_MaxIterations (te_config env) \<and>
     (lp_MaxToolCallsPerTurn (te_config env) > 0 \<longrightarrow>
        ls_TotalToolCalls (tu_state t) < lp_MaxToolCallsPerTurn (te_config env)) \<and>
     (lp_SessionTokenBudget (te_config env) > 0 \<longrightarrow>
        session_tokens (tu_state t) < lp_SessionTokenBudget (te_config env))"

text \<open>The account: iterations, turn number, tokens before the session, usage of the turn and of the session.\<close>

definition one_more :: "int \<times> 'a \<Rightarrow> int \<times> 'a" where
  "one_more a = (fst a + 1, snd a)"

lemma loop_guards_Inl:
  "loop_guards env t = Inl (stop, t') \<Longrightarrow>
     stop = LeaveLoop \<and> ls_Done (tu_state t') \<and> core t' = core t \<and> tu_trace t' = tu_trace t"
  by (auto simp: loop_guards_def Let_def terminate_turn_def observe_ctx_def split: if_splits)

lemma loop_guards_Inr:
  assumes "loop_guards env t = Inr t'"
  shows "below_limits env t" "tu_trace t' = tu_trace t" "streak t' = streak t" "turn_account t' = one_more (turn_account t)"
proof -
  have t': "t' = (upd_state (\<lambda>s. s\<lparr>ls_IterationCount := ls_IterationCount s + 1\<rparr>) (ask_world t))
      \<lparr>tu_partialStreamedText := []\<rparr>"
    and limits: "below_limits env t"
    using assms unfolding loop_guards_def Let_def observe_ctx_def below_limits_def prod.case
    by (simp_all add: not_le split: if_splits)
  show "below_limits env t" by (fact limits)
  show "tu_trace t' = tu_trace t" "streak t' = streak t" "turn_account t' = one_more (turn_account t)"
    by (simp_all add: t' streak_def turn_account_def one_more_def core_def core_of_def ask_world_def)
qed

lemma account_streak_core: "core u = core t \<Longrightarrow> turn_account u = turn_account t \<and> streak u = streak t"
  using core_eq_fields [of u t] by (simp add: turn_account_def streak_def)

lemma account_usage_effect:
  "turn_account (account_usage resp t) =
     (case turn_account t of (i, n, p, du, dc) \<Rightarrow> (i, n, p, add_usage (cc_Usage resp) du, add_usage (cc_Usage resp) dc))"
  "streak (account_usage resp t) = streak t"
  by (simp_all add: account_usage_def Let_def turn_account_def streak_def core_def core_of_def record_call_def emit_event_def)

text \<open>
  What follows the acceptance of a response: nothing, or its calls are admitted, perhaps reviewed, and
  perhaps executed.
\<close>

definition pass_rest :: "'p turn_env \<Rightarrow> chat_completion \<Rightarrow> 'p world_call list \<Rightarrow> bool" where
  "pass_rest env resp tr \<longleftrightarrow>
     tr = [] \<or>
     (\<exists>calls review run. tr = Admitted (ExtractToolCalls resp) # review @ run \<and>
        set calls \<subseteq> set (ExtractToolCalls resp) \<and>
        ((\<forall>tc \<in> set (ExtractToolCalls resp). \<not> oversized tc) \<longrightarrow> calls = ExtractToolCalls resp) \<and>
        (run = [] \<and> (review = [] \<or> is_review env calls review False) \<or>
         is_review env calls review True \<and> list_all (is_execution (set (ExtractToolCalls resp))) run))"

definition pass_end :: "'p turn_env \<Rightarrow> chat_completion \<Rightarrow> 'p turn \<Rightarrow> turn_stop \<Rightarrow> 'p turn \<Rightarrow> bool" where
  "pass_end env resp t stop t' \<longleftrightarrow>
     turn_account t' = turn_account t \<and>
     (\<exists>tr. tu_trace t' = tu_trace t @ tr \<and> pass_rest env resp tr \<and> streak_ok (streak t) tr \<and>
        (stop = NextIteration \<longrightarrow> streak t' = streak_after (streak t) tr)) \<and>
     (stop = NextIteration \<or> stop = TurnPanics \<or> ls_Done (tu_state t'))"

lemma pass_end_quiet:
  "core t' = core t \<Longrightarrow> tu_trace t' = tu_trace t \<Longrightarrow> stop = NextIteration \<or> ls_Done (tu_state t') \<Longrightarrow>
     pass_end env resp t stop t'"
  using account_streak_core [of t' t] by (auto simp: pass_end_def pass_rest_def intro!: exI [of _ "[]"])

lemma review_execution_streak:
  "is_review env calls review b \<Longrightarrow> list_all (is_execution S) run \<Longrightarrow>
     streak_after st (review @ run) = st \<and> streak_ok st (review @ run)"
proof -
  have run: "streak_after st run = st \<and> streak_ok st run" if "list_all (is_execution S) run" for run
    using that by (induction run) (auto simp: is_execution_def)
  assume "is_review env calls review b" "list_all (is_execution S) run"
  with run show ?thesis by (auto simp: is_review_def split: option.splits if_splits)
qed

lemma core_upd_state: "core (t\<lparr>tu_state := s\<rparr>) = core_of s (tu_lastToolSignature t) (tu_repeatedToolSignatureCount t)"
  by (simp add: core_def)

lemma final_answer_end: "final_answer env resp t = (stop, t') \<Longrightarrow> pass_end env resp t stop t'"
  by (rule pass_end_quiet)
     (auto simp: final_answer_def Let_def core_upd_state core_def [symmetric] split: list.splits if_splits)

lemma no_calls_extracted_end: "no_calls_extracted env resp t = (stop, t') \<Longrightarrow> pass_end env resp t stop t'"
  by (rule pass_end_quiet)
     (auto simp: no_calls_extracted_def Let_def core_upd_state core_def [symmetric] split: if_splits)

text \<open>Admitted calls: validation, gate and execution.\<close>

definition after_admission :: "'p turn_env \<Rightarrow> chat_completion \<Rightarrow> 'p turn \<Rightarrow> (turn_stop \<times> 'p turn) + 'p turn" where
  "after_admission env resp t =
     bind_result (validate_sizes resp (ExtractToolCalls resp) t) (\<lambda>(toolCalls, t).
       bind_result (approval_gate env resp toolCalls t) (execute_calls env resp toolCalls))"

definition admitted_rest :: "'p turn_env \<Rightarrow> chat_completion \<Rightarrow> 'p world_call list \<Rightarrow> bool" where
  "admitted_rest env resp tr \<longleftrightarrow>
     (\<exists>calls review run. tr = review @ run \<and> set calls \<subseteq> set (ExtractToolCalls resp) \<and>
        ((\<forall>tc \<in> set (ExtractToolCalls resp). \<not> oversized tc) \<longrightarrow> calls = ExtractToolCalls resp) \<and>
        (run = [] \<and> (review = [] \<or> is_review env calls review False) \<or>
         is_review env calls review True \<and> list_all (is_execution (set (ExtractToolCalls resp))) run))"

lemma pass_rest_admitted: "pass_rest env resp (Admitted (ExtractToolCalls resp) # tr) \<longleftrightarrow> admitted_rest env resp tr"
  by (auto simp: pass_rest_def admitted_rest_def)

lemma admitted_rest_streak:
  assumes "admitted_rest env resp tr"
  shows "streak_after st tr = st \<and> streak_ok st tr"
proof -
  obtain calls review run where tr: "tr = review @ run"
    and parts: "run = [] \<and> (review = [] \<or> is_review env calls review False) \<or>
       is_review env calls review True \<and> list_all (is_execution (set (ExtractToolCalls resp))) run"
    using assms unfolding admitted_rest_def by blast
  from parts show ?thesis
    using review_execution_streak [where run = run and st = st and review = review] unfolding tr by fastforce
qed

lemma after_admission_end:
  assumes "after_admission env resp t = r"
  defines "outcome \<equiv> \<lambda>stop t'. core t' = core t \<and> (\<exists>tr. tu_trace t' = tu_trace t @ tr \<and> admitted_rest env resp tr) \<and>
     (stop = NextIteration \<or> stop = TurnPanics \<or> ls_Done (tu_state t'))"
  shows "case r of Inl (stop, t') \<Rightarrow> outcome stop t' | Inr t' \<Rightarrow> outcome NextIteration t'"
proof (cases "validate_sizes resp (ExtractToolCalls resp) t")
  case (Inl st)
  obtain stop u where st: "st = (stop, u)" by fastforce
  with validate_sizes_outcome(1) Inl have "stop = TurnPanics" "quiet t u" by blast+
  then show ?thesis using Inl st assms(1)
    by (auto simp: after_admission_def outcome_def quiet_iff admitted_rest_def)
next
  case (Inr cu)
  obtain calls u where cu: "cu = (calls, u)" by fastforce
  with validate_sizes_outcome(2) Inr have calls: "set calls \<subseteq> set (ExtractToolCalls resp)" and u: "quiet t u" by blast+
  have all: "(\<forall>tc \<in> set (ExtractToolCalls resp). \<not> oversized tc) \<longrightarrow> calls = ExtractToolCalls resp"
    using validate_sizes_none [of "ExtractToolCalls resp" resp t] Inr cu by auto
  show ?thesis
  proof (cases "approval_gate env resp calls u")
    case (Inl st)
    obtain stop v where st: "st = (stop, v)" by fastforce
    from approval_gate_Inl [OF Inl [unfolded st]] obtain rv where v: "core v = core u" "tu_trace v = tu_trace u @ rv"
      "rv = [] \<or> is_review env calls rv False" "stop = NextIteration \<or> (\<exists>e. stop = ReturnNow e) \<and> ls_Done (tu_state v)"
      by blast
    have "admitted_rest env resp rv" using v(3) calls all unfolding admitted_rest_def by blast
    moreover have "r = Inl (stop, v)" using Inr cu Inl st assms(1) by (simp add: after_admission_def)
    ultimately show ?thesis using u v by (auto simp: outcome_def quiet_iff)
  next
    case gate: (Inr v)
    from approval_gate_Inr [OF gate] obtain rv where v: "core v = core u" "tu_trace v = tu_trace u @ rv"
      "is_review env calls rv True" by blast
    have rest: "\<exists>tr. tu_trace w = tu_trace t @ tr \<and> admitted_rest env resp tr"
      if "adds (is_execution (set (ExtractToolCalls resp))) v w" for w
    proof -
      from that obtain run where "tu_trace w = tu_trace v @ run"
        "list_all (is_execution (set (ExtractToolCalls resp))) run"
        by (auto simp: adds_def)
      moreover from this(2) have "admitted_rest env resp (rv @ run)"
        using v(3) calls all unfolding admitted_rest_def by blast
      ultimately show ?thesis using v(2) u by (simp add: quiet_iff)
    qed
    show ?thesis
    proof (cases "execute_calls env resp calls v")
      case (Inl st)
      obtain stop w where st: "st = (stop, w)" by fastforce
      have r: "r = Inl (stop, w)" using Inr cu gate Inl st assms(1) by (simp add: after_admission_def)
      from execute_calls_outcome(1) [OF calls Inl [unfolded st]] rest [of w] v u
      show ?thesis by (auto simp: r outcome_def quiet_iff adds_def)
    next
      case run: (Inr w)
      have r: "r = Inr w" using Inr cu gate run assms(1) by (simp add: after_admission_def)
      from execute_calls_outcome(2) [OF calls run] rest [of w] v u
      show ?thesis by (auto simp: r outcome_def quiet_iff adds_def)
    qed
  qed
qed

lemma handle_calls_end:
  "case handle_calls env resp t of Inl (stop, t') \<Rightarrow> pass_end env resp t stop t' | Inr t' \<Rightarrow> pass_end env resp t NextIteration t'"
proof (cases "ExtractToolCalls resp = []")
  case True
  then show ?thesis
    using no_calls_extracted_end by (cases "no_calls_extracted env resp t") (auto simp: handle_calls_def)
next
  case False
  then have unfolded: "handle_calls env resp t =
      bind_result (stall_guard (ExtractToolCalls resp) t) (after_admission env resp)"
    by (simp add: handle_calls_def Let_def after_admission_def [abs_def])
  show ?thesis
  proof (cases "stall_guard (ExtractToolCalls resp) t")
    case (Inl st)
    obtain stop u where st: "st = (stop, u)" by fastforce
    note s = stall_guard_Inl [OF False Inl [unfolded st]]
    show ?thesis using s by (simp add: unfolded Inl st pass_end_def pass_rest_def)
  next
    case (Inr u)
    note s = stall_guard_Inr [OF False Inr]
    have finish: "pass_end env resp t stop t'"
      if "core t' = core u" "tu_trace t' = tu_trace u @ tr" "admitted_rest env resp tr"
        "stop = NextIteration \<or> stop = TurnPanics \<or> ls_Done (tu_state t')" for stop t' tr
      using that s account_streak_core [OF that(1)] admitted_rest_streak [OF that(3)]
      unfolding pass_end_def
      by (intro conjI exI [of _ "Admitted (ExtractToolCalls resp) # tr"]) (auto simp: pass_rest_admitted)
    show ?thesis
      using after_admission_end [of env resp u, OF refl] finish
      by (auto simp: unfolded Inr split: sum.splits)
  qed
qed

lemma handle_response_end:
  "case handle_response env (resp, t) of
     Inl (stop, t') \<Rightarrow> pass_end env resp t stop t' | Inr t' \<Rightarrow> pass_end env resp t NextIteration t'"
proof (cases "length_retry resp t")
  case (Inl st)
  obtain stop u where st: "st = (stop, u)" by fastforce
  with Inl have "stop = NextIteration" "core u = core t" "tu_trace u = tu_trace t"
    by (auto simp: length_retry_def Let_def split: if_splits)
  with Inl st show ?thesis by (simp add: handle_response_def pass_end_quiet)
next
  case (Inr u)
  then have u: "core u = core t" "tu_trace u = tu_trace t"
    by (auto simp: length_retry_def Let_def split: if_splits)
  from account_streak_core [OF u(1)] u(2)
  have same: "pass_end env resp u = pass_end env resp t" by (simp add: pass_end_def fun_eq_iff)
  show ?thesis
  proof (cases "shouldLoop env resp")
    case True
    with Inr handle_calls_end [of env resp u] show ?thesis
      by (simp add: handle_response_def same split: sum.splits prod.splits)
  next
    case False
    with Inr final_answer_end [of env resp u] show ?thesis
      by (cases "final_answer env resp u") (simp add: handle_response_def same)
  qed
qed

text \<open>The three courses of a pass.\<close>

lemma iteration_cases:
  assumes "iteration env t = (stop, t')"
  obtains
    (guarded) "stop = LeaveLoop" "ls_Done (tu_state t')" "core t' = core t" "tu_trace t' = tu_trace t"
  | (failed) ms e where "below_limits env t" "stop = ReturnNow e" "ls_Done (tu_state t')"
      "tu_trace t' = tu_trace t @ ms" "list_all is_model_call ms" "length ms \<le> turn_calls env"
      "turn_account t' = one_more (turn_account t)"
  | (answered) ms resp rest where "below_limits env t"
      "tu_trace t' = tu_trace t @ ms @ Accepted resp # rest" "list_all is_model_call ms" "length ms \<le> turn_calls env"
      "pass_rest env resp rest" "streak_ok (streak t) rest" "stop = NextIteration \<longrightarrow> streak t' = streak_after (streak t) rest"
      "turn_account t' = (case one_more (turn_account t) of (i, n, p, du, dc) \<Rightarrow>
         (i, n, p, add_usage (cc_Usage resp) du, add_usage (cc_Usage resp) dc))"
      "stop = NextIteration \<or> stop = TurnPanics \<or> ls_Done (tu_state t')"
proof (cases "loop_guards env t")
  case (Inl st)
  then have "loop_guards env t = Inl (stop, t')" using assms by (cases st) (simp add: iteration_def)
  with loop_guards_Inl guarded show ?thesis by blast
next
  case (Inr u)
  note g = loop_guards_Inr [OF Inr]
  obtain req v where prep: "prepare_request env u = (req, v)" by fastforce
  note p = prepare_request_core [OF prep]
  have v: "turn_account v = one_more (turn_account t)" "streak v = streak t" "tu_trace v = tu_trace t"
    using g p account_streak_core [of v u] by auto
  show ?thesis
  proof (cases "call_model env req v")
    case model: (Inl st)
    then have "call_model env req v = Inl (stop, t')" using assms Inr prep by (cases st) (simp add: iteration_def)
    from call_model_Inl [OF this] obtain ms e where "core t' = core v" "tu_trace t' = tu_trace v @ ms"
      "list_all is_model_call ms" "length ms \<le> turn_calls env" "ls_Done (tu_state t')" "stop = ReturnNow e"
      by (auto simp: calls_model_def)
    with failed g(1) v account_streak_core [of t' v] show ?thesis by simp
  next
    case model: (Inr rw)
    obtain resp w where rw: "rw = (resp, w)" by fastforce
    from call_model_Inr [OF model [unfolded rw]] obtain x where
      x: "calls_model (turn_calls env) v x" "w = account_usage resp x" by blast
    from x(1) obtain ms where ms: "core x = core v" "tu_trace x = tu_trace v @ ms" "list_all is_model_call ms"
      "length ms \<le> turn_calls env" by (auto simp: calls_model_def)
    have end_: "pass_end env resp w stop t'"
      using handle_response_end [of env resp w] assms Inr prep model rw
      by (auto simp: iteration_def split: sum.splits)
    then obtain rest where rest: "tu_trace t' = tu_trace w @ rest" "pass_rest env resp rest" "streak_ok (streak w) rest"
      "stop = NextIteration \<longrightarrow> streak t' = streak_after (streak w) rest" "turn_account t' = turn_account w"
      "stop = NextIteration \<or> stop = TurnPanics \<or> ls_Done (tu_state t')"
      by (auto simp: pass_end_def)
    have w: "streak w = streak t" "turn_account w = (case one_more (turn_account t) of (i, n, p, du, dc) \<Rightarrow>
         (i, n, p, add_usage (cc_Usage resp) du, add_usage (cc_Usage resp) dc))"
      "tu_trace w = tu_trace t @ ms @ [Accepted resp]"
      using account_usage_effect [of resp x] account_streak_core [OF ms(1)] v ms(2) by (simp_all add: x(2))
    show ?thesis using answered [OF g(1) _ ms(3,4) rest(2)] rest w by simp
  qed
qed

section \<open>The loop\<close>

lemma iteration_next:
  assumes "iteration env t = (NextIteration, t')"
  shows "ls_IterationCount (tu_state t) < lp_MaxIterations (te_config env)"
    "ls_IterationCount (tu_state t') = ls_IterationCount (tu_state t) + 1"
  using assms
  by (cases rule: iteration_cases; simp add: below_limits_def turn_account_def core_def core_of_def one_more_def)+

function run_loop :: "'p turn_env \<Rightarrow> 'p turn \<Rightarrow> turn_stop \<times> 'p turn" where
  "run_loop env t =
     (case iteration env t of
        (stop, t') \<Rightarrow> if stop = NextIteration then run_loop env t' else (stop, t'))"
  by pat_completeness auto

termination
proof (relation "measure (\<lambda>(env, t). nat (lp_MaxIterations (te_config env) - ls_IterationCount (tu_state t)))", goal_cases)
  case 2
  then show ?case by (auto dest!: sym [of "(_, _)"] dest: iteration_next)
qed simp

declare run_loop.simps [simp del]

end
