(* ===== verification/AgentTurn.thy ===== *)
theory AgentTurn
  imports AgentPass
begin

text \<open>
  The whole of \<open>Loop.Run\<close>: resolving the model, the tool definitions, the system prompt and the user's
  message before the loop, the announcements and the policy check after it; and what holds of every turn.
\<close>

section \<open>Before the loop\<close>

definition tool_definition_of :: "tool_loop \<Rightarrow> function_row \<Rightarrow> tool_definition" where
  "tool_definition_of tm fn =
     \<lparr>tdef_Type = ''function'', tdef_Name = fn_Name fn,
      tdef_Description = (case fn_Description fn of None \<Rightarrow> [] | Some s \<Rightarrow> s),
      tdef_Parameters = (if fn_Parameters fn = [] then []
        else case tl_json_unmarshal tm (fn_Parameters fn) of None \<Rightarrow> [] | Some m \<Rightarrow> m)\<rparr>"

definition BuildToolDefinitions :: "tool_loop \<Rightarrow> string \<Rightarrow> string list \<Rightarrow> tool_definition list" where
  "BuildToolDefinitions tm tenantID names =
     (if \<not> IsEnabled tm then []
      else List.map_filter
             (\<lambda>name. map_option (tool_definition_of tm) (GetFunctionByName (tl_functions tm 0) name tenantID)) names)"

definition turn_tool_definitions :: "tool_loop option \<Rightarrow> loop_input \<Rightarrow> tool_definition list" where
  "turn_tool_definitions tlo input =
     (let toolDefs = (case li_Interceptor input of
            None \<Rightarrow> []
          | Some ic \<Rightarrow>
              (case ic_BuildToolDefinitions ic of
                 None \<Rightarrow> []
               | Some build \<Rightarrow> (case build (li_Tools input) of Inl _ \<Rightarrow> [] | Inr defs \<Rightarrow> defs)))
      in case tlo of
           None \<Rightarrow> toolDefs
         | Some tm \<Rightarrow>
             if toolDefs = [] \<and> IsEnabled tm \<and> li_Tools input \<noteq> []
             then BuildToolDefinitions tm (li_TenantID input) (li_Tools input) else toolDefs)"

definition skill_line :: "string \<times> string \<Rightarrow> string" where
  "skill_line s = ''- '' @ fst s @ '': '' @ (if snd s = [] then fst s else snd s) @ line_feed"

definition backquoted :: "string \<Rightarrow> string" where
  "backquoted s = CHR 0x60 # s @ [CHR 0x60]"

definition skills_manifest :: "(string \<times> string) list \<Rightarrow> string" where
  "skills_manifest skills =
     ''## Available Skills'' @ line_feed @ ''When a request matches one of these skills, call '' @ backquoted ''use_skill'' @
     '' to load its full instructions before proceeding.'' @ line_feed @ concat (map skill_line skills) @
     ''Use '' @ backquoted ''use_skill'' @ '' instead of reading skill files directly with other tools.''"

text \<open>The digest, the manifest and the memory that go into the system prompt, and the prompt itself.\<close>

definition prompt_parts :: "loop_input \<Rightarrow> string \<times> string \<times> string" where
  "prompt_parts input =
     (if li_DigestBulletin input \<noteq> [] then ''## Agent Knowledge Bulletin'' @ line_feed @ li_DigestBulletin input else [],
      if li_Skills input \<noteq> [] then skills_manifest (li_Skills input) else [],
      case li_Memory input of Some (Inr block) \<Rightarrow> block | _ \<Rightarrow> [])"

definition system_prompt :: "loop_input \<Rightarrow> string" where
  "system_prompt input =
     (let (digestPrompt, skillsManifest, memoryBlock) = prompt_parts input in
      li_SystemPrompt input @
      (if li_DigestBulletin input \<noteq> [] then line_feed @ line_feed @ digestPrompt else []) @
      (if li_Skills input \<noteq> [] then line_feed @ line_feed @ skillsManifest else []) @
      (if memoryBlock \<noteq> [] then line_feed @ memoryBlock else []))"

definition focus_hint :: string where
  "focus_hint = ''Treat the most recent user message as the active objective. Do not continue unrelated earlier requests unless the user explicitly asks you to return to them. If you already completed the latest request, report that result clearly instead of summarizing older unfinished tasks.''"

definition prompts_now :: "loop_input \<Rightarrow> loop_state \<Rightarrow> bool" where
  "prompts_now input s \<longleftrightarrow> li_SystemPrompt input \<noteq> [] \<and> ls_Messages s = []"

definition begin_turn :: "loop_input \<Rightarrow> loop_state \<Rightarrow> loop_state" where
  "begin_turn input s =
     (let msgs = (if prompts_now input s then [text_message RoleSystem (system_prompt input)] else ls_Messages s);
          msgs = (if li_UserInput input = [] then msgs
                  else msgs @ (if hasPriorUserTurn msgs then [text_message RoleSystem focus_hint] else []) @
                       [text_message RoleUser (li_UserInput input)])
      in s\<lparr>ls_Messages := msgs, ls_TurnNumber := ls_TurnNumber s + 1, ls_IterationCount := 0, ls_ToolResults := Map.empty,
           ls_TurnUsage := no_delta, ls_TurnStartIndex := length msgs\<rparr>)"

definition start_of_turn :: "'p \<Rightarrow> loop_state \<Rightarrow> 'p turn" where
  "start_of_turn p s = \<lparr>tu_state = s, tu_events = [], tu_trace = [], tu_tick = 1, tu_provider = p,
     tu_lastToolSignature = [], tu_repeatedToolSignatureCount = 0, tu_forceRetryAfterToolFailure = False,
     tu_pendingExposedURLs = {}, tu_urlAnnouncementAttempted = False, tu_toolCalls = 0, tu_sandboxToolCalls = 0,
     tu_toolErrors = 0, tu_emptyResponseRetries = 0, tu_askUserBackstopRetries = 0,
     tu_awaitingPostAskUserAction = False, tu_askUserContinuationRetries = 0, tu_lengthRetries = 0,
     tu_partialStreamedText = []\<rparr>"

definition pre_turn_policy :: "'p turn_env \<Rightarrow> 'p turn \<Rightarrow> (turn_stop \<times> 'p turn) + 'p turn" where
  "pre_turn_policy env t0 =
     (let (p, blocked) = pre_turn_check (te_text env) (li_PolicyEvaluator (te_input env)) (policy_view t0);
          t = policy_back p t0
      in if blocked then Inl (ReturnNow None, t) else Inr t)"

section \<open>After the loop\<close>

definition announce_urls :: "'p turn \<Rightarrow> 'p turn" where
  "announce_urls t =
     (let urls = sortedURLs (tu_pendingExposedURLs t); answer = ls_LastAssistantText (tu_state t) in
      if tu_pendingExposedURLs t = {} \<or> messageMentionsAnyURL answer urls then t
      else
        let fallback = ''Available service URL(s):'' @ line_feed @ go_join line_feed urls
        in append_message (text_message RoleAssistant fallback)
             (set_text (TrimSpace (TrimSpace answer @ line_feed @ line_feed @ fallback)) t))"

definition post_turn_policy :: "'p turn_env \<Rightarrow> 'p turn \<Rightarrow> 'p turn" where
  "post_turn_policy env t =
     policy_back (post_turn_check (te_text env) (li_PolicyEvaluator (te_input env)) (tu_sandboxToolCalls t)
       (tu_toolErrors t) (policy_view t)) t"

definition end_turn :: "'p turn_env \<Rightarrow> 'p turn \<Rightarrow> 'p turn" where
  "end_turn env t0 =
     (let t = post_turn_policy env (announce_urls t0); s = tu_state t
      in emit_event (EvTurnEnd (ls_FinishReason s) (ls_TurnUsage s) (ls_IterationCount s) (ls_TotalToolCalls s)) t)"

section \<open>Run\<close>

record 'p run_result =
  rr_state :: loop_state
  rr_events :: "agent_event list"
  rr_trace :: "'p world_call list"
  rr_error :: "gateway_error option"
  rr_panicked :: bool

definition turn_env_of ::
    "loop_config \<Rightarrow> tool_loop option \<Rightarrow> text_ops \<Rightarrow> (string \<Rightarrow> string \<Rightarrow> bool) \<Rightarrow> 'p agent_world \<Rightarrow> loop_input \<Rightarrow>
       loop_state \<Rightarrow> string \<Rightarrow> 'p turn_env" where
  "turn_env_of cfg tlo ops path_match w input s resolved =
     \<lparr>te_config = cfg, te_input = input, te_world = w, te_toolLoop = tlo,
      te_toolDefs = turn_tool_definitions tlo input,
      te_resolvedModel = (if resolved = [] then li_Model input else resolved), te_text = ops,
      te_path_match = path_match, te_prompts = (if prompts_now input s then prompt_parts input else ([], [], []))\<rparr>"

definition run_turn :: "'p turn_env \<Rightarrow> 'p turn \<Rightarrow> turn_stop \<times> 'p turn" where
  "run_turn env t0 =
     (let t = emit_event (EvTurnStart (ls_TurnNumber (tu_state t0)) (li_UserInput (te_input env))) t0 in
      case pre_turn_policy env t of
        Inl st \<Rightarrow> st
      | Inr t \<Rightarrow>
          (case run_loop env t of
             (LeaveLoop, t) \<Rightarrow> (ReturnNow None, end_turn env t)
           | st \<Rightarrow> st))"

definition Run ::
    "loop_config \<Rightarrow> tool_loop option \<Rightarrow> text_ops \<Rightarrow> (string \<Rightarrow> string \<Rightarrow> bool) \<Rightarrow> 'p agent_world \<Rightarrow> loop_input \<Rightarrow>
       loop_state \<Rightarrow> 'p run_result" where
  "Run cfg tlo ops path_match w input s =
     (case aw_resolve w 0 (li_Model input) of
        Inl err \<Rightarrow>
          \<lparr>rr_state = s, rr_events = [EvSessionError (ge_msg err)], rr_trace = [], rr_error = Some err, rr_panicked = False\<rparr>
      | Inr (p, resolved) \<Rightarrow>
          let env = turn_env_of cfg tlo ops path_match w input s resolved;
              (stop, t) = run_turn env (start_of_turn p (begin_turn input s))
          in \<lparr>rr_state = tu_state t, rr_events = tu_events t, rr_trace = tu_trace t,
              rr_error = (case stop of ReturnNow e \<Rightarrow> e | _ \<Rightarrow> None), rr_panicked = (stop = TurnPanics)\<rparr>)"

section \<open>What holds of the loop\<close>

definition model_calls :: "'p world_call list \<Rightarrow> nat" where
  "model_calls tr = length (filter is_model_call tr)"

lemma model_calls_append [simp]: "model_calls (a @ b) = model_calls a + model_calls b"
  by (simp add: model_calls_def)

lemma model_calls_only:
  "list_all is_model_call ms \<Longrightarrow> model_calls ms = length ms \<and> accepted_responses ms = [] \<and> streak_after st ms = st \<and>
     streak_ok st ms \<and> gate_ok need ok ms \<and> gate_after ok ms = ok"
  by (induction ms) (auto simp: model_calls_def is_model_call_def)

lemma execution_only:
  "list_all (is_execution S) run \<Longrightarrow> model_calls run = 0 \<and> accepted_responses run = []"
  by (induction run) (auto simp: model_calls_def is_execution_def is_model_call_def)

lemma review_only:
  "is_review env calls rv b \<Longrightarrow> model_calls rv = 0 \<and> accepted_responses rv = []"
  by (auto simp: is_review_def model_calls_def is_model_call_def split: option.splits if_splits)

lemma model_calls_simps [simp]:
  "model_calls [] = 0" "model_calls (Admitted calls # tr) = model_calls tr"
  "model_calls (Accepted resp # tr) = model_calls tr"
  by (simp_all add: model_calls_def is_model_call_def)

lemma pass_rest_quiet: "pass_rest env resp tr \<Longrightarrow> model_calls tr = 0 \<and> accepted_responses tr = []"
  unfolding pass_rest_def by (elim disjE exE conjE) (simp_all add: review_only execution_only)

lemma gate_ok_executions:
  "(\<forall>tc \<in> S. need tc \<longrightarrow> tc \<in> set ok) \<Longrightarrow> list_all (is_execution S) run \<Longrightarrow> gate_ok need ok run"
  by (induction run) (auto simp: is_execution_def)

lemma pass_rest_gate:
  assumes "pass_rest env resp tr" "\<forall>tc \<in> set (ExtractToolCalls resp). \<not> oversized tc"
    and "li_HITLConfig (te_input env) = Some cfg" "li_ReviewChannels (te_input env)"
  shows "gate_ok (needs_approval (te_path_match env) cfg) [] tr"
proof -
  let ?need = "needs_approval (te_path_match env) cfg"
  let ?calls = "ExtractToolCalls resp"
  have denied: "gate_ok ?need [] rv" if "is_review env ?calls rv False" for rv
    using that assms(3,4) by (auto simp: is_review_def split: if_splits)
  have approved: "gate_ok ?need [] (rv @ run)"
    if rv: "is_review env ?calls rv True" and run: "list_all (is_execution (set ?calls)) run" for rv run
  proof (cases "filter ?need ?calls = []")
    case True
    then have "rv = []" using rv assms(3,4) by (simp add: is_review_def)
    moreover have "\<forall>tc \<in> set ?calls. \<not> ?need tc" using True by (simp add: filter_empty_conv)
    ultimately show ?thesis using run by (auto intro: gate_ok_executions)
  next
    case False
    then obtain act where "rv = [Reviewed (filter ?need ?calls) act]" "act \<noteq> ''deny''"
      using rv assms(3,4) by (auto simp: is_review_def)
    moreover have "gate_ok ?need (filter ?need ?calls) run" using run by (intro gate_ok_executions) auto
    ultimately show ?thesis by simp
  qed
  show ?thesis
    using assms(1,2) denied approved by (auto simp: pass_rest_def)
qed

text \<open>The facts of a stretch of the run from \<open>t\<close> to \<open>t'\<close> that recorded \<open>tr\<close>.\<close>

definition stretch :: "'p turn_env \<Rightarrow> 'p turn \<Rightarrow> 'p world_call list \<Rightarrow> 'p turn \<Rightarrow> bool" where
  "stretch env t tr t' \<longleftrightarrow>
     (case (turn_account t, turn_account t') of
        ((i, n, p, du, dc), (i', n', p', du', dc')) \<Rightarrow>
          i \<le> i' \<and> i' \<le> max i (lp_MaxIterations (te_config env)) \<and> n' = n \<and> p' = p \<and>
          du' = accounted (accepted_responses tr) du \<and> dc' = accounted (accepted_responses tr) dc \<and>
          int (model_calls tr) \<le> (i' - i) * int (turn_calls env) \<and>
          int (length (accepted_responses tr)) \<le> i' - i \<and>
          (lp_SessionTokenBudget (te_config env) > 0 \<longrightarrow>
             budget_ok (lp_SessionTokenBudget (te_config env)) (p + ud_TotalTokens dc) (accepted_responses tr)))"

definition stretch_gate :: "'p turn_env \<Rightarrow> 'p world_call list \<Rightarrow> bool" where
  "stretch_gate env tr \<longleftrightarrow>
     (\<forall>cfg ok. li_HITLConfig (te_input env) = Some cfg \<and> li_ReviewChannels (te_input env) \<and>
        (\<forall>resp \<in> set (accepted_responses tr). \<forall>tc \<in> set (ExtractToolCalls resp). \<not> oversized tc) \<longrightarrow>
        gate_ok (needs_approval (te_path_match env) cfg) ok tr)"

lemma account_fields:
  "turn_account t = (ls_IterationCount (tu_state t), ls_TurnNumber (tu_state t), ls_PriorSessionTokens (tu_state t),
     ls_TurnUsage (tu_state t), ls_CumulativeUsage (tu_state t))"
  by (simp add: turn_account_def core_def core_of_def)

lemma stretch_refl: "turn_account t' = turn_account t \<Longrightarrow> stretch env t [] t'"
  by (auto simp: stretch_def model_calls_def budget_ok_def split: prod.splits)

lemma stretch_failed:
  assumes "below_limits env t" "list_all is_model_call ms" "length ms \<le> turn_calls env" "turn_account t' = one_more (turn_account t)"
  shows "stretch env t ms t'"
  using assms model_calls_only [OF assms(2)]
  by (auto simp: stretch_def below_limits_def account_fields one_more_def budget_ok_def split: prod.splits)

lemma stretch_answered:
  assumes "below_limits env t" "list_all is_model_call ms" "length ms \<le> turn_calls env" "pass_rest env resp rest"
    "turn_account t' = (case one_more (turn_account t) of (i, n, p, du, dc) \<Rightarrow>
         (i, n, p, add_usage (cc_Usage resp) du, add_usage (cc_Usage resp) dc))"
  shows "stretch env t (ms @ Accepted resp # rest) t'"
proof -
  have "model_calls (Accepted resp # rest) = model_calls rest"
    by (simp add: model_calls_def is_model_call_def)
  then have "model_calls (ms @ Accepted resp # rest) \<le> turn_calls env" "accepted_responses (ms @ Accepted resp # rest) = [resp]"
    using model_calls_only [OF assms(2)] pass_rest_quiet [OF assms(4)] assms(3) by simp_all
  with assms(1,5) show ?thesis
    by (auto simp: stretch_def below_limits_def account_fields one_more_def session_tokens_def budget_ok_Cons
        split: prod.splits) (auto simp: budget_ok_def)
qed

lemma stretch_trans:
  assumes "stretch env t a u" "stretch env u b v" "ls_IterationCount (tu_state t) \<le> lp_MaxIterations (te_config env)"
  shows "stretch env t (a @ b) v"
  using assms
  by (auto simp: stretch_def account_fields accounted_total algebra_simps intro!: budget_ok_append split: prod.splits)

lemma stretch_gate_append:
  assumes "stretch_gate env a" "stretch_gate env b"
  shows "stretch_gate env (a @ b)"
  unfolding stretch_gate_def
proof (intro allI impI)
  fix cfg ok
  assume "li_HITLConfig (te_input env) = Some cfg \<and> li_ReviewChannels (te_input env) \<and>
    (\<forall>resp \<in> set (accepted_responses (a @ b)). \<forall>tc \<in> set (ExtractToolCalls resp). \<not> oversized tc)"
  then have "gate_ok (needs_approval (te_path_match env) cfg) ok' a"
    "gate_ok (needs_approval (te_path_match env) cfg) ok' b" for ok'
    using assms unfolding stretch_gate_def by (simp_all add: ball_Un)
  then show "gate_ok (needs_approval (te_path_match env) cfg) ok (a @ b)" by (simp add: gate_ok_append)
qed

lemma stretch_gate_answered:
  assumes "list_all is_model_call ms" "pass_rest env resp rest"
  shows "stretch_gate env (ms @ Accepted resp # rest)"
  using pass_rest_gate [OF assms(2)] model_calls_only [OF assms(1)] pass_rest_quiet [OF assms(2)]
  by (simp add: stretch_gate_def gate_ok_append)

text \<open>Every run of the loop is such a stretch, and it stops with the turn marked as done, or with a panic.\<close>

definition loop_course :: "'p turn_env \<Rightarrow> 'p turn \<Rightarrow> turn_stop \<Rightarrow> 'p turn \<Rightarrow> bool" where
  "loop_course env t stop t' \<longleftrightarrow>
     (\<exists>tr. tu_trace t' = tu_trace t @ tr \<and> stretch env t tr t' \<and> stretch_gate env tr \<and> streak_ok (streak t) tr) \<and>
     stop \<noteq> NextIteration \<and> (stop = TurnPanics \<or> ls_Done (tu_state t'))"

lemma iteration_course:
  assumes "iteration env t = (stop, t')"
  obtains tr where "tu_trace t' = tu_trace t @ tr" "stretch env t tr t'" "stretch_gate env tr" "streak_ok (streak t) tr"
    "stop = NextIteration \<Longrightarrow> streak t' = streak_after (streak t) tr"
    "stop \<noteq> NextIteration \<Longrightarrow> stop = TurnPanics \<or> ls_Done (tu_state t')"
  using assms
proof (cases rule: iteration_cases)
  case guarded
  then show thesis
    using that [of "[]"] account_streak_core [of t' t] by (simp add: stretch_refl stretch_gate_def)
next
  case (failed ms e)
  then show thesis
    using that [OF failed(4) stretch_failed] model_calls_only [OF failed(5)] by (simp add: stretch_gate_def)
next
  case (answered ms resp rest)
  show thesis
    using that [OF answered(2) stretch_answered [OF answered(1,3,4,5,8)] stretch_gate_answered [OF answered(3,5)]]
      answered(6,7,9) model_calls_only [OF answered(3)]
    by (auto simp: streak_append)
qed

lemma run_loop_course: "run_loop env t = (stop, t') \<Longrightarrow> loop_course env t stop t'"
proof (induction env t arbitrary: stop t' rule: run_loop.induct)
  case (1 env t)
  obtain s u where it: "iteration env t = (s, u)" by fastforce
  from iteration_course [OF it] obtain tr where tr: "tu_trace u = tu_trace t @ tr" "stretch env t tr u"
    "stretch_gate env tr" "streak_ok (streak t) tr" "s = NextIteration \<Longrightarrow> streak u = streak_after (streak t) tr"
    "s \<noteq> NextIteration \<Longrightarrow> s = TurnPanics \<or> ls_Done (tu_state u)" by blast
  show ?case
  proof (cases "s = NextIteration")
    case True
    with "1.prems" it have "run_loop env u = (stop, t')" by (simp add: run_loop.simps [of env t])
    with "1.IH" [OF it [symmetric]] True have "loop_course env u stop t'" by blast
    then obtain rest where rest: "tu_trace t' = tu_trace u @ rest" "stretch env u rest t'" "stretch_gate env rest"
      "streak_ok (streak u) rest" "stop \<noteq> NextIteration" "stop = TurnPanics \<or> ls_Done (tu_state t')"
      unfolding loop_course_def by blast
    have "stretch env t (tr @ rest) t'"
      using stretch_trans [OF tr(2) rest(2)] iteration_next(1) [of env t u] it True by simp
    with tr rest True show ?thesis
      unfolding loop_course_def by (auto simp: streak_append intro: stretch_gate_append)
  next
    case False
    with "1.prems" it have "stop = s" "t' = u" by (simp_all add: run_loop.simps [of env t])
    with tr False show ?thesis unfolding loop_course_def by blast
  qed
qed

section \<open>What holds of the turn\<close>

lemma pre_turn_policy_course:
  assumes "pre_turn_policy env t = r"
  shows "case r of
      Inl (stop, t') \<Rightarrow> stop = ReturnNow None \<and> core t' = core t \<and> tu_trace t' = tu_trace t \<and> ls_Done (tu_state t')
    | Inr t' \<Rightarrow> core t' = core t \<and> tu_trace t' = tu_trace t"
proof -
  obtain p blocked where check: "pre_turn_check (te_text env) (li_PolicyEvaluator (te_input env)) (policy_view t) = (p, blocked)"
    by fastforce
  then have "blocked \<Longrightarrow> ts_done p" by (auto simp: pre_turn_check_def Let_def split: if_splits)
  then have "blocked \<Longrightarrow> ls_Done (tu_state (policy_back p t))" by (simp add: policy_back_def append_messages_def Let_def)
  with check show ?thesis by (auto simp: pre_turn_policy_def assms [symmetric] Let_def)
qed

lemma end_turn_course:
  "core (end_turn env t) = core t" "tu_trace (end_turn env t) = tu_trace t"
  "ls_Done (tu_state (end_turn env t)) = ls_Done (tu_state t)"
proof -
  have announced: "core (announce_urls u) = core u" "tu_trace (announce_urls u) = tu_trace u"
    "ls_Done (tu_state (announce_urls u)) = ls_Done (tu_state u)" for u :: "'a turn"
    by (simp_all add: announce_urls_def Let_def)
  have judged: "core (post_turn_policy env u) = core u" "tu_trace (post_turn_policy env u) = tu_trace u" for u
    by (simp_all add: post_turn_policy_def)
  have "ts_done (post_turn_check ops eo n m st) = ts_done st" for ops eo n m st
    by (simp add: post_turn_check_def Let_def emit_decisions_def)
  then have done_: "ls_Done (tu_state (post_turn_policy env u)) = ls_Done (tu_state u)" for u
    by (simp add: post_turn_policy_def policy_back_def policy_view_def append_messages_def Let_def)
  show "core (end_turn env t) = core t" "tu_trace (end_turn env t) = tu_trace t"
    "ls_Done (tu_state (end_turn env t)) = ls_Done (tu_state t)"
    by (simp_all add: end_turn_def Let_def announced judged done_)
qed

lemma loop_course_cong:
  assumes "core u = core t" "tu_trace u = tu_trace t"
    and "core v' = core v" "tu_trace v' = tu_trace v" "ls_Done (tu_state v') = ls_Done (tu_state v)"
    and "loop_course env u stop v" "stop' \<noteq> NextIteration" "stop' = TurnPanics \<longleftrightarrow> stop = TurnPanics"
  shows "loop_course env t stop' v'"
  using assms account_streak_core [OF assms(1)] account_streak_core [OF assms(3)]
  by (simp add: loop_course_def stretch_def)

lemma run_turn_course:
  assumes "run_turn env t = (stop, t')"
  shows "loop_course env t stop t'"
proof -
  define u where "u = emit_event (EvTurnStart (ls_TurnNumber (tu_state t)) (li_UserInput (te_input env))) t"
  have u: "core u = core t" "tu_trace u = tu_trace t" by (simp_all add: u_def)
  show ?thesis
  proof (cases "pre_turn_policy env u")
    case (Inl st)
    then have "st = (stop, t')" using assms by (simp add: run_turn_def u_def)
    with pre_turn_policy_course [OF Inl] u have "stop = ReturnNow None" "core t' = core t" "tu_trace t' = tu_trace t"
      "ls_Done (tu_state t')" by simp_all
    then show ?thesis
      using account_streak_core [of t' t]
      by (simp add: loop_course_def stretch_refl stretch_gate_def)
  next
    case (Inr v)
    with pre_turn_policy_course [OF Inr] u have v: "core v = core t" "tu_trace v = tu_trace t" by simp_all
    obtain stop1 w where loop: "run_loop env v = (stop1, w)" by fastforce
    note course = run_loop_course [OF loop]
    show ?thesis
    proof (cases "stop1 = LeaveLoop")
      case True
      with assms Inr loop have "stop = ReturnNow None" "t' = end_turn env w"
        by (simp_all add: run_turn_def u_def [symmetric])
      then show ?thesis
        using loop_course_cong [OF v end_turn_course course, of "ReturnNow None"] True by simp
    next
      case False
      with assms Inr loop have "stop = stop1" "t' = w"
        by (auto simp: run_turn_def u_def [symmetric] split: turn_stop.splits)
      moreover have "stop1 \<noteq> NextIteration" using course by (simp add: loop_course_def)
      ultimately show ?thesis using loop_course_cong [OF v refl refl refl course, of stop1] by simp
    qed
  qed
qed

text \<open>Calls of a model in one pass, at most: four rounds of the primary model and every fallback model.\<close>

definition calls_per_iteration :: "loop_input \<Rightarrow> nat" where
  "calls_per_iteration input =
     4 * (1 + (case li_FallbackConfig input of None \<Rightarrow> 0 | Some fb \<Rightarrow> length (af_Models fb) * nat (af_MaxAttempts fb)))"

lemma Run_course:
  assumes "aw_resolve w 0 (li_Model input) = Inr (p, model)"
    and "r = Run cfg tlo ops path_match w input s"
  shows "0 \<le> ls_IterationCount (rr_state r)" "ls_IterationCount (rr_state r) \<le> max 0 (lp_MaxIterations cfg)"
    "int (model_calls (rr_trace r)) \<le> ls_IterationCount (rr_state r) * int (calls_per_iteration input)"
    "int (length (accepted_responses (rr_trace r))) \<le> ls_IterationCount (rr_state r)"
    "ls_TurnNumber (rr_state r) = ls_TurnNumber s + 1"
    "ls_PriorSessionTokens (rr_state r) = ls_PriorSessionTokens s"
    "ls_TurnUsage (rr_state r) = accounted (accepted_responses (rr_trace r)) no_delta"
    "ls_CumulativeUsage (rr_state r) = accounted (accepted_responses (rr_trace r)) (ls_CumulativeUsage s)"
    "lp_SessionTokenBudget cfg > 0 \<Longrightarrow> budget_ok (lp_SessionTokenBudget cfg) (session_tokens s) (accepted_responses (rr_trace r))"
    "streak_ok ([], 0) (rr_trace r)" "rr_panicked r \<or> ls_Done (rr_state r)"
    "li_HITLConfig input = Some hitl \<Longrightarrow> li_ReviewChannels input \<Longrightarrow>
       (\<And>resp tc. resp \<in> set (accepted_responses (rr_trace r)) \<Longrightarrow> tc \<in> set (ExtractToolCalls resp) \<Longrightarrow> \<not> oversized tc) \<Longrightarrow>
       gate_ok (needs_approval path_match hitl) [] (rr_trace r)"
proof -
  define env where "env = turn_env_of cfg tlo ops path_match w input s model"
  define t where "t = start_of_turn p (begin_turn input s)"
  obtain stop t' where run: "run_turn env t = (stop, t')" by fastforce
  have r: "rr_state r = tu_state t'" "rr_trace r = tu_trace t'" "rr_panicked r \<longleftrightarrow> stop = TurnPanics"
    using run assms by (simp_all add: Run_def env_def t_def)
  have env: "te_config env = cfg" "te_input env = input" "te_path_match env = path_match"
    by (simp_all add: env_def turn_env_of_def)
  have calls: "turn_calls env = calls_per_iteration input"
    by (simp add: turn_calls_def round_calls_def calls_per_iteration_def env maxRateLimitRetries_def)
  have begun: "tu_trace t = []" "streak t = ([], 0)"
    "turn_account t = (0, ls_TurnNumber s + 1, ls_PriorSessionTokens s, no_delta, ls_CumulativeUsage s)"
    by (simp_all add: t_def start_of_turn_def streak_def account_fields begin_turn_def Let_def)
  from run_turn_course [OF run] begun have course: "stretch env t (rr_trace r) t'" "stretch_gate env (rr_trace r)"
    "streak_ok ([], 0) (rr_trace r)" "stop = TurnPanics \<or> ls_Done (tu_state t')"
    by (simp_all add: loop_course_def r)
  note facts = course(1) [unfolded stretch_def begun(3), unfolded account_fields, simplified, unfolded env calls]
  show "0 \<le> ls_IterationCount (rr_state r)" "ls_IterationCount (rr_state r) \<le> max 0 (lp_MaxIterations cfg)"
    "int (model_calls (rr_trace r)) \<le> ls_IterationCount (rr_state r) * int (calls_per_iteration input)"
    "int (length (accepted_responses (rr_trace r))) \<le> ls_IterationCount (rr_state r)"
    "ls_TurnNumber (rr_state r) = ls_TurnNumber s + 1"
    "ls_PriorSessionTokens (rr_state r) = ls_PriorSessionTokens s"
    "ls_TurnUsage (rr_state r) = accounted (accepted_responses (rr_trace r)) no_delta"
    "ls_CumulativeUsage (rr_state r) = accounted (accepted_responses (rr_trace r)) (ls_CumulativeUsage s)"
    using facts by (simp_all add: r)
  show "lp_SessionTokenBudget cfg > 0 \<Longrightarrow> budget_ok (lp_SessionTokenBudget cfg) (session_tokens s) (accepted_responses (rr_trace r))"
    using facts by (simp add: session_tokens_def)
  show "streak_ok ([], 0) (rr_trace r)" "rr_panicked r \<or> ls_Done (rr_state r)"
    using course by (simp_all add: r)
  show "gate_ok (needs_approval path_match hitl) [] (rr_trace r)"
    if "li_HITLConfig input = Some hitl" "li_ReviewChannels input"
      "\<And>resp tc. resp \<in> set (accepted_responses (rr_trace r)) \<Longrightarrow> tc \<in> set (ExtractToolCalls resp) \<Longrightarrow> \<not> oversized tc"
    using course(2) that by (simp add: stretch_gate_def env)
qed

end
