(* ===== verification/AgentExample.thy ===== *)
theory AgentExample
  imports AgentTurn
begin

text \<open>
  A turn worked out in full: the model calls a tool that is behind the gate, the reviewer approves, the tool
  runs, and the limit of one pass ends the turn. The witnesses of the guarantees rest on it.
\<close>

section \<open>The conversation\<close>

definition example_call :: tool_call where
  "example_call = \<lparr>tc_ID = ''c1'', tc_Type = ''function'', tc_Name = ''run'', tc_Arguments = ''{}''\<rparr>"

definition example_usage :: chat_usage where
  "example_usage = no_usage\<lparr>us_PromptTokens := 7, us_CompletionTokens := 3, us_TotalTokens := 10\<rparr>"

definition example_answer :: "chat_message \<Rightarrow> string \<Rightarrow> chat_completion" where
  "example_answer msg reason = \<lparr>cc_ID = ''r'', cc_Model = ''m'',
     cc_Choices = [\<lparr>ch_Index = 0, ch_Message = msg, ch_FinishReason = reason\<rparr>], cc_Usage = example_usage\<rparr>"

definition calling :: chat_completion where
  "calling = example_answer ((text_message RoleAssistant [])\<lparr>msg_tool_calls := [example_call]\<rparr>) ''tool_calls''"

text \<open>The model calls the tool, the reviewer approves; one pass is allowed.\<close>

definition example_world :: "unit agent_world" where
  "example_world = \<lparr>aw_ctx = None, aw_resolve = (\<lambda>_ m. Inr ((), m)), aw_name = (\<lambda>_. None), aw_cached = (\<lambda>_ _. None),
     aw_stream = (\<lambda>_ _ _. ([], None)),
     aw_chat = (\<lambda>_ _ _. Inr calling),
     aw_stored = (\<lambda>_. (False, False)),
     aw_review = (\<lambda>_ _. Decided 1 \<lparr>ad_ReviewID = ''v'', ad_Action = ''approve'', ad_Decisions = [], ad_Reason = [],
       ad_ResolvedBy = ''ops''\<rparr>),
     aw_compactions = (\<lambda>_. []), aw_steer = (\<lambda>_. None), aw_jobs = (\<lambda>_. []), aw_forks = (\<lambda>_. []), aw_peers = (\<lambda>_. [])\<rparr>"

definition example_tools :: tool_loop where
  "example_tools = \<lparr>tl_enabled = True, tl_has_handler = True, tl_parallelExecute = False,
     tl_functions = (\<lambda>_. [\<lparr>fn_ID = ''f'', fn_TenantID = ''t'', fn_Name = ''run'', fn_Mode = ''http'', fn_Enabled = True,
       fn_Description = None, fn_Parameters = []\<rparr>]),
     tl_json_valid = (\<lambda>_. True), tl_json_unmarshal = (\<lambda>_. Some []), tl_modes = [''http''],
     tl_execute = (\<lambda>_ _ _ _. (Some \<lparr>xr_Content = ContentString ''ok'', xr_Error = [], xr_Success = True, xr_DurationMs = 1\<rparr>,
       None))\<rparr>"

definition example_gate :: hitl_config where
  "example_gate = \<lparr>hc_Tools = [''run''], hc_TimeoutSeconds = 60, hc_DefaultAction = ''deny'', hc_MatchMode = ''exact''\<rparr>"

definition example_input :: loop_input where
  "example_input = \<lparr>li_TenantID = ''t'', li_Model = ''m'', li_SystemPrompt = ''You help.'', li_Tools = [''run''],
     li_Sampling = no_sampling, li_UserInput = ''go'', li_MaxSteps = 0, li_HITLConfig = Some example_gate,
     li_ReviewChannels = True, li_FallbackConfig = None, li_APIType = [], li_Interceptor = None, li_Memory = None,
     li_DigestBulletin = [], li_Skills = [], li_PolicyEvaluator = None\<rparr>"

definition example_config :: loop_config where
  "example_config = DefaultLoopConfig\<lparr>lp_MaxIterations := 1, lp_EnableStreaming := False, lp_SessionTokenBudget := 100\<rparr>"

definition new_session :: loop_state where
  "new_session = \<lparr>ls_Messages = [], ls_TurnNumber = 0, ls_IterationCount = 0, ls_TotalToolCalls = 0,
     ls_TurnUsage = no_delta, ls_CumulativeUsage = no_delta, ls_PriorSessionTokens = 0, ls_FinishReason = [],
     ls_LastAssistantText = [], ls_Done = False, ls_ToolResults = Map.empty, ls_TurnStartIndex = 0\<rparr>"

definition example_ops :: text_ops where
  "example_ops = \<lparr>to_lower = (\<lambda>s. s), equal_fold = (=), re_compile = (\<lambda>_. None)\<rparr>"

definition example_run :: "unit run_result" where
  "example_run = Run example_config (Some example_tools) example_ops (\<lambda>_ _. False) example_world example_input new_session"


section \<open>Its passes\<close>

definition example_env :: "unit turn_env" where
  "example_env = turn_env_of example_config (Some example_tools) example_ops (\<lambda>_ _. False) example_world example_input
     new_session ''m''"

lemma example_fields [simp]:
  "aw_resolve example_world n m = Inr ((), m)" "aw_cached example_world n r = None"
  "aw_chat example_world n p r = Inr calling" "aw_stored example_world n = (False, False)" "ctx_at example_world n = CtxLive"
  "te_config example_env = example_config" "te_input example_env = example_input" "te_world example_env = example_world"
  "te_toolLoop example_env = Some example_tools" "te_path_match example_env = (\<lambda>_ _. False)"
  "lp_MaxIterations example_config = 1" "lp_MaxToolCallsPerTurn example_config = 0"
  "lp_SessionTokenBudget example_config = 100" "lp_EnableStreaming example_config = False"
  "li_Interceptor example_input = None" "li_FallbackConfig example_input = None"
  "li_HITLConfig example_input = Some example_gate" "li_ReviewChannels example_input"
  "li_PolicyEvaluator example_input = None" "li_Model example_input = ''m''"
  "ExtractToolCalls calling = [example_call]" "IsEnabled example_tools"
  by (simp_all add: example_world_def ctx_at_def example_env_def turn_env_of_def example_config_def DefaultLoopConfig_def
      example_input_def calling_def example_answer_def ExtractToolCalls_def text_message_def IsEnabled_def
      example_tools_def)

lemma example_shouldLoop: "shouldLoop example_env calling"
  by (simp add: shouldLoop_def ShouldExecuteToolLoop_def hasTools_def)
     (simp add: HasToolCalls_def calling_def example_answer_def example_env_def turn_env_of_def turn_tool_definitions_def BuildToolDefinitions_def
      GetFunctionByName_def example_tools_def example_input_def List.map_filter_def IsEnabled_def text_message_def)

lemma example_review:
  "\<exists>v. approval_gate example_env calling [example_call] u = Inr v \<and> core v = core u \<and>
     tu_trace v = tu_trace u @ [Reviewed [example_call] ''approve'']"
  by (simp add: approval_gate_def Let_def example_gate_def example_call_def needs_approval_def)
     (simp add: example_world_def apply_decision_def)

lemma example_model:
  "\<exists>v. call_model example_env req u = Inr (calling, v) \<and> streak v = streak u \<and>
     tu_trace v = tu_trace u @ [ModelCalled (tu_provider u) req, Accepted calling]"
  by (simp add: call_model_def call_with_retries.simps [of _ _ maxRateLimitRetries] callWithFallback_def
      executeLLMCall_def Let_def account_usage_effect) (simp add: streak_def ask_world_def record_call_def emit_event_def)

lemma example_execution:
  "\<exists>v. execute_calls example_env calling [example_call] u = Inr v \<and> core v = core u \<and>
     tu_trace v = tu_trace u @ [ToolExecuted example_call]"
proof -
  have run: "ExecuteToolLoop example_tools tenant n calling =
      Some [assistant_copy (ch_Message (hd (cc_Choices calling))), tool_message ''c1'' ''ok'']" for tenant n
    by (simp add: ExecuteToolLoop_def Let_def)
       (simp add: example_call_def example_tools_def executeToolCall_def GetFunctionByName_def ParseToolCallArguments_def Registry_Execute_def FormatToolResult_def TrimSpace_def)
  show ?thesis
    by (simp add: execute_calls_def intercept_calls_def execute_regular_def run Let_def merge_results_def
        finish_regular_call_def collect_urls_def post_tool_policy_def post_tool_check_def text_message_def policy_view_def
        split: prod.splits)
qed

lemma example_admission:
  assumes "streak u = ([], 0)"
  shows "\<exists>v. stall_guard [example_call] u = Inr v \<and> tu_trace v = tu_trace u @ [Admitted [example_call]]"
proof -
  have "toolCallSignature [example_call] \<noteq> []" by simp
  with assms show ?thesis
    by (simp add: stall_guard_def note_signature_def maxRepeatedToolSignatures_def streak_def)
qed

lemma example_pass:
  assumes "below_limits example_env u" "streak u = ([], 0)"
  obtains v req where "iteration example_env u = (NextIteration, v)"
    "tu_trace v = tu_trace u @ [ModelCalled () req, Accepted calling, Admitted [example_call],
       Reviewed [example_call] ''approve'', ToolExecuted example_call]"
proof -
  obtain g where g: "loop_guards example_env u = Inr g"
    using assms(1) by (auto simp: loop_guards_def below_limits_def Let_def observe_ctx_def)
  obtain req p where p: "prepare_request example_env g = (req, p)" by fastforce
  obtain m where m: "call_model example_env req p = Inr (calling, m)" "streak m = streak p"
    "tu_trace m = tu_trace p @ [ModelCalled () req, Accepted calling]"
    using example_model [of req p] by auto
  have "streak p = ([], 0)" "tu_trace p = tu_trace u"
    using loop_guards_Inr [OF g] prepare_request_core [OF p] account_streak_core [of p g] assms(2) by simp_all
  with m(2) obtain a where a: "stall_guard [example_call] m = Inr a" "tu_trace a = tu_trace m @ [Admitted [example_call]]"
    using example_admission by metis
  obtain r where r: "approval_gate example_env calling [example_call] a = Inr r"
    "tu_trace r = tu_trace a @ [Reviewed [example_call] ''approve'']"
    using example_review by blast
  obtain e where e: "execute_calls example_env calling [example_call] r = Inr e"
    "tu_trace e = tu_trace r @ [ToolExecuted example_call]"
    using example_execution by blast
  have kept: "validate_sizes calling [example_call] a = Inr ([example_call], a)" "length_retry calling m = Inr m"
    by (simp_all add: validate_sizes_def oversized_def example_call_def maxToolArgSize_def length_retry_def
        calling_def example_answer_def)
  have "iteration example_env u = (NextIteration, e)"
    by (simp add: iteration_def g p m(1) handle_response_def kept example_shouldLoop handle_calls_def a(1) r(1) e(1))
  with that show thesis using m(3) a(2) r(2) e(2) \<open>tu_trace p = tu_trace u\<close> by simp
qed

lemma example_outcome:
  "\<exists>req. rr_trace example_run = [ModelCalled () req, Accepted calling, Admitted [example_call],
       Reviewed [example_call] ''approve'', ToolExecuted example_call] \<and> \<not> rr_panicked example_run"
proof -
  define t where "t = emit_event (EvTurnStart 1 ''go'') (start_of_turn () (begin_turn example_input new_session))"
  have t: "below_limits example_env t" "streak t = ([], 0)" "tu_trace t = []" "ls_IterationCount (tu_state t) = 0"
    by (simp_all add: t_def start_of_turn_def begin_turn_def new_session_def below_limits_def session_tokens_def no_delta_def
        Let_def streak_def emit_event_def)
  obtain v req where v: "iteration example_env t = (NextIteration, v)"
    "tu_trace v = [ModelCalled () req, Accepted calling, Admitted [example_call], Reviewed [example_call] ''approve'',
      ToolExecuted example_call]"
    using example_pass [OF t(1,2)] t(3) by auto
  have "ls_IterationCount (tu_state v) = 1" using iteration_next(2) [OF v(1)] t(4) by simp
  then have last: "iteration example_env v =
      (LeaveLoop, snd (terminate_turn ''max_iterations'' (ask_world v)))"
    by (simp add: iteration_def loop_guards_def observe_ctx_def terminate_turn_def) (simp add: example_input_def)
  have "run_loop example_env t = (LeaveLoop, snd (terminate_turn ''max_iterations'' (ask_world v)))"
    by (simp add: run_loop.simps [of _ t] v(1) run_loop.simps [of _ v] last)
  moreover have "pre_turn_policy example_env t = Inr t"
    by (simp add: pre_turn_policy_def pre_turn_check_def policy_back_def policy_view_def append_messages_def Let_def)
  moreover have "run_turn example_env (start_of_turn () (begin_turn example_input new_session)) =
      (case pre_turn_policy example_env t of Inl st \<Rightarrow> st
       | Inr t \<Rightarrow> (case run_loop example_env t of (LeaveLoop, t) \<Rightarrow> (ReturnNow None, end_turn example_env t) | st \<Rightarrow> st))"
    by (simp add: run_turn_def t_def begin_turn_def new_session_def start_of_turn_def) (simp add: example_input_def)
  ultimately have "run_turn example_env (start_of_turn () (begin_turn example_input new_session)) =
      (ReturnNow None, end_turn example_env (snd (terminate_turn ''max_iterations'' (ask_world v))))"
    by simp
  then have "rr_trace example_run = tu_trace v" "\<not> rr_panicked example_run"
    by (simp_all add: example_run_def Run_def example_env_def [symmetric] end_turn_course terminate_turn_def)
  with v(2) show ?thesis by simp
qed

lemma example_trace:
  "\<exists>req. rr_trace example_run = [ModelCalled () req, Accepted calling, Admitted [example_call],
       Reviewed [example_call] ''approve'', ToolExecuted example_call]"
  using example_outcome by blast

end
