(* ===== verification/AgentGuarantees.thy ===== *)
theory AgentGuarantees
  imports AgentExample AgentStream AgentCompact
begin

text \<open>
  What the agent runtime guarantees: every turn ends within its limits, tools behind the gate run only
  after a review, the budget is asked before every model call, repeated tool calls stop, a stream is put
  together as it was cut up, and compaction keeps the newest messages.
\<close>

section \<open>The turn\<close>



lemma Run_unresolved:
  "aw_resolve w 0 (li_Model input) = Inl err \<Longrightarrow>
     rr_trace (Run cfg tlo ops path_match w input s) = [] \<and> rr_state (Run cfg tlo ops path_match w input s) = s"
  by (simp add: Run_def)



text \<open>
  C35: The token budget: no response is accepted unless the tokens of the session before it, those of earlier turns
  included, were below the budget; and the five counters of the session and of the turn are exactly the
  sums over the accepted responses.
\<close>

theorem budget_respected:
  assumes "aw_resolve w 0 (li_Model input) = Inr (p, model)" "lp_SessionTokenBudget cfg > 0"
  shows "let r = Run cfg tlo ops path_match w input s; resps = accepted_responses (rr_trace r) in
    (\<forall>earlier resp later. resps = earlier @ resp # later \<longrightarrow>
       session_tokens s + sum_list (map response_tokens earlier) < lp_SessionTokenBudget cfg) \<and>
    session_tokens (rr_state r) = session_tokens s + sum_list (map response_tokens resps) \<and>
    ls_CumulativeUsage (rr_state r) = fold (\<lambda>resp. add_usage (cc_Usage resp)) resps (ls_CumulativeUsage s) \<and>
    ls_TurnUsage (rr_state r) = fold (\<lambda>resp. add_usage (cc_Usage resp)) resps no_delta"
  using Run_course(6-8) [OF assms(1) refl, of cfg tlo ops path_match s]
    Run_course(9) [OF assms(1) refl assms(2), where tlo = tlo and ops = ops and path_match = path_match and s = s,
      unfolded budget_ok_def]
  by (simp add: Let_def accounted_def [symmetric] session_tokens_def accounted_total)

theorem budget_respected_witness:
  "accepted_responses (rr_trace example_run) = [calling] \<and> session_tokens (rr_state example_run) = 10 \<and>
   ls_CumulativeUsage (rr_state example_run) = add_usage example_usage no_delta"
proof -
  obtain req where "rr_trace example_run = [ModelCalled () req, Accepted calling, Admitted [example_call],
      Reviewed [example_call] ''approve'', ToolExecuted example_call]"
    using example_trace by blast
  then have one: "accepted_responses (rr_trace example_run) = [calling]" by simp
  have "lp_SessionTokenBudget example_config > 0" by simp
  from budget_respected [OF example_fields(1) this, of "Some example_tools" example_ops "\<lambda>_ _. False" example_input new_session,
      folded example_run_def] one
  show ?thesis
    by (simp add: Let_def)
       (simp add: calling_def example_answer_def example_usage_def response_tokens_def session_tokens_def new_session_def no_delta_def)
qed

fun admitted :: "'p world_call list \<Rightarrow> tool_call list list" where
  "admitted [] = []"
| "admitted (c # tr) = (case c of Admitted calls \<Rightarrow> calls # admitted tr | _ \<Rightarrow> admitted tr)"

lemma admitted_append [simp]: "admitted (a @ b) = admitted a @ admitted b"
  by (induction a) (auto split: world_call.splits)

lemma streak_ok_first:
  fixes tr :: "'p world_call list"
  assumes "streak_ok st tr" "admitted tr = calls # rest"
  obtains tr' :: "'p world_call list" where "admitted tr' = rest"
    "snd (next_streak (toolCallSignature calls) st) < maxRepeatedToolSignatures"
    "streak_ok (next_streak (toolCallSignature calls) st) tr'"
  using assms by (induction tr) (auto split: world_call.splits)

lemma streak_ok_suffix:
  fixes tr :: "'p world_call list"
  assumes "streak_ok st tr" "admitted tr = pre @ rest"
  obtains st' and tr' :: "'p world_call list" where "streak_ok st' tr'" "admitted tr' = rest"
  using assms
proof (induction pre arbitrary: st tr)
  case (Cons calls pre)
  from Cons.prems(3) have "admitted tr = calls # (pre @ rest)" by simp
  from streak_ok_first [OF Cons.prems(2) this] Cons.IH Cons.prems(1) show ?case by metis
qed auto

text \<open>
  C36: Of any three consecutive sets of tool calls that the loop goes on to execute, not all are the same: the model
  cannot keep the loop going with a call it has already repeated.
\<close>

theorem no_third_repetition:
  "\<nexists>pre a b c post. admitted (rr_trace (Run cfg tlo ops path_match w input s)) = pre @ a # b # c # post \<and>
     toolCallSignature a = toolCallSignature b \<and> toolCallSignature b = toolCallSignature c"
proof (cases "aw_resolve w 0 (li_Model input)")
  case (Inl err)
  then show ?thesis using Run_unresolved [OF Inl, of cfg tlo ops path_match s] by simp
next
  case (Inr pm)
  then obtain p model where "aw_resolve w 0 (li_Model input) = Inr (p, model)" by (cases pm) simp
  from Run_course(10) [OF this refl] have ok: "streak_ok ([], 0) (rr_trace (Run cfg tlo ops path_match w input s))" .
  show ?thesis
  proof (intro notI, elim exE conjE)
    fix pre a b c post
    assume seq: "admitted (rr_trace (Run cfg tlo ops path_match w input s)) = pre @ a # b # c # post"
      and same: "toolCallSignature a = toolCallSignature b" "toolCallSignature b = toolCallSignature c"
    obtain st1 and tr1 :: "'a world_call list" where 1: "streak_ok st1 tr1" "admitted tr1 = a # b # c # post"
      using streak_ok_suffix [OF ok seq] .
    obtain tr2 :: "'a world_call list" where 2: "admitted tr2 = b # c # post" "streak_ok (next_streak (toolCallSignature a) st1) tr2"
      using streak_ok_first [OF 1] by blast
    obtain tr3 :: "'a world_call list" where 3: "admitted tr3 = c # post"
      "streak_ok (next_streak (toolCallSignature b) (next_streak (toolCallSignature a) st1)) tr3"
      using streak_ok_first [OF 2(2,1)] by blast
    have "snd (next_streak (toolCallSignature c)
        (next_streak (toolCallSignature b) (next_streak (toolCallSignature a) st1))) < maxRepeatedToolSignatures"
      using streak_ok_first [OF 3(2,1)] by blast
    then show False using same by (simp add: next_streak_def maxRepeatedToolSignatures_def split: if_splits)
  qed
qed

section \<open>Streams\<close>



section \<open>Compaction\<close>

definition compacted :: "chat_message list \<Rightarrow> chat_message list \<Rightarrow> bool" where
  "compacted ms ms' \<longleftrightarrow>
     (\<exists>i j s. ms' = take i ms @ [text_message RoleSystem s] @ drop j ms \<and> i < j \<and> j \<le> length ms \<and> i \<le> 1 \<and>
        (msg_role (hd ms) = RoleSystem \<longrightarrow> i = 1) \<and>
        (j + 20 = length ms \<or> 8 * (j - i) \<le> 5 * (length ms - i)))"

lemma compacted_spliced:
  assumes "float_rounding rnd" "length messages \<le> 2 ^ 50" "cd_Action (Decide rnd c messages n) \<noteq> ActionNone"
  shows "compacted messages (spliceOne messages (cd_ReplaceStart (Decide rnd c messages n))
    (cd_ReplaceEnd (Decide rnd c messages n)) (text_message RoleSystem s))"
  using Decide_range [OF assms] unfolding compacted_def spliceOne_def by blast

text \<open>A request that has been made of a conversation fits it still when messages have been added at the end.\<close>

lemma request_later:
  assumes "float_rounding rnd" "length messages \<le> 2 ^ 50" "cd_Action (Decide rnd c messages n) \<noteq> ActionNone"
  shows "\<exists>kept. compacted messages kept \<and>
    apply_compact_request (request_of (Decide rnd c messages n) s) (messages @ later) = kept @ later"
proof -
  note range = Decide_range [OF assms]
  have "apply_compact_request (request_of (Decide rnd c messages n) s) (messages @ later) =
      spliceOne (messages @ later) (cd_ReplaceStart (Decide rnd c messages n)) (cd_ReplaceEnd (Decide rnd c messages n))
        (text_message RoleSystem s)"
    using range by (intro request_of_decision) simp_all
  also have "\<dots> = spliceOne messages (cd_ReplaceStart (Decide rnd c messages n)) (cd_ReplaceEnd (Decide rnd c messages n))
        (text_message RoleSystem s) @ later"
    using range(1,2) by (simp add: spliceOne_def)
  finally show ?thesis using compacted_spliced [OF assms] by blast
qed

lemma dispatch_adds:
  "req \<in> set (mon_compactCh (dispatch r s m)) \<Longrightarrow> req \<in> set (mon_compactCh m) \<or> req = r"
  by (auto simp: dispatch_def split: if_splits)

lemma ObserveTurnEnd_adds:
  assumes "req \<in> set (mon_compactCh (ObserveTurnEnd rnd c resolve messages n m))" "req \<notin> set (mon_compactCh m)"
  shows "cd_Action (Decide rnd c messages n) \<noteq> ActionNone \<and> (\<exists>s. req = request_of (Decide rnd c messages n) s)"
  using assms
  by (auto simp: ObserveTurnEnd_def Let_def handleTruncate_def handleSummarize_def split: compact_action.splits sum.splits
      dest!: dispatch_adds)



section \<open>Configuration and arguments\<close>

lemma strings_of_map_GoStr [simp]: "strings_of (map GoStr ss) = ss"
  by (induction ss) simp_all

lemma validated_fields:
  assumes "ValidateHITLConfig config = None" "cfg_field config ''hitl'' as_map = Some m"
  shows "map_of m ''timeout_seconds'' = Some v \<Longrightarrow> \<exists>f. v = GoFloat f \<and> 1 \<le> f \<and> f \<le> 86400"
    and "map_of m ''default_action'' = Some v \<Longrightarrow> v = GoStr ''approve'' \<or> v = GoStr ''deny''"
    and "map_of m ''match_mode'' = Some v \<Longrightarrow> v = GoStr ''exact'' \<or> v = GoStr ''glob''"
  using assms
  by (cases v; auto simp: ValidateHITLConfig_def split: if_splits option.splits)+

lemma float_to_int_seconds:
  assumes "1 \<le> f" "f \<le> 86400"
  shows "float_to_int 64 ovf f = \<lfloor>f\<rfloor>" "1 \<le> \<lfloor>f\<rfloor>" "\<lfloor>f\<rfloor> \<le> 86400"
proof -
  show floor: "1 \<le> \<lfloor>f\<rfloor>" "\<lfloor>f\<rfloor> \<le> 86400" using assms by (simp_all add: le_floor_iff floor_le_iff)
  then show "float_to_int 64 ovf f = \<lfloor>f\<rfloor>" using assms(1) by (simp add: float_to_int_def truncate_float_def)
qed

text \<open>
  A gate configuration that passes validation is taken over as it is written: exactly the listed tools, by exact
  name or by pattern, need approval, the time limit is the whole part of the number, within a day, and a missing field
  means an hour, denial and exact names.
\<close>
theorem validated_gate_exact:
  assumes "ValidateHITLConfig config = None" "cfg_field config ''hitl'' as_map = Some m"
    and "map_of m ''tools'' = Some (GoList (map GoStr tools))" "tools \<noteq> []"
  shows "\<exists>gate. ParseHITLConfig ovf config = Some gate \<and>
    hc_DefaultAction gate = (case map_of m ''default_action'' of Some (GoStr s) \<Rightarrow> s | _ \<Rightarrow> ''deny'') \<and>
    hc_DefaultAction gate \<in> {''approve'', ''deny''} \<and>
    hc_TimeoutSeconds gate = (case map_of m ''timeout_seconds'' of Some (GoFloat f) \<Rightarrow> \<lfloor>f\<rfloor> | _ \<Rightarrow> 3600) \<and>
    1 \<le> hc_TimeoutSeconds gate \<and> hc_TimeoutSeconds gate \<le> 86400 \<and>
    FilterToolCallsNeedingApproval path_match calls (Some gate) =
      filter (\<lambda>tc. if map_of m ''match_mode'' = Some (GoStr ''glob'')
                   then \<exists>p \<in> set tools. path_match p (tc_Name tc) else tc_Name tc \<in> set tools) calls"
proof -
  obtain gate where gate: "ParseHITLConfig ovf config = Some gate"
    using assms(2-4) ParseHITLConfig_None_iff [of ovf config] by (cases "ParseHITLConfig ovf config") (auto simp: cfg_field_def)
  note fields = ParseHITLConfig_fields [OF assms(2) gate, unfolded cfg_field_def]
  note valid = validated_fields [OF assms(1,2)]
  have tools: "hc_Tools gate = tools" using fields(1) assms(3) by simp
  have action: "hc_DefaultAction gate = (case map_of m ''default_action'' of Some (GoStr s) \<Rightarrow> s | _ \<Rightarrow> ''deny'')"
    "hc_DefaultAction gate \<in> {''approve'', ''deny''}"
    using fields(3) valid(2) by (auto split: option.splits goval.splits)
  have seconds: "hc_TimeoutSeconds gate = (case map_of m ''timeout_seconds'' of Some (GoFloat f) \<Rightarrow> \<lfloor>f\<rfloor> | _ \<Rightarrow> 3600)"
    "1 \<le> hc_TimeoutSeconds gate" "hc_TimeoutSeconds gate \<le> 86400"
    using fields(2) valid(1) float_to_int_seconds(1) [of _ ovf] float_to_int_seconds(2,3)
    by (cases "map_of m ''timeout_seconds''"; force)+
  have "hc_MatchMode gate = ''glob'' \<longleftrightarrow> map_of m ''match_mode'' = Some (GoStr ''glob'')"
    using fields(4) valid(3) by (cases "map_of m ''match_mode''") auto
  then have "FilterToolCallsNeedingApproval path_match calls (Some gate) =
      filter (\<lambda>tc. if map_of m ''match_mode'' = Some (GoStr ''glob'')
                   then \<exists>p \<in> set tools. path_match p (tc_Name tc) else tc_Name tc \<in> set tools) calls"
    by (auto simp: needs_approval_def tools intro!: filter_cong)
  with gate action seconds show ?thesis by blast
qed

theorem validated_gate_exact_witness:
  defines "config \<equiv> [(''hitl'', GoMap [(''tools'', GoList [GoStr ''run'', GoStr ''send'']), (''timeout_seconds'', GoFloat (5 / 2))])]"
  shows "\<exists>gate. ParseHITLConfig (\<lambda>_. 0) config = Some gate \<and> hc_TimeoutSeconds gate = 2 \<and> hc_DefaultAction gate = ''deny'' \<and>
    FilterToolCallsNeedingApproval (\<lambda>_ _. True) [example_call, example_call\<lparr>tc_Name := ''look''\<rparr>] (Some gate) = [example_call]"
proof -
  define m where "m = [(''tools'', GoList [GoStr ''run'', GoStr ''send'']), (''timeout_seconds'', GoFloat (5 / 2))]"
  have "ValidateHITLConfig config = None" "cfg_field config ''hitl'' as_map = Some m"
    "map_of m ''tools'' = Some (GoList (map GoStr [''run'', ''send'']))"
    by (simp_all add: config_def m_def ValidateHITLConfig_def cfg_field_def)
  from validated_gate_exact [OF this, of "\<lambda>_. 0" "\<lambda>_ _. True" "[example_call, example_call\<lparr>tc_Name := ''look''\<rparr>]"]
  obtain gate where gate: "ParseHITLConfig (\<lambda>_. 0) config = Some gate"
    "hc_DefaultAction gate = (case map_of m ''default_action'' of Some (GoStr s) \<Rightarrow> s | _ \<Rightarrow> ''deny'')"
    "hc_TimeoutSeconds gate = (case map_of m ''timeout_seconds'' of Some (GoFloat f) \<Rightarrow> \<lfloor>f\<rfloor> | _ \<Rightarrow> 3600)"
    "FilterToolCallsNeedingApproval (\<lambda>_ _. True) [example_call, example_call\<lparr>tc_Name := ''look''\<rparr>] (Some gate) =
      filter (\<lambda>tc. if map_of m ''match_mode'' = Some (GoStr ''glob'')
                   then \<exists>p \<in> set [''run'', ''send'']. True else tc_Name tc \<in> set [''run'', ''send''])
        [example_call, example_call\<lparr>tc_Name := ''look''\<rparr>]"
    by auto
  have "\<lfloor>5 / 2 :: rat\<rfloor> = 2" by (rule floor_unique) simp_all
  then have "hc_TimeoutSeconds gate = 2" "hc_DefaultAction gate = ''deny''" using gate(2,3) by (simp_all add: m_def)
  moreover have "FilterToolCallsNeedingApproval (\<lambda>_ _. True) [example_call, example_call\<lparr>tc_Name := ''look''\<rparr>] (Some gate) =
      [example_call]"
    unfolding gate(4) by (simp add: m_def example_call_def)
  ultimately show ?thesis using gate(1) by blast
qed

section \<open>Lapses\<close>

text \<open>
  The executor is given the response: when one call is left to run, those rejected for their size, and those
  the interceptor has already answered, are executed with it.
\<close>

lemma whole_response_executed:
  assumes "execute_regular env resp (call # calls) t = Inr (msgs, t')" "te_toolLoop env = Some tm" "IsEnabled tm"
  shows "tu_trace t' = tu_trace t @ map ToolExecuted (ExtractToolCalls resp)"
proof -
  have "tu_trace (fold (\<lambda>tc. record_call (ToolExecuted tc)) run u) = tu_trace u @ map ToolExecuted run" for run and u :: "'a turn"
    by (induction run arbitrary: u) simp_all
  moreover have "tu_trace (fold start_call calls' u) = tu_trace u" for calls' and u :: "'a turn"
    using fold_start_call_core by blast
  ultimately show ?thesis using assms by (auto simp: execute_regular_def Let_def split: option.splits)
qed

text \<open>A call that failed is answered like any other, so the retry after a failed tool is never forced by it.\<close>

lemma tool_failure_unseen:
  assumes "ExecuteToolLoop tm tenant n resp = Some msgs" "IsEnabled tm" "tc \<in> set (ExtractToolCalls resp)" "tc_ID tc \<noteq> []"
  shows "fst (finish_regular_call msgs tc ft) = fst ft"
proof -
  have "ExtractToolCalls resp \<noteq> []" using assms(3) by auto
  then obtain first and results :: "tool_result list" where msgs: "msgs = first # map (\<lambda>r. tool_message (tr_ToolCallID r) (tr_Content r)) results"
    and ids: "map tr_ToolCallID results = map tc_ID (ExtractToolCalls resp)"
    using ExecuteToolLoop_messages [OF assms(1)] assms(2) by blast
  have "tc_ID tc \<in> tr_ToolCallID ` set results"
    using ids assms(3) by (metis image_eqI list.set_map)
  then have "\<exists>m \<in> set msgs. msg_tool_call_id m = tc_ID tc" by (auto simp: msgs)
  then have "find (\<lambda>m. msg_tool_call_id m = tc_ID tc) msgs \<noteq> None" by (auto simp: find_None_iff)
  then show ?thesis by (cases ft) (auto simp: finish_regular_call_def Let_def)
qed

text \<open>Every action but the one word \<open>deny\<close> lets the calls pass, and the decisions on single calls are not read.\<close>

lemma any_other_word_approves:
  "ad_Action d \<noteq> ''deny'' \<Longrightarrow> \<exists>t'. apply_decision msg calls d t = Inr t'"
  "ad_Action d = ad_Action d' \<Longrightarrow> ad_Reason d = ad_Reason d' \<Longrightarrow> apply_decision msg calls d t = apply_decision msg calls d' t"
  by (simp_all add: apply_decision_def Let_def)

end
