(* ===== verification/AgentSession.thy ===== *)
theory AgentSession
  imports AgentTurn
begin

text \<open>
  The runner of a session: \<open>src/internal/agents/runtime/session_runner.go\<close>, which repeats \<open>Loop.Run\<close>
  while a turn stops at a limit, and \<open>src/internal/agents/runtime/checkpoint.go\<close>, \<open>turn_timeline.go\<close> and
  \<open>user_input_format.go\<close>, which make of the state it leaves the command that persists the turn.
\<close>

section \<open>Legs\<close>

text \<open>
  One call of \<open>Loop.Run\<close> is a leg. Each leg has a world of its own, as the questions of a turn are numbered
  from its beginning; what the input holds of the outside, the interceptor and the memory, comes with it.
  \<open>lw_done\<close> is the answer of \<open>spanCtx.Err()\<close> after the leg.
\<close>

record 'p leg_world =
  lw_world :: "'p agent_world"
  lw_toolLoop :: "tool_loop option"
  lw_interceptor :: "interceptor_ops option"
  lw_memory :: "(string + string) option"
  lw_done :: bool

record session_config =
  sc_loop :: loop_config
  sc_text :: text_ops
  sc_path_match :: "string \<Rightarrow> string \<Rightarrow> bool"

definition leg_input :: "'p leg_world \<Rightarrow> loop_input \<Rightarrow> loop_input" where
  "leg_input w input = input\<lparr>li_Interceptor := lw_interceptor w, li_Memory := lw_memory w\<rparr>"

definition run_leg :: "session_config \<Rightarrow> 'p leg_world \<Rightarrow> loop_input \<Rightarrow> loop_state \<Rightarrow> 'p run_result" where
  "run_leg cfg w input s =
     Run (sc_loop cfg) (lw_toolLoop w) (sc_text cfg) (sc_path_match cfg) (lw_world w) (leg_input w input) s"

definition shouldAutoContinue :: "string \<Rightarrow> bool" where
  "shouldAutoContinue reason \<longleftrightarrow> reason = ''max_iterations'' \<or> reason = ''max_steps'' \<or> reason = ''max_tool_calls''"

definition maxAutoContinue :: nat where "maxAutoContinue = 5"

definition continuation_prompt :: string where
  "continuation_prompt = ''Continue working on the task. You were interrupted because you hit the per-turn iteration limit. Pick up where you left off and keep going until the task is complete.''"

definition emptyStop :: "loop_state \<Rightarrow> bool" where
  "emptyStop s \<longleftrightarrow> ls_FinishReason s = ''stop'' \<and> ls_LastAssistantText s = []"

definition goes_on :: "'p leg_world \<Rightarrow> nat \<Rightarrow> 'p run_result \<Rightarrow> bool" where
  "goes_on w continueCount r \<longleftrightarrow>
     \<not> rr_panicked r \<and> rr_error r = None \<and>
     (shouldAutoContinue (ls_FinishReason (rr_state r)) \<or> emptyStop (rr_state r)) \<and>
     continueCount < maxAutoContinue \<and> \<not> lw_done w"

definition continue_state :: "loop_state \<Rightarrow> loop_state" where
  "continue_state s = s\<lparr>ls_Done := False, ls_IterationCount := 0, ls_TotalToolCalls := 0, ls_FinishReason := [],
     ls_Messages := ls_Messages s @ [text_message RoleSystem continuation_prompt]\<rparr>"

datatype session_event =
    EvSessionStart
  | EvOfLoop agent_event
  | EvAutoContinue string nat
  | EvSessionEnd string usage_delta
  | EvSessionFailed string string usage_delta

text \<open>The legs of a run, in order, each with the state it began in; and the events up to the end of the last.\<close>

function run_legs ::
    "session_config \<Rightarrow> (nat \<Rightarrow> 'p leg_world) \<Rightarrow> nat \<Rightarrow> loop_input \<Rightarrow> loop_state \<Rightarrow>
       (loop_state \<times> 'p run_result) list \<times> session_event list" where
  "run_legs cfg ws continueCount input s =
     (let r = run_leg cfg (ws continueCount) input s in
      if goes_on (ws continueCount) continueCount r then
        let (legs, events) = run_legs cfg ws (continueCount + 1) (input\<lparr>li_UserInput := []\<rparr>) (continue_state (rr_state r))
        in ((s, r) # legs,
            map EvOfLoop (rr_events r) @ EvAutoContinue (ls_FinishReason (rr_state r)) (continueCount + 1) # events)
      else ([(s, r)], map EvOfLoop (rr_events r)))"
  by pat_completeness auto

termination
  by (relation "measure (\<lambda>(cfg, ws, continueCount, input, s). maxAutoContinue - continueCount)")
     (auto simp: goes_on_def)

declare run_legs.simps [simp del]

record 'p session_run =
  sr_legs :: "(loop_state \<times> 'p run_result) list"
  sr_state :: loop_state
  sr_events :: "session_event list"
  sr_error :: "gateway_error option"
  sr_panicked :: bool

text \<open>
  The body of the goroutine of \<open>Start\<close>, but for the planner and the calls that follow the loop, which are
  given the state. A panic of the loop ends the process, so nothing follows it.
\<close>

definition run_session ::
    "session_config \<Rightarrow> (nat \<Rightarrow> 'p leg_world) \<Rightarrow> loop_input \<Rightarrow> loop_state \<Rightarrow> 'p session_run" where
  "run_session cfg ws input s =
     (let (legs, events) = run_legs cfg ws 0 input s; r = snd (last legs); s' = rr_state r in
      \<lparr>sr_legs = legs, sr_state = s',
       sr_events = EvSessionStart # events @
         (if rr_panicked r then []
          else case rr_error r of
                 None \<Rightarrow> [EvSessionEnd (ls_FinishReason s') (ls_CumulativeUsage s')]
               | Some e \<Rightarrow> [EvSessionFailed (ls_FinishReason s') (ge_msg e) (ls_CumulativeUsage s')]),
       sr_error = rr_error r, sr_panicked = rr_panicked r\<rparr>)"

definition session_calls :: "'p session_run \<Rightarrow> nat" where
  "session_calls run = sum_list (map (\<lambda>(s, r). model_calls (rr_trace r)) (sr_legs run))"

section \<open>What holds of the legs\<close>

lemma run_legs_step:
  fixes cfg ws k input s
  defines "r \<equiv> run_leg cfg (ws k) input s"
  shows "goes_on (ws k) k r \<Longrightarrow> fst (run_legs cfg ws k input s) =
      (s, r) # fst (run_legs cfg ws (Suc k) (input\<lparr>li_UserInput := []\<rparr>) (continue_state (rr_state r)))"
    "\<not> goes_on (ws k) k r \<Longrightarrow> fst (run_legs cfg ws k input s) = [(s, r)]"
  unfolding r_def by (subst run_legs.simps, auto simp: Let_def split: prod.splits)+

text \<open>Induction over the legs: the last leg, and a leg before others.\<close>

lemma run_legs_induct [case_names last more]:
  assumes "\<And>k input s. \<not> goes_on (ws k) k (run_leg cfg (ws k) input s) \<Longrightarrow> P k input s"
    and "\<And>k input s. goes_on (ws k) k (run_leg cfg (ws k) input s) \<Longrightarrow>
      P (Suc k) (input\<lparr>li_UserInput := []\<rparr>) (continue_state (rr_state (run_leg cfg (ws k) input s))) \<Longrightarrow> P k input s"
  shows "P k input s"
proof (induction "maxAutoContinue - k" arbitrary: k input s rule: less_induct)
  case (less k input s)
  show ?case
  proof (cases "goes_on (ws k) k (run_leg cfg (ws k) input s)")
    case True
    then have "maxAutoContinue - Suc k < maxAutoContinue - k" unfolding goes_on_def by linarith
    with less assms(2) [OF True] show ?thesis by blast
  qed (rule assms(1))
qed

lemma run_legs_nonempty [simp]: "fst (run_legs cfg ws k input s) \<noteq> []"
  using run_legs_step [of ws k cfg input s] by (cases "goes_on (ws k) k (run_leg cfg (ws k) input s)") simp_all

lemma run_legs_length: "length (fst (run_legs cfg ws k input s)) \<le> maxAutoContinue - k + 1"
proof (induction k input s rule: run_legs_induct [of ws cfg])
  case (more k input s)
  then show ?case by (simp add: run_legs_step(1)) (auto simp: goes_on_def)
qed (simp add: run_legs_step(2))

lemma leg_input_calls [simp]: "calls_per_iteration (leg_input w input) = calls_per_iteration input"
  by (simp add: calls_per_iteration_def leg_input_def)

lemma calls_per_iteration_user [simp]:
  "calls_per_iteration (input\<lparr>li_UserInput := u\<rparr>) = calls_per_iteration input"
  by (simp add: calls_per_iteration_def)

text \<open>Every leg makes a bounded number of calls, and stops, fails or panics.\<close>

lemma run_leg_bound:
  "int (model_calls (rr_trace (run_leg cfg w input s))) \<le> max 0 (lp_MaxIterations (sc_loop cfg)) * int (calls_per_iteration input)"
proof (cases "aw_resolve (lw_world w) 0 (li_Model (leg_input w input))")
  case (Inl e)
  then show ?thesis by (simp add: run_leg_def Run_def)
next
  case (Inr pm)
  obtain p m where "pm = (p, m)" by (cases pm)
  with Inr have "aw_resolve (lw_world w) 0 (li_Model (leg_input w input)) = Inr (p, m)" by simp
  note course = Run_course [OF this refl, where cfg = "sc_loop cfg" and tlo = "lw_toolLoop w" and ops = "sc_text cfg" and
      path_match = "sc_path_match cfg" and s = s, folded run_leg_def]
  have "ls_IterationCount (rr_state (run_leg cfg w input s)) * int (calls_per_iteration input) \<le>
      max 0 (lp_MaxIterations (sc_loop cfg)) * int (calls_per_iteration input)"
    by (rule mult_right_mono [OF course(2)]) simp
  with course(3) show ?thesis by simp
qed

lemma run_leg_stops:
  "let r = run_leg cfg w input s in rr_panicked r \<or> rr_error r \<noteq> None \<or> ls_Done (rr_state r)"
proof (cases "aw_resolve (lw_world w) 0 (li_Model (leg_input w input))")
  case (Inl e)
  then show ?thesis by (simp add: run_leg_def Run_def Let_def)
next
  case (Inr pm)
  obtain p m where "pm = (p, m)" by (cases pm)
  with Inr have "aw_resolve (lw_world w) 0 (li_Model (leg_input w input)) = Inr (p, m)" by simp
  from Run_course(11) [OF this refl, where cfg = "sc_loop cfg" and tlo = "lw_toolLoop w" and ops = "sc_text cfg" and
      path_match = "sc_path_match cfg" and s = s, folded run_leg_def]
  show ?thesis by (auto simp: Let_def)
qed

definition responses_of :: "(loop_state \<times> 'p run_result) list \<Rightarrow> chat_completion list" where
  "responses_of legs = concat (map (\<lambda>(s, r). accepted_responses (rr_trace r)) legs)"

lemma responses_of_Cons [simp]:
  "responses_of ((s, r) # legs) = accepted_responses (rr_trace r) @ responses_of legs" "responses_of [] = []"
  by (simp_all add: responses_of_def)

definition leg_resolved :: "'p leg_world \<Rightarrow> loop_input \<Rightarrow> bool" where
  "leg_resolved w input \<longleftrightarrow> (\<exists>a. aw_resolve (lw_world w) 0 (li_Model input) = Inr a)"

text \<open>What one leg does to the account.\<close>

lemma run_leg_unresolved:
  assumes "\<not> leg_resolved w input"
  shows "rr_state (run_leg cfg w input s) = s" "rr_trace (run_leg cfg w input s) = []"
    "rr_error (run_leg cfg w input s) \<noteq> None" "\<not> rr_panicked (run_leg cfg w input s)"
proof -
  obtain e where "aw_resolve (lw_world w) 0 (li_Model input) = Inl e"
    using assms by (cases "aw_resolve (lw_world w) 0 (li_Model input)") (auto simp: leg_resolved_def)
  then show "rr_state (run_leg cfg w input s) = s" "rr_trace (run_leg cfg w input s) = []"
    "rr_error (run_leg cfg w input s) \<noteq> None" "\<not> rr_panicked (run_leg cfg w input s)"
    by (simp_all add: run_leg_def Run_def leg_input_def)
qed

lemma run_leg_resolved:
  fixes cfg s
  assumes "leg_resolved w input"
  defines "r \<equiv> run_leg cfg w input s"
  shows "ls_TurnNumber (rr_state r) = ls_TurnNumber s + 1" "ls_PriorSessionTokens (rr_state r) = ls_PriorSessionTokens s"
    "ls_TurnUsage (rr_state r) = accounted (accepted_responses (rr_trace r)) no_delta"
    "ls_CumulativeUsage (rr_state r) = accounted (accepted_responses (rr_trace r)) (ls_CumulativeUsage s)"
    "lp_SessionTokenBudget (sc_loop cfg) > 0 \<Longrightarrow>
       budget_ok (lp_SessionTokenBudget (sc_loop cfg)) (session_tokens s) (accepted_responses (rr_trace r))"
proof -
  obtain p m where "aw_resolve (lw_world w) 0 (li_Model (leg_input w input)) = Inr (p, m)"
    using assms(1) by (auto simp: leg_resolved_def leg_input_def)
  note course = Run_course [OF this refl, where cfg = "sc_loop cfg" and tlo = "lw_toolLoop w" and ops = "sc_text cfg" and
      path_match = "sc_path_match cfg" and s = s, folded run_leg_def r_def]
  show "ls_TurnNumber (rr_state r) = ls_TurnNumber s + 1" "ls_PriorSessionTokens (rr_state r) = ls_PriorSessionTokens s"
    "ls_TurnUsage (rr_state r) = accounted (accepted_responses (rr_trace r)) no_delta"
    "ls_CumulativeUsage (rr_state r) = accounted (accepted_responses (rr_trace r)) (ls_CumulativeUsage s)"
    "lp_SessionTokenBudget (sc_loop cfg) > 0 \<Longrightarrow>
       budget_ok (lp_SessionTokenBudget (sc_loop cfg)) (session_tokens s) (accepted_responses (rr_trace r))"
    by (fact course(5) course(6) course(7) course(8) course(9))+
qed

text \<open>An account of a stretch of legs: from \<open>s\<close> to \<open>s'\<close> with the responses \<open>resps\<close>.\<close>

definition legs_account :: "int \<Rightarrow> loop_state \<Rightarrow> chat_completion list \<Rightarrow> loop_state \<Rightarrow> bool" where
  "legs_account budget s resps s' \<longleftrightarrow>
     ls_PriorSessionTokens s' = ls_PriorSessionTokens s \<and>
     ls_CumulativeUsage s' = accounted resps (ls_CumulativeUsage s) \<and>
     (budget > 0 \<longrightarrow> budget_ok budget (session_tokens s) resps)"

lemma run_leg_account:
  "legs_account (lp_SessionTokenBudget (sc_loop cfg)) s (accepted_responses (rr_trace (run_leg cfg w input s)))
     (rr_state (run_leg cfg w input s))"
proof (cases "leg_resolved w input")
  case True
  from run_leg_resolved [OF this, of cfg s] show ?thesis by (simp add: legs_account_def)
next
  case False
  from run_leg_unresolved [OF this, of cfg s] show ?thesis by (simp add: legs_account_def budget_ok_def)
qed

lemma legs_account_trans:
  assumes "legs_account b s xs s1" "legs_account b s1 ys s2"
  shows "legs_account b s (xs @ ys) s2"
proof -
  have tokens: "session_tokens s1 = session_tokens s + sum_list (map response_tokens xs)"
    using assms(1) by (simp add: legs_account_def session_tokens_def accounted_total)
  show ?thesis
    using assms budget_ok_append [of b "session_tokens s" xs ys] by (auto simp: legs_account_def tokens)
qed

lemma continue_state_account [simp]:
  "legs_account b (continue_state s) resps s' \<longleftrightarrow> legs_account b s resps s'"
  by (simp add: legs_account_def continue_state_def session_tokens_def)

lemma run_legs_account:
  "legs_account (lp_SessionTokenBudget (sc_loop cfg)) s (responses_of (fst (run_legs cfg ws k input s)))
     (rr_state (snd (last (fst (run_legs cfg ws k input s)))))"
proof (induction k input s rule: run_legs_induct [of ws cfg])
  case (last k input s)
  then show ?case using run_leg_account [of cfg s "ws k" input] by (simp add: run_legs_step(2))
next
  case (more k input s)
  from legs_account_trans [OF run_leg_account more(2) [simplified]] show ?case
    by (simp add: run_legs_step(1) [of ws k cfg input s] more(1))
qed

text \<open>The number of the last turn: every leg whose model was resolved is a turn, and only the last can fail to be.\<close>

lemma leg_resolved_user [simp]: "leg_resolved w (input\<lparr>li_UserInput := u\<rparr>) \<longleftrightarrow> leg_resolved w input"
  by (simp add: leg_resolved_def)

lemma goes_on_resolved: "goes_on w k (run_leg cfg w input s) \<Longrightarrow> leg_resolved w input"
  using run_leg_unresolved(3) [of w input cfg s] by (auto simp: goes_on_def)

lemma run_legs_turns:
  "ls_TurnNumber (rr_state (snd (last (fst (run_legs cfg ws k input s))))) =
     ls_TurnNumber s + int (length (fst (run_legs cfg ws k input s))) -
       (if leg_resolved (ws (k + length (fst (run_legs cfg ws k input s)) - 1)) input then 0 else 1)"
proof (induction k input s rule: run_legs_induct [of ws cfg])
  case (last k input s)
  then show ?case
    using run_leg_resolved(1) [of "ws k" input cfg s] run_leg_unresolved(1) [of "ws k" input cfg s]
    by (auto simp: run_legs_step(2))
next
  case (more k input s)
  let ?s' = "continue_state (rr_state (run_leg cfg (ws k) input s))"
  have "ls_TurnNumber ?s' = ls_TurnNumber s + 1"
    using run_leg_resolved(1) [OF goes_on_resolved [OF more(1)]] by (simp add: continue_state_def)
  with more(2) show ?case by (simp add: run_legs_step(1) [of ws k cfg input s] more(1))
qed

text \<open>The usage of the last turn is that of the last leg.\<close>

lemma run_legs_turn_usage:
  assumes "leg_resolved (ws (k + length (fst (run_legs cfg ws k input s)) - 1)) input"
  shows "ls_TurnUsage (rr_state (snd (last (fst (run_legs cfg ws k input s))))) =
    accounted (accepted_responses (rr_trace (snd (last (fst (run_legs cfg ws k input s)))))) no_delta"
  using assms
proof (induction k input s rule: run_legs_induct [of ws cfg])
  case (last k input s)
  then show ?case using run_leg_resolved(3) [of "ws k" input cfg s] by (simp add: run_legs_step(2))
next
  case (more k input s)
  then show ?case by (simp add: run_legs_step(1))
qed

text \<open>The last leg is the first one that does not go on, and it has stopped, failed or panicked.\<close>

lemma run_legs_end:
  "let r = snd (last (fst (run_legs cfg ws k input s))) in rr_panicked r \<or> rr_error r \<noteq> None \<or> ls_Done (rr_state r)"
proof (induction k input s rule: run_legs_induct [of ws cfg])
  case (last k input s)
  then show ?case using run_leg_stops [of cfg "ws k" input s] by (simp add: run_legs_step(2))
next
  case (more k input s)
  then show ?case by (simp add: run_legs_step(1))
qed

lemma run_legs_calls:
  "int (sum_list (map (\<lambda>(s, r). model_calls (rr_trace r)) (fst (run_legs cfg ws k input s)))) \<le>
     int (length (fst (run_legs cfg ws k input s))) *
       (max 0 (lp_MaxIterations (sc_loop cfg)) * int (calls_per_iteration input))"
proof (induction k input s rule: run_legs_induct [of ws cfg])
  case (last k input s)
  then show ?case using run_leg_bound [of cfg "ws k" input s] by (simp add: run_legs_step(2))
next
  case (more k input s)
  then show ?case using run_leg_bound [of cfg "ws k" input s] by (simp add: run_legs_step(1) distrib_right)
qed

end
