(* ===== verification/AgentCheckpoint.thy ===== *)
theory AgentCheckpoint
  imports AgentSession
begin

text \<open>
  What the state of the last turn is persisted as: \<open>user_input_format.go\<close>, \<open>turn_timeline.go\<close> and
  \<open>checkpoint.go\<close> of \<open>src/internal/agents/runtime\<close>, with \<open>handleCompleteTurn\<close> of
  \<open>src/internal/commands/handlers/agents/agents_command_handler.go\<close>. Documents that the code marshals are the
  lists that are marshalled; durations and the identifiers and times of events are left out.
\<close>

section \<open>Answers of the user\<close>

definition askUserAnswerPrefix :: string where "askUserAnswerPrefix = ''User answered: ''"

definition askUserContinuationMarker :: string where
  "askUserContinuationMarker = line_feed @ line_feed @
     ''Continue the task immediately using this information. Do not stop after collecting the answer, and do not ask the same question again unless the response is still genuinely insufficient.''"

definition WrapUserAnswer :: "string \<Rightarrow> string" where
  "WrapUserAnswer answer = askUserAnswerPrefix @ answer @ askUserContinuationMarker"

definition DisplayUserAnswer :: "string \<Rightarrow> string" where
  "DisplayUserAnswer result =
     (let txt = (case index_of result askUserContinuationMarker of None \<Rightarrow> result | Some i \<Rightarrow> take i result)
      in TrimSpace (trim_prefix txt askUserAnswerPrefix))"

section \<open>The timeline of a turn\<close>

datatype timeline_item =
    TextItem string
  | ToolItem string string string string bool
  | HitlItem string string string bool

text \<open>\<open>ask_fields\<close> decodes the arguments of \<open>ask_user\<close> into its fields question, prompt and message.\<close>

definition extractAskUserQuestion :: "(string \<Rightarrow> (string \<times> string \<times> string) option) \<Rightarrow> string \<Rightarrow> string" where
  "extractAskUserQuestion ask_fields arguments =
     (case ask_fields arguments of
        None \<Rightarrow> []
      | Some (question, prompt, message) \<Rightarrow>
          if question \<noteq> [] then question else if prompt \<noteq> [] then prompt else message)"

definition call_item ::
    "(string \<Rightarrow> (string \<times> string \<times> string) option) \<Rightarrow> (string \<rightharpoonup> tool_result_meta) \<Rightarrow> tool_call \<Rightarrow> timeline_item option" where
  "call_item ask_fields results tc =
     (case results (tc_ID tc) of
        None \<Rightarrow> None
      | Some meta \<Rightarrow>
          Some (if tc_Name tc = ''ask_user''
                then HitlItem (tc_ID tc) (extractAskUserQuestion ask_fields (tc_Arguments tc))
                       (DisplayUserAnswer (rm_Result meta)) (\<not> rm_Success meta)
                else ToolItem (tc_ID tc) (tc_Name tc) (tc_Arguments tc) (rm_Result meta) (rm_Success meta)))"

definition message_items ::
    "(string \<Rightarrow> (string \<times> string \<times> string) option) \<Rightarrow> (string \<rightharpoonup> tool_result_meta) \<Rightarrow> chat_message \<Rightarrow> timeline_item list" where
  "message_items ask_fields results msg =
     (if msg_role msg \<noteq> RoleAssistant then []
      else (let txt = TrimSpace (messageText msg) in if txt \<noteq> [] then [TextItem txt] else []) @
           List.map_filter (call_item ask_fields results) (msg_tool_calls msg))"

text \<open>The empty list is the empty string of the code, which leaves the column as it is.\<close>

definition buildTurnTimeline ::
    "(string \<Rightarrow> (string \<times> string \<times> string) option) \<Rightarrow> loop_state \<Rightarrow> timeline_item list" where
  "buildTurnTimeline ask_fields s =
     (if ls_TurnStartIndex s > length (ls_Messages s) then []
      else concat (map (message_items ask_fields (ls_ToolResults s)) (drop (ls_TurnStartIndex s) (ls_Messages s))))"

section \<open>The tool calls of a turn\<close>

record enriched_call =
  ec_ID :: string
  ec_Type :: string
  ec_Name :: string
  ec_Arguments :: string
  ec_Result :: string
  ec_Success :: bool

definition enrich_call :: "tool_call \<Rightarrow> tool_result_meta \<Rightarrow> enriched_call" where
  "enrich_call tc meta = \<lparr>ec_ID = tc_ID tc, ec_Type = tc_Type tc, ec_Name = tc_Name tc, ec_Arguments = tc_Arguments tc,
     ec_Result = (if tc_Name tc = ''ask_user'' then DisplayUserAnswer (rm_Result meta) else rm_Result meta),
     ec_Success = rm_Success meta\<rparr>"

fun enriched_calls :: "(string \<rightharpoonup> tool_result_meta) \<Rightarrow> string set \<Rightarrow> tool_call list \<Rightarrow> enriched_call list" where
  "enriched_calls results seen [] = []"
| "enriched_calls results seen (tc # calls) =
     (case results (tc_ID tc) of
        None \<Rightarrow> enriched_calls results seen calls
      | Some meta \<Rightarrow>
          if tc_ID tc \<in> seen then enriched_calls results seen calls
          else enrich_call tc meta # enriched_calls results (insert (tc_ID tc) seen) calls)"

datatype calls_document = EnrichedCalls "enriched_call list" | PlainCalls "tool_call list"

definition calls_document_of :: "loop_state \<Rightarrow> calls_document" where
  "calls_document_of s =
     (if ls_ToolResults s \<noteq> Map.empty
      then EnrichedCalls (enriched_calls (ls_ToolResults s) {} (concat (map msg_tool_calls (ls_Messages s))))
      else case find (\<lambda>msg. msg_tool_calls msg \<noteq> []) (rev (ls_Messages s)) of
             None \<Rightarrow> EnrichedCalls []
           | Some msg \<Rightarrow> PlainCalls (msg_tool_calls msg))"

section \<open>The checkpoint\<close>

definition checkpoint_status :: "loop_state \<Rightarrow> string" where
  "checkpoint_status s =
     (if \<not> ls_Done s then ''running''
      else if ls_FinishReason s = ''error'' then ''failed''
      else if ls_FinishReason s \<in> {''max_iterations'', ''max_steps'', ''max_tool_calls'', ''timeout'', ''cancelled''}
        then ''completed''
      else if ls_FinishReason s = ''explicit_complete'' then ''completed''
      else if ls_FinishReason s = ''token_budget_exhausted'' then ''completed''
      else ''waiting_for_input'')"

definition int32_of :: "int \<Rightarrow> int" where
  "int32_of n = signed_take_bit 31 n"

lemma int32_of_id: "- (2 ^ 31) \<le> n \<Longrightarrow> n < 2 ^ 31 \<Longrightarrow> int32_of n = n"
  by (simp add: int32_of_def signed_take_bit_int_eq_self)

record complete_turn =
  ct_TurnNumber :: int
  ct_ExpectedTurnCount :: int
  ct_UserInput :: string
  ct_AssistantOutput :: string
  ct_ToolCalls :: calls_document
  ct_Timeline :: "timeline_item list"
  ct_PromptTokens :: int
  ct_CompletionTokens :: int
  ct_TotalTokens :: int
  ct_CacheReadInputTokens :: int
  ct_CacheWriteInputTokens :: int
  ct_Error :: string
  ct_SessionStatus :: string

definition checkpoint ::
    "(string \<Rightarrow> (string \<times> string \<times> string) option) \<Rightarrow> string \<Rightarrow> loop_state \<Rightarrow> complete_turn" where
  "checkpoint ask_fields userInput s =
     (let u = ls_TurnUsage s in
      \<lparr>ct_TurnNumber = ls_TurnNumber s, ct_ExpectedTurnCount = ls_TurnNumber s - 1, ct_UserInput = userInput,
       ct_AssistantOutput = ls_LastAssistantText s, ct_ToolCalls = calls_document_of s,
       ct_Timeline = buildTurnTimeline ask_fields s,
       ct_PromptTokens = int32_of (ud_PromptTokens u), ct_CompletionTokens = int32_of (ud_CompletionTokens u),
       ct_TotalTokens = int32_of (ud_TotalTokens u), ct_CacheReadInputTokens = int32_of (ud_CacheReadTokens u),
       ct_CacheWriteInputTokens = int32_of (ud_CacheWriteTokens u),
       ct_Error = (if ls_FinishReason s = ''error'' then ''turn failed'' else []),
       ct_SessionStatus = checkpoint_status s\<rparr>)"

text \<open>The events the command is turned into.\<close>

datatype session_domain_event = TurnCompleted string complete_turn | SessionCompleted string

definition handleCompleteTurn :: "complete_turn \<Rightarrow> session_domain_event list" where
  "handleCompleteTurn cmd =
     TurnCompleted (if ct_Error cmd \<noteq> [] then ''failed'' else ''completed'') cmd #
     (if ct_SessionStatus cmd = ''completed'' \<or> ct_SessionStatus cmd = ''failed'' \<or> ct_SessionStatus cmd = ''waiting_for_input''
      then [SessionCompleted (ct_SessionStatus cmd)] else [])"

section \<open>What is kept\<close>

text \<open>
  The user's words come out of the wrapper as they went in, white space at the ends aside, unless they
  contain the marker themselves.
\<close>

lemma marker_head:
  "askUserContinuationMarker ! 0 = CHR 0x0A" "askUserContinuationMarker ! Suc 0 = CHR 0x0A"
  "CHR 0x0A \<notin> set (drop 2 askUserContinuationMarker)" "2 < length askUserContinuationMarker"
  by (simp_all add: askUserContinuationMarker_def line_feed_def)

lemma marker_tail:
  assumes "2 + j < length askUserContinuationMarker"
  shows "askUserContinuationMarker ! (2 + j) \<noteq> CHR 0x0A"
proof -
  define t where "t = drop 2 askUserContinuationMarker"
  have "t ! j = askUserContinuationMarker ! (2 + j)" "j < length t" using assms by (simp_all add: t_def)
  then have "askUserContinuationMarker ! (2 + j) \<in> set t" using nth_mem [of j t] by simp
  then show ?thesis using marker_head(3) by (auto simp: t_def)
qed

text \<open>The marker begins with two line feeds and has no others, so it does not overlap itself.\<close>

lemma marker_no_overlap:
  assumes "askUserContinuationMarker = d @ take (length askUserContinuationMarker - length d) askUserContinuationMarker"
    and "length d < length askUserContinuationMarker"
  shows "d = []"
proof (rule ccontr)
  let ?m = askUserContinuationMarker
  assume "d \<noteq> []"
  have agree: "?m ! (length d + j) = ?m ! j" if "length d + j < length ?m" for j
  proof -
    have "?m ! (length d + j) = (d @ take (length ?m - length d) ?m) ! (length d + j)" using assms(1) by simp
    also have "\<dots> = ?m ! j" using that by (simp add: nth_append)
    finally show ?thesis .
  qed
  show False
  proof (cases "length d = 1")
    case True
    then show False using agree [of 1] marker_tail [of 0] marker_head(2,4) by (simp add: numeral_2_eq_2)
  next
    case False
    with \<open>d \<noteq> []\<close> have "2 \<le> length d" by (cases d) (auto simp: Suc_le_eq)
    then obtain j where "length d = 2 + j" using le_Suc_ex by blast
    then show False using agree [of 0] marker_tail [of j] marker_head(1) assms(2) by simp
  qed
qed

lemma index_of_marker:
  assumes "\<not> go_contains s askUserContinuationMarker"
  shows "index_of (s @ askUserContinuationMarker) askUserContinuationMarker = Some (length s)"
proof -
  let ?m = askUserContinuationMarker
  obtain i where i: "index_of (s @ ?m) ?m = Some i" using index_of_infix [of s ?m "[]"] by auto
  then have found: "i \<le> length s" "take (length ?m) (drop i s @ ?m) = ?m" using index_of_SomeD [OF i] by auto
  have "length (drop i s) < length ?m"
  proof (rule ccontr)
    assume "\<not> ?thesis"
    then have "take (length ?m) (drop i s) = ?m" using found(2) by simp
    then have "s = take i s @ ?m @ drop (length ?m) (drop i s)" by (metis append_take_drop_id)
    with assms show False by (auto simp: go_contains_iff)
  qed
  moreover from this have "?m = drop i s @ take (length ?m - length (drop i s)) ?m" using found(2) by simp
  ultimately have "drop i s = []" using marker_no_overlap [of "drop i s"] by simp
  with found(1) i show ?thesis by simp
qed

text \<open>
  The user's words come out of the wrapper as they went in, white space at the ends aside, unless they
  contain the marker themselves; and what was never wrapped is only trimmed.
\<close>

lemma answer_round_trip:
  assumes "\<not> go_contains (askUserAnswerPrefix @ answer) askUserContinuationMarker"
  shows "DisplayUserAnswer (WrapUserAnswer answer) = TrimSpace answer"
  using index_of_marker [OF assms] by (simp add: DisplayUserAnswer_def WrapUserAnswer_def)

lemma answer_untouched:
  assumes "\<not> go_contains result askUserContinuationMarker" "\<not> has_prefix result askUserAnswerPrefix"
  shows "DisplayUserAnswer result = TrimSpace result"
  using assms by (simp add: DisplayUserAnswer_def go_contains_def trim_prefix_def)

text \<open>Each answered call is in the document once, and no other.\<close>

lemma enriched_calls_ids:
  "distinct (map ec_ID (enriched_calls results seen calls))"
  "set (map ec_ID (enriched_calls results seen calls)) = {i \<in> tc_ID ` set calls. results i \<noteq> None} - seen"
proof (induction calls arbitrary: seen)
  case (Cons tc calls)
  have same: "ec_ID (enrich_call tc meta) = tc_ID tc" for meta by (simp add: enrich_call_def)
  { case 1 show ?case using Cons.IH same by (auto split: option.splits)
  next case 2 show ?case using Cons.IH same by (auto split: option.splits) }
qed simp_all

end
