(* ===== verification/AgentStore.thy ===== *)
theory AgentStore
  imports AgentCheckpoint "HOL-Library.Multiset"
begin

text \<open>
  A session over many messages of its user: the row of the session and the rows of its turns as
  \<open>handleAgentTurnCompleted\<close> and \<open>handleAgentSessionCompleted\<close> of \<open>src/internal/database/projections.go\<close> write
  them, the state a turn begins in (\<open>RunTurnStream\<close> of \<open>src/internal/api/grpc/agents/v1/agents.go\<close> and
  \<open>reconcileTurnNumber\<close>), and the status \<open>LaunchSession\<close> leaves. Projections run in goroutines of their own, so
  the writes of a turn land in any order; they have landed before the next turn of the session begins.
\<close>

section \<open>Rows\<close>

record turn_row =
  tr_number :: int
  tr_status :: string
  tr_user_input :: string
  tr_assistant_output :: string
  tr_tool_calls :: calls_document
  tr_prompt_tokens :: int
  tr_completion_tokens :: int
  tr_total_tokens :: int
  tr_cache_read :: int
  tr_cache_write :: int
  tr_error :: string
  tr_timeline :: "timeline_item list"

text \<open>
  One session: its status, its two counters, its turns in the order of their creation, and the billing
  records of its turns, by the number of the turn that their key ends in.
\<close>

record session_store =
  ss_status :: string
  ss_turn_count :: int
  ss_total_tokens :: int
  ss_turns :: "turn_row list"
  ss_usage :: "(int \<times> int) list"

definition created_session :: session_store where
  "created_session = \<lparr>ss_status = ''created'', ss_turn_count = 0, ss_total_tokens = 0, ss_turns = [], ss_usage = []\<rparr>"

section \<open>Projections\<close>

definition turn_row_of :: "string \<Rightarrow> complete_turn \<Rightarrow> turn_row" where
  "turn_row_of status cmd = \<lparr>tr_number = ct_TurnNumber cmd, tr_status = status, tr_user_input = ct_UserInput cmd,
     tr_assistant_output = ct_AssistantOutput cmd, tr_tool_calls = ct_ToolCalls cmd,
     tr_prompt_tokens = ct_PromptTokens cmd, tr_completion_tokens = ct_CompletionTokens cmd,
     tr_total_tokens = ct_TotalTokens cmd, tr_cache_read = ct_CacheReadInputTokens cmd,
     tr_cache_write = ct_CacheWriteInputTokens cmd, tr_error = ct_Error cmd, tr_timeline = ct_Timeline cmd\<rparr>"

text \<open>\<open>ON CONFLICT (session_id, turn_number) DO UPDATE\<close>: the timeline is kept when the new one is \<open>NULL\<close>.\<close>

definition upsert_turn :: "turn_row \<Rightarrow> turn_row list \<Rightarrow> turn_row list" where
  "upsert_turn row turns =
     (if tr_number row \<in> tr_number ` set turns
      then map (\<lambda>old. if tr_number old = tr_number row
                      then row\<lparr>tr_timeline := (if tr_timeline row = [] then tr_timeline old else tr_timeline row)\<rparr>
                      else old) turns
      else turns @ [row])"

definition count_turn :: "complete_turn \<Rightarrow> session_store \<Rightarrow> session_store" where
  "count_turn cmd st =
     (if ss_turn_count st = ct_ExpectedTurnCount cmd
      then st\<lparr>ss_turn_count := ss_turn_count st + 1, ss_total_tokens := ss_total_tokens st + ct_TotalTokens cmd\<rparr>
      else st)"

text \<open>\<open>InsertBillingUsageRecord\<close>: \<open>ON CONFLICT (idempotency_key) DO NOTHING\<close>.\<close>

definition bill_turn :: "complete_turn \<Rightarrow> session_store \<Rightarrow> session_store" where
  "bill_turn cmd st =
     (if ct_TurnNumber cmd \<in> fst ` set (ss_usage st) then st
      else st\<lparr>ss_usage := ss_usage st @ [(ct_TurnNumber cmd, ct_TotalTokens cmd)]\<rparr>)"

definition handleAgentTurnCompleted :: "string \<Rightarrow> complete_turn \<Rightarrow> session_store \<Rightarrow> session_store" where
  "handleAgentTurnCompleted status cmd st =
     bill_turn cmd (count_turn cmd (st\<lparr>ss_turns := upsert_turn (turn_row_of status cmd) (ss_turns st)\<rparr>))"

datatype store_write = ProjectTurn string complete_turn | SetStatus string

fun apply_write :: "store_write \<Rightarrow> session_store \<Rightarrow> session_store" where
  "apply_write (ProjectTurn status cmd) st = handleAgentTurnCompleted status cmd st"
| "apply_write (SetStatus status) st = st\<lparr>ss_status := status\<rparr>"

fun write_of :: "session_domain_event \<Rightarrow> store_write" where
  "write_of (TurnCompleted status cmd) = ProjectTurn status cmd"
| "write_of (SessionCompleted status) = SetStatus status"

section \<open>The end of a run\<close>

definition isTerminalFinishReason :: "string \<Rightarrow> bool" where
  "isTerminalFinishReason reason \<longleftrightarrow> reason = ''error'' \<or> reason = ''cancelled'' \<or> reason = ''explicit_complete''"

definition status_after_turn :: "bool \<Rightarrow> string \<Rightarrow> string" where
  "status_after_turn forceTerminal reason =
     (if forceTerminal then (if reason = ''error'' then ''failed'' else ''completed'')
      else if isTerminalFinishReason reason then (if reason = ''error'' then ''failed'' else ''completed'')
      else ''waiting_for_input'')"

text \<open>What a finished run writes: the events of its checkpoint and the status.\<close>

definition run_writes ::
    "(string \<Rightarrow> (string \<times> string \<times> string) option) \<Rightarrow> bool \<Rightarrow> string \<Rightarrow> 'p session_run \<Rightarrow> store_write list" where
  "run_writes ask_fields forceTerminal userInput run =
     (if sr_panicked run then []
      else map write_of (handleCompleteTurn (checkpoint ask_fields userInput (sr_state run))) @
           [SetStatus (status_after_turn forceTerminal (ls_FinishReason (sr_state run)))])"

section \<open>The beginning of a turn\<close>

definition row_messages :: "turn_row \<Rightarrow> chat_message list" where
  "row_messages t =
     (if tr_user_input t \<noteq> [] then [text_message RoleUser (tr_user_input t)] else []) @
     (if tr_assistant_output t \<noteq> [] then [text_message RoleAssistant (tr_assistant_output t)] else [])"

fun newest_rows :: "int \<Rightarrow> int \<Rightarrow> turn_row list \<Rightarrow> turn_row list" where
  "newest_rows available used [] = []"
| "newest_rows available used (t # older) =
     (let msgCount = int (length (row_messages t)) in
      if msgCount = 0 then t # newest_rows available used older
      else if used + msgCount > available then []
      else t # newest_rows available (used + msgCount) older)"

definition trimTurnsToHistoryBudget :: "turn_row list \<Rightarrow> int \<Rightarrow> bool \<Rightarrow> int \<Rightarrow> turn_row list" where
  "trimTurnsToHistoryBudget turns maxHistoryMessages hasSystemPrompt reservedNewMessages =
     (if maxHistoryMessages \<le> 0 \<or> turns = [] then turns
      else
        let available = maxHistoryMessages - reservedNewMessages - (if hasSystemPrompt then 1 else 0) in
        if available \<le> 0 then [] else rev (newest_rows available 0 (rev turns)))"

definition max_turn_number :: "turn_row list \<Rightarrow> int" where
  "max_turn_number turns = (if turns = [] then 0 else Max (tr_number ` set turns))"

definition reconcileTurnNumber :: "turn_row list \<Rightarrow> loop_state \<Rightarrow> loop_state" where
  "reconcileTurnNumber turns s =
     (if max_turn_number turns > ls_TurnNumber s then s\<lparr>ls_TurnNumber := max_turn_number turns\<rparr> else s)"

definition steer_message :: "string \<times> string \<Rightarrow> chat_message" where
  "steer_message steer = text_message (if fst steer = ''user'' then RoleUser else RoleSystem) (snd steer)"

definition initial_state :: "string \<Rightarrow> int \<Rightarrow> (string \<times> string) list \<Rightarrow> session_store \<Rightarrow> loop_state" where
  "initial_state agentPrompt maxHistoryMessages pendingSteers st =
     reconcileTurnNumber (ss_turns st)
       \<lparr>ls_Messages =
          (if agentPrompt \<noteq> [] then [text_message RoleSystem agentPrompt] else []) @
          concat (map row_messages
            (trimTurnsToHistoryBudget (ss_turns st) maxHistoryMessages (agentPrompt \<noteq> []) 1)) @
          map steer_message pendingSteers,
        ls_TurnNumber = int (length (ss_turns st)), ls_IterationCount = 0, ls_TotalToolCalls = 0, ls_TurnUsage = no_delta,
        ls_CumulativeUsage = no_delta, ls_PriorSessionTokens = ss_total_tokens st, ls_FinishReason = [],
        ls_LastAssistantText = [], ls_Done = False, ls_ToolResults = Map.empty, ls_TurnStartIndex = 0\<rparr>"

datatype turn_refusal = SessionIsCancelled | MaximumTurnsExceeded

definition resume_session :: "session_store \<Rightarrow> session_store" where
  "resume_session st =
     (if ss_status st \<in> {''completed'', ''failed'', ''waiting_for_input'', ''hibernated''}
      then st\<lparr>ss_status := ''running''\<rparr> else st)"

definition turns_exhausted :: "int \<Rightarrow> session_store \<Rightarrow> bool" where
  "turns_exhausted maxTurns st \<longleftrightarrow> maxTurns > 0 \<and> int (length (ss_turns st)) + 1 > maxTurns"

definition begin_stream :: "int \<Rightarrow> session_store \<Rightarrow> turn_refusal option \<times> session_store" where
  "begin_stream maxTurns st =
     (if ss_status st = ''cancelled'' then (Some SessionIsCancelled, st)
      else
        let st1 = resume_session st in
        if turns_exhausted maxTurns st1
        then (Some MaximumTurnsExceeded, apply_write (SetStatus ''completed'') st1)
        else (None, st1))"

section \<open>A session\<close>

record 'p round =
  rd_config :: session_config
  rd_worlds :: "nat \<Rightarrow> 'p leg_world"
  rd_input :: loop_input
  rd_agentPrompt :: string
  rd_maxHistory :: int
  rd_maxTurns :: int
  rd_steers :: "(string \<times> string) list"
  rd_force :: bool
  rd_ask_fields :: "string \<Rightarrow> (string \<times> string \<times> string) option"

definition round_run :: "'p round \<Rightarrow> session_store \<Rightarrow> 'p session_run" where
  "round_run rd st =
     run_session (rd_config rd) (rd_worlds rd) (rd_input rd)
       (initial_state (rd_agentPrompt rd) (rd_maxHistory rd) (rd_steers rd) st)"

definition round_writes :: "'p round \<Rightarrow> session_store \<Rightarrow> store_write list" where
  "round_writes rd st = run_writes (rd_ask_fields rd) (rd_force rd) (li_UserInput (rd_input rd)) (round_run rd st)"

text \<open>
  The messages of a user, one after the other, from a created session; a panic of the process, which leaves
  the turn unwritten, ends the history. The run of each accepted message is recorded.
\<close>

inductive session_history :: "('p round \<times> 'p session_run) list \<Rightarrow> session_store \<Rightarrow> bool" where
  created: "session_history [] created_session"
| refused: "session_history rounds st \<Longrightarrow> begin_stream maxTurns st = (Some refusal, st') \<Longrightarrow> session_history rounds st'"
| served: "session_history rounds st \<Longrightarrow> begin_stream (rd_maxTurns rd) st = (None, st1) \<Longrightarrow>
    \<not> sr_panicked (round_run rd st1) \<Longrightarrow> mset ws = mset (round_writes rd st1) \<Longrightarrow>
    session_history (rounds @ [(rd, round_run rd st1)]) (fold apply_write ws st1)"

section \<open>The order of the writes\<close>

text \<open>Everything but the status.\<close>

definition unstatus :: "session_store \<Rightarrow> session_store" where
  "unstatus st = st\<lparr>ss_status := []\<rparr>"

lemma unstatus_eq_iff:
  "unstatus a = unstatus b \<longleftrightarrow> ss_turn_count a = ss_turn_count b \<and> ss_total_tokens a = ss_total_tokens b \<and>
     ss_turns a = ss_turns b \<and> ss_usage a = ss_usage b"
  by (cases a; cases b) (simp add: unstatus_def)

lemma turn_completed_unstatus:
  "unstatus a = unstatus b \<Longrightarrow>
     unstatus (handleAgentTurnCompleted s cmd a) = unstatus (handleAgentTurnCompleted s cmd b)"
  by (simp add: unstatus_eq_iff handleAgentTurnCompleted_def bill_turn_def count_turn_def)

definition sets_status :: "store_write \<Rightarrow> bool" where
  "sets_status w \<longleftrightarrow> (\<exists>status. w = SetStatus status)"

lemma set_status_unstatus: "list_all sets_status ws \<Longrightarrow> unstatus (fold apply_write ws st) = unstatus st"
  by (induction ws arbitrary: st) (auto simp: sets_status_def unstatus_eq_iff)

lemma writes_any_order:
  assumes "mset ws = mset (ProjectTurn s cmd # rest)" "list_all sets_status rest"
  shows "unstatus (fold apply_write ws st) = unstatus (handleAgentTurnCompleted s cmd st)"
proof -
  have "ProjectTurn s cmd \<in> set ws" using assms(1) by (metis list.set_intros(1) set_mset_mset)
  then obtain a b where ws: "ws = a @ ProjectTurn s cmd # b" by (meson split_list)
  with assms(1) have "mset (a @ b) = mset rest" by simp
  then have "list_all sets_status (a @ b)" using assms(2) by (metis list_all_iff set_mset_mset)
  then have status: "list_all sets_status a" "list_all sets_status b" by simp_all
  have "unstatus (fold apply_write ws st) = unstatus (handleAgentTurnCompleted s cmd (fold apply_write a st))"
    by (simp add: ws set_status_unstatus [OF status(2)])
  also have "\<dots> = unstatus (handleAgentTurnCompleted s cmd st)"
    by (rule turn_completed_unstatus) (rule set_status_unstatus [OF status(1)])
  finally show ?thesis .
qed

text \<open>What a served message leaves, but for the status: its last state is checkpointed and projected.\<close>

definition project_run :: "'p round \<Rightarrow> 'p session_run \<Rightarrow> session_store \<Rightarrow> session_store" where
  "project_run rd run st =
     (let cmd = checkpoint (rd_ask_fields rd) (li_UserInput (rd_input rd)) (sr_state run) in
      handleAgentTurnCompleted (if ct_Error cmd \<noteq> [] then ''failed'' else ''completed'') cmd st)"

lemma round_projected:
  assumes "\<not> sr_panicked (round_run rd st1)" "mset ws = mset (round_writes rd st1)"
  shows "unstatus (fold apply_write ws st) = unstatus (project_run rd (round_run rd st1) st)"
proof -
  obtain rest where "round_writes rd st1 =
      ProjectTurn (if ct_Error (checkpoint (rd_ask_fields rd) (li_UserInput (rd_input rd)) (sr_state (round_run rd st1))) \<noteq> []
        then ''failed'' else ''completed'')
        (checkpoint (rd_ask_fields rd) (li_UserInput (rd_input rd)) (sr_state (round_run rd st1))) # rest"
    and "list_all sets_status rest"
    using assms(1) by (simp add: round_writes_def run_writes_def handleCompleteTurn_def sets_status_def)
  with writes_any_order [of ws _ _ rest] assms(2) show ?thesis by (simp add: project_run_def Let_def)
qed

lemma begin_stream_unstatus: "begin_stream m st = (r, st') \<Longrightarrow> unstatus st' = unstatus st"
  by (auto simp: begin_stream_def resume_session_def unstatus_eq_iff Let_def split: if_splits)

text \<open>The state a run begins in depends on no status.\<close>

lemma initial_state_unstatus: "unstatus a = unstatus b \<Longrightarrow> initial_state p h s a = initial_state p h s b"
  by (simp add: initial_state_def unstatus_eq_iff)

lemma initial_state_fields [simp]:
  "ls_TurnNumber (initial_state p h steers st) = max (int (length (ss_turns st))) (max_turn_number (ss_turns st))"
  "ls_PriorSessionTokens (initial_state p h steers st) = ss_total_tokens st"
  "ls_CumulativeUsage (initial_state p h steers st) = no_delta"
  "ls_LastAssistantText (initial_state p h steers st) = []" "ls_TurnUsage (initial_state p h steers st) = no_delta"
  "ls_FinishReason (initial_state p h steers st) = []" "ls_Done (initial_state p h steers st) = False"
  "session_tokens (initial_state p h steers st) = ss_total_tokens st"
  by (simp_all add: initial_state_def reconcileTurnNumber_def max_def session_tokens_def no_delta_def)

section \<open>The account of a session\<close>

definition run_tokens :: "'p session_run \<Rightarrow> int" where
  "run_tokens run = sum_list (map response_tokens (responses_of (sr_legs run)))"

lemma run_session_state:
  "sr_state (run_session cfg ws input s) = rr_state (snd (last (fst (run_legs cfg ws 0 input s))))"
  "sr_legs (run_session cfg ws input s) = fst (run_legs cfg ws 0 input s)"
  "sr_panicked (run_session cfg ws input s) = rr_panicked (snd (last (fst (run_legs cfg ws 0 input s))))"
  "sr_error (run_session cfg ws input s) = rr_error (snd (last (fst (run_legs cfg ws 0 input s))))"
  by (simp_all add: run_session_def Let_def split: prod.splits)

lemma round_state:
  fixes rd :: "'p round" and st
  defines "run \<equiv> round_run rd st"
  shows "ls_TurnNumber (sr_state run) =
      max (int (length (ss_turns st))) (max_turn_number (ss_turns st)) + int (length (sr_legs run)) -
        (if leg_resolved (rd_worlds rd (length (sr_legs run) - 1)) (rd_input rd) then 0 else 1)"
    "lp_SessionTokenBudget (sc_loop (rd_config rd)) > 0 \<Longrightarrow>
       budget_ok (lp_SessionTokenBudget (sc_loop (rd_config rd))) (ss_total_tokens st) (responses_of (sr_legs run))"
    "sr_legs run \<noteq> []"
  using run_legs_turns [of "rd_config rd" "rd_worlds rd" 0 "rd_input rd"
      "initial_state (rd_agentPrompt rd) (rd_maxHistory rd) (rd_steers rd) st"]
    run_legs_account [of "rd_config rd" "initial_state (rd_agentPrompt rd) (rd_maxHistory rd) (rd_steers rd) st"
      "rd_worlds rd" 0 "rd_input rd"]
  by (simp_all add: run_def round_run_def run_session_state legs_account_def)

text \<open>The usage that is persisted is that of the last leg: all of it when there is one leg.\<close>

lemma single_leg_usage:
  fixes rd :: "'p round" and st
  defines "run \<equiv> round_run rd st"
  assumes "length (sr_legs run) = 1" "leg_resolved (rd_worlds rd 0) (rd_input rd)"
  shows "ud_TotalTokens (ls_TurnUsage (sr_state run)) = run_tokens run"
proof -
  obtain s r where leg: "sr_legs run = [(s, r)]" using assms(2) by (cases "sr_legs run") auto
  then have "ls_TurnUsage (sr_state run) = accounted (accepted_responses (rr_trace r)) no_delta"
    using run_legs_turn_usage [of "rd_worlds rd" 0 "rd_config rd" "rd_input rd"
        "initial_state (rd_agentPrompt rd) (rd_maxHistory rd) (rd_steers rd) st"] assms(3)
    by (simp add: run_def round_run_def run_session_state)
  then show ?thesis by (simp add: run_tokens_def leg accounted_total no_delta_def)
qed

end
