(* ===== verification/AgentSessionGuarantees.thy ===== *)
theory AgentSessionGuarantees
  imports AgentStore AgentExample
begin

text \<open>
  What a session promises: it ends, its account is that of its turns, and decisions reach the reviews they
  were made for; with the lapses that the code has around these promises.
\<close>

section \<open>A session ends\<close>

text \<open>
  C39: A run of a session ends. It is at most six turns of the loop, the first and five continuations, each within the
  limits of a turn, so the calls of a model are bounded by the configuration; and it ends with the state marked as
  done, with an error, or with a panic, whatever the model, the tools and the reviewers do.
\<close>
theorem session_ends:
  "length (sr_legs (run_session cfg ws input s)) \<le> 6 \<and>
   int (session_calls (run_session cfg ws input s)) \<le>
     6 * (max 0 (lp_MaxIterations (sc_loop cfg)) * int (calls_per_iteration input)) \<and>
   (sr_panicked (run_session cfg ws input s) \<or> (\<exists>e. sr_error (run_session cfg ws input s) = Some e) \<or>
    ls_Done (sr_state (run_session cfg ws input s)))"
proof -
  let ?legs = "fst (run_legs cfg ws 0 input s)"
  have legs: "length ?legs \<le> 6" using run_legs_length [of cfg ws 0 input s] by (simp add: maxAutoContinue_def)
  have "int (session_calls (run_session cfg ws input s)) \<le>
      int (length ?legs) * (max 0 (lp_MaxIterations (sc_loop cfg)) * int (calls_per_iteration input))"
    using run_legs_calls [of cfg ws 0 input s] by (simp add: session_calls_def run_session_state)
  also have "\<dots> \<le> 6 * (max 0 (lp_MaxIterations (sc_loop cfg)) * int (calls_per_iteration input))"
    using legs by (intro mult_right_mono) simp_all
  finally have calls: "int (session_calls (run_session cfg ws input s)) \<le>
      6 * (max 0 (lp_MaxIterations (sc_loop cfg)) * int (calls_per_iteration input))" .
  show ?thesis
    using legs calls run_legs_end [of cfg ws 0 input s] by (auto simp: run_session_state Let_def)
qed

section \<open>The account of a session\<close>

text \<open>A round that is one leg on a resolved model, and whose tokens fit their column.\<close>

definition plain_round :: "'p round \<Rightarrow> 'p session_run \<Rightarrow> bool" where
  "plain_round rd run \<longleftrightarrow> length (sr_legs run) = 1 \<and> leg_resolved (rd_worlds rd 0) (rd_input rd) \<and>
     0 \<le> run_tokens run \<and> run_tokens run < 2 ^ 31"

text \<open>The store of a session whose rounds were all plain.\<close>

definition accounts_for :: "('p round \<times> 'p session_run) list \<Rightarrow> session_store \<Rightarrow> bool" where
  "accounts_for rounds st \<longleftrightarrow>
     map tr_number (ss_turns st) = [1..int (length rounds)] \<and>
     map tr_user_input (ss_turns st) = map (\<lambda>(rd, run). li_UserInput (rd_input rd)) rounds \<and>
     map tr_assistant_output (ss_turns st) = map (\<lambda>(rd, run). ls_LastAssistantText (sr_state run)) rounds \<and>
     map tr_total_tokens (ss_turns st) = map (\<lambda>(rd, run). run_tokens run) rounds \<and>
     ss_turn_count st = int (length rounds) \<and>
     ss_total_tokens st = sum_list (map (\<lambda>(rd, run). run_tokens run) rounds) \<and>
     ss_usage st = zip [1..int (length rounds)] (map (\<lambda>(rd, run). run_tokens run) rounds)"

lemma accounts_for_unstatus: "unstatus a = unstatus b \<Longrightarrow> accounts_for rounds a = accounts_for rounds b"
  by (simp add: accounts_for_def unstatus_eq_iff)

lemma max_turn_number_upto: "map tr_number turns = [1..int n] \<Longrightarrow> length turns = n \<Longrightarrow> max_turn_number turns = int n"
proof (cases "n = 0")
  case False
  assume "map tr_number turns = [1..int n]" "length turns = n"
  then have "tr_number ` set turns = {1..int n}" "turns \<noteq> []" using False by (metis set_map set_upto, auto)
  moreover have "Max {1..int n} = int n" using False by (intro Max_eqI) auto
  ultimately show ?thesis by (simp add: max_turn_number_def)
qed (simp add: max_turn_number_def)

lemma accounts_for_step:
  assumes "accounts_for rounds st" "plain_round rd (round_run rd st)"
  shows "accounts_for (rounds @ [(rd, round_run rd st)]) (project_run rd (round_run rd st) st)"
proof -
  let ?run = "round_run rd st" and ?n = "int (length rounds)"
  have lists: "map tr_number (ss_turns st) = [1..?n]" "map fst (ss_usage st) = [1..?n]"
    using assms(1) by (simp_all add: accounts_for_def)
  have len: "length (ss_turns st) = length rounds" using arg_cong [OF lists(1), of length] by simp
  have numbers: "tr_number ` set (ss_turns st) = {1..?n}" "fst ` set (ss_usage st) = {1..?n}"
    using arg_cong [OF lists(1), of set] arg_cong [OF lists(2), of set] by simp_all
  have "max_turn_number (ss_turns st) = ?n"
    using lists(1) len by (rule max_turn_number_upto)
  then have turn: "ls_TurnNumber (sr_state ?run) = ?n + 1"
    using round_state(1) [of rd st] assms(2) len by (simp add: plain_round_def)
  have tokens: "int32_of (ud_TotalTokens (ls_TurnUsage (sr_state ?run))) = run_tokens ?run"
    using assms(2) single_leg_usage [of rd st] by (simp add: plain_round_def int32_of_id)
  have upto: "[1..1 + ?n] = [1..?n] @ [?n + 1]" using upto_rec2 [of 1 "?n + 1"] by (simp add: add.commute)
  show ?thesis
    using assms(1) numbers turn tokens len upto
    by (simp add: project_run_def Let_def handleAgentTurnCompleted_def bill_turn_def count_turn_def upsert_turn_def
        turn_row_of_def checkpoint_def accounts_for_def)
qed

lemma plain_history:
  assumes "session_history rounds st" "\<And>rd run. (rd, run) \<in> set rounds \<Longrightarrow> plain_round rd run"
  shows "accounts_for rounds st"
  using assms
proof (induction rounds st rule: session_history.induct)
  case created
  then show ?case by (simp add: accounts_for_def created_session_def)
next
  case (refused rounds st maxTurns refusal st')
  then show ?case using accounts_for_unstatus [OF begin_stream_unstatus] by metis
next
  case (served rounds st rd st1 ws)
  have "accounts_for rounds st1"
    using served accounts_for_unstatus [OF begin_stream_unstatus] by (metis Un_iff set_append)
  from accounts_for_step [OF this] served.prems
  have "accounts_for (rounds @ [(rd, round_run rd st1)]) (project_run rd (round_run rd st1) st1)" by simp
  with accounts_for_unstatus [OF round_projected [OF served(3,4)]] show ?case by blast
qed

lemma plain_budget:
  assumes "session_history rounds st" "\<And>rd run. (rd, run) \<in> set rounds \<Longrightarrow> plain_round rd run"
    and "\<And>rd run. (rd, run) \<in> set rounds \<Longrightarrow> lp_SessionTokenBudget (sc_loop (rd_config rd)) = budget" "budget > 0"
  shows "budget_ok budget 0 (concat (map (\<lambda>(rd, run). responses_of (sr_legs run)) rounds))"
  using assms(1-3)
proof (induction rounds st rule: session_history.induct)
  case created
  then show ?case by (simp add: budget_ok_def)
next
  case (served rounds st rd st1 ws)
  have plain: "\<And>rd run. (rd, run) \<in> set rounds \<Longrightarrow> plain_round rd run"
    "\<And>rd run. (rd, run) \<in> set rounds \<Longrightarrow> lp_SessionTokenBudget (sc_loop (rd_config rd)) = budget"
    using served.prems by (metis Un_iff set_append)+
  have before: "budget_ok budget 0 (concat (map (\<lambda>(rd, run). responses_of (sr_legs run)) rounds))"
    by (rule served.IH) (fact plain)+
  have "ss_total_tokens st1 = ss_total_tokens st" using begin_stream_unstatus [OF served(2)] by (simp add: unstatus_eq_iff)
  also have "\<dots> = sum_list (map (\<lambda>(rd, run). run_tokens run) rounds)"
    using plain_history [OF served(1) plain(1)] by (simp add: accounts_for_def)
  also have "\<dots> = sum_list (map response_tokens (concat (map (\<lambda>(rd, run). responses_of (sr_legs run)) rounds)))"
    by (induction rounds) (auto simp: run_tokens_def)
  finally have "budget_ok budget (0 + sum_list (map response_tokens (concat (map (\<lambda>(rd, run). responses_of (sr_legs run)) rounds))))
      (responses_of (sr_legs (round_run rd st1)))"
    using round_state(2) [of rd st1] served.prems(2) [of rd "round_run rd st1"] assms(4) by simp
  from budget_ok_append [OF before this] show ?case by simp
qed (use assms in blast)


text \<open>The worked example as the only message of a session, whose context is done after its one leg.\<close>

definition example_round :: "unit round" where
  "example_round = \<lparr>rd_config = \<lparr>sc_loop = example_config, sc_text = example_ops, sc_path_match = \<lambda>_ _. False\<rparr>,
     rd_worlds = \<lambda>_. \<lparr>lw_world = example_world, lw_toolLoop = Some example_tools, lw_interceptor = None, lw_memory = None,
       lw_done = True\<rparr>,
     rd_input = example_input, rd_agentPrompt = [], rd_maxHistory = 100, rd_maxTurns = 1, rd_steers = [], rd_force = False,
     rd_ask_fields = \<lambda>_. None\<rparr>"

definition example_store :: session_store where
  "example_store = fold apply_write (round_writes example_round created_session) created_session"

lemma example_round_run:
  "sr_legs (round_run example_round created_session) = [(new_session, example_run)]"
  "sr_panicked (round_run example_round created_session) = rr_panicked example_run"
proof -
  have state: "initial_state [] 100 [] created_session = new_session"
    by (simp add: initial_state_def created_session_def new_session_def reconcileTurnNumber_def max_turn_number_def
        trimTurnsToHistoryBudget_def)
  have leg: "run_leg (rd_config example_round) (rd_worlds example_round 0) example_input new_session = example_run"
    by (simp add: run_leg_def example_round_def leg_input_def example_run_def) (simp add: example_input_def)
  have "run_legs (rd_config example_round) (rd_worlds example_round) 0 example_input new_session =
      ([(new_session, example_run)], map EvOfLoop (rr_events example_run))"
    by (subst run_legs.simps) (simp add: leg goes_on_def Let_def, simp add: example_round_def)
  moreover have run: "round_run example_round created_session =
      run_session (rd_config example_round) (rd_worlds example_round) example_input new_session"
    by (simp add: round_run_def example_round_def state)
  ultimately show "sr_legs (round_run example_round created_session) = [(new_session, example_run)]"
    "sr_panicked (round_run example_round created_session) = rr_panicked example_run"
    by (simp_all add: run run_session_state)
qed


section \<open>Lapses of the account\<close>

text \<open>
  After a round of several legs the counter of the session is behind the numbers of its turns, and from then on no
  checkpoint of a resolved run meets it: neither counter of the session moves again, and with the tokens of the session
  its budget stands still too.
\<close>

definition behind :: "session_store \<Rightarrow> bool" where
  "behind st \<longleftrightarrow> ss_turn_count st < max_turn_number (ss_turns st)"

lemma upsert_turn_numbers: "tr_number ` set (upsert_turn row turns) = insert (tr_number row) (tr_number ` set turns)"
proof -
  have "map tr_number (upsert_turn row turns) =
      map tr_number turns @ (if tr_number row \<in> tr_number ` set turns then [] else [tr_number row])"
    by (simp add: upsert_turn_def)
  from arg_cong [OF this, of set] show ?thesis by (auto split: if_splits)
qed

lemma upsert_existing:
  assumes "row \<in> set turns" "tr_number new = tr_number row"
  shows "\<exists>row' \<in> set (upsert_turn new turns). tr_number row' = tr_number new \<and>
      tr_user_input row' = tr_user_input new \<and> tr_assistant_output row' = tr_assistant_output new"
    "length (upsert_turn new turns) = length turns"
proof -
  define g where "g old = (if tr_number old = tr_number new
    then new\<lparr>tr_timeline := (if tr_timeline new = [] then tr_timeline old else tr_timeline new)\<rparr> else old)" for old
  have "upsert_turn new turns = map g turns" using assms by (auto simp: upsert_turn_def g_def)
  moreover have "g row \<in> set (map g turns)" using assms(1) by simp
  moreover have "tr_number (g row) = tr_number new \<and> tr_user_input (g row) = tr_user_input new \<and>
      tr_assistant_output (g row) = tr_assistant_output new" using assms(2) by (simp add: g_def)
  ultimately show "\<exists>row' \<in> set (upsert_turn new turns). tr_number row' = tr_number new \<and>
      tr_user_input row' = tr_user_input new \<and> tr_assistant_output row' = tr_assistant_output new"
    "length (upsert_turn new turns) = length turns" by (metis, simp)
qed

lemma checkpoint_row [simp]:
  "tr_number (turn_row_of status (checkpoint ask_fields userInput s)) = ls_TurnNumber s"
  "tr_user_input (turn_row_of status (checkpoint ask_fields userInput s)) = userInput"
  "tr_assistant_output (turn_row_of status (checkpoint ask_fields userInput s)) = ls_LastAssistantText s"
  by (simp_all add: turn_row_of_def checkpoint_def Let_def)

lemma project_run_fields:
  "ss_turns (project_run rd run st) = upsert_turn (turn_row_of (if ls_FinishReason (sr_state run) = ''error'' then ''failed'' else ''completed'')
     (checkpoint (rd_ask_fields rd) (li_UserInput (rd_input rd)) (sr_state run))) (ss_turns st)"
  "ss_turn_count st \<noteq> ls_TurnNumber (sr_state run) - 1 \<Longrightarrow>
     ss_turn_count (project_run rd run st) = ss_turn_count st \<and> ss_total_tokens (project_run rd run st) = ss_total_tokens st"
  by (simp_all add: project_run_def Let_def handleAgentTurnCompleted_def bill_turn_def count_turn_def checkpoint_def)

lemma max_turn_number_ge: "tr_number row \<le> max_turn_number (upsert_turn row turns)"
proof -
  have "tr_number row \<in> tr_number ` set (upsert_turn row turns)" by (simp add: upsert_turn_numbers)
  then show ?thesis by (auto simp: max_turn_number_def intro: Max_ge)
qed

lemma account_falls_behind:
  assumes "ss_turn_count st \<le> max_turn_number (ss_turns st)" "leg_resolved (rd_worlds rd 0) (rd_input rd)"
    and "behind st \<or> length (sr_legs (round_run rd st)) -
      (if leg_resolved (rd_worlds rd (length (sr_legs (round_run rd st)) - 1)) (rd_input rd) then 0 else 1) \<ge> 2"
  shows "behind (project_run rd (round_run rd st) st)"
    "ss_turn_count (project_run rd (round_run rd st) st) = ss_turn_count st"
    "ss_total_tokens (project_run rd (round_run rd st) st) = ss_total_tokens st"
proof -
  let ?run = "round_run rd st"
  have "length (sr_legs ?run) \<ge> 1" using round_state(3) [of rd st] by (cases "sr_legs ?run") auto
  then have ahead: "ls_TurnNumber (sr_state ?run) - 1 > ss_turn_count st"
    using round_state(1) [of rd st] assms
    by (cases "length (sr_legs ?run) = 1") (auto simp: behind_def split: if_splits)
  then show same: "ss_turn_count (project_run rd ?run st) = ss_turn_count st"
    "ss_total_tokens (project_run rd ?run st) = ss_total_tokens st"
    using project_run_fields(2) [of st ?run rd] by simp_all
  have "ls_TurnNumber (sr_state ?run) \<le> max_turn_number (ss_turns (project_run rd ?run st))"
    unfolding project_run_fields(1) by (rule order_trans [OF _ max_turn_number_ge]) simp
  with ahead show "behind (project_run rd ?run st)" by (simp add: behind_def same)
qed

text \<open>
  A model that cannot be resolved: the turn is not counted, so its checkpoint carries the number of the last one
  and is written over its row, which then holds the new message of the user and no answer.
\<close>

lemma unresolved_overwrites:
  assumes "\<not> leg_resolved (rd_worlds rd 0) (rd_input rd)" "row \<in> set (ss_turns st)"
    and "tr_number row = max (int (length (ss_turns st))) (max_turn_number (ss_turns st))"
  shows "\<exists>row' \<in> set (ss_turns (project_run rd (round_run rd st) st)).
      tr_number row' = tr_number row \<and> tr_user_input row' = li_UserInput (rd_input rd) \<and> tr_assistant_output row' = []"
    "length (ss_turns (project_run rd (round_run rd st) st)) = length (ss_turns st)"
proof -
  let ?s = "initial_state (rd_agentPrompt rd) (rd_maxHistory rd) (rd_steers rd) st"
  have "\<not> goes_on (rd_worlds rd 0) 0 (run_leg (rd_config rd) (rd_worlds rd 0) (rd_input rd) ?s)"
    using assms(1) goes_on_resolved by blast
  then have state: "sr_state (round_run rd st) = ?s"
    using run_leg_unresolved(1) [OF assms(1)] by (simp add: round_run_def run_session_state run_legs_step(2))
  show "\<exists>row' \<in> set (ss_turns (project_run rd (round_run rd st) st)).
      tr_number row' = tr_number row \<and> tr_user_input row' = li_UserInput (rd_input rd) \<and> tr_assistant_output row' = []"
    "length (ss_turns (project_run rd (round_run rd st) st)) = length (ss_turns st)"
    unfolding project_run_fields(1) state using assms(3)
      upsert_existing [OF assms(2), of "turn_row_of _ (checkpoint (rd_ask_fields rd) (li_UserInput (rd_input rd)) ?s)"]
    by simp_all
qed

text \<open>
  The prompt of a turn is built only for an empty conversation: the manifest of skills, the digest, the memory and
  the policy on questions are left out whenever the agent has a system prompt of its own or the session has a history.
\<close>

lemma prompt_left_out:
  "prompts_now input (initial_state agentPrompt maxHistory steers st) \<Longrightarrow> agentPrompt = [] \<and> steers = []"
  by (simp add: prompts_now_def initial_state_def reconcileTurnNumber_def split: if_splits)

text \<open>The checkpoint and the launcher disagree on the status of a session whose turn stopped at a limit.\<close>

lemma status_contested:
  assumes "ls_Done s" "ls_FinishReason s \<in> {''max_iterations'', ''max_steps'', ''max_tool_calls'', ''token_budget_exhausted''}"
  shows "checkpoint_status s = ''completed'' \<and> status_after_turn False (ls_FinishReason s) = ''waiting_for_input''"
  using assms by (auto simp: checkpoint_status_def status_after_turn_def isTerminalFinishReason_def)

end
