(* ===== verification/Spec2Isabelle.thy ===== *)
theory Spec2Isabelle
  imports AuthzMatrix AuthzStoreAgreement LifecycleSystem LifecycleRecovery
    WorkflowRun WorkflowTemplate ShellFrame SubnetAlloc LogBuffer PolicyGuarantees TriggerGuarantees
    WalletGuarantees WalletEnforcement GatewayGuarantees GatewayOutcomes AgentGuarantees
    AgentSessionGuarantees
begin

text \<open>
  Everstack is an agent platform: agents run in sandboxes, workflows connect model calls and tools,
  and every call is authorized against a tenant's relation graph. This library models the parts of
  it that decide something by themselves and proves what the rest of the system relies on. All
  paths below are relative to \<open>src/\<close>.

  \<^bold>\<open>Authorization\<close> (\<open>pkg/authz\<close>). \<open>AuthzTuple\<close> holds objects, subjects and tuples with their printed
  form and parsers (\<open>tuple.go\<close>, \<open>builders.go\<close>; C1 is the round trip). \<open>AuthzModel\<close> is the coarse role
  matrix (\<open>model.go\<close>), monotone in the role order. \<open>AuthzSchema\<close> and \<open>AuthzEngine\<close> are the rewrite schema and the bounded
  search for a permission (\<open>schema.go\<close>, \<open>engine.go\<close>); the search is compared with an inductive
  derivation \<open>has_relation\<close>, which knows neither a visited set nor a depth bound, in \<open>AuthzDecision\<close>
  (C2, C3: sound and complete, hence independent of the order of the store's answers, never out of depth
  on a container hierarchy; the bound 32 of the code exceeds the longest chain, 19). \<open>AuthzStore\<close>
  holds both tuple stores and the session bridge (\<open>store.go\<close>, \<open>store_postgres.go\<close>, \<open>tenant.go\<close>,
  \<open>bridge.go\<close>); the interface they share is the locale \<open>tuple_store\<close>, interpreted for each of them,
  and C8 (\<open>AuthzStoreAgreement\<close>) shows them interchangeable. \<open>AuthzEnforce\<close> models the interceptor,
  the batch check of the UI and the backfill (\<open>authzconnect/interceptor.go\<close>,
  \<open>authzhttp/batchcheck.go\<close>, \<open>backfill.go\<close>); \<open>AuthzGuarantees\<close> and \<open>AuthzMatrix\<close> prove what they
  promise (C4 to C7: enforcement is the derivation, the UI agrees with
  enforcement, tenants are isolated, the schema mirrors the matrix), and that shadow mode never
  blocks and the backfill reaches every instance.

  \<^bold>\<open>Sandbox lifecycle\<close> (\<open>internal/orchestrator/sandbox\<close>). \<open>LifecycleRow\<close> is a row of the table
  \<open>sandbox_instances\<close> and the vocabulary of the backend; \<open>LifecycleStep\<close> is the step function of the
  state machine (\<open>step.go\<close>; C9 types it). \<open>LifecycleRepo\<close> gives each SQL statement of
  \<open>repository.go\<close> as its effect on the table, \<open>LifecycleLoops\<close> the ticks of the background loops
  (\<open>idle.go\<close>, \<open>recovery.go\<close>, \<open>archive.go\<close>, \<open>health_sweeper.go\<close>) and of the reconciler
  (\<open>reconciler.go\<close>). \<open>LifecycleProcess\<close> is about one claimed row (C10: leases protect
  rows; also that leases are exclusive, that rows at rest never fail, and the retry delays); \<open>LifecycleConvergence\<close> about
  repeated rounds (C11, C12: which desired states are reached, when a sandbox is given up);
  \<open>LifecycleRecovery\<close> about recovery, workspaces and the health sweeper (recovery gives up, a sandbox is
  declared dead at the second strike only). \<open>LifecycleSystem\<close>
  interleaves everything, stale workers and crashed pods included, as an inductive step relation with
  an invariant (C13: the plan limit; also that no worker touches a row at rest).

  \<^bold>\<open>Workflows\<close> (\<open>internal/workflows/engine\<close>). \<open>WorkflowGraph\<close> builds the graph (C14), \<open>WorkflowLedger\<close>
  is the log of node outputs (locale \<open>output_log\<close>, interpreted for the index by id and the index by
  label), \<open>WorkflowResolver\<close> and \<open>WorkflowTemplate\<close> resolve expressions and templates (C15;
  the loop is a \<open>partial_function\<close>, since it need not end), \<open>WorkflowEngine\<close> and \<open>WorkflowRun\<close> execute a
  graph (C16, C17: the run is a path, the ledger is its trace; also that acyclic graphs complete).

  \<^bold>\<open>Sandbox services\<close> (\<open>internal/sandbox\<close>). \<open>ShellFrame\<close> is the terminal protocol between host and
  microVM (C18), \<open>SubnetAlloc\<close> the allocator of subnets (locale \<open>slot_pool\<close>; C19), \<open>LogBuffer\<close>
  the bounded log with its line cutter, which shows a window of what was written.

  \<^bold>\<open>Agent policies\<close> (\<open>internal/agents/policy\<close>). \<open>Policy\<close>, \<open>PolicyEvaluator\<close> and \<open>PolicyGuarantees\<close> hold
  configuration and defaults, the evaluation of a phase and the three checks in
  \<open>internal/agents/runtime/loop.go\<close> (C20).

  \<^bold>\<open>Triggers\<close> (\<open>internal/agents/trigger\<close>). \<open>TriggerStore\<close> gives each statement of
  \<open>postgres_store.go\<close> as its effect on the tables of triggers and executions, \<open>TriggerBreaker\<close> the
  circuit breaker (\<open>circuit_breaker.go\<close>; locale \<open>circuit_columns\<close>, interpreted on the statements),
  \<open>TriggerExecutor\<close> the firing of a trigger (\<open>executor.go\<close>); \<open>TriggerCircuit\<close> proves that together
  they implement the abstract breaker (C21). \<open>TriggerFiring\<close> holds the scheduler, the webhook
  endpoint, the event subscriber and the validation, \<open>TriggerSystem\<close> interleaves them with everything
  in flight (C22: an open circuit of a cron or event trigger is final), and \<open>TriggerGuarantees\<close>
  shows when an activation fires (C23).

  \<^bold>\<open>Billing wallet\<close> (\<open>internal/billingidentity\<close>, \<open>internal/billingcredit\<close>, \<open>internal/billingmeter\<close>,
  \<open>internal/api/grpc/gateway/v1/inference_meter.go\<close>, \<open>cmd/serve/shared_sandbox_billing.go\<close>).
  \<open>WalletIdentity\<close> says which organization pays for a tenant. \<open>WalletStore\<close> is the billing schema with
  each statement (locale \<open>ledger_book\<close>, interpreted on the ledger), every one of which may fail;
  \<open>WalletCredit\<close> the transaction of the sandbox gate, \<open>WalletMeter\<close> the inference debit and the meter
  of a request. \<open>WalletSystem\<close> specifies a wallet as an account and a list of charges, and
  \<open>WalletRefinement\<close> relates the schema to it; \<open>WalletGuarantees\<close> proves that any sequence of events
  keeps them in agreement (C24), what the gate answers (C25) and what a request costs (C26).
  \<open>WalletReporter\<close> is a round of the usage reporter and \<open>WalletEnforcement\<close> shows that what it does to a
  tenant is what billing answered for it (C27).

  \<^bold>\<open>Model gateway\<close> (\<open>internal/api/grpc/gateway/v1\<close>, \<open>internal/lib/handlers/gateway\<close>,
  \<open>internal/providers/ratelimit\<close>, \<open>internal/services/api_key_selector\<close>). A request names a model; the
  gateway finds the tenant's provider for it, calls it, and answers a failure with another key or another
  model. \<open>GatewayLimits\<close> is the monitor of rate limits, \<open>GatewaySelector\<close> the weighted choice of a key and
  of a model (locale \<open>weighted_choice\<close>, interpreted for both), \<open>GatewayRouter\<close> registry, router and route cache,
  \<open>GatewayBalancer\<close> the load balancer node of a workflow, \<open>GatewayDefaults\<close> the two tiers of request
  defaults; \<open>GatewayGuarantees\<close> proves what they promise (C31, C32: the choice is proportional, routes lead
  to registered providers; also that the tiers compose and rotation is fair). \<open>GatewayTenants\<close> builds the bundle of a
  tenant, caches it for fifteen seconds and rotates failing keys; \<open>GatewayIsolation\<close> interleaves its
  operations for many tenants as an inductive relation with an invariant (C28: tenants keep their keys).
  \<open>GatewayPlan\<close> is the fallback plan, \<open>GatewayFallback\<close> the request, unary and streaming, with rotation and
  plan; its answers come from an upstream that is an argument. \<open>GatewayServing\<close> and \<open>GatewayOutcomes\<close>
  show how a request ends (C29), what a stream delivers (C30) and that the at most ten rotations spend distinct keys. The loops are bounded by the plan and by ten rotations, so no fuel is needed; a race
  that never ends is the outcome \<open>Hangs\<close>.

  \<^bold>\<open>Agent runtime\<close> (\<open>internal/agents/runtime\<close>, \<open>internal/functions\<close>,
  \<open>internal/lib/handlers/gateway/compact\<close>). An agent answers a message of its user in a turn: it calls the
  model, executes the tools the answer asks for, and calls the model again with their results until it
  answers without tools. \<open>AgentMessages\<close> holds messages, their texts and what is cut from the history
  (\<open>loop.go\<close>, \<open>token_counter.go\<close>), \<open>AgentStream\<close> the answer put together from a stream (\<open>engine.go\<close>; C37),
  \<open>AgentCompact\<close> the compaction of long conversations (\<open>compact\<close>, \<open>monitor.go\<close>; C38), \<open>AgentConfig\<close> the
  parsers of an agent's configuration (\<open>approval.go\<close>, \<open>engine.go\<close>), \<open>AgentTools\<close> the execution of tool calls
  with the repair of arguments that were cut off (\<open>functions/toolloop\<close>, \<open>functions/executor\<close>).
  \<open>AgentWorld\<close> is the state of a turn and the world it asks, which answers by number: the provider,
  the response cache, the reviewer, the interceptor of synthetic tools and the channels. \<open>AgentLoop\<close> is one pass
  through the loop of \<open>Loop.Run\<close>, a stage per definition in the order of the code, and a record of the run
  (\<open>world_call\<close>) beside it. \<open>AgentRun\<close> shows what each stage leaves alone and adds to the record, \<open>AgentPass\<close>
  the courses a pass may take and the loop, which ends because every pass counts against the limit (no fuel),
  and \<open>AgentTurn\<close> is the whole of \<open>Run\<close>. \<open>AgentGuarantees\<close> proves that a turn ends within its limits (C33),
  that tools behind the gate run only after a review (C34), that the budget is asked first and usage adds up
  (C35) and that repetition stops (C36); \<open>AgentExample\<close> works out the turn its witnesses use.

  \<open>AgentSession\<close> is the runner of a session (\<open>session_runner.go\<close>): it repeats \<open>Run\<close> while a turn stops at a
  limit, at most five times, so no fuel is needed; each of these legs has a world of its own. \<open>AgentCheckpoint\<close>
  is what its last state is persisted as (\<open>checkpoint.go\<close>, \<open>turn_timeline.go\<close>, \<open>user_input_format.go\<close> and the
  handler of the command), \<open>AgentStore\<close> the rows of the session and its turns (\<open>projections.go\<close>), the state a turn
  begins in and the status it ends with (\<open>agents.go\<close>, \<open>session_manager.go\<close>), and a session as the inductive
  relation \<open>session_history\<close>, in which the writes of a turn land in any order. \<open>AgentSessionGuarantees\<close> proves
  that a run ends (C39) and that the account of a session is that of its turns, with the token budget over all of them
  (C40), as long as no turn is continued and every model is resolved; and what happens to the account otherwise.

  \<^bold>\<open>Conventions.\<close> A Go string is its list of bytes; \<open>Prelude\<close> and \<open>GoValue\<close> hold the functions of the
  standard library that occur and the decoded JSON values. A Go error is the left summand or an
  option. A mutex makes each operation atomic, so a concurrent component is its sequence of
  operations. A time is an integer of seconds (or nanoseconds where the code compares them) that the
  caller passes in. Maps that Go ranges over in random order are lists in any order, and the
  theorems hold for each of them.

  \<^bold>\<open>Parameters.\<close> The sandbox backend (\<open>executor\<close>), the node executors, the rows a query has locked,
  the JSON decoders, the regular expressions and case folding (\<open>text_ops\<close>), the formatting of values
  (\<open>go_fmt\<close>), the extractors of the interceptor, the cron library (\<open>cron_lib\<close>), the sessions a trigger
  starts (\<open>exec_env\<close>), hashes, the output of host commands, the answers of
  central billing, the upstream providers and their factories, Postgres's cast to uuid and the rounding of floats are arguments of the
  definitions; the witnesses instantiate them.

  \<^bold>\<open>Not modelled.\<close> Failures of the database connection outside the wallet's transactions (every
  other statement succeeds or affects no row),
  tickers and goroutine start-up, logging, tracing and metrics; the sandbox backends, the clients of
  model providers, the gateway's own tool loop, response caches and static file, the API servers and the generated code,
  which are I/O around the parts above. Of the agents, the session manager (its
  registry, the delivery of decisions and answers, the reapers), background jobs, forks and the planner are not
  modelled, nor are spans and durations; of a billing record only the key and the tokens are.
\<close>

end
